(* ===== verification/Js_Prelude.thy ===== *)
theory Js_Prelude
  imports Complex_Main "HOL-Library.AList" "HOL-Library.Char_ord" "HOL-Library.List_Lexorder"
begin

text \<open>
  The part of the JavaScript runtime the modelled TypeScript relies on: strings and their
  ASCII case folding, decimal rendering and parsing of integers, truncating BigInt division,
  insertion-ordered Map and Set objects, thrown errors as sum values, and JSON values.
  The generic lemmas every component shares live here.
\<close>

section \<open>Thrown values\<close>

text \<open>
  A thrown error carries its class and its message; \<open>AppError\<close> (app-core contracts.ts)
  carries its code and HTTP status.
\<close>

datatype js_error =
    RangeError string
  | TypeError string
  | JsError string
  | AppError string int
  | ZodError string

type_synonym 'a outcome = "js_error + 'a"

fun outcome_map :: "('a \<Rightarrow> 'b) \<Rightarrow> 'a outcome \<Rightarrow> 'b outcome" where
  "outcome_map g (Inl e) = Inl e"
| "outcome_map g (Inr a) = Inr (g a)"

fun outcome_bind :: "'a outcome \<Rightarrow> ('a \<Rightarrow> 'b outcome) \<Rightarrow> 'b outcome" where
  "outcome_bind (Inl e) g = Inl e"
| "outcome_bind (Inr a) g = g a"

fun traverse :: "('a \<Rightarrow> 'b outcome) \<Rightarrow> 'a list \<Rightarrow> 'b list outcome" where
  "traverse g [] = Inr []"
| "traverse g (x # xs) =
     outcome_bind (g x) (\<lambda>y. outcome_map (\<lambda>ys. y # ys) (traverse g xs))"

definition require :: "bool \<Rightarrow> js_error \<Rightarrow> unit outcome" where
  "require b e = (if b then Inr () else Inl e)"

lemma outcome_bind_Inr [simp]:
  "outcome_bind m g = Inr b \<longleftrightarrow> (\<exists>a. m = Inr a \<and> g a = Inr b)"
  by (cases m) auto

lemma outcome_map_Inr [simp]:
  "outcome_map g m = Inr b \<longleftrightarrow> (\<exists>a. m = Inr a \<and> g a = b)"
  by (cases m) auto

lemma require_Inr [simp]: "require b e = Inr u \<longleftrightarrow> b"
  by (simp add: require_def)

lemma traverse_length: "traverse g xs = Inr ys \<Longrightarrow> length ys = length xs"
  by (induction xs arbitrary: ys) auto

lemma traverse_total:
  "(\<And>x. x \<in> set xs \<Longrightarrow> g x = Inr (h x)) \<Longrightarrow> traverse g xs = Inr (map h xs)"
  by (induction xs) auto

section \<open>JSON values\<close>

datatype json =
    JNull
  | JBool bool
  | JNum rat
  | JStr string
  | JArr "json list"
  | JObj "(string \<times> json) list"

section \<open>Strings\<close>

definition lower_char :: "char \<Rightarrow> char" where
  "lower_char c =
     (let n = (of_char c :: nat) in if 65 \<le> n \<and> n \<le> 90 then char_of (n + 32) else c)"

definition toLowerCase :: "string \<Rightarrow> string" where
  "toLowerCase s = map lower_char s"

definition is_digit :: "char \<Rightarrow> bool" where
  "is_digit c = (let n = (of_char c :: nat) in 48 \<le> n \<and> n \<le> 57)"

definition digit_val :: "char \<Rightarrow> nat" where
  "digit_val c = of_char c - 48"

definition digit_char :: "nat \<Rightarrow> char" where
  "digit_char d = char_of (48 + d)"

fun dec_nat :: "nat \<Rightarrow> string" where
  "dec_nat n =
     (if n < 10 then [digit_char n] else dec_nat (n div 10) @ [digit_char (n mod 10)])"

declare dec_nat.simps [simp del]

definition dec :: "int \<Rightarrow> string" where
  "dec i = (if i < 0 then CHR ''-'' # dec_nat (nat (- i)) else dec_nat (nat i))"

definition digits_val :: "string \<Rightarrow> nat" where
  "digits_val s = foldl (\<lambda>n c. 10 * n + digit_val c) 0 s"

text \<open>A value matched by the regular expression \<open>^\d+$\<close> and read by BigInt.\<close>

definition parse_dec :: "string \<Rightarrow> nat option" where
  "parse_dec s = (if s \<noteq> [] \<and> list_all is_digit s then Some (digits_val s) else None)"

fun starts_with :: "string \<Rightarrow> string \<Rightarrow> bool" where
  "starts_with [] s = True"
| "starts_with (p # ps) [] = False"
| "starts_with (p # ps) (c # cs) = (p = c \<and> starts_with ps cs)"

lemma lower_char_idem [simp]: "lower_char (lower_char c) = lower_char c"
proof (cases "65 \<le> (of_char c :: nat) \<and> of_char c \<le> (90 :: nat)")
  case True
  then have "(of_char (char_of (of_char c + 32 :: nat)) :: nat) = of_char c + 32"
    by (simp add: take_bit_nat_eq_self)
  then show ?thesis using True by (simp add: lower_char_def Let_def)
next
  case False
  then have "lower_char c = c" by (auto simp: lower_char_def Let_def)
  then show ?thesis by simp
qed

lemma toLowerCase_idem [simp]: "toLowerCase (toLowerCase s) = toLowerCase s"
  by (simp add: toLowerCase_def)

lemma toLowerCase_append [simp]: "toLowerCase (s @ t) = toLowerCase s @ toLowerCase t"
  by (simp add: toLowerCase_def)

lemma length_toLowerCase [simp]: "length (toLowerCase s) = length s"
  by (simp add: toLowerCase_def)

lemma starts_with_iff: "starts_with p s \<longleftrightarrow> (\<exists>t. s = p @ t)"
  by (induction p s rule: starts_with.induct) auto

lemma starts_with_append [simp]: "starts_with p (p @ t)"
  by (auto simp: starts_with_iff)

lemma of_char_digit_char: "d < 10 \<Longrightarrow> (of_char (digit_char d) :: nat) = 48 + d"
  by (simp add: digit_char_def take_bit_nat_eq_self)

lemma is_digit_digit_char [simp]: "d < 10 \<Longrightarrow> is_digit (digit_char d)"
  by (simp add: is_digit_def of_char_digit_char)

lemma digit_val_digit_char [simp]: "d < 10 \<Longrightarrow> digit_val (digit_char d) = d"
  by (simp add: digit_val_def of_char_digit_char)

lemma dec_nat_nonempty [simp]: "dec_nat n \<noteq> []"
  by (subst dec_nat.simps) simp

lemma dec_nat_digits: "list_all is_digit (dec_nat n)"
proof (induction n rule: dec_nat.induct)
  case (1 n)
  then show ?case by (subst dec_nat.simps) (simp add: list_all_append)
qed

lemma digits_val_append: "digits_val (s @ [c]) = 10 * digits_val s + digit_val c"
  by (simp add: digits_val_def)

lemma digits_val_dec_nat [simp]: "digits_val (dec_nat n) = n"
proof (induction n rule: dec_nat.induct)
  case (1 n)
  show ?case
  proof (cases "n < 10")
    case True
    then show ?thesis by (subst dec_nat.simps) (simp add: digits_val_def)
  next
    case False
    then have "digits_val (dec_nat n) = 10 * digits_val (dec_nat (n div 10)) + n mod 10"
      by (subst dec_nat.simps) (simp add: digits_val_append)
    also have "\<dots> = n" using "1.IH" [OF False] by simp
    finally show ?thesis .
  qed
qed

lemma parse_dec_dec_nat [simp]: "parse_dec (dec_nat n) = Some n"
  by (simp add: parse_dec_def dec_nat_digits)

lemma dec_nat_inj [simp]: "dec_nat m = dec_nat n \<longleftrightarrow> m = n"
  by (metis digits_val_dec_nat)

lemma not_digit_minus: "\<not> is_digit (CHR ''-'')"
  by (simp add: is_digit_def)

lemma not_digit_colon: "\<not> is_digit (CHR '':'')"
  by (simp add: is_digit_def)

lemma dec_nat_hd: "\<exists>c cs. dec_nat n = c # cs \<and> is_digit c"
  using dec_nat_digits [of n] by (cases "dec_nat n") auto

lemma dec_inj [simp]: "dec i = dec j \<longleftrightarrow> i = j"
proof -
  have *: "CHR ''-'' # s \<noteq> dec_nat m" for s m
    using dec_nat_hd [of m] not_digit_minus by auto
  show ?thesis
    using * *[symmetric] by (auto simp: dec_def)
qed

lemma colon_notin_dec: "CHR '':'' \<notin> set (dec i)"
  using dec_nat_digits not_digit_colon by (auto simp: dec_def list_all_iff split: if_splits)

text \<open>
  Composite keys: two strings joined by a colon agree only when both parts do, as long as
  the first parts hold no colon. Every Map key of the stores below has this shape.
\<close>

lemma colon_split:
  assumes "CHR '':'' \<notin> set s" "CHR '':'' \<notin> set s'"
  shows "s @ CHR '':'' # t = s' @ CHR '':'' # t' \<longleftrightarrow> s = s' \<and> t = t'"
  using assms
proof (induction s arbitrary: s')
  case Nil
  then show ?case by (cases s') auto
next
  case (Cons c s)
  then show ?case by (cases s') auto
qed

lemma dec_colon_split [simp]:
  "dec i @ CHR '':'' # t = dec j @ CHR '':'' # t' \<longleftrightarrow> i = j \<and> t = t'"
  by (simp add: colon_split colon_notin_dec)

lemma starts_with_dec_colon [simp]:
  "starts_with (dec i @ '':'') (dec j @ CHR '':'' # t) \<longleftrightarrow> i = j"
  by (auto simp: starts_with_iff)

section \<open>BigInt\<close>

text \<open>Division of BigInt values truncates towards zero; every use is guarded against a zero divisor.\<close>

definition bigint_div :: "int \<Rightarrow> int \<Rightarrow> int" where
  "bigint_div a b = sgn a * sgn b * (\<bar>a\<bar> div \<bar>b\<bar>)"

lemma bigint_div_nonneg: "0 \<le> a \<Longrightarrow> 0 < b \<Longrightarrow> bigint_div a b = a div b"
  by (cases "a = 0") (simp_all add: bigint_div_def)

text \<open>
  \<open>BigInt(s)\<close> on a string (StringToBigInt): surrounding white space is dropped, the empty string is
  0, a decimal may carry a sign, and hexadecimal, octal and binary literals may not; anything else
  is a SyntaxError.
\<close>

definition is_space :: "char \<Rightarrow> bool" where
  "is_space c = (let n = (of_char c :: nat) in (9 \<le> n \<and> n \<le> 13) \<or> n = 32 \<or> n = 160)"

definition trim :: "string \<Rightarrow> string" where
  "trim s = rev (dropWhile is_space (rev (dropWhile is_space s)))"

definition radix_digit :: "char \<Rightarrow> nat" where
  "radix_digit c =
     (let n = (of_char c :: nat) in
      if 48 \<le> n \<and> n \<le> 57 then n - 48
      else if 97 \<le> n \<and> n \<le> 122 then n - 87
      else if 65 \<le> n \<and> n \<le> 90 then n - 55
      else 99)"

definition parse_radix :: "nat \<Rightarrow> string \<Rightarrow> int option" where
  "parse_radix b s =
     (if s \<noteq> [] \<and> list_all (\<lambda>c. radix_digit c < b) s
      then Some (int (foldl (\<lambda>n c. b * n + radix_digit c) 0 s)) else None)"

definition bigint_of_string :: "string \<Rightarrow> int option" where
  "bigint_of_string s =
     (case trim s of
        [] \<Rightarrow> Some 0
      | c # cs \<Rightarrow>
          if c = CHR ''0'' \<and> cs \<noteq> [] \<and> hd cs \<in> {CHR ''x'', CHR ''X''} then parse_radix 16 (tl cs)
          else if c = CHR ''0'' \<and> cs \<noteq> [] \<and> hd cs \<in> {CHR ''o'', CHR ''O''} then parse_radix 8 (tl cs)
          else if c = CHR ''0'' \<and> cs \<noteq> [] \<and> hd cs \<in> {CHR ''b'', CHR ''B''} then parse_radix 2 (tl cs)
          else if c = CHR ''-'' then map_option uminus (map_option int (parse_dec cs))
          else if c = CHR ''+'' then map_option int (parse_dec cs)
          else map_option int (parse_dec (c # cs)))"

lemma parse_dec_nonempty: "parse_dec [] = None"
  by (simp add: parse_dec_def)

section \<open>Map and Set objects\<close>

text \<open>
  A Map is an association list in insertion order: \<open>set\<close> on a key already present keeps its
  place, a new key goes last, and lookup finds the key's entry. A Set is a list without
  repetitions, in insertion order.
\<close>

type_synonym ('k, 'v) jsmap = "('k \<times> 'v) list"

abbreviation map_get :: "('k, 'v) jsmap \<Rightarrow> 'k \<Rightarrow> 'v option" where
  "map_get m k \<equiv> map_of m k"

abbreviation map_set :: "'k \<Rightarrow> 'v \<Rightarrow> ('k, 'v) jsmap \<Rightarrow> ('k, 'v) jsmap" where
  "map_set k v m \<equiv> AList.update k v m"

abbreviation map_values :: "('k, 'v) jsmap \<Rightarrow> 'v list" where
  "map_values m \<equiv> map snd m"

definition map_has :: "('k, 'v) jsmap \<Rightarrow> 'k \<Rightarrow> bool" where
  "map_has m k = (map_of m k \<noteq> None)"

definition map_retain :: "('k \<Rightarrow> 'v \<Rightarrow> bool) \<Rightarrow> ('k, 'v) jsmap \<Rightarrow> ('k, 'v) jsmap" where
  "map_retain P m = filter (\<lambda>(k, v). P k v) m"

definition set_add :: "'a \<Rightarrow> 'a list \<Rightarrow> 'a list" where
  "set_add x xs = (if x \<in> set xs then xs else xs @ [x])"

lemma set_set_add [simp]: "set (set_add x xs) = insert x (set xs)"
  by (auto simp: set_add_def)

lemma set_add_nonempty [simp]: "set_add x xs \<noteq> []"
  by (auto simp: set_add_def)

lemma distinct_set_add [simp]: "distinct (set_add x xs) = distinct xs"
  by (auto simp: set_add_def)

lemma filter_update:
  "filter (\<lambda>p. P (fst p)) (AList.update k v m) =
     (if P k then AList.update k v (filter (\<lambda>p. P (fst p)) m) else filter (\<lambda>p. P (fst p)) m)"
  by (induction m) auto

lemma map_of_filter_key:
  "map_of (filter (\<lambda>p. P (fst p)) m) k = (if P k then map_of m k else None)"
  by (induction m) auto

lemma in_set_update:
  "(k', v') \<in> set (AList.update k v m) \<Longrightarrow> (k', v') = (k, v) \<or> (k', v') \<in> set m"
  by (induction m) (auto split: if_splits)

lemma map_of_all: "map_of m k = Some v \<Longrightarrow> \<forall>p \<in> set m. P (snd p) \<Longrightarrow> P v"
  using map_of_SomeD [of m k v] by auto

lemma update_all:
  "\<lbrakk>\<forall>p \<in> set m. P p; P (k, v)\<rbrakk> \<Longrightarrow> \<forall>p \<in> set (AList.update k v m). P p"
  by (auto dest!: in_set_update)

text \<open>The total of a measure over the stored values changes by what the update replaces.\<close>

definition map_sum :: "('v \<Rightarrow> int) \<Rightarrow> ('k, 'v) jsmap \<Rightarrow> int" where
  "map_sum h m = sum_list (map (\<lambda>p. h (snd p)) m)"

lemma map_sum_Nil [simp]: "map_sum h [] = 0"
  by (simp add: map_sum_def)

lemma map_sum_append [simp]: "map_sum h (m @ m') = map_sum h m + map_sum h m'"
  by (simp add: map_sum_def)

lemma map_sum_Cons [simp]: "map_sum h (p # m) = h (snd p) + map_sum h m"
  by (simp add: map_sum_def)

lemma map_sum_update:
  "map_sum h (AList.update k v m) =
     map_sum h m + h v - (case map_of m k of None \<Rightarrow> 0 | Some w \<Rightarrow> h w)"
  by (induction m) auto

lemma map_sum_nonneg: "\<forall>p \<in> set m. 0 \<le> h (snd p) \<Longrightarrow> 0 \<le> map_sum h m"
  by (induction m) auto

lemma map_sum_member_le:
  "\<lbrakk>\<forall>p \<in> set m. 0 \<le> h (snd p); map_of m k = Some v\<rbrakk> \<Longrightarrow> h v \<le> map_sum h m"
proof (induction m)
  case (Cons p m)
  then show ?case
    using map_sum_nonneg [of m h] by (cases p) (auto split: if_splits)
qed simp

end
