(* ===== verification/Contracts.thy ===== *)
theory Contracts
  imports Js_Prelude
begin

text \<open>
  The shared contracts of offchain/app-core/src/contracts.ts: addresses, the unsigned 256-bit
  amounts of the \<open>uint\<close> schema, business intents, operations and their classification.

  A value of the \<open>uint\<close> schema is a canonical decimal string below 2^256; canonical strings
  and naturals correspond one to one (\<open>dec_nat_inj\<close>, \<open>parse_dec_dec_nat\<close>), so such a field is
  a natural here and BigInt reads it as an integer.
\<close>

section \<open>Addresses and amounts\<close>

definition sameAddress :: "string \<Rightarrow> string \<Rightarrow> bool" where
  "sameAddress a b = (toLowerCase a = toLowerCase b)"

definition zeroAddress :: string where
  "zeroAddress = ''0x'' @ replicate 40 (CHR ''0'')"

definition uint_ok :: "int \<Rightarrow> bool" where
  "uint_ok v = (0 \<le> v \<and> v < 2 ^ 256)"

definition signedAmount_ok :: "int \<Rightarrow> bool" where
  "signedAmount_ok v = (\<bar>v\<bar> < 10 ^ 78)"

lemma sameAddress_refl [simp]: "sameAddress a a"
  by (simp add: sameAddress_def)

lemma sameAddress_sym: "sameAddress a b \<longleftrightarrow> sameAddress b a"
  by (auto simp: sameAddress_def)

lemma sameAddress_trans: "sameAddress a b \<Longrightarrow> sameAddress b c \<Longrightarrow> sameAddress a c"
  by (simp add: sameAddress_def)

section \<open>Business intents\<close>

datatype order_side = Bid | Ask

text \<open>The fields of an EIP-3009 authorization (receiveAuthorizationSchema).\<close>

record receive_authorization =
  ra_from :: string
  ra_to :: string
  ra_value :: nat
  ra_validAfter :: nat
  ra_validBefore :: nat
  ra_nonce :: string

record platform_fees =
  pf_rakeShareBps :: nat
  pf_c2cFeeBps :: nat

text \<open>The \<open>createParams\<close> of a new market (\<open>deploymentMode\<close> is 0 or 1).\<close>

record create_params =
  cp_rulesHash :: string
  cp_metadataURI :: string
  cp_resolutionSourceHash :: string
  cp_resolutionSourceURI :: string
  cp_outcomeCount :: nat
  cp_closeAt :: nat
  cp_eventStartsAt :: nat
  cp_outcomeDeadlineAt :: nat
  cp_creatorTreasury :: string
  cp_deploymentMode :: nat
  cp_featureFlags :: nat
  cp_creatorRakeBps :: nat
  cp_creatorC2CFeeBps :: nat
  cp_perUserPrimaryCap :: nat
  cp_marketPrimaryCap :: nat
  cp_minimumPrimaryUnits :: nat
  cp_minimumC2CUnits :: nat
  cp_creatorBond :: nat

datatype business_intent =
    Faucet
  | DepositUsdc string receive_authorization string
  | Buy (buy_market: string) (buy_outcomeId: nat) (buy_units: nat) (buy_minUnits: nat)
      (buy_maxPayment: nat) (buy_deadline: nat)
  | CreateMarket (cm_platformFees: "platform_fees option") (cm_params: create_params)
      (cm_userSalt: string) (cm_maxPayment: nat)
  | CreateOrder (co_market: string) (co_side: order_side) (co_outcomeId: nat) (co_units: nat)
      (co_unitPrice: nat) (co_expiresAt: nat) (co_autoMatch: bool)
  | FillOrder (fo_orderId: nat) (fo_side: order_side) (fo_units: nat) (fo_minUnits: nat)
      (fo_paymentLimit: nat) (fo_deadline: nat)
  | CancelOrder nat
  | ReleaseOrder nat
  | WithdrawOrderShares nat string
  | CreateListing (cl_market: string) (cl_outcomeId: nat) (cl_units: nat) (cl_unitPrice: nat)
      (cl_expiresAt: nat)
  | FillListing (fl_listingId: string) (fl_units: nat) (fl_minUnits: nat) (fl_maxPayment: nat)
      (fl_deadline: nat)
  | CancelListing string
  | ReturnListing string
  | Resolve string nat string
  | CreatorVoid string string
  | VoidTimeout string
  | ClaimWinner string
  | ClaimEarlyBird string
  | Refund string
  | ClaimTimeoutBonus string
  | SettleBond string
  | SettleBondAndClaim string
  | ClaimBond
  | ClaimFees
  | RevokeTradingSession string
  | Transfer string nat

datatype operation_kind =
    OK_faucet | OK_deposit_usdc | OK_buy | OK_create_market | OK_create_order | OK_fill_order
  | OK_create_listing | OK_fill_listing | OK_cancel_order | OK_release_order
  | OK_withdraw_order_shares | OK_cancel_listing | OK_return_listing | OK_resolve
  | OK_creator_void | OK_void_timeout | OK_claim_winner | OK_claim_early_bird | OK_refund
  | OK_claim_timeout_bonus | OK_settle_bond | OK_settle_bond_and_claim | OK_claim_bond
  | OK_claim_fees | OK_revoke_trading_session | OK_transfer

fun intent_kind :: "business_intent \<Rightarrow> operation_kind" where
  "intent_kind Faucet = OK_faucet"
| "intent_kind (DepositUsdc _ _ _) = OK_deposit_usdc"
| "intent_kind (Buy _ _ _ _ _ _) = OK_buy"
| "intent_kind (CreateMarket _ _ _ _) = OK_create_market"
| "intent_kind (CreateOrder _ _ _ _ _ _ _) = OK_create_order"
| "intent_kind (FillOrder _ _ _ _ _ _) = OK_fill_order"
| "intent_kind (CancelOrder _) = OK_cancel_order"
| "intent_kind (ReleaseOrder _) = OK_release_order"
| "intent_kind (WithdrawOrderShares _ _) = OK_withdraw_order_shares"
| "intent_kind (CreateListing _ _ _ _ _) = OK_create_listing"
| "intent_kind (FillListing _ _ _ _ _) = OK_fill_listing"
| "intent_kind (CancelListing _) = OK_cancel_listing"
| "intent_kind (ReturnListing _) = OK_return_listing"
| "intent_kind (Resolve _ _ _) = OK_resolve"
| "intent_kind (CreatorVoid _ _) = OK_creator_void"
| "intent_kind (VoidTimeout _) = OK_void_timeout"
| "intent_kind (ClaimWinner _) = OK_claim_winner"
| "intent_kind (ClaimEarlyBird _) = OK_claim_early_bird"
| "intent_kind (Refund _) = OK_refund"
| "intent_kind (ClaimTimeoutBonus _) = OK_claim_timeout_bonus"
| "intent_kind (SettleBond _) = OK_settle_bond"
| "intent_kind (SettleBondAndClaim _) = OK_settle_bond_and_claim"
| "intent_kind ClaimBond = OK_claim_bond"
| "intent_kind ClaimFees = OK_claim_fees"
| "intent_kind (RevokeTradingSession _) = OK_revoke_trading_session"
| "intent_kind (Transfer _ _) = OK_transfer"

datatype budget_lane = Exposure | Exit

definition budgetLane :: "operation_kind \<Rightarrow> budget_lane" where
  "budgetLane k =
     (if k \<in> {OK_faucet, OK_deposit_usdc, OK_buy, OK_create_market, OK_create_order,
              OK_fill_order, OK_create_listing, OK_fill_listing}
      then Exposure else Exit)"

section \<open>Operations\<close>

datatype operation_state =
    Preparing | AwaitingSignature | Submitted | Confirming | Confirmed | Reverted | Cancelled
  | Unknown

definition isRecoverable :: "operation_state \<Rightarrow> bool" where
  "isRecoverable s = (s \<in> {Submitted, Confirming, Unknown})"

datatype finality = FPending | ApplicationConfirmed | Finalized

datatype gas_payment = Sponsored | SelfFunded

datatype wallet_kind = EmbeddedWallet | ExternalWallet

text \<open>\<open>accountSchema\<close>, less its literal fields (kernel, entry point and derivation versions).\<close>

record app_account =
  aa_id :: string
  aa_environment :: string
  aa_deploymentId :: string
  aa_controller :: string
  aa_address :: string
  aa_walletKind :: wallet_kind
  aa_index :: nat
  aa_createdAt :: int

definition accountIdentity :: "app_account \<Rightarrow> string" where
  "accountIdentity a =
     aa_environment a @ '':'' @ aa_deploymentId a @ '':'' @ toLowerCase (aa_address a)"

datatype signing_mode = ControllerSigned | SessionSigned

text \<open>\<open>callSchema\<close>; its value is always 0.\<close>

record business_call =
  bc_to :: string
  bc_data :: string

text \<open>
  \<open>operationSchema\<close>, with its datetime strings as milliseconds since the epoch (Date.parse of
  the ISO form Date.toISOString writes). Optional fields are options; \<open>op_finality\<close> has its
  schema default applied.
\<close>

record operation =
  op_signingMode :: "signing_mode option"
  op_sessionId :: "string option"
  op_id :: string
  op_environment :: string
  op_deploymentId :: string
  op_accountId :: string
  op_account :: string
  op_kind :: operation_kind
  op_intent :: business_intent
  op_state :: operation_state
  op_nonce :: nat
  op_calls :: "business_call list"
  op_callData :: string
  op_factory :: "string option"
  op_factoryData :: "string option"
  op_providerOperationId :: "string option"
  op_userOperationHash :: "string option"
  op_transactionHash :: "string option"
  op_blockNumber :: "nat option"
  op_blockHash :: "string option"
  op_actualGasCost :: "nat option"
  op_finality :: finality
  op_createdAt :: int
  op_updatedAt :: int
  op_expiresAt :: int
  op_maxGasCost :: nat
  op_lane :: budget_lane
  op_reason :: "string option"
  op_gasPayment :: "gas_payment option"
  op_sponsorshipAttempted :: "bool option"
  op_gasSettledAt :: "int option"
  op_gasReleasedAt :: "int option"

end
