(* ===== verification/Js_Sort.thy ===== *)
theory Js_Sort
  imports Js_Prelude "HOL-Library.Multiset"
begin

text \<open>
  \<open>Array.prototype.sort\<close> with a comparator: a stable sort. The contract of a comparator is the
  locale \<open>comparator\<close>; each comparator of the program is interpreted where it is defined.
\<close>

fun sort_insert :: "('a \<Rightarrow> 'a \<Rightarrow> int) \<Rightarrow> 'a \<Rightarrow> 'a list \<Rightarrow> 'a list" where
  "sort_insert cmp x [] = [x]"
| "sort_insert cmp x (y # ys) =
     (if cmp x y \<le> 0 then x # y # ys else y # sort_insert cmp x ys)"

definition js_sort :: "('a \<Rightarrow> 'a \<Rightarrow> int) \<Rightarrow> 'a list \<Rightarrow> 'a list" where
  "js_sort cmp xs = foldr (sort_insert cmp) xs []"

text \<open>Keep the first element of each key, as a loop with a \<open>seen\<close> set does.\<close>

fun dedupe :: "('a \<Rightarrow> 'k) \<Rightarrow> 'k list \<Rightarrow> 'a list \<Rightarrow> 'a list" where
  "dedupe key seen [] = []"
| "dedupe key seen (x # xs) =
     (if key x \<in> set seen then dedupe key seen xs else x # dedupe key (key x # seen) xs)"

lemma js_sort_Nil [simp]: "js_sort cmp [] = []"
  by (simp add: js_sort_def)

lemma js_sort_Cons [simp]: "js_sort cmp (x # xs) = sort_insert cmp x (js_sort cmp xs)"
  by (simp add: js_sort_def)

lemma mset_sort_insert [simp]: "mset (sort_insert cmp x xs) = add_mset x (mset xs)"
  by (induction xs) auto

lemma mset_js_sort [simp]: "mset (js_sort cmp xs) = mset xs"
  by (induction xs) auto

lemma set_js_sort [simp]: "set (js_sort cmp xs) = set xs"
  by (metis mset_js_sort set_mset_mset)

lemma length_js_sort [simp]: "length (js_sort cmp xs) = length xs"
  by (metis mset_js_sort size_mset)

lemma set_sort_insert [simp]: "set (sort_insert cmp x xs) = insert x (set xs)"
  by (metis mset_sort_insert set_mset_add_mset_insert set_mset_mset)

lemma distinct_js_sort [simp]: "distinct (js_sort cmp xs) = distinct xs"
  by (metis mset_js_sort mset_eq_imp_distinct_iff)

lemma dedupe_seen_cong: "set seen = set seen' \<Longrightarrow> dedupe key seen xs = dedupe key seen' xs"
proof (induction xs arbitrary: seen seen')
  case (Cons x xs)
  have "dedupe key (key x # seen) xs = dedupe key (key x # seen') xs"
    using Cons.prems by (intro Cons.IH) simp
  moreover have "dedupe key seen xs = dedupe key seen' xs"
    using Cons.prems by (intro Cons.IH)
  ultimately show ?case using Cons.prems by (simp only: dedupe.simps)
qed simp

lemma dedupe_skip:
  "key y \<in> key ` set xs \<union> set seen \<Longrightarrow> dedupe key seen (xs @ y # ys) = dedupe key seen (xs @ ys)"
proof (induction xs arbitrary: seen)
  case (Cons x xs)
  show ?case
  proof (cases "key x \<in> set seen")
    case True
    then have "key y \<in> key ` set xs \<union> set seen" using Cons.prems by auto
    then show ?thesis using Cons.IH True by simp
  next
    case False
    have "key y \<in> key ` set xs \<union> set (key x # seen)" using Cons.prems by auto
    then show ?thesis using Cons.IH [of "key x # seen"] False by simp
  qed
qed simp

lemma dedupe_distinct:
  "distinct (map key xs) \<Longrightarrow> key ` set xs \<inter> set seen = {} \<Longrightarrow> dedupe key seen xs = xs"
  by (induction xs arbitrary: seen) auto

lemma set_dedupe_subset: "set (dedupe key seen xs) \<subseteq> set xs"
proof (induction xs arbitrary: seen)
  case (Cons x xs)
  show ?case using Cons [of seen] Cons [of "key x # seen"] by auto
qed simp

locale comparator =
  fixes cmp :: "'a \<Rightarrow> 'a \<Rightarrow> int"
  assumes cmp_flip: "sgn (cmp x y) = - sgn (cmp y x)"
    and cmp_trans: "cmp x y \<le> 0 \<Longrightarrow> cmp y z \<le> 0 \<Longrightarrow> cmp x z \<le> 0"
begin

lemma cmp_total: "cmp x y \<le> 0 \<or> cmp y x \<le> 0"
  using cmp_flip [of x y] by (auto simp: sgn_if split: if_splits)

lemma cmp_gt: "\<not> cmp x y \<le> 0 \<longleftrightarrow> cmp y x < 0"
  using cmp_flip [of x y] by (auto simp: sgn_if split: if_splits)

lemma cmp_refl [simp]: "cmp x x = 0"
  using cmp_flip [of x x] by (auto simp: sgn_if split: if_splits)

lemma cmp_zero: "cmp x y = 0 \<longleftrightarrow> cmp x y \<le> 0 \<and> cmp y x \<le> 0"
  using cmp_flip [of x y] by (auto simp: sgn_if split: if_splits)

lemma sorted_sort_insert:
  "sorted_wrt (\<lambda>a b. cmp a b \<le> 0) xs \<Longrightarrow> sorted_wrt (\<lambda>a b. cmp a b \<le> 0) (sort_insert cmp x xs)"
proof (induction xs)
  case (Cons y ys)
  show ?case
  proof (cases "cmp x y \<le> 0")
    case True
    then show ?thesis using Cons.prems by (auto intro: cmp_trans)
  next
    case False
    then have "cmp y x \<le> 0" using cmp_total by blast
    then show ?thesis using False Cons by auto
  qed
qed simp

lemma sorted_js_sort: "sorted_wrt (\<lambda>a b. cmp a b \<le> 0) (js_sort cmp xs)"
  by (induction xs) (auto simp: sorted_sort_insert)

lemma js_sort_id: "sorted_wrt (\<lambda>a b. cmp a b \<le> 0) xs \<Longrightarrow> js_sort cmp xs = xs"
proof (induction xs)
  case (Cons x xs)
  then show ?case by (cases xs) auto
qed simp

lemma js_sort_idem [simp]: "js_sort cmp (js_sort cmp xs) = js_sort cmp xs"
  by (simp add: js_sort_id sorted_js_sort)

lemma sorted_unique:
  assumes "sorted_wrt (\<lambda>a b. cmp a b \<le> 0) xs" "sorted_wrt (\<lambda>a b. cmp a b \<le> 0) ys"
    and "mset xs = mset ys"
    and "\<And>x y. x \<in> set xs \<Longrightarrow> y \<in> set xs \<Longrightarrow> cmp x y = 0 \<Longrightarrow> x = y"
  shows "xs = ys"
  using assms
proof (induction xs arbitrary: ys)
  case (Cons x xs)
  obtain y zs where ys: "ys = y # zs"
    using Cons.prems(3) by (cases ys) auto
  have sets: "set (x # xs) = set ys" using Cons.prems(3) by (metis set_mset_mset)
  have "cmp x y \<le> 0"
  proof (cases "y = x")
    case False
    then show ?thesis using sets ys Cons.prems(1) by auto
  qed simp
  moreover have "cmp y x \<le> 0"
  proof (cases "y = x")
    case False
    then have "x \<in> set zs" using sets ys by auto
    then show ?thesis using ys Cons.prems(2) by auto
  qed simp
  ultimately have "x = y" using Cons.prems(4) sets ys by (auto simp: cmp_zero)
  moreover have "xs = zs" using Cons.IH [of zs] Cons.prems ys \<open>x = y\<close> by auto
  ultimately show ?case using ys by simp
qed simp

lemma js_sort_perm:
  assumes "mset xs = mset ys"
    and "\<And>x y. x \<in> set xs \<Longrightarrow> y \<in> set xs \<Longrightarrow> cmp x y = 0 \<Longrightarrow> x = y"
  shows "js_sort cmp xs = js_sort cmp ys"
  using assms by (intro sorted_unique) (auto simp: sorted_js_sort)

lemma sort_insert_before:
  "\<lbrakk>cmp x y \<le> 0; \<forall>b \<in> set B. cmp y b \<le> 0\<rbrakk> \<Longrightarrow>
   sort_insert cmp x (A @ y # B) = sort_insert cmp x A @ y # B"
  by (induction A) auto

lemma sort_insert_before':
  "\<lbrakk>\<forall>b \<in> set B. cmp x b \<le> 0\<rbrakk> \<Longrightarrow> sort_insert cmp x (A @ B) = sort_insert cmp x A @ B"
  by (induction A) (cases B, auto)

lemma sort_insert_after:
  "\<forall>a \<in> set A. \<not> cmp x a \<le> 0 \<Longrightarrow> sort_insert cmp x (A @ B) = A @ sort_insert cmp x B"
  by (induction A) auto

text \<open>Appending one element places it after everything not greater: this is stability.\<close>

lemma js_sort_snoc:
  "\<exists>A B. js_sort cmp xs = A @ B \<and> js_sort cmp (xs @ [y]) = A @ y # B \<and>
     (\<forall>a \<in> set A. cmp a y \<le> 0) \<and> (\<forall>b \<in> set B. cmp y b < 0)"
proof (induction xs)
  case (Cons x xs)
  then obtain A B where AB: "js_sort cmp xs = A @ B" "js_sort cmp (xs @ [y]) = A @ y # B"
    "\<forall>a \<in> set A. cmp a y \<le> 0" "\<forall>b \<in> set B. cmp y b < 0"
    by blast
  show ?case
  proof (cases "cmp x y \<le> 0")
    case True
    have "\<forall>b \<in> set B. cmp y b \<le> 0" using AB(4) by auto
    moreover from this have "\<forall>b \<in> set B. cmp x b \<le> 0" using True cmp_trans by blast
    ultimately have "js_sort cmp (x # xs) = sort_insert cmp x A @ B"
      "js_sort cmp ((x # xs) @ [y]) = sort_insert cmp x A @ y # B"
      using AB True by (simp_all add: sort_insert_before sort_insert_before')
    then show ?thesis using AB True by (intro exI [of _ "sort_insert cmp x A"] exI [of _ B]) auto
  next
    case False
    have "\<forall>a \<in> set A. \<not> cmp x a \<le> 0" using AB(3) False cmp_trans by blast
    then have "js_sort cmp (x # xs) = A @ sort_insert cmp x B"
      "js_sort cmp ((x # xs) @ [y]) = A @ y # sort_insert cmp x B"
      using AB False by (simp_all add: sort_insert_after)
    moreover have "cmp y x < 0" using False cmp_gt by blast
    ultimately show ?thesis using AB by (intro exI [of _ A] exI [of _ "sort_insert cmp x B"]) auto
  qed
qed (auto intro: exI [of _ "[]"])

lemma sort_insert_head:
  "\<forall>b \<in> set ys. cmp x b \<le> 0 \<Longrightarrow> sort_insert cmp x ys = x # ys"
  by (cases ys) auto

lemma filter_sort_insert:
  "sorted_wrt (\<lambda>a b. cmp a b \<le> 0) ys \<Longrightarrow>
   filter P (sort_insert cmp x ys) = (if P x then sort_insert cmp x (filter P ys) else filter P ys)"
proof (induction ys)
  case (Cons y ys)
  show ?case
  proof (cases "cmp x y \<le> 0")
    case True
    then have "\<forall>b \<in> set (filter P (y # ys)). cmp x b \<le> 0"
      using Cons.prems cmp_trans by auto
    then show ?thesis using True by (simp add: sort_insert_head)
  next
    case False
    then show ?thesis using Cons by auto
  qed
qed simp

lemma js_sort_filter: "js_sort cmp (filter P xs) = filter P (js_sort cmp xs)"
  by (induction xs) (simp_all add: filter_sort_insert sorted_js_sort)

text \<open>Duplicated records do not survive a first-wins pass over the sorted list.\<close>

lemma dedupe_sort_dup_snoc:
  assumes "y \<in> set xs"
  shows "dedupe key [] (js_sort cmp (xs @ [y])) = dedupe key [] (js_sort cmp xs)"
proof -
  obtain A B where AB: "js_sort cmp xs = A @ B" "js_sort cmp (xs @ [y]) = A @ y # B"
    "\<forall>b \<in> set B. cmp y b < 0"
    using js_sort_snoc [of xs y] by blast
  have "y \<in> set (A @ B)" using assms AB(1) by (metis set_js_sort)
  moreover have "y \<notin> set B" using AB(3) by auto
  ultimately have "y \<in> set A" by auto
  then show ?thesis using AB by (simp add: dedupe_skip)
qed

lemma dedupe_sort_dups:
  "set ys \<subseteq> set xs \<Longrightarrow> dedupe key [] (js_sort cmp (xs @ ys)) = dedupe key [] (js_sort cmp xs)"
proof (induction ys rule: rev_induct)
  case (snoc y ys)
  then show ?case using dedupe_sort_dup_snoc [of y "xs @ ys" key] by simp
qed simp

end

end
