(* ===== verification/Ledger.thy ===== *)
theory Ledger
  imports Contracts Js_Sort
begin

text \<open>
  The ledger facts of offchain/app-core/src/ledger-contracts.ts, their total order
  (\<open>financialOrder\<close> of pnl.ts, \<open>compareFacts\<close> of the indexer's financial-facts.ts), and the fee
  classification of fees.ts.
\<close>

datatype fact_kind =
    FK_market_created | FK_market_initialized | FK_market_metadata | FK_economic_snapshot
  | FK_primary_buy | FK_order_created | FK_order_released | FK_order_shares_deferred
  | FK_order_funds_returned | FK_listing_created | FK_listing_filled | FK_listing_cancelled
  | FK_listing_returned | FK_market_resolved | FK_market_voided | FK_winner_claimed
  | FK_early_bird_claimed | FK_refunded | FK_timeout_funded | FK_timeout_claimed
  | FK_losing_burned | FK_remainder_assigned | FK_share_transfer | FK_payment_transfer
  | FK_bond_locked | FK_bond_credited | FK_bond_timeout_funded | FK_bond_claimed
  | FK_fee_accrued | FK_fee_claimed | FK_user_operation | FK_coverage_gap

record ledger_fact =
  lf_id :: string
  lf_kind :: fact_kind
  lf_blockNumber :: nat
  lf_blockHash :: string
  lf_transactionHash :: string
  lf_transactionIndex :: nat
  lf_logIndex :: nat
  lf_factIndex :: nat
  lf_timestamp :: nat
  lf_market :: "string option"
  lf_owner :: "string option"
  lf_counterparty :: "string option"
  lf_outcomeId :: "nat option"
  lf_listingId :: "string option"
  lf_units :: "nat option"
  lf_amount :: "nat option"
  lf_extra :: "(string \<times> json) list"

definition extra_get :: "ledger_fact \<Rightarrow> string \<Rightarrow> json option" where
  "extra_get f k = map_of (lf_extra f) k"

section \<open>The order of facts\<close>

definition financialOrder :: "ledger_fact \<Rightarrow> ledger_fact \<Rightarrow> int" where
  "financialOrder a b =
     (if lf_blockNumber a < lf_blockNumber b then -1
      else if lf_blockNumber b < lf_blockNumber a then 1
      else let t = int (lf_transactionIndex a) - int (lf_transactionIndex b) in
           if t \<noteq> 0 then t
           else let l = int (lf_logIndex a) - int (lf_logIndex b) in
                if l \<noteq> 0 then l
                else int (lf_factIndex a) - int (lf_factIndex b))"

interpretation fo: comparator financialOrder
  by unfold_locales (auto simp: financialOrder_def Let_def sgn_if split: if_splits)

lemma financialOrder_zero:
  "financialOrder a b = 0 \<longleftrightarrow>
     lf_blockNumber a = lf_blockNumber b \<and> lf_transactionIndex a = lf_transactionIndex b \<and>
     lf_logIndex a = lf_logIndex b \<and> lf_factIndex a = lf_factIndex b"
  by (auto simp: financialOrder_def Let_def split: if_splits)

section \<open>Fee categories\<close>

datatype fee_category = FeeCreator | FeeProtocol | FeeUnknown

text \<open>\<open>kk v\<close> is viem's \<open>keccak256(stringToHex(v))\<close>, code outside the repository.\<close>

definition creatorKinds :: "(string \<Rightarrow> string) \<Rightarrow> string list" where
  "creatorKinds kk = map (\<lambda>v. toLowerCase (kk v)) [''CREATOR_RAKE'', ''CREATOR_C2C'']"

definition protocolKinds :: "(string \<Rightarrow> string) \<Rightarrow> string list" where
  "protocolKinds kk =
     map (\<lambda>v. toLowerCase (kk v)) [''MARKET_CREATION'', ''PROTOCOL_RAKE'', ''PLATFORM_C2C'']"

definition feeCategory :: "(string \<Rightarrow> string) \<Rightarrow> json option \<Rightarrow> fee_category" where
  "feeCategory kk kind =
     (case kind of
        Some (JStr s) \<Rightarrow>
          if toLowerCase s \<in> set (creatorKinds kk) then FeeCreator
          else if toLowerCase s \<in> set (protocolKinds kk) then FeeProtocol
          else FeeUnknown
      | _ \<Rightarrow> FeeUnknown)"

end
