(* ===== verification/Pnl.thy ===== *)
theory Pnl
  imports Ledger
begin

text \<open>
  \<open>computePnl\<close> of offchain/app-core/src/pnl.ts: the reducer that turns an account's ledger facts
  into weighted-average lots, realized entries and the account's fee, bond and payment totals.

  The function's local variables are the record \<open>pnl_state\<close>; its closures (\<open>getLot\<close>, \<open>missing\<close>,
  \<open>record\<close>, \<open>dispose\<close>, \<open>acquire\<close>) are state transformers of the same names. A lot object is
  addressed by its Map key, so the in-place updates of the source are updates at that key. The
  loop's tests on \<open>f.kind\<close> exclude each other, which makes the body a case distinction.
\<close>

section \<open>State\<close>

record lot =
  lot_market :: string
  lot_outcomeId :: nat
  lot_units :: int
  lot_escrow :: int
  lot_cost :: int
  lot_complete :: bool
  lot_lossSettled :: bool

record disposal =
  d_cost :: int
  d_complete :: bool
  d_reason :: "string option"

record pnl_options =
  po_coverageComplete :: bool
  po_from :: "int option"
  po_to :: "int option"
  po_markets :: "string list option"

record pnl_entry =
  pe_factId :: string
  pe_market :: string
  pe_outcomeId :: "nat option"
  pe_kind :: fact_kind
  pe_timestamp :: nat
  pe_amount :: "int option"
  pe_proceeds :: int
  pe_allocatedCost :: int
  pe_complete :: bool
  pe_reason :: "string option"

record bond =
  bond_amount :: int
  bond_settled :: bool

record pnl_state =
  ps_lots :: "(string, lot) jsmap"
  ps_reasons :: "string list"
  ps_bonds :: "(string, bond) jsmap"
  ps_resolved :: "(string, nat) jsmap"
  ps_entries :: "pnl_entry list"
  ps_creatorIncome :: int
  ps_creatorClaimed :: int
  ps_bondLocked :: int
  ps_bondCredited :: int
  ps_bondClaimed :: int
  ps_bondSlashed :: int
  ps_paymentIn :: int
  ps_paymentOut :: int
  ps_gasCost :: int

definition pnl_init :: "pnl_options \<Rightarrow> pnl_state" where
  "pnl_init o' =
     \<lparr>ps_lots = [],
      ps_reasons = (if po_coverageComplete o' then [] else [''history_coverage_incomplete'']),
      ps_bonds = [], ps_resolved = [], ps_entries = [],
      ps_creatorIncome = 0, ps_creatorClaimed = 0, ps_bondLocked = 0, ps_bondCredited = 0,
      ps_bondClaimed = 0, ps_bondSlashed = 0, ps_paymentIn = 0, ps_paymentOut = 0,
      ps_gasCost = 0\<rparr>"

section \<open>Helpers\<close>

definition owns :: "string option \<Rightarrow> string \<Rightarrow> bool" where
  "owns a b = (case a of None \<Rightarrow> False | Some a' \<Rightarrow> sameAddress a' b)"

definition integer :: "json option \<Rightarrow> int option" where
  "integer value = (case value of Some (JStr s) \<Rightarrow> map_option int (parse_dec s) | _ \<Rightarrow> None)"

definition relevantMarket :: "pnl_options \<Rightarrow> ledger_fact \<Rightarrow> bool" where
  "relevantMarket o' f =
     (case po_markets o' of
        None \<Rightarrow> True
      | Some ms \<Rightarrow> (case lf_market f of None \<Rightarrow> False | Some m \<Rightarrow> toLowerCase m \<in> set ms))"

definition included :: "pnl_options \<Rightarrow> ledger_fact \<Rightarrow> bool" where
  "included o' f =
     ((case po_from o' of None \<Rightarrow> True | Some a \<Rightarrow> a \<le> int (lf_timestamp f)) \<and>
      (case po_to o' of None \<Rightarrow> True | Some b \<Rightarrow> int (lf_timestamp f) < b) \<and>
      relevantMarket o' f)"

definition lot_key :: "string \<Rightarrow> nat \<Rightarrow> string" where
  "lot_key m oid = toLowerCase m @ '':'' @ dec_nat oid"

definition new_lot :: "string \<Rightarrow> nat \<Rightarrow> lot" where
  "new_lot m oid =
     \<lparr>lot_market = m, lot_outcomeId = oid, lot_units = 0, lot_escrow = 0, lot_cost = 0,
      lot_complete = True, lot_lossSettled = False\<rparr>"

text \<open>\<open>getLot\<close>: the lot at its key, created there on first use.\<close>

definition getLot :: "string \<Rightarrow> nat \<Rightarrow> pnl_state \<Rightarrow> lot \<times> pnl_state" where
  "getLot m oid s =
     (case map_get (ps_lots s) (lot_key m oid) of
        Some l \<Rightarrow> (l, s)
      | None \<Rightarrow> (new_lot m oid,
                s\<lparr>ps_lots := map_set (lot_key m oid) (new_lot m oid) (ps_lots s)\<rparr>))"

definition put_lot :: "string \<Rightarrow> lot \<Rightarrow> pnl_state \<Rightarrow> pnl_state" where
  "put_lot k l s = s\<lparr>ps_lots := map_set k l (ps_lots s)\<rparr>"

definition add_reason :: "string \<Rightarrow> pnl_state \<Rightarrow> pnl_state" where
  "add_reason r s = s\<lparr>ps_reasons := set_add r (ps_reasons s)\<rparr>"

definition missing :: "pnl_options \<Rightarrow> ledger_fact \<Rightarrow> string \<Rightarrow> pnl_state \<Rightarrow> pnl_state" where
  "missing o' f reason s =
     (if relevantMarket o' f
      then add_reason (reason @ '':'' @ (case lf_market f of None \<Rightarrow> ''account'' | Some m \<Rightarrow> m)) s
      else s)"

definition record_entry ::
  "pnl_options \<Rightarrow> ledger_fact \<Rightarrow> int \<Rightarrow> disposal \<Rightarrow> nat option \<Rightarrow> pnl_state \<Rightarrow> pnl_state" where
  "record_entry o' f proceeds d outcomeId s =
     (case lf_market f of
        None \<Rightarrow> s
      | Some m \<Rightarrow>
          if \<not> included o' f then s
          else
            let s' = (if \<not> d_complete d
                      then missing o' f
                             (case d_reason d of None \<Rightarrow> ''unknown_cost'' | Some r \<Rightarrow> r) s
                      else s)
            in s'\<lparr>ps_entries := ps_entries s' @
                 [\<lparr>pe_factId = lf_id f, pe_market = m, pe_outcomeId = outcomeId,
                   pe_kind = lf_kind f, pe_timestamp = lf_timestamp f,
                   pe_amount = (if d_complete d then Some (proceeds - d_cost d) else None),
                   pe_proceeds = proceeds, pe_allocatedCost = d_cost d,
                   pe_complete = d_complete d, pe_reason = d_reason d\<rparr>]\<rparr>)"

text \<open>
  \<open>dispose\<close> on the lot \<open>l\<close> stored at \<open>k\<close>: a proportional share of the cost leaves with the units.
\<close>

definition disposed_cost :: "lot \<Rightarrow> int \<Rightarrow> int" where
  "disposed_cost l available =
     (if lot_units l = 0 then 0
      else if available = lot_units l then lot_cost l
      else bigint_div (lot_cost l * available) (lot_units l))"

definition dispose_sufficient :: "lot \<Rightarrow> int \<Rightarrow> bool \<Rightarrow> bool" where
  "dispose_sufficient l units escrow =
     (units \<le> lot_units l \<and>
      units \<le> (if escrow then lot_escrow l else lot_units l - lot_escrow l))"

definition dispose_lot :: "lot \<Rightarrow> int \<Rightarrow> bool \<Rightarrow> lot" where
  "dispose_lot l units escrow =
     (let available = (if units < lot_units l then units else lot_units l);
          u = lot_units l - available;
          c = lot_cost l - disposed_cost l available;
          e = (if escrow
               then (if available < lot_escrow l then lot_escrow l - available else 0)
               else lot_escrow l);
          e' = (if u < e then u else e)
      in l\<lparr>lot_units := u, lot_cost := c, lot_escrow := e',
           lot_complete := (if u = 0 then True else lot_complete l),
           lot_lossSettled := (if u = 0 then False else lot_lossSettled l)\<rparr>)"

definition dispose ::
  "pnl_options \<Rightarrow> ledger_fact \<Rightarrow> string \<Rightarrow> lot \<Rightarrow> int \<Rightarrow> bool \<Rightarrow> pnl_state \<Rightarrow>
     disposal \<times> pnl_state" where
  "dispose o' f k l units escrow s =
     (let sufficient = dispose_sufficient l units escrow;
          available = (if units < lot_units l then units else lot_units l);
          whole = (sufficient \<and> lot_complete l);
          s1 = put_lot k (dispose_lot l units escrow) s;
          s2 = (if \<not> sufficient then missing o' f ''share_balance_gap'' s1 else s1)
      in (\<lparr>d_cost = disposed_cost l available, d_complete = whole,
           d_reason = (if whole then None
                       else if sufficient then Some ''unknown_acquisition_cost''
                       else Some ''share_balance_gap'')\<rparr>, s2))"

definition unknown_cost_reason :: "bool \<Rightarrow> string option" where
  "unknown_cost_reason known = (if known then None else Some ''unknown_acquisition_cost'')"

definition acquire ::
  "pnl_options \<Rightarrow> ledger_fact \<Rightarrow> string \<Rightarrow> lot \<Rightarrow> int \<Rightarrow> int option \<Rightarrow> pnl_state \<Rightarrow> pnl_state" where
  "acquire o' f k l units cost s =
     (let l1 = l\<lparr>lot_units := lot_units l + units,
                 lot_cost := lot_cost l + (case cost of None \<Rightarrow> 0 | Some c \<Rightarrow> c),
                 lot_complete := (lot_complete l \<and> cost \<noteq> None),
                 lot_lossSettled := False\<rparr>
      in (case map_get (ps_resolved s) (toLowerCase (lot_market l1)) of
            Some winner \<Rightarrow>
              if winner \<noteq> lot_outcomeId l1
              then put_lot k (l1\<lparr>lot_cost := 0, lot_lossSettled := True\<rparr>)
                     (record_entry o' f 0
                        \<lparr>d_cost = lot_cost l1, d_complete = lot_complete l1,
                         d_reason = unknown_cost_reason (lot_complete l1)\<rparr>
                        (Some (lot_outcomeId l1)) s)
              else put_lot k l1 s
          | None \<Rightarrow> put_lot k l1 s))"

section \<open>The loop body\<close>

definition fact_value :: "ledger_fact \<Rightarrow> int" where
  "fact_value f = (case lf_amount f of None \<Rightarrow> 0 | Some v \<Rightarrow> int v)"

definition fact_units :: "ledger_fact \<Rightarrow> int" where
  "fact_units f = (case lf_units f of None \<Rightarrow> 0 | Some v \<Rightarrow> int v)"

definition extra_string :: "ledger_fact \<Rightarrow> string \<Rightarrow> string \<Rightarrow> string" where
  "extra_string f k dflt = (case extra_get f k of Some (JStr r) \<Rightarrow> r | _ \<Rightarrow> dflt)"

text \<open>\<open>listing-created\<close>, and \<open>listing-cancelled\<close> or \<open>listing-returned\<close>, of the account's lot.\<close>

definition list_shares ::
  "pnl_options \<Rightarrow> ledger_fact \<Rightarrow> string \<Rightarrow> lot \<Rightarrow> int \<Rightarrow> pnl_state \<Rightarrow> pnl_state" where
  "list_shares o' f k l units s =
     (let l1 = l\<lparr>lot_escrow := lot_escrow l + units\<rparr> in
      if lot_units l1 < lot_escrow l1
      then missing o' f ''escrow_balance_gap'' (put_lot k (l1\<lparr>lot_complete := False\<rparr>) s)
      else put_lot k l1 s)"

definition release_escrow :: "lot \<Rightarrow> int \<Rightarrow> lot" where
  "release_escrow l units =
     l\<lparr>lot_escrow := (if units \<le> lot_escrow l then lot_escrow l - units else 0)\<rparr>"

definition return_shares ::
  "pnl_options \<Rightarrow> ledger_fact \<Rightarrow> string \<Rightarrow> lot \<Rightarrow> int \<Rightarrow> pnl_state \<Rightarrow> pnl_state" where
  "return_shares o' f k l units s =
     (if lot_escrow l < units
      then put_lot k (release_escrow (l\<lparr>lot_complete := False\<rparr>) units)
             (missing o' f ''escrow_balance_gap'' s)
      else put_lot k (release_escrow l units) s)"

text \<open>\<open>listing-filled\<close>: a self-fill, a sale, a purchase, or neither.\<close>

definition self_fill ::
  "pnl_options \<Rightarrow> ledger_fact \<Rightarrow> string \<Rightarrow> lot \<Rightarrow> pnl_state \<Rightarrow> pnl_state" where
  "self_fill o' f k l s =
     (let units = fact_units f;
          proceeds = integer (extra_get f ''sellerProceeds'');
          s1 = (if lot_escrow l < units then missing o' f ''escrow_balance_gap'' s else s);
          s2 = put_lot k (release_escrow l units) s1
      in record_entry o' f (case proceeds of None \<Rightarrow> 0 | Some p \<Rightarrow> p)
           \<lparr>d_cost = fact_value f, d_complete = (proceeds \<noteq> None),
            d_reason = (if proceeds = None then Some ''seller_net_missing'' else None)\<rparr>
           (lf_outcomeId f) s2)"

definition sell_fill ::
  "pnl_options \<Rightarrow> ledger_fact \<Rightarrow> string \<Rightarrow> lot \<Rightarrow> pnl_state \<Rightarrow> pnl_state" where
  "sell_fill o' f k l s =
     (let proceeds = integer (extra_get f ''sellerProceeds'');
          (d, s1) = dispose o' f k l (fact_units f)
                      (extra_get f ''escrowed'' \<noteq> Some (JBool False)) s
      in record_entry o' f (case proceeds of None \<Rightarrow> 0 | Some p \<Rightarrow> p)
           (d\<lparr>d_complete := (d_complete d \<and> proceeds \<noteq> None),
              d_reason := (if proceeds = None then Some ''seller_net_missing'' else d_reason d)\<rparr>)
           (lf_outcomeId f) s1)"

definition filled ::
  "pnl_options \<Rightarrow> string \<Rightarrow> ledger_fact \<Rightarrow> string \<Rightarrow> lot \<Rightarrow> pnl_state \<Rightarrow> pnl_state" where
  "filled o' owner f k l s =
     (let mine = owns (lf_owner f) owner; other = owns (lf_counterparty f) owner in
      if mine \<and> other then self_fill o' f k l s
      else if other then sell_fill o' f k l s
      else if mine then acquire o' f k l (fact_units f) (Some (fact_value f)) s
      else s)"

definition transferred ::
  "pnl_options \<Rightarrow> string \<Rightarrow> ledger_fact \<Rightarrow> string \<Rightarrow> lot \<Rightarrow> pnl_state \<Rightarrow> pnl_state" where
  "transferred o' owner f k l s =
     (let mine = owns (lf_owner f) owner; other = owns (lf_counterparty f) owner in
      if mine \<and> other then s
      else if mine then snd (dispose o' f k l (fact_units f) False s)
      else if other then acquire o' f k l (fact_units f) None s
      else s)"

text \<open>\<open>market-resolved\<close>: every losing holding of the market realizes its whole cost once.\<close>

definition settle_loss ::
  "pnl_options \<Rightarrow> ledger_fact \<Rightarrow> string \<Rightarrow> nat \<Rightarrow> string \<times> lot \<Rightarrow> pnl_state \<Rightarrow> pnl_state" where
  "settle_loss o' f m winner kl s =
     (let (k, h) = kl in
      if sameAddress (lot_market h) m \<and> lot_outcomeId h \<noteq> winner \<and> 0 < lot_units h
         \<and> \<not> lot_lossSettled h
      then put_lot k (h\<lparr>lot_cost := 0, lot_lossSettled := True\<rparr>)
             (record_entry o' f 0
                \<lparr>d_cost = lot_cost h, d_complete = lot_complete h,
                 d_reason = unknown_cost_reason (lot_complete h)\<rparr>
                (Some (lot_outcomeId h)) s)
      else s)"

definition market_resolved :: "pnl_options \<Rightarrow> ledger_fact \<Rightarrow> pnl_state \<Rightarrow> pnl_state" where
  "market_resolved o' f s =
     (case (lf_market f, lf_outcomeId f) of
        (Some m, Some winner) \<Rightarrow>
          fold (settle_loss o' f m winner) (ps_lots s)
            (s\<lparr>ps_resolved := map_set (toLowerCase m) winner (ps_resolved s)\<rparr>)
      | _ \<Rightarrow> s)"

text \<open>
  \<open>winner-claimed\<close>, \<open>refunded\<close>, \<open>losing-burned\<close>: the burned parts leave their lots. The running
  totals of the source's inner loop are the record \<open>burn\<close>.
\<close>

record burn =
  bu_cost :: int
  bu_burned :: int
  bu_complete :: bool
  bu_reason :: "string option"

definition consumed_parts :: "ledger_fact \<Rightarrow> json list" where
  "consumed_parts f =
     (case extra_get f ''consumed'' of
        Some (JArr ps) \<Rightarrow> ps
      | _ \<Rightarrow> (case lf_outcomeId f of
               None \<Rightarrow> []
             | Some oid \<Rightarrow>
                 [JObj [(''outcomeId'', JStr (dec_nat oid)),
                        (''units'', (case lf_units f of None \<Rightarrow> JNull
                                                    | Some u \<Rightarrow> JStr (dec_nat u)))]]))"

definition consume_part ::
  "pnl_options \<Rightarrow> ledger_fact \<Rightarrow> string \<Rightarrow> json \<Rightarrow> burn \<times> pnl_state \<Rightarrow> burn \<times> pnl_state" where
  "consume_part o' f m part bs =
     (let (b, s) = bs in
      case part of
        JObj flds \<Rightarrow>
          (case (integer (map_of flds ''outcomeId''), integer (map_of flds ''units'')) of
             (Some outcome, Some quantity) \<Rightarrow>
               let (l, s1) = getLot m (nat outcome) s;
                   (d, s2) = dispose o' f (lot_key m (nat outcome)) l quantity False s1
               in (\<lparr>bu_cost = bu_cost b + d_cost d, bu_burned = bu_burned b + quantity,
                    bu_complete = (bu_complete b \<and> d_complete d),
                    bu_reason = (case bu_reason b of None \<Rightarrow> d_reason d | Some r \<Rightarrow> Some r)\<rparr>, s2)
           | _ \<Rightarrow> (b\<lparr>bu_complete := False\<rparr>, s))
      | _ \<Rightarrow> (b\<lparr>bu_complete := False\<rparr>, s))"

definition no_burn :: burn where
  "no_burn = \<lparr>bu_cost = 0, bu_burned = 0, bu_complete = True, bu_reason = None\<rparr>"

definition terminal_burn :: "pnl_options \<Rightarrow> ledger_fact \<Rightarrow> string \<Rightarrow> pnl_state \<Rightarrow> pnl_state" where
  "terminal_burn o' f m s =
     (let (b, s1) = fold (consume_part o' f m) (consumed_parts f) (no_burn, s);
          b' = (if bu_burned b \<noteq> fact_units f
                then b\<lparr>bu_complete := False, bu_reason := Some ''burn_movement_missing''\<rparr> else b)
      in if lf_kind f \<noteq> FK_losing_burned
         then record_entry o' f (fact_value f)
                \<lparr>d_cost = bu_cost b', d_complete = bu_complete b', d_reason = bu_reason b'\<rparr>
                (lf_outcomeId f) s1
         else if 0 < bu_cost b' \<or> \<not> bu_complete b'
              then missing o' f ''terminal_loss_history_missing'' s1
              else s1)"

text \<open>The creator's bond: locked, credited back, or funded to the timeout pool.\<close>

definition bond_locked :: "string \<Rightarrow> ledger_fact \<Rightarrow> pnl_state \<Rightarrow> pnl_state" where
  "bond_locked m f s =
     s\<lparr>ps_bonds := map_set (toLowerCase m)
                     \<lparr>bond_amount = fact_value f, bond_settled = False\<rparr> (ps_bonds s),
       ps_bondLocked := ps_bondLocked s + fact_value f\<rparr>"

definition bond_credited :: "string \<Rightarrow> ledger_fact \<Rightarrow> pnl_state \<Rightarrow> pnl_state" where
  "bond_credited m f s =
     (case map_get (ps_bonds s) (toLowerCase m) of
        None \<Rightarrow> s\<lparr>ps_bondCredited := ps_bondCredited s + fact_value f\<rparr>
      | Some b \<Rightarrow>
          if bond_settled b then s
          else s\<lparr>ps_bondCredited := ps_bondCredited s + fact_value f,
                 ps_bonds := map_set (toLowerCase m) (b\<lparr>bond_settled := True\<rparr>) (ps_bonds s),
                 ps_bondLocked := ps_bondLocked s - bond_amount b\<rparr>)"

definition bond_timeout_funded :: "string \<Rightarrow> ledger_fact \<Rightarrow> pnl_state \<Rightarrow> pnl_state" where
  "bond_timeout_funded m f s =
     (case map_get (ps_bonds s) (toLowerCase m) of
        None \<Rightarrow> s
      | Some b \<Rightarrow>
          if bond_settled b then s
          else s\<lparr>ps_bonds := map_set (toLowerCase m) (b\<lparr>bond_settled := True\<rparr>) (ps_bonds s),
                 ps_bondLocked := ps_bondLocked s - bond_amount b,
                 ps_bondSlashed := ps_bondSlashed s + fact_value f\<rparr>)"

definition payment_transfer :: "bool \<Rightarrow> bool \<Rightarrow> ledger_fact \<Rightarrow> pnl_state \<Rightarrow> pnl_state" where
  "payment_transfer mine other f s =
     (if mine \<and> \<not> other then s\<lparr>ps_paymentOut := ps_paymentOut s + fact_value f\<rparr>
      else if other \<and> \<not> mine then s\<lparr>ps_paymentIn := ps_paymentIn s + fact_value f\<rparr>
      else s)"

text \<open>Facts that touch the lot of their own market and outcome.\<close>

definition lot_fact ::
  "pnl_options \<Rightarrow> string \<Rightarrow> ledger_fact \<Rightarrow> string \<Rightarrow> lot \<Rightarrow> pnl_state \<Rightarrow> pnl_state" where
  "lot_fact o' owner f k l s =
     (let mine = owns (lf_owner f) owner in
      case lf_kind f of
        FK_primary_buy \<Rightarrow>
          if mine then acquire o' f k l (fact_units f) (Some (fact_value f)) s else s
      | FK_listing_created \<Rightarrow> if mine then list_shares o' f k l (fact_units f) s else s
      | FK_listing_cancelled \<Rightarrow> if mine then return_shares o' f k l (fact_units f) s else s
      | FK_listing_returned \<Rightarrow> if mine then return_shares o' f k l (fact_units f) s else s
      | FK_listing_filled \<Rightarrow> filled o' owner f k l s
      | FK_share_transfer \<Rightarrow> transferred o' owner f k l s
      | _ \<Rightarrow> s)"

text \<open>Facts about a market as a whole.\<close>

definition market_fact ::
  "(string \<Rightarrow> string) \<Rightarrow> pnl_options \<Rightarrow> string \<Rightarrow> ledger_fact \<Rightarrow> pnl_state \<Rightarrow> pnl_state" where
  "market_fact kk o' owner f s =
     (let mine = owns (lf_owner f) owner;
          other = owns (lf_counterparty f) owner;
          with_market = (\<lambda>g. case lf_market f of None \<Rightarrow> s | Some m \<Rightarrow> g m f s)
      in case lf_kind f of
        FK_coverage_gap \<Rightarrow>
          if mine \<or> other then missing o' f (extra_string f ''reason'' ''event_gap'') s else s
      | FK_market_resolved \<Rightarrow> market_resolved o' f s
      | FK_winner_claimed \<Rightarrow>
          if mine then with_market (\<lambda>m f'. terminal_burn o' f' m) else s
      | FK_refunded \<Rightarrow> if mine then with_market (\<lambda>m f'. terminal_burn o' f' m) else s
      | FK_losing_burned \<Rightarrow> if mine then with_market (\<lambda>m f'. terminal_burn o' f' m) else s
      | FK_early_bird_claimed \<Rightarrow>
          if mine then record_entry o' f (fact_value f)
                         \<lparr>d_cost = 0, d_complete = True, d_reason = None\<rparr> (lf_outcomeId f) s
          else s
      | FK_timeout_claimed \<Rightarrow>
          if mine then record_entry o' f (fact_value f)
                         \<lparr>d_cost = 0, d_complete = True, d_reason = None\<rparr> (lf_outcomeId f) s
          else s
      | FK_bond_locked \<Rightarrow> if mine then with_market bond_locked else s
      | FK_bond_credited \<Rightarrow> if mine then with_market bond_credited else s
      | FK_bond_timeout_funded \<Rightarrow> with_market bond_timeout_funded
      | FK_bond_claimed \<Rightarrow>
          if mine then s\<lparr>ps_bondClaimed := ps_bondClaimed s + fact_value f\<rparr> else s
      | FK_fee_accrued \<Rightarrow>
          if mine \<and> included o' f \<and> feeCategory kk (extra_get f ''feeKind'') = FeeCreator
          then s\<lparr>ps_creatorIncome := ps_creatorIncome s + fact_value f\<rparr> else s
      | FK_fee_claimed \<Rightarrow>
          if mine \<and> included o' f
          then s\<lparr>ps_creatorClaimed := ps_creatorClaimed s + fact_value f\<rparr> else s
      | FK_payment_transfer \<Rightarrow> if included o' f then payment_transfer mine other f s else s
      | FK_user_operation \<Rightarrow>
          if mine \<and> included o' f then s\<lparr>ps_gasCost := ps_gasCost s + fact_value f\<rparr> else s
      | _ \<Rightarrow> s)"

definition pnl_step ::
  "(string \<Rightarrow> string) \<Rightarrow> pnl_options \<Rightarrow> string \<Rightarrow> ledger_fact \<Rightarrow> pnl_state \<Rightarrow> pnl_state" where
  "pnl_step kk o' owner f s =
     (case (lf_market f, lf_outcomeId f) of
        (Some m, Some oid) \<Rightarrow>
          let (l, s1) = getLot m oid s
          in market_fact kk o' owner f (lot_fact o' owner f (lot_key m oid) l s1)
      | _ \<Rightarrow> market_fact kk o' owner f s)"

text \<open>The loop: repeated ids and facts at or after \<open>options.to\<close> are skipped.\<close>

definition before_end :: "pnl_options \<Rightarrow> ledger_fact \<Rightarrow> bool" where
  "before_end o' f = (case po_to o' of None \<Rightarrow> True | Some b \<Rightarrow> int (lf_timestamp f) < b)"

fun pnl_loop ::
  "(string \<Rightarrow> string) \<Rightarrow> pnl_options \<Rightarrow> string \<Rightarrow> string list \<Rightarrow> ledger_fact list \<Rightarrow>
     pnl_state \<Rightarrow> pnl_state" where
  "pnl_loop kk o' owner seen [] s = s"
| "pnl_loop kk o' owner seen (f # fs) s =
     (if lf_id f \<in> set seen then pnl_loop kk o' owner seen fs s
      else if \<not> before_end o' f then pnl_loop kk o' owner (lf_id f # seen) fs s
      else pnl_loop kk o' owner (lf_id f # seen) fs (pnl_step kk o' owner f s))"

section \<open>The result\<close>

record pnl_lot =
  pl_market :: string
  pl_outcomeId :: nat
  pl_units :: int
  pl_escrowUnits :: int
  pl_knownCost :: int
  pl_costComplete :: bool

record pnl =
  pnl_owner :: string
  pnl_realizedNet :: "int option"
  pnl_knownRealizedNet :: int
  pnl_complete :: bool
  pnl_missingReasons :: "string list"
  pnl_lots :: "pnl_lot list"
  pnl_entries :: "pnl_entry list"
  pnl_creatorIncome :: int
  pnl_creatorClaimed :: int
  pnl_bondLocked :: int
  pnl_bondCredited :: int
  pnl_bondClaimed :: int
  pnl_bondSlashed :: int
  pnl_paymentIn :: int
  pnl_paymentOut :: int
  pnl_gasCost :: int

definition entry_net :: "pnl_entry \<Rightarrow> int" where
  "entry_net e = (case pe_amount e of None \<Rightarrow> 0 | Some a \<Rightarrow> a)"

definition lot_selected :: "pnl_options \<Rightarrow> lot \<Rightarrow> bool" where
  "lot_selected o' l =
     (case po_markets o' of None \<Rightarrow> True | Some ms \<Rightarrow> toLowerCase (lot_market l) \<in> set ms)"

definition final_reasons :: "pnl_options \<Rightarrow> pnl_state \<Rightarrow> string list" where
  "final_reasons o' s =
     fold (\<lambda>l rs. if 0 < lot_units l \<and> \<not> lot_complete l
                  then set_add (''unknown_acquisition_cost:'' @ lot_market l) rs else rs)
       (filter (lot_selected o') (map_values (ps_lots s))) (ps_reasons s)"

definition pnl_result :: "pnl_options \<Rightarrow> string \<Rightarrow> pnl_state \<Rightarrow> pnl" where
  "pnl_result o' owner s =
     (let selected = filter (lot_selected o') (map_values (ps_lots s));
          reasons = final_reasons o' s;
          known = sum_list (map entry_net (ps_entries s))
      in \<lparr>pnl_owner = owner,
          pnl_realizedNet = (if reasons = [] then Some known else None),
          pnl_knownRealizedNet = known,
          pnl_complete = (reasons = []),
          pnl_missingReasons = sort reasons,
          pnl_lots = map (\<lambda>l. \<lparr>pl_market = lot_market l, pl_outcomeId = lot_outcomeId l,
                               pl_units = lot_units l, pl_escrowUnits = lot_escrow l,
                               pl_knownCost = lot_cost l, pl_costComplete = lot_complete l\<rparr>)
                       (filter (\<lambda>l. 0 < lot_units l) selected),
          pnl_entries = ps_entries s,
          pnl_creatorIncome = ps_creatorIncome s, pnl_creatorClaimed = ps_creatorClaimed s,
          pnl_bondLocked = ps_bondLocked s, pnl_bondCredited = ps_bondCredited s,
          pnl_bondClaimed = ps_bondClaimed s, pnl_bondSlashed = ps_bondSlashed s,
          pnl_paymentIn = ps_paymentIn s, pnl_paymentOut = ps_paymentOut s,
          pnl_gasCost = ps_gasCost s\<rparr>)"

text \<open>
  \<open>pnlSchema.parse\<close>: the amounts must lie in the range of their schema. (The addresses come from
  parsed facts; only the owner, an argument of \<open>computePnl\<close>, is new.)
\<close>

definition pnl_lot_ok :: "pnl_lot \<Rightarrow> bool" where
  "pnl_lot_ok l = (uint_ok (pl_units l) \<and> uint_ok (pl_escrowUnits l) \<and> uint_ok (pl_knownCost l))"

definition pnl_entry_ok :: "pnl_entry \<Rightarrow> bool" where
  "pnl_entry_ok e =
     ((case pe_amount e of None \<Rightarrow> True | Some a \<Rightarrow> signedAmount_ok a) \<and>
      uint_ok (pe_proceeds e) \<and> uint_ok (pe_allocatedCost e))"

definition pnl_ok :: "pnl \<Rightarrow> bool" where
  "pnl_ok p =
     (pnl_owner p \<noteq> zeroAddress \<and> signedAmount_ok (pnl_knownRealizedNet p) \<and>
      list_all pnl_lot_ok (pnl_lots p) \<and> list_all pnl_entry_ok (pnl_entries p) \<and>
      list_all uint_ok [pnl_creatorIncome p, pnl_creatorClaimed p, pnl_bondLocked p,
        pnl_bondCredited p, pnl_bondClaimed p, pnl_bondSlashed p, pnl_paymentIn p,
        pnl_paymentOut p, pnl_gasCost p])"

text \<open>\<open>ga\<close> is viem's \<open>getAddress\<close>: the checksummed address, or \<open>None\<close> where it throws.\<close>

definition reduce_facts ::
  "(string \<Rightarrow> string) \<Rightarrow> pnl_options \<Rightarrow> string \<Rightarrow> ledger_fact list \<Rightarrow> pnl_state" where
  "reduce_facts kk o' owner input =
     pnl_loop kk o' owner [] (js_sort financialOrder input) (pnl_init o')"

definition computePnl ::
  "(string \<Rightarrow> string option) \<Rightarrow> (string \<Rightarrow> string) \<Rightarrow> string \<Rightarrow> ledger_fact list \<Rightarrow>
     pnl_options \<Rightarrow> pnl outcome" where
  "computePnl ga kk addr input o' =
     (case ga addr of
        None \<Rightarrow> Inl (JsError ''InvalidAddressError'')
      | Some owner \<Rightarrow>
          let p = pnl_result o' owner (reduce_facts kk o' owner input)
          in if pnl_ok p then Inr p else Inl (ZodError ''pnlSchema''))"

end
