(* ===== verification/Pnl_Accounting.thy ===== *)
theory Pnl_Accounting
  imports Pnl
begin

text \<open>
  What the reducer of theory \<open>Pnl\<close> keeps: well-formed lots, entries and bonds (\<open>pnl_inv\<close>), the flow of
  cost from purchases through lots to realized entries (\<open>basis\<close>, \<open>moves\<close>), the single charge of a
  losing position (\<open>loss_inv\<close>), and the independence from the order and repetition of the input.
\<close>

section \<open>Lots\<close>

definition lot_ok :: "lot \<Rightarrow> bool" where
  "lot_ok l = (0 \<le> lot_units l \<and> 0 \<le> lot_escrow l \<and> 0 \<le> lot_cost l \<and>
               (lot_complete l \<longrightarrow> lot_escrow l \<le> lot_units l))"

lemma disposed_cost_bounds:
  assumes "lot_ok l" "0 \<le> a" "a \<le> lot_units l"
  shows "0 \<le> disposed_cost l a \<and> disposed_cost l a \<le> lot_cost l"
proof (cases "lot_units l = 0 \<or> a = lot_units l")
  case True
  then show ?thesis using assms by (auto simp: disposed_cost_def lot_ok_def)
next
  case False
  then have u: "0 < lot_units l" using assms by (simp add: lot_ok_def)
  have c: "0 \<le> lot_cost l * a" using assms by (simp add: lot_ok_def)
  have "lot_cost l * a div lot_units l \<le> lot_cost l * lot_units l div lot_units l"
    using assms u by (intro zdiv_mono1 mult_left_mono) (auto simp: lot_ok_def)
  then show ?thesis
    using False u c by (simp add: disposed_cost_def bigint_div_nonneg pos_imp_zdiv_nonneg_iff)
qed

lemma lot_ok_new [simp]: "lot_ok (new_lot m oid)"
  by (simp add: lot_ok_def new_lot_def)

lemma lot_ok_dispose:
  assumes "lot_ok l" "0 \<le> u"
  shows "lot_ok (dispose_lot l u e)"
proof -
  let ?a = "if u < lot_units l then u else lot_units l"
  have "0 \<le> ?a" "?a \<le> lot_units l" using assms by (auto simp: lot_ok_def)
  from disposed_cost_bounds [OF assms(1) this] show ?thesis
    using assms by (auto simp: lot_ok_def dispose_lot_def Let_def)
qed

lemma lot_ok_release: "lot_ok l \<Longrightarrow> 0 \<le> u \<Longrightarrow> lot_ok (release_escrow l u)"
  by (auto simp: lot_ok_def release_escrow_def)

lemma fact_value_nonneg [simp]: "0 \<le> fact_value f"
  by (simp add: fact_value_def split: option.splits)

lemma fact_units_nonneg [simp]: "0 \<le> fact_units f"
  by (simp add: fact_units_def split: option.splits)

lemma integer_nonneg: "integer v = Some i \<Longrightarrow> 0 \<le> i"
  by (auto simp: integer_def split: option.splits json.splits)

section \<open>The invariant of the state\<close>

definition entry_ok :: "pnl_entry \<Rightarrow> bool" where
  "entry_ok e =
     (0 \<le> pe_proceeds e \<and> 0 \<le> pe_allocatedCost e \<and>
      pe_amount e = (if pe_complete e then Some (pe_proceeds e - pe_allocatedCost e) else None))"

definition bond_open :: "bond \<Rightarrow> int" where
  "bond_open b = (if bond_settled b then 0 else bond_amount b)"

definition pnl_inv :: "pnl_state \<Rightarrow> bool" where
  "pnl_inv s =
     (distinct (map fst (ps_lots s)) \<and>
      (\<forall>p \<in> set (ps_lots s). lot_ok (snd p)) \<and>
      list_all entry_ok (ps_entries s) \<and>
      ((\<exists>e \<in> set (ps_entries s). \<not> pe_complete e) \<longrightarrow> ps_reasons s \<noteq> []) \<and>
      (\<forall>p \<in> set (ps_bonds s). 0 \<le> bond_amount (snd p)) \<and>
      map_sum bond_open (ps_bonds s) \<le> ps_bondLocked s \<and>
      0 \<le> ps_creatorIncome s \<and> 0 \<le> ps_creatorClaimed s \<and> 0 \<le> ps_bondCredited s \<and>
      0 \<le> ps_bondClaimed s \<and> 0 \<le> ps_bondSlashed s \<and> 0 \<le> ps_paymentIn s \<and>
      0 \<le> ps_paymentOut s \<and> 0 \<le> ps_gasCost s)"

lemma pnl_inv_init: "pnl_inv (pnl_init o')"
  by (simp add: pnl_inv_def pnl_init_def)

lemma included_relevant: "included o' f \<Longrightarrow> relevantMarket o' f"
  by (simp add: included_def)

lemma missing_inv [simp]: "pnl_inv s \<Longrightarrow> pnl_inv (missing o' f r s)"
  by (auto simp: missing_def add_reason_def pnl_inv_def)

lemma put_lot_inv [simp]: "pnl_inv s \<Longrightarrow> lot_ok l \<Longrightarrow> pnl_inv (put_lot k l s)"
  by (auto simp: put_lot_def pnl_inv_def distinct_update dest!: in_set_update)

lemma getLot_inv: "pnl_inv s \<Longrightarrow> getLot m oid s = (l, s') \<Longrightarrow> pnl_inv s' \<and> lot_ok l"
proof (cases "map_get (ps_lots s) (lot_key m oid)")
  case None
  assume s: "pnl_inv s" "getLot m oid s = (l, s')"
  have new: "lot_ok (new_lot m oid)" by (simp add: new_lot_def lot_ok_def)
  then show ?thesis using s None put_lot_inv [OF s(1) new] by (auto simp: getLot_def put_lot_def)
next
  case (Some l')
  assume s: "pnl_inv s" "getLot m oid s = (l, s')"
  then show ?thesis using Some map_of_SomeD [OF Some] by (auto simp: getLot_def pnl_inv_def)
qed

lemma getLot_stored: "getLot m oid s = (l, s') \<Longrightarrow> map_get (ps_lots s') (lot_key m oid) = Some l"
  by (auto simp: getLot_def update_conv split: option.splits)

lemma record_entry_inv:
  "\<lbrakk>pnl_inv s; 0 \<le> p; 0 \<le> d_cost d\<rbrakk> \<Longrightarrow> pnl_inv (record_entry o' f p d oid s)"
  by (auto simp: record_entry_def pnl_inv_def missing_def add_reason_def entry_ok_def Let_def
      included_relevant split: option.splits)

lemma dispose_inv:
  assumes "pnl_inv s" "lot_ok l" "0 \<le> u" "dispose o' f k l u e s = (d, s')"
  shows "pnl_inv s' \<and> 0 \<le> d_cost d"
proof -
  have "0 \<le> disposed_cost l (if u < lot_units l then u else lot_units l)"
    using assms disposed_cost_bounds by (simp add: lot_ok_def)
  then show ?thesis
    using assms lot_ok_dispose [of l u e] by (auto simp: dispose_def Let_def)
qed

lemma acquire_inv:
  assumes "pnl_inv s" "lot_ok l" "0 \<le> u" "\<forall>c. cost = Some c \<longrightarrow> 0 \<le> c"
  shows "pnl_inv (acquire o' f k l u cost s)"
  using assms
  by (auto simp: acquire_def Let_def lot_ok_def split: option.splits
      intro!: put_lot_inv record_entry_inv)

lemma list_shares_inv:
  "pnl_inv s \<Longrightarrow> lot_ok l \<Longrightarrow> 0 \<le> u \<Longrightarrow> pnl_inv (list_shares o' f k l u s)"
  by (auto simp: list_shares_def Let_def lot_ok_def)

lemma return_shares_inv:
  "pnl_inv s \<Longrightarrow> lot_ok l \<Longrightarrow> 0 \<le> u \<Longrightarrow> pnl_inv (return_shares o' f k l u s)"
  by (auto simp: return_shares_def lot_ok_def release_escrow_def)

lemma self_fill_inv: "pnl_inv s \<Longrightarrow> lot_ok l \<Longrightarrow> pnl_inv (self_fill o' f k l s)"
  by (auto simp: self_fill_def Let_def lot_ok_release split: option.splits
      intro!: record_entry_inv dest: integer_nonneg)

lemma sell_fill_inv:
  assumes "pnl_inv s" "lot_ok l"
  shows "pnl_inv (sell_fill o' f k l s)"
proof -
  obtain d s1 where d: "dispose o' f k l (fact_units f)
      (extra_get f ''escrowed'' \<noteq> Some (JBool False)) s = (d, s1)"
    by (meson surj_pair)
  from dispose_inv [OF assms _ d] show ?thesis
    by (auto simp: sell_fill_def d Let_def split: option.splits intro!: record_entry_inv
        dest: integer_nonneg)
qed

lemma lot_fact_inv:
  assumes "pnl_inv s" "lot_ok l"
  shows "pnl_inv (lot_fact o' w f k l s)"
proof -
  obtain d s1 where d: "dispose o' f k l (fact_units f) False s = (d, s1)"
    by (meson surj_pair)
  from dispose_inv [OF assms _ d] show ?thesis
    using assms
    by (cases "lf_kind f")
       (auto simp: lot_fact_def filled_def transferred_def Let_def d acquire_inv list_shares_inv
        return_shares_inv self_fill_inv sell_fill_inv)
qed

lemma settle_loss_inv:
  "pnl_inv s \<Longrightarrow> lot_ok (snd kl) \<Longrightarrow> pnl_inv (settle_loss o' f m w kl s)"
  by (auto simp: settle_loss_def lot_ok_def split: prod.splits
      intro!: put_lot_inv record_entry_inv)

lemma settle_losses_inv:
  "\<forall>kl \<in> set kls. lot_ok (snd kl) \<Longrightarrow> pnl_inv s \<Longrightarrow> pnl_inv (fold (settle_loss o' f m w) kls s)"
  by (induction kls arbitrary: s) (auto simp: settle_loss_inv)

lemma market_resolved_inv: "pnl_inv s \<Longrightarrow> pnl_inv (market_resolved o' f s)"
  by (auto simp: market_resolved_def split: option.splits intro!: settle_losses_inv)
     (auto simp: pnl_inv_def)

definition burn_ok :: "burn \<Rightarrow> bool" where
  "burn_ok b = (0 \<le> bu_cost b)"

lemma consume_part_inv:
  assumes "burn_ok (fst bs)" "pnl_inv (snd bs)"
  shows "burn_ok (fst (consume_part o' f m part bs)) \<and> pnl_inv (snd (consume_part o' f m part bs))"
proof (cases "\<exists>flds a q. part = JObj flds \<and> integer (map_of flds ''outcomeId'') = Some a \<and>
                 integer (map_of flds ''units'') = Some q")
  case True
  then obtain flds a q where p: "part = JObj flds" "integer (map_of flds ''outcomeId'') = Some a"
    "integer (map_of flds ''units'') = Some q" by blast
  obtain b s where bs: "bs = (b, s)" by (cases bs)
  obtain l s1 where l: "getLot m (nat a) s = (l, s1)" by (meson surj_pair)
  obtain d s2 where d: "dispose o' f (lot_key m (nat a)) l q False s1 = (d, s2)"
    by (meson surj_pair)
  have "pnl_inv s2 \<and> 0 \<le> d_cost d"
    using getLot_inv [OF _ l] assms bs integer_nonneg [OF p(3)] dispose_inv [OF _ _ _ d] by simp
  then show ?thesis using assms by (auto simp: consume_part_def bs p l d burn_ok_def)
next
  case False
  then show ?thesis
    using assms
    by (auto simp: consume_part_def burn_ok_def split: json.splits option.splits prod.splits)
qed

lemma consume_parts_inv:
  "\<lbrakk>burn_ok (fst bs); pnl_inv (snd bs)\<rbrakk> \<Longrightarrow>
   burn_ok (fst (fold (consume_part o' f m) ps bs)) \<and> pnl_inv (snd (fold (consume_part o' f m) ps bs))"
  by (induction ps arbitrary: bs) (auto simp: consume_part_inv)

lemma terminal_burn_inv:
  assumes "pnl_inv s"
  shows "pnl_inv (terminal_burn o' f m s)"
proof -
  obtain b s1 where b: "fold (consume_part o' f m) (consumed_parts f) (no_burn, s) = (b, s1)"
    by (meson surj_pair)
  have "0 \<le> bu_cost b \<and> pnl_inv s1"
    using consume_parts_inv [of "(no_burn, s)" o' f m "consumed_parts f"] assms
    by (simp add: b burn_ok_def) (simp add: no_burn_def)
  then show ?thesis
    by (auto simp: terminal_burn_def b burn_ok_def Let_def intro!: record_entry_inv)
qed

lemma bond_locked_inv: "pnl_inv s \<Longrightarrow> pnl_inv (bond_locked m f s)"
proof -
  assume i: "pnl_inv s"
  have "map_of (ps_bonds s) k = Some b \<Longrightarrow> 0 \<le> bond_amount b" for k b
    using i map_of_all [of "ps_bonds s" k b "\<lambda>b. 0 \<le> bond_amount b"] by (simp add: pnl_inv_def)
  from this [of "toLowerCase m"] show ?thesis
    using i
    by (fastforce simp: bond_locked_def pnl_inv_def map_sum_update bond_open_def
        split: option.splits dest!: in_set_update)
qed

lemma bond_settled_inv:
  assumes i: "pnl_inv s" and b: "map_get (ps_bonds s) k = Some b" "\<not> bond_settled b"
    and x: "0 \<le> x" "0 \<le> y"
  shows "pnl_inv (s\<lparr>ps_bondCredited := ps_bondCredited s + x,
                    ps_bonds := map_set k (b\<lparr>bond_settled := True\<rparr>) (ps_bonds s),
                    ps_bondLocked := ps_bondLocked s - bond_amount b,
                    ps_bondSlashed := ps_bondSlashed s + y\<rparr>)"
proof -
  have "0 \<le> bond_amount b" using i map_of_all [OF b(1), of "\<lambda>b. 0 \<le> bond_amount b"] by (simp add: pnl_inv_def)
  then show ?thesis
    using i b x
    by (auto simp: pnl_inv_def map_sum_update bond_open_def dest!: in_set_update)
qed

lemma bond_credited_inv: "pnl_inv s \<Longrightarrow> pnl_inv (bond_credited m f s)"
  using bond_settled_inv [of s _ _ "fact_value f" 0]
  by (auto simp: bond_credited_def split: option.splits) (auto simp: pnl_inv_def)

lemma bond_timeout_funded_inv: "pnl_inv s \<Longrightarrow> pnl_inv (bond_timeout_funded m f s)"
  using bond_settled_inv [of s _ _ 0 "fact_value f"]
  by (auto simp: bond_timeout_funded_def split: option.splits)

lemma totals_inv:
  assumes "pnl_inv s"
  shows "pnl_inv (s\<lparr>ps_bondClaimed := ps_bondClaimed s + fact_value f\<rparr>)"
    "pnl_inv (s\<lparr>ps_creatorIncome := ps_creatorIncome s + fact_value f\<rparr>)"
    "pnl_inv (s\<lparr>ps_creatorClaimed := ps_creatorClaimed s + fact_value f\<rparr>)"
    "pnl_inv (s\<lparr>ps_gasCost := ps_gasCost s + fact_value f\<rparr>)"
    "pnl_inv (payment_transfer mine other f s)"
  using assms by (auto simp: pnl_inv_def payment_transfer_def)

lemma market_fact_inv:
  assumes "pnl_inv s"
  shows "pnl_inv (market_fact kk o' w f s)"
  using assms
  apply (cases "lf_market f"; cases "lf_kind f")
  apply (simp_all only: market_fact_def Let_def fact_kind.case option.case)
  apply (simp_all add: market_resolved_inv terminal_burn_inv bond_locked_inv
      bond_credited_inv bond_timeout_funded_inv record_entry_inv) 
  apply (simp_all add: totals_inv)
  done

lemma pnl_step_inv: "pnl_inv s \<Longrightarrow> pnl_inv (pnl_step kk o' w f s)"
  using getLot_inv [of s]
  by (simp add: pnl_step_def market_fact_inv lot_fact_inv split: option.split prod.split)

lemma pnl_loop_inv: "pnl_inv s \<Longrightarrow> pnl_inv (pnl_loop kk o' w seen fs s)"
  by (induction kk o' w seen fs s rule: pnl_loop.induct) (auto simp: pnl_step_inv)

lemma reduce_facts_inv: "pnl_inv (reduce_facts kk o' w input)"
  by (simp add: reduce_facts_def pnl_loop_inv pnl_inv_init)


section \<open>Cost accounting\<close>

definition allocated :: "pnl_state \<Rightarrow> int" where
  "allocated s = sum_list (map pe_allocatedCost (ps_entries s))"

definition basis :: "pnl_state \<Rightarrow> int" where
  "basis s = allocated s + map_sum lot_cost (ps_lots s)"

definition paid :: "string \<Rightarrow> ledger_fact \<Rightarrow> int" where
  "paid w f =
     (if lf_kind f \<in> {FK_primary_buy, FK_listing_filled} \<and> owns (lf_owner f) w \<and>
         lf_market f \<noteq> None \<and> lf_outcomeId f \<noteq> None
      then fact_value f else 0)"

definition moves :: "bool \<Rightarrow> int \<Rightarrow> pnl_state \<Rightarrow> pnl_state \<Rightarrow> bool" where
  "moves ex v s s' = (basis s' \<le> basis s + v \<and> (ex \<longrightarrow> basis s' = basis s + v))"

definition recorded :: "pnl_options \<Rightarrow> ledger_fact \<Rightarrow> bool" where
  "recorded o' f = (included o' f \<and> lf_market f \<noteq> None)"

lemma paid_nonneg [simp]: "0 \<le> paid w f"
  by (simp add: paid_def)

lemma missing_lots [simp]:
  "ps_lots (missing o' f r s) = ps_lots s" "ps_entries (missing o' f r s) = ps_entries s"
  "ps_resolved (missing o' f r s) = ps_resolved s"
  by (simp_all add: missing_def add_reason_def)

lemma record_entry_lots [simp]:
  "ps_lots (record_entry o' f p d oid s) = ps_lots s"
  "ps_resolved (record_entry o' f p d oid s) = ps_resolved s"
  by (simp_all add: record_entry_def Let_def split: option.split)

lemma put_lot_parts [simp]:
  "ps_lots (put_lot k l s) = map_set k l (ps_lots s)" "ps_entries (put_lot k l s) = ps_entries s"
  "ps_resolved (put_lot k l s) = ps_resolved s"
  by (simp_all add: put_lot_def)

lemma basis_missing [simp]: "basis (missing o' f r s) = basis s"
  by (simp add: basis_def allocated_def)

lemma basis_put_lot:
  "map_get (ps_lots s) k = Some l' \<Longrightarrow> basis (put_lot k l s) = basis s + lot_cost l - lot_cost l'"
  by (simp add: basis_def allocated_def map_sum_update)

lemma basis_record:
  "0 \<le> d_cost d \<Longrightarrow> moves (recorded o' f) (d_cost d) s (record_entry o' f p d oid s)"
  by (auto simp: moves_def recorded_def basis_def allocated_def record_entry_def Let_def
      split: option.splits)

lemma moves_trans: "moves ex v s s' \<Longrightarrow> moves ex v' s' s'' \<Longrightarrow> moves ex (v + v') s s''"
  by (auto simp: moves_def)

lemma moves_weaken: "moves ex v s s' \<Longrightarrow> (ex' \<longrightarrow> ex) \<Longrightarrow> moves ex' v s s'"
  by (auto simp: moves_def)

lemma moves_refl [simp]: "moves ex 0 s s"
  by (simp add: moves_def)

lemma moves_eq: "basis s' = basis s + v \<Longrightarrow> moves ex v s s'"
  by (simp add: moves_def)

lemma moves_from: "basis s1 = basis s \<Longrightarrow> moves ex v s1 s' \<Longrightarrow> moves ex v s s'"
  by (simp add: moves_def)

lemma getLot_basis: "getLot m oid s = (l, s') \<Longrightarrow> basis s' = basis s"
  by (auto simp: getLot_def basis_def allocated_def map_sum_update new_lot_def split: option.splits)

lemma dispose_basis:
  assumes "map_get (ps_lots s) k = Some l" "dispose o' f k l u e s = (d, s')"
  shows "basis s' = basis s - d_cost d"
  using assms by (auto simp: dispose_def Let_def basis_put_lot dispose_lot_def)

lemma acquire_basis:
  assumes "map_get (ps_lots s) k = Some l" "lot_ok l" "\<forall>c. cost = Some c \<longrightarrow> 0 \<le> c"
  shows "moves (recorded o' f) (case cost of None \<Rightarrow> 0 | Some c \<Rightarrow> c) s (acquire o' f k l u cost s)"
proof -
  let ?c = "case cost of None \<Rightarrow> 0 | Some c \<Rightarrow> c"
  let ?d = "\<lparr>d_cost = lot_cost l + ?c, d_complete = lot_complete l \<and> cost \<noteq> None,
            d_reason = unknown_cost_reason (lot_complete l \<and> cost \<noteq> None)\<rparr>"
  have c: "0 \<le> lot_cost l + ?c" using assms by (auto simp: lot_ok_def split: option.split)
  have "moves (recorded o' f) (lot_cost l + ?c) s
          (record_entry o' f 0 ?d (Some (lot_outcomeId l)) s)"
    using basis_record [of ?d] c by simp
  then show ?thesis
    using assms(1)
    by (auto simp: acquire_def Let_def basis_put_lot moves_def split: option.splits)
qed

lemma self_fill_basis:
  assumes "map_get (ps_lots s) k = Some l"
  shows "moves (recorded o' f) (fact_value f) s (self_fill o' f k l s)"
proof -
  let ?s1 = "if lot_escrow l < fact_units f then missing o' f ''escrow_balance_gap'' s else s"
  have b: "basis (put_lot k (release_escrow l (fact_units f)) ?s1) = basis s"
    using assms by (subst basis_put_lot [of _ _ l]) (auto simp: release_escrow_def)
  show ?thesis
    unfolding self_fill_def Let_def
    using b by (rule moves_from, intro basis_record [of "\<lparr>d_cost = fact_value f, d_complete = x,
      d_reason = y\<rparr>" for x y, simplified])
qed

lemma sell_fill_basis:
  assumes "pnl_inv s" "lot_ok l" "map_get (ps_lots s) k = Some l"
  shows "moves (recorded o' f) 0 s (sell_fill o' f k l s)"
proof -
  obtain d s1 where d: "dispose o' f k l (fact_units f)
      (extra_get f ''escrowed'' \<noteq> Some (JBool False)) s = (d, s1)"
    by (meson surj_pair)
  have "basis s1 = basis s - d_cost d" "0 \<le> d_cost d"
    using dispose_basis [OF assms(3) d] dispose_inv [OF assms(1,2) _ d] by auto
  then show ?thesis
    using basis_record [of "d\<lparr>d_complete := x, d_reason := y\<rparr>" o' f s1 for x y]
    by (simp add: sell_fill_def d Let_def moves_def)
qed

lemma list_shares_basis:
  "map_get (ps_lots s) k = Some l \<Longrightarrow> basis (list_shares o' f k l u s) = basis s"
  by (simp add: list_shares_def Let_def basis_put_lot)

lemma return_shares_basis:
  "map_get (ps_lots s) k = Some l \<Longrightarrow> basis (return_shares o' f k l u s) = basis s"
  by (simp add: return_shares_def basis_put_lot release_escrow_def)

definition leaks :: "string \<Rightarrow> ledger_fact \<Rightarrow> bool" where
  "leaks w f =
     (owns (lf_owner f) w \<and>
      (lf_kind f = FK_losing_burned \<or>
       lf_kind f = FK_share_transfer \<and> \<not> owns (lf_counterparty f) w))"

lemma lot_fact_basis:
  assumes "pnl_inv s" "lot_ok l" "map_get (ps_lots s) k = Some l"
    and "lf_market f \<noteq> None" "lf_outcomeId f \<noteq> None"
  shows "moves (recorded o' f \<and> \<not> leaks w f) (paid w f) s (lot_fact o' w f k l s)"
proof -
  obtain d s1 where d: "dispose o' f k l (fact_units f) False s = (d, s1)"
    by (meson surj_pair)
  have b: "basis s1 = basis s - d_cost d" "0 \<le> d_cost d"
    using dispose_basis [OF assms(3) d] dispose_inv [OF assms(1,2) _ d] by auto
  note acq = acquire_basis [OF assms(3,2), THEN moves_weaken, of "Some (fact_value f)"]
    acquire_basis [OF assms(3,2), THEN moves_weaken, of None]
  show ?thesis
    using assms b acq self_fill_basis [OF assms(3), THEN moves_weaken]
      sell_fill_basis [OF assms(1-3), THEN moves_weaken]
    by (cases "lf_kind f")
       (auto simp: lot_fact_def filled_def transferred_def Let_def d paid_def leaks_def
          moves_eq list_shares_basis return_shares_basis, simp_all add: moves_def)
qed


lemma lot_fact_inv_key:
  "map_get (ps_lots s) k = Some l \<Longrightarrow> pnl_inv s \<Longrightarrow> lot_ok l"
  using map_of_all [of "ps_lots s" k l lot_ok] by (simp add: pnl_inv_def)

lemma settle_loss_basis:
  assumes "map_get (ps_lots s) (fst kl) = Some (snd kl)" "lot_ok (snd kl)"
  shows "moves (recorded o' f) 0 s (settle_loss o' f m w kl s)"
proof -
  obtain k h where kl: "kl = (k, h)" by (cases kl)
  show ?thesis
    using assms basis_record [of "\<lparr>d_cost = lot_cost h, d_complete = lot_complete h,
        d_reason = unknown_cost_reason (lot_complete h)\<rparr>" o' f s 0 "Some (lot_outcomeId h)"]
    by (auto simp: settle_loss_def kl basis_put_lot moves_def lot_ok_def)
qed

lemma settle_loss_other:
  "k' \<noteq> fst kl \<Longrightarrow> map_get (ps_lots (settle_loss o' f m w kl s)) k' = map_get (ps_lots s) k'"
  by (auto simp: settle_loss_def update_conv split: prod.splits)

lemma settle_losses_basis:
  "\<lbrakk>distinct (map fst kls); \<forall>kl \<in> set kls. lot_ok (snd kl);
    \<forall>kl \<in> set kls. map_get (ps_lots s) (fst kl) = Some (snd kl)\<rbrakk> \<Longrightarrow>
   moves (recorded o' f) 0 s (fold (settle_loss o' f m w) kls s)"
proof (induction kls arbitrary: s)
  case (Cons kl kls)
  let ?s = "settle_loss o' f m w kl s"
  have "moves (recorded o' f) 0 ?s (fold (settle_loss o' f m w) kls ?s)"
  proof (rule Cons.IH)
    show "\<forall>x \<in> set kls. map_get (ps_lots ?s) (fst x) = Some (snd x)"
    proof
      fix x assume x: "x \<in> set kls"
      then have "fst x \<noteq> fst kl" using Cons.prems(1) by (metis distinct.simps(2) image_eqI list.set_map list.simps(9))
      then show "map_get (ps_lots ?s) (fst x) = Some (snd x)"
        using Cons.prems(3) x by (simp add: settle_loss_other)
    qed
  qed (use Cons.prems in auto)
  moreover have "moves (recorded o' f) 0 s ?s"
    using Cons.prems by (intro settle_loss_basis) auto
  ultimately show ?case using moves_trans [of _ 0 s ?s 0] by simp
qed simp

lemma market_resolved_basis:
  assumes "pnl_inv s"
  shows "moves (recorded o' f) 0 s (market_resolved o' f s)"
proof (cases "lf_market f = None \<or> lf_outcomeId f = None")
  case False
  then obtain m w where mw: "lf_market f = Some m" "lf_outcomeId f = Some w" by auto
  let ?s = "s\<lparr>ps_resolved := map_set (toLowerCase m) w (ps_resolved s)\<rparr>"
  have "moves (recorded o' f) 0 ?s (fold (settle_loss o' f m w) (ps_lots s) ?s)"
    using assms by (intro settle_losses_basis) (auto simp: pnl_inv_def)
  moreover have "basis ?s = basis s" by (simp add: basis_def allocated_def)
  ultimately show ?thesis by (simp add: market_resolved_def mw moves_def)
qed (auto simp: market_resolved_def split: option.splits)

lemma consume_part_basis:
  assumes "pnl_inv (snd bs)"
  shows "basis (snd (consume_part o' f m part bs)) + bu_cost (fst (consume_part o' f m part bs))
         = basis (snd bs) + bu_cost (fst bs)"
proof (cases "\<exists>flds a q. part = JObj flds \<and> integer (map_of flds ''outcomeId'') = Some a \<and>
                 integer (map_of flds ''units'') = Some q")
  case True
  then obtain flds a q where p: "part = JObj flds" "integer (map_of flds ''outcomeId'') = Some a"
    "integer (map_of flds ''units'') = Some q" by blast
  obtain b s where bs: "bs = (b, s)" by (cases bs)
  obtain l s1 where l: "getLot m (nat a) s = (l, s1)" by (meson surj_pair)
  obtain d s2 where d: "dispose o' f (lot_key m (nat a)) l q False s1 = (d, s2)"
    by (meson surj_pair)
  show ?thesis
    using dispose_basis [OF getLot_stored [OF l] d] getLot_basis [OF l]
    by (simp add: consume_part_def bs p l d)
next
  case False
  then show ?thesis
    by (auto simp: consume_part_def split: json.splits option.splits prod.splits)
qed

lemma consume_parts_basis:
  "\<lbrakk>burn_ok (fst bs); pnl_inv (snd bs)\<rbrakk> \<Longrightarrow>
   basis (snd (fold (consume_part o' f m) ps bs)) + bu_cost (fst (fold (consume_part o' f m) ps bs))
   = basis (snd bs) + bu_cost (fst bs)"
  by (induction ps arbitrary: bs) (simp_all add: consume_part_inv consume_part_basis)

lemma terminal_burn_basis:
  assumes "pnl_inv s" "lf_kind f = FK_losing_burned \<Longrightarrow> \<not> ex" "ex \<longrightarrow> recorded o' f"
  shows "moves ex 0 s (terminal_burn o' f m s)"
proof -
  obtain b s1 where b: "fold (consume_part o' f m) (consumed_parts f) (no_burn, s) = (b, s1)"
    by (meson surj_pair)
  have n: "burn_ok no_burn" "bu_cost no_burn = 0" by (simp_all add: burn_ok_def no_burn_def)
  have e: "basis s1 + bu_cost b = basis s" and c: "0 \<le> bu_cost b"
    using consume_parts_basis [of "(no_burn, s)" o' f m "consumed_parts f"]
      consume_parts_inv [of "(no_burn, s)" o' f m "consumed_parts f"] assms n
    by (simp_all add: b burn_ok_def)
  have r: "moves ex (bu_cost b) s1
      (record_entry o' f (fact_value f) \<lparr>d_cost = bu_cost b, d_complete = x, d_reason = y\<rparr> oid s1)"
    for x y oid
    using basis_record [of "\<lparr>d_cost = bu_cost b, d_complete = x, d_reason = y\<rparr>"] c assms(3)
    by (simp add: moves_def)
  show ?thesis
  proof (cases "lf_kind f = FK_losing_burned")
    case True
    then show ?thesis using e c assms(2) by (auto simp: terminal_burn_def b moves_def Let_def)
  next
    case False
    then show ?thesis
      using r e unfolding terminal_burn_def b moves_def Let_def by (auto simp: Let_def)
  qed
qed

lemma basis_totals [simp]:
  "basis (bond_locked m f s) = basis s"
  "basis (bond_credited m f s) = basis s"
  "basis (bond_timeout_funded m f s) = basis s"
  "basis (payment_transfer a b f s) = basis s"
  "basis (s\<lparr>ps_bondClaimed := x\<rparr>) = basis s"
  "basis (s\<lparr>ps_creatorIncome := x\<rparr>) = basis s"
  "basis (s\<lparr>ps_creatorClaimed := x\<rparr>) = basis s"
  "basis (s\<lparr>ps_gasCost := x\<rparr>) = basis s"
  by (simp_all add: basis_def allocated_def bond_locked_def bond_credited_def
      bond_timeout_funded_def payment_transfer_def split: option.split)

lemma market_fact_basis:
  assumes "pnl_inv s"
  shows "moves (recorded o' f \<and> \<not> leaks w f) 0 s (market_fact kk o' w f s)"
proof -
  have r: "moves (recorded o' f \<and> \<not> leaks w f) 0 s
      (record_entry o' f v \<lparr>d_cost = 0, d_complete = x, d_reason = y\<rparr> oid s)" for v x y oid
    using basis_record [of "\<lparr>d_cost = 0, d_complete = x, d_reason = y\<rparr>" o' f s]
    by (auto simp: moves_def)
  have t: "owns (lf_owner f) w \<Longrightarrow>
      moves (recorded o' f \<and> \<not> leaks w f) 0 s (terminal_burn o' f m s)" for m
    by (rule terminal_burn_basis [OF assms]) (auto simp: leaks_def)
  show ?thesis
    using assms
    by (cases "lf_market f"; cases "lf_kind f")
       (simp_all add: market_fact_def Let_def moves_eq r t
          market_resolved_basis [THEN moves_weaken])
qed

lemma lot_fact_totals_kind:
  "lf_kind f \<notin> {FK_primary_buy, FK_listing_filled} \<Longrightarrow> paid w f = 0"
  by (auto simp: paid_def)

lemma pnl_step_basis:
  assumes "pnl_inv s"
  shows "moves (recorded o' f \<and> \<not> leaks w f) (paid w f) s (pnl_step kk o' w f s)"
proof (cases "lf_market f = None \<or> lf_outcomeId f = None")
  case True
  then have "paid w f = 0" "pnl_step kk o' w f s = market_fact kk o' w f s"
    by (auto simp: paid_def pnl_step_def split: option.splits)
  then show ?thesis using market_fact_basis [OF assms] by simp
next
  case False
  then obtain m oid where mo: "lf_market f = Some m" "lf_outcomeId f = Some oid" by auto
  obtain l s1 where l: "getLot m oid s = (l, s1)" by (meson surj_pair)
  let ?s2 = "lot_fact o' w f (lot_key m oid) l s1"
  have i: "pnl_inv s1" "lot_ok l" using getLot_inv [OF assms l] by auto
  have "moves (recorded o' f \<and> \<not> leaks w f) (paid w f) s1 ?s2"
    by (rule lot_fact_basis) (use i getLot_stored [OF l] mo in auto)
  from moves_trans [OF moves_from [OF getLot_basis [OF l] this] market_fact_basis]
  show ?thesis using lot_fact_inv [OF i] by (simp add: pnl_step_def mo l)
qed

section \<open>The facts the loop processes\<close>

definition effective :: "pnl_options \<Rightarrow> ledger_fact list \<Rightarrow> ledger_fact list" where
  "effective o' input = filter (before_end o') (dedupe lf_id [] (js_sort financialOrder input))"

lemma pnl_loop_fold:
  "pnl_loop kk o' w seen fs s
   = fold (pnl_step kk o' w) (filter (before_end o') (dedupe lf_id seen fs)) s"
  by (induction kk o' w seen fs s rule: pnl_loop.induct) auto

lemma reduce_facts_fold:
  "reduce_facts kk o' w input = fold (pnl_step kk o' w) (effective o' input) (pnl_init o')"
  by (simp add: reduce_facts_def pnl_loop_fold effective_def)

lemma pnl_steps_basis:
  "pnl_inv s \<Longrightarrow>
   moves (\<forall>f \<in> set fs. recorded o' f \<and> \<not> leaks w f) (sum_list (map (paid w) fs)) s
     (fold (pnl_step kk o' w) fs s)"
proof (induction fs arbitrary: s)
  case (Cons f fs)
  let ?P = "\<forall>g \<in> set (f # fs). recorded o' g \<and> \<not> leaks w g"
  have "moves ?P (paid w f) s (pnl_step kk o' w f s)"
    by (rule pnl_step_basis [OF Cons.prems, THEN moves_weaken]) simp
  moreover have "moves ?P (sum_list (map (paid w) fs)) (pnl_step kk o' w f s)
      (fold (pnl_step kk o' w) fs (pnl_step kk o' w f s))"
    by (rule Cons.IH [OF pnl_step_inv [OF Cons.prems], THEN moves_weaken]) simp
  ultimately show ?case using moves_trans by fastforce
qed simp

lemma reduce_facts_basis:
  "moves (\<forall>f \<in> set (effective o' input). recorded o' f \<and> \<not> leaks w f)
     (sum_list (map (paid w) (effective o' input))) (pnl_init o') (reduce_facts kk o' w input)"
  unfolding reduce_facts_fold by (rule pnl_steps_basis [OF pnl_inv_init])

lemma basis_init [simp]: "basis (pnl_init o') = 0"
  by (simp add: basis_def allocated_def pnl_init_def)


section \<open>Losing positions are charged once\<close>

definition settled_ok :: "(string, nat) jsmap \<Rightarrow> lot \<Rightarrow> bool" where
  "settled_ok r l =
     ((lot_lossSettled l \<longrightarrow> lot_cost l = 0) \<and>
      (case map_get r (toLowerCase (lot_market l)) of
         None \<Rightarrow> True
       | Some w \<Rightarrow> w = lot_outcomeId l \<or> lot_units l \<le> 0 \<or> lot_lossSettled l))"

lemma settled_ok_parts [simp]:
  "settled_ok r (l\<lparr>lot_complete := x\<rparr>) = settled_ok r l"
  "settled_ok r (l\<lparr>lot_escrow := y\<rparr>) = settled_ok r l"
  "settled_ok r (l\<lparr>lot_escrow := y, lot_complete := x\<rparr>) = settled_ok r l"
  by (simp_all add: settled_ok_def split: option.split)

lemma settled_ok_release [simp]: "settled_ok r (release_escrow l u) = settled_ok r l"
  by (simp add: release_escrow_def)

definition loss_inv :: "pnl_state \<Rightarrow> bool" where
  "loss_inv s = (\<forall>p \<in> set (ps_lots s). settled_ok (ps_resolved s) (snd p))"

lemma loss_inv_put [simp]:
  "loss_inv s \<Longrightarrow> settled_ok (ps_resolved s) l \<Longrightarrow> loss_inv (put_lot k l s)"
  by (auto simp: loss_inv_def dest!: in_set_update)

lemma loss_inv_missing [simp]: "loss_inv (missing o' f r s) = loss_inv s"
  by (simp add: loss_inv_def)

lemma loss_inv_record [simp]: "loss_inv (record_entry o' f p d oid s) = loss_inv s"
  by (simp add: loss_inv_def)

lemma getLot_put:
  "getLot m oid s =
     (case map_get (ps_lots s) (lot_key m oid) of
        Some l \<Rightarrow> (l, s)
      | None \<Rightarrow> (new_lot m oid, put_lot (lot_key m oid) (new_lot m oid) s))"
  by (simp add: getLot_def put_lot_def split: option.split)

lemma getLot_loss:
  assumes "loss_inv s" "getLot m oid s = (l, s')"
  shows "loss_inv s' \<and> settled_ok (ps_resolved s') l"
proof -
  have new: "settled_ok (ps_resolved s) (new_lot m oid)"
    by (simp add: settled_ok_def new_lot_def split: option.split)
  then have "loss_inv (put_lot (lot_key m oid) (new_lot m oid) s)"
    using assms by simp
  moreover have "map_get (ps_lots s) (lot_key m oid) = Some l \<Longrightarrow> settled_ok (ps_resolved s) l"
    using assms(1) map_of_all unfolding loss_inv_def by fast
  ultimately show ?thesis
    using assms new by (auto simp: getLot_put split: option.splits)
qed

lemma dispose_loss:
  assumes "loss_inv s" "settled_ok (ps_resolved s) l" "lot_ok l" "0 \<le> u"
    and "dispose o' f k l u e s = (d, s')"
  shows "loss_inv s'"
proof -
  have "lot_lossSettled l \<Longrightarrow> disposed_cost l a = 0" for a
    using assms(2) by (auto simp: settled_ok_def disposed_cost_def bigint_div_def)
  then have "settled_ok (ps_resolved s) (dispose_lot l u e)"
    using assms by (auto simp: settled_ok_def dispose_lot_def Let_def split: option.splits)
  then show ?thesis using assms by (auto simp: dispose_def Let_def)
qed

lemma acquire_loss:
  "loss_inv s \<Longrightarrow> settled_ok (ps_resolved s) l \<Longrightarrow> loss_inv (acquire o' f k l u c s)"
  by (auto simp: acquire_def Let_def settled_ok_def split: option.splits)

lemma lot_fact_loss:
  assumes "loss_inv s" "settled_ok (ps_resolved s) l" "lot_ok l"
  shows "loss_inv (lot_fact o' w f k l s)"
proof -
  have "loss_inv (snd (dispose o' f k l (fact_units f) e s))" for e
    using dispose_loss [OF assms fact_units_nonneg] by (metis surj_pair snd_conv)
  moreover have "loss_inv (sell_fill o' f k l s)"
    using dispose_loss [OF assms fact_units_nonneg]
    by (auto simp: sell_fill_def Let_def split: prod.split)
  ultimately show ?thesis
    using assms
    by (cases "lf_kind f")
       (auto simp: lot_fact_def filled_def transferred_def Let_def self_fill_def
          list_shares_def return_shares_def acquire_loss)
qed

lemma settle_losses_loss:
  "\<lbrakk>distinct (map fst (ps_lots s)); distinct (map fst kls);
    \<forall>kl \<in> set kls. map_get (ps_lots s) (fst kl) = Some (snd kl);
    map_get (ps_resolved s) (toLowerCase m) = Some w;
    \<forall>p \<in> set (ps_lots s). lot_lossSettled (snd p) \<longrightarrow> lot_cost (snd p) = 0;
    \<forall>p \<in> set (ps_lots s). fst p \<in> fst ` set kls \<or> settled_ok (ps_resolved s) (snd p);
    \<forall>p \<in> set (ps_lots s). sameAddress (lot_market (snd p)) m \<or> settled_ok (ps_resolved s) (snd p)\<rbrakk> \<Longrightarrow>
   loss_inv (fold (settle_loss o' f m w) kls s)"
proof (induction kls arbitrary: s)
  case Nil
  then show ?case by (simp add: loss_inv_def)
next
  case (Cons kl kls)
  obtain k h where kl: "kl = (k, h)" by (cases kl)
  let ?s = "settle_loss o' f m w kl s"
  have r: "ps_resolved ?s = ps_resolved s" by (simp add: settle_loss_def kl)
  have k: "k \<notin> fst ` set kls" using Cons.prems(2) by (simp add: kl)
  have h: "map_get (ps_lots s) k = Some h" using Cons.prems(3) by (simp add: kl)
  have good: "settled_ok (ps_resolved s) (snd p)" "lot_lossSettled (snd p) \<longrightarrow> lot_cost (snd p) = 0"
    if p: "p \<in> set (ps_lots ?s)" "fst p = k" for p
  proof -
    let ?c = "sameAddress (lot_market h) m \<and> lot_outcomeId h \<noteq> w \<and> 0 < lot_units h \<and> \<not> lot_lossSettled h"
    have h0: "lot_lossSettled h \<longrightarrow> lot_cost h = 0"
      using Cons.prems(5) map_of_SomeD [OF h] by auto
    have d: "distinct (map fst (ps_lots ?s))"
      using Cons.prems(1) by (simp add: settle_loss_def kl distinct_update)
    have "map_get (ps_lots ?s) k = Some (snd p)" using p d by (metis map_of_eq_Some_iff prod.collapse)
    then have sp: "snd p = (if ?c then h\<lparr>lot_cost := 0, lot_lossSettled := True\<rparr> else h)"
      using h by (auto simp: settle_loss_def kl update_conv split: if_splits)
    show "lot_lossSettled (snd p) \<longrightarrow> lot_cost (snd p) = 0" using sp h0 by simp
    show "settled_ok (ps_resolved s) (snd p)"
    proof (cases "sameAddress (lot_market h) m")
      case True
      then have "map_get (ps_resolved s) (toLowerCase (lot_market h)) = Some w"
        using Cons.prems(4) by (simp add: sameAddress_def)
      then show ?thesis using sp h0 True by (auto simp: settled_ok_def)
    next
      case False
      then have "settled_ok (ps_resolved s) h" using Cons.prems(7) map_of_SomeD [OF h] by auto
      then show ?thesis using sp False by simp
    qed
  qed
  have old: "p \<in> set (ps_lots s)" if "p \<in> set (ps_lots ?s)" "fst p \<noteq> k" for p
    using that in_set_update [of "fst p" "snd p" k] by (fastforce simp: settle_loss_def kl split: if_splits)
  have "loss_inv (fold (settle_loss o' f m w) kls ?s)"
  proof (rule Cons.IH)
    show "distinct (map fst (ps_lots ?s))"
      using Cons.prems(1) by (simp add: settle_loss_def kl distinct_update)
    show "\<forall>x \<in> set kls. map_get (ps_lots ?s) (fst x) = Some (snd x)"
      using Cons.prems(3) k settle_loss_other [of _ kl] by (metis fst_conv image_eqI kl list.set_intros(2))
    show "\<forall>p \<in> set (ps_lots ?s). lot_lossSettled (snd p) \<longrightarrow> lot_cost (snd p) = 0"
      using good old Cons.prems(5) by blast
    show "\<forall>p \<in> set (ps_lots ?s). fst p \<in> fst ` set kls \<or> settled_ok (ps_resolved ?s) (snd p)"
    proof
      fix p assume p: "p \<in> set (ps_lots ?s)"
      show "fst p \<in> fst ` set kls \<or> settled_ok (ps_resolved ?s) (snd p)"
      proof (cases "fst p = k")
        case True
        then show ?thesis using good(1) [OF p] by (simp add: r)
      next
        case False
        then show ?thesis using Cons.prems(6) old [OF p] unfolding r by (auto simp: kl)
      qed
    qed
    show "\<forall>p \<in> set (ps_lots ?s). sameAddress (lot_market (snd p)) m \<or> settled_ok (ps_resolved ?s) (snd p)"
      using good old Cons.prems(7) unfolding r by blast
  qed (use Cons.prems r in auto)
  then show ?case by simp
qed

lemma market_resolved_loss:
  assumes "pnl_inv s" "loss_inv s"
  shows "loss_inv (market_resolved o' f s)"
proof (cases "lf_market f = None \<or> lf_outcomeId f = None")
  case False
  then obtain m w where mw: "lf_market f = Some m" "lf_outcomeId f = Some w" by auto
  let ?s = "s\<lparr>ps_resolved := map_set (toLowerCase m) w (ps_resolved s)\<rparr>"
  have "loss_inv (fold (settle_loss o' f m w) (ps_lots s) ?s)"
  proof (rule settle_losses_loss)
    show "\<forall>p \<in> set (ps_lots ?s). sameAddress (lot_market (snd p)) m \<or> settled_ok (ps_resolved ?s) (snd p)"
      using assms(2) by (auto simp: loss_inv_def settled_ok_def sameAddress_def update_conv)
  qed (use assms in \<open>auto simp: pnl_inv_def loss_inv_def settled_ok_def update_conv\<close>)
  then show ?thesis by (simp add: market_resolved_def mw)
qed (use assms in \<open>auto simp: market_resolved_def split: option.splits\<close>)

lemma consume_part_loss:
  assumes "pnl_inv (snd bs)" "loss_inv (snd bs)"
  shows "loss_inv (snd (consume_part o' f m part bs))"
proof (cases "\<exists>flds a q. part = JObj flds \<and> integer (map_of flds ''outcomeId'') = Some a \<and>
                 integer (map_of flds ''units'') = Some q")
  case True
  then obtain flds a q where p: "part = JObj flds" "integer (map_of flds ''outcomeId'') = Some a"
    "integer (map_of flds ''units'') = Some q" by blast
  obtain b s where bs: "bs = (b, s)" by (cases bs)
  obtain l s1 where l: "getLot m (nat a) s = (l, s1)" by (meson surj_pair)
  obtain d s2 where d: "dispose o' f (lot_key m (nat a)) l q False s1 = (d, s2)"
    by (meson surj_pair)
  show ?thesis
    using dispose_loss [OF _ _ _ integer_nonneg [OF p(3)] d] getLot_loss [OF _ l] getLot_inv [OF _ l] assms
    by (simp add: consume_part_def bs p l d)
next
  case False
  then show ?thesis
    using assms by (auto simp: consume_part_def split: json.splits option.splits prod.splits)
qed

lemma consume_parts_loss:
  "\<lbrakk>burn_ok (fst bs); pnl_inv (snd bs); loss_inv (snd bs)\<rbrakk> \<Longrightarrow>
   loss_inv (snd (fold (consume_part o' f m) ps bs))"
  by (induction ps arbitrary: bs) (simp_all add: consume_part_inv consume_part_loss)

lemma terminal_burn_loss:
  assumes "pnl_inv s" "loss_inv s"
  shows "loss_inv (terminal_burn o' f m s)"
proof -
  have "burn_ok no_burn" by (simp add: burn_ok_def no_burn_def)
  then have "loss_inv (snd (fold (consume_part o' f m) (consumed_parts f) (no_burn, s)))"
    using assms by (intro consume_parts_loss) auto
  then show ?thesis by (auto simp: terminal_burn_def Let_def split: prod.split)
qed

lemma loss_totals [simp]:
  "loss_inv (bond_locked m f s) = loss_inv s"
  "loss_inv (bond_credited m f s) = loss_inv s"
  "loss_inv (bond_timeout_funded m f s) = loss_inv s"
  "loss_inv (payment_transfer a b f s) = loss_inv s"
  "loss_inv (s\<lparr>ps_bondClaimed := x\<rparr>) = loss_inv s"
  "loss_inv (s\<lparr>ps_creatorIncome := x\<rparr>) = loss_inv s"
  "loss_inv (s\<lparr>ps_creatorClaimed := x\<rparr>) = loss_inv s"
  "loss_inv (s\<lparr>ps_gasCost := x\<rparr>) = loss_inv s"
  by (simp_all add: loss_inv_def bond_locked_def bond_credited_def
      bond_timeout_funded_def payment_transfer_def split: option.split)

lemma market_fact_loss:
  assumes "pnl_inv s" "loss_inv s"
  shows "loss_inv (market_fact kk o' w f s)"
  using assms
  by (cases "lf_market f"; cases "lf_kind f")
     (simp_all add: market_fact_def Let_def market_resolved_loss terminal_burn_loss)

lemma pnl_step_loss: "pnl_inv s \<Longrightarrow> loss_inv s \<Longrightarrow> loss_inv (pnl_step kk o' w f s)"
  using getLot_inv [of s] getLot_loss [of s]
  by (simp add: pnl_step_def market_fact_loss lot_fact_loss lot_fact_inv split: option.split prod.split)

lemma pnl_steps_loss: "pnl_inv s \<Longrightarrow> loss_inv s \<Longrightarrow> loss_inv (fold (pnl_step kk o' w) fs s)"
  by (induction fs arbitrary: s) (simp_all add: pnl_step_inv pnl_step_loss)

lemma reduce_facts_loss: "loss_inv (reduce_facts kk o' w input)"
  unfolding reduce_facts_fold
  by (rule pnl_steps_loss) (simp_all add: pnl_inv_init, simp add: loss_inv_def pnl_init_def)

section \<open>The window as a replay of the prefix\<close>

lemma missing_cong:
  "relevantMarket o1 f = relevantMarket o2 f \<Longrightarrow> missing o1 f = missing o2 f"
  by (simp add: missing_def fun_eq_iff)

lemma record_entry_cong:
  "\<lbrakk>included o1 f = included o2 f; relevantMarket o1 f = relevantMarket o2 f\<rbrakk> \<Longrightarrow>
   record_entry o1 f = record_entry o2 f"
  by (intro ext) (simp only: record_entry_def missing_cong [of o1 f o2])

lemma pnl_step_cong:
  assumes "included o1 f = included o2 f" "relevantMarket o1 f = relevantMarket o2 f"
  shows "pnl_step kk o1 w f = pnl_step kk o2 w f"
proof -
  note m = missing_cong [OF assms(2)] and r = record_entry_cong [OF assms]
  have d: "dispose o1 f = dispose o2 f"
    by (intro ext) (simp only: dispose_def m)
  have a: "acquire o1 f = acquire o2 f"
    by (intro ext) (simp only: acquire_def r)
  have l: "lot_fact o1 w f = lot_fact o2 w f"
    by (intro ext) (simp only: lot_fact_def filled_def transferred_def self_fill_def sell_fill_def
        list_shares_def return_shares_def m r d a)
  have b: "terminal_burn o1 f = terminal_burn o2 f"
    by (intro ext) (simp only: terminal_burn_def consume_part_def [abs_def] m r d)
  have s: "market_resolved o1 f = market_resolved o2 f"
    by (intro ext) (simp only: market_resolved_def settle_loss_def [abs_def] r)
  have mf: "market_fact kk o1 w f = market_fact kk o2 w f"
    by (intro ext, cases "lf_kind f"; cases "lf_market f")
       (simp_all add: market_fact_def assms(1) m r b s)
  show ?thesis
    by (intro ext) (simp only: pnl_step_def l mf)
qed

lemma reduce_facts_window:
  assumes "distinct (map lf_id input)" "po_to o' = Some t"
  shows "reduce_facts kk o' w input =
         reduce_facts kk (o'\<lparr>po_to := None\<rparr>) w (filter (\<lambda>f. int (lf_timestamp f) < t) input)"
proof -
  let ?o = "o'\<lparr>po_to := None\<rparr>"
  let ?P = "\<lambda>f. int (lf_timestamp f) < t"
  have d: "distinct (map lf_id (js_sort financialOrder xs))" if "distinct (map lf_id xs)" for xs
    using that by (metis mset_js_sort mset_map mset_eq_imp_distinct_iff)
  have "distinct (map lf_id (filter ?P input))"
    using assms(1) by (simp add: distinct_map_filter)
  from d [OF assms(1)] d [OF this] have e: "effective o' input = effective ?o (filter ?P input)"
    using assms(2)
    by (simp add: effective_def dedupe_distinct fo.js_sort_filter before_end_def [abs_def])
  have P: "?P f" if "f \<in> set (effective ?o (filter ?P input))" for f
    using that set_dedupe_subset by (fastforce simp: effective_def)
  have "fold (pnl_step kk o' w) (effective ?o (filter ?P input)) s
      = fold (pnl_step kk ?o w) (effective ?o (filter ?P input)) s" for s
  proof (rule fold_cong [OF refl refl])
    fix f assume f: "f \<in> set (effective ?o (filter ?P input))"
    show "pnl_step kk o' w f = pnl_step kk ?o w f"
      using P [OF f] assms(2)
      by (intro pnl_step_cong) (simp_all add: included_def relevantMarket_def)
  qed
  moreover have "pnl_init ?o = pnl_init o'" by (simp add: pnl_init_def)
  ultimately show ?thesis by (simp add: reduce_facts_fold e)
qed

lemma computePnl_cong:
  assumes "\<And>w. reduce_facts kk o1 w xs = reduce_facts kk o2 w ys" "po_markets o1 = po_markets o2"
  shows "computePnl ga kk a xs o1 = computePnl ga kk a ys o2"
proof -
  have l: "lot_selected o1 = lot_selected o2"
    using assms(2) by (simp add: lot_selected_def fun_eq_iff)
  have "pnl_result o1 w s = pnl_result o2 w s" for w s
    by (simp only: pnl_result_def final_reasons_def l)
  then show ?thesis by (simp only: computePnl_def assms(1))
qed

lemma computePnl_Inr:
  "computePnl ga kk a xs o' = Inr p \<Longrightarrow>
   \<exists>w. ga a = Some w \<and> p = pnl_result o' w (reduce_facts kk o' w xs)"
  by (auto simp: computePnl_def Let_def split: option.splits if_splits)

lemma final_reasons_nonempty: "ps_reasons s \<noteq> [] \<Longrightarrow> final_reasons o' s \<noteq> []"
proof -
  have "rs \<noteq> [] \<Longrightarrow> fold (\<lambda>l rs. if P l then set_add (g l) rs else rs) ls rs \<noteq> []"
    for P and g :: "lot \<Rightarrow> string" and ls rs
    by (induction ls arbitrary: rs) auto
  then show "ps_reasons s \<noteq> [] \<Longrightarrow> final_reasons o' s \<noteq> []"
    by (simp add: final_reasons_def)
qed

section \<open>Sample facts\<close>

definition sample_fact :: "string \<Rightarrow> fact_kind \<Rightarrow> nat \<Rightarrow> string \<Rightarrow> ledger_fact" where
  "sample_fact i k b who =
     \<lparr>lf_id = i, lf_kind = k, lf_blockNumber = b, lf_blockHash = ''0xb'', lf_transactionHash = ''0xt'',
      lf_transactionIndex = 0, lf_logIndex = 0, lf_factIndex = 0, lf_timestamp = b,
      lf_market = Some ''0xA'', lf_owner = Some who, lf_counterparty = None, lf_outcomeId = Some 1,
      lf_listingId = None, lf_units = Some 10, lf_amount = Some 25, lf_extra = []\<rparr>"

definition sample_buy :: ledger_fact where "sample_buy = sample_fact ''a'' FK_primary_buy 5 ''0xw''"

definition sample_loss :: ledger_fact where
  "sample_loss = (sample_fact ''b'' FK_market_resolved 7 ''0xw'')\<lparr>lf_outcomeId := Some 2\<rparr>"

definition sample_claim :: ledger_fact where
  "sample_claim = (sample_fact ''c'' FK_winner_claimed 9 ''0xw'')\<lparr>lf_amount := Some 100\<rparr>"

definition sample_options :: pnl_options where
  "sample_options = \<lparr>po_coverageComplete = True, po_from = None, po_to = None, po_markets = None\<rparr>"


section \<open>Properties\<close>

text \<open>
  C20. The reducer gives one result for one set of facts: facts delivered in another order, or
  delivered again, change nothing, as long as no two different facts share a position in the chain.
\<close>

theorem pnl_order_insensitive:
  assumes "mset ys = mset xs" "set dups \<subseteq> set xs"
    and "\<And>f g. f \<in> set xs \<Longrightarrow> g \<in> set xs \<Longrightarrow> financialOrder f g = 0 \<Longrightarrow> f = g"
  shows "computePnl ga kk a (ys @ dups) o' = computePnl ga kk a xs o'"
proof (rule computePnl_cong)
  have "set ys = set xs" using assms(1) by (metis set_mset_mset)
  then have "effective o' (ys @ dups) = effective o' xs"
    using fo.js_sort_perm [OF assms(1)] assms(2,3) by (simp add: effective_def fo.dedupe_sort_dups)
  then show "reduce_facts kk o' w (ys @ dups) = reduce_facts kk o' w xs" for w
    by (simp add: reduce_facts_fold)
qed simp

theorem pnl_order_insensitive_witness:
  "computePnl Some id ''0xw'' ([sample_claim, sample_buy] @ [sample_buy]) sample_options
   = computePnl Some id ''0xw'' [sample_buy, sample_claim] sample_options"
  by (rule pnl_order_insensitive)
     (auto simp: sample_claim_def sample_buy_def sample_fact_def financialOrder_zero)

text \<open>
  C11. Cost is never over-allocated: the cost charged to realized entries and the cost still carried
  by lots together stay within what the account paid for shares in the processed facts.
\<close>

theorem pnl_cost_bounded:
  assumes "computePnl ga kk a xs o' = Inr p"
  shows "sum_list (map pe_allocatedCost (pnl_entries p)) + sum_list (map pl_knownCost (pnl_lots p))
         \<le> sum_list (map (paid (pnl_owner p)) (effective o' xs))"
proof -
  obtain w where w: "p = pnl_result o' w (reduce_facts kk o' w xs)"
    using computePnl_Inr [OF assms] by blast
  let ?s = "reduce_facts kk o' w xs"
  have ok: "\<forall>l \<in> set (map_values (ps_lots ?s)). 0 \<le> lot_cost l"
    using reduce_facts_inv [of kk o' w xs] by (auto simp: pnl_inv_def lot_ok_def)
  have le: "sum_list (map lot_cost (filter P ls)) \<le> sum_list (map lot_cost ls)"
    if "\<forall>l \<in> set ls. 0 \<le> lot_cost l" for P and ls :: "lot list"
    using that by (induction ls) auto
  have "sum_list (map pl_knownCost (pnl_lots p)) \<le> sum_list (map lot_cost (map_values (ps_lots ?s)))"
    using le [OF ok] by (simp add: w pnl_result_def Let_def comp_def)
  moreover have "basis ?s \<le> sum_list (map (paid w) (effective o' xs))"
    using reduce_facts_basis [of o' xs w kk] by (simp add: moves_def)
  moreover have "sum_list (map lot_cost (map_values (ps_lots ?s))) = map_sum lot_cost (ps_lots ?s)"
    by (simp add: map_sum_def comp_def)
  ultimately show ?thesis
    by (simp add: w pnl_result_def Let_def basis_def allocated_def)
qed

text \<open>
  The sample account bought ten units for 25, and ten units were burned for a payout of 100.
\<close>

definition sample_pnl :: pnl where
  "sample_pnl = pnl_result sample_options ''0xw''
     (reduce_facts id sample_options ''0xw'' [sample_claim, sample_buy])"

lemma sample_pnl_ok: "computePnl Some id ''0xw'' [sample_claim, sample_buy] sample_options = Inr sample_pnl"
proof -
  have "pnl_ok sample_pnl" unfolding sample_pnl_def by code_simp
  then show ?thesis by (simp add: computePnl_def sample_pnl_def)
qed

theorem pnl_cost_bounded_witness:
  "sum_list (map pe_allocatedCost (pnl_entries sample_pnl)) + sum_list (map pl_knownCost (pnl_lots sample_pnl))
   \<le> sum_list (map (paid (pnl_owner sample_pnl)) (effective sample_options [sample_claim, sample_buy]))"
  by (rule pnl_cost_bounded [OF sample_pnl_ok])

text \<open>
  Cost is conserved: when every processed fact is inside the reporting window and names a market,
  and no shares left the account without a sale, the cost paid is exactly the cost charged to
  entries plus the cost of the remaining lots.
\<close>

theorem pnl_cost_conserved:
  assumes "\<forall>f \<in> set (effective o' xs). included o' f \<and> lf_market f \<noteq> None \<and> \<not> leaks w f"
  shows "sum_list (map pe_allocatedCost (ps_entries (reduce_facts kk o' w xs)))
           + sum_list (map lot_cost (map_values (ps_lots (reduce_facts kk o' w xs))))
         = sum_list (map (paid w) (effective o' xs))"
proof -
  have "basis (reduce_facts kk o' w xs) = sum_list (map (paid w) (effective o' xs))"
    using reduce_facts_basis [of o' xs w kk] assms by (simp add: moves_def recorded_def)
  then show ?thesis by (simp add: basis_def allocated_def map_sum_def comp_def)
qed

text \<open>
  C21. A reported realized net is complete: every entry then has a known cost, and the net is the sum
  of proceeds minus allocated cost.
\<close>

theorem pnl_realized_exact:
  assumes "computePnl ga kk a xs o' = Inr p" "pnl_realizedNet p = Some v"
  shows "list_all pe_complete (pnl_entries p) \<and> pnl_missingReasons p = [] \<and>
         v = sum_list (map (\<lambda>e. pe_proceeds e - pe_allocatedCost e) (pnl_entries p))"
proof -
  obtain w where w: "p = pnl_result o' w (reduce_facts kk o' w xs)"
    using computePnl_Inr [OF assms(1)] by blast
  let ?s = "reduce_facts kk o' w xs"
  have r: "final_reasons o' ?s = []" "v = sum_list (map entry_net (ps_entries ?s))"
    using assms(2) by (auto simp: w pnl_result_def Let_def split: if_splits)
  have "ps_reasons ?s = []"
    using r(1) final_reasons_nonempty by blast
  then have c: "\<forall>e \<in> set (ps_entries ?s). pe_complete e"
    and e: "list_all entry_ok (ps_entries ?s)"
    using reduce_facts_inv [of kk o' w xs] by (auto simp: pnl_inv_def)
  then have "map entry_net (ps_entries ?s) = map (\<lambda>e. pe_proceeds e - pe_allocatedCost e) (ps_entries ?s)"
    by (auto simp: list_all_iff entry_ok_def entry_net_def)
  then have "v = sum_list (map (\<lambda>e. pe_proceeds e - pe_allocatedCost e) (ps_entries ?s))"
    by (simp only: r(2))
  then show ?thesis using c r(1) by (simp add: w pnl_result_def Let_def list_all_iff)
qed

theorem pnl_realized_exact_witness:
  "list_all pe_complete (pnl_entries sample_pnl) \<and> pnl_missingReasons sample_pnl = [] \<and>
   75 = sum_list (map (\<lambda>e. pe_proceeds e - pe_allocatedCost e) (pnl_entries sample_pnl))"
  by (rule pnl_realized_exact [OF sample_pnl_ok]) (unfold sample_pnl_def, code_simp)

text \<open>
  C22. A losing position is charged once: after the reducer ran, a lot of a resolved market whose
  outcome lost holds no cost, so a later burn or transfer cannot realize it again.
\<close>

theorem pnl_loss_charged_once:
  assumes "(k, l) \<in> set (ps_lots (reduce_facts kk o' w xs))" "0 < lot_units l"
    and "map_get (ps_resolved (reduce_facts kk o' w xs)) (toLowerCase (lot_market l)) = Some win"
    and "win \<noteq> lot_outcomeId l"
  shows "lot_lossSettled l \<and> lot_cost l = 0"
  using reduce_facts_loss [of kk o' w xs] assms
  by (fastforce simp: loss_inv_def settled_ok_def)

lemma sample_loss_run:
  "let s = reduce_facts id sample_options ''0xw'' [sample_loss, sample_buy]; p = hd (ps_lots s) in
   ps_lots s \<noteq> [] \<and> 0 < lot_units (snd p) \<and> map_get (ps_resolved s) (toLowerCase (lot_market (snd p))) = Some 2 \<and>
   2 \<noteq> lot_outcomeId (snd p)"
  by code_simp

theorem pnl_loss_charged_once_witness:
  "let l = snd (hd (ps_lots (reduce_facts id sample_options ''0xw'' [sample_loss, sample_buy])))
   in lot_lossSettled l \<and> lot_cost l = 0"
  unfolding Let_def
  by (rule pnl_loss_charged_once
        [of "fst (hd (ps_lots (reduce_facts id sample_options ''0xw'' [sample_loss, sample_buy])))"
            _ id sample_options "''0xw''" "[sample_loss, sample_buy]" 2]) (use sample_loss_run in \<open>simp_all add: Let_def\<close>)

text \<open>
  The unsigned amounts of the result are never negative, a lot with known cost never has more
  units in escrow than it holds, and the locked bonds cover every bond still open.
\<close>

theorem pnl_amounts_nonnegative:
  "let s = reduce_facts kk o' w xs; p = pnl_result o' w s in
   list_all (\<lambda>l. 0 < pl_units l \<and> 0 \<le> pl_escrowUnits l \<and> 0 \<le> pl_knownCost l \<and>
                 (if pl_costComplete l then pl_escrowUnits l \<le> pl_units l else True)) (pnl_lots p) \<and>
   list_all (\<lambda>e. 0 \<le> pe_proceeds e \<and> 0 \<le> pe_allocatedCost e) (pnl_entries p) \<and>
   list_all (\<lambda>v. 0 \<le> v) [pnl_creatorIncome p, pnl_creatorClaimed p, pnl_bondLocked p,
     pnl_bondCredited p, pnl_bondClaimed p, pnl_bondSlashed p, pnl_paymentIn p, pnl_paymentOut p,
     pnl_gasCost p] \<and>
   sum_list (map bond_amount (filter (\<lambda>b. \<not> bond_settled b) (map_values (ps_bonds s))))
     \<le> pnl_bondLocked p"
proof -
  let ?s = "reduce_facts kk o' w xs"
  have i: "pnl_inv ?s" by (rule reduce_facts_inv)
  have "map_sum bond_open bs
      = sum_list (map bond_amount (filter (\<lambda>b. \<not> bond_settled b) (map_values bs)))"
    for bs :: "(string, bond) jsmap"
    by (induction bs) (simp_all add: bond_open_def)
  moreover have "0 \<le> map_sum bond_open (ps_bonds ?s)"
    using i by (intro map_sum_nonneg) (auto simp: pnl_inv_def bond_open_def)
  ultimately show ?thesis
    using i by (auto simp: pnl_inv_def pnl_result_def Let_def list_all_iff lot_ok_def entry_ok_def)
qed

text \<open>
  A snapshot at time \<open>t\<close> is the live computation over the facts before \<open>t\<close>: historical replay
  and leaderboard windows run the same reducer on a prefix.
\<close>

theorem pnl_window_is_prefix:
  assumes "distinct (map lf_id xs)" "po_to o' = Some t"
  shows "computePnl ga kk a xs o' =
         computePnl ga kk a (filter (\<lambda>f. int (lf_timestamp f) < t) xs) (o'\<lparr>po_to := None\<rparr>)"
  by (rule computePnl_cong) (simp_all add: reduce_facts_window [OF assms])

theorem pnl_window_is_prefix_witness:
  "computePnl Some id ''0xw'' [sample_claim, sample_buy] (sample_options\<lparr>po_to := Some 6\<rparr>) =
   computePnl Some id ''0xw''
     (filter (\<lambda>f. int (lf_timestamp f) < 6) [sample_claim, sample_buy])
     (sample_options\<lparr>po_to := Some 6, po_to := None\<rparr>)"
  by (rule pnl_window_is_prefix) (simp_all add: sample_claim_def sample_buy_def sample_fact_def)
end
