(* ===== verification/Leaderboard.thy ===== *)
theory Leaderboard
  imports Pnl
begin

text \<open>
  \<open>scoreLeaderboard\<close> of offchain/app-core/src/leaderboard.ts with the period of report-contracts.ts,
  and \<open>findBlockBeforeTimestamp\<close> of offchain/indexer/src/leaderboards.ts, the binary search that fixes
  the last block of a period.
\<close>

section \<open>Periods\<close>

record period_market =
  pm_market :: string
  pm_startsAt :: nat

record leaderboard_period =
  lp_id :: string
  lp_startsAt :: nat
  lp_endsAt :: nat
  lp_publishedAt :: nat
  lp_markets :: "period_market list"

text \<open>The cross-field refinement of \<open>leaderboardPeriodSchema\<close> (and its roster size).\<close>

definition period_ok :: "leaderboard_period \<Rightarrow> bool" where
  "period_ok v =
     (lp_markets v \<noteq> [] \<and> length (lp_markets v) \<le> 200 \<and>
      \<not> (lp_endsAt v \<le> lp_startsAt v \<or>
         lp_startsAt v < lp_publishedAt v \<or>
         list_ex (\<lambda>m. pm_startsAt m < lp_startsAt v \<or> lp_endsAt v \<le> pm_startsAt m \<or>
                      pm_startsAt m < lp_publishedAt v) (lp_markets v) \<or>
         length (remdups (map (\<lambda>m. toLowerCase (pm_market m)) (lp_markets v)))
           \<noteq> length (lp_markets v)))"

section \<open>Scores\<close>

record score_value =
  sv_account :: string
  sv_realizedNet :: int
  sv_marketCount :: nat

record excluded_account =
  ex_account :: string
  ex_reasons :: "string list"

record leaderboard_entry =
  le_account :: string
  le_realizedNet :: int
  le_marketCount :: nat
  le_rank :: nat

definition controls :: "app_account list \<Rightarrow> (string, string) jsmap" where
  "controls accounts =
     fold (\<lambda>a. map_set (toLowerCase (aa_address a)) (toLowerCase (aa_controller a))) accounts []"

text \<open>A market counts for an account that neither created it nor is controlled with its creator.\<close>

definition eligible_market ::
  "app_account list \<Rightarrow> (string, string) jsmap \<Rightarrow> app_account \<Rightarrow> period_market \<Rightarrow> bool" where
  "eligible_market accounts creators account m =
     (case map_get creators (toLowerCase (pm_market m)) of
        None \<Rightarrow> False
      | Some creator \<Rightarrow>
          let creatorControl = (case map_get (controls accounts) (toLowerCase creator) of
                                  None \<Rightarrow> toLowerCase creator | Some c \<Rightarrow> c)
          in \<not> sameAddress creator (aa_address account) \<and>
             creatorControl \<noteq> toLowerCase (aa_controller account) \<and>
             creatorControl \<noteq> toLowerCase (aa_address account))"

definition participation_kinds :: "fact_kind list" where
  "participation_kinds =
     [FK_primary_buy, FK_listing_filled, FK_share_transfer, FK_winner_claimed,
      FK_early_bird_claimed, FK_refunded, FK_timeout_claimed]"

definition participated_in ::
  "leaderboard_period \<Rightarrow> ledger_fact list \<Rightarrow> app_account \<Rightarrow> period_market \<Rightarrow> bool" where
  "participated_in p facts account m =
     list_ex (\<lambda>f. lf_kind f \<in> set participation_kinds \<and> lf_timestamp f < lp_endsAt p \<and>
                  owns (lf_market f) (pm_market m) \<and>
                  (owns (lf_owner f) (aa_address account) \<or>
                   owns (lf_counterparty f) (aa_address account))) facts"

definition participated ::
  "leaderboard_period \<Rightarrow> app_account list \<Rightarrow> ledger_fact list \<Rightarrow> (string, string) jsmap \<Rightarrow>
     app_account \<Rightarrow> period_market list" where
  "participated p accounts facts creators account =
     filter (participated_in p facts account)
       (filter (eligible_market accounts creators account) (lp_markets p))"

definition market_options ::
  "leaderboard_period \<Rightarrow> string list \<Rightarrow> app_account \<Rightarrow> period_market \<Rightarrow> pnl_options" where
  "market_options p covered account m =
     \<lparr>po_coverageComplete = (toLowerCase (aa_address account) \<in> set covered),
      po_from = Some (int (pm_startsAt m)), po_to = Some (int (lp_endsAt p)),
      po_markets = Some [toLowerCase (pm_market m)]\<rparr>"

text \<open>The inner loop over the markets an account took part in.\<close>

fun score_markets ::
  "(string \<Rightarrow> string option) \<Rightarrow> (string \<Rightarrow> string) \<Rightarrow> leaderboard_period \<Rightarrow> string list \<Rightarrow>
     ledger_fact list \<Rightarrow> app_account \<Rightarrow> period_market list \<Rightarrow> string list \<Rightarrow> int \<Rightarrow>
     (string list \<times> int) outcome" where
  "score_markets ga kk p covered facts account [] reasons net = Inr (reasons, net)"
| "score_markets ga kk p covered facts account (m # ms) reasons net =
     outcome_bind (computePnl ga kk (aa_address account) facts (market_options p covered account m))
       (\<lambda>r. score_markets ga kk p covered facts account ms
              (if \<not> pnl_complete r then fold set_add (pnl_missingReasons r) reasons else reasons)
              (net + pnl_knownRealizedNet r))"

text \<open>The outer loop, with the arrays \<open>values\<close> and \<open>excluded\<close>.\<close>

fun score_accounts ::
  "(string \<Rightarrow> string option) \<Rightarrow> (string \<Rightarrow> string) \<Rightarrow> leaderboard_period \<Rightarrow> app_account list \<Rightarrow>
     string list \<Rightarrow> ledger_fact list \<Rightarrow> (string, string) jsmap \<Rightarrow> app_account list \<Rightarrow>
     (score_value list \<times> excluded_account list) \<Rightarrow>
     (score_value list \<times> excluded_account list) outcome" where
  "score_accounts ga kk p accounts covered facts creators [] acc = Inr acc"
| "score_accounts ga kk p accounts covered facts creators (a # as) acc =
     (let ms = participated p accounts facts creators a in
      if ms = [] then score_accounts ga kk p accounts covered facts creators as acc
      else outcome_bind (score_markets ga kk p covered facts a ms [] 0)
             (\<lambda>(reasons, net).
                score_accounts ga kk p accounts covered facts creators as
                  (if reasons \<noteq> []
                   then (fst acc, snd acc @ [\<lparr>ex_account = aa_address a, ex_reasons = sort reasons\<rparr>])
                   else (fst acc @ [\<lparr>sv_account = aa_address a, sv_realizedNet = net,
                                     sv_marketCount = length ms\<rparr>], snd acc))))"

text \<open>\<open>lc\<close> is String.prototype.localeCompare.\<close>

definition value_order ::
  "(string \<Rightarrow> string \<Rightarrow> int) \<Rightarrow> score_value \<Rightarrow> score_value \<Rightarrow> int" where
  "value_order lc a b =
     (if sv_realizedNet b < sv_realizedNet a then -1
      else if sv_realizedNet a < sv_realizedNet b then 1
      else lc (toLowerCase (sv_account a)) (toLowerCase (sv_account b)))"

definition excluded_order ::
  "(string \<Rightarrow> string \<Rightarrow> int) \<Rightarrow> excluded_account \<Rightarrow> excluded_account \<Rightarrow> int" where
  "excluded_order lc a b = lc (toLowerCase (ex_account a)) (toLowerCase (ex_account b))"

text \<open>The \<open>map\<close> with the running variable \<open>rank\<close>: \<open>prev\<close> is \<open>values[i - 1]\<close>.\<close>

fun assign_ranks :: "nat \<Rightarrow> nat \<Rightarrow> int option \<Rightarrow> score_value list \<Rightarrow> leaderboard_entry list" where
  "assign_ranks i rank prev [] = []"
| "assign_ranks i rank prev (v # vs) =
     (let rank' = (if 0 < i \<and> prev \<noteq> Some (sv_realizedNet v) then i + 1 else rank)
      in \<lparr>le_account = sv_account v, le_realizedNet = sv_realizedNet v,
          le_marketCount = sv_marketCount v, le_rank = rank'\<rparr>
         # assign_ranks (i + 1) rank' (Some (sv_realizedNet v)) vs)"

definition scoreLeaderboard ::
  "(string \<Rightarrow> string option) \<Rightarrow> (string \<Rightarrow> string) \<Rightarrow> (string \<Rightarrow> string \<Rightarrow> int) \<Rightarrow>
     leaderboard_period \<Rightarrow> app_account list \<Rightarrow> ledger_fact list \<Rightarrow> (string, string) jsmap \<Rightarrow>
     string list \<Rightarrow> (leaderboard_entry list \<times> excluded_account list) outcome" where
  "scoreLeaderboard ga kk lc p accounts facts creators covered =
     outcome_map
       (\<lambda>(values, excluded).
          (assign_ranks 0 1 None (js_sort (value_order lc) values),
           js_sort (excluded_order lc) excluded))
       (score_accounts ga kk p accounts covered facts creators accounts ([], []))"

section \<open>The last block before a time\<close>

record rpc_block =
  rb_number :: "int option"
  rb_hash :: "string option"
  rb_parentHash :: string
  rb_timestamp :: int

text \<open>
  \<open>blk n\<close> is the answer of \<open>client.getBlock\<close> for block \<open>n\<close>. The result is the number of reads (the calls
  of \<open>onRead\<close>) and the block found.
\<close>

function find_before ::
  "(int \<Rightarrow> rpc_block outcome) \<Rightarrow> int \<Rightarrow> int \<Rightarrow> int \<Rightarrow> rpc_block option \<Rightarrow> nat \<Rightarrow>
     nat \<times> rpc_block option outcome" where
  "find_before blk limit low high result reads =
     (if high < low then (reads, Inr result)
      else
        let middle = low + bigint_div (high - low) 2 in
        case blk middle of
          Inl e \<Rightarrow> (reads + 1, Inl e)
        | Inr b \<Rightarrow>
            if rb_hash b = None \<or> rb_number b = None
            then (reads + 1, Inl (AppError ''index_not_ready'' 503))
            else if rb_timestamp b < limit
            then find_before blk limit (middle + 1) high (Some b) (reads + 1)
            else if middle = 0 then (reads + 1, Inr result)
            else find_before blk limit low (middle - 1) result (reads + 1))"
  by pat_completeness auto

termination
  by (relation "measure (\<lambda>(blk, limit, low, high, result, reads). nat (high - low + 1))")
     (auto simp: bigint_div_nonneg)

declare find_before.simps [simp del]

definition findBlockBeforeTimestamp ::
  "(int \<Rightarrow> rpc_block outcome) \<Rightarrow> int \<Rightarrow> int \<Rightarrow> int \<Rightarrow> nat \<times> rpc_block option outcome" where
  "findBlockBeforeTimestamp blk fromBlock toBlock exclusiveTimestamp =
     (if toBlock < fromBlock then (0, Inr None)
      else find_before blk exclusiveTimestamp fromBlock toBlock None 0)"

section \<open>Ranking\<close>

lemma value_order_comparator:
  assumes "comparator lc"
  shows "comparator (value_order lc)"
proof
  fix x y z
  show "sgn (value_order lc x y) = - sgn (value_order lc y x)"
    using comparator.cmp_flip [OF assms, of "toLowerCase (sv_account x)" "toLowerCase (sv_account y)"]
    by (simp add: value_order_def)
  show "value_order lc x z \<le> 0" if "value_order lc x y \<le> 0" "value_order lc y z \<le> 0"
    using that comparator.cmp_trans [OF assms] by (auto simp: value_order_def split: if_splits)
qed

text \<open>Competition ranks of a list in descending order: one more than the number of greater nets.\<close>

definition greater_nets :: "int \<Rightarrow> int list \<Rightarrow> nat" where
  "greater_nets v ns = length (filter (\<lambda>n. v < n) ns)"

lemma assign_ranks_nets: "map le_realizedNet (assign_ranks i r pv vs) = map sv_realizedNet vs"
  by (induction i r pv vs rule: assign_ranks.induct) (auto simp: Let_def)

lemma assign_ranks_accounts:
  "map le_account (assign_ranks i r pv vs) = map sv_account vs"
  "map le_marketCount (assign_ranks i r pv vs) = map sv_marketCount vs"
  by (induction i r pv vs rule: assign_ranks.induct) (auto simp: Let_def)

lemma assign_ranks_correct:
  "\<lbrakk>length done = i; sorted_wrt (\<lambda>a b. b \<le> a) (done @ map sv_realizedNet vs);
    i = 0 \<longrightarrow> r = 1 \<and> pv = None;
    0 < i \<longrightarrow> pv = Some (last done) \<and> r = Suc (greater_nets (last done) (done @ map sv_realizedNet vs))\<rbrakk> \<Longrightarrow>
   \<forall>e \<in> set (assign_ranks i r pv vs).
     le_rank e = Suc (greater_nets (le_realizedNet e) (done @ map sv_realizedNet vs))"
proof (induction i r pv vs arbitrary: "done" rule: assign_ranks.induct)
  case (2 i r pv v vs)
  let ?n = "sv_realizedNet v"
  let ?all = "done @ map sv_realizedNet (v # vs)"
  let ?r = "if 0 < i \<and> pv \<noteq> Some ?n then i + 1 else r"
  have ge: "\<forall>d \<in> set done. ?n \<le> d" "\<forall>w \<in> set (map sv_realizedNet vs). w \<le> ?n"
    using "2.prems"(2) by (auto simp: sorted_wrt_append)
  have r: "?r = Suc (greater_nets ?n ?all)"
  proof (cases "i = 0")
    case True
    then show ?thesis using "2.prems" ge by (auto simp: greater_nets_def filter_empty_conv)
  next
    case False
    then have d: "done \<noteq> []" using "2.prems"(1) by auto
    show ?thesis
    proof (cases "last done = ?n")
      case True
      then show ?thesis using False "2.prems"(4) by simp
    next
      case neq: False
      have "\<forall>x \<in> set done. last done \<le> x"
      proof
        fix x assume "x \<in> set done"
        moreover have "done = butlast done @ [last done]" using d by simp
        moreover have "sorted_wrt (\<lambda>a b. b \<le> a) (butlast done @ [last done])"
          using "2.prems"(2) calculation(2) by (metis sorted_wrt_append)
        ultimately show "last done \<le> x"
          by (metis (no_types, lifting) Un_iff empty_iff insert_iff list.set(1) list.set(2) order_refl set_append sorted_wrt_append)
      qed
      moreover have "?n < last done" using neq ge(1) d by (metis last_in_set order_less_le)
      ultimately have "filter (\<lambda>n. ?n < n) done = done" by (auto simp: filter_id_conv)
      moreover have "filter (\<lambda>n. ?n < n) (map sv_realizedNet (v # vs)) = []"
        using ge(2) by (auto simp: filter_empty_conv)
      ultimately have "greater_nets ?n ?all = i"
        unfolding greater_nets_def filter_append using "2.prems"(1) by simp
      then show ?thesis using False neq "2.prems"(4) by simp
    qed
  qed
  have "\<forall>e \<in> set (assign_ranks (i + 1) ?r (Some ?n) vs).
      le_rank e = Suc (greater_nets (le_realizedNet e) ((done @ [?n]) @ map sv_realizedNet vs))"
    by (rule "2.IH") (use "2.prems" r in auto)
  then show ?case using r by (simp add: Let_def)
qed simp

lemma scoreLeaderboard_Inr:
  "scoreLeaderboard ga kk lc p accounts facts creators covered = Inr (entries, excluded) \<Longrightarrow>
   \<exists>vs xs. score_accounts ga kk p accounts covered facts creators accounts ([], []) = Inr (vs, xs) \<and>
     entries = assign_ranks 0 1 None (js_sort (value_order lc) vs) \<and>
     excluded = js_sort (excluded_order lc) xs"
  by (auto simp: scoreLeaderboard_def split: prod.splits)

lemma entries_sorted:
  assumes "comparator lc"
  shows "sorted_wrt (\<lambda>a b. b \<le> a) (map sv_realizedNet (js_sort (value_order lc) vs))"
proof -
  have "sorted_wrt (\<lambda>a b. value_order lc a b \<le> 0) (js_sort (value_order lc) vs)"
    by (rule comparator.sorted_js_sort [OF value_order_comparator [OF assms]])
  then show ?thesis
    unfolding sorted_wrt_map
    by (rule sorted_wrt_mono_rel [rotated]) (auto simp: value_order_def split: if_splits)
qed

section \<open>Who is scored\<close>

definition scored :: "(string \<Rightarrow> string option) \<Rightarrow> (string \<Rightarrow> string) \<Rightarrow> leaderboard_period \<Rightarrow> app_account list \<Rightarrow>
    string list \<Rightarrow> ledger_fact list \<Rightarrow> (string, string) jsmap \<Rightarrow> score_value \<Rightarrow> bool" where
  "scored ga kk p accounts covered facts creators v =
     list_ex (\<lambda>a. aa_address a = sv_account v \<and>
        participated p accounts facts creators a \<noteq> [] \<and>
        sv_marketCount v = length (participated p accounts facts creators a) \<and>
        score_markets ga kk p covered facts a (participated p accounts facts creators a) [] 0
          = Inr ([], sv_realizedNet v)) accounts"

lemma score_accounts_scored:
  "score_accounts ga kk p accounts covered facts creators as acc = Inr (vs, xs) \<Longrightarrow>
   set as \<subseteq> set accounts \<Longrightarrow> \<forall>v \<in> set (fst acc). scored ga kk p accounts covered facts creators v \<Longrightarrow>
   \<forall>v \<in> set vs. scored ga kk p accounts covered facts creators v"
proof (induction as arbitrary: acc)
  case (Cons a as)
  show ?case
  proof (cases "participated p accounts facts creators a = []")
    case True
    then show ?thesis using Cons by simp
  next
    case False
    with Cons.prems(1) obtain reasons net where
      m: "score_markets ga kk p covered facts a (participated p accounts facts creators a) [] 0 = Inr (reasons, net)"
      and r: "score_accounts ga kk p accounts covered facts creators as
          (if reasons \<noteq> [] then (fst acc, snd acc @ [\<lparr>ex_account = aa_address a, ex_reasons = sort reasons\<rparr>])
           else (fst acc @ [\<lparr>sv_account = aa_address a, sv_realizedNet = net,
                  sv_marketCount = length (participated p accounts facts creators a)\<rparr>], snd acc)) = Inr (vs, xs)"
      by (auto simp: Let_def)
    show ?thesis
      by (rule Cons.IH [OF r]) (use Cons.prems m False in \<open>auto simp: scored_def list_ex_iff\<close>)
  qed
qed simp

lemma score_accounts_partition:
  "score_accounts ga kk p accounts covered facts creators as acc = Inr (vs, xs) \<Longrightarrow>
   mset (map sv_account vs) + mset (map ex_account xs) =
   mset (map sv_account (fst acc)) + mset (map ex_account (snd acc)) +
   mset (map aa_address (filter (\<lambda>a. participated p accounts facts creators a \<noteq> []) as))"
proof (induction as arbitrary: acc)
  case (Cons a as)
  show ?case
  proof (cases "participated p accounts facts creators a = []")
    case True
    then show ?thesis using Cons by simp
  next
    case False
    with Cons.prems(1) obtain reasons net where
      r: "score_accounts ga kk p accounts covered facts creators as
          (if reasons \<noteq> [] then (fst acc, snd acc @ [\<lparr>ex_account = aa_address a, ex_reasons = sort reasons\<rparr>])
           else (fst acc @ [\<lparr>sv_account = aa_address a, sv_realizedNet = net,
                  sv_marketCount = length (participated p accounts facts creators a)\<rparr>], snd acc)) = Inr (vs, xs)"
      by (auto simp: Let_def)
    show ?thesis using Cons.IH [OF r] False by simp
  qed
qed simp

section \<open>Search\<close>

definition readable :: "(int \<Rightarrow> rpc_block outcome) \<Rightarrow> int \<Rightarrow> int \<Rightarrow> bool" where
  "readable blk a b = (\<forall>n. a \<le> n \<and> n \<le> b \<longrightarrow>
     (\<exists>r. blk n = Inr r \<and> rb_hash r \<noteq> None \<and> rb_number r = Some n))"

definition time_of :: "(int \<Rightarrow> rpc_block outcome) \<Rightarrow> int \<Rightarrow> int" where
  "time_of blk n = (case blk n of Inl e \<Rightarrow> 0 | Inr r \<Rightarrow> rb_timestamp r)"


text \<open>\<open>res\<close> is the last block of the range \<open>a..b\<close> before the limit, if there is one.\<close>

definition last_before ::
  "(int \<Rightarrow> rpc_block outcome) \<Rightarrow> int \<Rightarrow> int \<Rightarrow> int \<Rightarrow> rpc_block option \<Rightarrow> bool" where
  "last_before blk limit a b res =
     (case res of
        None \<Rightarrow> (\<forall>n \<in> {a..b}. limit \<le> time_of blk n)
      | Some r \<Rightarrow> (\<exists>n \<in> {a..b}. blk n = Inr r \<and> time_of blk n < limit \<and>
                    (\<forall>k \<in> {n<..b}. limit \<le> time_of blk k)))"

lemma find_before_correct:
  "\<lbrakk>readable blk a b; \<forall>m n. a \<le> m \<longrightarrow> m \<le> n \<longrightarrow> n \<le> b \<longrightarrow> time_of blk m \<le> time_of blk n;
    0 \<le> a; a \<le> low; high \<le> b; low \<le> high + 1;
    \<forall>n. high < n \<longrightarrow> n \<le> b \<longrightarrow> limit \<le> time_of blk n;
    last_before blk limit a (low - 1) result; \<forall>n. a \<le> n \<longrightarrow> n < low \<longrightarrow> time_of blk n < limit;
    nat (high - low + 1) < 2 ^ k\<rbrakk> \<Longrightarrow>
   \<exists>r' res. find_before blk limit low high result reads = (r', Inr res) \<and>
     last_before blk limit a b res \<and> r' \<le> reads + k"
proof (induction blk limit low high result reads arbitrary: k rule: find_before.induct)
  case (1 blk limit low high result reads)
  note prems = "1.prems"
  show ?case
  proof (cases "high < low")
    case True
    then have h: "high = low - 1" using prems(6) by simp
    have "last_before blk limit a b result"
    proof (cases result)
      case None
      have "low \<le> a"
      proof (rule ccontr)
        assume "\<not> low \<le> a"
        then have l: "a \<le> low - 1" "low - 1 < low" by auto
        then have "limit \<le> time_of blk (low - 1)"
          using prems(8) None by (simp add: last_before_def)
        then show False using prems(9) l by fastforce
      qed
      then show ?thesis using None prems(7) h by (auto simp: last_before_def)
    next
      case (Some r)
      then obtain n where n: "n \<in> {a..low - 1}" "blk n = Inr r" "time_of blk n < limit"
        "\<forall>k \<in> {n<..low - 1}. limit \<le> time_of blk k"
        using prems(8) by (auto simp: last_before_def)
      have "\<forall>k \<in> {n<..b}. limit \<le> time_of blk k"
        using n(4) prems(7) h by force
      then show ?thesis using Some n prems(5) h by (auto simp: last_before_def intro!: bexI [of _ n])
    qed
    then show ?thesis using True by (subst find_before.simps) simp
  next
    case False
    define m where "m = low + bigint_div (high - low) 2"
    have m: "low \<le> m" "m \<le> high" "nat (high - (m + 1) + 1) < 2 ^ (k - 1)" "nat (m - 1 - low + 1) < 2 ^ (k - 1)"
      "0 < k"
    proof -
      have d: "bigint_div (high - low) 2 = (high - low) div 2" using False by (simp add: bigint_div_nonneg)
      show "low \<le> m" "m \<le> high" using False by (auto simp: m_def d)
      show k: "0 < k" using prems(10) False by (cases k) auto
      obtain j where j: "k = Suc j" using k by (cases k) auto
      have "high - low + 1 < 2 * 2 ^ j"
        using prems(10) False nat_less_iff [of "high - low + 1" "2 * 2 ^ j"] by (simp add: j)
      then show "nat (high - (m + 1) + 1) < 2 ^ (k - 1)" "nat (m - 1 - low + 1) < 2 ^ (k - 1)"
        using False by (auto simp: m_def d j nat_less_iff)
    qed
    obtain r where r: "blk m = Inr r" "rb_hash r \<noteq> None" "rb_number r \<noteq> None"
      using prems(1) [unfolded readable_def, rule_format, of m] prems(4,5) m(1,2) by auto
    then have t: "rb_timestamp r = time_of blk m" by (simp add: time_of_def)
    have mono: "time_of blk n \<le> time_of blk m" if "a \<le> n" "n \<le> m" for n
      using that prems(2,5) m by auto
    have mono': "time_of blk m \<le> time_of blk n" if "m \<le> n" "n \<le> b" for n
      using that prems(2,4) m by auto
    note step = find_before.simps [of blk limit low high result reads]
    show ?thesis
    proof (cases "time_of blk m < limit")
      case True
      have "\<exists>r' res. find_before blk limit (m + 1) high (Some r) (reads + 1) = (r', Inr res) \<and>
          last_before blk limit a b res \<and> r' \<le> reads + 1 + (k - 1)"
      proof (rule "1.IH"(1) [OF False m_def r(1)])
        show "last_before blk limit a (m + 1 - 1) (Some r)"
          using r True m prems(4) by (auto simp: last_before_def intro!: bexI [of _ m])
        show "\<forall>n. a \<le> n \<longrightarrow> n < m + 1 \<longrightarrow> time_of blk n < limit"
          using mono True by force
      qed (use prems m r t True in auto)
      moreover have "find_before blk limit low high result reads =
          find_before blk limit (m + 1) high (Some r) (reads + 1)"
        using False r t True by (subst step) (auto simp: Let_def m_def [symmetric])
      ultimately show ?thesis using m(5) by auto
    next
      case ge: False
      show ?thesis
      proof (cases "m = 0")
        case True
        then have "low = 0" "a = 0" using m(1) prems(3,4) by auto
        have e: "find_before blk limit low high result reads = (reads + 1, Inr result)"
          using False r t ge True by (subst step) (auto simp: Let_def m_def [symmetric])
        have "\<forall>n \<in> {a..b}. limit \<le> time_of blk n" using mono' ge True \<open>a = 0\<close> by force
        moreover have "result = None"
          using prems(8) \<open>low = 0\<close> \<open>a = 0\<close> by (auto simp: last_before_def split: option.splits)
        ultimately show ?thesis using e m(5) by (auto simp: last_before_def)
      next
        case nz: False
        have "\<exists>r' res. find_before blk limit low (m - 1) result (reads + 1) = (r', Inr res) \<and>
            last_before blk limit a b res \<and> r' \<le> reads + 1 + (k - 1)"
        proof (rule "1.IH"(2) [OF False m_def r(1)])
          show "\<forall>n. m - 1 < n \<longrightarrow> n \<le> b \<longrightarrow> limit \<le> time_of blk n"
            using ge by (auto dest: mono' [rotated])
        qed (use prems m r t ge nz in auto)
        moreover have "find_before blk limit low high result reads =
            find_before blk limit low (m - 1) result (reads + 1)"
          using False r t ge nz by (subst step) (auto simp: Let_def m_def [symmetric])
        ultimately show ?thesis using m(5) by auto
      qed
    qed
  qed
qed


section \<open>Properties\<close>

text \<open>
  C35. Entries come out in descending order of realized net with competition ranks: an entry's rank
  is one more than the number of entries with a strictly greater net, so ties share a rank.
  The hypothesis is the documented contract of localeCompare.
\<close>

theorem leaderboard_ranks:
  assumes "comparator lc"
    and "scoreLeaderboard ga kk lc p accounts facts creators covered = Inr (entries, excluded)"
  shows "sorted_wrt (\<lambda>a b. b \<le> a) (map le_realizedNet entries) \<and>
         list_all (\<lambda>e. le_rank e = Suc (greater_nets (le_realizedNet e) (map le_realizedNet entries))) entries"
proof -
  obtain vs where e: "entries = assign_ranks 0 1 None (js_sort (value_order lc) vs)"
    using scoreLeaderboard_Inr [OF assms(2)] by blast
  have s: "sorted_wrt (\<lambda>a b. b \<le> a) ([] @ map sv_realizedNet (js_sort (value_order lc) vs))"
    using entries_sorted [OF assms(1)] by simp
  have "\<forall>x \<in> set entries. le_rank x = Suc (greater_nets (le_realizedNet x)
      ([] @ map sv_realizedNet (js_sort (value_order lc) vs)))"
    unfolding e by (rule assign_ranks_correct [OF _ s]) auto
  then show ?thesis using s by (simp add: e assign_ranks_nets list_all_iff)
qed

definition code_compare :: "string \<Rightarrow> string \<Rightarrow> int" where
  "code_compare a b = (if a = b then 0 else if a < b then -1 else 1)"

interpretation code_units: comparator code_compare
  by unfold_locales (auto simp: code_compare_def split: if_splits)

definition sample_period :: leaderboard_period where
  "sample_period = \<lparr>lp_id = ''p'', lp_startsAt = 1, lp_endsAt = 100, lp_publishedAt = 1,
     lp_markets = [\<lparr>pm_market = ''0xA'', pm_startsAt = 2\<rparr>]\<rparr>"

definition sample_account :: "string \<Rightarrow> app_account" where
  "sample_account a = \<lparr>aa_id = a, aa_environment = ''e'', aa_deploymentId = ''d'', aa_controller = a @ ''c'',
     aa_address = a, aa_walletKind = EmbeddedWallet, aa_index = 0, aa_createdAt = 0\<rparr>"

definition bonus_fact :: "string \<Rightarrow> nat \<Rightarrow> string \<Rightarrow> ledger_fact" where
  "bonus_fact i v who =
     \<lparr>lf_id = i, lf_kind = FK_early_bird_claimed, lf_blockNumber = 5, lf_blockHash = ''0xb'',
      lf_transactionHash = ''0xt'', lf_transactionIndex = 0, lf_logIndex = v, lf_factIndex = 0,
      lf_timestamp = 5, lf_market = Some ''0xA'', lf_owner = Some who, lf_counterparty = None,
      lf_outcomeId = None, lf_listingId = None, lf_units = None, lf_amount = Some v, lf_extra = []\<rparr>"

definition sample_accounts :: "app_account list" where
  "sample_accounts = map sample_account [''0x1'', ''0x2'', ''0x3'', ''0x9'']"

definition sample_board :: "leaderboard_entry list \<times> excluded_account list" where
  "sample_board =
     ([\<lparr>le_account = ''0x2'', le_realizedNet = 7, le_marketCount = 1, le_rank = 1\<rparr>,
       \<lparr>le_account = ''0x3'', le_realizedNet = 7, le_marketCount = 1, le_rank = 1\<rparr>,
       \<lparr>le_account = ''0x1'', le_realizedNet = 4, le_marketCount = 1, le_rank = 3\<rparr>], [])"

lemma sample_board_eq:
  "scoreLeaderboard Some id code_compare sample_period sample_accounts
     [bonus_fact ''a'' 4 ''0x1'', bonus_fact ''b'' 7 ''0x2'', bonus_fact ''c'' 7 ''0x3'', bonus_fact ''d'' 9 ''0x9'']
     [(''0xa'', ''0x9'')] (map aa_address sample_accounts) = Inr (fst sample_board, snd sample_board)"
  by code_simp

theorem leaderboard_ranks_witness:
  "sorted_wrt (\<lambda>a b. b \<le> a) (map le_realizedNet (fst sample_board)) \<and>
   list_all (\<lambda>e. le_rank e = Suc (greater_nets (le_realizedNet e) (map le_realizedNet (fst sample_board))))
     (fst sample_board)"
  by (rule leaderboard_ranks [OF code_units.comparator_axioms sample_board_eq])



text \<open>
  Every account that took part in an eligible market appears exactly once, as an entry or as an
  exclusion; no other account appears.
\<close>

theorem leaderboard_partition:
  assumes "scoreLeaderboard ga kk lc p accounts facts creators covered = Inr (entries, excluded)"
  shows "mset (map le_account entries) + mset (map ex_account excluded) =
         mset (map aa_address (filter (\<lambda>a. participated p accounts facts creators a \<noteq> []) accounts))"
proof -
  obtain vs xs where s: "score_accounts ga kk p accounts covered facts creators accounts ([], []) = Inr (vs, xs)"
    and e: "entries = assign_ranks 0 1 None (js_sort (value_order lc) vs)"
    "excluded = js_sort (excluded_order lc) xs"
    using scoreLeaderboard_Inr [OF assms] by blast
  have "mset (map le_account entries) = mset (map sv_account vs)"
    "mset (map ex_account excluded) = mset (map ex_account xs)"
    by (simp_all add: e assign_ranks_accounts)
  then show ?thesis using score_accounts_partition [OF s] by simp
qed

theorem leaderboard_partition_witness:
  "mset (map le_account (fst sample_board)) + mset (map ex_account (snd sample_board)) =
   mset (map aa_address (filter (\<lambda>a. participated sample_period sample_accounts
     [bonus_fact ''a'' 4 ''0x1'', bonus_fact ''b'' 7 ''0x2'', bonus_fact ''c'' 7 ''0x3'', bonus_fact ''d'' 9 ''0x9'']
     [(''0xa'', ''0x9'')] a \<noteq> []) sample_accounts))"
  by (rule leaderboard_partition [OF sample_board_eq])

text \<open>
  The search for the last block before a time ends, reads at most logarithmically many blocks,
  and returns the last block before the limit when block times never decrease.
\<close>

theorem find_block_before_correct:
  assumes "readable blk a b" "0 \<le> a" "nat (b - a + 1) < 2 ^ k"
    and "\<And>m n. a \<le> m \<Longrightarrow> m \<le> n \<Longrightarrow> n \<le> b \<Longrightarrow> time_of blk m \<le> time_of blk n"
  shows "\<exists>reads res. findBlockBeforeTimestamp blk a b limit = (reads, Inr res) \<and>
           last_before blk limit a b res \<and> reads \<le> k"
proof (cases "b < a")
  case True
  then show ?thesis by (simp add: findBlockBeforeTimestamp_def last_before_def)
next
  case False
  have "\<exists>r' res. find_before blk limit a b None 0 = (r', Inr res) \<and>
      last_before blk limit a b res \<and> r' \<le> 0 + k"
    by (rule find_before_correct [OF assms(1)]) (use assms False in \<open>auto simp: last_before_def\<close>)
  then show ?thesis using False by (auto simp: findBlockBeforeTimestamp_def)
qed

definition sample_chain :: "int \<Rightarrow> rpc_block outcome" where
  "sample_chain n = Inr \<lparr>rb_number = Some n, rb_hash = Some ''0xh'', rb_parentHash = ''0xp'', rb_timestamp = 10 * n\<rparr>"

theorem find_block_before_correct_witness:
  "\<exists>reads res. findBlockBeforeTimestamp sample_chain 3 12 75 = (reads, Inr res) \<and>
     last_before sample_chain 75 3 12 res \<and> reads \<le> 4"
  by (rule find_block_before_correct)
     (auto simp: readable_def sample_chain_def time_of_def)
end
