(* ===== verification/Entitlements.thy ===== *)
theory Entitlements
  imports Pnl
begin

text \<open>
  offchain/app-core/src/entitlements.ts: the discovery of what an account may claim from its facts
  (\<open>discoverEntitlements\<close>), the proportional share of a pool (\<open>shareOfPool\<close>), and the reading of each
  candidate's status from the chain (\<open>hydrateEntitlements\<close>).

  Units and amounts of an entitlement are the strings the source keeps; the chain reader of the
  source is the record \<open>rights_reader\<close> of answers, an argument of the model.
\<close>

section \<open>Entitlements\<close>

datatype ent_kind = EK_holding | EK_escrow | EK_winner | EK_early_bird | EK_refund
  | EK_timeout_bonus | EK_bond | EK_fees

datatype ent_status = EConditional | EClaimable | EExecuting | EClaimed | EUnknown

record entitlement =
  en_id :: string
  en_market :: "string option"
  en_kind :: ent_kind
  en_outcomeId :: "nat option"
  en_listingId :: "string option"
  en_units :: "string option"
  en_amount :: "string option"
  en_status :: ent_status
  en_reason :: "string option"

fun kind_text :: "ent_kind \<Rightarrow> string" where
  "kind_text EK_holding = ''holding''"
| "kind_text EK_escrow = ''escrow''"
| "kind_text EK_winner = ''winner''"
| "kind_text EK_early_bird = ''early-bird''"
| "kind_text EK_refund = ''refund''"
| "kind_text EK_timeout_bonus = ''timeout-bonus''"
| "kind_text EK_bond = ''bond''"
| "kind_text EK_fees = ''fees''"

type_synonym items = "(string, entitlement) jsmap"

section \<open>Discovery\<close>

text \<open>
  \<open>candidate\<close>: the patch is the pair of identifying fields it may carry and the update it makes on
  the item, which starts from the item already stored.
\<close>

definition candidate_id ::
  "string option \<Rightarrow> ent_kind \<Rightarrow> string option \<Rightarrow> nat option \<Rightarrow> string" where
  "candidate_id market kind listing outcome =
     (case market of None \<Rightarrow> ''aggregate'' | Some m \<Rightarrow> toLowerCase m) @ '':'' @ kind_text kind @ '':'' @
     (case listing of Some l \<Rightarrow> l
      | None \<Rightarrow> (case outcome of Some oid \<Rightarrow> dec_nat oid | None \<Rightarrow> ''all''))"

definition candidate ::
  "string option \<Rightarrow> ent_kind \<Rightarrow> string option \<Rightarrow> nat option \<Rightarrow>
     (entitlement \<Rightarrow> entitlement) \<Rightarrow> items \<Rightarrow> items" where
  "candidate market kind listing outcome patch items =
     (let i = candidate_id market kind listing outcome;
          base = (case map_get items i of
                    Some old \<Rightarrow> old
                  | None \<Rightarrow> \<lparr>en_id = i, en_market = market, en_kind = kind, en_outcomeId = None,
                              en_listingId = None, en_units = None, en_amount = None,
                              en_status = EUnknown, en_reason = Some ''chain_state_pending''\<rparr>)
      in map_set i (patch base) items)"

definition as_claimed :: "string option \<Rightarrow> string option \<Rightarrow> entitlement \<Rightarrow> entitlement" where
  "as_claimed amount reason e =
     e\<lparr>en_amount := amount, en_status := EClaimed, en_reason := reason\<rparr>"

definition as_pending :: "entitlement \<Rightarrow> entitlement" where
  "as_pending e =
     e\<lparr>en_amount := None, en_status := EUnknown, en_reason := Some ''chain_state_pending''\<rparr>"

definition fact_score :: "ledger_fact \<Rightarrow> int outcome" where
  "fact_score f =
     (case bigint_of_string (extra_string f ''score'' ''0'') of
        None \<Rightarrow> Inl (JsError ''SyntaxError'') | Some v \<Rightarrow> Inr v)"

definition amount_text :: "nat option \<Rightarrow> string option" where
  "amount_text v = map_option dec_nat v"

definition claimed_kind :: "fact_kind \<Rightarrow> ent_kind option" where
  "claimed_kind k =
     (case k of FK_winner_claimed \<Rightarrow> Some EK_winner | FK_early_bird_claimed \<Rightarrow> Some EK_early_bird
      | FK_refunded \<Rightarrow> Some EK_refund | FK_timeout_claimed \<Rightarrow> Some EK_timeout_bonus | _ \<Rightarrow> None)"

text \<open>The facts of a market the account owns, in the order of the source's tests.\<close>

definition own_fact :: "string \<Rightarrow> ledger_fact \<Rightarrow> items \<Rightarrow> items outcome" where
  "own_fact m f items =
     (case lf_kind f of
        FK_primary_buy \<Rightarrow>
          outcome_map (\<lambda>score. if 0 < score
                       then candidate (Some m) EK_early_bird None None id items else items)
            (fact_score f)
      | FK_listing_created \<Rightarrow>
          Inr (case lf_listingId f of None \<Rightarrow> items
               | Some l \<Rightarrow>
                   candidate (Some m) EK_escrow (Some l) (lf_outcomeId f)
                     (\<lambda>e. e\<lparr>en_outcomeId := lf_outcomeId f, en_listingId := Some l,
                            en_units := amount_text (lf_units f)\<rparr>) items)
      | FK_bond_locked \<Rightarrow>
          Inr (candidate (Some m) EK_bond None None
                 (\<lambda>e. e\<lparr>en_amount := amount_text (lf_amount f)\<rparr>) items)
      | FK_bond_credited \<Rightarrow>
          Inr (candidate None EK_bond None None id
                 (candidate (Some m) EK_bond None None
                    (as_claimed (amount_text (lf_amount f)) (Some ''credited_to_aggregate_balance''))
                    items))
      | _ \<Rightarrow>
          if lf_kind f = FK_listing_cancelled \<or> lf_kind f = FK_listing_returned
          then Inr (case lf_listingId f of None \<Rightarrow> items
                    | Some l \<Rightarrow>
                        candidate (Some m) EK_escrow (Some l) (lf_outcomeId f)
                          (\<lambda>e. e\<lparr>en_outcomeId := lf_outcomeId f, en_listingId := Some l,
                                 en_units := Some ''0'', en_status := EClaimed,
                                 en_reason := None\<rparr>) items)
          else
            let items1 = (if lf_kind f = FK_refunded \<and>
                             extra_get f ''timeoutEligibilityRecorded'' = Some (JBool True)
                          then candidate (Some m) EK_timeout_bonus None None as_pending items
                          else items)
            in Inr (case claimed_kind (lf_kind f) of
                      None \<Rightarrow> items1
                    | Some k \<Rightarrow> candidate (Some m) k None None
                                 (as_claimed (amount_text (lf_amount f)) None) items1))"

definition fill_patch :: "ledger_fact \<Rightarrow> string \<Rightarrow> entitlement \<Rightarrow> entitlement" where
  "fill_patch f l e =
     (let units = (case extra_get f ''remainingUnits'' of Some (JStr u) \<Rightarrow> Some u | _ \<Rightarrow> None);
          e1 = e\<lparr>en_outcomeId := lf_outcomeId f, en_listingId := Some l, en_units := units\<rparr>
      in if units = Some ''0'' then e1\<lparr>en_status := EClaimed, en_reason := None\<rparr> else e1)"

definition discover_fact :: "string \<Rightarrow> ledger_fact \<Rightarrow> items \<Rightarrow> items outcome" where
  "discover_fact owner f items =
     outcome_map
       (\<lambda>items1.
          let items2 =
                (case (lf_market f, lf_listingId f) of
                   (Some m, Some l) \<Rightarrow>
                     if lf_kind f = FK_listing_filled \<and>
                        extra_get f ''escrowed'' \<noteq> Some (JBool False) \<and>
                        owns (lf_counterparty f) owner
                     then candidate (Some m) EK_escrow (Some l) (lf_outcomeId f) (fill_patch f l) items1
                     else items1
                 | _ \<Rightarrow> items1);
              items3 =
                (if (lf_kind f = FK_fee_accrued \<or> lf_kind f = FK_fee_claimed) \<and> owns (lf_owner f) owner
                 then candidate None EK_fees None None id items2 else items2)
          in if lf_kind f = FK_bond_claimed \<and> owns (lf_owner f) owner
             then candidate None EK_bond None None id items3 else items3)
       (case lf_market f of
          Some m \<Rightarrow> if owns (lf_owner f) owner then own_fact m f items else Inr items
        | None \<Rightarrow> Inr items)"

fun discover_loop :: "string \<Rightarrow> string list \<Rightarrow> ledger_fact list \<Rightarrow> items \<Rightarrow> items outcome" where
  "discover_loop owner seen [] items = Inr items"
| "discover_loop owner seen (f # fs) items =
     (if lf_id f \<in> set seen then discover_loop owner seen fs items
      else outcome_bind (discover_fact owner f items)
             (discover_loop owner (lf_id f # seen) fs))"

definition discover_lot :: "pnl_lot \<Rightarrow> items \<Rightarrow> items" where
  "discover_lot l items =
     (let held = pl_units l - pl_escrowUnits l; m = Some (pl_market l) in
      if 0 < held
      then candidate m EK_timeout_bonus None None as_pending
             (candidate m EK_refund None None as_pending
               (candidate m EK_winner None None as_pending
                 (candidate m EK_holding None (Some (pl_outcomeId l))
                   (\<lambda>e. e\<lparr>en_outcomeId := Some (pl_outcomeId l), en_units := Some (dec held)\<rparr>) items)))
      else items)"

definition slash_bond :: "ledger_fact \<Rightarrow> items \<Rightarrow> items" where
  "slash_bond f items =
     (case lf_market f of
        Some m \<Rightarrow>
          if lf_kind f = FK_bond_timeout_funded
          then (case map_get items (toLowerCase m @ '':bond:all'') of
                  None \<Rightarrow> items
                | Some e \<Rightarrow>
                    map_set (toLowerCase m @ '':bond:all'')
                      (e\<lparr>en_status := EClaimed, en_amount := Some ''0'',
                         en_reason := Some ''bond_slashed_into_timeout_pool''\<rparr>) items)
          else items
      | None \<Rightarrow> items)"

definition id_order :: "(string \<Rightarrow> string \<Rightarrow> int) \<Rightarrow> entitlement \<Rightarrow> entitlement \<Rightarrow> int" where
  "id_order lc a b = lc (en_id a) (en_id b)"

definition discoverEntitlements ::
  "(string \<Rightarrow> string \<Rightarrow> int) \<Rightarrow> string \<Rightarrow> ledger_fact list \<Rightarrow> pnl \<Rightarrow> entitlement list outcome" where
  "discoverEntitlements lc owner facts p =
     outcome_map
       (\<lambda>items. js_sort (id_order lc)
                  (map_values (fold slash_bond facts (fold discover_lot (pnl_lots p) items))))
       (discover_loop owner [] (js_sort financialOrder facts) [])"

section \<open>Reading the chain\<close>

record market_rights =
  mr_state :: int
  mr_voidReason :: int
  mr_winningOutcome :: nat
  mr_balances :: "int list"
  mr_winnerPool :: int
  mr_winningUnits :: int
  mr_earlyPool :: int
  mr_earlyScore :: int
  mr_ownerEarlyScore :: int
  mr_timeoutFunded :: bool
  mr_timeoutPool :: int
  mr_timeoutTotalUnits :: int
  mr_ownerTimeoutUnits :: int

record listing_rights =
  lr_units :: int
  lr_terminal :: bool
  lr_active :: bool
  lr_pending :: bool

record bond_rights =
  br_amount :: int
  br_settled :: bool
  br_terminal :: bool
  br_returnable :: bool

record rights_reader =
  rr_market :: "string \<Rightarrow> string \<Rightarrow> market_rights outcome"
  rr_listing :: "string \<Rightarrow> string \<Rightarrow> listing_rights outcome"
  rr_bond :: "string \<Rightarrow> string \<Rightarrow> bond_rights outcome"
  rr_credit :: "ent_kind \<Rightarrow> string \<Rightarrow> int outcome"

definition shareOfPool :: "int \<Rightarrow> int \<Rightarrow> int \<Rightarrow> int option" where
  "shareOfPool units whole pool =
     (if whole = 0 \<or> whole < units then None
      else if units = whole then Some pool
      else Some (bigint_div (pool * units) whole))"

definition balance_at :: "market_rights \<Rightarrow> nat \<Rightarrow> int" where
  "balance_at m i = (if i < length (mr_balances m) then mr_balances m ! i else 0)"

definition all_balances :: "market_rights \<Rightarrow> int" where
  "all_balances m = foldl (+) 0 (mr_balances m)"

text \<open>The tail of the market branch: amount and status follow the computed share and eligibility.\<close>

definition with_amount :: "int option \<Rightarrow> bool \<Rightarrow> entitlement \<Rightarrow> entitlement" where
  "with_amount amount eligible e =
     e\<lparr>en_amount := map_option dec amount,
       en_status := (if amount = None then EUnknown
                     else if eligible then EClaimable else EConditional)\<rparr>"

text \<open>The market branch: \<open>None\<close> where the source continues without output.\<close>

definition hydrate_market :: "market_rights \<Rightarrow> entitlement \<Rightarrow> entitlement option" where
  "hydrate_market m e =
     (case en_kind e of
        EK_holding \<Rightarrow>
          Some (e\<lparr>en_units := Some (dec (balance_at m (case en_outcomeId e of None \<Rightarrow> 0 | Some i \<Rightarrow> i))),
                  en_status := EConditional,
                  en_reason := (if mr_state m = 1 \<and>
                                   (case en_outcomeId e of None \<Rightarrow> 0 | Some i \<Rightarrow> i) \<noteq> mr_winningOutcome m
                                then Some ''losing_outcome_terminal'' else None)\<rparr>)
      | EK_winner \<Rightarrow>
          let units = balance_at m (mr_winningOutcome m);
              eligible = (mr_state m = 1 \<and> 0 < units)
          in Some (with_amount
                     (if eligible then shareOfPool units (mr_winningUnits m) (mr_winnerPool m) else Some 0)
                     eligible (e\<lparr>en_units := Some (dec units)\<rparr>))
      | EK_refund \<Rightarrow>
          let units = all_balances m; eligible = (mr_state m = 2 \<and> 0 < units)
          in Some (with_amount (Some (if eligible then units else 0)) eligible
                     (e\<lparr>en_units := Some (dec units),
                        en_reason := (if mr_voidReason m = 3
                                      then Some ''principal_first_then_timeout_compensation'' else None)\<rparr>))
      | EK_early_bird \<Rightarrow>
          if mr_state m \<noteq> 1 then None
          else let eligible = (mr_state m = 1 \<and> 0 < mr_ownerEarlyScore m \<and> 0 < mr_earlyPool m)
               in Some (with_amount
                          (if eligible
                           then shareOfPool (mr_ownerEarlyScore m) (mr_earlyScore m) (mr_earlyPool m)
                           else Some 0) eligible e)
      | EK_timeout_bonus \<Rightarrow>
          if mr_state m \<noteq> 2 \<or> mr_voidReason m \<noteq> 3 then None
          else let held = all_balances m;
                   units = (if 0 < mr_ownerTimeoutUnits m then mr_ownerTimeoutUnits m else held)
               in if units = 0 then None
                  else Some (with_amount
                         (if mr_timeoutFunded m
                          then shareOfPool units (mr_timeoutTotalUnits m) (mr_timeoutPool m) else Some 0)
                         (mr_timeoutFunded m \<and> 0 < mr_ownerTimeoutUnits m)
                         (e\<lparr>en_units := Some (dec units),
                            en_reason :=
                              (if mr_ownerTimeoutUnits m = 0
                               then (if mr_timeoutFunded m
                                     then Some ''refund_before_timeout_compensation''
                                     else Some ''refund_and_funding_before_timeout_compensation'')
                               else if mr_timeoutFunded m then None
                               else Some ''waiting_for_timeout_bond_funding'')\<rparr>))
      | _ \<Rightarrow> Some (with_amount None False e))"

definition hydrate_listing :: "listing_rights \<Rightarrow> entitlement \<Rightarrow> entitlement" where
  "hydrate_listing l e =
     e\<lparr>en_units := Some (dec (lr_units l)),
       en_status := (if lr_units l = 0 then EClaimed else EClaimable),
       en_reason := (if lr_pending l then Some ''withdraw_deferred_escrow''
                     else if lr_terminal l then Some ''return_terminal_listing''
                     else Some ''cancel_listing_to_recover_shares'')\<rparr>"

definition hydrate_bond :: "bond_rights \<Rightarrow> entitlement \<Rightarrow> entitlement" where
  "hydrate_bond b e =
     (let slashed = (br_terminal b \<and> \<not> br_returnable b) in
      e\<lparr>en_amount := Some (if slashed then ''0'' else dec (br_amount b)),
        en_status := (if br_settled b then EClaimed
                      else if br_terminal b \<and> \<not> slashed then EClaimable else EConditional),
        en_reason := Some (if slashed
                           then (if br_settled b then ''bond_slashed_into_timeout_pool''
                                 else ''bond_slashed_pending_timeout_funding'')
                           else if br_settled b then ''settled_see_aggregate_credit_or_timeout_pool''
                           else if br_returnable b then ''settle_and_claim_bond''
                           else ''settle_bond_before_claiming_credit'')\<rparr>)"

definition hydrate_credit :: "int \<Rightarrow> entitlement \<Rightarrow> entitlement" where
  "hydrate_credit amount e =
     e\<lparr>en_amount := Some (dec amount),
       en_status := (if 0 < amount then EClaimable else EConditional)\<rparr>"

text \<open>
  The try block for one candidate, in the order of the source's tests. A read that throws leaves the
  candidate unknown; it reports what the catch block sets.
\<close>

definition read_failed :: "entitlement \<Rightarrow> entitlement" where
  "read_failed e =
     e\<lparr>en_status := EUnknown, en_reason := Some ''chain_read_unavailable'', en_amount := None\<rparr>"

definition hydrate_one :: "string \<Rightarrow> rights_reader \<Rightarrow> entitlement \<Rightarrow> entitlement option" where
  "hydrate_one owner reader cand =
     (if en_status cand = EClaimed then Some cand
      else
        let e = cand\<lparr>en_reason := None\<rparr> in
        if en_market e = None \<and> (en_kind e = EK_fees \<or> en_kind e = EK_bond)
        then (case rr_credit reader (en_kind e) owner of
                Inl x \<Rightarrow> Some (read_failed e) | Inr amount \<Rightarrow> Some (hydrate_credit amount e))
        else if en_kind e = EK_escrow \<and> en_listingId e \<noteq> None
        then (case rr_listing reader (the (en_listingId e)) owner of
                Inl x \<Rightarrow> Some (read_failed e) | Inr l \<Rightarrow> Some (hydrate_listing l e))
        else (case en_market e of
                None \<Rightarrow> Some e
              | Some m \<Rightarrow>
                  if en_kind e = EK_bond
                  then (case rr_bond reader m owner of
                          Inl x \<Rightarrow> Some (read_failed e) | Inr b \<Rightarrow> Some (hydrate_bond b e))
                  else (case rr_market reader m owner of
                          Inl x \<Rightarrow> Some (read_failed e) | Inr r \<Rightarrow> hydrate_market r e)))"

definition hydrateEntitlements ::
  "string \<Rightarrow> rights_reader \<Rightarrow> entitlement list \<Rightarrow> entitlement list" where
  "hydrateEntitlements owner reader candidates = List.map_filter (hydrate_one owner reader) candidates"

section \<open>Shares of a pool\<close>

lemma shareOfPool_bounds:
  assumes "0 \<le> u" "0 \<le> pool" "shareOfPool u w pool = Some v"
  shows "0 \<le> v \<and> v \<le> pool \<and> v * w \<le> pool * u"
proof (cases "u = w")
  case True
  then show ?thesis using assms by (auto simp: shareOfPool_def split: if_splits)
next
  case False
  then have w: "0 < w" "u < w" "v = pool * u div w"
    using assms by (auto simp: shareOfPool_def bigint_div_nonneg split: if_splits)
  have "v * w \<le> pool * u" using w by (simp add: minus_mod_eq_div_mult [symmetric])
  moreover have "v \<le> pool * w div w"
    unfolding w(3) by (rule zdiv_mono1) (use assms w in \<open>auto intro: mult_left_mono\<close>)
  moreover have "0 \<le> v" using w assms by (simp add: pos_imp_zdiv_nonneg_iff)
  ultimately show ?thesis using w(1) by simp
qed

lemma shares_within_pool:
  assumes "0 < w" "0 \<le> pool" "\<forall>u \<in> set us. 0 \<le> u" "sum_list us \<le> w"
    and "\<forall>u \<in> set us. \<exists>v. shareOfPool u w pool = Some v"
  shows "sum_list (map (\<lambda>u. the (shareOfPool u w pool)) us) \<le> pool"
proof -
  have "sum_list (map (\<lambda>u. the (shareOfPool u w pool)) us) * w \<le> pool * sum_list us"
    using assms(3,5)
  proof (induction us)
    case (Cons u us)
    then obtain v where v: "shareOfPool u w pool = Some v" by auto
    have "v * w \<le> pool * u" using shareOfPool_bounds [OF _ assms(2) v] Cons.prems by auto
    then show ?case using Cons v by (simp add: algebra_simps)
  qed simp
  also have "\<dots> \<le> pool * w" using assms(2,4) by (intro mult_left_mono) auto
  finally show ?thesis using assms(1) by simp
qed

lemma member_le_sum_list_int: "\<forall>x \<in> set xs. 0 \<le> x \<Longrightarrow> u \<in> set xs \<Longrightarrow> u \<le> sum_list (xs :: int list)"
proof (induction xs)
  case (Cons x xs)
  then show ?case using sum_list_nonneg [of xs] by auto
qed simp

section \<open>Discovery keeps one item per right\<close>

definition items_inv :: "items \<Rightarrow> bool" where
  "items_inv its = (distinct (map fst its) \<and> (\<forall>p \<in> set its. en_id (snd p) = fst p))"

lemma items_inv_put: "items_inv its \<Longrightarrow> en_id e = i \<Longrightarrow> items_inv (map_set i e its)"
  by (auto simp: items_inv_def distinct_update dest!: in_set_update)

lemma candidate_inv:
  assumes "items_inv its" "\<And>e. en_id (patch e) = en_id e"
  shows "items_inv (candidate m k l oid patch its)"
proof -
  have "map_get its i = Some e \<Longrightarrow> en_id e = i" for i e
    using assms(1) map_of_SomeD [of its i e] by (fastforce simp: items_inv_def)
  then show ?thesis
    using assms by (auto simp: candidate_def Let_def intro!: items_inv_put split: option.split)
qed

lemma patches_keep_id [simp]:
  "en_id (as_claimed a r e) = en_id e" "en_id (as_pending e) = en_id e" "en_id (fill_patch f l e) = en_id e"
  by (simp_all add: as_claimed_def as_pending_def fill_patch_def Let_def)

lemma own_fact_inv: "items_inv its \<Longrightarrow> own_fact m f its = Inr its' \<Longrightarrow> items_inv its'"
  by (cases "lf_kind f")
     (auto simp: own_fact_def candidate_inv claimed_kind_def Let_def split: option.splits if_splits)

lemma discover_fact_inv:
  assumes "items_inv its" "discover_fact w f its = Inr its'"
  shows "items_inv its'"
  using assms own_fact_inv [OF assms(1)]
  by (auto simp: discover_fact_def Let_def candidate_inv split: option.splits if_splits)

lemma discover_loop_inv:
  "items_inv its \<Longrightarrow> discover_loop w seen fs its = Inr its' \<Longrightarrow> items_inv its'"
  by (induction w seen fs its rule: discover_loop.induct)
     (auto split: if_splits dest: discover_fact_inv)

lemma discover_lots_inv: "items_inv its \<Longrightarrow> items_inv (fold discover_lot ls its)"
  by (induction ls arbitrary: its) (auto simp: discover_lot_def Let_def candidate_inv)

lemma slash_bond_inv: "items_inv its \<Longrightarrow> items_inv (slash_bond f its)"
proof -
  assume i: "items_inv its"
  have "map_get its k = Some e \<Longrightarrow> en_id e = k" for k e
    using i map_of_SomeD [of its k e] by (fastforce simp: items_inv_def)
  then show ?thesis
    using i by (auto simp: slash_bond_def intro!: items_inv_put split: option.split)
qed

lemma slash_bonds_inv: "items_inv its \<Longrightarrow> items_inv (fold slash_bond fs its)"
  by (induction fs arbitrary: its) (auto simp: slash_bond_inv)

lemma items_inv_ids: "items_inv its \<Longrightarrow> map en_id (map_values its) = map fst its"
  by (auto simp: items_inv_def)

section \<open>Nothing found is lost\<close>

definition item_ids :: "items \<Rightarrow> string set" where
  "item_ids its = fst ` set its"

lemma ids_candidate [simp]:
  "item_ids (candidate m k l oid patch its) = insert (candidate_id m k l oid) (item_ids its)"
  by (simp add: item_ids_def candidate_def Let_def dom_update)

lemma own_fact_mono: "own_fact m f its = Inr its' \<Longrightarrow> item_ids its \<subseteq> item_ids its'"
  by (cases "lf_kind f")
     (auto simp: own_fact_def Let_def split: option.splits if_splits)

lemma discover_fact_mono: "discover_fact w f its = Inr its' \<Longrightarrow> item_ids its \<subseteq> item_ids its'"
  using own_fact_mono [of _ f its]
  by (fastforce simp: discover_fact_def Let_def split: option.splits if_splits)

lemma discover_loop_mono: "discover_loop w seen fs its = Inr its' \<Longrightarrow> item_ids its \<subseteq> item_ids its'"
proof (induction w seen fs its rule: discover_loop.induct)
  case (2 w seen f fs its)
  then show ?case using discover_fact_mono [of w f its] by (fastforce split: if_splits)
qed simp

lemma discover_lots_mono: "item_ids its \<subseteq> item_ids (fold discover_lot ls its)"
proof (induction ls arbitrary: its)
  case (Cons l ls)
  have "item_ids its \<subseteq> item_ids (discover_lot l its)" by (auto simp: discover_lot_def Let_def)
  then show ?case using Cons.IH [of "discover_lot l its"] by auto
qed simp

lemma slash_bonds_ids: "item_ids (fold slash_bond fs its) = item_ids its"
proof (induction fs arbitrary: its)
  case (Cons f fs)
  have "item_ids (slash_bond f its) = item_ids its"
    by (auto simp: slash_bond_def item_ids_def dom_update dest: map_of_SomeD split: option.splits)
       (metis fst_conv image_eqI map_of_SomeD)
  then show ?case using Cons.IH by simp
qed simp

lemma discover_fact_early_bird:
  assumes "discover_fact w f its = Inr its'" "lf_kind f = FK_primary_buy" "lf_market f = Some m"
    "owns (lf_owner f) w" "fact_score f = Inr s" "0 < s"
  shows "candidate_id (Some m) EK_early_bird None None \<in> item_ids its'"
  using assms by (auto simp: discover_fact_def own_fact_def Let_def split: option.splits)

lemma discover_loop_early_bird:
  assumes "lf_kind f = FK_primary_buy" "lf_market f = Some m" "owns (lf_owner f) w"
    "fact_score f = Inr s" "0 < s"
  shows "discover_loop w seen fs its = Inr its' \<Longrightarrow> f \<in> set fs \<Longrightarrow> distinct (map lf_id fs) \<Longrightarrow>
    lf_id f \<notin> set seen \<Longrightarrow> candidate_id (Some m) EK_early_bird None None \<in> item_ids its'"
proof (induction fs arbitrary: seen its)
  case (Cons g fs)
  show ?case
  proof (cases "g = f")
    case True
    then obtain is1 where is1: "discover_fact w f its = Inr is1"
      "discover_loop w (lf_id f # seen) fs is1 = Inr its'"
      using Cons.prems by (auto split: if_splits)
    from discover_fact_early_bird [OF is1(1) assms] discover_loop_mono [OF is1(2)]
    show ?thesis by blast
  next
    case False
    then have "f \<in> set fs" using Cons.prems by auto
    moreover have "lf_id g \<notin> lf_id ` set fs" using Cons.prems(3) by auto
    ultimately have n: "lf_id f \<notin> set (lf_id g # seen)" using Cons.prems(4)
      by (metis image_eqI set_ConsD)
    show ?thesis
    proof (cases "lf_id g \<in> set seen")
      case True
      then show ?thesis using Cons.IH [of seen its] Cons.prems \<open>f \<in> set fs\<close> by simp
    next
      case False
      then obtain is1 where "discover_loop w (lf_id g # seen) fs is1 = Inr its'"
        using Cons.prems(1) by auto
      then show ?thesis using Cons.IH n Cons.prems(3) \<open>f \<in> set fs\<close> by simp
    qed
  qed
qed simp

section \<open>What hydration may call claimable\<close>

text \<open>
  The chain facts behind a claimable right of a market: a winner's units in a resolved market, units
  to refund in a void one, an early-bird score with a pool, registered units and a funded pool after
  a timeout.
\<close>

definition right_holds :: "market_rights \<Rightarrow> entitlement \<Rightarrow> bool" where
  "right_holds m e =
     (case en_kind e of
        EK_winner \<Rightarrow> mr_state m = 1 \<and> 0 < balance_at m (mr_winningOutcome m) \<and>
          en_amount e = map_option dec
            (shareOfPool (balance_at m (mr_winningOutcome m)) (mr_winningUnits m) (mr_winnerPool m))
      | EK_refund \<Rightarrow> mr_state m = 2 \<and> 0 < all_balances m \<and> en_amount e = Some (dec (all_balances m))
      | EK_early_bird \<Rightarrow> mr_state m = 1 \<and> 0 < mr_ownerEarlyScore m \<and> 0 < mr_earlyPool m \<and>
          en_amount e = map_option dec
            (shareOfPool (mr_ownerEarlyScore m) (mr_earlyScore m) (mr_earlyPool m))
      | EK_timeout_bonus \<Rightarrow> mr_state m = 2 \<and> mr_voidReason m = 3 \<and> mr_timeoutFunded m \<and>
          0 < mr_ownerTimeoutUnits m \<and>
          en_amount e = map_option dec
            (shareOfPool (mr_ownerTimeoutUnits m) (mr_timeoutTotalUnits m) (mr_timeoutPool m))
      | _ \<Rightarrow> False)"

lemma hydrate_market_claimable:
  "hydrate_market m e = Some e' \<Longrightarrow> en_status e' = EClaimable \<Longrightarrow> right_holds m e' \<and> en_amount e' \<noteq> None"
  by (cases "en_kind e")
     (auto simp: hydrate_market_def right_holds_def with_amount_def Let_def split: if_splits)

lemma hydrate_market_keeps:
  "hydrate_market m e = Some e' \<Longrightarrow> en_kind e' = en_kind e \<and> en_market e' = en_market e \<and> en_id e' = en_id e"
  by (cases "en_kind e")
     (auto simp: hydrate_market_def with_amount_def Let_def split: if_splits)

lemma hydrate_one_keeps:
  "hydrate_one w rd e = Some e' \<Longrightarrow> en_kind e' = en_kind e \<and> en_market e' = en_market e \<and> en_id e' = en_id e"
  using hydrate_market_keeps
  by (fastforce simp: hydrate_one_def Let_def read_failed_def hydrate_credit_def hydrate_listing_def
      hydrate_bond_def split: if_splits sum.splits option.splits)

lemma hydrate_one_claimable:
  assumes "hydrate_one w rd e = Some e'" "en_status e' = EClaimable" "en_status e \<noteq> EClaimable"
    "en_kind e' \<in> {EK_winner, EK_refund, EK_early_bird, EK_timeout_bonus}"
  shows "\<exists>a m. en_market e' = Some a \<and> rr_market rd a w = Inr m \<and> right_holds m e' \<and> en_amount e' \<noteq> None"
proof -
  have k: "en_kind e \<in> {EK_winner, EK_refund, EK_early_bird, EK_timeout_bonus}" "en_market e' = en_market e"
    using hydrate_one_keeps [OF assms(1)] assms(4) by auto
  show ?thesis
  proof (cases "en_status e = EClaimed \<or> en_market e = None")
    case True
    then show ?thesis using assms k by (auto simp: hydrate_one_def Let_def split: if_splits)
  next
    case False
    then obtain a where a: "en_market e = Some a" by auto
    then obtain m where m: "rr_market rd a w = Inr m" "hydrate_market m (e\<lparr>en_reason := None\<rparr>) = Some e'"
      using assms k False
      by (auto simp: hydrate_one_def Let_def read_failed_def split: if_splits sum.splits)
    then show ?thesis using hydrate_market_claimable [OF m(2) assms(2)] a k by auto
  qed
qed

section \<open>Properties\<close>

text \<open>
  Discovery yields one item per right: the ids of the discovered entitlements are distinct, and
  the list is ordered by id. The hypothesis on \<open>lc\<close> is the contract of localeCompare.
\<close>

theorem discovered_ids_distinct:
  assumes "comparator lc" "discoverEntitlements lc w facts p = Inr es"
  shows "distinct (map en_id es) \<and> sorted_wrt (\<lambda>a b. lc (en_id a) (en_id b) \<le> 0) es"
proof -
  obtain its where i: "discover_loop w [] (js_sort financialOrder facts) [] = Inr its"
    and es: "es = js_sort (id_order lc) (map_values (fold slash_bond facts (fold discover_lot (pnl_lots p) its)))"
    using assms(2) by (auto simp: discoverEntitlements_def)
  let ?its = "fold slash_bond facts (fold discover_lot (pnl_lots p) its)"
  have "items_inv ?its"
    by (intro slash_bonds_inv discover_lots_inv discover_loop_inv [OF _ i]) (simp add: items_inv_def)
  then have "distinct (map en_id (map_values ?its))"
    by (simp only: items_inv_ids) (simp add: items_inv_def)
  moreover have "mset (map en_id es) = mset (map en_id (map_values ?its))"
    unfolding es by (simp only: mset_map mset_js_sort)
  ultimately have "distinct (map en_id es)" by (metis mset_eq_imp_distinct_iff)
  moreover have c: "comparator (id_order lc)"
    unfolding id_order_def
    by (rule comparator.intro [OF comparator.cmp_flip [OF assms(1)] comparator.cmp_trans [OF assms(1)]])
  moreover have "sorted_wrt (\<lambda>a b. id_order lc a b \<le> 0) es"
    unfolding es by (rule comparator.sorted_js_sort [OF c])
  ultimately show ?thesis by (simp add: id_order_def)
qed

text \<open>
  A buyer who earned an early-bird score stays a candidate: the right is discovered from the
  purchase itself, whatever the account's lots hold now.
\<close>

theorem early_bird_discovered:
  assumes "discoverEntitlements lc w facts p = Inr es" "distinct (map lf_id facts)" "f \<in> set facts"
    and "lf_kind f = FK_primary_buy" "lf_market f = Some m" "owns (lf_owner f) w"
    and "fact_score f = Inr s" "0 < s"
  shows "candidate_id (Some m) EK_early_bird None None \<in> set (map en_id es)"
proof -
  obtain its where i: "discover_loop w [] (js_sort financialOrder facts) [] = Inr its"
    and es: "es = js_sort (id_order lc) (map_values (fold slash_bond facts (fold discover_lot (pnl_lots p) its)))"
    using assms(1) by (auto simp: discoverEntitlements_def)
  let ?its = "fold slash_bond facts (fold discover_lot (pnl_lots p) its)"
  have "distinct (map lf_id (js_sort financialOrder facts))"
    using assms(2) by (metis mset_js_sort mset_map mset_eq_imp_distinct_iff)
  then have "candidate_id (Some m) EK_early_bird None None \<in> item_ids its"
    using discover_loop_early_bird [OF assms(4-8) i] assms(3) by simp
  then have "candidate_id (Some m) EK_early_bird None None \<in> item_ids ?its"
    using discover_lots_mono by (auto simp: slash_bonds_ids)
  moreover have "items_inv ?its"
    by (intro slash_bonds_inv discover_lots_inv discover_loop_inv [OF _ i]) (simp add: items_inv_def)
  then have "item_ids ?its = set (map en_id (map_values ?its))"
    by (simp only: items_inv_ids) (simp add: item_ids_def)
  ultimately show ?thesis by (simp add: es image_image)
qed

text \<open>
  C36. A right read from the chain is reported claimable only when the chain grants it: the market is
  in the matching terminal state, the account holds the units or score, and the amount reported is
  its share of the pool (or its units, for a refund).
\<close>

theorem claimable_rights_hold:
  assumes "e' \<in> set (hydrateEntitlements w rd cands)" "en_status e' = EClaimable"
    and "list_all (\<lambda>e. en_status e \<noteq> EClaimable) cands"
    and "en_kind e' \<in> {EK_winner, EK_refund, EK_early_bird, EK_timeout_bonus}"
  shows "\<exists>a m. en_market e' = Some a \<and> rr_market rd a w = Inr m \<and> right_holds m e' \<and> en_amount e' \<noteq> None"
proof -
  obtain e where "e \<in> set cands" "hydrate_one w rd e = Some e'"
    using assms(1) by (auto simp: hydrateEntitlements_def List.map_filter_def)
  then show ?thesis
    using hydrate_one_claimable assms(2-4) by (auto simp: list_all_iff)
qed

text \<open>
  A pool is never over-distributed: the shares of claimants whose units stay within the total sum
  to at most the pool.
\<close>

theorem pool_never_overdrawn:
  assumes "0 < w" "0 \<le> pool" "\<forall>u \<in> set us. 0 \<le> u" "sum_list us \<le> w"
  shows "\<exists>vs. map (\<lambda>u. shareOfPool u w pool) us = map Some vs \<and> sum_list vs \<le> pool"
proof -
  have le: "u \<le> w" if "u \<in> set us" for u
    using member_le_sum_list_int [of us u] that assms by auto
  have s: "\<exists>v. shareOfPool u w pool = Some v" if "u \<in> set us" for u
    using le [OF that] assms(1) by (simp add: shareOfPool_def)
  then have "map (\<lambda>u. shareOfPool u w pool) us = map Some (map (\<lambda>u. the (shareOfPool u w pool)) us)"
    by auto
  then show ?thesis using shares_within_pool [OF assms] s by blast
qed

section \<open>Samples\<close>

definition ent_compare :: "string \<Rightarrow> string \<Rightarrow> int" where
  "ent_compare a b = (if a = b then 0 else if a < b then -1 else 1)"

interpretation ent_ids: comparator ent_compare
  by unfold_locales (auto simp: ent_compare_def split: if_splits)

definition scored_buy :: ledger_fact where
  "scored_buy =
     \<lparr>lf_id = ''a'', lf_kind = FK_primary_buy, lf_blockNumber = 5, lf_blockHash = ''0xb'',
      lf_transactionHash = ''0xt'', lf_transactionIndex = 0, lf_logIndex = 0, lf_factIndex = 0,
      lf_timestamp = 5, lf_market = Some ''0xA'', lf_owner = Some ''0xw'', lf_counterparty = None,
      lf_outcomeId = Some 1, lf_listingId = None, lf_units = Some 10, lf_amount = Some 25,
      lf_extra = [(''score'', JStr ''12'')]\<rparr>"

definition empty_pnl :: pnl where
  "empty_pnl = pnl_result \<lparr>po_coverageComplete = True, po_from = None, po_to = None, po_markets = None\<rparr> ''0xw''
     (pnl_init \<lparr>po_coverageComplete = True, po_from = None, po_to = None, po_markets = None\<rparr>)"

definition early_candidate :: entitlement where
  "early_candidate =
     \<lparr>en_id = ''0xa:early-bird:all'', en_market = Some ''0xA'', en_kind = EK_early_bird, en_outcomeId = None,
      en_listingId = None, en_units = None, en_amount = None, en_status = EUnknown,
      en_reason = Some ''chain_state_pending''\<rparr>"

lemma sample_discovery: "discoverEntitlements ent_compare ''0xw'' [scored_buy] empty_pnl = Inr [early_candidate]"
  by code_simp

definition sample_reader :: rights_reader where
  "sample_reader =
     \<lparr>rr_market = (\<lambda>a w. Inr \<lparr>mr_state = 1, mr_voidReason = 0, mr_winningOutcome = 1, mr_balances = [0, 10],
        mr_winnerPool = 100, mr_winningUnits = 40, mr_earlyPool = 9, mr_earlyScore = 24,
        mr_ownerEarlyScore = 12, mr_timeoutFunded = False, mr_timeoutPool = 0, mr_timeoutTotalUnits = 0,
        mr_ownerTimeoutUnits = 0\<rparr>),
      rr_listing = (\<lambda>l w. Inl (JsError ''rpc'')), rr_bond = (\<lambda>m w. Inl (JsError ''rpc'')),
      rr_credit = (\<lambda>k w. Inr 0)\<rparr>"

theorem claimable_rights_hold_witness:
  "\<exists>e a m. e \<in> set (hydrateEntitlements ''0xw'' sample_reader [early_candidate]) \<and> en_market e = Some a \<and>
     rr_market sample_reader a ''0xw'' = Inr m \<and> right_holds m e \<and> en_amount e \<noteq> None"
proof -
  let ?e = "early_candidate\<lparr>en_amount := Some ''4'', en_status := EClaimable, en_reason := None\<rparr>"
  have e: "?e \<in> set (hydrateEntitlements ''0xw'' sample_reader [early_candidate])" by code_simp
  have "\<exists>a m. en_market ?e = Some a \<and> rr_market sample_reader a ''0xw'' = Inr m \<and> right_holds m ?e \<and>
      en_amount ?e \<noteq> None"
    by (rule claimable_rights_hold [OF e]) (simp_all add: early_candidate_def)
  then show ?thesis using e by blast
qed

theorem pool_never_overdrawn_witness:
  "\<exists>vs. map (\<lambda>u. shareOfPool u 7 100) [3, 3, 1] = map Some vs \<and> sum_list vs \<le> 100"
  by (rule pool_never_overdrawn) auto
end
