(* ===== verification/Evidence.thy ===== *)
theory Evidence
  imports Js_Prelude "HOL-Library.Word"
begin

unbundle bit_operations_syntax

text \<open>
  Settlement evidence (offchain/sdk/src/evidence.ts): the normalized V1 document and its canonical
  bytes, the hash check, and the CIDv1 string of a hash with its base32 encoder, whose accumulator is
  a JavaScript 32-bit integer.

  Document text is a list of UTF-16 code units. The functions of the JavaScript runtime and of viem
  on it (trim, NFC, TextEncoder, URL, Date, JSON.stringify, sha256, hexToBytes) are the fields of the
  record \<open>text_runtime\<close>, an argument of the definitions that use them.
\<close>

type_synonym utf16 = "16 word list"

section \<open>Unpaired surrogates\<close>

definition high_surrogate :: "16 word \<Rightarrow> bool" where
  "high_surrogate c = (0xd800 \<le> c \<and> c \<le> 0xdbff)"

definition low_surrogate :: "16 word \<Rightarrow> bool" where
  "low_surrogate c = (0xdc00 \<le> c \<and> c \<le> 0xdfff)"

text \<open>The loop over the code units; past the end, charCodeAt gives NaN.\<close>

fun hasUnpairedSurrogate :: "utf16 \<Rightarrow> bool" where
  "hasUnpairedSurrogate [] = False"
| "hasUnpairedSurrogate [c] = (high_surrogate c \<or> low_surrogate c)"
| "hasUnpairedSurrogate (c # d # cs) =
     (if high_surrogate c
      then (if \<not> low_surrogate d then True else hasUnpairedSurrogate cs)
      else if low_surrogate c then True
      else hasUnpairedSurrogate (d # cs))"

section \<open>The document\<close>

datatype ev_value = EvText utf16 | EvDate "int option"

type_synonym ev_object = "(string \<times> ev_value) list"

record ev_document =
  ed_version :: int
  ed_sourceUri :: utf16
  ed_summary :: utf16
  ed_observedAt :: utf16

record js_url =
  url_protocol :: string
  url_username :: string
  url_password :: string
  url_hostname :: string
  url_href :: utf16

text \<open>
  \<open>rt_date\<close> is Date of a string (\<open>None\<close>: an invalid date), \<open>rt_iso\<close> is toISOString, \<open>rt_json\<close> the
  JSON text of the document's four fields, \<open>rt_sha256\<close> and \<open>rt_bytes\<close> are viem's sha256 and hexToBytes.
\<close>

record text_runtime =
  rt_trim :: "utf16 \<Rightarrow> utf16"
  rt_nfc :: "utf16 \<Rightarrow> utf16"
  rt_utf8 :: "utf16 \<Rightarrow> 8 word list"
  rt_url :: "utf16 \<Rightarrow> js_url option"
  rt_date :: "utf16 \<Rightarrow> int option"
  rt_iso :: "int \<Rightarrow> utf16"
  rt_json :: "ev_document \<Rightarrow> utf16"
  rt_sha256 :: "8 word list \<Rightarrow> string"
  rt_bytes :: "string \<Rightarrow> 8 word list"

definition MAX_SOURCE_URI_BYTES :: nat where "MAX_SOURCE_URI_BYTES = 512"
definition MAX_SUMMARY_BYTES :: nat where "MAX_SUMMARY_BYTES = 2048"
definition MAX_DOCUMENT_BYTES :: nat where "MAX_DOCUMENT_BYTES = 4096"

definition assertExactKeys :: "ev_object \<Rightarrow> string list \<Rightarrow> unit outcome" where
  "assertExactKeys value expected =
     require (sort (map fst value) = sort expected)
       (TypeError ''settlement evidence contains unsupported fields'')"

definition assertUtf8Bound :: "text_runtime \<Rightarrow> utf16 \<Rightarrow> nat \<Rightarrow> string \<Rightarrow> unit outcome" where
  "assertUtf8Bound rt value maximum field =
     require (length (rt_utf8 rt value) \<le> maximum) (RangeError (field @ '' exceeds '' @ dec_nat maximum @ '' UTF-8 bytes''))"

definition normalizeText :: "text_runtime \<Rightarrow> ev_value option \<Rightarrow> string \<Rightarrow> utf16 outcome" where
  "normalizeText rt value field =
     (case value of
        Some (EvText v) \<Rightarrow>
          if hasUnpairedSurrogate v then Inl (TypeError (field @ '' contains an unpaired surrogate''))
          else Inr (rt_nfc rt (rt_trim rt v))
      | _ \<Rightarrow> Inl (TypeError (field @ '' must be a string'')))"

text \<open>The host pattern: a b, then ten or more of a-z and 2-7.\<close>

definition base32_letter :: "char \<Rightarrow> bool" where
  "base32_letter c =
     (let n = (of_char c :: nat) in (97 \<le> n \<and> n \<le> 122) \<or> (50 \<le> n \<and> n \<le> 55))"

definition cidv1_base32 :: "string \<Rightarrow> bool" where
  "cidv1_base32 h =
     (case h of [] \<Rightarrow> False
      | c # cs \<Rightarrow> c = CHR ''b'' \<and> 10 \<le> length cs \<and> list_all base32_letter cs)"

definition normalizeSourceUri :: "text_runtime \<Rightarrow> ev_value option \<Rightarrow> utf16 outcome" where
  "normalizeSourceUri rt value =
     outcome_bind (normalizeText rt value ''sourceUri'') (\<lambda>normalized.
       if normalized = [] then Inl (RangeError ''sourceUri must not be empty'')
       else case rt_url rt normalized of
          None \<Rightarrow> Inl (TypeError ''sourceUri must be an absolute URI'')
        | Some url \<Rightarrow>
            if url_protocol url \<noteq> ''https:'' \<and> url_protocol url \<noteq> ''ipfs:''
            then Inl (TypeError ''sourceUri must use https: or ipfs:'')
            else if url_username url \<noteq> [] \<or> url_password url \<noteq> []
            then Inl (TypeError ''sourceUri must not contain credentials'')
            else if url_protocol url = ''ipfs:'' \<and> \<not> cidv1_base32 (url_hostname url)
            then Inl (TypeError ''ipfs sourceUri must use a lowercase base32 CIDv1 host'')
            else Inr (rt_nfc rt (url_href url)))"

definition normalizeObservedAt :: "text_runtime \<Rightarrow> ev_value option \<Rightarrow> utf16 outcome" where
  "normalizeObservedAt rt value =
     (case (case value of Some (EvDate t) \<Rightarrow> t | Some (EvText s) \<Rightarrow> rt_date rt s | _ \<Rightarrow> None) of
        None \<Rightarrow> Inl (TypeError ''observedAt must be a valid timestamp'')
      | Some t \<Rightarrow> Inr (rt_iso rt t))"

definition buildSettlementEvidenceDocumentV1 :: "text_runtime \<Rightarrow> ev_object \<Rightarrow> ev_document outcome" where
  "buildSettlementEvidenceDocumentV1 rt input =
     outcome_bind (assertExactKeys input [''sourceUri'', ''summary'', ''observedAt'']) (\<lambda>_.
     outcome_bind (normalizeSourceUri rt (map_of input ''sourceUri'')) (\<lambda>sourceUri.
     outcome_bind (normalizeText rt (map_of input ''summary'') ''summary'') (\<lambda>summary.
     outcome_bind (assertUtf8Bound rt sourceUri MAX_SOURCE_URI_BYTES ''sourceUri'') (\<lambda>_.
     outcome_bind (assertUtf8Bound rt summary MAX_SUMMARY_BYTES ''summary'') (\<lambda>_.
     outcome_bind (require (summary \<noteq> []) (RangeError ''summary must not be empty'')) (\<lambda>_.
     outcome_map (\<lambda>observedAt.
         \<lparr>ed_version = 1, ed_sourceUri = sourceUri, ed_summary = summary, ed_observedAt = observedAt\<rparr>)
       (normalizeObservedAt rt (map_of input ''observedAt''))))))))"

definition document_input :: "ev_document \<Rightarrow> ev_object" where
  "document_input d =
     [(''sourceUri'', EvText (ed_sourceUri d)), (''summary'', EvText (ed_summary d)),
      (''observedAt'', EvText (ed_observedAt d))]"

definition canonicalSettlementEvidenceBytes ::
  "text_runtime \<Rightarrow> ev_document \<Rightarrow> 8 word list outcome" where
  "canonicalSettlementEvidenceBytes rt d =
     outcome_bind (require (ed_version d = 1) (RangeError ''unsupported settlement evidence version'')) (\<lambda>_.
     outcome_bind (buildSettlementEvidenceDocumentV1 rt (document_input d)) (\<lambda>n.
     outcome_bind (require (ed_sourceUri n = ed_sourceUri d \<and> ed_summary n = ed_summary d \<and>
                            ed_observedAt n = ed_observedAt d)
                     (TypeError ''settlement evidence document is not canonical'')) (\<lambda>_.
       let bytes = rt_utf8 rt (rt_json rt d) in
       if MAX_DOCUMENT_BYTES < length bytes
       then Inl (RangeError ''canonical evidence document exceeds 4096 UTF-8 bytes'')
       else Inr bytes)))"

definition settlementEvidenceHash :: "text_runtime \<Rightarrow> 8 word list \<Rightarrow> string outcome" where
  "settlementEvidenceHash rt bytes =
     (if bytes = [] \<or> MAX_DOCUMENT_BYTES < length bytes
      then Inl (RangeError ''canonical evidence bytes must be within [1, 4096]'')
      else Inr (rt_sha256 rt bytes))"

section \<open>Hashes\<close>

definition is_hex_digit :: "char \<Rightarrow> bool" where
  "is_hex_digit c =
     (let n = (of_char c :: nat) in
      (48 \<le> n \<and> n \<le> 57) \<or> (97 \<le> n \<and> n \<le> 102) \<or> (65 \<le> n \<and> n \<le> 70))"

definition bytes32 :: "string \<Rightarrow> bool" where
  "bytes32 v = (take 2 v = ''0x'' \<and> length v = 66 \<and> list_all is_hex_digit (drop 2 v))"

definition normalizeEvidenceHash :: "string \<Rightarrow> string outcome" where
  "normalizeEvidenceHash value =
     (if bytes32 value then Inr (toLowerCase value)
      else Inl (TypeError ''evidenceHash must be exactly 32 bytes''))"

definition ZERO_EVIDENCE_HASH :: string where
  "ZERO_EVIDENCE_HASH = ''0x'' @ replicate 64 (CHR ''0'')"

section \<open>Base32\<close>

definition BASE32_ALPHABET :: string where
  "BASE32_ALPHABET = ''abcdefghijklmnopqrstuvwxyz234567''"

definition base32_char :: "32 word \<Rightarrow> char" where
  "base32_char v = BASE32_ALPHABET ! unat (v AND 31)"

text \<open>The inner while loop: five bits at a time, from the top of the pending bits.\<close>

fun base32_emit :: "32 word \<Rightarrow> nat \<Rightarrow> string \<times> nat" where
  "base32_emit accumulator bits =
     (if 5 \<le> bits
      then let (out, rest) = base32_emit accumulator (bits - 5)
           in (base32_char (drop_bit (bits - 5) accumulator) # out, rest)
      else ([], bits))"

declare base32_emit.simps [simp del]

fun base32_loop :: "32 word \<Rightarrow> nat \<Rightarrow> 8 word list \<Rightarrow> string" where
  "base32_loop accumulator bits [] =
     (if 0 < bits then [base32_char (push_bit (5 - bits) accumulator)] else [])"
| "base32_loop accumulator bits (byte # bytes) =
     (let accumulator' = push_bit 8 accumulator OR ucast byte;
          (out, bits') = base32_emit accumulator' (bits + 8)
      in out @ base32_loop accumulator' bits' bytes)"

definition base32 :: "8 word list \<Rightarrow> string" where
  "base32 bytes = base32_loop 0 0 bytes"

definition evidenceCidV1Raw :: "(string \<Rightarrow> 8 word list) \<Rightarrow> string \<Rightarrow> string outcome" where
  "evidenceCidV1Raw hexToBytes evidenceHash =
     outcome_map (\<lambda>normalized. ''b'' @ base32 ([0x01, 0x55, 0x12, 0x20] @ hexToBytes normalized))
       (normalizeEvidenceHash evidenceHash)"

definition evidenceUriFromHash :: "(string \<Rightarrow> 8 word list) \<Rightarrow> string \<Rightarrow> string option outcome" where
  "evidenceUriFromHash hexToBytes evidenceHash =
     outcome_bind (normalizeEvidenceHash evidenceHash) (\<lambda>normalized.
       if normalized = ZERO_EVIDENCE_HASH then Inr None
       else outcome_map (\<lambda>cid. Some (''ipfs://'' @ cid)) (evidenceCidV1Raw hexToBytes normalized))"

record prepared_evidence =
  pv_document :: ev_document
  pv_canonicalBytes :: "8 word list"
  pv_evidenceHash :: string
  pv_cid :: string
  pv_evidenceUri :: string

definition prepareSettlementEvidenceV1 :: "text_runtime \<Rightarrow> ev_object \<Rightarrow> prepared_evidence outcome" where
  "prepareSettlementEvidenceV1 rt input =
     outcome_bind (buildSettlementEvidenceDocumentV1 rt input) (\<lambda>document.
     outcome_bind (canonicalSettlementEvidenceBytes rt document) (\<lambda>bytes.
     outcome_bind (settlementEvidenceHash rt bytes) (\<lambda>h.
     outcome_map (\<lambda>cid.
         \<lparr>pv_document = document, pv_canonicalBytes = bytes, pv_evidenceHash = h, pv_cid = cid,
          pv_evidenceUri = ''ipfs://'' @ cid\<rparr>)
       (evidenceCidV1Raw (rt_bytes rt) h))))"

section \<open>Base32 keeps every bit\<close>

definition top_bits :: "nat \<Rightarrow> (nat \<Rightarrow> bool) \<Rightarrow> bool list" where
  "top_bits n f = map f (rev [0..<n])"

definition byte_bits :: "8 word \<Rightarrow> bool list" where
  "byte_bits b = top_bits 8 (bit b)"

definition alphabet_index :: "char \<Rightarrow> nat" where
  "alphabet_index c = length (takeWhile (\<lambda>d. d \<noteq> c) BASE32_ALPHABET)"

definition char_bits :: "char \<Rightarrow> bool list" where
  "char_bits c = top_bits 5 (bit (alphabet_index c))"

lemma alphabet_index_nth: "i < 32 \<Longrightarrow> alphabet_index (BASE32_ALPHABET ! i) = i"
proof -
  have "\<forall>i \<in> set [0..<32]. alphabet_index (BASE32_ALPHABET ! i) = i"
    unfolding alphabet_index_def BASE32_ALPHABET_def by code_simp
  then show "i < 32 \<Longrightarrow> alphabet_index (BASE32_ALPHABET ! i) = i" by simp
qed

lemma char_bits_base32: "char_bits (base32_char v) = top_bits 5 (bit v)"
proof -
  have m: "v AND 31 = take_bit 5 v" by (simp add: take_bit_eq_mask mask_eq_exp_minus_1)
  have "unat (v AND 31) < 32"
    using take_bit_nat_less_exp [of 5 "unat v"] by (simp add: m unsigned_take_bit_eq)
  moreover have "i < 5 \<Longrightarrow> bit (unat (v AND 31)) i = bit v i" for i
    by (simp add: m bit_unsigned_iff bit_take_bit_iff)
  ultimately show ?thesis
    by (simp add: char_bits_def base32_char_def alphabet_index_nth top_bits_def)
qed

lemma top_bits_split: "top_bits (m + n) f = top_bits m (\<lambda>i. f (n + i)) @ top_bits n f"
proof -
  have "[0..<m + n] = [0..<n] @ [n..<n + m]"
    using upt_add_eq_append [of 0 n m] by (simp add: add.commute)
  also have "[n..<n + m] = map (\<lambda>i. n + i) [0..<m]"
    using map_add_upt [of n m] by (simp add: add.commute)
  finally have "[0..<m + n] = [0..<n] @ map (\<lambda>i. n + i) [0..<m]" .
  then show ?thesis unfolding top_bits_def by (simp only: map_append rev_append rev_map map_map comp_def)
qed

lemma base32_emit_bits:
  "concat (map char_bits (fst (base32_emit a n))) @ top_bits (snd (base32_emit a n)) (bit a)
   = top_bits n (bit a) \<and> snd (base32_emit a n) < 5"
proof (induction a n rule: base32_emit.induct)
  case (1 a n)
  show ?case
  proof (cases "5 \<le> n")
    case True
    have "top_bits n (bit a) = top_bits 5 (\<lambda>i. bit a (n - 5 + i)) @ top_bits (n - 5) (bit a)"
      using top_bits_split [of 5 "n - 5" "bit a"] True by simp
    moreover have "top_bits 5 (bit (drop_bit (n - 5) a)) = top_bits 5 (\<lambda>i. bit a (n - 5 + i))"
      by (simp add: top_bits_def bit_drop_bit_eq)
    ultimately show ?thesis
      using 1 True by (subst (1 2 3) base32_emit.simps) (auto simp: char_bits_base32 split: prod.splits)
  next
    case False
    then show ?thesis by (subst (1 2 3) base32_emit.simps) simp
  qed
qed

lemma base32_loop_bits:
  "n < 5 \<Longrightarrow> \<exists>k. concat (map char_bits (base32_loop a n bs)) =
     top_bits n (bit a) @ concat (map byte_bits bs) @ replicate k False"
proof (induction bs arbitrary: a n)
  case Nil
  show ?case
  proof (cases "0 < n")
    case True
    have "top_bits 5 (bit (push_bit (5 - n) a)) =
        top_bits n (\<lambda>i. bit (push_bit (5 - n) a) (5 - n + i)) @ top_bits (5 - n) (bit (push_bit (5 - n) a))"
      using top_bits_split [of n "5 - n" "bit (push_bit (5 - n) a)"] Nil by simp
    moreover have "top_bits n (\<lambda>i. bit (push_bit (5 - n) a) (5 - n + i)) = top_bits n (bit a)"
      using Nil by (auto simp: top_bits_def bit_push_bit_iff)
    moreover have "top_bits (5 - n) (bit (push_bit (5 - n) a)) = replicate (5 - n) False"
      by (auto simp: top_bits_def bit_push_bit_iff intro!: replicate_eqI)
    ultimately show ?thesis using True by (auto simp: char_bits_base32)
  qed (simp add: top_bits_def)
next
  case (Cons b bs)
  let ?a = "push_bit 8 a OR ucast b"
  obtain out rest where e: "base32_emit ?a (n + 8) = (out, rest)" by (meson surj_pair)
  have r: "concat (map char_bits out) @ top_bits rest (bit ?a) = top_bits (n + 8) (bit ?a)" "rest < 5"
    using base32_emit_bits [of ?a "n + 8"] by (simp_all add: e)
  have "top_bits (n + 8) (bit ?a) = top_bits n (\<lambda>i. bit ?a (8 + i)) @ top_bits 8 (bit ?a)"
    by (rule top_bits_split)
  also have "top_bits n (\<lambda>i. bit ?a (8 + i)) = top_bits n (bit a)"
    using Cons.prems by (auto simp: top_bits_def bit_or_iff bit_push_bit_iff bit_ucast_iff
        dest: bit_imp_le_length)
  also have "top_bits 8 (bit ?a) = byte_bits b"
    by (auto simp: top_bits_def byte_bits_def bit_or_iff bit_push_bit_iff bit_ucast_iff)
  finally have t: "top_bits (n + 8) (bit ?a) = top_bits n (bit a) @ byte_bits b" .
  obtain k where "concat (map char_bits (base32_loop ?a rest bs)) =
      top_bits rest (bit ?a) @ concat (map byte_bits bs) @ replicate k False"
    using Cons.IH [OF r(2)] by blast
  then have "concat (map char_bits (base32_loop a n (b # bs))) =
      top_bits n (bit a) @ concat (map byte_bits (b # bs)) @ replicate k False"
    using r(1) t by (simp add: e Let_def flip: append_assoc)
  then show ?case by blast
qed

lemma length_byte_bits [simp]: "length (byte_bits b) = 8"
  by (simp add: byte_bits_def top_bits_def)

lemma byte_bits_inj: "byte_bits b = byte_bits c \<Longrightarrow> b = c"
proof (rule bit_word_eqI)
  fix i assume e: "byte_bits b = byte_bits c" and "i < LENGTH(8)"
  then have i: "i \<in> set (rev [0..<8])" by auto
  show "bit b i = bit c i"
    using e i unfolding byte_bits_def top_bits_def map_eq_conv by blast
qed

lemma base32_injective:
  assumes "length xs = length ys" "base32 xs = base32 ys"
  shows "xs = ys"
proof -
  obtain j where j: "concat (map char_bits (base32 xs)) = concat (map byte_bits xs) @ replicate j False"
    using base32_loop_bits [of 0 0 xs] by (auto simp: base32_def top_bits_def)
  obtain k where k: "concat (map char_bits (base32 ys)) = concat (map byte_bits ys) @ replicate k False"
    using base32_loop_bits [of 0 0 ys] by (auto simp: base32_def top_bits_def)
  have len: "length (concat (map byte_bits zs)) = 8 * length zs" for zs
    by (induction zs) auto
  have "concat (map byte_bits xs) = concat (map byte_bits ys)"
    using j k assms append_eq_append_conv [of "concat (map byte_bits xs)" "concat (map byte_bits ys)"]
    by (simp add: len)
  then show ?thesis using assms(1)
  proof (induction xs arbitrary: ys)
    case (Cons x xs)
    then obtain y zs where "ys = y # zs" by (cases ys) auto
    then show ?case using Cons byte_bits_inj by (auto simp: append_eq_append_conv)
  qed simp
qed

section \<open>Well-formed text\<close>

lemma unat16_less: "unat (c :: 16 word) < 65536"
proof -
  have "unat c < 2 ^ LENGTH(16)" by (rule unsigned_less)
  then show ?thesis by simp
qed

text \<open>A Unicode scalar value, and its UTF-16 code units.\<close>

definition scalar_ok :: "nat \<Rightarrow> bool" where
  "scalar_ok c = (c < 0x110000 \<and> \<not> (0xd800 \<le> c \<and> c \<le> 0xdfff))"

definition utf16_units :: "nat \<Rightarrow> utf16" where
  "utf16_units c =
     (if c < 0x10000 then [of_nat c]
      else [of_nat (0xd800 + (c - 0x10000) div 0x400), of_nat (0xdc00 + (c - 0x10000) mod 0x400)])"

lemma surrogate_unat:
  "high_surrogate c \<longleftrightarrow> 0xd800 \<le> unat c \<and> unat c \<le> 0xdbff"
  "low_surrogate c \<longleftrightarrow> 0xdc00 \<le> unat c \<and> unat c \<le> 0xdfff"
  by (simp_all add: high_surrogate_def low_surrogate_def word_le_nat_alt)

lemma unat_of_nat16: "n < 65536 \<Longrightarrow> unat (of_nat n :: 16 word) = n"
  by (simp add: unat_of_nat take_bit_nat_eq_self)

lemma encode_no_unpaired:
  "list_all scalar_ok cs \<Longrightarrow> \<not> hasUnpairedSurrogate (concat (map utf16_units cs))"
proof (induction cs)
  case (Cons c cs)
  show ?case
  proof (cases "c < 0x10000")
    case True
    then have u: "unat (of_nat c :: 16 word) = c" by (simp add: unat_of_nat16)
    have n: "\<not> high_surrogate (of_nat c)" "\<not> low_surrogate (of_nat c)"
      using Cons.prems by (auto simp: surrogate_unat u scalar_ok_def)
    have "\<not> hasUnpairedSurrogate (of_nat c # r)" if "\<not> hasUnpairedSurrogate r" for r
      using n that by (cases r) auto
    then show ?thesis using Cons True by (simp add: utf16_units_def [of c])
  next
    case False
    define h where "h = 0xd800 + (c - 0x10000) div 0x400"
    define l where "l = 0xdc00 + (c - 0x10000) mod 0x400"
    have c: "c < 0x110000" using Cons.prems by (simp add: scalar_ok_def)
    have "h \<le> 0xdbff" using c by (simp add: h_def)
    moreover have "l \<le> 0xdfff" by (simp add: l_def)
    ultimately have "high_surrogate (of_nat h)" "low_surrogate (of_nat l)"
      by (simp_all add: surrogate_unat unat_of_nat16, simp_all add: h_def l_def)
    then show ?thesis
      using Cons False by (simp add: utf16_units_def [of c] h_def [symmetric] l_def [symmetric])
  qed
qed simp

lemma no_unpaired_encode:
  "\<not> hasUnpairedSurrogate s \<Longrightarrow> \<exists>cs. list_all scalar_ok cs \<and> s = concat (map utf16_units cs)"
proof (induction s rule: hasUnpairedSurrogate.induct)
  case 1
  show ?case by (intro exI [of _ "[]"]) simp
next
  case (2 c)
  then have "scalar_ok (unat c)" "c = of_nat (unat c)"
    using unat16_less [of c] by (auto simp: scalar_ok_def surrogate_unat)
  then show ?case
    using unat16_less [of c] by (intro exI [of _ "[unat c]"]) (simp add: utf16_units_def)
next
  case (3 c d cs)
  show ?case
  proof (cases "high_surrogate c")
    case True
    then have d: "low_surrogate d" "\<not> hasUnpairedSurrogate cs" using "3.prems" by (auto split: if_splits)
    then obtain ps where ps: "list_all scalar_ok ps" "cs = concat (map utf16_units ps)"
      using "3.IH"(1) True by blast
    define p where "p = 0x10000 + (unat c - 0xd800) * 0x400 + (unat d - 0xdc00)"
    have b: "0xd800 \<le> unat c" "unat c \<le> 0xdbff" "0xdc00 \<le> unat d" "unat d \<le> 0xdfff"
      using True d by (simp_all add: surrogate_unat)
    obtain x y where xy: "unat c = 0xd800 + x" "unat d = 0xdc00 + y" "x < 0x400" "y < 0x400"
      using b that [of "unat c - 0xd800" "unat d - 0xdc00"] by linarith
    then have "p - 0x10000 = x * 0x400 + y" by (simp add: p_def)
    then have "(p - 0x10000) div 0x400 = unat c - 0xd800" "(p - 0x10000) mod 0x400 = unat d - 0xdc00"
      using xy by simp_all
    then have "utf16_units p = [of_nat (unat c), of_nat (unat d)]"
      using b by (simp add: utf16_units_def) (simp add: p_def)
    moreover have "scalar_ok p" using b by (simp add: p_def scalar_ok_def)
    ultimately show ?thesis using ps by (intro exI [of _ "p # ps"]) simp
  next
    case False
    then have d: "\<not> low_surrogate c" "\<not> hasUnpairedSurrogate (d # cs)" using "3.prems" by (auto split: if_splits)
    then obtain ps where ps: "list_all scalar_ok ps" "d # cs = concat (map utf16_units ps)"
      using "3.IH"(2) False by blast
    have "scalar_ok (unat c)"
      using False d unat16_less [of c] by (auto simp: scalar_ok_def surrogate_unat)
    then show ?thesis
      using ps unat16_less [of c] by (intro exI [of _ "unat c # ps"]) (simp add: utf16_units_def [of "unat c"])
  qed
qed

section \<open>Properties\<close>

text \<open>
  C37. Every non-zero hash has one IPFS URI and no two hashes share one: the URIs of two 32-byte
  hashes agree exactly when the hashes do, letter case aside, and only the zero hash has none. The
  hypothesis is what viem documents of hexToBytes on 32-byte hashes in lower case.
\<close>

theorem evidence_uri_injective:
  assumes "\<And>h. bytes32 h \<Longrightarrow> length (h2b (toLowerCase h)) = 32"
    and "\<And>h h'. bytes32 h \<Longrightarrow> bytes32 h' \<Longrightarrow> h2b (toLowerCase h) = h2b (toLowerCase h') \<Longrightarrow> toLowerCase h = toLowerCase h'"
    and "bytes32 a" "bytes32 b"
  shows "(evidenceUriFromHash h2b a = evidenceUriFromHash h2b b \<longleftrightarrow> toLowerCase a = toLowerCase b) \<and>
         (evidenceUriFromHash h2b a = Inr None \<longleftrightarrow> toLowerCase a = ZERO_EVIDENCE_HASH)"
proof -
  have low: "bytes32 (toLowerCase h)" if "bytes32 h" for h
  proof -
    have hex: "is_hex_digit (lower_char c)" if "is_hex_digit c" for c
      using that by (auto simp: is_hex_digit_def lower_char_def Let_def take_bit_nat_eq_self)
    have "take 2 (toLowerCase h) = ''0x''" "drop 2 (toLowerCase h) = toLowerCase (drop 2 h)"
      using that by (simp_all add: bytes32_def toLowerCase_def take_map drop_map lower_char_def)
    then show ?thesis
      using that hex by (auto simp: bytes32_def list_all_iff toLowerCase_def)
  qed
  have u: "evidenceUriFromHash h2b h =
      (if toLowerCase h = ZERO_EVIDENCE_HASH then Inr None
       else Inr (Some (''ipfs://b'' @ base32 ([1, 0x55, 0x12, 0x20] @ h2b (toLowerCase h)))))"
    if "bytes32 h" for h
    using that low [OF that]
    by (simp add: evidenceUriFromHash_def evidenceCidV1Raw_def normalizeEvidenceHash_def)
  have "toLowerCase a = toLowerCase b"
    if "base32 ([1, 0x55, 0x12, 0x20] @ h2b (toLowerCase a)) = base32 ([1, 0x55, 0x12, 0x20] @ h2b (toLowerCase b))"
  proof -
    have "[1, 0x55, 0x12, 0x20] @ h2b (toLowerCase a) = [1, 0x55, 0x12, 0x20] @ h2b (toLowerCase b)"
      by (rule base32_injective [OF _ that]) (simp add: assms)
    then show ?thesis using assms(2-4) by simp
  qed
  then show ?thesis using u assms(3,4) by auto
qed

text \<open>
  Evidence text passes the surrogate check exactly when it is well-formed UTF-16, that is the
  encoding of a sequence of Unicode scalar values.
\<close>

theorem unpaired_surrogate_exact:
  "hasUnpairedSurrogate s \<longleftrightarrow> \<not> (\<exists>cs. list_all scalar_ok cs \<and> s = concat (map utf16_units cs))"
  using encode_no_unpaired no_unpaired_encode by blast


section \<open>A concrete hexToBytes\<close>

definition hex_val :: "char \<Rightarrow> nat" where
  "hex_val c = (let n = (of_char c :: nat) in if n \<le> 57 then n - 48 else n - 87)"

definition hex_decode :: "string \<Rightarrow> 8 word list" where
  "hex_decode h = map (\<lambda>i. of_nat (16 * hex_val (h ! (2 * i + 2)) + hex_val (h ! (2 * i + 3)))) [0..<32]"

definition lower_hex :: "char \<Rightarrow> bool" where
  "lower_hex c = (let n = (of_char c :: nat) in (48 \<le> n \<and> n \<le> 57) \<or> (97 \<le> n \<and> n \<le> 102))"

lemma hex_val_less: "lower_hex c \<Longrightarrow> hex_val c < 16"
  by (auto simp: lower_hex_def hex_val_def Let_def)

lemma hex_val_inj: "lower_hex c \<Longrightarrow> lower_hex d \<Longrightarrow> hex_val c = hex_val d \<Longrightarrow> c = d"
proof -
  assume "lower_hex c" "lower_hex d" "hex_val c = hex_val d"
  then have "(of_char c :: nat) = of_char d"
    by (auto simp: lower_hex_def hex_val_def Let_def eq_diff_iff simp del: of_char_eq_iff split: if_splits)
  then show "c = d" by (simp only: of_char_eq_iff)
qed

lemma hex_pair:
  assumes "16 * x + y = 16 * x' + y'" "y < 16" "y' < (16 :: nat)"
  shows "x = x' \<and> y = y'"
proof -
  have "(16 * x + y) div 16 = x" "(16 * x' + y') div 16 = x'" using assms by simp_all
  then show ?thesis using assms(1) by simp
qed

lemma unat_of_nat8: "n < 256 \<Longrightarrow> unat (of_nat n :: 8 word) = n"
  by (simp add: unat_of_nat take_bit_nat_eq_self)

lemma lower_hex_lower: "is_hex_digit c \<Longrightarrow> lower_hex (lower_char c)"
  by (auto simp: is_hex_digit_def lower_hex_def lower_char_def Let_def take_bit_nat_eq_self)

lemma hex_decode_inj:
  assumes "bytes32 a" "bytes32 b" "hex_decode (toLowerCase a) = hex_decode (toLowerCase b)"
  shows "toLowerCase a = toLowerCase b"
proof (rule nth_equalityI)
  have len: "length (toLowerCase a) = 66" "length (toLowerCase b) = 66"
    using assms by (simp_all add: bytes32_def)
  have hex: "lower_hex (toLowerCase h ! (k + 2))" if "bytes32 h" "k < 64" for h k
    using that lower_hex_lower by (auto simp: bytes32_def toLowerCase_def list_all_length add.commute)
  have digits: "toLowerCase a ! (2 * i + 2) = toLowerCase b ! (2 * i + 2) \<and>
      toLowerCase a ! (2 * i + 3) = toLowerCase b ! (2 * i + 3)" if "i < 32" for i
  proof -
    let ?v = "\<lambda>h j. hex_val (toLowerCase h ! (2 * i + j))"
    have l: "?v h 2 < 16 \<and> ?v h 3 < 16 \<and> lower_hex (toLowerCase h ! (2 * i + 2)) \<and>
        lower_hex (toLowerCase h ! (2 * i + 3))" if "bytes32 h" for h
      using hex [OF that, of "2 * i"] hex [OF that, of "2 * i + 1"] \<open>i < 32\<close> hex_val_less
      by (simp add: numeral_3_eq_3)
    have "hex_decode (toLowerCase a) ! i = hex_decode (toLowerCase b) ! i" using assms(3) by simp
    then have "(of_nat (16 * ?v a 2 + ?v a 3) :: 8 word) = of_nat (16 * ?v b 2 + ?v b 3)"
      using that by (simp add: hex_decode_def)
    moreover have "16 * ?v a 2 + ?v a 3 < 256" "16 * ?v b 2 + ?v b 3 < 256"
      using l [OF assms(1)] l [OF assms(2)] by auto
    ultimately have "16 * ?v a 2 + ?v a 3 = 16 * ?v b 2 + ?v b 3"
      by (metis unat_of_nat8)
    then have "?v a 2 = ?v b 2 \<and> ?v a 3 = ?v b 3"
      by (rule hex_pair) (use l [OF assms(1)] l [OF assms(2)] in simp_all)
    then show ?thesis
      using hex_val_inj [of "toLowerCase a ! (2 * i + 2)" "toLowerCase b ! (2 * i + 2)"]
        hex_val_inj [of "toLowerCase a ! (2 * i + 3)" "toLowerCase b ! (2 * i + 3)"]
        l [OF assms(1)] l [OF assms(2)] by simp
  qed
  show "length (toLowerCase a) = length (toLowerCase b)" by (simp only: len)
  fix k assume k: "k < length (toLowerCase a)"
  have "take 2 (toLowerCase a) = ''0x''" "take 2 (toLowerCase b) = ''0x''"
    using assms(1,2) by (simp_all add: bytes32_def toLowerCase_def take_map lower_char_def)
  then have first: "k < 2 \<Longrightarrow> toLowerCase a ! k = toLowerCase b ! k"
    by (metis nth_take)
  show "toLowerCase a ! k = toLowerCase b ! k"
  proof (cases "k < 2")
    case False
    then obtain i j where "k = 2 * i + 2 + j" "j < 2" "i < 32"
      using k len(1) that [of "(k - 2) div 2" "(k - 2) mod 2"] by auto
    then show ?thesis using digits [of i] by (cases j) (auto simp: numeral_3_eq_3)
  qed (rule first)
qed

definition sample_hash :: "char \<Rightarrow> string" where
  "sample_hash c = ''0x'' @ replicate 64 c"

theorem evidence_uri_injective_witness:
  "(evidenceUriFromHash hex_decode (sample_hash (CHR ''a'')) = evidenceUriFromHash hex_decode (sample_hash (CHR ''A''))
     \<longleftrightarrow> toLowerCase (sample_hash (CHR ''a'')) = toLowerCase (sample_hash (CHR ''A''))) \<and>
   (evidenceUriFromHash hex_decode (sample_hash (CHR ''a'')) = Inr None
     \<longleftrightarrow> toLowerCase (sample_hash (CHR ''a'')) = ZERO_EVIDENCE_HASH)"
  by (rule evidence_uri_injective [OF _ hex_decode_inj])
     (simp_all add: hex_decode_def bytes32_def sample_hash_def is_hex_digit_def list_all_iff)

end
