(* ===== verification/Index_Store.thy ===== *)
theory Index_Store
  imports Js_Prelude Js_Sort
begin

text \<open>
  The data of the indexer (offchain/indexer/src/store.ts): logs, blocks, checkpoints, scan ranges,
  canonical batches and the read views, with the market status functions of the same file.
  Chain ids, indexes and state numbers are integers; addresses and hashes are strings.
\<close>

section \<open>The chain as ingested\<close>

datatype confirmation = Provisional | ConfirmedBlock

datatype protocol_version = LegacyV1 | TimeV2

record indexed_event =
  ev_chainId :: int
  ev_blockNumber :: int
  ev_blockHash :: string
  ev_transactionHash :: string
  ev_transactionIndex :: int
  ev_logIndex :: int
  ev_address :: string
  ev_topics :: "string list"
  ev_data :: string
  ev_status :: confirmation

record canonical_block =
  cb_chainId :: int
  cb_blockNumber :: int
  cb_blockHash :: string
  cb_parentHash :: string
  cb_timestamp :: int
  cb_status :: confirmation

record chain_checkpoint =
  ck_chainId :: int
  ck_blockNumber :: int
  ck_blockHash :: string

datatype canonical_mode = Dense | Sparse

record scan_range =
  sr_chainId :: int
  sr_fromBlock :: int
  sr_toBlock :: int
  sr_predecessor :: "chain_checkpoint option"
  sr_endBlockHash :: string
  sr_status :: confirmation
  sr_mode :: canonical_mode

record canonical_batch =
  bt_range :: scan_range
  bt_anchors :: "canonical_block list"
  bt_events :: "indexed_event list"
  bt_checkpoint :: chain_checkpoint

text \<open>A log as viem returns it; the position fields are null while it is pending.\<close>

record rpc_log =
  lg_address :: string
  lg_topics :: "string list"
  lg_data :: string
  lg_blockNumber :: "int option"
  lg_blockHash :: "string option"
  lg_transactionHash :: "string option"
  lg_transactionIndex :: "int option"
  lg_logIndex :: "int option"

text \<open>\<open>ga\<close> is viem's getAddress.\<close>

definition normalizeLog ::
  "(string \<Rightarrow> string option) \<Rightarrow> int \<Rightarrow> rpc_log \<Rightarrow> confirmation \<Rightarrow> indexed_event outcome" where
  "normalizeLog ga chainId l status =
     (case (lg_blockNumber l, lg_blockHash l, lg_transactionHash l, lg_transactionIndex l, lg_logIndex l) of
        (Some n, Some bh, Some th, Some ti, Some li) \<Rightarrow>
          (case ga (lg_address l) of
             None \<Rightarrow> Inl (JsError ''InvalidAddressError'')
           | Some a \<Rightarrow>
               Inr \<lparr>ev_chainId = chainId, ev_blockNumber = n, ev_blockHash = bh,
                    ev_transactionHash = th, ev_transactionIndex = ti, ev_logIndex = li,
                    ev_address = a, ev_topics = lg_topics l, ev_data = lg_data l,
                    ev_status = status\<rparr>)
      | _ \<Rightarrow> Inl (JsError ''indexer received a pending or incomplete log''))"

section \<open>Views\<close>

record market_view =
  mw_protocolVersion :: "protocol_version option"
  mw_earlyBirdStart :: "int option option"
  mw_chainId :: int
  mw_market :: string
  mw_creator :: string
  mw_deploymentMode :: int
  mw_outcomeCount :: "int option"
  mw_closeAt :: "int option"
  mw_createdAt :: "int option"
  mw_eventStartsAt :: "int option"
  mw_outcomeDeadlineAt :: "int option"
  mw_resolutionWindow :: "int option"
  mw_rulesHash :: "string option"
  mw_metadataUri :: "string option"
  mw_resolutionSourceHash :: "string option"
  mw_resolutionSourceUri :: "string option"
  mw_creatorTreasury :: "string option"
  mw_featureFlags :: "int option"
  mw_marketPrimaryCap :: "int option"
  mw_primaryFilledUnits :: int
  mw_primaryPayment :: int
  mw_creatorBond :: int
  mw_state :: int
  mw_voidReason :: int
  mw_winningOutcome :: "int option"
  mw_evidenceHash :: "string option"
  mw_evidenceUri :: "string option"
  mw_createdBlock :: int
  mw_updatedBlock :: int
  mw_status :: confirmation

record listing_view =
  lw_chainId :: int
  lw_listingId :: string
  lw_vault :: string
  lw_seller :: string
  lw_outcomeId :: int
  lw_remainingUnits :: int
  lw_unitPrice :: int
  lw_expiresAt :: int
  lw_active :: bool
  lw_createdBlock :: int
  lw_updatedBlock :: int
  lw_status :: confirmation

record fill_view =
  fw_chainId :: int
  fw_transactionHash :: string
  fw_logIndex :: int
  fw_listingId :: string
  fw_vault :: string
  fw_buyer :: string
  fw_seller :: string
  fw_filledUnits :: int
  fw_gross :: int
  fw_sellerProceeds :: "int option"
  fw_platformFee :: "int option"
  fw_creatorFee :: "int option"
  fw_blockNumber :: int
  fw_status :: confirmation

record position_view =
  pw_chainId :: int
  pw_vault :: string
  pw_owner :: string
  pw_outcomeId :: int
  pw_balance :: int
  pw_updatedBlock :: int
  pw_status :: confirmation
  pw_marketState :: "int option"
  pw_winningOutcome :: "int option"

record claim_view =
  cw_chainId :: int
  cw_transactionHash :: string
  cw_logIndex :: int
  cw_vault :: string
  cw_owner :: string
  cw_caller :: string
  cw_claimKind :: string
  cw_units :: int
  cw_amount :: int
  cw_blockNumber :: int
  cw_status :: confirmation

datatype activity_kind =
    AK_market_created | AK_primary_purchased | AK_listing_created | AK_listing_filled
  | AK_listing_cancelled | AK_terminal_listing_returned | AK_market_resolved
  | AK_market_voided_creator | AK_market_voided_no_winning_supply | AK_market_voided_timeout
  | AK_winner_claimed | AK_early_bird_claimed | AK_principal_refunded | AK_timeout_bonus_claimed

record activity_view =
  aw_chainId :: int
  aw_transactionHash :: string
  aw_logIndex :: int
  aw_kind :: activity_kind
  aw_vault :: string
  aw_actor :: "string option"
  aw_counterparty :: "string option"
  aw_outcomeId :: "int option"
  aw_listingId :: "string option"
  aw_units :: "int option"
  aw_amount :: "int option"
  aw_blockNumber :: int
  aw_status :: confirmation

definition positionMarketSnapshot :: "market_view option \<Rightarrow> int option \<times> int option" where
  "positionMarketSnapshot m =
     (case m of None \<Rightarrow> (None, None) | Some v \<Rightarrow> (Some (mw_state v), mw_winningOutcome v))"

section \<open>Order of events\<close>

text \<open>indexer.ts and memory-store.ts each hold this comparison.\<close>

definition compareEvents :: "indexed_event \<Rightarrow> indexed_event \<Rightarrow> int" where
  "compareEvents a b =
     (if ev_blockNumber a \<noteq> ev_blockNumber b
      then (if ev_blockNumber a < ev_blockNumber b then -1 else 1)
      else if ev_transactionIndex a \<noteq> ev_transactionIndex b
      then ev_transactionIndex a - ev_transactionIndex b
      else ev_logIndex a - ev_logIndex b)"

interpretation event_order: comparator compareEvents
  by unfold_locales (auto simp: compareEvents_def sgn_if split: if_splits)

abbreviation in_event_order :: "indexed_event list \<Rightarrow> bool" where
  "in_event_order es \<equiv> sorted_wrt (\<lambda>a b. compareEvents a b \<le> 0) es"

section \<open>Market status\<close>

datatype market_status = MS_open | MS_resolved | MS_voided | MS_voided_creator | MS_voided_timeout

fun marketState :: "market_status \<Rightarrow> int" where
  "marketState MS_open = 0"
| "marketState MS_resolved = 1"
| "marketState MS_voided = 2"
| "marketState MS_voided_creator = 2"
| "marketState MS_voided_timeout = 3"

definition matchesMarketStatus :: "int \<Rightarrow> protocol_version option \<Rightarrow> market_status \<Rightarrow> bool" where
  "matchesMarketStatus state protocol status =
     (if status = MS_voided
      then state = 2 \<or> (protocol = Some LegacyV1 \<and> state = 3)
      else if status = MS_voided_creator \<or> status = MS_voided_timeout
      then protocol = Some LegacyV1 \<and> state = marketState status
      else state = marketState status)"

definition marketStatus :: "int \<Rightarrow> protocol_version option \<Rightarrow> market_status outcome" where
  "marketStatus state protocol =
     (if state = 0 then Inr MS_open
      else if state = 1 then Inr MS_resolved
      else if state = 2 then Inr (if protocol = Some LegacyV1 then MS_voided_creator else MS_voided)
      else if state = 3 then Inr (if protocol = Some LegacyV1 then MS_voided_timeout else MS_voided)
      else Inl (RangeError (''unknown market state '' @ dec state)))"

text \<open>
  The status shown for a market is the one the catalog filter selects it by, except for state 3
  outside the legacy protocol, which no filter selects.
\<close>

lemma status_matches:
  "marketStatus state protocol = Inr status \<Longrightarrow>
   matchesMarketStatus state protocol status \<longleftrightarrow> state \<noteq> 3 \<or> protocol = Some LegacyV1"
  by (auto simp: marketStatus_def matchesMarketStatus_def split: if_splits)

end
