(* ===== verification/Sdk_Rules.thy ===== *)
theory Sdk_Rules
  imports Index_Store
begin

text \<open>
  The pure rules of the client SDK (offchain/sdk/src): market states and void reasons
  (market-state.ts, legacy-protocol.ts), market times and rules (market-times.ts, market-rules.ts),
  decimal amounts (units.ts), the bid reserve (orderbook.ts) and the gas policy that bounds every
  transaction before signing (transaction-policy.ts). Error texts that are not ASCII are paraphrased.
\<close>

section \<open>Market state\<close>

definition assertMarketState :: "int \<Rightarrow> int \<Rightarrow> unit outcome" where
  "assertMarketState state voidReason =
     (if state < 0 \<or> 2 < state \<or>
         (if state = 2 then voidReason < 1 \<or> 3 < voidReason else voidReason \<noteq> 0)
      then Inl (RangeError (''invalid market state/reason: '' @ dec state @ ''/'' @ dec voidReason))
      else Inr ())"

definition publicMarketState ::
  "protocol_version option \<Rightarrow> int \<Rightarrow> int \<Rightarrow> (int \<times> int) outcome" where
  "publicMarketState protocol state voidReason =
     (if protocol = Some LegacyV1
      then (if state < 0 \<or> 3 < state then Inl (RangeError ''invalid legacy market state'')
            else Inr (if state < 2 then state else 2,
                      if state = 2 then 1 else if state = 3 then 3 else 0))
      else outcome_map (\<lambda>_. (state, voidReason)) (assertMarketState state voidReason))"

text \<open>Whatever the protocol, a public state passes the target deployment's own check.\<close>

lemma publicMarketState_valid:
  "publicMarketState p s r = Inr (s', r') \<Longrightarrow> assertMarketState s' r' = Inr ()"
  by (auto simp: publicMarketState_def assertMarketState_def split: if_splits)

section \<open>Market times\<close>

record market_times =
  mt_closeAt :: int
  mt_eventStartsAt :: "int option"
  mt_outcomeDeadlineAt :: int
  mt_resolutionDeadlineAt :: "int option"

definition assertMarketTimes :: "market_times \<Rightarrow> unit outcome" where
  "assertMarketTimes t =
     (if mt_closeAt t \<le> 0 \<or> mt_outcomeDeadlineAt t < mt_closeAt t
      then Inl (RangeError ''outcome deadline before close'')
      else if (case mt_eventStartsAt t of None \<Rightarrow> False
               | Some e \<Rightarrow> e \<le> mt_closeAt t \<or> mt_outcomeDeadlineAt t < e)
      then Inl (RangeError ''close < event start <= outcome deadline is required'')
      else if (case mt_resolutionDeadlineAt t of None \<Rightarrow> False
               | Some r \<Rightarrow> r \<le> mt_outcomeDeadlineAt t)
      then Inl (RangeError ''resolution deadline not after outcome deadline'')
      else Inr ())"

record market_rules =
  mr_question :: string
  mr_outcomes :: "string list"
  mr_closeAt :: int
  mr_eventStartsAt :: "int option"
  mr_outcomeDeadlineAt :: int
  mr_resolutionDeadlineAt :: int
  mr_resolutionSource :: string
  mr_resolutionCriteria :: string
  mr_cancellationPolicy :: string

text \<open>The refinement of \<open>marketRulesSchema\<close>: any error of the time check becomes an issue.\<close>

definition market_rules_times_ok :: "market_rules \<Rightarrow> bool" where
  "market_rules_times_ok r =
     (assertMarketTimes \<lparr>mt_closeAt = mr_closeAt r, mt_eventStartsAt = mr_eventStartsAt r,
        mt_outcomeDeadlineAt = mr_outcomeDeadlineAt r,
        mt_resolutionDeadlineAt = Some (mr_resolutionDeadlineAt r)\<rparr> = Inr ())"

record chain_times =
  ct_closeAt :: "int option"
  ct_eventStartsAt :: "int option"
  ct_outcomeDeadlineAt :: "int option"
  ct_resolutionDeadlineAt :: "int option"

definition marketRulesMatchTimes :: "market_rules \<Rightarrow> chain_times \<Rightarrow> bool" where
  "marketRulesMatchTimes r c =
     (Some (mr_closeAt r) = ct_closeAt c \<and> mr_eventStartsAt r = ct_eventStartsAt c \<and>
      Some (mr_outcomeDeadlineAt r) = ct_outcomeDeadlineAt c \<and>
      Some (mr_resolutionDeadlineAt r) = ct_resolutionDeadlineAt c)"

lemma market_times_ordered:
  "assertMarketTimes t = Inr () \<longleftrightarrow>
   0 < mt_closeAt t \<and> mt_closeAt t \<le> mt_outcomeDeadlineAt t \<and>
   (\<forall>e. mt_eventStartsAt t = Some e \<longrightarrow> mt_closeAt t < e \<and> e \<le> mt_outcomeDeadlineAt t) \<and>
   (\<forall>r. mt_resolutionDeadlineAt t = Some r \<longrightarrow> mt_outcomeDeadlineAt t < r)"
  by (auto simp: assertMarketTimes_def split: option.splits)

section \<open>Amounts\<close>

text \<open>The text before the first dot, and what follows it when there is one (\<open>split\<close> at the dot).\<close>

fun split_dot :: "string \<Rightarrow> string \<times> string option" where
  "split_dot [] = ([], None)"
| "split_dot (c # cs) =
     (if c = CHR ''.'' then ([], Some cs)
      else let (a, b) = split_dot cs in (c # a, b))"

definition decimal_text :: "string \<Rightarrow> bool" where
  "decimal_text v =
     (let (whole, fraction) = split_dot v in
      whole \<noteq> [] \<and> list_all is_digit whole \<and> (hd whole \<noteq> CHR ''0'' \<or> length whole = 1) \<and>
      (case fraction of None \<Rightarrow> True | Some f \<Rightarrow> f \<noteq> [] \<and> list_all is_digit f))"

definition assertExactDecimals :: "string \<Rightarrow> nat \<Rightarrow> string \<Rightarrow> unit outcome" where
  "assertExactDecimals value decimals field =
     (if \<not> decimal_text value
      then Inl (TypeError (field @ '' must be a non-negative decimal string''))
      else case snd (split_dot value) of
             None \<Rightarrow> Inr ()
           | Some f \<Rightarrow>
               if decimals < length f
               then Inl (RangeError (field @ '' has more than '' @ dec_nat decimals @ '' decimal places''))
               else Inr ())"

text \<open>\<open>pu\<close> is viem's parseUnits.\<close>

definition parseUsdc :: "(string \<Rightarrow> nat \<Rightarrow> int) \<Rightarrow> string \<Rightarrow> int outcome" where
  "parseUsdc pu value = outcome_map (\<lambda>_. pu value 6) (assertExactDecimals value 6 ''USDC amount'')"

definition parseShareUnits :: "(string \<Rightarrow> nat \<Rightarrow> int) \<Rightarrow> string \<Rightarrow> int outcome" where
  "parseShareUnits pu value = outcome_map (\<lambda>_. pu value 6) (assertExactDecimals value 6 ''share amount'')"

definition bidReserve :: "int \<Rightarrow> int \<Rightarrow> int" where
  "bidReserve units price = bigint_div (units * price + 999999) 1000000"

text \<open>The reserve is the least whole payment unit that covers the order.\<close>

lemma bidReserve_least:
  assumes "0 \<le> units" "0 \<le> price"
  shows "units * price \<le> bidReserve units price * 1000000"
    and "units * price \<le> r * 1000000 \<Longrightarrow> bidReserve units price \<le> r"
proof -
  have "0 \<le> units * price" using assms by simp
  then have "bidReserve units price = (units * price + 999999) div 1000000"
    by (simp add: bidReserve_def bigint_div_nonneg)
  then show "units * price \<le> bidReserve units price * 1000000"
    "units * price \<le> r * 1000000 \<Longrightarrow> bidReserve units price \<le> r" by linarith+
qed

section \<open>Gas policy\<close>

datatype gas_operation =
    GO_token_approval | GO_operator_approval | GO_market_create_full | GO_market_create_clone
  | GO_market_update | GO_primary_buy | GO_primary_buy_permit2 | GO_market_resolve | GO_market_void
  | GO_listing_create | GO_listing_fill | GO_listing_fill_permit2 | GO_listing_maintenance
  | GO_claim | GO_bond_settlement | GO_exposure_sync | GO_sandbox_mint

fun gasLimitByOperation :: "gas_operation \<Rightarrow> int" where
  "gasLimitByOperation GO_token_approval = 150000"
| "gasLimitByOperation GO_operator_approval = 150000"
| "gasLimitByOperation GO_market_create_full = 8000000"
| "gasLimitByOperation GO_market_create_clone = 600000"
| "gasLimitByOperation GO_market_update = 350000"
| "gasLimitByOperation GO_primary_buy = 300000"
| "gasLimitByOperation GO_primary_buy_permit2 = 370000"
| "gasLimitByOperation GO_market_resolve = 450000"
| "gasLimitByOperation GO_market_void = 300000"
| "gasLimitByOperation GO_listing_create = 300000"
| "gasLimitByOperation GO_listing_fill = 350000"
| "gasLimitByOperation GO_listing_fill_permit2 = 430000"
| "gasLimitByOperation GO_listing_maintenance = 250000"
| "gasLimitByOperation GO_claim = 250000"
| "gasLimitByOperation GO_bond_settlement = 300000"
| "gasLimitByOperation GO_exposure_sync = 250000"
| "gasLimitByOperation GO_sandbox_mint = 150000"

definition DEFAULT_PRIORITY_FEE_PER_GAS :: int where "DEFAULT_PRIORITY_FEE_PER_GAS = 10000000"
definition MAX_PRIORITY_FEE_PER_GAS :: int where "MAX_PRIORITY_FEE_PER_GAS = 100000000"
definition MAX_TRANSACTION_FEE :: int where "MAX_TRANSACTION_FEE = 10000000000000000"

text \<open>\<open>estimate\<close> is the answer of estimateGas, \<open>Inl\<close> when the call fails.\<close>

definition boundedGasLimit :: "int outcome \<Rightarrow> int \<Rightarrow> int outcome" where
  "boundedGasLimit estimate cap =
     (case estimate of
        Inl _ \<Rightarrow> Inr cap
      | Inr e \<Rightarrow>
          if 0 < e \<and> e \<le> cap
          then let buffered = bigint_div (e * 120 + 100 - 1) 100
               in Inr (if cap < buffered then cap else buffered)
          else if cap < e \<and> e \<le> cap * 100
          then Inl (JsError ''gas-above-limit'')
          else Inr cap)"

definition clamp :: "int \<Rightarrow> int \<Rightarrow> int \<Rightarrow> int" where
  "clamp value minimum maximum =
     (if value < minimum then minimum else if maximum < value then maximum else value)"

text \<open>
  \<open>base\<close> is the base fee of the latest block (\<open>Inl\<close>: the read failed), \<open>fees\<close> the answer of
  estimateFeesPerGas as (maxFeePerGas, maxPriorityFeePerGas). The result has the same order.
\<close>

definition boundedFees :: "int option outcome \<Rightarrow> (int \<times> int) outcome \<Rightarrow> int \<Rightarrow> (int \<times> int) outcome" where
  "boundedFees base fees gas =
     outcome_bind base (\<lambda>baseFeePerGas.
       case baseFeePerGas of
         None \<Rightarrow> Inl (JsError ''base-fee-unavailable'')
       | Some b \<Rightarrow>
           if b \<le> 0 then Inl (JsError ''base-fee-unavailable'')
           else
             let (suggestedMax, suggestedPriority) =
                   (case fees of Inl _ \<Rightarrow> (0, DEFAULT_PRIORITY_FEE_PER_GAS) | Inr f \<Rightarrow> f);
                 maxPriority = clamp suggestedPriority DEFAULT_PRIORITY_FEE_PER_GAS MAX_PRIORITY_FEE_PER_GAS;
                 minimumMax = b * 2 + maxPriority;
                 maxFee = (if minimumMax < suggestedMax then suggestedMax else minimumMax)
             in if MAX_TRANSACTION_FEE < gas * maxFee then Inl (JsError ''fee-above-limit'')
                else Inr (maxFee, maxPriority))"

text \<open>The fields given to the wallet: gas limit, maximum fee and priority fee.\<close>

record bounded_request =
  bq_gas :: int
  bq_maxFeePerGas :: int
  bq_maxPriorityFeePerGas :: int

definition sendTransactionWithGasPolicy ::
  "int outcome \<Rightarrow> int option outcome \<Rightarrow> (int \<times> int) outcome \<Rightarrow> gas_operation \<Rightarrow>
     bounded_request outcome" where
  "sendTransactionWithGasPolicy estimate base fees operation =
     outcome_bind (boundedGasLimit estimate (gasLimitByOperation operation)) (\<lambda>gas.
       outcome_map (\<lambda>(maxFee, priority).
           \<lparr>bq_gas = gas, bq_maxFeePerGas = maxFee, bq_maxPriorityFeePerGas = priority\<rparr>)
         (boundedFees base fees gas))"

lemma gas_ceiling_pos: "0 < gasLimitByOperation p"
  by (cases p) simp_all

lemma boundedGasLimit_bounds:
  "boundedGasLimit est c = Inr g \<Longrightarrow> 0 < c \<Longrightarrow> 0 < g \<and> g \<le> c \<and> (\<forall>e. est = Inr e \<and> 0 < e \<and> e \<le> c \<longrightarrow> e \<le> g)"
  by (auto simp: boundedGasLimit_def bigint_div_nonneg Let_def split: sum.splits if_splits)

lemma boundedFees_bounds:
  assumes "boundedFees base fees gas = Inr (maxFee, prio)"
  shows "DEFAULT_PRIORITY_FEE_PER_GAS \<le> prio \<and> prio \<le> MAX_PRIORITY_FEE_PER_GAS \<and>
    (\<exists>b. base = Inr (Some b) \<and> 0 < b \<and> 2 * b + prio \<le> maxFee) \<and> gas * maxFee \<le> MAX_TRANSACTION_FEE"
proof -
  obtain sm sp where s: "(case fees of Inl _ \<Rightarrow> (0, DEFAULT_PRIORITY_FEE_PER_GAS) | Inr f \<Rightarrow> f) = (sm, sp)"
    by (meson surj_pair)
  obtain b where b: "base = Inr (Some b)" "0 < b"
    using assms by (auto simp: boundedFees_def split: option.splits if_splits)
  have c: "DEFAULT_PRIORITY_FEE_PER_GAS \<le> clamp x DEFAULT_PRIORITY_FEE_PER_GAS MAX_PRIORITY_FEE_PER_GAS \<and>
      clamp x DEFAULT_PRIORITY_FEE_PER_GAS MAX_PRIORITY_FEE_PER_GAS \<le> MAX_PRIORITY_FEE_PER_GAS" for x
    by (simp add: clamp_def DEFAULT_PRIORITY_FEE_PER_GAS_def MAX_PRIORITY_FEE_PER_GAS_def)
  show ?thesis
    using assms b c [of sp] by (auto simp: boundedFees_def s Let_def split: if_splits)
qed

text \<open>
  C40. No transaction reaches the wallet without bounds: its gas limit is within the reviewed ceiling
  of its operation and covers the estimate, its priority fee lies in the allowed band, its maximum
  fee covers twice the base fee, and its worst-case cost is at most 0.01 ETH, whatever the RPC says.
\<close>

theorem gas_policy_bounds:
  assumes "sendTransactionWithGasPolicy estimate base fees operation = Inr q"
  shows "0 < bq_gas q \<and> bq_gas q \<le> gasLimitByOperation operation \<and>
    (\<forall>e. estimate = Inr e \<and> 0 < e \<and> e \<le> gasLimitByOperation operation \<longrightarrow> e \<le> bq_gas q) \<and>
    DEFAULT_PRIORITY_FEE_PER_GAS \<le> bq_maxPriorityFeePerGas q \<and>
    bq_maxPriorityFeePerGas q \<le> MAX_PRIORITY_FEE_PER_GAS \<and>
    (\<exists>b. base = Inr (Some b) \<and> 0 < b \<and> 2 * b + bq_maxPriorityFeePerGas q \<le> bq_maxFeePerGas q) \<and>
    bq_gas q * bq_maxFeePerGas q \<le> MAX_TRANSACTION_FEE"
proof -
  obtain gas maxFee prio where g: "boundedGasLimit estimate (gasLimitByOperation operation) = Inr gas"
    and f: "boundedFees base fees gas = Inr (maxFee, prio)"
    and q: "q = \<lparr>bq_gas = gas, bq_maxFeePerGas = maxFee, bq_maxPriorityFeePerGas = prio\<rparr>"
    using assms by (auto simp: sendTransactionWithGasPolicy_def)
  show ?thesis
    using boundedGasLimit_bounds [OF g gas_ceiling_pos] boundedFees_bounds [OF f] by (simp add: q)
qed

theorem gas_policy_bounds_witness:
  "\<exists>q. sendTransactionWithGasPolicy (Inr 240000) (Inr (Some 20000000)) (Inr (45000000, 5)) GO_claim = Inr q \<and>
     0 < bq_gas q \<and> bq_gas q \<le> gasLimitByOperation GO_claim \<and>
     bq_gas q * bq_maxFeePerGas q \<le> MAX_TRANSACTION_FEE"
proof -
  have e: "sendTransactionWithGasPolicy (Inr 240000) (Inr (Some 20000000)) (Inr (45000000, 5)) GO_claim
      = Inr \<lparr>bq_gas = 250000, bq_maxFeePerGas = 50000000, bq_maxPriorityFeePerGas = 10000000\<rparr>"
    by code_simp
  show ?thesis using e gas_policy_bounds [OF e] by blast
qed

end
