(* ===== verification/Derived.thy ===== *)
theory Derived
  imports Index_Store Evidence Sdk_Rules
begin

text \<open>
  offchain/indexer/src/derived.ts: the mutations of the read model that one event stands for.

  The ABI decoding is viem's: \<open>ab_event p t\<close> is the event the topic selects for protocol \<open>p\<close> (the
  tables \<open>eventByTopic\<close> and \<open>legacyEventByTopic\<close>), \<open>ab_decode\<close> is decodeEventLog in strict mode, and
  \<open>ab_address\<close>, \<open>ab_bytes\<close> are getAddress and hexToBytes. They are one argument, the record \<open>abi\<close>.
\<close>

section \<open>Decoded arguments\<close>

datatype abi_value = AbiText string | AbiBig int | AbiNum int | AbiBool bool | AbiArray "abi_value list"

type_synonym abi_args = "(string \<times> abi_value) list"

record abi =
  ab_event :: "protocol_version \<Rightarrow> string \<Rightarrow> string option"
  ab_decode :: "string \<Rightarrow> string list \<Rightarrow> string \<Rightarrow> (string \<times> abi_args) outcome"
  ab_address :: "string \<Rightarrow> string option"
  ab_bytes :: "string \<Rightarrow> 8 word list"

datatype terminal_kind = TK_resolved | TK_voided_creator | TK_voided_no_winning_supply | TK_voided_timeout

datatype close_kind = CK_cancelled | CK_terminal_returned

datatype mutation =
    MarketCreated (mu_market: string) (mu_creator: string) (mu_deploymentMode: int) (mu_creatorBond: int)
  | MarketInitialized string string int int "int option" int "int option" "int option" int int int
  | MarketMetadata string string string string string int "int option" "int option" "int option" string int
  | PrimaryPurchased string string int int int int int
  | MarketTerminal string terminal_kind "string option" int int "int option" "string option"
  | ListingCreated string string string int int int int
  | ListingFilled string string string int int int int int int
  | ListingClosed string close_kind string string
  | PositionDelta (pd_vault: string) (pd_owner: string) (pd_outcomeId: int) (pd_delta: int)
  | ClaimMade string string string string int int

section \<open>Argument checks\<close>

definition MAX_SAFE_INTEGER :: int where "MAX_SAFE_INTEGER = 9007199254740991"

definition safe_nonnegative :: "int \<Rightarrow> bool" where
  "safe_nonnegative n = (0 \<le> n \<and> n \<le> MAX_SAFE_INTEGER)"

definition arg_address :: "abi \<Rightarrow> abi_value option \<Rightarrow> string outcome" where
  "arg_address ab value =
     (case value of
        Some (AbiText s) \<Rightarrow>
          (case ab_address ab s of None \<Rightarrow> Inl (JsError ''InvalidAddressError'') | Some a \<Rightarrow> Inr a)
      | _ \<Rightarrow> Inl (TypeError ''event address argument is missing''))"

definition arg_hex :: "abi_value option \<Rightarrow> string outcome" where
  "arg_hex value =
     (case value of
        Some (AbiText s) \<Rightarrow>
          if starts_with ''0x'' s then Inr s else Inl (TypeError ''event bytes argument is missing'')
      | _ \<Rightarrow> Inl (TypeError ''event bytes argument is missing''))"

definition arg_text :: "abi_value option \<Rightarrow> string outcome" where
  "arg_text value =
     (case value of
        Some (AbiText s) \<Rightarrow> Inr s | _ \<Rightarrow> Inl (TypeError ''event string argument is missing''))"

definition arg_bigint :: "abi_value option \<Rightarrow> int outcome" where
  "arg_bigint value =
     (case value of
        Some (AbiBig n) \<Rightarrow> Inr n
      | Some (AbiNum n) \<Rightarrow>
          if safe_nonnegative n then Inr n else Inl (TypeError ''event integer argument is missing'')
      | _ \<Rightarrow> Inl (TypeError ''event integer argument is missing''))"

definition arg_number :: "abi_value option \<Rightarrow> int outcome" where
  "arg_number value =
     (case value of
        Some (AbiNum n) \<Rightarrow>
          if safe_nonnegative n then Inr n else Inl (TypeError ''event integer argument is missing'')
      | _ \<Rightarrow>
          outcome_bind (arg_bigint value) (\<lambda>n.
            if MAX_SAFE_INTEGER < n then Inl (RangeError ''event integer exceeds JS range'') else Inr n))"

fun big_of :: "abi_value \<Rightarrow> int option" where
  "big_of (AbiBig n) = Some n"
| "big_of _ = None"

definition arg_bigints :: "abi_value option \<Rightarrow> int list outcome" where
  "arg_bigints value =
     (case value of
        Some (AbiArray xs) \<Rightarrow>
          traverse (\<lambda>x. case big_of x of
                          None \<Rightarrow> Inl (TypeError ''event integer array argument is missing'')
                        | Some n \<Rightarrow> Inr n) xs
      | _ \<Rightarrow> Inl (TypeError ''event integer array argument is missing''))"

definition optionalEvidenceHash :: "abi_value option \<Rightarrow> string option outcome" where
  "optionalEvidenceHash value =
     outcome_bind (arg_hex value) (\<lambda>h.
       outcome_map (\<lambda>normalized. if normalized = ZERO_EVIDENCE_HASH then None else Some normalized)
         (normalizeEvidenceHash h))"

definition terminalKind :: "int \<Rightarrow> terminal_kind outcome" where
  "terminalKind reason =
     (if reason = 1 then Inr TK_voided_creator
      else if reason = 2 then Inr TK_voided_no_winning_supply
      else if reason = 3 then Inr TK_voided_timeout
      else Inl (RangeError (''invalid void reason '' @ dec reason)))"

section \<open>Transfers and claims\<close>

definition ZERO_ADDRESS :: string where
  "ZERO_ADDRESS = ''0x'' @ replicate 40 (CHR ''0'')"

definition transfer_deltas :: "string \<Rightarrow> string \<Rightarrow> string \<Rightarrow> int \<times> int \<Rightarrow> mutation list" where
  "transfer_deltas vault src dst iv =
     (let (outcomeId, value) = iv in
      (if src \<noteq> ZERO_ADDRESS then [PositionDelta vault src outcomeId (- value)] else []) @
      (if dst \<noteq> ZERO_ADDRESS then [PositionDelta vault dst outcomeId value] else []))"

definition positionMutations ::
  "string \<Rightarrow> string \<Rightarrow> string \<Rightarrow> int list \<Rightarrow> int list \<Rightarrow> mutation list outcome" where
  "positionMutations vault src dst ids vals =
     (if length ids \<noteq> length vals
      then Inl (JsError ''ERC-1155 batch ids/values length mismatch'')
      else Inr (concat (map (transfer_deltas vault src dst) (zip ids vals))))"

definition claimMutation ::
  "abi \<Rightarrow> indexed_event \<Rightarrow> abi_args \<Rightarrow> string \<Rightarrow> string \<Rightarrow> string \<Rightarrow> mutation list outcome" where
  "claimMutation ab event args claimKind unitsField amountField =
     outcome_bind (arg_address ab (map_of args ''owner'')) (\<lambda>own.
     outcome_bind (arg_address ab (map_of args ''caller'')) (\<lambda>caller.
     outcome_bind (arg_bigint (map_of args unitsField)) (\<lambda>units.
     outcome_map (\<lambda>amount. [ClaimMade (ev_address event) own caller claimKind units amount])
       (arg_bigint (map_of args amountField)))))"

section \<open>Mutations of an event\<close>

text \<open>A start time of zero is no start time; the legacy protocol has none.\<close>

definition optional_start :: "protocol_version \<Rightarrow> abi_args \<Rightarrow> int option outcome" where
  "optional_start protocol args =
     (if protocol = LegacyV1 then Inr None
      else outcome_map (\<lambda>n. if n = 0 then None else Some n) (arg_bigint (map_of args ''eventStartsAt'')))"

definition unless_legacy :: "protocol_version \<Rightarrow> abi_args \<Rightarrow> string \<Rightarrow> int option outcome" where
  "unless_legacy protocol args field =
     (if protocol = LegacyV1 then Inr None else outcome_map Some (arg_bigint (map_of args field)))"

definition derive_initialized :: "abi \<Rightarrow> protocol_version \<Rightarrow> abi_args \<Rightarrow> mutation list outcome" where
  "derive_initialized ab protocol args =
     outcome_bind (arg_address ab (map_of args ''market'')) (\<lambda>market.
     outcome_bind (arg_address ab (map_of args ''creator'')) (\<lambda>creator.
     outcome_bind (arg_number (map_of args ''mode'')) (\<lambda>mode.
     outcome_bind (arg_number (map_of args ''outcomeCount'')) (\<lambda>count.
     outcome_bind (unless_legacy protocol args ''createdAt'') (\<lambda>createdAt.
     outcome_bind (arg_bigint (map_of args ''closeAt'')) (\<lambda>closeAt.
     outcome_bind (optional_start protocol args) (\<lambda>startsAt.
     outcome_bind (unless_legacy protocol args ''outcomeDeadlineAt'') (\<lambda>deadline.
     outcome_bind (arg_bigint (map_of args ''resolutionWindow'')) (\<lambda>window.
     outcome_bind (arg_bigint (map_of args ''marketPrimaryCap'')) (\<lambda>cap.
     outcome_map
       (\<lambda>bond. [MarketInitialized market creator mode count createdAt closeAt startsAt deadline window cap bond])
       (arg_bigint (map_of args ''creatorBond''))))))))))))"

definition derive_metadata ::
  "abi \<Rightarrow> protocol_version \<Rightarrow> indexed_event \<Rightarrow> abi_args \<Rightarrow> mutation list outcome" where
  "derive_metadata ab protocol event args =
     outcome_bind (arg_hex (map_of args ''rulesHash'')) (\<lambda>rulesHash.
     outcome_bind (arg_text (map_of args ''metadataURI'')) (\<lambda>uri.
     outcome_bind (arg_hex (map_of args ''resolutionSourceHash'')) (\<lambda>sourceHash.
     outcome_bind (arg_text (map_of args ''resolutionSourceURI'')) (\<lambda>sourceUri.
     outcome_bind (arg_bigint (map_of args ''closeAt'')) (\<lambda>closeAt.
     outcome_bind (optional_start protocol args) (\<lambda>startsAt.
     outcome_bind (unless_legacy protocol args ''outcomeDeadlineAt'') (\<lambda>deadline.
     outcome_bind (if protocol = LegacyV1
                   then outcome_map Some (arg_bigint (map_of args ''earlyBirdStart'')) else Inr None) (\<lambda>early.
     outcome_bind (arg_address ab (map_of args ''creatorTreasury'')) (\<lambda>treasury.
     outcome_map
       (\<lambda>flags. [MarketMetadata (ev_address event) rulesHash uri sourceHash sourceUri closeAt startsAt
                   deadline early treasury flags])
       (arg_bigint (map_of args ''featureFlags'')))))))))))"

definition derive_purchase :: "abi \<Rightarrow> indexed_event \<Rightarrow> abi_args \<Rightarrow> mutation list outcome" where
  "derive_purchase ab event args =
     outcome_bind (arg_address ab (map_of args ''buyer'')) (\<lambda>buyer.
     outcome_bind (arg_bigint (map_of args ''outcomeId'')) (\<lambda>outcomeId.
     outcome_bind (arg_bigint (map_of args ''filledUnits'')) (\<lambda>units.
     outcome_bind (arg_bigint (map_of args ''payment'')) (\<lambda>payment.
     outcome_bind (arg_bigint (map_of args ''earlyBirdWeight'')) (\<lambda>weight.
     outcome_map (\<lambda>principal. [PrimaryPurchased (ev_address event) buyer outcomeId units payment weight principal])
       (arg_bigint (map_of args ''totalPrincipal'')))))))"

definition derive_voided ::
  "abi \<Rightarrow> protocol_version \<Rightarrow> indexed_event \<Rightarrow> abi_args \<Rightarrow> mutation list outcome" where
  "derive_voided ab protocol event args =
     outcome_bind (if protocol = LegacyV1
                   then outcome_bind (arg_number (map_of args ''terminalState''))
                          (\<lambda>s. outcome_map snd (publicMarketState (Some protocol) s 0))
                   else arg_number (map_of args ''reason'')) (\<lambda>reason.
     outcome_bind (terminalKind reason) (\<lambda>kind.
     outcome_bind (arg_address ab (map_of args ''caller'')) (\<lambda>caller.
     outcome_bind (if protocol = LegacyV1 then arg_number (map_of args ''terminalState'') else Inr 2) (\<lambda>state.
     outcome_map (\<lambda>h. [MarketTerminal (ev_address event) kind (Some caller) state reason None h])
       (optionalEvidenceHash (map_of args ''evidenceHash''))))))"

definition derive_listing_created :: "abi \<Rightarrow> abi_args \<Rightarrow> mutation list outcome" where
  "derive_listing_created ab args =
     outcome_bind (arg_hex (map_of args ''listingId'')) (\<lambda>listing.
     outcome_bind (arg_address ab (map_of args ''vault'')) (\<lambda>vault.
     outcome_bind (arg_address ab (map_of args ''seller'')) (\<lambda>seller.
     outcome_bind (arg_bigint (map_of args ''outcomeId'')) (\<lambda>outcomeId.
     outcome_bind (arg_bigint (map_of args ''amount'')) (\<lambda>amount.
     outcome_bind (arg_bigint (map_of args ''unitPrice'')) (\<lambda>price.
     outcome_map (\<lambda>expires. [ListingCreated listing vault seller outcomeId amount price expires])
       (arg_bigint (map_of args ''expiresAt''))))))))"

definition derive_listing_filled :: "abi \<Rightarrow> abi_args \<Rightarrow> mutation list outcome" where
  "derive_listing_filled ab args =
     outcome_bind (arg_hex (map_of args ''listingId'')) (\<lambda>listing.
     outcome_bind (arg_address ab (map_of args ''buyer'')) (\<lambda>buyer.
     outcome_bind (arg_address ab (map_of args ''seller'')) (\<lambda>seller.
     outcome_bind (arg_bigint (map_of args ''filledUnits'')) (\<lambda>units.
     outcome_bind (arg_bigint (map_of args ''gross'')) (\<lambda>gross.
     outcome_bind (arg_bigint (map_of args ''sellerProceeds'')) (\<lambda>proceeds.
     outcome_bind (arg_bigint (map_of args ''platformFee'')) (\<lambda>platformFee.
     outcome_bind (arg_bigint (map_of args ''creatorFee'')) (\<lambda>creatorFee.
     outcome_map
       (\<lambda>remaining. [ListingFilled listing buyer seller units gross proceeds platformFee creatorFee remaining])
       (arg_bigint (map_of args ''remainingUnits''))))))))))"

definition derive_transfer :: "abi \<Rightarrow> indexed_event \<Rightarrow> abi_args \<Rightarrow> bool \<Rightarrow> mutation list outcome" where
  "derive_transfer ab event args single =
     outcome_bind (arg_address ab (map_of args ''from'')) (\<lambda>src.
     outcome_bind (arg_address ab (map_of args ''to'')) (\<lambda>dst.
     outcome_bind (if single then outcome_map (\<lambda>n. [n]) (arg_bigint (map_of args ''id''))
                   else arg_bigints (map_of args ''ids'')) (\<lambda>ids.
     outcome_bind (if single then outcome_map (\<lambda>n. [n]) (arg_bigint (map_of args ''value''))
                   else arg_bigints (map_of args ''values'')) (\<lambda>vals.
     positionMutations (ev_address event) src dst ids vals))))"

definition derive_closed :: "abi \<Rightarrow> abi_args \<Rightarrow> close_kind \<Rightarrow> string \<Rightarrow> mutation list outcome" where
  "derive_closed ab args kind callerField =
     outcome_bind (arg_hex (map_of args ''listingId'')) (\<lambda>listing.
     outcome_bind (arg_address ab (map_of args ''seller'')) (\<lambda>seller.
     outcome_map (\<lambda>caller. [ListingClosed listing kind seller caller])
       (arg_address ab (map_of args callerField))))"

definition derive_event ::
  "abi \<Rightarrow> protocol_version \<Rightarrow> indexed_event \<Rightarrow> string \<Rightarrow> abi_args \<Rightarrow> mutation list outcome" where
  "derive_event ab protocol event name args =
     (if name = ''MarketCreated''
      then outcome_bind (arg_address ab (map_of args ''market'')) (\<lambda>market.
           outcome_bind (arg_address ab (map_of args ''creator'')) (\<lambda>creator.
           outcome_bind (arg_number (map_of args ''deploymentMode'')) (\<lambda>mode.
           outcome_map (\<lambda>bond. [MarketCreated market creator mode bond])
             (arg_bigint (map_of args ''creatorBond'')))))
      else if name = ''MarketInitialized'' then derive_initialized ab protocol args
      else if name = ''MarketMetadataUpdated'' then derive_metadata ab protocol event args
      else if name = ''PrimaryPurchased'' then derive_purchase ab event args
      else if name = ''MarketResolved''
      then outcome_bind (arg_bigint (map_of args ''winningOutcome'')) (\<lambda>win.
           outcome_map (\<lambda>h. [MarketTerminal (ev_address event) TK_resolved None 1 0 (Some win) h])
             (optionalEvidenceHash (map_of args ''evidenceHash'')))
      else if name = ''MarketVoided'' then derive_voided ab protocol event args
      else if name = ''ListingCreated'' then derive_listing_created ab args
      else if name = ''ListingFilled'' then derive_listing_filled ab args
      else if name = ''ListingCancelled'' then derive_closed ab args CK_cancelled ''seller''
      else if name = ''TerminalListingReturned'' then derive_closed ab args CK_terminal_returned ''caller''
      else if name = ''TransferSingle'' then derive_transfer ab event args True
      else if name = ''TransferBatch'' then derive_transfer ab event args False
      else if name = ''WinnerClaimed'' then claimMutation ab event args ''winner'' ''burnedUnits'' ''payout''
      else if name = ''EarlyBirdClaimed'' then claimMutation ab event args ''early-bird'' ''score'' ''reward''
      else if name = ''PrincipalRefunded''
      then claimMutation ab event args ''principal-refund'' ''burnedUnits'' ''refund''
      else if name = ''TimeoutBonusClaimed''
      then claimMutation ab event args ''timeout-bonus'' ''units'' ''reward''
      else Inr [])"

definition deriveMutations ::
  "abi \<Rightarrow> indexed_event \<Rightarrow> protocol_version \<Rightarrow> mutation list outcome" where
  "deriveMutations ab event protocol =
     (case ev_topics event of
        [] \<Rightarrow> Inr []
      | topic # _ \<Rightarrow>
          (case ab_event ab protocol topic of
             None \<Rightarrow> Inr []
           | Some item \<Rightarrow>
               outcome_bind (ab_decode ab item (ev_topics event) (ev_data event))
                 (\<lambda>(name, args). derive_event ab protocol event name args)))"

section \<open>Discovery of markets\<close>

definition normalizeForDiscovery :: "rpc_log \<Rightarrow> indexed_event option" where
  "normalizeForDiscovery l =
     (case (lg_blockNumber l, lg_blockHash l, lg_transactionHash l, lg_transactionIndex l, lg_logIndex l) of
        (Some n, Some bh, Some th, Some ti, Some li) \<Rightarrow>
          Some \<lparr>ev_chainId = 0, ev_blockNumber = n, ev_blockHash = bh, ev_transactionHash = th,
                ev_transactionIndex = ti, ev_logIndex = li, ev_address = lg_address l,
                ev_topics = lg_topics l, ev_data = lg_data l, ev_status = Provisional\<rparr>
      | _ \<Rightarrow> None)"

fun discover_from :: "abi \<Rightarrow> rpc_log list \<Rightarrow> string list \<Rightarrow> string list outcome" where
  "discover_from ab [] markets = Inr markets"
| "discover_from ab (l # ls) markets =
     (case normalizeForDiscovery l of
        None \<Rightarrow> discover_from ab ls markets
      | Some event \<Rightarrow>
          outcome_bind (deriveMutations ab event TimeV2) (\<lambda>ms.
            discover_from ab ls
              (fold (\<lambda>m acc. case m of MarketCreated a _ _ _ \<Rightarrow> set_add a acc | _ \<Rightarrow> acc) ms markets)))"

definition discoverMarketAddresses :: "abi \<Rightarrow> rpc_log list \<Rightarrow> string list outcome" where
  "discoverMarketAddresses ab logs = discover_from ab logs []"

definition confirmationFor :: "int \<Rightarrow> confirmation" where
  "confirmationFor confirmations = (if confirmations = 0 then Provisional else ConfirmedBlock)"

section \<open>Transfers conserve shares\<close>

text \<open>What a list of mutations adds to the balance an owner holds of an outcome.\<close>

fun delta_for :: "string \<Rightarrow> string \<Rightarrow> int \<Rightarrow> mutation \<Rightarrow> int" where
  "delta_for vault own oid (PositionDelta v w i d) = (if v = vault \<and> w = own \<and> i = oid then d else 0)"
| "delta_for vault own oid _ = 0"

fun outcome_delta :: "int \<Rightarrow> mutation \<Rightarrow> int" where
  "outcome_delta oid (PositionDelta v w i d) = (if i = oid then d else 0)"
| "outcome_delta oid _ = 0"

definition moved :: "int \<Rightarrow> int list \<Rightarrow> int list \<Rightarrow> int" where
  "moved oid ids vals = sum_list (map snd (filter (\<lambda>p. fst p = oid) (zip ids vals)))"

lemma transfer_deltas_sum:
  "sum_list (map (outcome_delta oid) (transfer_deltas v a b (i, x))) =
   (if i = oid then (if b \<noteq> ZERO_ADDRESS then x else 0) - (if a \<noteq> ZERO_ADDRESS then x else 0) else 0)"
  by (simp add: transfer_deltas_def)

text \<open>
  ERC-1155 transfers conserve shares: over all holders, a transfer between two accounts changes
  the total of an outcome by nothing, a mint adds exactly the minted amount, a burn removes it.
\<close>

theorem transfers_conserve_shares:
  assumes "positionMutations vault a b ids vals = Inr ms"
  shows "sum_list (map (outcome_delta oid) ms) =
         (if b \<noteq> ZERO_ADDRESS then moved oid ids vals else 0) -
         (if a \<noteq> ZERO_ADDRESS then moved oid ids vals else 0)"
proof -
  have ms: "ms = concat (map (transfer_deltas vault a b) (zip ids vals))"
    using assms by (simp add: positionMutations_def split: if_splits)
  have "sum_list (map (outcome_delta oid) (concat (map (transfer_deltas vault a b) ivs))) =
      (if b \<noteq> ZERO_ADDRESS then sum_list (map snd (filter (\<lambda>p. fst p = oid) ivs)) else 0) -
      (if a \<noteq> ZERO_ADDRESS then sum_list (map snd (filter (\<lambda>p. fst p = oid) ivs)) else 0)" for ivs
    by (induction ivs) (auto simp: transfer_deltas_sum)
  then show ?thesis by (simp add: ms moved_def)
qed

theorem transfers_conserve_shares_witness:
  "sum_list (map (outcome_delta 1)
     (concat (map (transfer_deltas ''0xV'' ''0xA'' ''0xB'') (zip [1, 2, 1] [5, 7, 8])))) = 0"
proof -
  have e: "positionMutations ''0xV'' ''0xA'' ''0xB'' [1, 2, 1] [5, 7, 8] =
      Inr (concat (map (transfer_deltas ''0xV'' ''0xA'' ''0xB'') (zip [1, 2, 1] [5, 7, 8])))"
    by (simp add: positionMutations_def)
  have "''0xA'' \<noteq> ZERO_ADDRESS" "''0xB'' \<noteq> ZERO_ADDRESS" by code_simp+
  then show ?thesis using transfers_conserve_shares [OF e, of 1] by simp
qed

end
