(* ===== verification/Canonical_Batch.thy ===== *)
theory Canonical_Batch
  imports Index_Store
begin

text \<open>
  offchain/indexer/src/canonical-batch.ts: the checks every write unit of the indexer passes, and what
  an accepted batch guarantees.
\<close>

fun validate_anchors ::
  "scan_range \<Rightarrow> canonical_block list \<Rightarrow> (int, string) jsmap \<Rightarrow> (int, string) jsmap outcome" where
  "validate_anchors rng [] anchors = Inr anchors"
| "validate_anchors rng (a # xs) anchors =
     (if cb_chainId a \<noteq> sr_chainId rng \<or> cb_blockNumber a < sr_fromBlock rng \<or>
         sr_toBlock rng < cb_blockNumber a \<or> cb_status a \<noteq> sr_status rng
      then Inl (JsError ''canonical anchor is outside its scan range'')
      else if (case map_get anchors (cb_blockNumber a) of None \<Rightarrow> False | Some h \<Rightarrow> h \<noteq> cb_blockHash a)
      then Inl (JsError ''canonical batch contains conflicting anchors'')
      else validate_anchors rng xs (map_set (cb_blockNumber a) (cb_blockHash a) anchors))"

fun validate_events ::
  "scan_range \<Rightarrow> (int, string) jsmap \<Rightarrow> indexed_event list \<Rightarrow> unit outcome" where
  "validate_events rng anchors [] = Inr ()"
| "validate_events rng anchors (e # es) =
     (if ev_chainId e \<noteq> sr_chainId rng \<or> ev_blockNumber e < sr_fromBlock rng \<or>
         sr_toBlock rng < ev_blockNumber e \<or> ev_status e \<noteq> sr_status rng \<or>
         map_get anchors (ev_blockNumber e) \<noteq> Some (ev_blockHash e)
      then Inl (JsError ''event hash does not match a canonical batch anchor'')
      else validate_events rng anchors es)"

definition validateCanonicalBatch :: "canonical_batch \<Rightarrow> unit outcome" where
  "validateCanonicalBatch batch =
     (let rng = bt_range batch; checkpoint = bt_checkpoint batch in
      if sr_toBlock rng < sr_fromBlock rng
      then Inl (JsError ''canonical batch range is empty'')
      else if ck_chainId checkpoint \<noteq> sr_chainId rng \<or>
              ck_blockNumber checkpoint \<noteq> sr_toBlock rng \<or>
              ck_blockHash checkpoint \<noteq> sr_endBlockHash rng
      then Inl (JsError ''canonical batch checkpoint does not match its range'')
      else if (case sr_predecessor rng of None \<Rightarrow> False
               | Some p \<Rightarrow> ck_chainId p \<noteq> sr_chainId rng \<or>
                           ck_blockNumber p + 1 \<noteq> sr_fromBlock rng)
      then Inl (JsError ''canonical batch predecessor is not contiguous'')
      else outcome_bind (validate_anchors rng (bt_anchors batch) []) (\<lambda>anchors.
        if map_get anchors (sr_toBlock rng) \<noteq> Some (sr_endBlockHash rng)
        then Inl (JsError ''canonical batch is missing its endpoint anchor'')
        else validate_events rng anchors (bt_events batch)))"

definition legacyDenseBatch ::
  "indexed_event list \<Rightarrow> canonical_block list \<Rightarrow> chain_checkpoint \<Rightarrow> chain_checkpoint option \<Rightarrow>
     canonical_batch outcome" where
  "legacyDenseBatch es blocks checkpoint predecessor =
     (case blocks of
        [] \<Rightarrow> Inl (JsError ''canonical block batch is empty'')
      | first # _ \<Rightarrow>
          Inr \<lparr>bt_range = \<lparr>sr_chainId = ck_chainId checkpoint, sr_fromBlock = cb_blockNumber first,
                            sr_toBlock = ck_blockNumber checkpoint, sr_predecessor = predecessor,
                            sr_endBlockHash = ck_blockHash checkpoint, sr_status = cb_status first,
                            sr_mode = Dense\<rparr>,
               bt_anchors = blocks, bt_events = es, bt_checkpoint = checkpoint\<rparr>)"

section \<open>What acceptance means\<close>

definition anchor_fits :: "scan_range \<Rightarrow> canonical_block \<Rightarrow> bool" where
  "anchor_fits r a = (cb_chainId a = sr_chainId r \<and> sr_fromBlock r \<le> cb_blockNumber a \<and>
                      cb_blockNumber a \<le> sr_toBlock r \<and> cb_status a = sr_status r)"

definition event_fits :: "scan_range \<Rightarrow> canonical_block list \<Rightarrow> indexed_event \<Rightarrow> bool" where
  "event_fits r xs e = (ev_chainId e = sr_chainId r \<and> sr_fromBlock r \<le> ev_blockNumber e \<and>
     ev_blockNumber e \<le> sr_toBlock r \<and> ev_status e = sr_status r \<and>
     list_ex (\<lambda>a. cb_blockNumber a = ev_blockNumber e \<and> cb_blockHash a = ev_blockHash e) xs)"

definition anchors_agree :: "canonical_block list \<Rightarrow> bool" where
  "anchors_agree xs = (\<forall>a \<in> set xs. \<forall>b \<in> set xs.
     cb_blockNumber a = cb_blockNumber b \<longrightarrow> cb_blockHash a = cb_blockHash b)"

lemma validate_anchors_sound:
  "validate_anchors r xs m = Inr m' \<Longrightarrow>
   list_all (anchor_fits r) xs \<and>
   (\<forall>n h. map_get m n = Some h \<longrightarrow> map_get m' n = Some h) \<and>
   (\<forall>a \<in> set xs. map_get m' (cb_blockNumber a) = Some (cb_blockHash a)) \<and>
   (\<forall>n h. map_get m' n = Some h \<longrightarrow> map_get m n = Some h \<or>
      (\<exists>a \<in> set xs. cb_blockNumber a = n \<and> cb_blockHash a = h))"
proof (induction r xs m rule: validate_anchors.induct)
  case (2 r a xs m)
  let ?m = "map_set (cb_blockNumber a) (cb_blockHash a) m"
  have ok: "anchor_fits r a" "\<forall>h. map_get m (cb_blockNumber a) = Some h \<longrightarrow> h = cb_blockHash a"
    and rest: "validate_anchors r xs ?m = Inr m'"
    using "2.prems" by (auto simp: anchor_fits_def split: if_splits option.splits)
  have IH: "list_all (anchor_fits r) xs \<and>
     (\<forall>n h. map_get ?m n = Some h \<longrightarrow> map_get m' n = Some h) \<and>
     (\<forall>a \<in> set xs. map_get m' (cb_blockNumber a) = Some (cb_blockHash a)) \<and>
     (\<forall>n h. map_get m' n = Some h \<longrightarrow> map_get ?m n = Some h \<or>
        (\<exists>a \<in> set xs. cb_blockNumber a = n \<and> cb_blockHash a = h))"
    using "2.IH" "2.prems" rest by (auto split: if_splits option.splits)
  then have "map_get m' n = Some h" if "map_get m n = Some h" for n h
  proof (cases "n = cb_blockNumber a")
    case True
    then show ?thesis using that ok(2) IH by (simp add: update_conv)
  next
    case False
    then have "map_get ?m n = Some h" using that by (simp add: update_conv)
    then show ?thesis using IH by blast
  qed
  moreover have "map_get m' (cb_blockNumber a) = Some (cb_blockHash a)"
    using IH by (auto simp: update_conv)
  moreover have "map_get m n = Some h \<or> (\<exists>x \<in> set (a # xs). cb_blockNumber x = n \<and> cb_blockHash x = h)"
    if n: "map_get m' n = Some h" for n h
  proof (cases "n = cb_blockNumber a")
    case True
    then show ?thesis using n calculation(2) by auto
  next
    case False
    have "map_get ?m n = Some h \<or> (\<exists>x \<in> set xs. cb_blockNumber x = n \<and> cb_blockHash x = h)"
      using IH n by blast
    then show ?thesis using False by (auto simp: update_conv)
  qed
  ultimately show ?case using IH ok(1) by simp
qed simp

lemma validate_events_sound:
  "validate_events r m es = Inr () \<Longrightarrow> e \<in> set es \<Longrightarrow>
   ev_chainId e = sr_chainId r \<and> sr_fromBlock r \<le> ev_blockNumber e \<and> ev_blockNumber e \<le> sr_toBlock r \<and>
   ev_status e = sr_status r \<and> map_get m (ev_blockNumber e) = Some (ev_blockHash e)"
  by (induction r m es rule: validate_events.induct) (auto split: if_splits)

lemma validated_parts:
  assumes "validateCanonicalBatch b = Inr ()"
  shows "sr_fromBlock (bt_range b) \<le> sr_toBlock (bt_range b)"
    and "bt_checkpoint b = \<lparr>ck_chainId = sr_chainId (bt_range b), ck_blockNumber = sr_toBlock (bt_range b),
           ck_blockHash = sr_endBlockHash (bt_range b)\<rparr>"
    and "\<And>p. sr_predecessor (bt_range b) = Some p \<Longrightarrow>
           ck_chainId p = sr_chainId (bt_range b) \<and> ck_blockNumber p + 1 = sr_fromBlock (bt_range b)"
    and "list_all (anchor_fits (bt_range b)) (bt_anchors b)"
    and "anchors_agree (bt_anchors b)"
    and "\<exists>a \<in> set (bt_anchors b). cb_blockNumber a = sr_toBlock (bt_range b) \<and>
           cb_blockHash a = sr_endBlockHash (bt_range b)"
    and "list_all (event_fits (bt_range b) (bt_anchors b)) (bt_events b)"
proof -
  obtain m where m: "validate_anchors (bt_range b) (bt_anchors b) [] = Inr m"
    "map_get m (sr_toBlock (bt_range b)) = Some (sr_endBlockHash (bt_range b))"
    "validate_events (bt_range b) m (bt_events b) = Inr ()"
    and top: "sr_fromBlock (bt_range b) \<le> sr_toBlock (bt_range b)"
    "ck_chainId (bt_checkpoint b) = sr_chainId (bt_range b)"
    "ck_blockNumber (bt_checkpoint b) = sr_toBlock (bt_range b)"
    "ck_blockHash (bt_checkpoint b) = sr_endBlockHash (bt_range b)"
    "\<And>p. sr_predecessor (bt_range b) = Some p \<Longrightarrow>
       ck_chainId p = sr_chainId (bt_range b) \<and> ck_blockNumber p + 1 = sr_fromBlock (bt_range b)"
    using assms by (auto simp: validateCanonicalBatch_def Let_def split: if_splits option.splits)
  note a = validate_anchors_sound [OF m(1)]
  show "sr_fromBlock (bt_range b) \<le> sr_toBlock (bt_range b)" by (rule top)
  show "bt_checkpoint b = \<lparr>ck_chainId = sr_chainId (bt_range b), ck_blockNumber = sr_toBlock (bt_range b),
      ck_blockHash = sr_endBlockHash (bt_range b)\<rparr>"
    using top by simp
  show "ck_chainId p = sr_chainId (bt_range b) \<and> ck_blockNumber p + 1 = sr_fromBlock (bt_range b)"
    if "sr_predecessor (bt_range b) = Some p" for p
    by (rule top(5) [OF that])
  show "list_all (anchor_fits (bt_range b)) (bt_anchors b)" using a by simp
  show "anchors_agree (bt_anchors b)"
    using a unfolding anchors_agree_def by (metis option.inject)
  show "\<exists>a \<in> set (bt_anchors b). cb_blockNumber a = sr_toBlock (bt_range b) \<and>
      cb_blockHash a = sr_endBlockHash (bt_range b)"
    using a m(2) by auto
  show "list_all (event_fits (bt_range b) (bt_anchors b)) (bt_events b)"
    unfolding list_all_iff
  proof
    fix e assume "e \<in> set (bt_events b)"
    then have e: "ev_chainId e = sr_chainId (bt_range b) \<and> sr_fromBlock (bt_range b) \<le> ev_blockNumber e \<and>
        ev_blockNumber e \<le> sr_toBlock (bt_range b) \<and> ev_status e = sr_status (bt_range b) \<and>
        map_get m (ev_blockNumber e) = Some (ev_blockHash e)"
      using validate_events_sound [OF m(3)] by blast
    then have "\<exists>x \<in> set (bt_anchors b). cb_blockNumber x = ev_blockNumber e \<and> cb_blockHash x = ev_blockHash e"
      using a by auto
    then show "event_fits (bt_range b) (bt_anchors b) e"
      using e by (simp add: event_fits_def list_ex_iff)
  qed
qed

end
