(* ===== verification/Calls.thy ===== *)
theory Calls
  imports Js_Prelude
begin

text \<open>
  Asynchronous calls that change a state and may throw. A call takes the state it finds, returns a value
  or the error thrown, and the state it leaves; what it changed before the error stays changed. Awaited
  calls run one after the other, so sequencing is \<open>call_bind\<close>.
\<close>

type_synonym ('s, 'a) call = "'s \<Rightarrow> 'a outcome \<times> 's"

text \<open>A write that may throw: the error, if any, and the state it leaves.\<close>

type_synonym 's written = "js_error option \<times> 's"

definition call_return :: "'a \<Rightarrow> ('s, 'a) call" where
  "call_return a s = (Inr a, s)"

definition call_throw :: "js_error \<Rightarrow> ('s, 'a) call" where
  "call_throw e s = (Inl e, s)"

definition call_of :: "'a outcome \<Rightarrow> ('s, 'a) call" where
  "call_of v s = (v, s)"

definition call_bind :: "('s, 'a) call \<Rightarrow> ('a \<Rightarrow> ('s, 'b) call) \<Rightarrow> ('s, 'b) call" where
  "call_bind m g s = (case m s of (Inl e, t) \<Rightarrow> (Inl e, t) | (Inr a, t) \<Rightarrow> g a t)"

definition call_require :: "bool \<Rightarrow> js_error \<Rightarrow> ('s, unit) call" where
  "call_require b e = (if b then call_return () else call_throw e)"

fun call_each :: "('a \<Rightarrow> ('s, 'b) call) \<Rightarrow> 'a list \<Rightarrow> ('s, 'b list) call" where
  "call_each g [] = call_return []"
| "call_each g (x # xs) =
     call_bind (g x) (\<lambda>y. call_bind (call_each g xs) (\<lambda>ys. call_return (y # ys)))"

text \<open>A call on one half of a paired state.\<close>

definition on_left :: "('s, 'a) call \<Rightarrow> ('s \<times> 'w, 'a) call" where
  "on_left m x = (case m (fst x) of (v, s) \<Rightarrow> (v, (s, snd x)))"

definition on_right :: "('w, 'a) call \<Rightarrow> ('s \<times> 'w, 'a) call" where
  "on_right m x = (case m (snd x) of (v, w) \<Rightarrow> (v, (fst x, w)))"

text \<open>\<open>try { \<dots> } catch { throw e }\<close>: any error is replaced.\<close>

definition call_relabel :: "js_error \<Rightarrow> ('s, 'a) call \<Rightarrow> ('s, 'a) call" where
  "call_relabel e m s = (case m s of (Inl _, t) \<Rightarrow> (Inl e, t) | (Inr a, t) \<Rightarrow> (Inr a, t))"

section \<open>Completed calls\<close>

named_theorems call_done \<open>when a call returns a value\<close>

lemma call_return_done [call_done]: "call_return a s = (Inr b, t) \<longleftrightarrow> b = a \<and> t = s"
  by (auto simp: call_return_def)

lemma call_throw_done [call_done]: "call_throw e s \<noteq> (Inr b, t)"
  by (simp add: call_throw_def)

lemma call_of_done [call_done]: "call_of v s = (Inr b, t) \<longleftrightarrow> v = Inr b \<and> t = s"
  by (auto simp: call_of_def)

lemma call_bind_done [call_done]:
  "call_bind m g s = (Inr b, t) \<longleftrightarrow> (\<exists>a u. m s = (Inr a, u) \<and> g a u = (Inr b, t))"
  by (auto simp: call_bind_def split: prod.splits sum.splits)

lemma call_require_done [call_done]: "call_require p e s = (Inr b, t) \<longleftrightarrow> p \<and> t = s"
  by (auto simp: call_require_def call_return_def call_throw_def)

lemma on_left_done [call_done]: "on_left m x = (Inr a, y) \<longleftrightarrow> m (fst x) = (Inr a, fst y) \<and> snd y = snd x"
  by (cases y) (auto simp: on_left_def split: prod.splits)

lemma on_right_done [call_done]: "on_right m x = (Inr a, y) \<longleftrightarrow> m (snd x) = (Inr a, snd y) \<and> fst y = fst x"
  by (cases y) (auto simp: on_right_def split: prod.splits)

lemma call_relabel_done [call_done]: "call_relabel e m s = (Inr a, t) \<longleftrightarrow> m s = (Inr a, t)"
  by (auto simp: call_relabel_def split: prod.splits sum.splits)

section \<open>What calls keep\<close>

text \<open>A predicate every call keeps, whether it returns or throws.\<close>

definition call_keeps :: "('s \<Rightarrow> bool) \<Rightarrow> ('s, 'a) call \<Rightarrow> bool" where
  "call_keeps I m = (\<forall>s. I s \<longrightarrow> I (snd (m s)))"

named_theorems call_keep \<open>calls that keep a predicate\<close>

lemma keeps_return [call_keep]: "call_keeps I (call_return a)"
  by (simp add: call_keeps_def call_return_def)

lemma keeps_throw [call_keep]: "call_keeps I (call_throw e)"
  by (simp add: call_keeps_def call_throw_def)

lemma keeps_of [call_keep]: "call_keeps I (call_of v)"
  by (simp add: call_keeps_def call_of_def)

lemma keeps_require [call_keep]: "call_keeps I (call_require p e)"
  by (simp add: call_keeps_def call_require_def call_return_def call_throw_def)

lemma keeps_bind [call_keep]:
  "call_keeps I m \<Longrightarrow> (\<And>a. call_keeps I (g a)) \<Longrightarrow> call_keeps I (call_bind m g)"
  unfolding call_keeps_def call_bind_def by (auto split: prod.splits sum.splits)

lemma keeps_each [call_keep]: "(\<And>x. call_keeps I (g x)) \<Longrightarrow> call_keeps I (call_each g xs)"
  by (induction xs) (auto intro: call_keep)

lemma keeps_relabel [call_keep]: "call_keeps I m \<Longrightarrow> call_keeps I (call_relabel e m)"
  unfolding call_keeps_def call_relabel_def by (auto split: prod.splits sum.splits)

lemma keeps_on_right [call_keep]: "call_keeps (\<lambda>x. I (fst x)) (on_right m)"
  by (simp add: call_keeps_def on_right_def split: prod.splits)

lemma keeps_on_left [call_keep]: "call_keeps I m \<Longrightarrow> call_keeps (\<lambda>x. I (fst x)) (on_left m)"
  unfolding call_keeps_def on_left_def by (auto split: prod.splits)

lemma call_keepsD: "call_keeps I m \<Longrightarrow> I s \<Longrightarrow> m s = (v, t) \<Longrightarrow> I t"
  by (metis call_keeps_def snd_conv)

end
