(* ===== verification/Memory_Store.thy ===== *)
theory Memory_Store
  imports Canonical_Batch Derived Calls
begin

text \<open>
  \<open>MemoryEventStore\<close> of offchain/indexer/src/memory-store.ts: the canonical store (checkpoints, scan
  ranges, blocks, events) and the read model it projects from events.

  The class's Maps are the fields of \<open>memory_store\<close>; the ones \<open>clearProjections\<close> clears are grouped in
  the record \<open>projections\<close>. A write may throw after part of its effect: an operation returns the error,
  if any, with the state it leaves (\<open>written\<close>).
\<close>

section \<open>Writes that may throw\<close>

definition ok :: "'s \<Rightarrow> 's written" where
  "ok s = (None, s)"

definition fail :: "js_error \<Rightarrow> 's \<Rightarrow> 's written" where
  "fail e s = (Some e, s)"

definition and_then :: "'s written \<Rightarrow> ('s \<Rightarrow> 's written) \<Rightarrow> 's written" where
  "and_then r g = (case fst r of None \<Rightarrow> g (snd r) | Some e \<Rightarrow> r)"

definition with_value :: "'a outcome \<Rightarrow> 's \<Rightarrow> ('a \<Rightarrow> 's written) \<Rightarrow> 's written" where
  "with_value v s g = (case v of Inl e \<Rightarrow> fail e s | Inr a \<Rightarrow> g a)"

fun for_each :: "('a \<Rightarrow> 's \<Rightarrow> 's written) \<Rightarrow> 'a list \<Rightarrow> 's \<Rightarrow> 's written" where
  "for_each g [] s = ok s"
| "for_each g (x # xs) s = and_then (g x s) (for_each g xs)"

section \<open>State\<close>

record projections =
  pj_registered :: "(string, string) jsmap"
  pj_markets :: "(string, market_view) jsmap"
  pj_listings :: "(string, listing_view) jsmap"
  pj_fills :: "(string, fill_view) jsmap"
  pj_positions :: "(string, position_view) jsmap"
  pj_claims :: "(string, claim_view) jsmap"
  pj_activities :: "(string, activity_view) jsmap"
  pj_participants :: "(string, string list) jsmap"

record memory_store =
  ms_checkpoints :: "(int, chain_checkpoint) jsmap"
  ms_ranges :: "(string, scan_range) jsmap"
  ms_blocks :: "(string, canonical_block) jsmap"
  ms_events :: "(string, indexed_event) jsmap"
  ms_projections :: projections

definition no_projections :: projections where
  "no_projections = \<lparr>pj_registered = [], pj_markets = [], pj_listings = [], pj_fills = [],
     pj_positions = [], pj_claims = [], pj_activities = [], pj_participants = []\<rparr>"

definition empty_store :: memory_store where
  "empty_store = \<lparr>ms_checkpoints = [], ms_ranges = [], ms_blocks = [], ms_events = [],
     ms_projections = no_projections\<rparr>"

section \<open>Keys\<close>

definition blockKey :: "int \<Rightarrow> int \<Rightarrow> string" where
  "blockKey chainId blockNumber = dec chainId @ '':'' @ dec blockNumber"

definition rangeKey :: "int \<Rightarrow> int \<Rightarrow> string" where
  "rangeKey chainId toBlock = dec chainId @ '':'' @ dec toBlock"

definition checked_address :: "abi \<Rightarrow> string \<Rightarrow> string outcome" where
  "checked_address ab a =
     (case ab_address ab a of None \<Rightarrow> Inl (JsError ''InvalidAddressError'') | Some c \<Rightarrow> Inr c)"

definition addressKey :: "abi \<Rightarrow> int \<Rightarrow> string \<Rightarrow> string outcome" where
  "addressKey ab chainId a = outcome_map (\<lambda>c. dec chainId @ '':'' @ c) (checked_address ab a)"

definition hexKey :: "int \<Rightarrow> string \<Rightarrow> string" where
  "hexKey chainId h = dec chainId @ '':'' @ toLowerCase h"

definition eventKey :: "indexed_event \<Rightarrow> string" where
  "eventKey e = dec (ev_chainId e) @ '':'' @ toLowerCase (ev_transactionHash e) @ '':'' @ dec (ev_logIndex e)"

definition positionKey :: "abi \<Rightarrow> int \<Rightarrow> string \<Rightarrow> string \<Rightarrow> int \<Rightarrow> string outcome" where
  "positionKey ab chainId vault own outcomeId =
     outcome_bind (checked_address ab vault) (\<lambda>v.
       outcome_map (\<lambda>w. dec chainId @ '':'' @ v @ '':'' @ w @ '':'' @ dec outcomeId)
         (checked_address ab own))"

section \<open>Projection of one mutation\<close>

definition activity ::
  "indexed_event \<Rightarrow> activity_kind \<Rightarrow> string \<Rightarrow> string option \<Rightarrow> activity_view" where
  "activity e kind vault actor =
     \<lparr>aw_chainId = ev_chainId e, aw_transactionHash = ev_transactionHash e, aw_logIndex = ev_logIndex e,
      aw_kind = kind, aw_vault = vault, aw_actor = actor, aw_counterparty = None, aw_outcomeId = None,
      aw_listingId = None, aw_units = None, aw_amount = None, aw_blockNumber = ev_blockNumber e,
      aw_status = ev_status e\<rparr>"

text \<open>\<open>recordActivity\<close>: the activity is stored before the participants' addresses are checked.\<close>

definition recordActivity ::
  "abi \<Rightarrow> indexed_event \<Rightarrow> activity_view \<Rightarrow> string list \<Rightarrow> projections \<Rightarrow> projections written" where
  "recordActivity ab e a extra s =
     (let key = eventKey e;
          s1 = s\<lparr>pj_activities := map_set key a (pj_activities s)\<rparr>;
          named = (case aw_actor a of None \<Rightarrow> [] | Some x \<Rightarrow> [x]) @
                  (case aw_counterparty a of None \<Rightarrow> [] | Some x \<Rightarrow> [x]) @ extra
      in with_value (traverse (checked_address ab) named) s1 (\<lambda>ps.
           ok (s1\<lparr>pj_participants := map_set key (fold set_add ps []) (pj_participants s1)\<rparr>)))"

definition project_created ::
  "abi \<Rightarrow> indexed_event \<Rightarrow> string \<Rightarrow> string \<Rightarrow> int \<Rightarrow> int \<Rightarrow> projections \<Rightarrow> projections written" where
  "project_created ab e market creator mode bond s =
     with_value (addressKey ab (ev_chainId e) market) s (\<lambda>key.
       let s1 = s\<lparr>pj_registered := map_set key market (pj_registered s)\<rparr>;
           s2 = (if map_has (pj_markets s1) key then s1
                 else s1\<lparr>pj_markets := map_set key
                   \<lparr>mw_protocolVersion = None, mw_earlyBirdStart = None, mw_chainId = ev_chainId e, mw_market = market,
                    mw_creator = creator, mw_deploymentMode = mode, mw_outcomeCount = None,
                    mw_closeAt = None, mw_createdAt = None, mw_eventStartsAt = None,
                    mw_outcomeDeadlineAt = None, mw_resolutionWindow = None, mw_rulesHash = None,
                    mw_metadataUri = None, mw_resolutionSourceHash = None,
                    mw_resolutionSourceUri = None, mw_creatorTreasury = None, mw_featureFlags = None,
                    mw_marketPrimaryCap = None, mw_primaryFilledUnits = 0, mw_primaryPayment = 0,
                    mw_creatorBond = bond, mw_state = 0, mw_voidReason = 0, mw_winningOutcome = None,
                    mw_evidenceHash = None, mw_evidenceUri = None, mw_createdBlock = ev_blockNumber e,
                    mw_updatedBlock = ev_blockNumber e, mw_status = ev_status e\<rparr> (pj_markets s1)\<rparr>)
       in recordActivity ab e
            ((activity e AK_market_created market (Some creator))\<lparr>aw_amount := Some bond\<rparr>) [] s2)"

definition kept :: "market_view option \<Rightarrow> (market_view \<Rightarrow> 'a) \<Rightarrow> 'a \<Rightarrow> 'a" where
  "kept current field dflt = (case current of None \<Rightarrow> dflt | Some v \<Rightarrow> field v)"

definition project_initialized ::
  "abi \<Rightarrow> indexed_event \<Rightarrow> string \<Rightarrow> string \<Rightarrow> int \<Rightarrow> int \<Rightarrow> int option \<Rightarrow> int \<Rightarrow> int option \<Rightarrow>
     int option \<Rightarrow> int \<Rightarrow> int \<Rightarrow> int \<Rightarrow> projections \<Rightarrow> projections written" where
  "project_initialized ab e market creator mode outcomes createdAt closeAt startsAt deadline window cap bond s =
     with_value (addressKey ab (ev_chainId e) market) s (\<lambda>key.
       let cur = map_get (pj_markets s) key in
       ok (s\<lparr>pj_markets := map_set key
         \<lparr>mw_protocolVersion = None, mw_earlyBirdStart = None, mw_chainId = ev_chainId e, mw_market = market, mw_creator = creator,
          mw_deploymentMode = mode, mw_outcomeCount = Some outcomes, mw_closeAt = Some closeAt,
          mw_createdAt = createdAt, mw_eventStartsAt = startsAt, mw_outcomeDeadlineAt = deadline,
          mw_resolutionWindow = Some window, mw_rulesHash = kept cur mw_rulesHash None,
          mw_metadataUri = kept cur mw_metadataUri None,
          mw_resolutionSourceHash = kept cur mw_resolutionSourceHash None,
          mw_resolutionSourceUri = kept cur mw_resolutionSourceUri None,
          mw_creatorTreasury = kept cur mw_creatorTreasury None,
          mw_featureFlags = kept cur mw_featureFlags None, mw_marketPrimaryCap = Some cap,
          mw_primaryFilledUnits = kept cur mw_primaryFilledUnits 0,
          mw_primaryPayment = kept cur mw_primaryPayment 0, mw_creatorBond = bond,
          mw_state = kept cur mw_state 0, mw_voidReason = kept cur mw_voidReason 0,
          mw_winningOutcome = kept cur mw_winningOutcome None,
          mw_evidenceHash = kept cur mw_evidenceHash None, mw_evidenceUri = kept cur mw_evidenceUri None,
          mw_createdBlock = kept cur mw_createdBlock (ev_blockNumber e),
          mw_updatedBlock = ev_blockNumber e, mw_status = ev_status e\<rparr> (pj_markets s)\<rparr>))"

text \<open>Updates of a market that must be known: \<open>what\<close> names the event in the error.\<close>

definition on_market ::
  "abi \<Rightarrow> indexed_event \<Rightarrow> string \<Rightarrow> string \<Rightarrow> projections \<Rightarrow>
     (string \<Rightarrow> market_view \<Rightarrow> projections written) \<Rightarrow> projections written" where
  "on_market ab e what market s g =
     with_value (addressKey ab (ev_chainId e) market) s (\<lambda>key.
       case map_get (pj_markets s) key of
         None \<Rightarrow> fail (JsError (what @ '' event references unknown market '' @ market)) s
       | Some cur \<Rightarrow> g key cur)"

definition touched :: "indexed_event \<Rightarrow> market_view \<Rightarrow> market_view" where
  "touched e v = v\<lparr>mw_updatedBlock := ev_blockNumber e, mw_status := ev_status e\<rparr>"

definition project_metadata ::
  "abi \<Rightarrow> indexed_event \<Rightarrow> string \<Rightarrow> string \<Rightarrow> string \<Rightarrow> string \<Rightarrow> string \<Rightarrow> int \<Rightarrow> int option \<Rightarrow>
     int option \<Rightarrow> string \<Rightarrow> int \<Rightarrow> projections \<Rightarrow> projections written" where
  "project_metadata ab e market rulesHash uri sourceHash sourceUri closeAt startsAt deadline treasury flags s =
     on_market ab e ''metadata'' market s (\<lambda>key cur.
       ok (s\<lparr>pj_markets := map_set key
         (touched e (cur\<lparr>mw_rulesHash := Some rulesHash, mw_metadataUri := Some uri,
            mw_resolutionSourceHash := Some sourceHash, mw_resolutionSourceUri := Some sourceUri,
            mw_closeAt := Some closeAt, mw_eventStartsAt := startsAt, mw_outcomeDeadlineAt := deadline,
            mw_creatorTreasury := Some treasury, mw_featureFlags := Some flags\<rparr>)) (pj_markets s)\<rparr>))"

definition project_purchase ::
  "abi \<Rightarrow> indexed_event \<Rightarrow> string \<Rightarrow> string \<Rightarrow> int \<Rightarrow> int \<Rightarrow> int \<Rightarrow> int \<Rightarrow> projections \<Rightarrow>
     projections written" where
  "project_purchase ab e market buyer outcomeId units payment paidPrincipal s =
     on_market ab e ''purchase'' market s (\<lambda>key cur.
       recordActivity ab e
         ((activity e AK_primary_purchased market (Some buyer))
            \<lparr>aw_outcomeId := Some outcomeId, aw_units := Some units, aw_amount := Some payment\<rparr>) []
         (s\<lparr>pj_markets := map_set key
           (touched e (cur\<lparr>mw_primaryFilledUnits := mw_primaryFilledUnits cur + units,
                            mw_primaryPayment := paidPrincipal\<rparr>)) (pj_markets s)\<rparr>))"

fun terminalActivityKind :: "terminal_kind \<Rightarrow> activity_kind" where
  "terminalActivityKind TK_resolved = AK_market_resolved"
| "terminalActivityKind TK_voided_creator = AK_market_voided_creator"
| "terminalActivityKind TK_voided_no_winning_supply = AK_market_voided_no_winning_supply"
| "terminalActivityKind TK_voided_timeout = AK_market_voided_timeout"

definition holders :: "int \<Rightarrow> string \<Rightarrow> projections \<Rightarrow> string list" where
  "holders chainId market s =
     map pw_owner (filter (\<lambda>p. pw_chainId p = chainId \<and> pw_vault p = market \<and> 0 < pw_balance p)
       (map_values (pj_positions s)))"

definition project_terminal ::
  "abi \<Rightarrow> indexed_event \<Rightarrow> string \<Rightarrow> terminal_kind \<Rightarrow> string option \<Rightarrow> int \<Rightarrow> int \<Rightarrow> int option \<Rightarrow>
     string option \<Rightarrow> projections \<Rightarrow> projections written" where
  "project_terminal ab e market kind caller state reason win evidence s =
     on_market ab e ''terminal'' market s (\<lambda>key cur.
       with_value (case evidence of None \<Rightarrow> Inr None | Some h \<Rightarrow> evidenceUriFromHash (ab_bytes ab) h) s (\<lambda>uri.
         recordActivity ab e (activity e (terminalActivityKind kind) market caller)
           (mw_creator cur # holders (ev_chainId e) market s)
           (s\<lparr>pj_markets := map_set key
             (touched e (cur\<lparr>mw_state := state, mw_voidReason := reason, mw_winningOutcome := win,
                              mw_evidenceHash := evidence, mw_evidenceUri := uri\<rparr>)) (pj_markets s)\<rparr>)))"

definition project_listing ::
  "abi \<Rightarrow> indexed_event \<Rightarrow> string \<Rightarrow> string \<Rightarrow> string \<Rightarrow> int \<Rightarrow> int \<Rightarrow> int \<Rightarrow> int \<Rightarrow> projections \<Rightarrow>
     projections written" where
  "project_listing ab e listing vault seller outcomeId amount price expires s =
     recordActivity ab e
       ((activity e AK_listing_created vault (Some seller))
          \<lparr>aw_outcomeId := Some outcomeId, aw_listingId := Some listing, aw_units := Some amount,
           aw_amount := Some price\<rparr>) []
       (s\<lparr>pj_listings := map_set (hexKey (ev_chainId e) listing)
         \<lparr>lw_chainId = ev_chainId e, lw_listingId = listing, lw_vault = vault, lw_seller = seller,
          lw_outcomeId = outcomeId, lw_remainingUnits = amount, lw_unitPrice = price,
          lw_expiresAt = expires, lw_active = True, lw_createdBlock = ev_blockNumber e,
          lw_updatedBlock = ev_blockNumber e, lw_status = ev_status e\<rparr> (pj_listings s)\<rparr>)"

definition project_fill ::
  "abi \<Rightarrow> indexed_event \<Rightarrow> string \<Rightarrow> string \<Rightarrow> string \<Rightarrow> int \<Rightarrow> int \<Rightarrow> int \<Rightarrow> int \<Rightarrow> int \<Rightarrow> int \<Rightarrow>
     projections \<Rightarrow> projections written" where
  "project_fill ab e listing buyer seller units gross proceeds platformFee creatorFee remaining s =
     (let key = hexKey (ev_chainId e) listing in
      case map_get (pj_listings s) key of
        None \<Rightarrow> fail (JsError (''fill references unknown listing '' @ listing)) s
      | Some l \<Rightarrow>
          recordActivity ab e
            ((activity e AK_listing_filled (lw_vault l) (Some buyer))
               \<lparr>aw_counterparty := Some seller, aw_outcomeId := Some (lw_outcomeId l),
                aw_listingId := Some listing, aw_units := Some units, aw_amount := Some gross\<rparr>) []
            (s\<lparr>pj_listings := map_set key
                 (l\<lparr>lw_remainingUnits := remaining, lw_active := (remaining \<noteq> 0),
                    lw_updatedBlock := ev_blockNumber e, lw_status := ev_status e\<rparr>) (pj_listings s),
               pj_fills := map_set (eventKey e)
                 \<lparr>fw_chainId = ev_chainId e, fw_transactionHash = ev_transactionHash e,
                  fw_logIndex = ev_logIndex e, fw_listingId = listing, fw_vault = lw_vault l,
                  fw_buyer = buyer, fw_seller = seller, fw_filledUnits = units, fw_gross = gross,
                  fw_sellerProceeds = Some proceeds, fw_platformFee = Some platformFee,
                  fw_creatorFee = Some creatorFee, fw_blockNumber = ev_blockNumber e,
                  fw_status = ev_status e\<rparr> (pj_fills s)\<rparr>))"

fun close_activity :: "close_kind \<Rightarrow> activity_kind" where
  "close_activity CK_cancelled = AK_listing_cancelled"
| "close_activity CK_terminal_returned = AK_terminal_listing_returned"

definition project_closed ::
  "abi \<Rightarrow> indexed_event \<Rightarrow> string \<Rightarrow> close_kind \<Rightarrow> string \<Rightarrow> string \<Rightarrow> projections \<Rightarrow>
     projections written" where
  "project_closed ab e listing kind seller caller s =
     (let key = hexKey (ev_chainId e) listing in
      case map_get (pj_listings s) key of
        None \<Rightarrow> fail (JsError (''close references unknown listing '' @ listing)) s
      | Some l \<Rightarrow>
          recordActivity ab e
            ((activity e (close_activity kind) (lw_vault l) (Some caller))
               \<lparr>aw_counterparty := (if caller = seller then None else Some seller),
                aw_outcomeId := Some (lw_outcomeId l), aw_listingId := Some listing\<rparr>) []
            (s\<lparr>pj_listings := map_set key
               (l\<lparr>lw_remainingUnits := 0, lw_active := False, lw_updatedBlock := ev_blockNumber e,
                  lw_status := ev_status e\<rparr>) (pj_listings s)\<rparr>))"

definition project_delta ::
  "abi \<Rightarrow> indexed_event \<Rightarrow> string \<Rightarrow> string \<Rightarrow> int \<Rightarrow> int \<Rightarrow> projections \<Rightarrow> projections written" where
  "project_delta ab e vault own outcomeId delta s =
     with_value (positionKey ab (ev_chainId e) vault own outcomeId) s (\<lambda>key.
       let balance = (case map_get (pj_positions s) key of None \<Rightarrow> 0 | Some p \<Rightarrow> pw_balance p) + delta in
       if balance < 0 then fail (JsError ''position projection would become negative'') s
       else ok (s\<lparr>pj_positions := map_set key
         \<lparr>pw_chainId = ev_chainId e, pw_vault = vault, pw_owner = own, pw_outcomeId = outcomeId,
          pw_balance = balance, pw_updatedBlock = ev_blockNumber e, pw_status = ev_status e,
          pw_marketState = fst (positionMarketSnapshot None),
          pw_winningOutcome = snd (positionMarketSnapshot None)\<rparr> (pj_positions s)\<rparr>))"

definition claimActivityKind :: "string \<Rightarrow> activity_kind outcome" where
  "claimActivityKind v =
     (if v = ''winner'' then Inr AK_winner_claimed
      else if v = ''early-bird'' then Inr AK_early_bird_claimed
      else if v = ''principal-refund'' then Inr AK_principal_refunded
      else if v = ''timeout-bonus'' then Inr AK_timeout_bonus_claimed
      else Inl (RangeError (''unknown claim kind '' @ v)))"

definition project_claim ::
  "abi \<Rightarrow> indexed_event \<Rightarrow> string \<Rightarrow> string \<Rightarrow> string \<Rightarrow> string \<Rightarrow> int \<Rightarrow> int \<Rightarrow> projections \<Rightarrow>
     projections written" where
  "project_claim ab e vault own caller claimKind units amount s =
     (let s1 = s\<lparr>pj_claims := map_set (eventKey e)
            \<lparr>cw_chainId = ev_chainId e, cw_transactionHash = ev_transactionHash e,
             cw_logIndex = ev_logIndex e, cw_vault = vault, cw_owner = own, cw_caller = caller,
             cw_claimKind = claimKind, cw_units = units, cw_amount = amount,
             cw_blockNumber = ev_blockNumber e, cw_status = ev_status e\<rparr> (pj_claims s)\<rparr>
      in with_value (claimActivityKind claimKind) s1 (\<lambda>kind.
           recordActivity ab e
             ((activity e kind vault (Some caller))
                \<lparr>aw_counterparty := (if caller = own then None else Some own),
                 aw_units := Some units, aw_amount := Some amount\<rparr>) [] s1))"

fun applyMutation :: "abi \<Rightarrow> indexed_event \<Rightarrow> mutation \<Rightarrow> projections \<Rightarrow> projections written" where
  "applyMutation ab e (MarketCreated m c d b) s = project_created ab e m c d b s"
| "applyMutation ab e (MarketInitialized m c d n ca cl st dl w cap b) s =
     project_initialized ab e m c d n ca cl st dl w cap b s"
| "applyMutation ab e (MarketMetadata m rh u sh su cl st dl eb t fl) s =
     project_metadata ab e m rh u sh su cl st dl t fl s"
| "applyMutation ab e (PrimaryPurchased m b oid u p w tp) s = project_purchase ab e m b oid u p tp s"
| "applyMutation ab e (MarketTerminal m k c st r w h) s = project_terminal ab e m k c st r w h s"
| "applyMutation ab e (ListingCreated l v sl oid a p x) s = project_listing ab e l v sl oid a p x s"
| "applyMutation ab e (ListingFilled l b sl u g sp pf cf r) s = project_fill ab e l b sl u g sp pf cf r s"
| "applyMutation ab e (ListingClosed l k sl c) s = project_closed ab e l k sl c s"
| "applyMutation ab e (PositionDelta v w oid d) s = project_delta ab e v w oid d s"
| "applyMutation ab e (ClaimMade v w c k u a) s = project_claim ab e v w c k u a s"

definition project :: "abi \<Rightarrow> indexed_event \<Rightarrow> projections \<Rightarrow> projections written" where
  "project ab e s =
     with_value (deriveMutations ab e TimeV2) s (\<lambda>ms. for_each (applyMutation ab e) ms s)"

definition clearProjections :: "int \<Rightarrow> projections \<Rightarrow> projections" where
  "clearProjections chainId s =
     (let keep = (\<lambda>key. \<not> starts_with (dec chainId @ '':'') key) in
      \<lparr>pj_registered = filter (\<lambda>p. keep (fst p)) (pj_registered s),
       pj_markets = filter (\<lambda>p. keep (fst p)) (pj_markets s),
       pj_listings = filter (\<lambda>p. keep (fst p)) (pj_listings s),
       pj_fills = filter (\<lambda>p. keep (fst p)) (pj_fills s),
       pj_positions = filter (\<lambda>p. keep (fst p)) (pj_positions s),
       pj_claims = filter (\<lambda>p. keep (fst p)) (pj_claims s),
       pj_activities = filter (\<lambda>p. keep (fst p)) (pj_activities s),
       pj_participants = filter (\<lambda>p. keep (fst p)) (pj_participants s)\<rparr>)"


section \<open>Operations of the store\<close>

definition store_project :: "abi \<Rightarrow> indexed_event \<Rightarrow> memory_store \<Rightarrow> memory_store written" where
  "store_project ab e s =
     (let (err, p) = project ab e (ms_projections s) in (err, s\<lparr>ms_projections := p\<rparr>))"

definition checkpoint_of :: "int \<Rightarrow> memory_store \<Rightarrow> chain_checkpoint option" where
  "checkpoint_of chainId s = map_get (ms_checkpoints s) chainId"

definition canonicalBlock :: "int \<Rightarrow> int \<Rightarrow> memory_store \<Rightarrow> canonical_block option" where
  "canonicalBlock chainId blockNumber s = map_get (ms_blocks s) (blockKey chainId blockNumber)"

definition to_block_desc :: "scan_range \<Rightarrow> scan_range \<Rightarrow> int" where
  "to_block_desc a b =
     (if sr_toBlock a < sr_toBlock b then 1 else if sr_toBlock b < sr_toBlock a then -1 else 0)"

interpretation range_order: comparator to_block_desc
  by unfold_locales (auto simp: to_block_desc_def split: if_splits)

definition scanRanges :: "int \<Rightarrow> memory_store \<Rightarrow> scan_range list" where
  "scanRanges chainId s =
     js_sort to_block_desc (filter (\<lambda>r. sr_chainId r = chainId) (map_values (ms_ranges s)))"

definition registeredMarkets :: "int \<Rightarrow> memory_store \<Rightarrow> string list" where
  "registeredMarkets chainId s =
     sort (map snd (filter (\<lambda>p. starts_with (dec chainId @ '':'') (fst p))
       (pj_registered (ms_projections s))))"

text \<open>One anchor of a batch: a block already stored under another hash is a conflict.\<close>

definition put_anchor :: "canonical_block \<Rightarrow> memory_store \<Rightarrow> memory_store written" where
  "put_anchor b s =
     (case canonicalBlock (cb_chainId b) (cb_blockNumber b) s of
        Some old \<Rightarrow>
          if cb_blockHash old \<noteq> cb_blockHash b
          then fail (JsError (''canonical hash conflict at block '' @ dec (cb_blockNumber b))) s
          else ok (s\<lparr>ms_blocks := map_set (blockKey (cb_chainId b) (cb_blockNumber b)) b (ms_blocks s)\<rparr>)
      | None \<Rightarrow> ok (s\<lparr>ms_blocks := map_set (blockKey (cb_chainId b) (cb_blockNumber b)) b (ms_blocks s)\<rparr>))"

text \<open>One event: it must belong to a stored block, and a repeated event is ignored.\<close>

definition put_event :: "abi \<Rightarrow> indexed_event \<Rightarrow> memory_store \<Rightarrow> memory_store written" where
  "put_event ab e s =
     (if map_option cb_blockHash (canonicalBlock (ev_chainId e) (ev_blockNumber e) s) \<noteq> Some (ev_blockHash e)
      then fail (JsError (''event hash does not match canonical block '' @ dec (ev_blockNumber e))) s
      else if map_has (ms_events s) (eventKey e) then ok s
      else store_project ab e (s\<lparr>ms_events := map_set (eventKey e) e (ms_events s)\<rparr>))"

definition sameRange :: "scan_range \<Rightarrow> scan_range \<Rightarrow> bool" where
  "sameRange a b =
     (sr_chainId a = sr_chainId b \<and> sr_fromBlock a = sr_fromBlock b \<and> sr_toBlock a = sr_toBlock b \<and>
      map_option ck_blockNumber (sr_predecessor a) = map_option ck_blockNumber (sr_predecessor b) \<and>
      map_option ck_blockHash (sr_predecessor a) = map_option ck_blockHash (sr_predecessor b) \<and>
      sr_endBlockHash a = sr_endBlockHash b \<and> sr_status a = sr_status b \<and> sr_mode a = sr_mode b)"

text \<open>Whether a range continues the locked checkpoint; the error is the one the source throws.\<close>

definition continues :: "chain_checkpoint option \<Rightarrow> scan_range \<Rightarrow> unit outcome" where
  "continues current r =
     (case current of
        None \<Rightarrow>
          require (sr_predecessor r = None)
            (JsError ''first canonical range must not declare a predecessor'')
      | Some c \<Rightarrow>
          require (map_option ck_blockNumber (sr_predecessor r) = Some (ck_blockNumber c) \<and>
                   map_option ck_blockHash (sr_predecessor r) = Some (ck_blockHash c) \<and>
                   sr_fromBlock r = ck_blockNumber c + 1)
            (JsError ''canonical batch does not continue the locked checkpoint''))"

definition overlaps :: "scan_range \<Rightarrow> memory_store \<Rightarrow> bool" where
  "overlaps r s =
     list_ex (\<lambda>i. sr_chainId i = sr_chainId r \<and> sr_fromBlock i \<le> sr_toBlock r \<and>
                  sr_fromBlock r \<le> sr_toBlock i) (map_values (ms_ranges s))"

definition already_applied :: "canonical_batch \<Rightarrow> memory_store \<Rightarrow> bool" where
  "already_applied b s =
     (case (map_get (ms_ranges s) (rangeKey (sr_chainId (bt_range b)) (sr_toBlock (bt_range b))),
            checkpoint_of (sr_chainId (bt_range b)) s) of
        (Some r, Some c) \<Rightarrow>
          ck_blockNumber c = ck_blockNumber (bt_checkpoint b) \<and>
          ck_blockHash c = ck_blockHash (bt_checkpoint b) \<and> sameRange r (bt_range b)
      | _ \<Rightarrow> False)"

definition commit_range :: "canonical_batch \<Rightarrow> memory_store \<Rightarrow> memory_store written" where
  "commit_range b s =
     (let c = bt_checkpoint b; r = bt_range b in
      if map_option cb_blockHash (canonicalBlock (ck_chainId c) (ck_blockNumber c) s) \<noteq> Some (ck_blockHash c)
      then fail (JsError ''checkpoint does not match the persisted canonical block'') s
      else ok (s\<lparr>ms_ranges := map_set (rangeKey (sr_chainId r) (sr_toBlock r)) r (ms_ranges s),
                 ms_checkpoints := map_set (ck_chainId c) c (ms_checkpoints s)\<rparr>))"

definition applyBatch :: "abi \<Rightarrow> canonical_batch \<Rightarrow> memory_store \<Rightarrow> memory_store written" where
  "applyBatch ab b s =
     with_value (validateCanonicalBatch b) s (\<lambda>_.
       if already_applied b s then ok s
       else with_value (continues (checkpoint_of (sr_chainId (bt_range b)) s) (bt_range b)) s (\<lambda>_.
         if overlaps (bt_range b) s
         then fail (JsError ''canonical scan range overlaps committed history'') s
         else and_then (for_each put_anchor (bt_anchors b) s) (\<lambda>s1.
                and_then (for_each (put_event ab) (bt_events b) s1) (commit_range b))))"

text \<open>The deprecated overload for callers that predate canonical batches.\<close>

definition applyLegacy ::
  "abi \<Rightarrow> indexed_event list \<Rightarrow> canonical_block list \<Rightarrow> chain_checkpoint option \<Rightarrow> memory_store \<Rightarrow>
     memory_store written" where
  "applyLegacy ab es blocks checkpoint s =
     (case checkpoint of
        None \<Rightarrow> fail (JsError ''legacy checkpoint is required'') s
      | Some c \<Rightarrow>
          (case checkpoint_of (ck_chainId c) s of
             Some current \<Rightarrow>
               if ck_blockNumber c \<le> ck_blockNumber current
               then and_then (for_each put_anchor blocks s) (for_each (put_event ab) es)
               else with_value (legacyDenseBatch es blocks c (Some current)) s (\<lambda>b. applyBatch ab b s)
           | None \<Rightarrow> with_value (legacyDenseBatch es blocks c None) s (\<lambda>b. applyBatch ab b s)))"

definition survives :: "int \<Rightarrow> int option \<Rightarrow> int \<Rightarrow> int \<Rightarrow> bool" where
  "survives chainId limit c n = (\<not> (c = chainId \<and> (case limit of None \<Rightarrow> True | Some b \<Rightarrow> b < n)))"

definition truncate_after :: "int \<Rightarrow> int option \<Rightarrow> memory_store \<Rightarrow> memory_store" where
  "truncate_after chainId limit s =
     s\<lparr>ms_checkpoints := AList.delete chainId (ms_checkpoints s),
       ms_ranges := filter (\<lambda>p. survives chainId limit (sr_chainId (snd p)) (sr_toBlock (snd p))) (ms_ranges s),
       ms_blocks := filter (\<lambda>p. survives chainId limit (cb_chainId (snd p)) (cb_blockNumber (snd p))) (ms_blocks s),
       ms_events := filter (\<lambda>p. survives chainId limit (ev_chainId (snd p)) (ev_blockNumber (snd p))) (ms_events s)\<rparr>"

definition chain_events :: "int \<Rightarrow> memory_store \<Rightarrow> indexed_event list" where
  "chain_events chainId s =
     js_sort compareEvents (filter (\<lambda>e. ev_chainId e = chainId) (map_values (ms_events s)))"

definition rollbackAfter :: "abi \<Rightarrow> int \<Rightarrow> int option \<Rightarrow> memory_store \<Rightarrow> memory_store written" where
  "rollbackAfter ab chainId limit s =
     (let s1 = truncate_after chainId limit s;
          s2 = s1\<lparr>ms_projections := clearProjections chainId (ms_projections s1)\<rparr>
      in and_then (for_each (store_project ab) (chain_events chainId s2) s2) (\<lambda>s3.
           case limit of
             None \<Rightarrow> ok s3
           | Some n \<Rightarrow>
               (case canonicalBlock chainId n s3 of
                  None \<Rightarrow> fail (JsError ''rollback ancestor canonical block is missing'') s3
                | Some b \<Rightarrow>
                    ok (s3\<lparr>ms_checkpoints := map_set chainId
                      \<lparr>ck_chainId = chainId, ck_blockNumber = n, ck_blockHash = cb_blockHash b\<rparr>
                      (ms_checkpoints s3)\<rparr>))))"

definition eventCount :: "int \<Rightarrow> memory_store \<Rightarrow> nat" where
  "eventCount chainId s = length (filter (\<lambda>e. ev_chainId e = chainId) (map_values (ms_events s)))"

definition blockCount :: "int \<Rightarrow> memory_store \<Rightarrow> nat" where
  "blockCount chainId s = length (filter (\<lambda>b. cb_chainId b = chainId) (map_values (ms_blocks s)))"

end
