(* ===== verification/Chain_View.thy ===== *)
theory Chain_View
  imports Memory_Store
begin

text \<open>
  The read model of one chain depends on that chain only: every projection step acts on the part of the
  Maps whose keys carry its chain, in the same way whatever the other chains hold. Rollback clears and
  rebuilds one chain, so its correctness rests on these lemmas.
\<close>

section \<open>Running writes\<close>

lemma and_then_ok [simp]: "and_then (ok s) g = g s"
  by (simp add: and_then_def ok_def)

lemma and_then_fail [simp]: "and_then (fail e s) g = fail e s"
  by (simp add: and_then_def fail_def)

lemma with_value_Inr [simp]: "with_value (Inr a) s g = g a"
  by (simp add: with_value_def)

lemma with_value_Inl [simp]: "with_value (Inl e) s g = fail e s"
  by (simp add: with_value_def)

lemma snd_ok [simp]: "snd (ok s) = s" and fst_ok [simp]: "fst (ok s) = None"
  by (simp_all add: ok_def)

lemma snd_fail [simp]: "snd (fail e s) = s" and fst_fail [simp]: "fst (fail e s) = Some e"
  by (simp_all add: fail_def)

lemma ok_eq [simp]: "ok s = (err, s') \<longleftrightarrow> err = None \<and> s' = s"
  by (auto simp: ok_def)

lemma fail_eq [simp]: "fail e s = (err, s') \<longleftrightarrow> err = Some e \<and> s' = s"
  by (auto simp: fail_def)

lemma and_then_success:
  "and_then r g = (None, s') \<longleftrightarrow> (\<exists>s1. r = (None, s1) \<and> g s1 = (None, s'))"
  by (cases r) (auto simp: and_then_def split: option.splits)

lemma with_value_success:
  "with_value v s g = (None, s') \<longleftrightarrow> (\<exists>a. v = Inr a \<and> g a = (None, s'))"
  by (auto simp: with_value_def split: sum.splits)

lemma for_each_append:
  "for_each g (xs @ ys) s = and_then (for_each g xs s) (for_each g ys)"
  by (induction xs arbitrary: s) (auto simp: and_then_def ok_def split: option.splits)

text \<open>An invariant of every write is one of the whole loop, whether it completes or throws.\<close>

lemma for_each_invariant:
  assumes "\<And>x s. x \<in> set xs \<Longrightarrow> I s \<Longrightarrow> I (snd (g x s))" "I s"
  shows "I (snd (for_each g xs s))"
  using assms
proof (induction xs arbitrary: s)
  case (Cons x xs)
  have "I (snd (g x s))" using Cons.prems by simp
  then show ?case using Cons by (auto simp: and_then_def split: option.splits)
qed simp

section \<open>The part of a chain\<close>

definition chain_key :: "int \<Rightarrow> string \<Rightarrow> bool" where
  "chain_key c key = starts_with (dec c @ '':'') key"

definition chain_part :: "int \<Rightarrow> (string, 'v) jsmap \<Rightarrow> (string, 'v) jsmap" where
  "chain_part c m = filter (\<lambda>p. chain_key c (fst p)) m"

definition chain_view :: "int \<Rightarrow> projections \<Rightarrow> projections" where
  "chain_view c p = \<lparr>pj_registered = chain_part c (pj_registered p), pj_markets = chain_part c (pj_markets p),
     pj_listings = chain_part c (pj_listings p), pj_fills = chain_part c (pj_fills p),
     pj_positions = chain_part c (pj_positions p), pj_claims = chain_part c (pj_claims p),
     pj_activities = chain_part c (pj_activities p), pj_participants = chain_part c (pj_participants p)\<rparr>"

lemma chain_part_set [simp]:
  "chain_part c (map_set k v m) = (if chain_key c k then map_set k v (chain_part c m) else chain_part c m)"
  by (simp add: chain_part_def filter_update)

lemma chain_part_get [simp]: "map_get (chain_part c m) k = (if chain_key c k then map_get m k else None)"
  by (simp add: chain_part_def map_of_filter_key)

lemma chain_part_has [simp]: "map_has (chain_part c m) k \<longleftrightarrow> chain_key c k \<and> map_has m k"
  by (simp add: map_has_def)

lemma chain_key_unique: "chain_key c k \<Longrightarrow> chain_key c' k \<longleftrightarrow> c' = c"
  by (auto simp: chain_key_def starts_with_iff)

lemma chain_part_twice: "chain_part c (chain_part c' m) = (if c = c' then chain_part c m else [])"
  by (auto simp: chain_part_def filter_empty_conv chain_key_unique cong: conj_cong filter_cong)

lemma chain_view_twice: "chain_view c (chain_view c' p) = (if c = c' then chain_view c p else no_projections)"
  by (simp add: chain_view_def chain_part_twice no_projections_def)

lemma chain_view_none [simp]: "chain_view c no_projections = no_projections"
  by (simp add: chain_view_def no_projections_def chain_part_def)

lemma chain_part_clear:
  "chain_part c (filter (\<lambda>p. \<not> chain_key c' (fst p)) m) = (if c = c' then [] else chain_part c m)"
  by (auto simp: chain_part_def filter_empty_conv chain_key_unique intro: filter_cong)

lemma chain_view_clear:
  "chain_view c (clearProjections c' p) = (if c = c' then no_projections else chain_view c p)"
  by (simp add: chain_view_def clearProjections_def no_projections_def Let_def chain_part_clear
        flip: chain_key_def)

lemma chain_key_keys [simp]:
  "chain_key c (hexKey c' h) \<longleftrightarrow> c = c'"
  "chain_key c (eventKey e) \<longleftrightarrow> c = ev_chainId e"
  "chain_key c (dec c' @ CHR '':'' # t) \<longleftrightarrow> c = c'"
  by (simp_all add: chain_key_def hexKey_def eventKey_def)

lemma addressKey_chain: "addressKey ab c a = Inr k \<Longrightarrow> chain_key c' k \<longleftrightarrow> c' = c"
  by (auto simp: addressKey_def)

lemma positionKey_chain: "positionKey ab c v w i = Inr k \<Longrightarrow> chain_key c' k \<longleftrightarrow> c' = c"
  by (auto simp: positionKey_def)

section \<open>Balances\<close>

text \<open>Every stored position is under a key of its own chain, with a balance that is not negative.\<close>

definition positions_ok :: "projections \<Rightarrow> bool" where
  "positions_ok p = list_all (\<lambda>(k, v). chain_key (pw_chainId v) k \<and> 0 \<le> pw_balance v) (pj_positions p)"

lemma positions_ok_none [simp]: "positions_ok no_projections"
  by (simp add: positions_ok_def no_projections_def)

lemma positions_ok_clear: "positions_ok p \<Longrightarrow> positions_ok (clearProjections c p)"
  by (auto simp: positions_ok_def list_all_iff clearProjections_def Let_def)

lemma holders_part:
  assumes "list_all (\<lambda>(k, v). chain_key (pw_chainId v) k \<and> 0 \<le> pw_balance v) m"
  shows "filter (\<lambda>v. pw_chainId v = c \<and> P v) (map snd (chain_part c m)) =
         filter (\<lambda>v. pw_chainId v = c \<and> P v) (map snd m)"
proof -
  have "chain_key c (fst q)" if "q \<in> set m" "pw_chainId (snd q) = c" for q
    using assms that by (auto simp: list_all_iff)
  then show ?thesis
    by (auto simp: chain_part_def filter_map comp_def intro!: arg_cong [where f = "map _"] filter_cong)
qed

section \<open>Writes local to a chain\<close>

definition local_write :: "int \<Rightarrow> (projections \<Rightarrow> projections written) \<Rightarrow> bool" where
  "local_write c g = (\<forall>p. positions_ok p \<longrightarrow>
     g (chain_view c p) = (fst (g p), chain_view c (snd (g p))) \<and>
     (\<forall>c'. c' \<noteq> c \<longrightarrow> chain_view c' (snd (g p)) = chain_view c' p) \<and>
     positions_ok (snd (g p)))"

lemma local_writeD:
  assumes "local_write c g" "positions_ok p"
  shows "g (chain_view c p) = (fst (g p), chain_view c (snd (g p)))"
    and "c' \<noteq> c \<Longrightarrow> chain_view c' (snd (g p)) = chain_view c' p"
    and "positions_ok (snd (g p))"
  using assms by (auto simp: local_write_def)

lemma local_ok [intro]: "local_write c ok"
  by (simp add: local_write_def ok_def)

lemma positions_ok_view: "positions_ok p \<Longrightarrow> positions_ok (chain_view c p)"
  by (auto simp: positions_ok_def list_all_iff chain_view_def chain_part_def)

lemma local_and_then:
  assumes "local_write c g" "local_write c h"
  shows "local_write c (\<lambda>p. and_then (g p) h)"
  unfolding local_write_def
proof (intro allI impI)
  fix p assume p: "positions_ok p"
  show "and_then (g (chain_view c p)) h = (fst (and_then (g p) h), chain_view c (snd (and_then (g p) h))) \<and>
      (\<forall>c'. c' \<noteq> c \<longrightarrow> chain_view c' (snd (and_then (g p) h)) = chain_view c' p) \<and>
      positions_ok (snd (and_then (g p) h))"
    using local_writeD [OF assms(1) p] local_writeD [OF assms(2) local_writeD(3) [OF assms(1) p]]
    by (auto simp: and_then_def split: option.splits)
qed

lemma local_for_each:
  "(\<And>x. x \<in> set xs \<Longrightarrow> local_write c (g x)) \<Longrightarrow> local_write c (for_each g xs)"
proof (induction xs)
  case (Cons x xs)
  then show ?case using local_and_then [of c "g x" "for_each g xs"] by simp
next
  case Nil
  then show ?case by (auto simp: local_write_def)
qed

text \<open>Each operation only sets keys of its event's chain.\<close>

lemmas record_simps = recordActivity_def Let_def with_value_def fail_def ok_def chain_view_def positions_ok_def

lemma local_created: "local_write (ev_chainId e) (project_created ab e m c d b)"
  by (auto simp: local_write_def project_created_def record_simps addressKey_chain split: sum.splits)

lemma local_initialized:
  "local_write (ev_chainId e) (project_initialized ab e m c d n ca cl st dl w cap b)"
  by (auto simp: local_write_def project_initialized_def record_simps addressKey_chain split: sum.splits)

lemma local_metadata: "local_write (ev_chainId e) (project_metadata ab e m rh u sh su cl st dl t fl)"
  by (auto simp: local_write_def project_metadata_def on_market_def record_simps addressKey_chain
           split: sum.splits option.splits)

lemma local_purchase: "local_write (ev_chainId e) (project_purchase ab e m b oid u p tp)"
  by (auto simp: local_write_def project_purchase_def on_market_def record_simps addressKey_chain
           split: sum.splits option.splits)

lemma local_listing: "local_write (ev_chainId e) (project_listing ab e l v sl oid a p x)"
  by (auto simp: local_write_def project_listing_def record_simps split: sum.splits)

lemma local_fill: "local_write (ev_chainId e) (project_fill ab e l b sl u g sp pf cf r)"
  by (auto simp: local_write_def project_fill_def record_simps split: sum.splits option.splits)

lemma local_closed: "local_write (ev_chainId e) (project_closed ab e l k sl c)"
  by (auto simp: local_write_def project_closed_def record_simps split: sum.splits option.splits)

lemma local_claim: "local_write (ev_chainId e) (project_claim ab e v w c k u a)"
  by (auto simp: local_write_def project_claim_def record_simps split: sum.splits)

lemma local_delta: "local_write (ev_chainId e) (project_delta ab e v w oid d)"
  by (auto simp: local_write_def project_delta_def record_simps positionKey_chain list_all_iff
           dest!: in_set_update split: sum.splits option.splits)

lemma local_terminal: "local_write (ev_chainId e) (project_terminal ab e m k c st r w h)"
  by (auto simp: local_write_def project_terminal_def on_market_def addressKey_chain holders_def
           holders_part record_simps
           split: sum.splits option.splits)


lemmas local_operations =
  local_created local_initialized local_metadata local_purchase local_terminal
  local_listing local_fill local_closed local_delta local_claim

lemma local_applyMutation: "local_write (ev_chainId e) (applyMutation ab e m)"
  unfolding local_write_def
  by (cases m) (simp_all add: local_operations [unfolded local_write_def])

lemma local_project: "local_write (ev_chainId e) (project ab e)"
proof (cases "deriveMutations ab e TimeV2")
  case (Inl err)
  then show ?thesis by (auto simp: local_write_def project_def)
next
  case (Inr ms)
  then have "project ab e = for_each (applyMutation ab e) ms" by (auto simp: project_def fun_eq_iff)
  then show ?thesis by (simp add: local_for_each local_applyMutation)
qed

end
