(* ===== verification/Memory_Invariant.thy ===== *)
theory Memory_Invariant
  imports Chain_View
begin

text \<open>
  What every operation of the memory store keeps true, also when it throws half way: the Maps are keyed
  by their values, every event, scan range and checkpoint names a block that is stored under its number
  with the same hash, the scan ranges of a chain do not overlap, and no balance is negative.
\<close>

section \<open>The canonical half of the store\<close>

text \<open>A Map whose keys are computed from the values.\<close>

definition keyed :: "('v \<Rightarrow> 'k) \<Rightarrow> ('k, 'v) jsmap \<Rightarrow> bool" where
  "keyed f m = (distinct (map fst m) \<and> list_all (\<lambda>p. fst p = f (snd p)) m)"

lemma keyed_Nil [simp]: "keyed f []"
  by (simp add: keyed_def)

lemma keyed_set: "keyed f m \<Longrightarrow> keyed f (map_set (f v) v m)"
  by (auto simp: keyed_def list_all_iff distinct_update dest!: in_set_update)

lemma keyed_filter: "keyed f m \<Longrightarrow> keyed f (filter P m)"
  by (auto simp: keyed_def list_all_iff distinct_map_filter)

lemma keyed_get: "keyed f m \<Longrightarrow> map_get m k = Some v \<longleftrightarrow> v \<in> set (map_values m) \<and> k = f v"
  by (force simp: keyed_def list_all_iff)

lemma keyed_get_filter:
  "keyed f m \<Longrightarrow> map_get (filter (\<lambda>p. P (snd p)) m) k = Some v \<longleftrightarrow> map_get m k = Some v \<and> P v"
  by (subst keyed_get, rule keyed_filter, assumption, subst keyed_get, assumption) force

lemma keyed_values_set:
  "keyed f m \<Longrightarrow> set (map_values (map_set (f v) v m)) = insert v {w \<in> set (map_values m). f w \<noteq> f v}"
proof -
  assume k: "keyed f m"
  note k' = keyed_set [OF k, of v]
  have "w \<in> set (map_values (map_set (f v) v m)) \<longleftrightarrow> w = v \<or> w \<in> set (map_values m) \<and> f w \<noteq> f v" for w
  proof -
    have "w \<in> set (map_values (map_set (f v) v m)) \<longleftrightarrow> map_get (map_set (f v) v m) (f w) = Some w"
      by (simp only: keyed_get [OF k'] simp_thms)
    also have "\<dots> \<longleftrightarrow> w = v \<or> map_get m (f w) = Some w \<and> f w \<noteq> f v"
      by (auto simp: update_conv')
    finally show ?thesis by (simp only: keyed_get [OF k] simp_thms)
  qed
  then show ?thesis by auto
qed

definition block_key :: "canonical_block \<Rightarrow> string" where
  "block_key b = blockKey (cb_chainId b) (cb_blockNumber b)"

definition range_key :: "scan_range \<Rightarrow> string" where
  "range_key r = rangeKey (sr_chainId r) (sr_toBlock r)"

lemma blockKey_inj [simp]: "blockKey c n = blockKey c' n' \<longleftrightarrow> c = c' \<and> n = n'"
  by (simp add: blockKey_def)

lemma rangeKey_inj [simp]: "rangeKey c n = rangeKey c' n' \<longleftrightarrow> c = c' \<and> n = n'"
  by (simp add: rangeKey_def)

definition hash_at :: "int \<Rightarrow> int \<Rightarrow> memory_store \<Rightarrow> string option" where
  "hash_at c n s = map_option cb_blockHash (canonicalBlock c n s)"

definition keys_ok :: "memory_store \<Rightarrow> bool" where
  "keys_ok s = (keyed block_key (ms_blocks s) \<and> keyed eventKey (ms_events s) \<and>
     keyed range_key (ms_ranges s) \<and> keyed ck_chainId (ms_checkpoints s))"

definition anchored :: "memory_store \<Rightarrow> bool" where
  "anchored s =
     (list_all (\<lambda>e. hash_at (ev_chainId e) (ev_blockNumber e) s = Some (ev_blockHash e)) (map_values (ms_events s)) \<and>
      list_all (\<lambda>r. sr_fromBlock r \<le> sr_toBlock r \<and>
                    hash_at (sr_chainId r) (sr_toBlock r) s = Some (sr_endBlockHash r)) (map_values (ms_ranges s)) \<and>
      list_all (\<lambda>c. hash_at (ck_chainId c) (ck_blockNumber c) s = Some (ck_blockHash c)) (map_values (ms_checkpoints s)))"

definition ranges_apart :: "scan_range \<Rightarrow> scan_range \<Rightarrow> bool" where
  "ranges_apart r r' =
     (sr_chainId r \<noteq> sr_chainId r' \<or> sr_toBlock r < sr_fromBlock r' \<or> sr_toBlock r' < sr_fromBlock r)"

definition ranges_disjoint :: "memory_store \<Rightarrow> bool" where
  "ranges_disjoint s = sorted_wrt ranges_apart (map_values (ms_ranges s))"

definition store_ok :: "memory_store \<Rightarrow> bool" where
  "store_ok s = (keys_ok s \<and> anchored s \<and> ranges_disjoint s \<and> positions_ok (ms_projections s))"


lemma store_ok_empty: "store_ok empty_store"
  by (simp add: store_ok_def keys_ok_def anchored_def ranges_disjoint_def empty_store_def)

lemma put_anchor_hash:
  "keys_ok s \<Longrightarrow> hash_at c n s = Some h \<Longrightarrow> hash_at c n (snd (put_anchor b s)) = Some h"
  by (auto simp: put_anchor_def hash_at_def canonicalBlock_def update_conv split: option.splits)

lemma put_anchor_same:
  "ms_events (snd (put_anchor b s)) = ms_events s" "ms_ranges (snd (put_anchor b s)) = ms_ranges s"
  "ms_checkpoints (snd (put_anchor b s)) = ms_checkpoints s"
  "ms_projections (snd (put_anchor b s)) = ms_projections s"
  by (auto simp: put_anchor_def split: option.splits)

lemma put_anchor_ok: "store_ok s \<Longrightarrow> store_ok (snd (put_anchor b s))"
proof -
  assume s: "store_ok s"
  then have k: "keys_ok s" by (simp add: store_ok_def)
  have "keyed block_key (ms_blocks (snd (put_anchor b s)))"
    using k keyed_set [of block_key "ms_blocks s" b]
    by (auto simp: put_anchor_def keys_ok_def block_key_def split: option.splits)
  then show ?thesis
    using s put_anchor_hash [OF k]
    by (simp add: store_ok_def keys_ok_def anchored_def ranges_disjoint_def put_anchor_same list_all_iff)
qed

lemma project_positions_ok: "positions_ok p \<Longrightarrow> positions_ok (snd (project ab e p))"
  by (rule local_writeD(3) [OF local_project])

lemma put_event_ok: "store_ok s \<Longrightarrow> store_ok (snd (put_event ab e s))"
proof -
  assume s: "store_ok s"
  show ?thesis
  proof (cases "hash_at (ev_chainId e) (ev_blockNumber e) s = Some (ev_blockHash e) \<and>
                \<not> map_has (ms_events s) (eventKey e)")
    case False
    then have "snd (put_event ab e s) = s" by (auto simp: put_event_def hash_at_def)
    then show ?thesis using s by simp
  next
    case True
    let ?s = "s\<lparr>ms_events := map_set (eventKey e) e (ms_events s),
               ms_projections := snd (project ab e (ms_projections s))\<rparr>"
    have eq: "snd (put_event ab e s) = ?s"
      using True by (auto simp: put_event_def hash_at_def store_project_def split: prod.splits)
    have ev: "keyed eventKey (ms_events s)" using s by (simp add: store_ok_def keys_ok_def)
    have h: "hash_at c n ?s = hash_at c n s" for c n
      by (simp add: hash_at_def canonicalBlock_def)
    have "list_all (\<lambda>e. hash_at (ev_chainId e) (ev_blockNumber e) ?s = Some (ev_blockHash e))
        (map_values (map_set (eventKey e) e (ms_events s)))"
      unfolding list_all_iff keyed_values_set [OF ev] h
      using s True by (auto simp: store_ok_def anchored_def list_all_iff)
    then have "anchored ?s"
      using s unfolding store_ok_def anchored_def h by simp
    moreover have "keys_ok ?s" using s keyed_set [OF ev, of e] by (simp add: store_ok_def keys_ok_def)
    moreover have "ranges_disjoint ?s" "positions_ok (ms_projections ?s)"
      using s by (simp_all add: store_ok_def ranges_disjoint_def project_positions_ok)
    ultimately show ?thesis by (simp only: eq store_ok_def)
  qed
qed

lemma put_event_same:
  "ms_blocks (snd (put_event ab e s)) = ms_blocks s" "ms_ranges (snd (put_event ab e s)) = ms_ranges s"
  "ms_checkpoints (snd (put_event ab e s)) = ms_checkpoints s"
  by (auto simp: put_event_def store_project_def split: prod.splits)

lemma put_anchors_ok: "store_ok s \<Longrightarrow> store_ok (snd (for_each put_anchor bs s))"
  by (rule for_each_invariant [where I = store_ok]) (simp_all add: put_anchor_ok)

lemma put_events_ok: "store_ok s \<Longrightarrow> store_ok (snd (for_each (put_event ab) es s))"
  by (rule for_each_invariant [where I = store_ok]) (simp_all add: put_event_ok)

lemma put_anchors_same:
  "ms_events (snd (for_each put_anchor bs s)) = ms_events s"
  "ms_ranges (snd (for_each put_anchor bs s)) = ms_ranges s"
  "ms_checkpoints (snd (for_each put_anchor bs s)) = ms_checkpoints s"
  "ms_projections (snd (for_each put_anchor bs s)) = ms_projections s"
  by (rule for_each_invariant [where I = "\<lambda>t. _ t = _ s"]; simp add: put_anchor_same)+

lemma put_events_same:
  "ms_blocks (snd (for_each (put_event ab) es s)) = ms_blocks s"
  "ms_ranges (snd (for_each (put_event ab) es s)) = ms_ranges s"
  "ms_checkpoints (snd (for_each (put_event ab) es s)) = ms_checkpoints s"
  by (rule for_each_invariant [where I = "\<lambda>t. _ t = _ s"]; simp add: put_event_same)+

lemma and_then_keeps: "I (snd r) \<Longrightarrow> (\<And>s. I s \<Longrightarrow> I (snd (g s))) \<Longrightarrow> I (snd (and_then r g))"
  by (auto simp: and_then_def split: option.splits)

lemma and_then_step:
  "I (snd r) \<Longrightarrow> (\<And>s. I s \<Longrightarrow> J s) \<Longrightarrow> (\<And>s. I s \<Longrightarrow> J (snd (g s))) \<Longrightarrow> J (snd (and_then r g))"
  by (auto simp: and_then_def split: option.splits)

lemma and_then_assoc: "and_then (and_then r g) h = and_then r (\<lambda>s. and_then (g s) h)"
  by (auto simp: and_then_def split: option.splits)

section \<open>A committed batch\<close>

text \<open>A batch that is accepted and committed adds its range and moves the checkpoint to its end.\<close>

lemma applyBatch_cases:
  assumes "applyBatch ab b s = (None, s')"
  obtains (again) "already_applied b s" "s' = s"
  | (commit) s1 s2 where "validateCanonicalBatch b = Inr ()" "\<not> already_applied b s"
      "continues (checkpoint_of (sr_chainId (bt_range b)) s) (bt_range b) = Inr ()"
      "\<not> overlaps (bt_range b) s"
      "for_each put_anchor (bt_anchors b) s = (None, s1)"
      "for_each (put_event ab) (bt_events b) s1 = (None, s2)"
      "hash_at (ck_chainId (bt_checkpoint b)) (ck_blockNumber (bt_checkpoint b)) s2 =
         Some (ck_blockHash (bt_checkpoint b))"
      "s' = s2\<lparr>ms_ranges := map_set (range_key (bt_range b)) (bt_range b) (ms_ranges s2),
                ms_checkpoints := map_set (ck_chainId (bt_checkpoint b)) (bt_checkpoint b) (ms_checkpoints s2)\<rparr>"
  using assms
  by (auto simp: applyBatch_def with_value_success and_then_success commit_range_def Let_def
      hash_at_def range_key_def split: if_splits)

lemma values_set_new: "map_get m k = None \<Longrightarrow> map_values (map_set k v m) = map_values m @ [v]"
  by (induction m) (auto split: if_splits)

lemma commit_range_ok:
  assumes s: "store_ok s" and v: "validateCanonicalBatch b = Inr ()" and o: "\<not> overlaps (bt_range b) s"
  shows "store_ok (snd (commit_range b s))"
proof (cases "hash_at (ck_chainId (bt_checkpoint b)) (ck_blockNumber (bt_checkpoint b)) s =
         Some (ck_blockHash (bt_checkpoint b))")
  case False
  then show ?thesis using s by (simp add: commit_range_def hash_at_def Let_def)
next
  case True
  note parts = validated_parts [OF v]
  let ?r = "bt_range b" and ?c = "bt_checkpoint b"
  let ?s = "s\<lparr>ms_ranges := map_set (range_key ?r) ?r (ms_ranges s),
             ms_checkpoints := map_set (ck_chainId ?c) ?c (ms_checkpoints s)\<rparr>"
  have eq: "snd (commit_range b s) = ?s"
    using True by (auto simp: commit_range_def hash_at_def Let_def range_key_def)
  have k: "keyed range_key (ms_ranges s)" "keyed ck_chainId (ms_checkpoints s)"
    using s by (simp_all add: store_ok_def keys_ok_def)
  have apart: "list_all (\<lambda>i. ranges_apart i ?r) (map_values (ms_ranges s))"
    using o by (auto simp: overlaps_def list_ex_iff list_all_iff ranges_apart_def not_le)
  have fresh: "map_get (ms_ranges s) (range_key ?r) = None"
  proof (rule ccontr)
    assume "map_get (ms_ranges s) (range_key ?r) \<noteq> None"
    then obtain i where "i \<in> set (map_values (ms_ranges s))" "range_key ?r = range_key i"
      using keyed_get [OF k(1)] by blast
    moreover have "ranges_apart i ?r" "sr_fromBlock i \<le> sr_toBlock i"
      using calculation apart s by (auto simp: list_all_iff store_ok_def anchored_def)
    ultimately show False using parts(1) by (auto simp: range_key_def ranges_apart_def)
  qed
  have h: "hash_at c n ?s = hash_at c n s" for c n
    by (simp add: hash_at_def canonicalBlock_def)
  have "list_all (\<lambda>c. hash_at (ck_chainId c) (ck_blockNumber c) s = Some (ck_blockHash c))
      (map_values (map_set (ck_chainId ?c) ?c (ms_checkpoints s)))"
    unfolding list_all_iff keyed_values_set [OF k(2)]
    using s True by (auto simp: store_ok_def anchored_def list_all_iff)
  then have "anchored ?s"
    using s True parts(1,2) unfolding anchored_def h
    by (simp add: store_ok_def anchored_def values_set_new [OF fresh])
  moreover have "keys_ok ?s" using s keyed_set [OF k(1), of ?r] keyed_set [OF k(2), of ?c]
    by (simp add: store_ok_def keys_ok_def)
  moreover have "ranges_disjoint ?s"
    using s apart by (simp add: store_ok_def ranges_disjoint_def values_set_new [OF fresh]
        sorted_wrt_append list_all_iff)
  ultimately show ?thesis using s by (simp add: eq store_ok_def)
qed

lemma overlaps_cong: "ms_ranges s = ms_ranges s' \<Longrightarrow> overlaps r s = overlaps r s'"
  by (simp add: overlaps_def)

lemma applyBatch_ok:
  assumes "store_ok s"
  shows "store_ok (snd (applyBatch ab b s))"
proof (cases "validateCanonicalBatch b = Inr () \<and> \<not> already_applied b s \<and> \<not> overlaps (bt_range b) s \<and>
    continues (checkpoint_of (sr_chainId (bt_range b)) s) (bt_range b) = Inr ()")
  case False
  then show ?thesis
    using assms by (auto simp: applyBatch_def with_value_def split: sum.splits)
next
  case True
  let ?I = "\<lambda>t. store_ok t \<and> ms_ranges t = ms_ranges s"
  have "?I (snd (for_each put_anchor (bt_anchors b) s))"
    using assms by (simp add: put_anchors_ok put_anchors_same)
  then have "?I (snd (and_then (for_each put_anchor (bt_anchors b) s) (for_each (put_event ab) (bt_events b))))"
    by (rule and_then_keeps [where I = ?I]) (simp add: put_events_ok put_events_same)
  then have "store_ok (snd (and_then (and_then (for_each put_anchor (bt_anchors b) s)
      (for_each (put_event ab) (bt_events b))) (commit_range b)))"
  proof (rule and_then_step [where I = ?I])
    fix t assume t: "?I t"
    then have "\<not> overlaps (bt_range b) t" using True overlaps_cong by blast
    then show "store_ok (snd (commit_range b t))" using t True commit_range_ok by blast
  qed simp
  moreover have "applyBatch ab b s = and_then (and_then (for_each put_anchor (bt_anchors b) s)
      (for_each (put_event ab) (bt_events b))) (commit_range b)"
    using True by (simp add: applyBatch_def and_then_assoc)
  ultimately show ?thesis by simp
qed

lemma with_value_keeps: "I s \<Longrightarrow> (\<And>a. v = Inr a \<Longrightarrow> I (snd (g a))) \<Longrightarrow> I (snd (with_value v s g))"
  by (cases v) simp_all

lemma applyLegacy_ok:
  assumes "store_ok s"
  shows "store_ok (snd (applyLegacy ab es bs c s))"
proof -
  have late: "store_ok (snd (and_then (for_each put_anchor bs s) (for_each (put_event ab) es)))"
    by (intro and_then_keeps [where I = store_ok] put_anchors_ok put_events_ok assms)
  have batch: "store_ok (snd (with_value v s (\<lambda>b. applyBatch ab b s)))" for v
    by (intro with_value_keeps [where I = store_ok] applyBatch_ok assms)
  show ?thesis
  proof (cases c)
    case (Some k)
    then show ?thesis
      using late batch by (cases "checkpoint_of (ck_chainId k) s") (simp_all add: applyLegacy_def)
  qed (simp add: applyLegacy_def assms)
qed

section \<open>Rollback\<close>

lemma option_eq_by: "(\<And>b. x = Some b \<longleftrightarrow> y = Some b) \<Longrightarrow> x = y"
  by (cases x; cases y) auto

lemma canonicalBlock_fields:
  "keyed block_key (ms_blocks s) \<Longrightarrow> canonicalBlock c n s = Some b \<longleftrightarrow>
   b \<in> set (map_values (ms_blocks s)) \<and> cb_chainId b = c \<and> cb_blockNumber b = n"
  by (auto simp: canonicalBlock_def keyed_get block_key_def)

lemma canonicalBlock_truncate:
  assumes "keyed block_key (ms_blocks s)"
  shows "canonicalBlock c' n' (truncate_after c n s) = (if survives c n c' n' then canonicalBlock c' n' s else None)"
proof -
  let ?P = "\<lambda>b. survives c n (cb_chainId b) (cb_blockNumber b)"
  have "canonicalBlock c' n' (truncate_after c n s) = Some b \<longleftrightarrow> canonicalBlock c' n' s = Some b \<and> ?P b" for b
    using keyed_get_filter [OF assms, of ?P "blockKey c' n'" b]
    by (simp add: canonicalBlock_def truncate_after_def)
  moreover have "cb_chainId b = c' \<and> cb_blockNumber b = n'" if "canonicalBlock c' n' s = Some b" for b
    using that canonicalBlock_fields [OF assms] by simp
  ultimately show ?thesis by (intro option_eq_by) auto
qed

lemma hash_at_truncate:
  "keyed block_key (ms_blocks s) \<Longrightarrow>
   hash_at c' n' (truncate_after c n s) = (if survives c n c' n' then hash_at c' n' s else None)"
  by (simp add: hash_at_def canonicalBlock_truncate)

lemma truncate_after_ok:
  assumes "store_ok s"
  shows "store_ok (truncate_after c n s)"
proof -
  have k: "keys_ok s" and b: "keyed block_key (ms_blocks s)" using assms by (simp_all add: store_ok_def keys_ok_def)
  have "keys_ok (truncate_after c n s)"
    using k by (auto simp: keys_ok_def truncate_after_def keyed_filter AList.delete_eq)
  moreover have "ranges_disjoint (truncate_after c n s)"
    using assms
    by (simp add: store_ok_def ranges_disjoint_def truncate_after_def sorted_wrt_filter sorted_wrt_map)
  moreover have "anchored (truncate_after c n s)"
    using assms k unfolding anchored_def hash_at_truncate [OF b]
    by (auto simp: store_ok_def anchored_def list_all_iff truncate_after_def survives_def keys_ok_def keyed_def
        AList.delete_eq split: option.splits)
  ultimately show ?thesis using assms by (simp add: store_ok_def truncate_after_def)
qed

lemma store_project_eq:
  "store_project ab e s = (fst (project ab e (ms_projections s)),
     s\<lparr>ms_projections := snd (project ab e (ms_projections s))\<rparr>)"
  by (simp add: store_project_def split: prod.splits)

text \<open>Projecting a list of events through the store only changes its projections.\<close>

lemma replay_store:
  "for_each (store_project ab) es s =
     (fst (for_each (project ab) es (ms_projections s)),
      s\<lparr>ms_projections := snd (for_each (project ab) es (ms_projections s))\<rparr>)"
proof (induction es arbitrary: s)
  case (Cons e es)
  then show ?case by (simp add: and_then_def store_project_eq split: option.splits)
qed (simp add: ok_def)

lemma with_projections_ok:
  "store_ok s \<Longrightarrow> positions_ok p \<Longrightarrow> store_ok (s\<lparr>ms_projections := p\<rparr>)"
  by (simp add: store_ok_def keys_ok_def anchored_def ranges_disjoint_def hash_at_def canonicalBlock_def)

lemma replay_positions_ok: "positions_ok p \<Longrightarrow> positions_ok (snd (for_each (project ab) es p))"
  by (rule for_each_invariant [where I = positions_ok]) (simp_all add: project_positions_ok)

text \<open>The store right after the replay of a rollback.\<close>

definition rebuilt :: "abi \<Rightarrow> int \<Rightarrow> int option \<Rightarrow> memory_store \<Rightarrow> memory_store" where
  "rebuilt ab c n s = (truncate_after c n s)\<lparr>ms_projections :=
     snd (for_each (project ab) (chain_events c (truncate_after c n s)) (clearProjections c (ms_projections s)))\<rparr>"

lemma rollbackAfter_eq:
  "rollbackAfter ab c n s =
     (case fst (for_each (project ab) (chain_events c (truncate_after c n s)) (clearProjections c (ms_projections s))) of
        Some err \<Rightarrow> fail err (rebuilt ab c n s)
      | None \<Rightarrow>
          (case n of
             None \<Rightarrow> ok (rebuilt ab c n s)
           | Some m \<Rightarrow>
               (case hash_at c m (truncate_after c n s) of
                  None \<Rightarrow> fail (JsError ''rollback ancestor canonical block is missing'') (rebuilt ab c n s)
                | Some h \<Rightarrow> ok ((rebuilt ab c n s)\<lparr>ms_checkpoints :=
                    map_set c \<lparr>ck_chainId = c, ck_blockNumber = m, ck_blockHash = h\<rparr>
                      (ms_checkpoints (truncate_after c n s))\<rparr>))))"
  by (auto simp: rollbackAfter_def Let_def replay_store rebuilt_def and_then_def chain_events_def
      truncate_after_def hash_at_def canonicalBlock_def fail_def ok_def split: option.splits)

lemma rebuilt_ok: "store_ok s \<Longrightarrow> store_ok (rebuilt ab c n s)"
  unfolding rebuilt_def
  by (intro with_projections_ok truncate_after_ok replay_positions_ok positions_ok_clear)
     (simp_all add: store_ok_def)

lemma rebuilt_same [simp]:
  "ms_blocks (rebuilt ab c n s) = ms_blocks (truncate_after c n s)"
  "ms_events (rebuilt ab c n s) = ms_events (truncate_after c n s)"
  "ms_ranges (rebuilt ab c n s) = ms_ranges (truncate_after c n s)"
  "ms_checkpoints (rebuilt ab c n s) = ms_checkpoints (truncate_after c n s)"
  by (simp_all add: rebuilt_def)

lemma set_checkpoint_ok:
  assumes "store_ok s" "hash_at c m s = Some h"
  shows "store_ok (s\<lparr>ms_checkpoints := map_set c \<lparr>ck_chainId = c, ck_blockNumber = m, ck_blockHash = h\<rparr>
           (ms_checkpoints s)\<rparr>)"
proof -
  let ?k = "\<lparr>ck_chainId = c, ck_blockNumber = m, ck_blockHash = h\<rparr>"
  have k: "keyed ck_chainId (ms_checkpoints s)" using assms by (simp add: store_ok_def keys_ok_def)
  have v: "set (map_values (map_set c ?k (ms_checkpoints s))) =
      insert ?k {w \<in> set (map_values (ms_checkpoints s)). ck_chainId w \<noteq> c}"
    using keyed_values_set [OF k, of ?k] by simp
  have "list_all (\<lambda>x. hash_at (ck_chainId x) (ck_blockNumber x) s = Some (ck_blockHash x))
      (map_values (map_set c ?k (ms_checkpoints s)))"
    unfolding list_all_iff v using assms by (auto simp: store_ok_def anchored_def list_all_iff)
  moreover have "hash_at c' n' (s\<lparr>ms_checkpoints := X\<rparr>) = hash_at c' n' s" for c' n' X
    by (simp add: hash_at_def canonicalBlock_def)
  ultimately have "anchored (s\<lparr>ms_checkpoints := map_set c ?k (ms_checkpoints s)\<rparr>)"
    using assms(1) by (simp add: store_ok_def anchored_def)
  then show ?thesis
    using assms(1) keyed_set [OF k, of ?k] by (simp add: store_ok_def keys_ok_def ranges_disjoint_def)
qed

lemma rollbackAfter_ok:
  assumes "store_ok s"
  shows "store_ok (snd (rollbackAfter ab c n s))"
proof -
  note r = rebuilt_ok [OF assms, of ab c n]
  have "hash_at c m (rebuilt ab c n s) = hash_at c m (truncate_after c n s)" for m
    by (simp add: hash_at_def canonicalBlock_def)
  then show ?thesis
    using r set_checkpoint_ok [OF r, of c]
    by (auto simp: rollbackAfter_eq split: option.splits)
qed

end
