(* ===== verification/Memory_Replay.thy ===== *)
theory Memory_Replay
  imports Memory_Invariant
begin

text \<open>
  The memory store as a canonical log: when batches arrive in order, the read model of a chain is the
  replay of its stored events, a repeated batch changes nothing, and a rollback to the checkpoint a batch
  started from undoes the batch.
\<close>

section \<open>Order of the events of a chain\<close>

lemma compareEvents_block: "ev_blockNumber a < ev_blockNumber b \<Longrightarrow> compareEvents a b < 0"
  by (simp add: compareEvents_def)

lemma compareEvents_block_le: "compareEvents a b \<le> 0 \<Longrightarrow> ev_blockNumber a \<le> ev_blockNumber b"
  by (auto simp: compareEvents_def split: if_splits)

lemma js_sort_greatest:
  assumes "\<forall>x \<in> set xs. compareEvents x y \<le> 0"
  shows "js_sort compareEvents (xs @ [y]) = js_sort compareEvents xs @ [y]"
proof -
  obtain A B where AB: "js_sort compareEvents xs = A @ B" "js_sort compareEvents (xs @ [y]) = A @ y # B"
    "\<forall>b \<in> set B. compareEvents y b < 0"
    using event_order.js_sort_snoc [of xs y] by blast
  have "B = []"
  proof (rule ccontr)
    assume "B \<noteq> []"
    then obtain b where b: "b \<in> set B" by (cases B) auto
    then have "b \<in> set xs" using AB(1) set_js_sort [of compareEvents xs] by auto
    then show False using assms b AB(3) event_order.cmp_gt by blast
  qed
  then show ?thesis using AB by simp
qed

lemma chain_events_ordered: "in_event_order (chain_events c s)"
  by (simp add: chain_events_def event_order.sorted_js_sort)

lemma set_chain_events: "e \<in> set (chain_events c s) \<longleftrightarrow> e \<in> set (map_values (ms_events s)) \<and> ev_chainId e = c"
  by (auto simp: chain_events_def)

lemma chain_events_new:
  assumes "map_get (ms_events s) (eventKey e) = None"
    "\<forall>x \<in> set (chain_events (ev_chainId e) s). compareEvents x e \<le> 0"
  shows "chain_events c (s\<lparr>ms_events := map_set (eventKey e) e (ms_events s)\<rparr>) =
    (if c = ev_chainId e then chain_events c s @ [e] else chain_events c s)"
proof -
  have "js_sort compareEvents (filter (\<lambda>x. ev_chainId x = ev_chainId e) (map_values (ms_events s)) @ [e]) =
      js_sort compareEvents (filter (\<lambda>x. ev_chainId x = ev_chainId e) (map_values (ms_events s))) @ [e]"
    using assms(2) by (intro js_sort_greatest) (auto simp: chain_events_def)
  then show ?thesis by (auto simp: chain_events_def values_set_new [OF assms(1)])
qed

section \<open>Replay\<close>

definition replayed :: "abi \<Rightarrow> int \<Rightarrow> memory_store \<Rightarrow> bool" where
  "replayed ab c s = (for_each (project ab) (chain_events c s) no_projections =
     (None, chain_view c (ms_projections s)))"

lemma local_replay: "\<forall>e \<in> set es. ev_chainId e = c \<Longrightarrow> local_write c (for_each (project ab) es)"
  by (rule local_for_each) (metis local_project)

lemma put_event_replayed:
  assumes s: "store_ok s" "\<And>c. replayed ab c s"
    and e: "\<forall>x \<in> set (chain_events (ev_chainId e) s). compareEvents x e \<le> 0"
    and put: "put_event ab e s = (None, s')"
  shows "replayed ab c s'"
    and "chain_events c s' = chain_events c s \<or> chain_events c s' = chain_events c s @ [e] \<and> c = ev_chainId e"
proof -
  consider "s' = s"
    | "map_get (ms_events s) (eventKey e) = None"
      "store_project ab e (s\<lparr>ms_events := map_set (eventKey e) e (ms_events s)\<rparr>) = (None, s')"
    using put by (auto simp: put_event_def map_has_def split: if_splits)
  then have "replayed ab c s' \<and>
    (chain_events c s' = chain_events c s \<or> chain_events c s' = chain_events c s @ [e] \<and> c = ev_chainId e)"
  proof cases
    case 2
    let ?p = "ms_projections s" and ?es = "chain_events c s"
    have pr: "fst (project ab e ?p) = None"
      and s': "s' = s\<lparr>ms_events := map_set (eventKey e) e (ms_events s),
                  ms_projections := snd (project ab e ?p)\<rparr>"
      using 2(2) by (auto simp: store_project_eq)
    have ev: "chain_events c s' = (if c = ev_chainId e then ?es @ [e] else ?es)"
      using chain_events_new [OF 2(1) e, of c] by (simp add: s' chain_events_def)
    have pos: "positions_ok ?p" using s(1) by (simp add: store_ok_def)
    note loc = local_writeD [OF local_project [of e ab] pos]
    have "replayed ab c s'"
      using s(2) [of c] loc(1,2) pr
      by (auto simp: replayed_def ev [unfolded s'] s' for_each_append and_then_def ok_def split: option.splits)
    then show ?thesis using ev by auto
  qed (use s(2) in simp)
  then show "replayed ab c s'"
    and "chain_events c s' = chain_events c s \<or> chain_events c s' = chain_events c s @ [e] \<and> c = ev_chainId e"
    by auto
qed

lemma put_events_replayed:
  assumes "store_ok s" "\<And>c. replayed ab c s" "in_event_order es"
    "\<forall>e \<in> set es. \<forall>x \<in> set (chain_events (ev_chainId e) s). compareEvents x e \<le> 0"
    "for_each (put_event ab) es s = (None, s')"
  shows "replayed ab c s'"
  using assms
proof (induction es arbitrary: s)
  case (Cons e es)
  obtain s1 where s1: "put_event ab e s = (None, s1)" "for_each (put_event ab) es s1 = (None, s')"
    using Cons.prems(5) by (auto simp: and_then_success)
  have e: "\<forall>x \<in> set (chain_events (ev_chainId e) s). compareEvents x e \<le> 0" using Cons.prems(4) by simp
  note p = put_event_replayed [OF Cons.prems(1,2) e s1(1)]
  have "store_ok s1" using put_event_ok [OF Cons.prems(1), of ab e] s1(1) by simp
  moreover have "\<forall>d \<in> set es. \<forall>x \<in> set (chain_events (ev_chainId d) s1). compareEvents x d \<le> 0"
  proof (intro ballI)
    fix d x assume d: "d \<in> set es" "x \<in> set (chain_events (ev_chainId d) s1)"
    then have "x = e \<or> x \<in> set (chain_events (ev_chainId d) s)" using p(2) [of "ev_chainId d"] by auto
    then show "compareEvents x d \<le> 0" using d Cons.prems(3,4) by auto
  qed
  ultimately show ?case using Cons.IH [of s1] p(1) Cons.prems(3) s1(2) by simp
qed (simp add: ok_def)


section \<open>Runs of batches and rollbacks\<close>

text \<open>What is stored of a chain lies at or below its checkpoint.\<close>

definition below :: "int \<Rightarrow> memory_store \<Rightarrow> int \<Rightarrow> bool" where
  "below c s n = (case checkpoint_of c s of None \<Rightarrow> False | Some k \<Rightarrow> n \<le> ck_blockNumber k)"

definition within_checkpoint :: "int \<Rightarrow> memory_store \<Rightarrow> bool" where
  "within_checkpoint c s =
     (list_all (\<lambda>e. ev_chainId e = c \<longrightarrow> below c s (ev_blockNumber e)) (map_values (ms_events s)) \<and>
      list_all (\<lambda>b. cb_chainId b = c \<longrightarrow> below c s (cb_blockNumber b)) (map_values (ms_blocks s)) \<and>
      list_all (\<lambda>r. sr_chainId r = c \<longrightarrow> below c s (sr_toBlock r)) (map_values (ms_ranges s)))"

inductive canonical_run :: "abi \<Rightarrow> memory_store \<Rightarrow> bool" for ab where
  run_start: "canonical_run ab empty_store"
| run_batch: "\<lbrakk>canonical_run ab s; in_event_order (bt_events b); applyBatch ab b s = (None, s')\<rbrakk> \<Longrightarrow>
     canonical_run ab s'"
| run_rollback: "\<lbrakk>canonical_run ab s; rollbackAfter ab c n s = (None, s')\<rbrakk> \<Longrightarrow> canonical_run ab s'"

definition run_ok :: "abi \<Rightarrow> memory_store \<Rightarrow> bool" where
  "run_ok ab s = (store_ok s \<and> (\<forall>c. replayed ab c s \<and> within_checkpoint c s))"

lemma put_anchors_new:
  "for_each put_anchor bs s = (None, s') \<Longrightarrow> b \<in> set (map_values (ms_blocks s')) \<Longrightarrow>
   b \<in> set bs \<or> b \<in> set (map_values (ms_blocks s))"
proof (induction bs arbitrary: s)
  case (Cons a bs)
  then obtain s1 where s1: "put_anchor a s = (None, s1)" "for_each put_anchor bs s1 = (None, s')"
    by (auto simp: and_then_success)
  have "b \<in> set (map_values (ms_blocks s1)) \<Longrightarrow> b = a \<or> b \<in> set (map_values (ms_blocks s))"
    using s1(1) by (auto simp: put_anchor_def dest!: in_set_update split: option.splits if_splits)
  then show ?case using Cons.IH [OF s1(2) Cons.prems(2)] by auto
qed (simp add: ok_def)

lemma put_events_new:
  "for_each (put_event ab) es s = (None, s') \<Longrightarrow> e \<in> set (map_values (ms_events s')) \<Longrightarrow>
   e \<in> set es \<or> e \<in> set (map_values (ms_events s))"
proof (induction es arbitrary: s)
  case (Cons a es)
  then obtain s1 where s1: "put_event ab a s = (None, s1)" "for_each (put_event ab) es s1 = (None, s')"
    by (auto simp: and_then_success)
  have "e \<in> set (map_values (ms_events s1)) \<Longrightarrow> e = a \<or> e \<in> set (map_values (ms_events s))"
    using s1(1) by (auto simp: put_event_def store_project_eq dest!: in_set_update split: option.splits if_splits)
  then show ?case using Cons.IH [OF s1(2) Cons.prems(2)] by auto
qed (simp add: ok_def)

text \<open>The parts of an accepted, new batch.\<close>

lemma committed_batch:
  assumes run: "run_ok ab s" and order: "in_event_order (bt_events b)"
    and app: "applyBatch ab b s = (None, s')" and new: "\<not> already_applied b s"
  defines "r \<equiv> bt_range b"
  shows "list_all (anchor_fits r) (bt_anchors b)"
    and "\<And>e. e \<in> set (map_values (ms_events s')) \<Longrightarrow>
           e \<in> set (map_values (ms_events s)) \<or> ev_chainId e = sr_chainId r \<and> sr_fromBlock r \<le> ev_blockNumber e \<and>
             ev_blockNumber e \<le> sr_toBlock r"
    and "\<And>k. checkpoint_of (sr_chainId r) s = Some k \<Longrightarrow> ck_blockNumber k < sr_fromBlock r"
    and "ms_checkpoints s' = map_set (sr_chainId r) (bt_checkpoint b) (ms_checkpoints s)"
    and "ck_blockNumber (bt_checkpoint b) = sr_toBlock r" "ck_chainId (bt_checkpoint b) = sr_chainId r"
    and "sr_fromBlock r \<le> sr_toBlock r"
    and "ms_ranges s' = map_set (range_key r) r (ms_ranges s)"
    and "\<And>d. d \<in> set (map_values (ms_blocks s')) \<Longrightarrow> d \<in> set (map_values (ms_blocks s)) \<or> d \<in> set (bt_anchors b)"
    and "replayed ab c s'"
proof -
  obtain s1 s2 where p: "validateCanonicalBatch b = Inr ()"
      "continues (checkpoint_of (sr_chainId (bt_range b)) s) (bt_range b) = Inr ()"
      "for_each put_anchor (bt_anchors b) s = (None, s1)"
      "for_each (put_event ab) (bt_events b) s1 = (None, s2)"
      "s' = s2\<lparr>ms_ranges := map_set (range_key (bt_range b)) (bt_range b) (ms_ranges s2),
                ms_checkpoints := map_set (ck_chainId (bt_checkpoint b)) (bt_checkpoint b) (ms_checkpoints s2)\<rparr>"
    by (rule applyBatch_cases [OF app]) (use new in blast)+
  note v = validated_parts [OF p(1)]
  note s1 = put_anchors_same [of "bt_anchors b" s, unfolded p(3) snd_conv]
  note s2 = put_events_same [of ab "bt_events b" s1, unfolded p(4) snd_conv]
  show "list_all (anchor_fits r) (bt_anchors b)" using v(4) by (simp add: r_def)
  show k: "ck_blockNumber k < sr_fromBlock r" if "checkpoint_of (sr_chainId r) s = Some k" for k
    using p(2) that by (simp add: continues_def r_def)
  show "ck_blockNumber (bt_checkpoint b) = sr_toBlock r" "ck_chainId (bt_checkpoint b) = sr_chainId r"
    "sr_fromBlock r \<le> sr_toBlock r" using v(1,2) by (simp_all add: r_def)
  show "ms_checkpoints s' = map_set (sr_chainId r) (bt_checkpoint b) (ms_checkpoints s)"
    using v(2) by (simp add: p(5) s1 s2 r_def)
  show "ms_ranges s' = map_set (range_key r) r (ms_ranges s)" by (simp add: p(5) s1 s2 r_def)
  have fits: "ev_chainId e = sr_chainId r \<and> sr_fromBlock r \<le> ev_blockNumber e \<and> ev_blockNumber e \<le> sr_toBlock r"
    if "e \<in> set (bt_events b)" for e
    using v(7) that by (simp add: list_all_iff event_fits_def r_def)
  show "e \<in> set (map_values (ms_events s)) \<or> ev_chainId e = sr_chainId r \<and> sr_fromBlock r \<le> ev_blockNumber e \<and>
      ev_blockNumber e \<le> sr_toBlock r" if "e \<in> set (map_values (ms_events s'))" for e
    using that put_events_new [OF p(4), of e] fits s1(1) by (auto simp: p(5))
  show "d \<in> set (map_values (ms_blocks s)) \<or> d \<in> set (bt_anchors b)" if "d \<in> set (map_values (ms_blocks s'))" for d
    using that put_anchors_new [OF p(3), of d] by (auto simp: p(5) s2(1))
  have s1_ok: "store_ok s1" using put_anchors_ok [of s "bt_anchors b"] run p(3) by (simp add: run_ok_def)
  have s1_rep: "replayed ab c s1" for c
    using run s1 by (simp add: run_ok_def replayed_def chain_events_def)
  have "\<forall>e \<in> set (bt_events b). \<forall>x \<in> set (chain_events (ev_chainId e) s1). compareEvents x e \<le> 0"
  proof (intro ballI)
    fix e x assume e: "e \<in> set (bt_events b)" and x: "x \<in> set (chain_events (ev_chainId e) s1)"
    have c: "ev_chainId x = sr_chainId r" "x \<in> set (map_values (ms_events s))"
      using x fits [OF e] s1(1) by (auto simp: chain_events_def)
    moreover have "within_checkpoint (sr_chainId r) s" using run by (simp add: run_ok_def)
    ultimately obtain k' where "checkpoint_of (sr_chainId r) s = Some k'" "ev_blockNumber x \<le> ck_blockNumber k'"
      by (auto simp: within_checkpoint_def below_def list_all_iff split: option.splits)
    then have "ev_blockNumber x < ev_blockNumber e" using k fits [OF e] by fastforce
    then show "compareEvents x e \<le> 0" using compareEvents_block [of x e] by simp
  qed
  from put_events_replayed [OF s1_ok s1_rep order this p(4)]
  show "replayed ab c s'" by (simp add: p(5) replayed_def chain_events_def)
qed

lemma applyBatch_run_ok:
  assumes run: "run_ok ab s" and order: "in_event_order (bt_events b)"
    and app: "applyBatch ab b s = (None, s')"
  shows "run_ok ab s'"
proof (cases "already_applied b s")
  case True
  then have "s' = s"
    using app by (auto simp: applyBatch_def with_value_success)
  then show ?thesis using run by simp
next
  case False
  note cb = committed_batch [OF run order app False]
  have st: "store_ok s'" using applyBatch_ok [of s ab b] app run by (simp add: run_ok_def)
  have ck: "checkpoint_of c s' = (if c = sr_chainId (bt_range b) then Some (bt_checkpoint b) else checkpoint_of c s)" for c
    by (simp add: checkpoint_of_def cb(4) update_conv')
  have mono: "below c s' n" if "below c s n" for c n
    using that cb(3,5,7) by (fastforce simp: below_def ck split: option.splits)
  have new: "below (sr_chainId (bt_range b)) s' n" if "n \<le> sr_toBlock (bt_range b)" for n
    using that cb(5) by (simp add: below_def ck)
  have "within_checkpoint c s'" for c
  proof -
    have w: "within_checkpoint c s" using run by (simp add: run_ok_def)
    have "below c s' (ev_blockNumber e)" if "e \<in> set (map_values (ms_events s'))" "ev_chainId e = c" for e
      using cb(2) [OF that(1)] that(2) w mono new unfolding within_checkpoint_def list_all_iff by metis
    moreover have "below c s' (cb_blockNumber d)" if "d \<in> set (map_values (ms_blocks s'))" "cb_chainId d = c" for d
      using cb(9) [OF that(1)] cb(1) that(2) w mono new
      unfolding within_checkpoint_def list_all_iff anchor_fits_def by metis
    moreover have "below c s' (sr_toBlock r)" if "r \<in> set (map_values (ms_ranges s'))" "sr_chainId r = c" for r
    proof -
      have "r = bt_range b \<or> r \<in> set (map_values (ms_ranges s))"
        using that(1) by (auto simp: cb(8) dest!: in_set_update)
      then show ?thesis using that(2) w mono new unfolding within_checkpoint_def list_all_iff by auto
    qed
    ultimately show ?thesis by (simp add: within_checkpoint_def list_all_iff)
  qed
  then show ?thesis using st cb(10) by (simp add: run_ok_def)
qed


section \<open>Rollback\<close>

lemma ordered_prefix:
  assumes "in_event_order es" "P = (\<lambda>e. ev_blockNumber e \<le> n) \<or> P = (\<lambda>e. False) \<or> P = (\<lambda>e. True)"
  shows "\<exists>rest. es = filter P es @ rest"
  using assms
proof (induction es)
  case (Cons e es)
  show ?case
  proof (cases "P e")
    case True
    then show ?thesis using Cons by simp
  next
    case False
    have "\<not> P x" if "x \<in> set es" for x
      using False Cons.prems that by (auto dest!: compareEvents_block_le bspec)
    then have "filter P (e # es) = []" using False by (simp add: filter_empty_conv)
    then show ?thesis by simp
  qed
qed simp

lemma chain_events_truncate:
  "chain_events c' (truncate_after c n s) =
     filter (\<lambda>e. survives c n (ev_chainId e) (ev_blockNumber e)) (chain_events c' s)"
  by (simp add: chain_events_def truncate_after_def event_order.js_sort_filter [symmetric] filter_map comp_def
      conj_commute)

lemma chain_events_survivors:
  "chain_events c' (truncate_after c n s) =
     (if c' = c then filter (\<lambda>e. case n of None \<Rightarrow> False | Some m \<Rightarrow> ev_blockNumber e \<le> m) (chain_events c s)
      else chain_events c' s)"
  unfolding chain_events_truncate
  by (cases n; cases "c' = c")
     (auto simp: survives_def not_less set_chain_events filter_id_conv filter_empty_conv intro!: filter_cong)

text \<open>Rolling back replays a prefix of a history that replayed before, so the replay cannot fail.\<close>

lemma rebuilt_replayed:
  assumes "run_ok ab s"
  shows "fst (for_each (project ab) (chain_events c (truncate_after c n s)) (clearProjections c (ms_projections s))) = None"
    and "replayed ab c' (rebuilt ab c n s)"
    and "c' \<noteq> c \<Longrightarrow> chain_view c' (ms_projections (rebuilt ab c n s)) = chain_view c' (ms_projections s)"
proof -
  let ?es = "chain_events c (truncate_after c n s)" and ?p = "clearProjections c (ms_projections s)"
  have pos: "positions_ok ?p" using assms by (simp add: run_ok_def store_ok_def positions_ok_clear)
  have "local_write c (for_each (project ab) ?es)"
    by (rule local_replay) (simp add: set_chain_events)
  note loc = local_writeD [OF this pos]
  have rep: "replayed ab d s" for d using assms by (simp add: run_ok_def)
  have "\<exists>rest. chain_events c s = ?es @ rest"
    unfolding chain_events_survivors
    using ordered_prefix [OF chain_events_ordered, of "\<lambda>e. case n of None \<Rightarrow> False | Some m \<Rightarrow> ev_blockNumber e \<le> m"
        _ c s] by (cases n) auto
  then have "fst (for_each (project ab) ?es no_projections) = None"
    using rep [of c] by (auto simp: replayed_def for_each_append and_then_def split: option.splits)
  then show none: "fst (for_each (project ab) ?es ?p) = None"
    using loc(1) by (simp add: chain_view_clear)
  show other: "chain_view c' (ms_projections (rebuilt ab c n s)) = chain_view c' (ms_projections s)" if "c' \<noteq> c" for c'
    using loc(2) [OF that] that by (simp add: rebuilt_def chain_view_clear)
  have ev: "chain_events d (rebuilt ab c n s) = chain_events d (truncate_after c n s)" for d
    by (simp add: chain_events_def)
  show "replayed ab c' (rebuilt ab c n s)"
  proof (cases "c' = c")
    case True
    then show ?thesis using loc(1) none by (simp add: replayed_def ev [unfolded rebuilt_def] rebuilt_def chain_view_clear)
  next
    case False
    then show ?thesis using rep [of c'] other [OF False] by (simp add: replayed_def ev chain_events_survivors)
  qed
qed

lemma rollbackAfter_run_ok:
  assumes run: "run_ok ab s" and roll: "rollbackAfter ab c n s = (None, s')"
  shows "run_ok ab s'"
    and "chain_events c' s' = chain_events c' (truncate_after c n s)"
    and "c' \<noteq> c \<Longrightarrow> chain_view c' (ms_projections s') = chain_view c' (ms_projections s)"
    and "ms_blocks s' = ms_blocks (truncate_after c n s)" "ms_ranges s' = ms_ranges (truncate_after c n s)"
    and "checkpoint_of c' s' = (if c' \<noteq> c then checkpoint_of c' s else
           (case n of None \<Rightarrow> None | Some m \<Rightarrow>
              Some \<lparr>ck_chainId = c, ck_blockNumber = m, ck_blockHash = the (hash_at c m s)\<rparr>))"
proof -
  note rb = rebuilt_replayed [OF run, where c = c and n = n]
  have b: "keyed block_key (ms_blocks s)" using run by (simp add: run_ok_def store_ok_def keys_ok_def)
  have cases: "n = None \<and> s' = rebuilt ab c n s \<or>
    (\<exists>m h. n = Some m \<and> hash_at c m (truncate_after c n s) = Some h \<and>
      s' = (rebuilt ab c n s)\<lparr>ms_checkpoints :=
         map_set c \<lparr>ck_chainId = c, ck_blockNumber = m, ck_blockHash = h\<rparr> (ms_checkpoints (truncate_after c n s))\<rparr>)"
    using roll rb(1) by (auto simp: rollbackAfter_eq split: option.splits)
  then have same: "ms_blocks s' = ms_blocks (truncate_after c n s)" "ms_ranges s' = ms_ranges (truncate_after c n s)"
    "ms_events s' = ms_events (truncate_after c n s)" "ms_projections s' = ms_projections (rebuilt ab c n s)"
    by auto
  show "ms_blocks s' = ms_blocks (truncate_after c n s)" "ms_ranges s' = ms_ranges (truncate_after c n s)"
    by (fact same)+
  show "chain_events c' s' = chain_events c' (truncate_after c n s)" by (simp add: chain_events_def same)
  show "chain_view c' (ms_projections s') = chain_view c' (ms_projections s)" if "c' \<noteq> c"
    using rb(3) that by (simp add: same)
  have del: "map_get (AList.delete c (ms_checkpoints s)) d = (if d = c then None else map_get (ms_checkpoints s) d)" for d
    by (simp add: delete_conv')
  show ck: "checkpoint_of c' s' = (if c' \<noteq> c then checkpoint_of c' s else
       (case n of None \<Rightarrow> None | Some m \<Rightarrow>
          Some \<lparr>ck_chainId = c, ck_blockNumber = m, ck_blockHash = the (hash_at c m s)\<rparr>))" for c'
  proof -
    have "hash_at c m s = Some h" if "hash_at c m (truncate_after c n s) = Some h" for m h
      using that by (simp add: hash_at_truncate [OF b] split: if_splits)
    moreover have "ms_checkpoints (truncate_after c n s) = AList.delete c (ms_checkpoints s)"
      by (simp add: truncate_after_def)
    ultimately show ?thesis
      using cases by (auto simp: checkpoint_of_def update_conv' del)
  qed
  have w: "within_checkpoint d s" for d using run by (simp add: run_ok_def)
  have "within_checkpoint d s'" for d
  proof -
    let ?keep = "\<lambda>x n'. survives c n x n'"
    have lim: "below d s' x" if "below d s x" "?keep d x" for x
      using that by (auto simp: below_def ck survives_def split: option.splits if_splits)
    show ?thesis
      using w [of d] lim
      by (auto simp: within_checkpoint_def list_all_iff same truncate_after_def)
  qed
  moreover have "store_ok s'" using rollbackAfter_ok [of s ab c n] run roll by (simp add: run_ok_def)
  moreover have "replayed ab d s'" for d
    using rb(2) by (simp add: replayed_def same chain_events_def)
  ultimately show "run_ok ab s'" by (simp add: run_ok_def)
qed


lemma run_ok_start: "run_ok ab empty_store"
  using store_ok_empty
  by (auto simp: run_ok_def replayed_def within_checkpoint_def chain_events_def empty_store_def ok_def)

lemma canonical_run_ok: "canonical_run ab s \<Longrightarrow> run_ok ab s"
  by (induction rule: canonical_run.induct) (auto intro: run_ok_start applyBatch_run_ok rollbackAfter_run_ok(1))

section \<open>Any sequence of calls\<close>

inductive store_reachable :: "abi \<Rightarrow> memory_store \<Rightarrow> bool" for ab where
  reach_start: "store_reachable ab empty_store"
| reach_batch: "store_reachable ab s \<Longrightarrow> store_reachable ab (snd (applyBatch ab b s))"
| reach_legacy: "store_reachable ab s \<Longrightarrow> store_reachable ab (snd (applyLegacy ab es bs k s))"
| reach_rollback: "store_reachable ab s \<Longrightarrow> store_reachable ab (snd (rollbackAfter ab c n s))"

section \<open>A concrete chain\<close>

text \<open>
  The concrete chain of the witnesses: one event kind, a share transfer whose data says whether it mints
  five shares to \<open>0xA\<close> or burns nine of them.
\<close>

definition sample_abi :: abi where
  "sample_abi = \<lparr>ab_event = (\<lambda>_ t. if t = ''T'' then Some ''TransferSingle'' else None),
     ab_decode = (\<lambda>_ _ d. Inr (''TransferSingle'',
       [(''from'', AbiText (if d = ''mint'' then ZERO_ADDRESS else ''0xA'')),
        (''to'', AbiText (if d = ''mint'' then ''0xA'' else ZERO_ADDRESS)),
        (''id'', AbiBig 1), (''value'', AbiBig (if d = ''mint'' then 5 else 9))])),
     ab_address = Some, ab_bytes = (\<lambda>_. [])\<rparr>"

definition sample_event :: "int \<Rightarrow> string \<Rightarrow> indexed_event" where
  "sample_event n d = \<lparr>ev_chainId = 1, ev_blockNumber = n, ev_blockHash = ''0xh'', ev_transactionHash = ''0xT'' @ dec n,
     ev_transactionIndex = 0, ev_logIndex = 0, ev_address = ''0xV'', ev_topics = [''T''], ev_data = d,
     ev_status = ConfirmedBlock\<rparr>"

definition sample_block :: "int \<Rightarrow> canonical_block" where
  "sample_block n = \<lparr>cb_chainId = 1, cb_blockNumber = n, cb_blockHash = ''0xh'', cb_parentHash = ''0xp'',
     cb_timestamp = n, cb_status = ConfirmedBlock\<rparr>"

definition sample_batch :: "int \<Rightarrow> chain_checkpoint option \<Rightarrow> string \<Rightarrow> canonical_batch" where
  "sample_batch n pred d = \<lparr>bt_range = \<lparr>sr_chainId = 1, sr_fromBlock = n, sr_toBlock = n + 9, sr_predecessor = pred,
       sr_endBlockHash = ''0xh'', sr_status = ConfirmedBlock, sr_mode = Sparse\<rparr>,
     bt_anchors = [sample_block (n + 4), sample_block (n + 9)],
     bt_events = [sample_event (n + 4) d],
     bt_checkpoint = \<lparr>ck_chainId = 1, ck_blockNumber = n + 9, ck_blockHash = ''0xh''\<rparr>\<rparr>"

definition sample_pred :: chain_checkpoint where
  "sample_pred = \<lparr>ck_chainId = 1, ck_blockNumber = 10, ck_blockHash = ''0xh''\<rparr>"

definition sample_store :: memory_store where
  "sample_store = snd (applyBatch sample_abi (sample_batch 1 None ''mint'') empty_store)"

end
