(* ===== verification/Memory_Guarantees.thy ===== *)
theory Memory_Guarantees
  imports Memory_Replay
begin

text \<open>
  What the memory store promises its callers: consistency under any calls, a read model that is the
  replay of the stored events, idempotent delivery, and rollback as the inverse of a batch. A batch that
  throws keeps what it wrote before the error.
\<close>

section \<open>Undoing a batch\<close>

text \<open>All a reader of the store can see of a chain.\<close>

definition chain_state ::
  "int \<Rightarrow> memory_store \<Rightarrow>
     chain_checkpoint option \<times> scan_range list \<times> indexed_event list \<times> (int \<Rightarrow> canonical_block option) \<times> projections" where
  "chain_state c s = (checkpoint_of c s, scanRanges c s, chain_events c s, \<lambda>n. canonicalBlock c n s,
     chain_view c (ms_projections s))"

lemma map_set_new: "map_get m k = None \<Longrightarrow> map_set k v m = m @ [(k, v)]"
  by (induction m) (auto split: if_splits)

lemma delete_set: "AList.delete k (map_set k v m) = AList.delete k m"
  by (induction m) auto

lemma put_events_append:
  "for_each (put_event ab) es s = (None, s') \<Longrightarrow> \<exists>new. ms_events s' = ms_events s @ new \<and> snd ` set new \<subseteq> set es"
proof (induction es arbitrary: s)
  case (Cons a es)
  then obtain s1 where s1: "put_event ab a s = (None, s1)" "for_each (put_event ab) es s1 = (None, s')"
    by (auto simp: and_then_success)
  then obtain new where "ms_events s' = ms_events s1 @ new \<and> snd ` set new \<subseteq> set es" using Cons.IH by blast
  moreover have "ms_events s1 = ms_events s \<or> ms_events s1 = ms_events s @ [(eventKey a, a)]"
    using s1(1) by (auto simp: put_event_def store_project_eq map_has_def map_set_new split: if_splits)
  ultimately show ?case by (fastforce simp: image_subset_iff)
qed (simp add: ok_def)

lemma put_anchors_elsewhere:
  "for_each put_anchor bs s = (None, s') \<Longrightarrow> \<forall>b \<in> set bs. cb_chainId b \<noteq> c \<or> cb_blockNumber b \<noteq> n \<Longrightarrow>
   canonicalBlock c n s' = canonicalBlock c n s"
proof (induction bs arbitrary: s)
  case (Cons a bs)
  then obtain s1 where s1: "put_anchor a s = (None, s1)" "for_each put_anchor bs s1 = (None, s')"
    by (auto simp: and_then_success)
  have "canonicalBlock c n s1 = canonicalBlock c n s"
    using s1(1) Cons.prems(2)
    by (auto simp: put_anchor_def canonicalBlock_def update_conv' split: option.splits if_splits)
  then show ?case using Cons.IH [OF s1(2)] Cons.prems(2) by simp
qed (simp add: ok_def)

text \<open>A new batch only adds events and blocks above the checkpoint it continues.\<close>

lemma new_batch_adds:
  assumes "applyBatch ab b s = (None, s')" "\<not> already_applied b s"
  shows "\<exists>new. ms_events s' = ms_events s @ new \<and> snd ` set new \<subseteq> set (bt_events b)"
    and "list_all (event_fits (bt_range b) (bt_anchors b)) (bt_events b)"
    and "c \<noteq> sr_chainId (bt_range b) \<or> n < sr_fromBlock (bt_range b) \<Longrightarrow>
         canonicalBlock c n s' = canonicalBlock c n s"
proof -
  obtain s1 s2 where p: "validateCanonicalBatch b = Inr ()"
      "for_each put_anchor (bt_anchors b) s = (None, s1)"
      "for_each (put_event ab) (bt_events b) s1 = (None, s2)"
      "s' = s2\<lparr>ms_ranges := map_set (range_key (bt_range b)) (bt_range b) (ms_ranges s2),
                ms_checkpoints := map_set (ck_chainId (bt_checkpoint b)) (bt_checkpoint b) (ms_checkpoints s2)\<rparr>"
    by (rule applyBatch_cases [OF assms(1)]) (use assms(2) in blast)+
  note v = validated_parts [OF p(1)]
  show "list_all (event_fits (bt_range b) (bt_anchors b)) (bt_events b)" by (rule v(7))
  show "\<exists>new. ms_events s' = ms_events s @ new \<and> snd ` set new \<subseteq> set (bt_events b)"
    using put_events_append [OF p(3)] put_anchors_same(1) [of "bt_anchors b" s, unfolded p(2) snd_conv]
    by (simp add: p(4))
  show "canonicalBlock c n s' = canonicalBlock c n s"
    if "c \<noteq> sr_chainId (bt_range b) \<or> n < sr_fromBlock (bt_range b)"
  proof -
    have "\<forall>x \<in> set (bt_anchors b). cb_chainId x \<noteq> c \<or> cb_blockNumber x \<noteq> n"
      using v(4) that by (auto simp: list_all_iff anchor_fits_def)
    from put_anchors_elsewhere [OF p(2) this] show ?thesis
      using put_events_same(1) [of ab "bt_events b" s1, unfolded p(3) snd_conv]
      by (simp add: p(4) canonicalBlock_def)
  qed
qed

lemma rollback_after_batch:
  assumes run: "run_ok ab s" and order: "in_event_order (bt_events b)"
    and app: "applyBatch ab b s = (None, s')" and new: "\<not> already_applied b s"
  defines "c \<equiv> sr_chainId (bt_range b)"
  defines "level \<equiv> map_option ck_blockNumber (checkpoint_of c s)"
  shows "truncate_after c level s' = s'\<lparr>ms_checkpoints := AList.delete c (ms_checkpoints s),
           ms_ranges := ms_ranges s, ms_events := ms_events s, ms_blocks := ms_blocks (truncate_after c level s')\<rparr>"
    and "canonicalBlock c' n (truncate_after c level s') = canonicalBlock c' n s"
    and "\<exists>s''. rollbackAfter ab c level s' = (None, s'')"
proof -
  note cb = committed_batch [OF run order app new]
  note add = new_batch_adds [OF app new]
  have run': "run_ok ab s'" by (rule applyBatch_run_ok [OF run order app])
  have w: "within_checkpoint d s" for d using run by (simp add: run_ok_def)
  have st: "store_ok s" "store_ok s'" using run run' by (simp_all add: run_ok_def)
  have keyed: "keyed block_key (ms_blocks s)" and keyed': "keyed block_key (ms_blocks s')"
    using st by (simp_all add: store_ok_def keys_ok_def)
  have surv: "survives c level d n" if "below d s n" for d n
    using that by (auto simp: survives_def level_def below_def split: option.splits)
  have gone: "\<not> survives c level c n" if "sr_fromBlock (bt_range b) \<le> n" for n
    using cb(3) that by (auto simp: survives_def level_def c_def split: option.splits)
  have old: "survives c level (sr_chainId r) (sr_toBlock r)" if "r \<in> set (map_values (ms_ranges s))" for r
    using w [of "sr_chainId r"] that surv by (auto simp: within_checkpoint_def list_all_iff)
  have fresh: "map_get (ms_ranges s) (range_key (bt_range b)) = None"
  proof (rule ccontr)
    assume "map_get (ms_ranges s) (range_key (bt_range b)) \<noteq> None"
    then obtain r where "r \<in> set (map_values (ms_ranges s))" "range_key (bt_range b) = range_key r"
      using keyed_get [of range_key "ms_ranges s" "range_key (bt_range b)"] st(1)
      by (auto simp: store_ok_def keys_ok_def)
    then show False using old [of r] gone [of "sr_toBlock r"] cb(7) by (simp add: range_key_def c_def)
  qed
  have ranges: "filter (\<lambda>p. survives c level (sr_chainId (snd p)) (sr_toBlock (snd p))) (ms_ranges s') = ms_ranges s"
    using old gone [OF cb(7)] by (simp add: cb(8) map_set_new [OF fresh] c_def filter_id_conv)
  have events: "filter (\<lambda>p. survives c level (ev_chainId (snd p)) (ev_blockNumber (snd p))) (ms_events s') = ms_events s"
  proof -
    obtain new where n: "ms_events s' = ms_events s @ new" "snd ` set new \<subseteq> set (bt_events b)" using add(1) by blast
    have "\<not> survives c level (ev_chainId (snd p)) (ev_blockNumber (snd p))" if "p \<in> set new" for p
    proof -
      have "snd p \<in> set (bt_events b)" using n(2) that by auto
      then show ?thesis using add(2) gone by (auto simp: list_all_iff event_fits_def c_def)
    qed
    moreover have "survives c level (ev_chainId (snd p)) (ev_blockNumber (snd p))" if "p \<in> set (ms_events s)" for p
      using w [of "ev_chainId (snd p)"] that surv by (auto simp: within_checkpoint_def list_all_iff)
    ultimately show ?thesis by (simp add: n(1) filter_id_conv filter_empty_conv)
  qed
  have del: "AList.delete c (ms_checkpoints s') = AList.delete c (ms_checkpoints s)"
    by (simp add: cb(4) c_def delete_set)
  show "truncate_after c level s' = s'\<lparr>ms_checkpoints := AList.delete c (ms_checkpoints s),
      ms_ranges := ms_ranges s, ms_events := ms_events s, ms_blocks := ms_blocks (truncate_after c level s')\<rparr>"
    by (simp add: truncate_after_def ranges events del)
  show blocks: "canonicalBlock c' n (truncate_after c level s') = canonicalBlock c' n s" for c' n
  proof (cases "survives c level c' n")
    case True
    then have "c' \<noteq> c \<or> n < sr_fromBlock (bt_range b)" using gone by force
    then show ?thesis
      using True add(3) [of c' n] by (simp add: canonicalBlock_truncate [OF keyed'] c_def)
  next
    case False
    have "canonicalBlock c' n s \<noteq> Some d" for d
      using False w [of c'] surv by (auto simp: canonicalBlock_fields [OF keyed] within_checkpoint_def list_all_iff)
    then have "canonicalBlock c' n s = None" by (cases "canonicalBlock c' n s") auto
    then show ?thesis using False by (simp add: canonicalBlock_truncate [OF keyed'])
  qed
  show "\<exists>s''. rollbackAfter ab c level s' = (None, s'')"
  proof (cases "checkpoint_of c s")
    case None
    then show ?thesis using rebuilt_replayed(1) [OF run', where c = c and n = None]
      by (simp add: rollbackAfter_eq level_def ok_def)
  next
    case (Some k)
    have "hash_at c (ck_blockNumber k) s = Some (ck_blockHash k)"
      using st(1) Some keyed_get [of ck_chainId "ms_checkpoints s" c k]
      by (auto simp: store_ok_def keys_ok_def anchored_def list_all_iff checkpoint_of_def)
    then have "hash_at c (ck_blockNumber k) (truncate_after c level s') = Some (ck_blockHash k)"
      by (simp add: hash_at_def blocks)
    then show ?thesis using rebuilt_replayed(1) [OF run', where c = c and n = level] Some
      by (simp add: rollbackAfter_eq level_def ok_def)
  qed
qed


text \<open>
  C14. Rolling back to the checkpoint a batch continued undoes the batch: every chain has again its
  checkpoint, scan ranges, blocks, events and read model from before the batch.
\<close>

theorem rollback_undoes_batch:
  assumes "canonical_run ab s" "in_event_order (bt_events b)"
    and "applyBatch ab b s = (None, s')" "\<not> already_applied b s"
  shows "\<exists>s''. rollbackAfter ab (sr_chainId (bt_range b))
      (map_option ck_blockNumber (checkpoint_of (sr_chainId (bt_range b)) s)) s' = (None, s'') \<and>
    (\<forall>c. chain_state c s'' = chain_state c s)"
proof -
  let ?c = "sr_chainId (bt_range b)"
  let ?n = "map_option ck_blockNumber (checkpoint_of ?c s)"
  have run: "run_ok ab s" by (rule canonical_run_ok [OF assms(1)])
  note cb = committed_batch [OF run assms(2-4)]
  note rb = rollback_after_batch [OF run assms(2-4)]
  have run': "run_ok ab s'" by (rule applyBatch_run_ok [OF run assms(2,3)])
  obtain s'' where s'': "rollbackAfter ab ?c ?n s' = (None, s'')" using rb(3) by blast
  note ro = rollbackAfter_run_ok [OF run' s'']
  have ev: "chain_events c s'' = chain_events c s" for c
    by (subst ro(2), subst rb(1)) (simp add: chain_events_def)
  have view: "chain_view c (ms_projections s'') = chain_view c (ms_projections s)" for c
  proof -
    have "replayed ab c s''" "replayed ab c s" using ro(1) run by (simp_all add: run_ok_def)
    then show ?thesis by (simp add: replayed_def ev)
  qed
  have ck: "checkpoint_of c s'' = checkpoint_of c s" for c
  proof (cases "c = ?c")
    case False
    then have "checkpoint_of c s'' = checkpoint_of c s'" using ro(6) [of c] by simp
    then show ?thesis using False by (simp add: checkpoint_of_def cb(4) update_conv')
  next
    case True
    have "hash_at ?c n s' = hash_at ?c n s" if "n < sr_fromBlock (bt_range b)" for n
      using new_batch_adds(3) [OF assms(3,4), of ?c n] that by (simp add: hash_at_def)
    moreover have "ck_chainId k = ?c \<and> hash_at ?c (ck_blockNumber k) s = Some (ck_blockHash k)"
      if "checkpoint_of ?c s = Some k" for k
      using run that keyed_get [of ck_chainId "ms_checkpoints s" ?c k]
      by (auto simp: run_ok_def store_ok_def keys_ok_def anchored_def list_all_iff checkpoint_of_def)
    ultimately show ?thesis
      using True cb(3) by (cases "checkpoint_of ?c s") (auto simp: ro(6))
  qed
  have "scanRanges c s'' = scanRanges c s" for c
    by (subst scanRanges_def, subst ro(5), subst rb(1)) (simp add: scanRanges_def)
  moreover have "canonicalBlock c n s'' = canonicalBlock c n s" for c n
    using rb(2) [of c n] by (simp add: canonicalBlock_def ro(4))
  ultimately have "chain_state c s'' = chain_state c s" for c
    by (simp add: chain_state_def ck ev view)
  then show ?thesis using s'' by blast
qed

text \<open>The runs of the samples: a first batch, a second one, and one whose burn fails.\<close>

lemma sample_runs:
  "case applyBatch sample_abi (sample_batch 1 None ''mint'') empty_store of (e, s) \<Rightarrow> e = None \<and>
     \<not> already_applied (sample_batch 11 (Some sample_pred) ''mint'') s \<and> checkpoint_of 1 s = Some sample_pred \<and>
     fst (applyBatch sample_abi (sample_batch 11 (Some sample_pred) ''mint'') s) = None \<and>
     (case applyBatch sample_abi (sample_batch 11 (Some sample_pred) ''burn'') s of (e', s') \<Rightarrow>
        e' = Some (JsError ''position projection would become negative'') \<and> eventCount 1 s' = eventCount 1 s + 1 \<and>
        checkpoint_of 1 s' = checkpoint_of 1 s)"
  by code_simp

lemma sample_facts:
  "fst (applyBatch sample_abi (sample_batch 1 None ''mint'') empty_store) = None"
  "\<not> already_applied (sample_batch 11 (Some sample_pred) ''mint'') sample_store"
  "checkpoint_of 1 sample_store = Some sample_pred"
  "fst (applyBatch sample_abi (sample_batch 11 (Some sample_pred) ''mint'') sample_store) = None"
  "fst (applyBatch sample_abi (sample_batch 11 (Some sample_pred) ''burn'') sample_store) =
     Some (JsError ''position projection would become negative'')"
  "eventCount 1 (snd (applyBatch sample_abi (sample_batch 11 (Some sample_pred) ''burn'') sample_store)) =
     eventCount 1 sample_store + 1"
  "checkpoint_of 1 (snd (applyBatch sample_abi (sample_batch 11 (Some sample_pred) ''burn'') sample_store)) =
     checkpoint_of 1 sample_store"
  using sample_runs unfolding sample_store_def by (simp_all add: case_prod_beta)

lemmas sample_applies = sample_facts(1)

lemma sample_run: "canonical_run sample_abi sample_store"
  using sample_applies
  by (intro run_batch [OF run_start, of "sample_batch 1 None ''mint''"])
     (simp_all add: sample_batch_def sample_store_def prod_eq_iff)

theorem rollback_undoes_batch_witness:
  "\<exists>s''. rollbackAfter sample_abi 1 (Some 10)
      (snd (applyBatch sample_abi (sample_batch 11 (Some sample_pred) ''mint'') sample_store)) = (None, s'') \<and>
    (\<forall>c. chain_state c s'' = chain_state c sample_store)"
proof -
  let ?b = "sample_batch 11 (Some sample_pred) ''mint''"
  have app: "applyBatch sample_abi ?b sample_store = (None, snd (applyBatch sample_abi ?b sample_store))"
    by (simp add: prod_eq_iff sample_facts(4))
  note new = sample_facts(2) and ck = sample_facts(3)
  have c: "sr_chainId (bt_range ?b) = 1" and o: "in_event_order (bt_events ?b)" by (simp_all add: sample_batch_def)
  have n: "map_option ck_blockNumber (Some sample_pred) = Some 10" by (simp add: sample_pred_def)
  show ?thesis
    using rollback_undoes_batch [OF sample_run o app new] unfolding c ck n .
qed

text \<open>
  C15. As long as batches arrive in order and rollbacks succeed, the read model of every chain is the
  replay of its stored events in chain order, and that replay does not fail.
\<close>

theorem read_model_is_replay:
  assumes "canonical_run ab s"
  shows "for_each (project ab) (chain_events c s) no_projections = (None, chain_view c (ms_projections s))"
  using canonical_run_ok [OF assms] by (simp add: run_ok_def replayed_def)

theorem read_model_is_replay_witness:
  "for_each (project sample_abi) (chain_events 1 sample_store) no_projections =
     (None, chain_view 1 (ms_projections sample_store))"
  by (rule read_model_is_replay [OF sample_run])

text \<open>
  C16. Whatever batches, legacy batches and rollbacks are sent to the store, in any order and whether they
  succeed or throw, it stays consistent: each event, scan range and checkpoint names a stored block with
  its hash, the ranges of a chain do not overlap, and no balance is negative.
\<close>

theorem store_stays_consistent:
  assumes "store_reachable ab s"
  shows "store_ok s"
  using assms
  by (induction rule: store_reachable.induct)
     (simp_all add: store_ok_empty applyBatch_ok applyLegacy_ok rollbackAfter_ok)

theorem store_stays_consistent_witness:
  "store_ok (snd (applyBatch sample_abi (sample_batch 11 (Some sample_pred) ''burn'') sample_store))"
  unfolding sample_store_def
  by (rule store_stays_consistent [where ab = sample_abi]) (intro store_reachable.intros)

text \<open>
  Delivery may repeat: a batch that was committed is accepted again and changes nothing.
\<close>

theorem batch_idempotent:
  assumes "applyBatch ab b s = (None, s')"
  shows "applyBatch ab b s' = (None, s')"
proof -
  have v: "validateCanonicalBatch b = Inr ()" using assms by (auto simp: applyBatch_def with_value_success)
  have "already_applied b s'"
    by (rule applyBatch_cases [OF assms])
       (use validated_parts(2) [OF v] in
         \<open>simp_all add: already_applied_def checkpoint_of_def range_key_def update_conv' sameRange_def\<close>)
  then show ?thesis using v by (simp add: applyBatch_def ok_def)
qed

theorem batch_idempotent_witness:
  "applyBatch sample_abi (sample_batch 1 None ''mint'') sample_store = (None, sample_store)"
  unfolding sample_store_def
  by (rule batch_idempotent) (use sample_applies in \<open>simp add: prod_eq_iff\<close>)

text \<open>
  A batch that throws is not rolled back by the memory store: here the burn of shares nobody holds
  fails, and the batch's blocks and event stay behind although its range was not committed.
\<close>

theorem failed_batch_leaves_writes:
  "fst (applyBatch sample_abi (sample_batch 11 (Some sample_pred) ''burn'') sample_store) =
     Some (JsError ''position projection would become negative'') \<and>
   eventCount 1 (snd (applyBatch sample_abi (sample_batch 11 (Some sample_pred) ''burn'') sample_store)) =
     eventCount 1 sample_store + 1 \<and>
   checkpoint_of 1 (snd (applyBatch sample_abi (sample_batch 11 (Some sample_pred) ''burn'') sample_store)) =
     checkpoint_of 1 sample_store"
  by (intro conjI sample_facts)

end
