(* ===== verification/Indexer.thy ===== *)
theory Indexer
  imports Calls Canonical_Batch Derived Js_Sort
begin

text \<open>
  \<open>ChainIndexer\<close> of offchain/indexer/src/indexer.ts with creation-logs.ts and scoped-logs.ts: one
  ingestion step reconciles the checkpoint with the chain, scans the next range of blocks and commits it.

  The store is the interface \<open>EventStore\<close> of store.ts, a record of operations over an arbitrary store
  state; the RPC client is a record of calls over an arbitrary world state, so that two reads of the same
  block may answer differently. Telemetry counters are left out.
\<close>

section \<open>Interfaces\<close>

record 's event_store_ops =
  es_checkpoint :: "int \<Rightarrow> 's \<Rightarrow> chain_checkpoint option outcome"
  es_canonicalBlock :: "int \<Rightarrow> int \<Rightarrow> 's \<Rightarrow> canonical_block option outcome"
  es_scanRanges :: "int \<Rightarrow> 's \<Rightarrow> scan_range list outcome"
  es_registeredMarkets :: "int \<Rightarrow> 's \<Rightarrow> string list outcome"
  es_applyBatch :: "canonical_batch \<Rightarrow> 's \<Rightarrow> 's written"
  es_rollbackAfter :: "int \<Rightarrow> int option \<Rightarrow> 's \<Rightarrow> 's written"

text \<open>Blocks and receipts as viem returns them; a log of a receipt comes with its \<open>removed\<close> flag.\<close>

record rpc_block =
  rb_hash :: "string option"
  rb_parentHash :: string
  rb_timestamp :: int

record rpc_receipt =
  rr_success :: bool
  rr_transactionHash :: string
  rr_blockHash :: string
  rr_blockNumber :: int
  rr_logs :: "(bool \<times> rpc_log) list"

datatype log_query =
    LogsOf "string list"
  | TransfersFrom string "string list"
  | TransfersTo string "string list"
  | UserOperationsOf "string list"

record 'w rpc_client =
  rc_getBlockNumber :: "('w, int) call"
  rc_getBlock :: "int \<Rightarrow> ('w, rpc_block) call"
  rc_getLogs :: "log_query \<Rightarrow> int \<Rightarrow> int \<Rightarrow> ('w, rpc_log list) call"
  rc_getTransactionReceipt :: "string \<Rightarrow> ('w, rpc_receipt) call"

record 'w financial_hooks =
  fi_paymentToken :: string
  fi_accounts :: "('w, string list) call"
  fi_scanned :: "string list \<Rightarrow> int \<Rightarrow> int \<Rightarrow> string \<Rightarrow> ('w, unit) call"
  fi_backfill :: "('w, unit) call"

record 'w indexer_options =
  io_chainId :: int
  io_deploymentBlock :: int
  io_confirmations :: int
  io_batchSize :: int
  io_blockConcurrency :: "rat option"
  io_canonicalMode :: "canonical_mode option"
  io_addresses :: "string list"
  io_factoryAddress :: "string option"
  io_protocol :: "protocol_version option"
  io_financial :: "'w financial_hooks option"

text \<open>The constructor's checks.\<close>

definition newChainIndexer :: "'w indexer_options \<Rightarrow> unit outcome" where
  "newChainIndexer opts =
     (let concurrency = (case io_blockConcurrency opts of None \<Rightarrow> 4 | Some n \<Rightarrow> n) in
      if io_batchSize opts < 1 \<or> 10000 < io_batchSize opts
      then Inl (RangeError ''batchSize must be within [1, 10000]'')
      else if io_confirmations opts < 0
      then Inl (RangeError ''confirmations must be non-negative'')
      else if snd (quotient_of concurrency) \<noteq> 1 \<or> concurrency < 1 \<or> 32 < concurrency
      then Inl (RangeError ''blockConcurrency must be an integer within [1, 32]'')
      else if io_addresses opts = [] \<and> io_factoryAddress opts = None
      then Inl (RangeError ''at least one core or Factory address is required'')
      else Inr ())"

definition canonical_mode_of :: "'w indexer_options \<Rightarrow> canonical_mode" where
  "canonical_mode_of opts = (case io_canonicalMode opts of None \<Rightarrow> Dense | Some m \<Rightarrow> m)"

definition stage_failed :: "string \<Rightarrow> js_error" where
  "stage_failed stage = JsError (''indexer sync stage failed: '' @ stage)"

definition syncStage :: "string \<Rightarrow> ('s, 'a) call \<Rightarrow> ('s, 'a) call" where
  "syncStage stage action = call_relabel (stage_failed stage) action"

definition written_call :: "('s \<Rightarrow> 's written) \<Rightarrow> ('s, unit) call" where
  "written_call g s = (case g s of (None, t) \<Rightarrow> (Inr (), t) | (Some e, t) \<Rightarrow> (Inl e, t))"

definition store_read :: "('s \<Rightarrow> 'a outcome) \<Rightarrow> ('s \<times> 'w, 'a) call" where
  "store_read g = on_left (\<lambda>s. (g s, s))"

definition store_write :: "('s \<Rightarrow> 's written) \<Rightarrow> ('s \<times> 'w, unit) call" where
  "store_write g = on_left (written_call g)"

section \<open>Logs\<close>

text \<open>\<open>uniqueAddresses\<close>: one checksummed address per lower-case spelling, in order of first use.\<close>

fun unique_from :: "(string \<Rightarrow> string option) \<Rightarrow> string list \<Rightarrow> (string, string) jsmap \<Rightarrow>
    (string, string) jsmap outcome" where
  "unique_from ga [] m = Inr m"
| "unique_from ga (v # vs) m =
     (case ga v of
        None \<Rightarrow> Inl (JsError ''InvalidAddressError'')
      | Some a \<Rightarrow> unique_from ga vs (map_set (toLowerCase v) a m))"

definition uniqueAddresses :: "(string \<Rightarrow> string option) \<Rightarrow> string list \<Rightarrow> string list outcome" where
  "uniqueAddresses ga vs = outcome_map map_values (unique_from ga vs [])"

fun deduplicate_from :: "rpc_log list \<Rightarrow> (string, rpc_log) jsmap \<Rightarrow> (string, rpc_log) jsmap outcome" where
  "deduplicate_from [] m = Inr m"
| "deduplicate_from (l # ls) m =
     (case (lg_transactionHash l, lg_logIndex l) of
        (Some h, Some i) \<Rightarrow> deduplicate_from ls (map_set (toLowerCase h @ '':'' @ dec i) l m)
      | _ \<Rightarrow> Inl (JsError ''indexer received a pending or incomplete discovery log''))"

definition deduplicateLogs :: "rpc_log list \<Rightarrow> rpc_log list outcome" where
  "deduplicateLogs ls = outcome_map map_values (deduplicate_from ls [])"

text \<open>The market a mutation names, where its kind has that field.\<close>

fun mutation_market :: "mutation \<Rightarrow> string option" where
  "mutation_market (MarketCreated m _ _ _) = Some m"
| "mutation_market (MarketInitialized m _ _ _ _ _ _ _ _ _ _) = Some m"
| "mutation_market (MarketMetadata m _ _ _ _ _ _ _ _ _ _) = Some m"
| "mutation_market (PrimaryPurchased m _ _ _ _ _ _) = Some m"
| "mutation_market (MarketTerminal m _ _ _ _ _ _) = Some m"
| "mutation_market _ = None"

fun is_created :: "mutation \<Rightarrow> bool" where
  "is_created (MarketCreated _ _ _ _) = True" | "is_created _ = False"

fun is_initialized :: "mutation \<Rightarrow> bool" where
  "is_initialized (MarketInitialized _ _ _ _ _ _ _ _ _ _ _) = True" | "is_initialized _ = False"

fun is_metadata :: "mutation \<Rightarrow> bool" where
  "is_metadata (MarketMetadata _ _ _ _ _ _ _ _ _ _ _) = True" | "is_metadata _ = False"

definition log_mutations :: "abi \<Rightarrow> int \<Rightarrow> protocol_version \<Rightarrow> rpc_log \<Rightarrow> mutation list outcome" where
  "log_mutations ab chainId protocol l =
     outcome_bind (normalizeLog (ab_address ab) chainId l ConfirmedBlock) (\<lambda>e. deriveMutations ab e protocol)"

text \<open>The logs of the factory that create a market, each with the market's address in lower case.\<close>

fun creations_of :: "abi \<Rightarrow> int \<Rightarrow> protocol_version \<Rightarrow> string \<Rightarrow> rpc_log list \<Rightarrow>
    (rpc_log \<times> string) list outcome" where
  "creations_of ab chainId protocol factory [] = Inr []"
| "creations_of ab chainId protocol factory (l # ls) =
     (if toLowerCase (lg_address l) \<noteq> toLowerCase factory
      then creations_of ab chainId protocol factory ls
      else outcome_bind (log_mutations ab chainId protocol l) (\<lambda>ms.
        outcome_map (\<lambda>rest. (case find is_created ms of
            Some m \<Rightarrow> (l, toLowerCase (mu_market m)) # rest
          | None \<Rightarrow> rest)) (creations_of ab chainId protocol factory ls)))"

definition creation_complete ::
  "abi \<Rightarrow> int \<Rightarrow> protocol_version \<Rightarrow> rpc_log \<Rightarrow> string \<Rightarrow> rpc_log list \<Rightarrow> bool outcome" where
  "creation_complete ab chainId protocol creation market logs =
     outcome_map
       (\<lambda>mss. let ms = filter (\<lambda>m. map_option toLowerCase (mutation_market m) = Some market) (concat mss)
              in list_ex is_initialized ms \<and> list_ex is_metadata ms)
       (traverse (log_mutations ab chainId protocol)
         (filter (\<lambda>l. toLowerCase (lg_address l) = market \<and>
                      lg_transactionHash l = lg_transactionHash creation \<and>
                      lg_blockHash l = lg_blockHash creation \<and>
                      lg_blockNumber l = lg_blockNumber creation) logs))"

definition receipt_matches :: "string \<Rightarrow> rpc_log \<Rightarrow> rpc_receipt \<Rightarrow> bool" where
  "receipt_matches factory creation r =
     (rr_success r \<and> Some (rr_transactionHash r) = lg_transactionHash creation \<and>
      Some (rr_blockHash r) = lg_blockHash creation \<and> Some (rr_blockNumber r) = lg_blockNumber creation \<and>
      list_ex (\<lambda>(removed, l). toLowerCase (lg_address l) = toLowerCase factory \<and>
                 lg_logIndex l = lg_logIndex creation \<and> lg_data l = lg_data creation \<and>
                 lg_topics l = lg_topics creation) (rr_logs r))"

fun vault_logs :: "string \<Rightarrow> rpc_receipt \<Rightarrow> (bool \<times> rpc_log) list \<Rightarrow> rpc_log list outcome" where
  "vault_logs market r [] = Inr []"
| "vault_logs market r ((removed, l) # ls) =
     (if toLowerCase (lg_address l) \<noteq> market then vault_logs market r ls
      else if removed \<or> lg_blockHash l \<noteq> Some (rr_blockHash r) \<or> lg_blockNumber l \<noteq> Some (rr_blockNumber r) \<or>
              lg_transactionHash l \<noteq> Some (rr_transactionHash r)
      then Inl (JsError ''creation receipt contains inconsistent vault logs'')
      else outcome_map (\<lambda>rest. l # rest) (vault_logs market r ls))"

definition complete_creation ::
  "'w rpc_client \<Rightarrow> abi \<Rightarrow> int \<Rightarrow> protocol_version \<Rightarrow> string \<Rightarrow> rpc_log \<Rightarrow> string \<Rightarrow> rpc_log list \<Rightarrow>
     ('w, rpc_log list) call" where
  "complete_creation cl ab chainId protocol factory creation market logs =
     call_bind (call_of (creation_complete ab chainId protocol creation market logs)) (\<lambda>whole.
       if whole then call_return logs
       else case lg_transactionHash creation of
         None \<Rightarrow> call_throw (TypeError ''transaction hash is null'')
       | Some h \<Rightarrow>
           call_bind (rc_getTransactionReceipt cl h) (\<lambda>r.
             if \<not> receipt_matches factory creation r
             then call_throw (JsError ''creation receipt does not match discovered event'')
             else call_bind (call_of (vault_logs market r (rr_logs r))) (\<lambda>extra.
               call_bind (call_of (creation_complete ab chainId protocol creation market (logs @ extra))) (\<lambda>whole'.
                 if whole' then call_return (logs @ extra)
                 else call_throw (JsError ''creation receipt is missing initialization or metadata'')))))"

fun complete_creations ::
  "'w rpc_client \<Rightarrow> abi \<Rightarrow> int \<Rightarrow> protocol_version \<Rightarrow> string \<Rightarrow> (rpc_log \<times> string) list \<Rightarrow> rpc_log list \<Rightarrow>
     ('w, rpc_log list) call" where
  "complete_creations cl ab chainId protocol factory [] logs = call_return logs"
| "complete_creations cl ab chainId protocol factory ((creation, market) # cs) logs =
     call_bind (complete_creation cl ab chainId protocol factory creation market logs)
       (complete_creations cl ab chainId protocol factory cs)"

definition completeMarketCreationLogs ::
  "'w rpc_client \<Rightarrow> abi \<Rightarrow> rpc_log list \<Rightarrow> string \<Rightarrow> int \<Rightarrow> protocol_version option \<Rightarrow>
     ('w, rpc_log list) call" where
  "completeMarketCreationLogs cl ab logs factory chainId protocol =
     (let p = (case protocol of None \<Rightarrow> TimeV2 | Some v \<Rightarrow> v) in
      call_bind (call_of (creations_of ab chainId p factory logs)) (\<lambda>cs.
        complete_creations cl ab chainId p factory cs logs))"

text \<open>Payment-token and entry-point logs, read in groups of fifty tracked accounts.\<close>

function in_groups :: "nat \<Rightarrow> 'a list \<Rightarrow> 'a list list" where
  "in_groups n xs = (if xs = [] then [] else take (Suc n) xs # in_groups n (drop (Suc n) xs))"
  by pat_completeness auto
termination by (relation "measure (\<lambda>(n, xs). length xs)") auto

declare in_groups.simps [simp del]

definition group_logs ::
  "'w rpc_client \<Rightarrow> string \<Rightarrow> int \<Rightarrow> int \<Rightarrow> string list \<Rightarrow> ('w, rpc_log list) call" where
  "group_logs cl token fromBlock toBlock owners =
     call_bind (call_each (\<lambda>q. rc_getLogs cl q fromBlock toBlock)
       [TransfersFrom token owners, TransfersTo token owners, UserOperationsOf owners])
       (\<lambda>groups. call_return (concat groups))"

definition scopedAccountLogs ::
  "'w rpc_client \<Rightarrow> (string \<Rightarrow> string option) \<Rightarrow> string \<Rightarrow> string list \<Rightarrow> int \<Rightarrow> int \<Rightarrow>
     ('w, rpc_log list) call" where
  "scopedAccountLogs cl ga token accounts fromBlock toBlock =
     call_bind (call_of (traverse (\<lambda>a. case ga a of None \<Rightarrow> Inl (JsError ''InvalidAddressError'')
                                                  | Some c \<Rightarrow> Inr c) accounts)) (\<lambda>checked.
       call_bind (call_each (group_logs cl token fromBlock toBlock) (in_groups 49 (fold set_add checked [])))
         (\<lambda>groups. call_return (concat groups)))"


section \<open>Canonical anchors\<close>

definition mapConcurrent :: "('a \<Rightarrow> ('s, 'b) call) \<Rightarrow> 'a list \<Rightarrow> ('s, 'b list) call" where
  "mapConcurrent action inputs = call_each action inputs"

definition anchor_numbers :: "canonical_mode \<Rightarrow> int \<Rightarrow> int \<Rightarrow> int list \<Rightarrow> int list" where
  "anchor_numbers mode fromBlock toBlock eventBlocks =
     (case mode of
        Dense \<Rightarrow> [fromBlock..toBlock]
      | Sparse \<Rightarrow> fold set_add (sort (eventBlocks @ [toBlock])) [])"

definition canonical_anchor ::
  "int \<Rightarrow> confirmation \<Rightarrow> int \<times> rpc_block \<Rightarrow> canonical_block outcome" where
  "canonical_anchor chainId status nb =
     (case rb_hash (snd nb) of
        None \<Rightarrow> Inl (JsError ''RPC returned an incomplete canonical block'')
      | Some h \<Rightarrow> Inr \<lparr>cb_chainId = chainId, cb_blockNumber = fst nb, cb_blockHash = h,
                       cb_parentHash = rb_parentHash (snd nb), cb_timestamp = rb_timestamp (snd nb),
                       cb_status = status\<rparr>)"

definition loadCanonicalAnchors ::
  "'w rpc_client \<Rightarrow> 'w indexer_options \<Rightarrow> int \<Rightarrow> int \<Rightarrow> confirmation \<Rightarrow> int list \<Rightarrow>
     ('w, canonical_block list) call" where
  "loadCanonicalAnchors cl opts fromBlock toBlock status eventBlocks =
     (let numbers = anchor_numbers (canonical_mode_of opts) fromBlock toBlock eventBlocks in
      call_bind (mapConcurrent (rc_getBlock cl) numbers) (\<lambda>blocks.
        call_of (traverse (canonical_anchor (io_chainId opts) status) (zip numbers blocks))))"

text \<open>The parent hash each block must have: the block before it, for the first one the checkpoint.\<close>

fun validateLineage :: "string option \<Rightarrow> canonical_block list \<Rightarrow> unit outcome" where
  "validateLineage parent [] = Inr ()"
| "validateLineage parent (b # bs) =
     (if (case parent of None \<Rightarrow> False | Some h \<Rightarrow> cb_parentHash b \<noteq> h)
      then Inl (JsError (''canonical lineage changed at block '' @ dec (cb_blockNumber b)))
      else validateLineage (Some (cb_blockHash b)) bs)"

definition block_number_order :: "canonical_block \<Rightarrow> canonical_block \<Rightarrow> int" where
  "block_number_order a b =
     (if cb_blockNumber a < cb_blockNumber b then -1 else if cb_blockNumber b < cb_blockNumber a then 1 else 0)"

interpretation block_numbers: comparator block_number_order
  by unfold_locales (auto simp: block_number_order_def split: if_splits)

fun validate_adjacent :: "(int \<times> string) option \<Rightarrow> canonical_block list \<Rightarrow> unit outcome" where
  "validate_adjacent previous [] = Inr ()"
| "validate_adjacent previous (b # bs) =
     (if (case previous of None \<Rightarrow> False
          | Some (n, h) \<Rightarrow> n + 1 = cb_blockNumber b \<and> cb_parentHash b \<noteq> h)
      then Inl (JsError (''canonical lineage changed at block '' @ dec (cb_blockNumber b)))
      else validate_adjacent (Some (cb_blockNumber b, cb_blockHash b)) bs)"

definition validateAdjacentAnchors :: "canonical_block list \<Rightarrow> chain_checkpoint option \<Rightarrow> unit outcome" where
  "validateAdjacentAnchors blocks checkpoint =
     validate_adjacent (map_option (\<lambda>k. (ck_blockNumber k, ck_blockHash k)) checkpoint)
       (js_sort block_number_order blocks)"

definition verifyCommitFence :: "'w rpc_client \<Rightarrow> chain_checkpoint \<Rightarrow> ('w, unit) call" where
  "verifyCommitFence cl endpoint =
     call_bind (rc_getBlock cl (ck_blockNumber endpoint)) (\<lambda>b.
       call_require (rb_hash b = Some (ck_blockHash endpoint)) (JsError ''canonical stability fence changed''))"

section \<open>Reconciliation with the chain\<close>

text \<open>
  Walks stored blocks downwards from \<open>cursor\<close> to the first one whose hash the chain still has, giving
  up below \<open>lowest\<close>. The dense part of a range and the history below the oldest range use the same walk.
\<close>

function matching_block_down ::
  "'s event_store_ops \<Rightarrow> 'w rpc_client \<Rightarrow> int \<Rightarrow> int \<Rightarrow> int \<Rightarrow> ('s \<times> 'w, int option) call" where
  "matching_block_down st cl chainId lowest cursor =
     (if cursor < lowest then call_return None
      else call_bind (store_read (es_canonicalBlock st chainId cursor)) (\<lambda>stored.
        case stored of
          None \<Rightarrow> call_throw (JsError (''missing persisted canonical block '' @ dec cursor))
        | Some old \<Rightarrow>
            call_bind (on_right (rc_getBlock cl cursor)) (\<lambda>b.
              if rb_hash b = Some (cb_blockHash old) then call_return (Some cursor)
              else matching_block_down st cl chainId lowest (cursor - 1))))"
  by pat_completeness auto
termination
  by (relation "measure (\<lambda>(st, cl, chainId, lowest, cursor). nat (cursor + 1 - lowest))") auto

declare matching_block_down.simps [simp del]

fun matching_range_end ::
  "'s event_store_ops \<Rightarrow> 'w rpc_client \<Rightarrow> int \<Rightarrow> chain_checkpoint \<Rightarrow> scan_range list \<Rightarrow>
     ('s \<times> 'w, int option) call" where
  "matching_range_end st cl chainId checkpoint [] = call_return None"
| "matching_range_end st cl chainId checkpoint (r # rs) =
     (if ck_blockNumber checkpoint < sr_toBlock r then matching_range_end st cl chainId checkpoint rs
      else call_bind (store_read (es_canonicalBlock st chainId (sr_toBlock r))) (\<lambda>stored.
        if map_option cb_blockHash stored \<noteq> Some (sr_endBlockHash r)
        then call_throw (JsError (''missing persisted range endpoint '' @ dec (sr_toBlock r)))
        else call_bind (on_right (rc_getBlock cl (sr_toBlock r))) (\<lambda>b.
          if rb_hash b = Some (sr_endBlockHash r) then call_return (Some (sr_toBlock r))
          else if sr_mode r = Dense
          then call_bind (matching_block_down st cl chainId (sr_fromBlock r) (sr_toBlock r - 1)) (\<lambda>found.
            case found of
              Some n \<Rightarrow> call_return (Some n)
            | None \<Rightarrow> matching_range_end st cl chainId checkpoint rs)
          else matching_range_end st cl chainId checkpoint rs)))"

text \<open>Where the walk below the oldest range starts, if anywhere.\<close>

definition history_start :: "chain_checkpoint \<Rightarrow> scan_range list \<Rightarrow> int option" where
  "history_start checkpoint ranges =
     (if ranges = [] then Some (ck_blockNumber checkpoint)
      else map_option ck_blockNumber (sr_predecessor (last ranges)))"

definition common_ancestor ::
  "'s event_store_ops \<Rightarrow> 'w rpc_client \<Rightarrow> 'w indexer_options \<Rightarrow> chain_checkpoint \<Rightarrow> scan_range list \<Rightarrow>
     ('s \<times> 'w, int option) call" where
  "common_ancestor st cl opts checkpoint ranges =
     call_bind (matching_range_end st cl (io_chainId opts) checkpoint ranges) (\<lambda>found.
       case found of
         Some n \<Rightarrow> call_return (Some n)
       | None \<Rightarrow>
           (case history_start checkpoint ranges of
              None \<Rightarrow> call_return None
            | Some n \<Rightarrow> matching_block_down st cl (io_chainId opts) (io_deploymentBlock opts) n))"

definition reconcileCheckpoint ::
  "'s event_store_ops \<Rightarrow> 'w rpc_client \<Rightarrow> 'w indexer_options \<Rightarrow> ('s \<times> 'w, chain_checkpoint option) call" where
  "reconcileCheckpoint st cl opts =
     call_bind (store_read (es_checkpoint st (io_chainId opts))) (\<lambda>current.
       case current of
         None \<Rightarrow> call_return None
       | Some checkpoint \<Rightarrow>
           call_bind (store_read (es_scanRanges st (io_chainId opts))) (\<lambda>ranges.
             call_bind (common_ancestor st cl opts checkpoint ranges) (\<lambda>ancestor.
               if ancestor = Some (ck_blockNumber checkpoint) then call_return (Some checkpoint)
               else call_bind (store_write (es_rollbackAfter st (io_chainId opts) ancestor)) (\<lambda>_.
                 store_read (es_checkpoint st (io_chainId opts))))))"

section \<open>One ingestion step\<close>

record batch_result =
  br_fromBlock :: int
  br_toBlock :: int
  br_blockCount :: int
  br_anchorCount :: nat
  br_eventCount :: nat
  br_discoveredMarkets :: nat
  br_status :: confirmation
  br_caughtUp :: bool

definition discoveryLogs ::
  "'w rpc_client \<Rightarrow> 'w indexer_options \<Rightarrow> int \<Rightarrow> int \<Rightarrow> ('w, rpc_log list) call" where
  "discoveryLogs cl opts fromBlock toBlock =
     (case io_factoryAddress opts of
        None \<Rightarrow> call_return []
      | Some f \<Rightarrow> rc_getLogs cl (LogsOf [f]) fromBlock toBlock)"

definition late_markets :: "abi \<Rightarrow> 'w indexer_options \<Rightarrow> string list \<Rightarrow> rpc_log list \<Rightarrow> string list outcome" where
  "late_markets ab opts addresses logs =
     (case io_factoryAddress opts of
        None \<Rightarrow> Inr []
      | Some f \<Rightarrow>
          outcome_map (filter (\<lambda>m. \<not> list_ex (\<lambda>a. toLowerCase a = toLowerCase m) addresses))
            (discoverMarketAddresses ab
              (filter (\<lambda>l. toLowerCase (lg_address l) = toLowerCase f) logs)))"

text \<open>The logs of the scanned range, with the markets found on the way.\<close>

definition range_logs ::
  "'s event_store_ops \<Rightarrow> 'w rpc_client \<Rightarrow> abi \<Rightarrow> 'w indexer_options \<Rightarrow> int \<Rightarrow> int \<Rightarrow>
     ('s \<times> 'w, rpc_log list \<times> string list) call" where
  "range_logs st cl ab opts fromBlock toBlock =
     call_bind (syncStage ''discovery-logs'' (on_right (discoveryLogs cl opts fromBlock toBlock))) (\<lambda>discovery.
     call_bind (call_of (discoverMarketAddresses ab discovery)) (\<lambda>discovered.
     call_bind (syncStage ''registered-markets'' (store_read (es_registeredMarkets st (io_chainId opts)))) (\<lambda>registered.
     call_bind (call_of (uniqueAddresses (ab_address ab)
         (io_addresses opts @ (case io_factoryAddress opts of None \<Rightarrow> [] | Some f \<Rightarrow> [f]) @
          registered @ discovered))) (\<lambda>addresses.
     call_bind (syncStage ''event-logs'' (on_right (rc_getLogs cl (LogsOf addresses) fromBlock toBlock))) (\<lambda>first.
     call_bind (call_of (late_markets ab opts addresses first)) (\<lambda>late.
     call_bind (if late = [] then call_return first
                else call_bind (syncStage ''event-logs'' (on_right (rc_getLogs cl (LogsOf late) fromBlock toBlock)))
                       (\<lambda>more. call_return (first @ more))) (\<lambda>logs.
     call_bind (case io_factoryAddress opts of
         None \<Rightarrow> call_return (discovery @ logs)
       | Some f \<Rightarrow> syncStage ''event-logs''
           (call_bind (call_of (deduplicateLogs (discovery @ logs))) (\<lambda>unique.
              on_right (completeMarketCreationLogs cl ab unique f (io_chainId opts) (io_protocol opts)))))
       (\<lambda>creation. call_return (creation, discovered @ late)))))))))"

definition tracked_logs ::
  "'w rpc_client \<Rightarrow> abi \<Rightarrow> 'w indexer_options \<Rightarrow> int \<Rightarrow> int \<Rightarrow>
     ('s \<times> 'w, string list \<times> rpc_log list) call" where
  "tracked_logs cl ab opts fromBlock toBlock =
     (case io_financial opts of
        None \<Rightarrow> call_return ([], [])
      | Some fi \<Rightarrow>
          call_bind (on_right (fi_accounts fi)) (\<lambda>tracked.
            call_bind (syncStage ''event-logs''
                (on_right (scopedAccountLogs cl (ab_address ab) (fi_paymentToken fi) tracked fromBlock toBlock)))
              (\<lambda>scoped. call_return (tracked, scoped))))"

definition ordered_events ::
  "abi \<Rightarrow> int \<Rightarrow> confirmation \<Rightarrow> rpc_log list \<Rightarrow> indexed_event list outcome" where
  "ordered_events ab chainId status logs =
     outcome_bind (deduplicateLogs logs) (\<lambda>unique.
       outcome_map (js_sort compareEvents)
         (traverse (\<lambda>l. normalizeLog (ab_address ab) chainId l status) unique))"

definition check_anchors ::
  "'w indexer_options \<Rightarrow> chain_checkpoint option \<Rightarrow> canonical_block list \<Rightarrow> indexed_event list \<Rightarrow> int \<Rightarrow>
     canonical_block outcome" where
  "check_anchors opts checkpoint anchors es toBlock =
     outcome_bind (if canonical_mode_of opts = Dense
                   then validateLineage (map_option ck_blockHash checkpoint) anchors
                   else validateAdjacentAnchors anchors checkpoint) (\<lambda>_.
       let hashes = fold (\<lambda>b m. map_set (cb_blockNumber b) (cb_blockHash b) m) anchors [] in
       if list_ex (\<lambda>e. map_get hashes (ev_blockNumber e) \<noteq> Some (ev_blockHash e)) es
       then Inl (JsError ''event logs do not match canonical batch'')
       else case find (\<lambda>b. cb_blockNumber b = toBlock) anchors of
         None \<Rightarrow> Inl (JsError ''canonical batch endpoint is missing'')
       | Some e \<Rightarrow> Inr e)"

definition scan_and_commit ::
  "'s event_store_ops \<Rightarrow> 'w rpc_client \<Rightarrow> abi \<Rightarrow> 'w indexer_options \<Rightarrow> chain_checkpoint option \<Rightarrow> int \<Rightarrow> int \<Rightarrow>
     int \<Rightarrow> ('s \<times> 'w, batch_result option) call" where
  "scan_and_commit st cl ab opts checkpoint fromBlock toBlock safeHead =
     (let status = confirmationFor (io_confirmations opts) in
      call_bind (range_logs st cl ab opts fromBlock toBlock) (\<lambda>(creation, markets).
      call_bind (tracked_logs cl ab opts fromBlock toBlock) (\<lambda>(tracked, scoped).
      call_bind (call_of (ordered_events ab (io_chainId opts) status (creation @ scoped))) (\<lambda>es.
      call_bind (syncStage ''canonical-blocks'' (on_right (loadCanonicalAnchors cl opts fromBlock toBlock status
          (fold set_add (map ev_blockNumber es) [])))) (\<lambda>anchors.
      call_bind (call_of (check_anchors opts checkpoint anchors es toBlock)) (\<lambda>endBlock.
      let next = \<lparr>ck_chainId = io_chainId opts, ck_blockNumber = cb_blockNumber endBlock,
                  ck_blockHash = cb_blockHash endBlock\<rparr>;
          batch = \<lparr>bt_range = \<lparr>sr_chainId = io_chainId opts, sr_fromBlock = fromBlock, sr_toBlock = toBlock,
                     sr_predecessor = checkpoint, sr_endBlockHash = cb_blockHash endBlock, sr_status = status,
                     sr_mode = canonical_mode_of opts\<rparr>,
                   bt_anchors = anchors, bt_events = es, bt_checkpoint = next\<rparr>
      in
      call_bind (syncStage ''canonical-blocks'' (on_right (verifyCommitFence cl next))) (\<lambda>_.
      call_bind (syncStage ''batch-write'' (store_write (es_applyBatch st batch))) (\<lambda>_.
      call_bind (case io_financial opts of
          None \<Rightarrow> call_return ()
        | Some fi \<Rightarrow> syncStage ''batch-write''
            (on_right (fi_scanned fi tracked fromBlock toBlock (cb_blockHash endBlock)))) (\<lambda>_.
      call_bind (call_of (uniqueAddresses (ab_address ab) markets)) (\<lambda>found.
      call_return (Some \<lparr>br_fromBlock = fromBlock, br_toBlock = toBlock, br_blockCount = toBlock - fromBlock + 1,
        br_anchorCount = length anchors, br_eventCount = length es, br_discoveredMarkets = length found,
        br_status = status, br_caughtUp = (toBlock = safeHead)\<rparr>)))))))))))"

definition runBatch ::
  "'s event_store_ops \<Rightarrow> 'w rpc_client \<Rightarrow> abi \<Rightarrow> 'w indexer_options \<Rightarrow>
     ('s \<times> 'w, batch_result option) call" where
  "runBatch st cl ab opts =
     call_bind (syncStage ''reconcile'' (reconcileCheckpoint st cl opts)) (\<lambda>checkpoint.
     call_bind (case io_financial opts of
         None \<Rightarrow> call_return ()
       | Some fi \<Rightarrow> syncStage ''event-logs'' (on_right (fi_backfill fi))) (\<lambda>_.
     call_bind (syncStage ''chain-head'' (on_right (rc_getBlockNumber cl))) (\<lambda>chainHead.
     if chainHead < io_confirmations opts then call_return None
     else
       let safeHead = chainHead - io_confirmations opts;
           fromBlock = (case checkpoint of None \<Rightarrow> io_deploymentBlock opts | Some k \<Rightarrow> ck_blockNumber k + 1)
       in if safeHead < fromBlock then call_return None
          else scan_and_commit st cl ab opts checkpoint fromBlock
                 (min (fromBlock + io_batchSize opts - 1) safeHead) safeHead)))"

end
