(* ===== verification/Store_Contract.thy ===== *)
theory Store_Contract
  imports Indexer
begin

text \<open>
  The contract between \<open>ChainIndexer\<close> and its \<open>EventStore\<close> as a locale, and what the indexer achieves on
  any store that keeps it: reconciliation ends on a block the chain still has and gives up no range that
  still matches, a step commits the next blocks in order, and an idle step means there is nothing to do.
\<close>

section \<open>Calls that leave the store alone\<close>

definition store_is :: "'s \<Rightarrow> 's \<times> 'w \<Rightarrow> bool" where
  "store_is s x = (fst x = s)"

lemma on_right_store: "call_keeps (store_is s) (on_right m)"
  by (simp add: call_keeps_def on_right_def store_is_def split: prod.splits)

lemma store_read_store: "call_keeps (store_is s) (store_read g)"
  by (simp add: call_keeps_def store_read_def on_left_def store_is_def)

lemma syncStage_keeps: "call_keeps I m \<Longrightarrow> call_keeps I (syncStage stage m)"
  unfolding syncStage_def by (rule keeps_relabel)

lemmas store_same = call_keep on_right_store store_read_store syncStage_keeps

lemma matching_block_down_store: "call_keeps (store_is s) (matching_block_down st cl chainId lowest cursor)"
proof (induction st cl chainId lowest cursor rule: matching_block_down.induct)
  case (1 st cl chainId lowest cursor)
  show ?case
    by (subst matching_block_down.simps) (auto intro!: store_same 1 split: option.splits)
qed

lemma matching_range_end_store: "call_keeps (store_is s) (matching_range_end st cl chainId checkpoint rs)"
  by (induction rs) (auto intro!: store_same matching_block_down_store split: option.splits)

lemma common_ancestor_store: "call_keeps (store_is s) (common_ancestor st cl opts checkpoint rs)"
  unfolding common_ancestor_def
  by (auto intro!: store_same matching_range_end_store matching_block_down_store split: option.splits)

lemma range_logs_store: "call_keeps (store_is s) (range_logs st cl ab opts a b)"
  unfolding range_logs_def by (auto intro!: store_same split: option.splits)

lemma tracked_logs_store: "call_keeps (store_is s) (tracked_logs cl ab opts a b)"
  unfolding tracked_logs_def by (auto intro!: store_same split: option.splits)

lemma keeps_store: "call_keeps (store_is (fst x)) m \<Longrightarrow> m x = (v, y) \<Longrightarrow> fst y = fst x"
  using call_keepsD [of "store_is (fst x)" m x v y] by (simp add: store_is_def)

lemma syncStage_done [call_done]: "syncStage stage m x = (Inr a, y) \<longleftrightarrow> m x = (Inr a, y)"
  by (simp add: syncStage_def call_done)

lemma store_read_done [call_done]: "store_read g x = (Inr a, y) \<longleftrightarrow> g (fst x) = Inr a \<and> y = x"
  by (cases x; cases y) (auto simp: store_read_def call_done)

lemma written_call_done [call_done]: "written_call g s = (Inr u, t) \<longleftrightarrow> g s = (None, t)"
  by (auto simp: written_call_def split: prod.splits option.splits)

lemma store_write_done [call_done]:
  "store_write g x = (Inr u, y) \<longleftrightarrow> g (fst x) = (None, fst y) \<and> snd y = snd x"
  by (simp add: store_write_def call_done)

section \<open>The contract\<close>

locale event_store =
  fixes st :: "'s event_store_ops"
    and intact :: "'s \<Rightarrow> bool"
  assumes checkpoint_anchored:
      "\<lbrakk>intact s; es_checkpoint st c s = Inr (Some k)\<rbrakk> \<Longrightarrow>
       ck_chainId k = c \<and> (\<exists>b. es_canonicalBlock st c (ck_blockNumber k) s = Inr (Some b) \<and>
         cb_blockHash b = ck_blockHash k)"
    and ranges_descend:
      "\<lbrakk>intact s; es_scanRanges st c s = Inr rs\<rbrakk> \<Longrightarrow>
       sorted_wrt (\<lambda>r r'. sr_toBlock r' < sr_fromBlock r) rs \<and> list_all (\<lambda>r. sr_fromBlock r \<le> sr_toBlock r) rs"
    and apply_accepts: "es_applyBatch st b s = (None, s') \<Longrightarrow> validateCanonicalBatch b = Inr ()"
    and apply_commits:
      "\<lbrakk>intact s; in_event_order (bt_events b); es_applyBatch st b s = (None, s')\<rbrakk> \<Longrightarrow>
       intact s' \<and> es_checkpoint st (ck_chainId (bt_checkpoint b)) s' = Inr (Some (bt_checkpoint b))"
    and rollback_moves:
      "\<lbrakk>intact s; es_rollbackAfter st c n s = (None, s')\<rbrakk> \<Longrightarrow> intact s' \<and>
       (case n of
          None \<Rightarrow> es_checkpoint st c s' = Inr None
        | Some m \<Rightarrow> \<exists>b. es_canonicalBlock st c m s = Inr (Some b) \<and>
            es_checkpoint st c s' = Inr (Some \<lparr>ck_chainId = c, ck_blockNumber = m, ck_blockHash = cb_blockHash b\<rparr>))"

section \<open>A chain that does not move\<close>

definition stable_chain :: "'w rpc_client \<Rightarrow> (int \<Rightarrow> rpc_block) \<Rightarrow> bool" where
  "stable_chain cl blk = (\<forall>n w. fst (rc_getBlock cl n w) = Inr (blk n))"

definition stable_head :: "'w rpc_client \<Rightarrow> int \<Rightarrow> bool" where
  "stable_head cl h = (\<forall>w. fst (rc_getBlockNumber cl w) = Inr h)"

lemma stable_read: "stable_chain cl blk \<Longrightarrow> rc_getBlock cl n w = (Inr b, w') \<Longrightarrow> b = blk n"
  unfolding stable_chain_def by (metis fst_conv Inr_inject)

definition on_chain :: "(int \<Rightarrow> rpc_block) \<Rightarrow> int \<Rightarrow> string \<Rightarrow> bool" where
  "on_chain blk n h = (rb_hash (blk n) = Some h)"

lemma matching_block_down_finds:
  assumes "stable_chain cl blk"
  shows "matching_block_down st cl chainId lowest cursor x = (Inr (Some n), y) \<Longrightarrow>
    lowest \<le> n \<and> n \<le> cursor \<and>
    (\<exists>b. es_canonicalBlock st chainId n (fst x) = Inr (Some b) \<and> on_chain blk n (cb_blockHash b))"
  using assms
proof (induction st cl chainId lowest cursor arbitrary: x y rule: matching_block_down.induct)
  case (1 st cl chainId lowest cursor)
  show ?case
  proof (cases "cursor < lowest")
    case True
    then show ?thesis using "1.prems" by (subst (asm) matching_block_down.simps) (simp add: call_done)
  next
    case False
    obtain old z b where step: "es_canonicalBlock st chainId cursor (fst x) = Inr (Some old)"
      "on_right (rc_getBlock cl cursor) x = (Inr b, z)"
      "(if rb_hash b = Some (cb_blockHash old) then call_return (Some cursor)
        else matching_block_down st cl chainId lowest (cursor - 1)) z = (Inr (Some n), y)"
      using "1.prems"(1) False
      by (subst (asm) matching_block_down.simps) (auto simp: call_done split: option.splits)
    have b: "b = blk cursor" and z: "fst z = fst x"
      using step(2) stable_read [OF "1.prems"(2)] by (auto simp: call_done)
    show ?thesis
    proof (cases "rb_hash b = Some (cb_blockHash old)")
      case True
      then show ?thesis using step False b by (auto simp: call_done on_chain_def)
    next
      case neq: False
      then have "matching_block_down st cl chainId lowest (cursor - 1) z = (Inr (Some n), y)"
        using step(3) by simp
      from "1.IH" [OF False neq this "1.prems"(2)] show ?thesis using z by auto
    qed
  qed
qed


lemma matching_range_end_step:
  assumes "stable_chain cl blk" "\<not> ck_blockNumber k < sr_toBlock r"
    and "matching_range_end st cl chainId k (r # rs) x = (Inr found, y)"
  obtains (hit) b where "es_canonicalBlock st chainId (sr_toBlock r) (fst x) = Inr (Some b)"
      "cb_blockHash b = sr_endBlockHash r" "on_chain blk (sr_toBlock r) (sr_endBlockHash r)" "found = Some (sr_toBlock r)"
  | (inside) n z z' where "\<not> on_chain blk (sr_toBlock r) (sr_endBlockHash r)" "fst z = fst x" "found = Some n"
      "matching_block_down st cl chainId (sr_fromBlock r) (sr_toBlock r - 1) z = (Inr (Some n), z')"
  | (rest) z where "\<not> on_chain blk (sr_toBlock r) (sr_endBlockHash r)" "fst z = fst x"
      "matching_range_end st cl chainId k rs z = (Inr found, y)"
proof -
  define after where "after = (\<lambda>b :: rpc_block. if rb_hash b = Some (sr_endBlockHash r) then call_return (Some (sr_toBlock r))
      else if sr_mode r = Dense
      then call_bind (matching_block_down st cl chainId (sr_fromBlock r) (sr_toBlock r - 1)) (\<lambda>found.
          case found of Some n \<Rightarrow> call_return (Some n) | None \<Rightarrow> matching_range_end st cl chainId k rs)
      else matching_range_end st cl chainId k rs)"
  have "matching_range_end st cl chainId k (r # rs) x =
      call_bind (store_read (es_canonicalBlock st chainId (sr_toBlock r))) (\<lambda>stored.
        if map_option cb_blockHash stored \<noteq> Some (sr_endBlockHash r)
        then call_throw (JsError (''missing persisted range endpoint '' @ dec (sr_toBlock r)))
        else call_bind (on_right (rc_getBlock cl (sr_toBlock r))) after) x"
    unfolding after_def matching_range_end.simps if_not_P [OF assms(2)] ..
  then obtain old b z where step: "es_canonicalBlock st chainId (sr_toBlock r) (fst x) = Inr (Some old)"
    "cb_blockHash old = sr_endBlockHash r"
    "on_right (rc_getBlock cl (sr_toBlock r)) x = (Inr b, z)" "after b z = (Inr found, y)"
    using assms(3) by (auto simp: call_bind_done store_read_done call_throw_done split: if_splits)
  have z: "fst z = fst x" and b: "b = blk (sr_toBlock r)"
    using step(3) stable_read [OF assms(1)] by (auto simp: call_done)
  consider "rb_hash b = Some (sr_endBlockHash r)" "found = Some (sr_toBlock r)"
    | n z' where "rb_hash b \<noteq> Some (sr_endBlockHash r)" "found = Some n"
        "matching_block_down st cl chainId (sr_fromBlock r) (sr_toBlock r - 1) z = (Inr (Some n), z')"
    | z' where "rb_hash b \<noteq> Some (sr_endBlockHash r)" "fst z' = fst z"
        "matching_range_end st cl chainId k rs z' = (Inr found, y)"
  proof (cases "rb_hash b = Some (sr_endBlockHash r)")
    case True
    then show ?thesis using that(1) step(4) by (simp add: after_def call_done)
  next
    case False
    show ?thesis
    proof (cases "sr_mode r = Dense")
      case True
      then obtain g z' where g: "matching_block_down st cl chainId (sr_fromBlock r) (sr_toBlock r - 1) z = (Inr g, z')"
        "(case g of Some n \<Rightarrow> call_return (Some n) | None \<Rightarrow> matching_range_end st cl chainId k rs) z' = (Inr found, y)"
        using step(4) unfolding after_def if_not_P [OF False] if_P [OF True] call_bind_done by blast
      show ?thesis
      proof (cases g)
        case None
        then show ?thesis using that(3) False g keeps_store [OF matching_block_down_store g(1)] by simp
      next
        case (Some n)
        then show ?thesis using that(2) False g by (simp add: call_done)
      qed
    next
      case sparse: False
      then show ?thesis using that(3) [of z] False step(4) by (simp add: after_def)
    qed
  qed
  then show ?thesis
    using hit [OF step(1,2)] inside rest b z by cases (auto simp: on_chain_def)
qed

lemma matching_range_end_finds:
  assumes "stable_chain cl blk" "matching_range_end st cl chainId k rs x = (Inr (Some n), y)"
  shows "\<exists>b. es_canonicalBlock st chainId n (fst x) = Inr (Some b) \<and> on_chain blk n (cb_blockHash b)"
  using assms(2)
proof (induction rs arbitrary: x)
  case (Cons r rs)
  show ?case
  proof (cases "ck_blockNumber k < sr_toBlock r")
    case True
    then show ?thesis using Cons by simp
  next
    case False
    show ?thesis
      using assms(1) False Cons.prems
    proof (cases rule: matching_range_end_step)
      case (inside m z z')
      then show ?thesis using matching_block_down_finds [OF assms(1) inside(4)] by simp
    next
      case (rest z)
      then show ?thesis using Cons.IH [of z] by simp
    qed auto
  qed
qed (simp add: call_done)

text \<open>The walk over the ranges passes by no range end the chain still has.\<close>

lemma matching_range_end_highest:
  assumes "stable_chain cl blk"
    and "sorted_wrt (\<lambda>r r'. sr_toBlock r' < sr_fromBlock r) rs" "list_all (\<lambda>r. sr_fromBlock r \<le> sr_toBlock r) rs"
    and "matching_range_end st cl chainId k rs x = (Inr found, y)"
    and "r \<in> set rs" "sr_toBlock r \<le> ck_blockNumber k" "on_chain blk (sr_toBlock r) (sr_endBlockHash r)"
  shows "\<exists>n. found = Some n \<and> sr_toBlock r \<le> n"
  using assms(2-7)
proof (induction rs arbitrary: x)
  case (Cons q rs)
  have lower: "sr_toBlock r < sr_fromBlock q" if "r \<noteq> q" using Cons.prems(1,4) that by auto
  show ?case
  proof (cases "ck_blockNumber k < sr_toBlock q")
    case True
    then have "matching_range_end st cl chainId k rs x = (Inr found, y)" "r \<in> set rs"
      using Cons.prems by auto
    then show ?thesis using Cons.IH [of x] Cons.prems by simp
  next
    case False
    show ?thesis
      using assms(1) False Cons.prems(3)
    proof (cases rule: matching_range_end_step)
      case (hit b)
      then show ?thesis using Cons.prems(2) lower by fastforce
    next
      case (inside m z z')
      then have "r \<noteq> q" using Cons.prems(6) by auto
      moreover have "sr_fromBlock q \<le> m" using matching_block_down_finds [OF assms(1) inside(4)] by simp
      ultimately show ?thesis using inside(3) lower by fastforce
    next
      case (rest z)
      then have "r \<in> set rs" using Cons.prems(4,6) by auto
      then show ?thesis using Cons.IH [of z] Cons.prems rest by simp
    qed
  qed
qed simp

lemma common_ancestor_finds:
  assumes "stable_chain cl blk" "common_ancestor st cl opts k rs x = (Inr (Some n), y)"
  shows "\<exists>b. es_canonicalBlock st (io_chainId opts) n (fst x) = Inr (Some b) \<and> on_chain blk n (cb_blockHash b)"
proof -
  obtain found z where f: "matching_range_end st cl (io_chainId opts) k rs x = (Inr found, z)"
    "(case found of
        Some n \<Rightarrow> call_return (Some n)
      | None \<Rightarrow> (case history_start k rs of None \<Rightarrow> call_return None
          | Some n \<Rightarrow> matching_block_down st cl (io_chainId opts) (io_deploymentBlock opts) n)) z = (Inr (Some n), y)"
    using assms(2) by (auto simp: common_ancestor_def call_done)
  have z: "fst z = fst x" by (rule keeps_store [OF matching_range_end_store f(1)])
  show ?thesis
  proof (cases found)
    case None
    then obtain m where "matching_block_down st cl (io_chainId opts) (io_deploymentBlock opts) m z = (Inr (Some n), y)"
      using f(2) by (auto simp: call_done split: option.splits)
    from matching_block_down_finds [OF assms(1) this] show ?thesis using z by simp
  next
    case (Some m)
    then have "m = n" using f(2) by (simp add: call_done)
    then show ?thesis using matching_range_end_finds [OF assms(1)] f(1) Some by blast
  qed
qed

lemma common_ancestor_highest:
  assumes "stable_chain cl blk"
    and "sorted_wrt (\<lambda>r r'. sr_toBlock r' < sr_fromBlock r) rs" "list_all (\<lambda>r. sr_fromBlock r \<le> sr_toBlock r) rs"
    and "common_ancestor st cl opts k rs x = (Inr found, y)"
    and "r \<in> set rs" "sr_toBlock r \<le> ck_blockNumber k" "on_chain blk (sr_toBlock r) (sr_endBlockHash r)"
  shows "\<exists>n. found = Some n \<and> sr_toBlock r \<le> n"
proof -
  obtain g z where g: "matching_range_end st cl (io_chainId opts) k rs x = (Inr g, z)"
    "(case g of
        Some n \<Rightarrow> call_return (Some n)
      | None \<Rightarrow> (case history_start k rs of None \<Rightarrow> call_return None
          | Some n \<Rightarrow> matching_block_down st cl (io_chainId opts) (io_deploymentBlock opts) n)) z = (Inr found, y)"
    using assms(4) by (auto simp: common_ancestor_def call_done)
  from matching_range_end_highest [OF assms(1-3) g(1) assms(5-7)]
  obtain n where "g = Some n" "sr_toBlock r \<le> n" by blast
  then show ?thesis using g(2) by (simp add: call_done)
qed


section \<open>What the indexer achieves on a store that keeps the contract\<close>

context event_store
begin

lemma reconcile_intact:
  assumes "intact (fst x)" "reconcileCheckpoint st cl opts x = (Inr k, y)"
  shows "intact (fst y) \<and> es_checkpoint st (io_chainId opts) (fst y) = Inr k"
proof -
  obtain cur where cur: "es_checkpoint st (io_chainId opts) (fst x) = Inr cur"
    "(case cur of None \<Rightarrow> call_return None
      | Some checkpoint \<Rightarrow>
           call_bind (store_read (es_scanRanges st (io_chainId opts))) (\<lambda>ranges.
             call_bind (common_ancestor st cl opts checkpoint ranges) (\<lambda>ancestor.
               if ancestor = Some (ck_blockNumber checkpoint) then call_return (Some checkpoint)
               else call_bind (store_write (es_rollbackAfter st (io_chainId opts) ancestor)) (\<lambda>_.
                 store_read (es_checkpoint st (io_chainId opts)))))) x = (Inr k, y)"
    using assms(2) by (auto simp: reconcileCheckpoint_def call_done)
  show ?thesis
  proof (cases cur)
    case None
    then show ?thesis using cur assms(1) by (simp add: call_done)
  next
    case (Some checkpoint)
    then obtain ranges ancestor z where a: "common_ancestor st cl opts checkpoint ranges x = (Inr ancestor, z)"
      "(if ancestor = Some (ck_blockNumber checkpoint) then call_return (Some checkpoint)
        else call_bind (store_write (es_rollbackAfter st (io_chainId opts) ancestor)) (\<lambda>_.
          store_read (es_checkpoint st (io_chainId opts)))) z = (Inr k, y)"
      using cur(2) by (auto simp: call_done)
    have z: "fst z = fst x" by (rule keeps_store [OF common_ancestor_store a(1)])
    show ?thesis
    proof (cases "ancestor = Some (ck_blockNumber checkpoint)")
      case True
      then show ?thesis using a(2) z cur(1) Some assms(1) by (simp add: call_done)
    next
      case False
      then show ?thesis using a(2) z assms(1) rollback_moves by (auto simp: call_done)
    qed
  qed
qed

text \<open>On a chain that does not move, the checkpoint reconciliation ends on is a block of that chain.\<close>

lemma reconcile_on_chain:
  assumes "stable_chain cl blk" "intact (fst x)" "reconcileCheckpoint st cl opts x = (Inr (Some k), y)"
  shows "on_chain blk (ck_blockNumber k) (ck_blockHash k)"
    and "\<exists>old ranges. es_checkpoint st (io_chainId opts) (fst x) = Inr (Some old) \<and>
      es_scanRanges st (io_chainId opts) (fst x) = Inr ranges \<and>
      (\<forall>r \<in> set ranges. sr_toBlock r \<le> ck_blockNumber old \<longrightarrow> on_chain blk (sr_toBlock r) (sr_endBlockHash r) \<longrightarrow>
         sr_toBlock r \<le> ck_blockNumber k)"
proof -
  obtain old ranges ancestor z where o: "es_checkpoint st (io_chainId opts) (fst x) = Inr (Some old)"
    "es_scanRanges st (io_chainId opts) (fst x) = Inr ranges"
    "common_ancestor st cl opts old ranges x = (Inr ancestor, z)"
    "(if ancestor = Some (ck_blockNumber old) then call_return (Some old)
      else call_bind (store_write (es_rollbackAfter st (io_chainId opts) ancestor)) (\<lambda>_.
        store_read (es_checkpoint st (io_chainId opts)))) z = (Inr (Some k), y)"
    using assms(3) by (auto simp: reconcileCheckpoint_def call_done split: option.splits)
  have z: "fst z = fst x" by (rule keeps_store [OF common_ancestor_store o(3)])
  obtain n b where n: "ancestor = Some n" "ck_blockNumber k = n"
    "es_canonicalBlock st (io_chainId opts) n (fst x) = Inr (Some b)" "cb_blockHash b = ck_blockHash k"
    "on_chain blk n (cb_blockHash b)"
  proof (cases "ancestor = Some (ck_blockNumber old)")
    case True
    then have "k = old" using o(4) by (simp add: call_done)
    obtain b where "es_canonicalBlock st (io_chainId opts) (ck_blockNumber old) (fst x) = Inr (Some b)"
      "cb_blockHash b = ck_blockHash old" using checkpoint_anchored [OF assms(2) o(1)] by blast
    then show ?thesis
      using that [OF True _ _ _] common_ancestor_finds [OF assms(1)] o(3) True \<open>k = old\<close> by fastforce
  next
    case False
    then have w: "es_rollbackAfter st (io_chainId opts) ancestor (fst x) = (None, fst y)"
      "es_checkpoint st (io_chainId opts) (fst y) = Inr (Some k)"
      using o(4) z by (auto simp: call_done)
    then obtain m b where m: "ancestor = Some m"
      "es_canonicalBlock st (io_chainId opts) m (fst x) = Inr (Some b)"
      "k = \<lparr>ck_chainId = io_chainId opts, ck_blockNumber = m, ck_blockHash = cb_blockHash b\<rparr>"
      using rollback_moves [OF assms(2) w(1)] by (auto split: option.splits)
    then show ?thesis
      using that [of m b] common_ancestor_finds [OF assms(1)] o(3) by fastforce
  qed
  show "on_chain blk (ck_blockNumber k) (ck_blockHash k)" using n by simp
  have "sr_toBlock r \<le> ck_blockNumber k"
    if "r \<in> set ranges" "sr_toBlock r \<le> ck_blockNumber old" "on_chain blk (sr_toBlock r) (sr_endBlockHash r)" for r
    using common_ancestor_highest [OF assms(1) _ _ o(3) that] ranges_descend [OF assms(2) o(2)] n(1,2) by auto
  then show "\<exists>old ranges. es_checkpoint st (io_chainId opts) (fst x) = Inr (Some old) \<and>
      es_scanRanges st (io_chainId opts) (fst x) = Inr ranges \<and>
      (\<forall>r \<in> set ranges. sr_toBlock r \<le> ck_blockNumber old \<longrightarrow> on_chain blk (sr_toBlock r) (sr_endBlockHash r) \<longrightarrow>
         sr_toBlock r \<le> ck_blockNumber k)"
    using o(1,2) by blast
qed

lemma ordered_events_sorted: "ordered_events ab c status ls = Inr es \<Longrightarrow> in_event_order es"
  by (auto simp: ordered_events_def event_order.sorted_js_sort)

lemma scan_and_commit_commits:
  assumes "intact (fst x)"
    and "scan_and_commit st cl ab opts k fromBlock toBlock safeHead x = (Inr res, y)"
  obtains r h w w' where "res = Some r" "br_fromBlock r = fromBlock" "br_toBlock r = toBlock"
    "br_caughtUp r = (toBlock = safeHead)" "intact (fst y)"
    "es_checkpoint st (io_chainId opts) (fst y) =
       Inr (Some \<lparr>ck_chainId = io_chainId opts, ck_blockNumber = toBlock, ck_blockHash = h\<rparr>)"
    "verifyCommitFence cl \<lparr>ck_chainId = io_chainId opts, ck_blockNumber = toBlock, ck_blockHash = h\<rparr> w = (Inr (), w')"
proof -
  obtain creation markets x1 tracked scoped x2 es anchors x3 e x4 x5 x6 n where
    p: "range_logs st cl ab opts fromBlock toBlock x = (Inr (creation, markets), x1)"
    "tracked_logs cl ab opts fromBlock toBlock x1 = (Inr (tracked, scoped), x2)"
    "ordered_events ab (io_chainId opts) (confirmationFor (io_confirmations opts)) (creation @ scoped) = Inr es"
    "on_right (loadCanonicalAnchors cl opts fromBlock toBlock (confirmationFor (io_confirmations opts))
       (fold set_add (map ev_blockNumber es) [])) x2 = (Inr anchors, x3)"
    "check_anchors opts k anchors es toBlock = Inr e"
    "on_right (verifyCommitFence cl \<lparr>ck_chainId = io_chainId opts, ck_blockNumber = cb_blockNumber e,
       ck_blockHash = cb_blockHash e\<rparr>) x3 = (Inr (), x4)"
    "store_write (es_applyBatch st \<lparr>bt_range = \<lparr>sr_chainId = io_chainId opts, sr_fromBlock = fromBlock,
         sr_toBlock = toBlock, sr_predecessor = k, sr_endBlockHash = cb_blockHash e,
         sr_status = confirmationFor (io_confirmations opts), sr_mode = canonical_mode_of opts\<rparr>,
       bt_anchors = anchors, bt_events = es, bt_checkpoint = \<lparr>ck_chainId = io_chainId opts,
         ck_blockNumber = cb_blockNumber e, ck_blockHash = cb_blockHash e\<rparr>\<rparr>) x4 = (Inr (), x5)"
    "(case io_financial opts of None \<Rightarrow> call_return ()
      | Some fi \<Rightarrow> syncStage ''batch-write''
          (on_right (fi_scanned fi tracked fromBlock toBlock (cb_blockHash e)))) x5 = (Inr (), x6)"
    "y = x6"
    "res = Some \<lparr>br_fromBlock = fromBlock, br_toBlock = toBlock, br_blockCount = toBlock - fromBlock + 1,
        br_anchorCount = length anchors, br_eventCount = length es, br_discoveredMarkets = n,
        br_status = confirmationFor (io_confirmations opts), br_caughtUp = (toBlock = safeHead)\<rparr>"
    using assms(2)
    unfolding scan_and_commit_def Let_def call_bind_done syncStage_done call_of_done call_return_done
      prod.case_distrib
    by (auto simp: call_bind_done syncStage_done call_of_done call_return_done simp del: store_write_done)
  have s2: "fst x2 = fst x"
    using keeps_store [OF range_logs_store p(1)] keeps_store [OF tracked_logs_store p(2)] by simp
  have s4: "fst x4 = fst x"
    using p(4,6) s2 by (simp add: call_done)
  have num: "cb_blockNumber e = toBlock"
    using p(5) by (auto simp: check_anchors_def Let_def find_Some_iff split: option.splits if_splits)
  have w: "es_applyBatch st \<lparr>bt_range = \<lparr>sr_chainId = io_chainId opts, sr_fromBlock = fromBlock,
         sr_toBlock = toBlock, sr_predecessor = k, sr_endBlockHash = cb_blockHash e,
         sr_status = confirmationFor (io_confirmations opts), sr_mode = canonical_mode_of opts\<rparr>,
       bt_anchors = anchors, bt_events = es, bt_checkpoint = \<lparr>ck_chainId = io_chainId opts,
         ck_blockNumber = cb_blockNumber e, ck_blockHash = cb_blockHash e\<rparr>\<rparr> (fst x) = (None, fst x5)"
    using p(7) s4 by (simp add: call_done)
  have s6: "fst x6 = fst x5"
    using p(8) by (auto simp: call_done split: option.splits)
  have c: "intact (fst y)" "es_checkpoint st (io_chainId opts) (fst y) =
      Inr (Some \<lparr>ck_chainId = io_chainId opts, ck_blockNumber = toBlock, ck_blockHash = cb_blockHash e\<rparr>)"
    using apply_commits [OF assms(1) _ w] ordered_events_sorted [OF p(3)] p(9) s6 num by simp_all
  have f: "verifyCommitFence cl \<lparr>ck_chainId = io_chainId opts, ck_blockNumber = toBlock,
      ck_blockHash = cb_blockHash e\<rparr> (snd x3) = (Inr (), snd x4)"
    using p(6) num by (simp add: call_done)
  show ?thesis by (rule that [OF p(10) _ _ _ c f]) simp_all
qed

text \<open>
  A step that indexed something: the blocks follow the reconciled checkpoint, stay at or below the safe
  head and within one batch, and the store's checkpoint is their end.
\<close>

lemma runBatch_commits:
  assumes "intact (fst x)" "runBatch st cl ab opts x = (Inr (Some r), y)" "1 \<le> io_batchSize opts"
  shows "\<exists>k z head h w w'. reconcileCheckpoint st cl opts x = (Inr k, z) \<and>
    rc_getBlockNumber cl w = (Inr head, w') \<and>
    br_fromBlock r = (case k of None \<Rightarrow> io_deploymentBlock opts | Some c \<Rightarrow> ck_blockNumber c + 1) \<and>
    br_toBlock r = min (br_fromBlock r + io_batchSize opts - 1) (head - io_confirmations opts) \<and>
    br_fromBlock r \<le> br_toBlock r \<and> br_caughtUp r = (br_toBlock r = head - io_confirmations opts) \<and>
    intact (fst y) \<and>
    es_checkpoint st (io_chainId opts) (fst y) =
      Inr (Some \<lparr>ck_chainId = io_chainId opts, ck_blockNumber = br_toBlock r, ck_blockHash = h\<rparr>) \<and>
    (\<forall>blk. stable_chain cl blk \<longrightarrow> on_chain blk (br_toBlock r) h)"
proof -
  obtain k z z1 head z2 where s: "reconcileCheckpoint st cl opts x = (Inr k, z)"
    "(case io_financial opts of None \<Rightarrow> call_return ()
      | Some fi \<Rightarrow> syncStage ''event-logs'' (on_right (fi_backfill fi))) z = (Inr (), z1)"
    "on_right (rc_getBlockNumber cl) z1 = (Inr head, z2)"
    "(if head < io_confirmations opts then call_return None
      else let safeHead = head - io_confirmations opts;
           fromBlock = (case k of None \<Rightarrow> io_deploymentBlock opts | Some k \<Rightarrow> ck_blockNumber k + 1)
       in if safeHead < fromBlock then call_return None
          else scan_and_commit st cl ab opts k fromBlock
                 (min (fromBlock + io_batchSize opts - 1) safeHead) safeHead) z2 = (Inr (Some r), y)"
    using assms(2) unfolding runBatch_def call_bind_done syncStage_done by auto
  define start where "start = (case k of None \<Rightarrow> io_deploymentBlock opts | Some k \<Rightarrow> ck_blockNumber k + 1)"
  define safe where "safe = head - io_confirmations opts"
  have i: "intact (fst z)" using reconcile_intact [OF assms(1) s(1)] by simp
  moreover have "fst z2 = fst z" using s(2,3) by (auto simp: call_done split: option.splits)
  ultimately have i2: "intact (fst z2)" by simp
  have le: "start \<le> safe" and
    sc: "scan_and_commit st cl ab opts k start (min (start + io_batchSize opts - 1) safe) safe z2 = (Inr (Some r), y)"
    using s(4) by (auto simp: call_done Let_def start_def safe_def split: if_splits)
  obtain r' h w w' where r: "Some r = Some r'" "br_fromBlock r' = start"
    "br_toBlock r' = min (start + io_batchSize opts - 1) safe"
    "br_caughtUp r' = (min (start + io_batchSize opts - 1) safe = safe)" "intact (fst y)"
    "es_checkpoint st (io_chainId opts) (fst y) = Inr (Some \<lparr>ck_chainId = io_chainId opts,
       ck_blockNumber = min (start + io_batchSize opts - 1) safe, ck_blockHash = h\<rparr>)"
    "verifyCommitFence cl \<lparr>ck_chainId = io_chainId opts,
       ck_blockNumber = min (start + io_batchSize opts - 1) safe, ck_blockHash = h\<rparr> w = (Inr (), w')"
    using i2 sc by (rule scan_and_commit_commits)
  have "on_chain blk (br_toBlock r') h" if "stable_chain cl blk" for blk
    using r(7) stable_read [OF that] by (auto simp: verifyCommitFence_def call_done on_chain_def r(3))
  moreover obtain w1 w1' where "rc_getBlockNumber cl w1 = (Inr head, w1')" using s(3) by (auto simp: call_done)
  ultimately show ?thesis
    using s(1) r le assms(3) by (fastforce simp: start_def safe_def)
qed

text \<open>An idle step: nothing was written after reconciliation and no block is left to index.\<close>

lemma runBatch_idle:
  assumes "intact (fst x)" "runBatch st cl ab opts x = (Inr None, y)"
  shows "\<exists>k z head w w'. reconcileCheckpoint st cl opts x = (Inr k, z) \<and> fst y = fst z \<and>
    rc_getBlockNumber cl w = (Inr head, w') \<and> intact (fst y) \<and> es_checkpoint st (io_chainId opts) (fst y) = Inr k \<and>
    (head < io_confirmations opts \<or>
     head - io_confirmations opts < (case k of None \<Rightarrow> io_deploymentBlock opts | Some c \<Rightarrow> ck_blockNumber c + 1))"
proof -
  obtain k z z1 head z2 where s: "reconcileCheckpoint st cl opts x = (Inr k, z)"
    "(case io_financial opts of None \<Rightarrow> call_return ()
      | Some fi \<Rightarrow> syncStage ''event-logs'' (on_right (fi_backfill fi))) z = (Inr (), z1)"
    "on_right (rc_getBlockNumber cl) z1 = (Inr head, z2)"
    "(if head < io_confirmations opts then call_return None
      else let safeHead = head - io_confirmations opts;
           fromBlock = (case k of None \<Rightarrow> io_deploymentBlock opts | Some k \<Rightarrow> ck_blockNumber k + 1)
       in if safeHead < fromBlock then call_return None
          else scan_and_commit st cl ab opts k fromBlock
                 (min (fromBlock + io_batchSize opts - 1) safeHead) safeHead) z2 = (Inr None, y)"
    using assms(2) unfolding runBatch_def call_bind_done syncStage_done by auto
  have i: "intact (fst z)" "es_checkpoint st (io_chainId opts) (fst z) = Inr k"
    using reconcile_intact [OF assms(1) s(1)] by simp_all
  have z2: "fst z2 = fst z" using s(2,3) by (auto simp: call_done split: option.splits)
  have "y = z2 \<and> (head < io_confirmations opts \<or>
     head - io_confirmations opts < (case k of None \<Rightarrow> io_deploymentBlock opts | Some c \<Rightarrow> ck_blockNumber c + 1))"
  proof (rule ccontr)
    assume no: "\<not> ?thesis"
    then obtain a b c where "scan_and_commit st cl ab opts k a b c z2 = (Inr None, y)"
      using s(4) by (fastforce simp: call_done Let_def split: if_splits)
    moreover have "intact (fst z2)" using i z2 by simp
    ultimately show False using scan_and_commit_commits by blast
  qed
  moreover obtain w1 w1' where "rc_getBlockNumber cl w1 = (Inr head, w1')" using s(3) by (auto simp: call_done)
  ultimately show ?thesis using s(1) i z2 by auto
qed

end

end
