(* ===== verification/Scheduler.thy ===== *)
theory Scheduler
  imports Indexer
begin

text \<open>
  \<open>BoundedIndexerScheduler\<close> of offchain/indexer/src/scheduler.ts: a tick runs a bounded number of
  ingestion steps, and a timer starts the next tick only after the last one ended. Telemetry is left out;
  the random jitter is a parameter.
\<close>

record scheduler_options =
  sd_intervalMs :: rat
  sd_caughtUpIntervalMs :: "rat option"
  sd_jitterRatio :: "rat option"
  sd_maxBatchesPerTick :: rat

definition is_integer :: "rat \<Rightarrow> bool" where
  "is_integer x = (snd (quotient_of x) = 1)"

definition caught_up_interval :: "scheduler_options \<Rightarrow> rat" where
  "caught_up_interval opts = (case sd_caughtUpIntervalMs opts of None \<Rightarrow> sd_intervalMs opts | Some n \<Rightarrow> n)"

definition jitter_ratio :: "scheduler_options \<Rightarrow> rat" where
  "jitter_ratio opts = (case sd_jitterRatio opts of None \<Rightarrow> 0 | Some n \<Rightarrow> n)"

definition newScheduler :: "scheduler_options \<Rightarrow> unit outcome" where
  "newScheduler opts =
     (if \<not> is_integer (sd_maxBatchesPerTick opts) \<or> sd_maxBatchesPerTick opts < 1 \<or> 100 < sd_maxBatchesPerTick opts
      then Inl (RangeError ''maxBatchesPerTick must be within [1, 100]'')
      else if \<not> is_integer (sd_intervalMs opts) \<or> sd_intervalMs opts < 250 \<or> 60000 < sd_intervalMs opts
      then Inl (RangeError ''intervalMs must be within [250, 60000]'')
      else if \<not> is_integer (caught_up_interval opts) \<or> caught_up_interval opts < 250 \<or> 60000 < caught_up_interval opts
      then Inl (RangeError ''caughtUpIntervalMs must be within [250, 60000]'')
      else if jitter_ratio opts < 0 \<or> 1 / 4 < jitter_ratio opts
      then Inl (RangeError ''jitterRatio must be within [0, 0.25]'')
      else Inr ())"

section \<open>One tick\<close>

text \<open>\<open>n\<close> is the number of steps the bound still allows; \<open>committed\<close> counts those that indexed something.\<close>

fun tick_steps :: "('x, batch_result option) call \<Rightarrow> nat \<Rightarrow> nat \<Rightarrow> ('x, nat) call" where
  "tick_steps step 0 committed = call_return committed"
| "tick_steps step (Suc n) committed =
     call_bind step (\<lambda>res.
       case res of
         None \<Rightarrow> call_return committed
       | Some r \<Rightarrow>
           if br_caughtUp r then call_return (committed + 1)
           else tick_steps step n (committed + 1))"

definition max_batches :: "scheduler_options \<Rightarrow> nat" where
  "max_batches opts = nat \<lfloor>sd_maxBatchesPerTick opts\<rfloor>"

section \<open>The scheduler\<close>

text \<open>
  \<open>sc_queued\<close> counts the ticks chained to \<open>inFlight\<close> that have not ended; the chain runs them one after
  the other. \<open>sc_armed\<close> holds the timeouts that have not fired, by handle; \<open>sc_timer\<close> is the field
  \<open>timer\<close>, the last handle stored.
\<close>

record scheduler =
  sc_running :: bool
  sc_timer :: "nat option"
  sc_armed :: "(nat \<times> rat) list"
  sc_handles :: nat
  sc_queued :: nat
  sc_lastFailure :: "js_error option"

definition new_scheduler :: scheduler where
  "new_scheduler = \<lparr>sc_running = False, sc_timer = None, sc_armed = [], sc_handles = 0, sc_queued = 0,
     sc_lastFailure = None\<rparr>"

definition assertHealthy :: "scheduler \<Rightarrow> unit outcome" where
  "assertHealthy s =
     (if sc_lastFailure s \<noteq> None then Inl (JsError ''indexer scheduler last tick failed'') else Inr ())"

definition scheduler_start :: "scheduler \<Rightarrow> scheduler outcome" where
  "scheduler_start s =
     (if sc_running s then Inl (JsError ''indexer scheduler already started'')
      else Inr (s\<lparr>sc_running := True, sc_queued := sc_queued s + 1\<rparr>))"

text \<open>\<open>stop\<close> up to the point where it waits for the queued ticks.\<close>

definition scheduler_stop :: "scheduler \<Rightarrow> scheduler" where
  "scheduler_stop s = s\<lparr>sc_running := False, sc_armed := filter (\<lambda>p. Some (fst p) \<noteq> sc_timer s) (sc_armed s)\<rparr>"

text \<open>\<open>runTick\<close>: the failure of the last tick is kept for the health check and cleared by a good tick.\<close>

definition runTick ::
  "('x, batch_result option) call \<Rightarrow> scheduler_options \<Rightarrow> scheduler \<Rightarrow> 'x \<Rightarrow> nat outcome \<times> scheduler \<times> 'x" where
  "runTick step opts s x =
     (case tick_steps step (max_batches opts) 0 x of
        (Inl e, y) \<Rightarrow> (Inl e, s\<lparr>sc_lastFailure := Some e\<rparr>, y)
      | (Inr n, y) \<Rightarrow> (Inr n, s\<lparr>sc_lastFailure := None\<rparr>, y))"

text \<open>\<open>random\<close> is the value of Math.random. Math.round rounds halves up.\<close>

definition jittered :: "rat \<Rightarrow> rat \<Rightarrow> rat \<Rightarrow> rat" where
  "jittered random v ratio =
     (if ratio = 0 then v
      else max 250 (of_int \<lfloor>v * (1 + (random * 2 - 1) * ratio) + 1 / 2\<rfloor>))"

definition next_delay :: "scheduler_options \<Rightarrow> rat \<Rightarrow> nat outcome \<Rightarrow> rat" where
  "next_delay opts random res =
     (case res of
        Inl _ \<Rightarrow> sd_intervalMs opts
      | Inr n \<Rightarrow> if rat_of_nat n = sd_maxBatchesPerTick opts then 0
                 else jittered random (caught_up_interval opts) (jitter_ratio opts))"

text \<open>The end of a queued tick: while the scheduler runs, the next timeout is armed.\<close>

definition tick_ended :: "rat \<Rightarrow> scheduler \<Rightarrow> scheduler" where
  "tick_ended delay s =
     (let t = s\<lparr>sc_queued := sc_queued s - 1\<rparr> in
      if sc_running t
      then t\<lparr>sc_timer := Some (sc_handles t), sc_armed := sc_armed t @ [(sc_handles t, delay)],
             sc_handles := sc_handles t + 1\<rparr>
      else t)"

section \<open>Runs\<close>

datatype scheduler_event = Started | Fired nat | Ticked rat | Stopped

inductive scheduler_step ::
  "('x, batch_result option) call \<Rightarrow> scheduler_options \<Rightarrow> scheduler \<times> 'x \<Rightarrow> scheduler_event \<Rightarrow>
     scheduler \<times> 'x \<Rightarrow> bool"
  for step opts where
  step_start: "scheduler_start s = Inr t \<Longrightarrow> scheduler_step step opts (s, x) Started (t, x)"
| step_fire: "(h, d) \<in> set (sc_armed s) \<Longrightarrow>
     scheduler_step step opts (s, x) (Fired h)
       (s\<lparr>sc_armed := filter (\<lambda>p. fst p \<noteq> h) (sc_armed s), sc_queued := sc_queued s + 1\<rparr>, x)"
| step_tick: "\<lbrakk>0 < sc_queued s; runTick step opts s x = (res, t, y); 0 \<le> random; random < 1\<rbrakk> \<Longrightarrow>
     scheduler_step step opts (s, x) (Ticked random) (tick_ended (next_delay opts random res) t, y)"
| step_stop: "scheduler_step step opts (s, x) Stopped (scheduler_stop s, x)"

inductive_cases start_stepE: "scheduler_step step opts a Started b"
inductive_cases fire_stepE: "scheduler_step step opts a (Fired h) b"
inductive_cases tick_stepE: "scheduler_step step opts a (Ticked r) b"
inductive_cases stop_stepE: "scheduler_step step opts a Stopped b"

text \<open>Runs in which \<open>start\<close> is called only when no tick is queued, as after an awaited \<open>stop\<close>.\<close>

inductive orderly_run ::
  "('x, batch_result option) call \<Rightarrow> scheduler_options \<Rightarrow> scheduler \<times> 'x \<Rightarrow> bool" for step opts where
  orderly_new: "orderly_run step opts (new_scheduler, x)"
| orderly_step: "\<lbrakk>orderly_run step opts a; scheduler_step step opts a ev b;
     ev = Started \<Longrightarrow> sc_queued (fst a) = 0\<rbrakk> \<Longrightarrow> orderly_run step opts b"

text \<open>One loop: a queued tick or an armed timeout, never both, and the timeout is the one \<open>stop\<close> clears.\<close>

definition single_loop :: "scheduler \<Rightarrow> bool" where
  "single_loop s =
     (case sc_armed s of
        [] \<Rightarrow> sc_queued s \<le> 1
      | [p] \<Rightarrow> sc_queued s = 0 \<and> sc_running s \<and> sc_timer s = Some (fst p)
      | _ \<Rightarrow> False)"

lemma runTick_same:
  "runTick step opts s x = (res, t, y) \<Longrightarrow>
   sc_running t = sc_running s \<and> sc_timer t = sc_timer s \<and> sc_armed t = sc_armed s \<and> sc_queued t = sc_queued s"
  by (auto simp: runTick_def split: prod.splits sum.splits)

lemma scheduler_step_single:
  assumes "scheduler_step step opts a ev b" "single_loop (fst a)" "ev = Started \<Longrightarrow> sc_queued (fst a) = 0"
  shows "single_loop (fst b)"
  using assms
proof (cases ev)
  case Started
  then show ?thesis using assms
    by (auto elim!: start_stepE simp: scheduler_start_def single_loop_def split: if_splits list.splits)
next
  case (Fired h)
  then show ?thesis using assms
    by (auto elim!: fire_stepE simp: single_loop_def split: list.splits)
next
  case (Ticked r)
  then show ?thesis using assms
    by (auto elim!: tick_stepE dest!: runTick_same simp: tick_ended_def Let_def single_loop_def split: list.splits)
next
  case Stopped
  then show ?thesis using assms
    by (auto elim!: stop_stepE simp: scheduler_stop_def single_loop_def split: list.splits)
qed

lemma orderly_single_loop: "orderly_run step opts a \<Longrightarrow> single_loop (fst a)"
proof (induction rule: orderly_run.induct)
  case (orderly_new x)
  show ?case by (simp add: new_scheduler_def single_loop_def)
next
  case (orderly_step a ev b)
  show ?case by (rule scheduler_step_single [OF orderly_step.hyps(2) orderly_step.IH orderly_step.hyps(3)])
qed

text \<open>
  C18. Polling does not overlap: as long as \<open>start\<close> is called only when no tick is queued, at most one tick
  is queued or one timeout armed, and after \<open>stop\<close> no timeout is left to start another tick.
\<close>

theorem scheduler_single_loop:
  assumes "orderly_run step opts (s, x)"
  shows "sc_queued s + length (sc_armed s) \<le> 1 \<and> sc_armed (scheduler_stop s) = []"
proof -
  have "single_loop s" using orderly_single_loop [OF assms] by simp
  then show ?thesis by (auto simp: single_loop_def scheduler_stop_def split: list.splits)
qed

theorem scheduler_single_loop_witness:
  "sc_queued (new_scheduler\<lparr>sc_running := True, sc_queued := 1\<rparr>) +
     length (sc_armed (new_scheduler\<lparr>sc_running := True, sc_queued := 1\<rparr>)) \<le> 1 \<and>
   sc_armed (scheduler_stop (new_scheduler\<lparr>sc_running := True, sc_queued := 1\<rparr>)) = []"
proof -
  let ?opts = "\<lparr>sd_intervalMs = 1000, sd_caughtUpIntervalMs = None, sd_jitterRatio = None, sd_maxBatchesPerTick = 5\<rparr>"
  have "scheduler_step (call_return None) ?opts (new_scheduler, ()) Started
      (new_scheduler\<lparr>sc_running := True, sc_queued := 1\<rparr>, ())"
    by (rule step_start) (simp add: scheduler_start_def new_scheduler_def)
  then have "orderly_run (call_return None) ?opts (new_scheduler\<lparr>sc_running := True, sc_queued := 1\<rparr>, ())"
    by (rule orderly_step [OF orderly_new]) (simp add: new_scheduler_def)
  then show ?thesis by (rule scheduler_single_loop)
qed


section \<open>The work of a tick\<close>

lemma tick_steps_bound: "tick_steps step n c x = (Inr m, y) \<Longrightarrow> m \<le> c + n"
proof (induction n arbitrary: c x)
  case (Suc n)
  then show ?case by (force simp: call_done split: option.splits if_splits)
qed (simp add: call_done)

lemma next_delay_bounds:
  assumes "newScheduler opts = Inr ()" "0 \<le> random" "random < 1"
  shows "0 \<le> next_delay opts random res \<and> next_delay opts random res \<le> 75000"
proof -
  let ?v = "caught_up_interval opts" and ?r = "jitter_ratio opts"
  have o: "250 \<le> sd_intervalMs opts" "sd_intervalMs opts \<le> 60000" "250 \<le> ?v" "?v \<le> 60000" "0 \<le> ?r" "?r \<le> 1 / 4"
    using assms(1) by (auto simp: newScheduler_def not_less split: if_splits)
  have j: "250 \<le> jittered random ?v ?r \<and> jittered random ?v ?r \<le> 75000"
  proof (cases "?r = 0")
    case False
    have "(random * 2 - 1) * ?r \<le> 1 * ?r" using assms(3) o(5) by (intro mult_right_mono) auto
    then have a: "(random * 2 - 1) * ?r \<le> 1 / 4" using o(6) by simp
    have "?v * (1 + (random * 2 - 1) * ?r) \<le> ?v * (5 / 4)" using a o(3) by (intro mult_left_mono) auto
    also have "\<dots> \<le> 75000" using o(4) by simp
    finally have "\<lfloor>?v * (1 + (random * 2 - 1) * ?r) + 1 / 2\<rfloor> \<le> \<lfloor>75000 + 1 / 2 :: rat\<rfloor>"
      by (intro floor_mono) simp
    also have "\<dots> = 75000" by (rule floor_unique) simp_all
    finally have "rat_of_int \<lfloor>?v * (1 + (random * 2 - 1) * ?r) + 1 / 2\<rfloor> \<le> rat_of_int 75000"
      unfolding of_int_le_iff .
    then show ?thesis using False by (simp add: jittered_def)
  qed (use o in \<open>simp add: jittered_def\<close>)
  show ?thesis using o j by (auto simp: next_delay_def split: sum.splits)
qed

end
