(* ===== verification/Memory_Indexing.thy ===== *)
theory Memory_Indexing
  imports Memory_Guarantees Store_Contract Scheduler
begin

text \<open>
  The memory store as the indexer's event store: it keeps the contract of \<open>Store_Contract\<close>, so everything
  the indexer achieves on such a store holds for the composed system, from reconciliation after a fork to
  the ticks of the scheduler.
\<close>

section \<open>Ticks on any store that keeps the contract\<close>

lemma tick_steps_keeps: "call_keeps I step \<Longrightarrow> call_keeps I (tick_steps step n c)"
  by (induction n arbitrary: c) (auto intro!: call_keep split: option.splits)

locale sound_store = event_store +
  fixes sound :: "'a \<Rightarrow> bool"
  assumes intact_sound: "intact s \<Longrightarrow> sound s"
    and apply_sound: "sound s \<Longrightarrow> sound (snd (es_applyBatch st b s))"
    and rollback_sound: "sound s \<Longrightarrow> sound (snd (es_rollbackAfter st c n s))"
begin

lemma write_sound:
  assumes "\<And>s. sound s \<Longrightarrow> sound (snd (g s))"
  shows "call_keeps (\<lambda>x. sound (fst x)) (store_write g)"
  unfolding store_write_def
proof (rule keeps_on_left)
  show "call_keeps sound (written_call g)"
    unfolding call_keeps_def written_call_def
    by (auto split: prod.splits option.splits) (metis assms snd_conv)+
qed

lemma read_sound: "call_keeps (\<lambda>x. sound (fst x)) (store_read g)"
  by (simp add: call_keeps_def store_read_def on_left_def)

lemma world_sound: "call_keeps (\<lambda>x. sound (fst x)) m" if "\<And>s. call_keeps (store_is s) m"
  unfolding call_keeps_def by (metis that call_keeps_def store_is_def)

lemmas sound_calls = call_keep syncStage_keeps read_sound write_sound [OF apply_sound] write_sound [OF rollback_sound]
  world_sound [OF common_ancestor_store] world_sound [OF range_logs_store] world_sound [OF tracked_logs_store]

lemma reconcile_sound: "call_keeps (\<lambda>x. sound (fst x)) (reconcileCheckpoint st cl opts)"
  unfolding reconcileCheckpoint_def by (auto intro!: sound_calls split: option.splits)

lemma scan_sound: "call_keeps (\<lambda>x. sound (fst x)) (scan_and_commit st cl ab opts k a b h)"
  unfolding scan_and_commit_def Let_def by (auto intro!: sound_calls split: option.splits prod.splits)

text \<open>A step leaves a sound store, whatever it returns or throws.\<close>

lemma runBatch_sound: "call_keeps (\<lambda>x. sound (fst x)) (runBatch st cl ab opts)"
  unfolding runBatch_def Let_def by (auto intro!: sound_calls reconcile_sound scan_sound split: option.splits)

end

context event_store
begin

text \<open>
  A tick that ends before its bound has nothing left to index: the store's checkpoint is at the confirmed
  head or no block is confirmed yet.
\<close>

lemma tick_catches_up:
  assumes "stable_head cl head" "1 \<le> io_batchSize opts"
    and "intact (fst x)" "tick_steps (runBatch st cl ab opts) n c x = (Inr m, y)" "m < c + n"
  shows "intact (fst y) \<and> (head < io_confirmations opts \<or>
    (\<exists>k. es_checkpoint st (io_chainId opts) (fst y) = Inr k \<and>
      head - io_confirmations opts < (case k of None \<Rightarrow> io_deploymentBlock opts | Some c \<Rightarrow> ck_blockNumber c + 1)))"
  using assms(3-5)
proof (induction n arbitrary: c x)
  case (Suc n)
  have h: "h = head" if "rc_getBlockNumber cl w = (Inr h, w')" for h w w'
    using assms(1) that unfolding stable_head_def by (metis fst_conv Inr_inject)
  obtain res z where step: "runBatch st cl ab opts x = (Inr res, z)"
    "(case res of None \<Rightarrow> call_return c
      | Some r \<Rightarrow> if br_caughtUp r then call_return (c + 1)
                  else tick_steps (runBatch st cl ab opts) n (c + 1)) z = (Inr m, y)"
    using Suc.prems(2) by (auto simp: call_done)
  show ?case
  proof (cases res)
    case None
    then have "y = z" using step(2) by (simp add: call_done)
    then show ?thesis using runBatch_idle [OF Suc.prems(1)] step(1) None h by metis
  next
    case (Some r)
    obtain k z0 hd hash w w' where c: "rc_getBlockNumber cl w = (Inr hd, w')"
      "br_caughtUp r = (br_toBlock r = hd - io_confirmations opts)" "intact (fst z)"
      "es_checkpoint st (io_chainId opts) (fst z) =
         Inr (Some \<lparr>ck_chainId = io_chainId opts, ck_blockNumber = br_toBlock r, ck_blockHash = hash\<rparr>)"
      using runBatch_commits [OF Suc.prems(1) step(1) [unfolded Some] assms(2)] by blast
    show ?thesis
    proof (cases "br_caughtUp r")
      case True
      then have "y = z" using step(2) Some by (simp add: call_done)
      then show ?thesis using c True h [OF c(1)] by simp
    next
      case False
      then have "tick_steps (runBatch st cl ab opts) n (c + 1) z = (Inr m, y)" using step(2) Some by simp
      then show ?thesis using Suc.IH [OF c(3)] Suc.prems(3) by simp
    qed
  qed
qed (simp add: call_done)

end

section \<open>The memory store keeps the contract\<close>

definition memory_ops :: "abi \<Rightarrow> memory_store event_store_ops" where
  "memory_ops ab = \<lparr>es_checkpoint = (\<lambda>c s. Inr (checkpoint_of c s)),
     es_canonicalBlock = (\<lambda>c n s. Inr (canonicalBlock c n s)),
     es_scanRanges = (\<lambda>c s. Inr (scanRanges c s)),
     es_registeredMarkets = (\<lambda>c s. Inr (registeredMarkets c s)),
     es_applyBatch = applyBatch ab, es_rollbackAfter = rollbackAfter ab\<rparr>"

lemma memory_ops_simps [simp]:
  "es_checkpoint (memory_ops ab) c s = Inr (checkpoint_of c s)"
  "es_canonicalBlock (memory_ops ab) c n s = Inr (canonicalBlock c n s)"
  "es_scanRanges (memory_ops ab) c s = Inr (scanRanges c s)"
  "es_registeredMarkets (memory_ops ab) c s = Inr (registeredMarkets c s)"
  "es_applyBatch (memory_ops ab) = applyBatch ab" "es_rollbackAfter (memory_ops ab) = rollbackAfter ab"
  by (simp_all add: memory_ops_def)

lemma checkpoint_fields:
  assumes "store_ok s" "checkpoint_of c s = Some k"
  shows "ck_chainId k = c \<and> (\<exists>b. canonicalBlock c (ck_blockNumber k) s = Some b \<and> cb_blockHash b = ck_blockHash k)"
  using assms keyed_get [of ck_chainId "ms_checkpoints s" c k]
  by (auto simp: store_ok_def keys_ok_def anchored_def list_all_iff checkpoint_of_def hash_at_def)

lemma sort_insert_symmetric:
  "\<lbrakk>sorted_wrt R xs; \<forall>y \<in> set xs. R x y; \<And>a b. R a b \<Longrightarrow> R b a\<rbrakk> \<Longrightarrow> sorted_wrt R (sort_insert cmp x xs)"
  by (induction xs) auto

text \<open>A symmetric relation between the elements of a list holds between those of the sorted list.\<close>

lemma js_sort_symmetric:
  "\<lbrakk>sorted_wrt R xs; \<And>a b. R a b \<Longrightarrow> R b a\<rbrakk> \<Longrightarrow> sorted_wrt R (js_sort cmp xs)"
  by (induction xs) (auto intro: sort_insert_symmetric)

lemma sorted_wrt_conj:
  "sorted_wrt (\<lambda>a b. P a b \<and> Q a b) xs \<longleftrightarrow> sorted_wrt P xs \<and> sorted_wrt Q xs"
  by (induction xs) auto

lemma scanRanges_descend:
  assumes "store_ok s"
  shows "sorted_wrt (\<lambda>r r'. sr_toBlock r' < sr_fromBlock r) (scanRanges c s)"
    and "list_all (\<lambda>r. sr_fromBlock r \<le> sr_toBlock r) (scanRanges c s)"
proof -
  let ?rs = "filter (\<lambda>r. sr_chainId r = c) (map_values (ms_ranges s))"
  have fromto: "sr_fromBlock r \<le> sr_toBlock r" if "r \<in> set (map_values (ms_ranges s))" for r
    using assms that by (auto simp: store_ok_def anchored_def list_all_iff)
  then show "list_all (\<lambda>r. sr_fromBlock r \<le> sr_toBlock r) (scanRanges c s)"
    by (auto simp: scanRanges_def list_all_iff)
  have apart: "sorted_wrt ranges_apart (map_values (ms_ranges s))"
    using assms by (simp add: store_ok_def ranges_disjoint_def)
  have pair: "sr_toBlock r' < sr_fromBlock r"
    if "ranges_apart r r' \<or> ranges_apart r' r" "to_block_desc r r' \<le> 0" "r \<in> set ?rs" "r' \<in> set ?rs" for r r'
    using that fromto [of r] fromto [of r'] by (auto simp: ranges_apart_def to_block_desc_def split: if_splits)
  have all: "sorted_wrt (\<lambda>r r'. ranges_apart r r' \<or> ranges_apart r' r) (scanRanges c s)"
  proof -
    have "sorted_wrt (\<lambda>r r'. ranges_apart r r' \<or> ranges_apart r' r) ?rs"
      using apart by (auto intro: sorted_wrt_filter sorted_wrt_mono_rel [of _ ranges_apart])
    then show ?thesis unfolding scanRanges_def by (rule js_sort_symmetric) auto
  qed
  have "sorted_wrt (\<lambda>r r'. (ranges_apart r r' \<or> ranges_apart r' r) \<and> to_block_desc r r' \<le> 0) (scanRanges c s)"
    using all range_order.sorted_js_sort [of ?rs] by (simp add: scanRanges_def sorted_wrt_conj)
  then show "sorted_wrt (\<lambda>r r'. sr_toBlock r' < sr_fromBlock r) (scanRanges c s)"
    by (rule sorted_wrt_mono_rel [rotated]) (use pair in \<open>auto simp: scanRanges_def\<close>)
qed


interpretation mem: event_store "memory_ops ab" "canonical_run ab" for ab
proof
  fix s s' c n k rs b
  show "ck_chainId k = c \<and> (\<exists>b. es_canonicalBlock (memory_ops ab) c (ck_blockNumber k) s = Inr (Some b) \<and>
      cb_blockHash b = ck_blockHash k)"
    if "canonical_run ab s" "es_checkpoint (memory_ops ab) c s = Inr (Some k)"
    using checkpoint_fields [of s c k] canonical_run_ok [OF that(1)] that(2) by (simp add: run_ok_def)
  show "sorted_wrt (\<lambda>r r'. sr_toBlock r' < sr_fromBlock r) rs \<and> list_all (\<lambda>r. sr_fromBlock r \<le> sr_toBlock r) rs"
    if "canonical_run ab s" "es_scanRanges (memory_ops ab) c s = Inr rs"
    using scanRanges_descend [of s c] canonical_run_ok [OF that(1)] that(2) by (simp add: run_ok_def)
  show "validateCanonicalBatch b = Inr ()" if "es_applyBatch (memory_ops ab) b s = (None, s')"
    using that by (auto simp: applyBatch_def with_value_success)
  show "canonical_run ab s' \<and> es_checkpoint (memory_ops ab) (ck_chainId (bt_checkpoint b)) s' = Inr (Some (bt_checkpoint b))"
    if "canonical_run ab s" "in_event_order (bt_events b)" "es_applyBatch (memory_ops ab) b s = (None, s')"
  proof -
    have app: "applyBatch ab b s = (None, s')" using that(3) by simp
    have v: "validateCanonicalBatch b = Inr ()" using app by (auto simp: applyBatch_def with_value_success)
    have "checkpoint_of (ck_chainId (bt_checkpoint b)) s' = Some (bt_checkpoint b)"
    proof (rule applyBatch_cases [OF app])
      assume a: "already_applied b s" "s' = s"
      then obtain k where k: "checkpoint_of (sr_chainId (bt_range b)) s = Some k"
        "ck_blockNumber k = ck_blockNumber (bt_checkpoint b)" "ck_blockHash k = ck_blockHash (bt_checkpoint b)"
        by (auto simp: already_applied_def split: option.splits)
      moreover have "ck_chainId k = sr_chainId (bt_range b)"
        using checkpoint_fields [OF _ k(1)] canonical_run_ok [OF that(1)] by (simp add: run_ok_def)
      ultimately show ?thesis using a(2) validated_parts(2) [OF v] by simp
    qed (simp add: checkpoint_of_def update_conv')
    then show ?thesis using run_batch [OF that(1,2) app] by simp
  qed
  show "canonical_run ab s' \<and>
     (case n of
        None \<Rightarrow> es_checkpoint (memory_ops ab) c s' = Inr None
      | Some m \<Rightarrow> \<exists>b. es_canonicalBlock (memory_ops ab) c m s = Inr (Some b) \<and>
          es_checkpoint (memory_ops ab) c s' =
            Inr (Some \<lparr>ck_chainId = c, ck_blockNumber = m, ck_blockHash = cb_blockHash b\<rparr>))"
    if "canonical_run ab s" "es_rollbackAfter (memory_ops ab) c n s = (None, s')"
  proof -
    have run: "run_ok ab s" by (rule canonical_run_ok [OF that(1)])
    have roll: "rollbackAfter ab c n s = (None, s')" using that(2) by simp
    note ck = rollbackAfter_run_ok(6) [OF run roll, of c]
    have "\<exists>h. hash_at c m s = Some h" if "n = Some m" for m
    proof -
      have "keyed block_key (ms_blocks s)" using run by (simp add: run_ok_def store_ok_def keys_ok_def)
      then show ?thesis
        using roll that by (auto simp: rollbackAfter_eq hash_at_truncate split: option.splits if_splits)
    qed
    then show ?thesis
      using ck run_rollback [OF that(1) roll] by (auto simp: hash_at_def split: option.splits)
  qed
qed

section \<open>Reconciliation after a fork\<close>

text \<open>
  Reconciling the memory store with a chain that does not move during the call: the checkpoint it
  ends on is a block of that chain with the stored hash, and every scan range at or below the old
  checkpoint whose end is still on the chain is kept.
\<close>

theorem reconcile_finds_fork:
  assumes "stable_chain cl blk" "canonical_run ab s"
    and "reconcileCheckpoint (memory_ops ab) cl opts (s, w) = (Inr (Some k), (s', w'))"
  shows "rb_hash (blk (ck_blockNumber k)) = Some (ck_blockHash k) \<and>
    checkpoint_of (io_chainId opts) s' = Some k \<and>
    list_all (\<lambda>r. if sr_toBlock r \<le> ck_blockNumber (the (checkpoint_of (io_chainId opts) s)) \<and>
                     rb_hash (blk (sr_toBlock r)) = Some (sr_endBlockHash r)
                  then sr_toBlock r \<le> ck_blockNumber k else True) (scanRanges (io_chainId opts) s)"
  using mem.reconcile_on_chain [OF assms(1) _ assms(3)] mem.reconcile_intact [OF _ assms(3)] assms(2)
  by (auto simp: on_chain_def list_all_iff)

section \<open>Ingestion steps\<close>

text \<open>
  C17. An ingestion step that indexed blocks continues exactly where the reconciled checkpoint ends (or
  starts at the deployment block), takes at most one batch and nothing above the confirmed head, and
  leaves the checkpoint at the end of the range with a hash the chain gave for it.
\<close>

theorem batch_extends_checkpoint:
  assumes "canonical_run ab s" "1 \<le> io_batchSize opts"
    and "runBatch (memory_ops ab) cl ab opts (s, w) = (Inr (Some r), (s', w'))"
  shows "\<exists>k z head h w1 w2. reconcileCheckpoint (memory_ops ab) cl opts (s, w) = (Inr k, z) \<and>
    rc_getBlockNumber cl w1 = (Inr head, w2) \<and>
    br_fromBlock r = (case k of None \<Rightarrow> io_deploymentBlock opts | Some c \<Rightarrow> ck_blockNumber c + 1) \<and>
    br_toBlock r = min (br_fromBlock r + io_batchSize opts - 1) (head - io_confirmations opts) \<and>
    br_fromBlock r \<le> br_toBlock r \<and>
    checkpoint_of (io_chainId opts) s' =
      Some \<lparr>ck_chainId = io_chainId opts, ck_blockNumber = br_toBlock r, ck_blockHash = h\<rparr> \<and>
    canonical_run ab s'"
  using mem.runBatch_commits [OF _ assms(3,2)] assms(1) by fastforce

text \<open>
  A scheduler tick against a chain whose head does not move: if it commits fewer batches than its
  bound allows, the store has caught up with the confirmed head (or nothing is confirmed yet).
\<close>

theorem tick_reaches_head:
  assumes "canonical_run ab s" "stable_head cl head" "1 \<le> io_batchSize opts"
    and "runTick (runBatch (memory_ops ab) cl ab opts) sopts sc (s, w) = (Inr m, sc', (s', w'))"
    and "m < max_batches sopts"
  shows "sc_lastFailure sc' = None \<and> canonical_run ab s' \<and>
    (if head < io_confirmations opts then True
     else case checkpoint_of (io_chainId opts) s' of
       None \<Rightarrow> head - io_confirmations opts < io_deploymentBlock opts
     | Some k \<Rightarrow> head - io_confirmations opts \<le> ck_blockNumber k)"
proof -
  have t: "tick_steps (runBatch (memory_ops ab) cl ab opts) (max_batches sopts) 0 (s, w) = (Inr m, (s', w'))"
    and l: "sc_lastFailure sc' = None"
    using assms(4) by (auto simp: runTick_def split: prod.splits sum.splits)
  have "canonical_run ab (fst (s, w))" "m < 0 + max_batches sopts" using assms(1,5) by simp_all
  from mem.tick_catches_up [OF assms(2,3) this(1) t this(2)]
  show ?thesis using l by (auto split: option.splits)
qed

interpretation mem: sound_store "memory_ops ab" "canonical_run ab" store_ok for ab
  by unfold_locales (auto simp: run_ok_def applyBatch_ok rollbackAfter_ok dest: canonical_run_ok)

text \<open>
  Whatever the chain answers and wherever a step or a whole tick throws, the memory store stays
  consistent.
\<close>

theorem failed_steps_keep_store_ok:
  assumes "store_ok s"
  shows "store_ok (fst (snd (tick_steps (runBatch (memory_ops ab) cl ab opts) n c (s, w))))"
  using tick_steps_keeps [OF mem.runBatch_sound] assms unfolding call_keeps_def by force

section \<open>A concrete chain\<close>

text \<open>The chain of the witnesses answers every block with one hash, except those above \<open>fork\<close>.\<close>

definition sample_client :: "int \<Rightarrow> unit rpc_client" where
  "sample_client fork = \<lparr>rc_getBlockNumber = call_return 25,
     rc_getBlock = (\<lambda>n. call_return \<lparr>rb_hash = Some (if n \<le> fork then ''0xh'' else ''0xi''), rb_parentHash = ''0xh'',
        rb_timestamp = n\<rparr>),
     rc_getLogs = (\<lambda>q a b. call_return []),
     rc_getTransactionReceipt = (\<lambda>h. call_throw (JsError ''no receipt''))\<rparr>"

definition sample_options :: "unit indexer_options" where
  "sample_options = \<lparr>io_chainId = 1, io_deploymentBlock = 1, io_confirmations = 5, io_batchSize = 10,
     io_blockConcurrency = None, io_canonicalMode = Some Sparse, io_addresses = [''0xF''],
     io_factoryAddress = None, io_protocol = None, io_financial = None\<rparr>"

definition sample_store2 :: memory_store where
  "sample_store2 = snd (applyBatch sample_abi (sample_batch 11 (Some sample_pred) ''mint'') sample_store)"

lemma sample_run2: "canonical_run sample_abi sample_store2"
proof -
  let ?b = "sample_batch 11 (Some sample_pred) ''mint''"
  have app: "applyBatch sample_abi ?b sample_store = (None, sample_store2)"
    by (simp add: sample_store2_def prod_eq_iff sample_facts(4))
  show ?thesis by (rule run_batch [OF sample_run _ app]) (simp add: sample_batch_def)
qed

lemma sample_stable:
  "stable_chain (sample_client f) (\<lambda>n. \<lparr>rb_hash = Some (if n \<le> f then ''0xh'' else ''0xi''), rb_parentHash = ''0xh'',
     rb_timestamp = n\<rparr>)"
  "stable_head (sample_client f) 25"
  by (simp_all add: stable_chain_def stable_head_def sample_client_def call_return_def)

lemma pair_of: "fst p = a \<Longrightarrow> p = (a, (fst (snd p), snd (snd p)))"
  by (cases p) auto

theorem batch_extends_checkpoint_witness:
  "\<exists>h. checkpoint_of 1 (fst (snd (runBatch (memory_ops sample_abi) (sample_client 30) sample_abi sample_options
     (sample_store, ())))) = Some \<lparr>ck_chainId = 1, ck_blockNumber = 20, ck_blockHash = h\<rparr>"
proof -
  have "fst (runBatch (memory_ops sample_abi) (sample_client 30) sample_abi sample_options (sample_store, ())) =
      Inr (Some \<lparr>br_fromBlock = 11, br_toBlock = 20, br_blockCount = 10, br_anchorCount = 1, br_eventCount = 0,
        br_discoveredMarkets = 0, br_status = ConfirmedBlock, br_caughtUp = True\<rparr>)"
    by code_simp
  from batch_extends_checkpoint [OF sample_run _ pair_of [OF this]]
  show ?thesis by (auto simp: sample_options_def)
qed


lemma triple_of: "fst p = a \<Longrightarrow> p = (a, fst (snd p), (fst (snd (snd p)), snd (snd (snd p))))"
  by (cases p) auto

end
