(* ===== verification/Memory_Queries.thy ===== *)
theory Memory_Queries
  imports Memory_Guarantees
begin

text \<open>
  The query half of \<open>MemoryEventStore\<close> (offchain/indexer/src/memory-store.ts): filtered lists behind an
  offset cursor, and the market catalog and the activity feed behind a keyset cursor.

  A page is the items with the next cursor, if any. The opaque cursor codec of store.ts (JSON in base64url)
  is a parameter, the record \<open>cursor_codec\<close>; \<open>lc\<close> is localeCompare.
\<close>

section \<open>Offset pages\<close>

type_synonym 'a page = "'a list \<times> string option"

definition valid_limit :: "rat \<Rightarrow> bool" where
  "valid_limit limit = (snd (quotient_of limit) = 1 \<and> 1 \<le> limit \<and> limit \<le> 100)"

text \<open>\<open>Number.parseInt(s, 10)\<close>: white space, a sign and the leading digits; no digit is NaN.\<close>

definition parse_int10 :: "string \<Rightarrow> int option" where
  "parse_int10 s =
     (let t = dropWhile is_space s;
          neg = (t \<noteq> [] \<and> hd t = CHR ''-'');
          u = (if t \<noteq> [] \<and> (hd t = CHR ''-'' \<or> hd t = CHR ''+'') then tl t else t);
          ds = takeWhile is_digit u
      in if ds = [] then None else Some ((if neg then -1 else 1) * int (digits_val ds)))"

definition limit_nat :: "rat \<Rightarrow> nat" where
  "limit_nat limit = nat \<lfloor>limit\<rfloor>"

definition queryPage :: "'a list \<Rightarrow> rat \<Rightarrow> string option \<Rightarrow> 'a page outcome" where
  "queryPage items limit cursor =
     (if \<not> valid_limit limit then Inl (RangeError ''limit must be an integer within [1, 100]'')
      else
        case (case cursor of None \<Rightarrow> Some 0 | Some c \<Rightarrow> parse_int10 c) of
          None \<Rightarrow> Inl (RangeError ''invalid cursor'')
        | Some offset \<Rightarrow>
            if MAX_SAFE_INTEGER < \<bar>offset\<bar> \<or> offset < 0 \<or>
               dec offset \<noteq> (case cursor of None \<Rightarrow> ''0'' | Some c \<Rightarrow> c)
            then Inl (RangeError ''invalid cursor'')
            else
              let start = nat offset; n = limit_nat limit in
              Inr (take n (drop start items),
                   if start + n < length items then Some (dec (int (start + n))) else None))"

definition validateLimit :: "rat \<Rightarrow> unit outcome" where
  "validateLimit limit = require (valid_limit limit) (RangeError ''limit must be an integer within [1, 100]'')"

section \<open>Filtered lists\<close>

definition bigint_desc :: "int \<Rightarrow> int \<Rightarrow> int" where
  "bigint_desc a b = (if a = b then 0 else if a < b then 1 else -1)"

definition optional_address :: "abi \<Rightarrow> string option \<Rightarrow> string option outcome" where
  "optional_address ab v = (case v of None \<Rightarrow> Inr None | Some a \<Rightarrow> outcome_map Some (checked_address ab a))"

text \<open>
  \<open>filter_checked\<close> filters by a vault that is checksummed for every item: with no item in question the
  address is never checked.
\<close>

definition filter_checked ::
  "abi \<Rightarrow> string option \<Rightarrow> ('a \<Rightarrow> string option) \<Rightarrow> 'a list \<Rightarrow> 'a list outcome" where
  "filter_checked ab vault field items =
     (case vault of
        None \<Rightarrow> Inr items
      | Some v \<Rightarrow>
          if items = [] then Inr []
          else outcome_map (\<lambda>a. filter (\<lambda>x. field x = Some a) items) (checked_address ab v))"

definition listMarkets :: "int \<Rightarrow> rat \<Rightarrow> string option \<Rightarrow> projections \<Rightarrow> market_view page outcome" where
  "listMarkets chainId limit cursor s =
     queryPage (js_sort (\<lambda>a b. bigint_desc (mw_createdBlock a) (mw_createdBlock b))
       (filter (\<lambda>m. mw_chainId m = chainId) (map_values (pj_markets s)))) limit cursor"

definition market_of :: "abi \<Rightarrow> int \<Rightarrow> string \<Rightarrow> projections \<Rightarrow> market_view option outcome" where
  "market_of ab chainId market s = outcome_map (map_get (pj_markets s)) (addressKey ab chainId market)"

definition listListings ::
  "abi \<Rightarrow> int \<Rightarrow> string option \<Rightarrow> bool option \<Rightarrow> rat \<Rightarrow> string option \<Rightarrow> projections \<Rightarrow>
     listing_view page outcome" where
  "listListings ab chainId vault active limit cursor s =
     outcome_bind (filter_checked ab vault (\<lambda>l. Some (lw_vault l))
         (filter (\<lambda>l. lw_chainId l = chainId) (map_values (pj_listings s)))) (\<lambda>items.
       queryPage (js_sort (\<lambda>a b. bigint_desc (lw_updatedBlock a) (lw_updatedBlock b))
         (filter (\<lambda>l. active = None \<or> active = Some (lw_active l)) items)) limit cursor)"

definition listFills ::
  "abi \<Rightarrow> int \<Rightarrow> string option \<Rightarrow> string option \<Rightarrow> rat \<Rightarrow> string option \<Rightarrow> projections \<Rightarrow>
     fill_view page outcome" where
  "listFills ab chainId vault listing limit cursor s =
     outcome_bind (filter_checked ab vault
         (\<lambda>f. map_option lw_vault (map_get (pj_listings s) (hexKey chainId (fw_listingId f))))
         (filter (\<lambda>f. listing = None \<or> listing = Some (fw_listingId f))
           (filter (\<lambda>f. fw_chainId f = chainId) (map_values (pj_fills s))))) (\<lambda>items.
       queryPage (js_sort (\<lambda>a b. bigint_desc (fw_blockNumber a) (fw_blockNumber b)) items) limit cursor)"

text \<open>The market's state is joined to a position when it is listed.\<close>

definition with_market :: "abi \<Rightarrow> projections \<Rightarrow> position_view \<Rightarrow> position_view outcome" where
  "with_market ab s p =
     outcome_map (\<lambda>key. let snap = positionMarketSnapshot (map_get (pj_markets s) key) in
         p\<lparr>pw_marketState := fst snap, pw_winningOutcome := snd snap\<rparr>)
       (addressKey ab (pw_chainId p) (pw_vault p))"

definition listPositions ::
  "abi \<Rightarrow> int \<Rightarrow> string \<Rightarrow> string option \<Rightarrow> rat \<Rightarrow> string option \<Rightarrow> projections \<Rightarrow>
     position_view page outcome" where
  "listPositions ab chainId own vault limit cursor s =
     outcome_bind (checked_address ab own) (\<lambda>w.
     outcome_bind (filter_checked ab vault (\<lambda>p. Some (pw_vault p))
         (filter (\<lambda>p. 0 < pw_balance p)
           (filter (\<lambda>p. pw_chainId p = chainId \<and> pw_owner p = w) (map_values (pj_positions s))))) (\<lambda>items.
     outcome_bind (traverse (with_market ab s)
         (js_sort (\<lambda>a b. bigint_desc (pw_updatedBlock a) (pw_updatedBlock b)) items)) (\<lambda>joined.
       queryPage joined limit cursor)))"

definition listClaims ::
  "abi \<Rightarrow> int \<Rightarrow> string \<Rightarrow> string option \<Rightarrow> rat \<Rightarrow> string option \<Rightarrow> projections \<Rightarrow> claim_view page outcome" where
  "listClaims ab chainId own vault limit cursor s =
     outcome_bind (checked_address ab own) (\<lambda>w.
     outcome_bind (filter_checked ab vault (\<lambda>c. Some (cw_vault c))
         (filter (\<lambda>c. cw_chainId c = chainId \<and> cw_owner c = w) (map_values (pj_claims s)))) (\<lambda>items.
       queryPage (js_sort (\<lambda>a b. bigint_desc (cw_blockNumber a) (cw_blockNumber b)) items) limit cursor))"

section \<open>Keyset pages\<close>

text \<open>\<open>cc_decode\<close> yields the decoded JSON value or the RangeError of a malformed cursor.\<close>

record cursor_codec =
  cc_encode :: "json \<Rightarrow> string"
  cc_decode :: "string \<Rightarrow> json outcome"

definition json_field :: "json \<Rightarrow> string \<Rightarrow> json option" where
  "json_field j k = (case j of JObj fs \<Rightarrow> map_of fs k | _ \<Rightarrow> None)"

definition hash_text :: "string \<Rightarrow> bool" where
  "hash_text s = (starts_with ''0x'' s \<and> length s = 66 \<and> list_all (\<lambda>c. radix_digit c < 16) (drop 2 s))"

definition invalid_cursor :: js_error where
  "invalid_cursor = RangeError ''invalid cursor''"

record market_cursor =
  mc_block :: int
  mc_market :: string

definition marketCursor :: "cursor_codec \<Rightarrow> abi \<Rightarrow> string \<Rightarrow> market_cursor outcome" where
  "marketCursor cc ab v =
     outcome_bind (cc_decode cc v) (\<lambda>j.
       case (json_field j ''block'', json_field j ''market'') of
         (Some (JStr b), Some (JStr m)) \<Rightarrow>
           (case (parse_dec b, ab_address ab m) of
              (Some n, Some a) \<Rightarrow> Inr \<lparr>mc_block = int n, mc_market = a\<rparr>
            | _ \<Rightarrow> Inl invalid_cursor)
       | _ \<Rightarrow> Inl invalid_cursor)"

record activity_cursor =
  ac_block :: int
  ac_transactionHash :: string
  ac_logIndex :: int

definition activityCursor :: "cursor_codec \<Rightarrow> string \<Rightarrow> activity_cursor outcome" where
  "activityCursor cc v =
     outcome_bind (cc_decode cc v) (\<lambda>j.
       case (json_field j ''block'', json_field j ''transactionHash'', json_field j ''logIndex'') of
         (Some (JStr b), Some (JStr h), Some (JNum i)) \<Rightarrow>
           (case parse_dec b of
              None \<Rightarrow> Inl invalid_cursor
            | Some n \<Rightarrow>
                if hash_text h \<and> snd (quotient_of i) = 1 \<and> 0 \<le> i \<and> \<lfloor>i\<rfloor> \<le> MAX_SAFE_INTEGER
                then Inr \<lparr>ac_block = int n, ac_transactionHash = h, ac_logIndex = \<lfloor>i\<rfloor>\<rparr>
                else Inl invalid_cursor)
       | _ \<Rightarrow> Inl invalid_cursor)"

definition compareMarketsDesc :: "(string \<Rightarrow> string \<Rightarrow> int) \<Rightarrow> market_view \<Rightarrow> market_view \<Rightarrow> int" where
  "compareMarketsDesc lc a b =
     (if mw_createdBlock a \<noteq> mw_createdBlock b then bigint_desc (mw_createdBlock a) (mw_createdBlock b)
      else lc (toLowerCase (mw_market b)) (toLowerCase (mw_market a)))"

definition market_after :: "market_cursor \<Rightarrow> market_view \<Rightarrow> bool" where
  "market_after c m =
     (mw_createdBlock m < mc_block c \<or>
      mw_createdBlock m = mc_block c \<and> toLowerCase (mw_market m) < toLowerCase (mc_market c))"

definition compareActivitiesDesc :: "(string \<Rightarrow> string \<Rightarrow> int) \<Rightarrow> activity_view \<Rightarrow> activity_view \<Rightarrow> int" where
  "compareActivitiesDesc lc a b =
     (if aw_blockNumber a \<noteq> aw_blockNumber b then bigint_desc (aw_blockNumber a) (aw_blockNumber b)
      else let tx = lc (toLowerCase (aw_transactionHash b)) (toLowerCase (aw_transactionHash a)) in
           if tx = 0 then aw_logIndex b - aw_logIndex a else tx)"

definition compareActivityToCursor :: "(string \<Rightarrow> string \<Rightarrow> int) \<Rightarrow> activity_view \<Rightarrow> activity_cursor \<Rightarrow> int" where
  "compareActivityToCursor lc a c =
     (if aw_blockNumber a \<noteq> ac_block c then (if aw_blockNumber a < ac_block c then 1 else -1)
      else let tx = lc (toLowerCase (aw_transactionHash a)) (toLowerCase (ac_transactionHash c)) in
           if tx \<noteq> 0 then (if tx < 0 then 1 else -1)
           else if aw_logIndex a = ac_logIndex c then 0
           else if aw_logIndex a < ac_logIndex c then 1 else -1)"

text \<open>A page of sorted items; the cursor of the last item is given out when more items follow.\<close>

definition keyset_page :: "('a \<Rightarrow> string) \<Rightarrow> rat \<Rightarrow> 'a list \<Rightarrow> 'a page" where
  "keyset_page cursor_for limit items =
     (let n = limit_nat limit; xs = take n items in
      (xs, if n < length items \<and> xs \<noteq> [] then Some (cursor_for (last xs)) else None))"

definition participates :: "projections \<Rightarrow> string \<Rightarrow> string \<Rightarrow> bool" where
  "participates s key own = (case map_get (pj_participants s) key of None \<Rightarrow> False | Some ps \<Rightarrow> own \<in> set ps)"

definition market_json :: "market_view \<Rightarrow> json" where
  "market_json m = JObj [(''block'', JStr (dec (mw_createdBlock m))), (''market'', JStr (mw_market m))]"

definition market_token :: "cursor_codec \<Rightarrow> market_view \<Rightarrow> string" where
  "market_token cc m = cc_encode cc (market_json m)"

definition activity_json :: "activity_view \<Rightarrow> json" where
  "activity_json a = JObj [(''block'', JStr (dec (aw_blockNumber a))),
     (''transactionHash'', JStr (aw_transactionHash a)), (''logIndex'', JNum (rat_of_int (aw_logIndex a)))]"

definition activity_token :: "cursor_codec \<Rightarrow> activity_view \<Rightarrow> string" where
  "activity_token cc a = cc_encode cc (activity_json a)"

definition optional_cursor :: "(string \<Rightarrow> 'c outcome) \<Rightarrow> string option \<Rightarrow> 'c option outcome" where
  "optional_cursor read cursor = (case cursor of None \<Rightarrow> Inr None | Some v \<Rightarrow> outcome_map Some (read v))"

definition listMarketCatalog ::
  "cursor_codec \<Rightarrow> (string \<Rightarrow> string \<Rightarrow> int) \<Rightarrow> abi \<Rightarrow> int \<Rightarrow> market_status option \<Rightarrow> string option \<Rightarrow> rat \<Rightarrow>
     string option \<Rightarrow> projections \<Rightarrow> market_view page outcome" where
  "listMarketCatalog cc lc ab chainId status own limit cursor s =
     outcome_bind (validateLimit limit) (\<lambda>_.
     outcome_bind (optional_address ab own) (\<lambda>w.
     outcome_map (\<lambda>c.
         keyset_page (market_token cc) limit (js_sort (compareMarketsDesc lc)
           (filter (\<lambda>m. case c of None \<Rightarrow> True | Some k \<Rightarrow> market_after k m)
             (filter (\<lambda>m. case w of None \<Rightarrow> True
                          | Some a \<Rightarrow> mw_creator m = a \<or>
                              list_ex (\<lambda>(key, v). aw_chainId v = chainId \<and> aw_vault v = mw_market m \<and>
                                         participates s key a) (pj_activities s))
               (filter (\<lambda>m. case status of None \<Rightarrow> True
                            | Some t \<Rightarrow> matchesMarketStatus (mw_state m) (mw_protocolVersion m) t)
                 (filter (\<lambda>m. mw_chainId m = chainId) (map_values (pj_markets s))))))))
       (optional_cursor (marketCursor cc ab) cursor)))"

definition own_activities :: "int \<Rightarrow> string \<Rightarrow> projections \<Rightarrow> activity_view list" where
  "own_activities chainId own s =
     map snd (filter (\<lambda>(key, a). aw_chainId a = chainId \<and> participates s key own) (pj_activities s))"

definition listActivity ::
  "cursor_codec \<Rightarrow> (string \<Rightarrow> string \<Rightarrow> int) \<Rightarrow> abi \<Rightarrow> int \<Rightarrow> string \<Rightarrow> rat \<Rightarrow> string option \<Rightarrow> projections \<Rightarrow>
     activity_view page outcome" where
  "listActivity cc lc ab chainId own limit cursor s =
     outcome_bind (validateLimit limit) (\<lambda>_.
     outcome_bind (checked_address ab own) (\<lambda>w.
     outcome_map (\<lambda>c.
         keyset_page (activity_token cc) limit (js_sort (compareActivitiesDesc lc)
           (filter (\<lambda>a. case c of None \<Rightarrow> True | Some k \<Rightarrow> 0 < compareActivityToCursor lc a k)
             (own_activities chainId w s))))
       (optional_cursor (activityCursor cc) cursor)))"


section \<open>Reading all pages\<close>

text \<open>A client that follows \<open>nextCursor\<close> until there is none, at most \<open>n\<close> pages.\<close>

fun follow_pages :: "nat \<Rightarrow> (string option \<Rightarrow> 'a page outcome) \<Rightarrow> string option \<Rightarrow> 'a list outcome" where
  "follow_pages 0 q c = Inl (JsError ''too many pages'')"
| "follow_pages (Suc n) q c =
     outcome_bind (q c) (\<lambda>(xs, next). case next of
       None \<Rightarrow> Inr xs
     | Some d \<Rightarrow> outcome_map ((@) xs) (follow_pages n q (Some d)))"

lemma limit_nat_bounds:
  assumes "valid_limit limit"
  shows "1 \<le> limit_nat limit \<and> limit_nat limit \<le> 100"
proof -
  have "1 \<le> \<lfloor>limit\<rfloor>" "\<lfloor>limit\<rfloor> < 101" using assms by (simp_all add: valid_limit_def le_floor_iff floor_less_iff)
  then show ?thesis unfolding limit_nat_def by linarith
qed

lemma parse_int10_dec:
  assumes "0 \<le> n"
  shows "parse_int10 (dec n) = Some n"
proof -
  obtain c cs where c: "dec n = c # cs" "is_digit c" using dec_nat_hd [of "nat n"] assms by (auto simp: dec_def)
  have sp: "\<not> is_space c" using c(2) by (auto simp: is_digit_def is_space_def Let_def)
  have sg: "c \<noteq> CHR ''-''" "c \<noteq> CHR ''+''" using c(2) by (auto simp: is_digit_def)
  have "list_all is_digit (dec n)" using dec_nat_digits assms by (simp add: dec_def)
  then have all: "takeWhile is_digit (c # cs) = c # cs" by (simp add: c(1) takeWhile_eq_all_conv list_all_iff)
  have "int (digits_val (c # cs)) = n" using assms c(1) by (simp add: dec_def flip: c(1))
  then show ?thesis
    using sg sp all by (simp add: parse_int10_def Let_def c(1))
qed

lemma dec_zero: "dec 0 = ''0''"
  by code_simp

lemma queryPage_offset:
  assumes "valid_limit limit" "int start \<le> MAX_SAFE_INTEGER"
  shows "queryPage items limit (if start = 0 then None else Some (dec (int start))) =
    Inr (take (limit_nat limit) (drop start items),
         if start + limit_nat limit < length items then Some (dec (int (start + limit_nat limit))) else None)"
  using assms parse_int10_dec [of "int start"]
  by (cases "start = 0") (simp_all add: queryPage_def Let_def dec_zero MAX_SAFE_INTEGER_def)

lemma follow_offsets:
  assumes "valid_limit limit" "int (length items) \<le> MAX_SAFE_INTEGER" "start \<le> length items"
    "length items - start < n"
  shows "follow_pages n (queryPage items limit) (if start = 0 then None else Some (dec (int start))) =
    Inr (drop start items)"
  using assms
proof (induction n arbitrary: start)
  case (Suc n)
  let ?n = "limit_nat limit"
  have l: "1 \<le> ?n" using limit_nat_bounds [OF Suc.prems(1)] by simp
  have q: "queryPage items limit (if start = 0 then None else Some (dec (int start))) =
      Inr (take ?n (drop start items), if start + ?n < length items then Some (dec (int (start + ?n))) else None)"
    using Suc.prems by (intro queryPage_offset) auto
  show ?case
  proof (cases "start + ?n < length items")
    case True
    have "follow_pages n (queryPage items limit) (if start + ?n = 0 then None else Some (dec (int (start + ?n)))) =
        Inr (drop (start + ?n) items)"
      using Suc.prems l True by (intro Suc.IH) auto
    moreover have "take ?n (drop start items) @ drop (start + ?n) items = drop start items"
      by (metis add.commute append_take_drop_id drop_drop)
    ultimately show ?thesis using True l by (simp add: q)
  next
    case False
    then show ?thesis by (simp add: q)
  qed
qed simp

text \<open>
  Offset pages are complete: a client that follows the cursors of a list that does not change reads
  every item exactly once, in the order of the list, whatever page size it asks for.
\<close>

theorem offset_pages_complete:
  assumes "valid_limit limit" "int (length items) \<le> MAX_SAFE_INTEGER"
  shows "follow_pages (length items + 1) (queryPage items limit) None = Inr items"
  using follow_offsets [OF assms, of 0 "length items + 1"] by simp

section \<open>Keyset pages are complete\<close>

lemma filter_after_nth:
  assumes "sorted_wrt (\<lambda>a b. cmp a b < (0 :: int)) ys" "\<And>a b. cmp a b < 0 \<Longrightarrow> \<not> cmp b a < 0" "i < length ys"
  shows "filter (\<lambda>x. cmp (ys ! i) x < 0) ys = drop (Suc i) ys"
  using assms(1,3)
proof (induction ys arbitrary: i)
  case (Cons y ys)
  show ?case
  proof (cases i)
    case 0
    have "\<not> cmp y y < 0" using assms(2) by blast
    then show ?thesis using 0 Cons.prems(1) by (simp add: filter_id_conv)
  next
    case (Suc j)
    then have j: "j < length ys" using Cons.prems(2) by simp
    then have "cmp y (ys ! j) < 0" using Cons.prems(1) by simp
    then have "\<not> cmp (ys ! j) y < 0" by (rule assms(2))
    then show ?thesis using Suc Cons.IH [OF _ j] Cons.prems(1) by simp
  qed
qed simp

lemma follow_keyset:
  assumes lim: "valid_limit limit"
    and sorted: "sorted_wrt (\<lambda>a b. cmp a b < (0 :: int)) ys" "\<And>a b. cmp a b < 0 \<Longrightarrow> \<not> cmp b a < 0"
    and q: "q None = Inr (keyset_page tok limit ys)"
      "\<And>y. y \<in> set ys \<Longrightarrow> q (Some (tok y)) = Inr (keyset_page tok limit (filter (\<lambda>x. cmp y x < 0) ys))"
  shows "follow_pages (length ys + 1) q None = Inr ys"
proof -
  let ?n = "limit_nat limit"
  have l: "1 \<le> ?n" using limit_nat_bounds [OF lim] by simp
  have step: "start \<le> length ys \<Longrightarrow> length ys - start < n \<Longrightarrow> q c = Inr (keyset_page tok limit (drop start ys)) \<Longrightarrow>
      follow_pages n q c = Inr (drop start ys)" for n start c
  proof (induction n arbitrary: start c)
    case (Suc n)
    show ?case
    proof (cases "?n < length (drop start ys)")
      case True
      let ?i = "start + ?n - 1"
      have i: "?i < length ys" using True l by simp
      have last: "last (take ?n (drop start ys)) = ys ! ?i"
        using True l by (subst last_conv_nth) (auto simp: min_def)
      have "q (Some (tok (ys ! ?i))) = Inr (keyset_page tok limit (drop (start + ?n) ys))"
        using q(2) [of "ys ! ?i"] filter_after_nth [OF sorted i] i l by simp
      then have "follow_pages n q (Some (tok (ys ! ?i))) = Inr (drop (start + ?n) ys)"
        using Suc.prems True l by (intro Suc.IH) auto
      moreover have "take ?n (drop start ys) @ drop (start + ?n) ys = drop start ys"
        by (metis add.commute append_take_drop_id drop_drop)
      moreover have "take ?n (drop start ys) \<noteq> []" using True l by auto
      ultimately show ?thesis using Suc.prems(3) True last by (simp add: keyset_page_def Let_def)
    next
      case False
      then show ?thesis using Suc.prems(3) by (simp add: keyset_page_def Let_def)
    qed
  qed simp
  show ?thesis using step [of 0 "length ys + 1" None] q(1) by simp
qed


section \<open>Orders of the feeds\<close>

text \<open>A comparison by a block number, newest first, then by another comparison.\<close>

definition newest_first :: "('a \<Rightarrow> int) \<Rightarrow> ('a \<Rightarrow> 'a \<Rightarrow> int) \<Rightarrow> 'a \<Rightarrow> 'a \<Rightarrow> int" where
  "newest_first block cmp a b = (if block a \<noteq> block b then bigint_desc (block a) (block b) else cmp a b)"

lemma newest_first_comparator:
  assumes "comparator cmp"
  shows "comparator (newest_first block cmp)"
proof
  fix x y z
  show "sgn (newest_first block cmp x y) = - sgn (newest_first block cmp y x)"
    using comparator.cmp_flip [OF assms, of x y] by (auto simp: newest_first_def bigint_desc_def)
  show "newest_first block cmp x z \<le> 0" if "newest_first block cmp x y \<le> 0" "newest_first block cmp y z \<le> 0"
    using that comparator.cmp_trans [OF assms, of x y z]
    by (auto simp: newest_first_def bigint_desc_def split: if_splits)
qed

text \<open>A comparison by one key and, where that finds no difference, by an integer, both descending.\<close>

definition then_index :: "(string \<Rightarrow> string \<Rightarrow> int) \<Rightarrow> ('a \<Rightarrow> string) \<Rightarrow> ('a \<Rightarrow> int) \<Rightarrow> 'a \<Rightarrow> 'a \<Rightarrow> int" where
  "then_index lc key idx a b = (let t = lc (key b) (key a) in if t = 0 then idx b - idx a else t)"

lemma comparator_sides:
  assumes "comparator lc"
  shows "lc a b < 0 \<longleftrightarrow> 0 < lc b a" "lc a b = 0 \<longleftrightarrow> lc b a = 0"
  using comparator.cmp_flip [OF assms, of a b] by (auto simp: sgn_if split: if_splits)

lemma then_index_comparator:
  assumes lc: "comparator lc"
  shows "comparator (then_index lc key idx)"
proof
  fix x y z
  show "sgn (then_index lc key idx x y) = - sgn (then_index lc key idx y x)"
    using comparator_sides [OF lc, of "key x" "key y"] comparator.cmp_flip [OF lc, of "key x" "key y"]
    by (auto simp: then_index_def Let_def sgn_if split: if_splits)
  show "then_index lc key idx x z \<le> 0"
    if le: "then_index lc key idx x y \<le> 0" "then_index lc key idx y z \<le> 0"
  proof -
    have a: "lc (key y) (key x) \<le> 0" "lc (key z) (key y) \<le> 0"
      using le by (auto simp: then_index_def Let_def split: if_splits)
    then have c: "lc (key z) (key x) \<le> 0" using comparator.cmp_trans [OF lc] by blast
    show ?thesis
    proof (cases "lc (key z) (key x) = 0")
      case False
      then show ?thesis using c by (simp add: then_index_def Let_def)
    next
      case True
      then have "lc (key x) (key z) \<le> 0" using comparator_sides(2) [OF lc] by simp
      then have "lc (key x) (key y) \<le> 0" "lc (key y) (key z) \<le> 0"
        using a comparator.cmp_trans [OF lc] by blast+
      then have "lc (key y) (key x) = 0" "lc (key z) (key y) = 0"
        using a comparator.cmp_zero [OF lc] by blast+
      then show ?thesis using le True by (simp add: then_index_def)
    qed
  qed
qed

lemma compareActivitiesDesc_eq:
  "compareActivitiesDesc lc =
     newest_first aw_blockNumber (then_index lc (\<lambda>a. toLowerCase (aw_transactionHash a)) aw_logIndex)"
  by (simp add: fun_eq_iff compareActivitiesDesc_def newest_first_def then_index_def)

lemma compareMarketsDesc_eq:
  "compareMarketsDesc lc = newest_first mw_createdBlock (\<lambda>a b. lc (toLowerCase (mw_market b)) (toLowerCase (mw_market a)))"
  by (simp add: fun_eq_iff compareMarketsDesc_def newest_first_def)

lemma activities_comparator: "comparator lc \<Longrightarrow> comparator (compareActivitiesDesc lc)"
  unfolding compareActivitiesDesc_eq by (intro newest_first_comparator then_index_comparator)

lemma markets_comparator:
  assumes lc: "comparator lc"
  shows "comparator (compareMarketsDesc lc)"
  unfolding compareMarketsDesc_eq
proof (rule newest_first_comparator, unfold_locales)
  fix x y z :: market_view
  let ?k = "\<lambda>m. toLowerCase (mw_market m)"
  show "sgn (lc (?k y) (?k x)) = - sgn (lc (?k x) (?k y))" by (rule comparator.cmp_flip [OF lc])
  show "lc (?k z) (?k x) \<le> 0" if "lc (?k y) (?k x) \<le> 0" "lc (?k z) (?k y) \<le> 0"
    using that comparator.cmp_trans [OF lc] by blast
qed

lemma comparator_asym: "comparator cmp \<Longrightarrow> cmp a b < 0 \<Longrightarrow> \<not> cmp b a < 0"
  using comparator.cmp_flip [of cmp a b] by (auto simp: sgn_if split: if_splits)

text \<open>Sorting items no two of which compare equal leaves them strictly ordered.\<close>

lemma js_sort_strict:
  assumes "comparator cmp" "distinct xs"
    and "\<And>x y. x \<in> set xs \<Longrightarrow> y \<in> set xs \<Longrightarrow> cmp x y = 0 \<Longrightarrow> x = y"
  shows "sorted_wrt (\<lambda>a b. cmp a b < 0) (js_sort cmp xs)"
proof -
  have "sorted_wrt (\<lambda>a b. cmp a b \<le> 0 \<and> a \<noteq> b) (js_sort cmp xs)"
    using comparator.sorted_js_sort [OF assms(1), of xs] assms(2) distinct_js_sort [of cmp xs]
    by (simp add: sorted_wrt_iff_nth_less nth_eq_iff_index_eq)
  then show ?thesis
    by (rule sorted_wrt_mono_rel [rotated]) (use assms(3) in force)
qed

section \<open>Activities of the store\<close>

definition activity_key :: "activity_view \<Rightarrow> string" where
  "activity_key a = dec (aw_chainId a) @ '':'' @ toLowerCase (aw_transactionHash a) @ '':'' @ dec (aw_logIndex a)"

lemma recordActivity_activities [simp]:
  "pj_activities (snd (recordActivity ab e a x s)) = map_set (eventKey e) a (pj_activities s)"
  by (auto simp: recordActivity_def Let_def with_value_def fail_def ok_def split: sum.splits)

lemma activity_key_event:
  "aw_chainId a = ev_chainId e \<Longrightarrow> aw_transactionHash a = ev_transactionHash e \<Longrightarrow> aw_logIndex a = ev_logIndex e \<Longrightarrow>
   activity_key a = eventKey e"
  by (simp add: activity_key_def eventKey_def)

lemma keyed_event_activity:
  "keyed activity_key m \<Longrightarrow> activity_key a = eventKey e \<Longrightarrow> keyed activity_key (map_set (eventKey e) a m)"
  using keyed_set [of activity_key m a] by simp

lemmas mutation_defs = project_created_def project_initialized_def project_metadata_def project_purchase_def
  project_terminal_def project_listing_def project_fill_def project_closed_def project_delta_def project_claim_def
  on_market_def

lemma mutation_activities:
  "keyed activity_key (pj_activities s) \<Longrightarrow> keyed activity_key (pj_activities (snd (applyMutation ab e m s)))"
  by (cases m)
     (auto simp: mutation_defs Let_def with_value_def activity_def
           intro!: keyed_event_activity activity_key_event split: sum.splits option.splits)


definition activities_keyed :: "memory_store \<Rightarrow> bool" where
  "activities_keyed s = keyed activity_key (pj_activities (ms_projections s))"

lemma project_activities:
  assumes "keyed activity_key (pj_activities p)"
  shows "keyed activity_key (pj_activities (snd (project ab e p)))"
proof (cases "deriveMutations ab e TimeV2")
  case (Inl err)
  then show ?thesis using assms by (simp add: project_def)
next
  case (Inr ms)
  have "keyed activity_key (pj_activities (snd (for_each (applyMutation ab e) ms p)))"
    by (rule for_each_invariant [where I = "\<lambda>p. keyed activity_key (pj_activities p)"])
       (simp_all add: assms mutation_activities)
  then show ?thesis using Inr by (simp add: project_def)
qed

lemma put_event_activities: "activities_keyed s \<Longrightarrow> activities_keyed (snd (put_event ab e s))"
  by (auto simp: activities_keyed_def put_event_def store_project_eq project_activities)

lemma put_events_activities: "activities_keyed s \<Longrightarrow> activities_keyed (snd (for_each (put_event ab) es s))"
  by (rule for_each_invariant [where I = activities_keyed]) (simp_all add: put_event_activities)

lemma put_anchors_activities: "activities_keyed s \<Longrightarrow> activities_keyed (snd (for_each put_anchor bs s))"
  by (simp add: activities_keyed_def put_anchors_same)

lemma applyBatch_activities:
  assumes s: "activities_keyed s"
  shows "activities_keyed (snd (applyBatch ab b s))"
  unfolding applyBatch_def
proof (rule with_value_keeps [where I = activities_keyed, OF s])
  have "activities_keyed (snd (commit_range b t))" if "activities_keyed t" for t
    using that by (simp add: activities_keyed_def commit_range_def Let_def)
  then have "activities_keyed (snd (and_then (for_each put_anchor (bt_anchors b) s) (\<lambda>s1.
      and_then (for_each (put_event ab) (bt_events b) s1) (commit_range b))))"
    by (intro and_then_keeps [where I = activities_keyed] put_anchors_activities put_events_activities s)
  then show "activities_keyed (snd (if already_applied b s then ok s
      else with_value (continues (checkpoint_of (sr_chainId (bt_range b)) s) (bt_range b)) s (\<lambda>_.
        if overlaps (bt_range b) s then fail (JsError ''canonical scan range overlaps committed history'') s
        else and_then (for_each put_anchor (bt_anchors b) s) (\<lambda>s1.
               and_then (for_each (put_event ab) (bt_events b) s1) (commit_range b)))))"
    using s by (auto simp: with_value_def split: sum.splits)
qed

lemma applyLegacy_activities:
  assumes s: "activities_keyed s"
  shows "activities_keyed (snd (applyLegacy ab es bs c s))"
proof -
  have late: "activities_keyed (snd (and_then (for_each put_anchor bs s) (for_each (put_event ab) es)))"
    by (intro and_then_keeps [where I = activities_keyed] put_anchors_activities put_events_activities s)
  have batch: "activities_keyed (snd (with_value v s (\<lambda>b. applyBatch ab b s)))" for v
    by (intro with_value_keeps [where I = activities_keyed] applyBatch_activities s)
  show ?thesis
  proof (cases c)
    case (Some k)
    then show ?thesis
      using late batch by (cases "checkpoint_of (ck_chainId k) s") (simp_all add: applyLegacy_def)
  qed (simp add: applyLegacy_def s)
qed

lemma rollbackAfter_activities:
  assumes "activities_keyed s"
  shows "activities_keyed (snd (rollbackAfter ab c n s))"
proof -
  have "keyed activity_key (pj_activities (clearProjections c (ms_projections s)))"
    using assms by (simp add: activities_keyed_def clearProjections_def Let_def keyed_filter)
  then have "activities_keyed (rebuilt ab c k s)" for k
    unfolding rebuilt_def activities_keyed_def
    by (simp add: for_each_invariant [where I = "\<lambda>p. keyed activity_key (pj_activities p)"] project_activities)
  then show ?thesis by (auto simp: rollbackAfter_eq activities_keyed_def split: option.splits)
qed

lemma reachable_activities: "store_reachable ab s \<Longrightarrow> activities_keyed s"
  by (induction rule: store_reachable.induct)
     (simp_all add: applyBatch_activities applyLegacy_activities rollbackAfter_activities,
      simp add: activities_keyed_def empty_store_def no_projections_def)

section \<open>The activity feed\<close>

text \<open>Fields of an activity that its cursor can carry: what the chain's logs hold.\<close>

definition cursor_fits :: "activity_view \<Rightarrow> bool" where
  "cursor_fits a = (0 \<le> aw_blockNumber a \<and> hash_text (aw_transactionHash a) \<and>
     0 \<le> aw_logIndex a \<and> aw_logIndex a \<le> MAX_SAFE_INTEGER)"

lemma radix_digit_lower: "radix_digit c < 16 \<Longrightarrow> radix_digit (lower_char c) < 16"
  by (auto simp: radix_digit_def lower_char_def Let_def of_char_of split: if_splits)

lemma hash_text_lower:
  assumes "hash_text s"
  shows "hash_text (toLowerCase s)"
proof -
  obtain t where t: "s = ''0x'' @ t" "length t = 64" "list_all (\<lambda>c. radix_digit c < 16) t"
    using assms by (auto simp: hash_text_def starts_with_iff)
  moreover have "toLowerCase ''0x'' = ''0x''" by code_simp
  moreover have "list_all (\<lambda>c. radix_digit c < 16) (toLowerCase t)"
    using t(3) by (auto simp: toLowerCase_def list_all_iff radix_digit_lower)
  ultimately show ?thesis by (simp add: hash_text_def toLowerCase_def)
qed

definition reads_back :: "cursor_codec \<Rightarrow> json \<Rightarrow> bool" where
  "reads_back cc j = (cc_decode cc (cc_encode cc j) = Inr j)"

lemma activityCursor_token:
  assumes "cursor_fits a" "reads_back cc (activity_json a)"
  shows "activityCursor cc (activity_token cc a) =
    Inr \<lparr>ac_block = aw_blockNumber a, ac_transactionHash = aw_transactionHash a, ac_logIndex = aw_logIndex a\<rparr>"
proof -
  have "parse_dec (dec (aw_blockNumber a)) = Some (nat (aw_blockNumber a))"
    using assms(1) by (simp add: cursor_fits_def dec_def)
  moreover have "snd (quotient_of (rat_of_int n)) = 1" for n by (metis of_int_def quotient_of_int snd_conv)
  ultimately show ?thesis
    using assms by (simp add: activityCursor_def activity_token_def reads_back_def activity_json_def json_field_def
        cursor_fits_def)
qed

lemma compareActivityToCursor_last:
  assumes "comparator lc"
  shows "0 < compareActivityToCursor lc x
      \<lparr>ac_block = aw_blockNumber a, ac_transactionHash = aw_transactionHash a, ac_logIndex = aw_logIndex a\<rparr> \<longleftrightarrow>
    compareActivitiesDesc lc a x < 0"
  by (auto simp: compareActivityToCursor_def compareActivitiesDesc_def bigint_desc_def Let_def)

text \<open>
  C26. The activity feed is complete: following its cursors through a store that does not change reads
  every activity the account takes part in exactly once, newest first. The hypotheses on \<open>lc\<close> are the
  contract of localeCompare on hexadecimal text; the cursor text reads back as the JSON it was made of.
\<close>

theorem activity_pages_complete:
  assumes "valid_limit limit" "store_reachable ab s" "ab_address ab own = Some w"
    and "comparator lc" "\<And>x y. hash_text x \<Longrightarrow> hash_text y \<Longrightarrow> lc x y = 0 \<Longrightarrow> x = y"
    and "list_all (\<lambda>a. cursor_fits a \<and> reads_back cc (activity_json a)) (own_activities c w (ms_projections s))"
  shows "follow_pages (length (own_activities c w (ms_projections s)) + 1)
      (\<lambda>cursor. listActivity cc lc ab c own limit cursor (ms_projections s)) None =
    Inr (js_sort (compareActivitiesDesc lc) (own_activities c w (ms_projections s)))"
proof -
  let ?xs = "own_activities c w (ms_projections s)" and ?cmp = "compareActivitiesDesc lc"
  let ?ys = "js_sort ?cmp ?xs"
  note cmp = activities_comparator [OF assms(4)]
  have keyed: "keyed activity_key (pj_activities (ms_projections s))"
    using reachable_activities [OF assms(2)] by (simp add: activities_keyed_def)
  have mem: "x \<in> set (map_values (pj_activities (ms_projections s))) \<and> aw_chainId x = c" if "x \<in> set ?xs" for x
    using that by (auto simp: own_activities_def)
  have same: "x = y" if "x \<in> set ?xs" "y \<in> set ?xs" "?cmp x y = 0" for x y
  proof -
    have "hash_text (aw_transactionHash x)" "hash_text (aw_transactionHash y)"
      using that(1,2) assms(6) by (auto simp: list_all_iff cursor_fits_def)
    then have "toLowerCase (aw_transactionHash y) = toLowerCase (aw_transactionHash x)"
      using that(3)
      by (intro assms(5) hash_text_lower)
         (auto simp: compareActivitiesDesc_def bigint_desc_def Let_def split: if_splits)
    then have "activity_key x = activity_key y"
      using that(3) mem [OF that(1)] mem [OF that(2)]
      by (auto simp: compareActivitiesDesc_def bigint_desc_def activity_key_def Let_def split: if_splits)
    then show ?thesis using keyed_get [OF keyed, of "activity_key x"] mem that by (metis option.inject)
  qed
  have "distinct (map fst (pj_activities (ms_projections s)))" using keyed by (simp add: keyed_def)
  then have d: "distinct ?xs"
    unfolding own_activities_def
    using keyed by (auto simp: distinct_map distinct_filter keyed_def list_all_iff inj_on_def split: prod.splits)
  have "follow_pages (length ?ys + 1) (\<lambda>cursor. listActivity cc lc ab c own limit cursor (ms_projections s)) None = Inr ?ys"
  proof (rule follow_keyset [where cmp = ?cmp and tok = "activity_token cc"])
    show "valid_limit limit" by (fact assms)
    show "sorted_wrt (\<lambda>a b. ?cmp a b < 0) ?ys" by (rule js_sort_strict [OF cmp d same])
    show "\<not> ?cmp b a < 0" if "?cmp a b < 0" for a b by (rule comparator_asym [OF cmp that])
    have start: "listActivity cc lc ab c own limit cursor (ms_projections s) =
        outcome_map (\<lambda>k. keyset_page (activity_token cc) limit (js_sort ?cmp (filter (\<lambda>a. case k of None \<Rightarrow> True
          | Some k \<Rightarrow> 0 < compareActivityToCursor lc a k) ?xs))) (optional_cursor (activityCursor cc) cursor)" for cursor
      using assms(1,3) by (simp add: listActivity_def validateLimit_def require_def checked_address_def)
    show "listActivity cc lc ab c own limit None (ms_projections s) = Inr (keyset_page (activity_token cc) limit ?ys)"
      by (simp add: start optional_cursor_def)
    show "listActivity cc lc ab c own limit (Some (activity_token cc y)) (ms_projections s) =
        Inr (keyset_page (activity_token cc) limit (filter (\<lambda>x. ?cmp y x < 0) ?ys))" if "y \<in> set ?ys" for y
    proof -
      have y: "cursor_fits y" "reads_back cc (activity_json y)" using that assms(6) by (auto simp: list_all_iff)
      show ?thesis
        by (simp add: start optional_cursor_def activityCursor_token [OF y] compareActivityToCursor_last [OF assms(4)]
            comparator.js_sort_filter [OF cmp])
    qed
  qed
  then show ?thesis by simp
qed

definition feed_compare :: "string \<Rightarrow> string \<Rightarrow> int" where
  "feed_compare a b = (if a = b then 0 else if a < b then -1 else 1)"

interpretation feed_order: comparator feed_compare
  by unfold_locales (auto simp: feed_compare_def split: if_splits)

text \<open>A codec for activity cursors: the hash, the log index and the block.\<close>

definition feed_codec :: cursor_codec where
  "feed_codec = \<lparr>cc_encode = (\<lambda>j.
       case (json_field j ''block'', json_field j ''transactionHash'', json_field j ''logIndex'') of
         (Some (JStr b), Some (JStr h), Some (JNum i)) \<Rightarrow> h @ dec \<lfloor>i\<rfloor> @ '':'' @ b
       | _ \<Rightarrow> []),
     cc_decode = (\<lambda>v. let i = takeWhile is_digit (drop 66 v) in
       Inr (JObj [(''block'', JStr (drop (66 + length i + 1) v)), (''transactionHash'', JStr (take 66 v)),
                  (''logIndex'', JNum (rat_of_int (int (digits_val i))))]))\<rparr>"

definition feed_abi :: abi where
  "feed_abi = \<lparr>ab_event = (\<lambda>_ t. if t = ''C'' then Some ''MarketCreated'' else None),
     ab_decode = (\<lambda>_ _ d. Inr (''MarketCreated'',
       [(''market'', AbiText d), (''creator'', AbiText ''0xA''), (''deploymentMode'', AbiNum 0),
        (''creatorBond'', AbiBig 5)])),
     ab_address = Some, ab_bytes = (\<lambda>_. [])\<rparr>"

definition feed_hash :: string where
  "feed_hash = ''0x'' @ replicate 64 (CHR ''B'')"

definition feed_event :: "int \<Rightarrow> string \<Rightarrow> indexed_event" where
  "feed_event i m = (sample_event 5 m)\<lparr>ev_transactionHash := feed_hash, ev_logIndex := i,
     ev_topics := [''C'']\<rparr>"

definition feed_batch :: canonical_batch where
  "feed_batch = (sample_batch 1 None [])\<lparr>bt_events := [feed_event 0 ''0xM'', feed_event 1 ''0xN'']\<rparr>"

definition feed_store :: memory_store where
  "feed_store = snd (applyBatch feed_abi feed_batch empty_store)"

lemma feed_codec_reads:
  assumes "cursor_fits a"
  shows "reads_back feed_codec (activity_json a)"
proof -
  have h: "length (aw_transactionHash a) = 66" and i: "0 \<le> aw_logIndex a"
    using assms by (simp_all add: cursor_fits_def hash_text_def)
  have "list_all is_digit (dec (aw_logIndex a))" using i dec_nat_digits by (simp add: dec_def)
  then have "\<forall>c \<in> set (dec (aw_logIndex a)). is_digit c" by (simp add: list_all_iff)
  moreover have "\<not> is_digit (CHR '':'')" by code_simp
  ultimately have "takeWhile is_digit (dec (aw_logIndex a) @ CHR '':'' # t) = dec (aw_logIndex a)" for t by simp
  moreover have "int (digits_val (dec (aw_logIndex a))) = aw_logIndex a" using i by (simp add: dec_def)
  ultimately show ?thesis
    using h by (simp add: reads_back_def feed_codec_def activity_json_def json_field_def Let_def)
qed

lemma feed_hash_text: "hash_text feed_hash"
  by code_simp

lemma feed_mutations: "deriveMutations feed_abi (feed_event i m) TimeV2 = Inr [MarketCreated m ''0xA'' 0 5]"
  by (simp add: deriveMutations_def derive_event_def feed_abi_def feed_event_def sample_event_def arg_address_def
     arg_number_def arg_bigint_def safe_nonnegative_def MAX_SAFE_INTEGER_def)

lemma feed_address: "ab_address feed_abi a = Some a"
  by (simp add: feed_abi_def)

lemma feed_project:
  "fst (project feed_abi (feed_event i m) p) = None"
  "pj_activities (snd (project feed_abi (feed_event i m) p)) = map_set (eventKey (feed_event i m))
     ((activity (feed_event i m) AK_market_created m (Some ''0xA''))\<lparr>aw_amount := Some 5\<rparr>) (pj_activities p)"
  "pj_participants (snd (project feed_abi (feed_event i m) p)) = map_set (eventKey (feed_event i m))
     [''0xA''] (pj_participants p)"
  by (simp_all add: project_def feed_mutations project_created_def addressKey_def checked_address_def
      recordActivity_def Let_def with_value_def ok_def fail_def activity_def set_add_def feed_address and_then_def)

lemma feed_keys: "eventKey (feed_event i m) = eventKey (feed_event j n) \<longleftrightarrow> i = j"
  by (simp add: eventKey_def feed_event_def sample_event_def)

lemma feed_event_fields:
  "ev_chainId (feed_event i m) = 1" "ev_blockNumber (feed_event i m) = 5" "ev_blockHash (feed_event i m) = ''0xh''"
  "ev_status (feed_event i m) = ConfirmedBlock" "ev_transactionHash (feed_event i m) = feed_hash"
  "ev_logIndex (feed_event i m) = i"
  by (simp_all add: feed_event_def sample_event_def)

lemma feed_batch_fields:
  "bt_range feed_batch = \<lparr>sr_chainId = 1, sr_fromBlock = 1, sr_toBlock = 10, sr_predecessor = None,
     sr_endBlockHash = ''0xh'', sr_status = ConfirmedBlock, sr_mode = Sparse\<rparr>"
  "bt_anchors feed_batch = [sample_block 5, sample_block 10]"
  "bt_events feed_batch = [feed_event 0 ''0xM'', feed_event 1 ''0xN'']"
  "bt_checkpoint feed_batch = \<lparr>ck_chainId = 1, ck_blockNumber = 10, ck_blockHash = ''0xh''\<rparr>"
  by (simp_all add: feed_batch_def sample_batch_def)

lemma feed_put_event:
  assumes "map_option cb_blockHash (canonicalBlock 1 5 s) = Some ''0xh''" "\<not> map_has (ms_events s) (eventKey (feed_event i m))"
  shows "put_event feed_abi (feed_event i m) s =
    (None, s\<lparr>ms_events := map_set (eventKey (feed_event i m)) (feed_event i m) (ms_events s),
              ms_projections := snd (project feed_abi (feed_event i m) (ms_projections s))\<rparr>)"
  using assms by (simp add: put_event_def feed_event_fields store_project_def feed_project split_def Let_def)

lemma commit_projections: "ms_projections (snd (commit_range b s)) = ms_projections s"
  by (simp add: commit_range_def Let_def fail_def ok_def)

lemma feed_projections:
  "ms_projections feed_store =
     snd (project feed_abi (feed_event 1 ''0xN'') (snd (project feed_abi (feed_event 0 ''0xM'') no_projections)))"
proof -
  let ?s = "empty_store\<lparr>ms_blocks := [(blockKey 1 5, sample_block 5), (blockKey 1 10, sample_block 10)]\<rparr>"
  have v: "validateCanonicalBatch feed_batch = Inr ()"
    by (simp add: validateCanonicalBatch_def feed_batch_fields sample_block_def feed_event_fields)
  have k: "blockKey 1 5 \<noteq> blockKey 1 10" by code_simp
  have "for_each put_anchor (bt_anchors feed_batch) empty_store = ok ?s"
    using k by (simp add: feed_batch_fields and_then_def put_anchor_def canonicalBlock_def sample_block_def empty_store_def ok_def)
  moreover have "for_each (put_event feed_abi) (bt_events feed_batch) ?s = ok (snd (put_event feed_abi (feed_event 1 ''0xN'')
      (snd (put_event feed_abi (feed_event 0 ''0xM'') ?s))))"
    using k
    by (simp add: feed_keys feed_batch_fields and_then_def feed_put_event canonicalBlock_def sample_block_def empty_store_def
        map_has_def ok_def)
  moreover have "continues (checkpoint_of 1 empty_store) (bt_range feed_batch) = Inr ()"
    by (simp add: continues_def checkpoint_of_def empty_store_def feed_batch_fields require_def)
  moreover have "\<not> overlaps (bt_range feed_batch) empty_store" "\<not> already_applied feed_batch empty_store"
    by (simp_all add: overlaps_def already_applied_def empty_store_def)
  ultimately have e: "feed_store = snd (commit_range feed_batch (snd (put_event feed_abi (feed_event 1 ''0xN'')
      (snd (put_event feed_abi (feed_event 0 ''0xM'') ?s)))))"
    using v by (simp add: feed_store_def applyBatch_def with_value_def and_then_def ok_def feed_batch_fields(1))
  show ?thesis
    unfolding e using k
    by (simp add: feed_keys commit_projections feed_put_event canonicalBlock_def sample_block_def empty_store_def map_has_def)
qed

lemma feed_activities:
  "map (\<lambda>a. (aw_blockNumber a, aw_transactionHash a, aw_logIndex a))
     (own_activities 1 ''0xA'' (ms_projections feed_store)) = [(5, feed_hash, 0), (5, feed_hash, 1)]"
  by (simp add: own_activities_def participates_def feed_projections feed_project no_projections_def feed_keys
      activity_def feed_event_fields)

theorem activity_pages_complete_witness:
  "follow_pages 3 (\<lambda>cursor. listActivity feed_codec feed_compare feed_abi 1 ''0xA'' 1 cursor (ms_projections feed_store))
     None =
   Inr (js_sort (compareActivitiesDesc feed_compare) (own_activities 1 ''0xA'' (ms_projections feed_store)))"
proof -
  have l: "valid_limit 1" by code_simp
  have r: "store_reachable feed_abi feed_store"
    unfolding feed_store_def by (intro store_reachable.intros)
  have a: "ab_address feed_abi ''0xA'' = Some ''0xA''" by (simp add: feed_abi_def)
  have same: "feed_compare x y = 0 \<Longrightarrow> x = y" for x y by (simp add: feed_compare_def split: if_splits)
  have "list_all cursor_fits (own_activities 1 ''0xA'' (ms_projections feed_store))"
    using feed_activities feed_hash_text by (auto simp: list_all_iff cursor_fits_def MAX_SAFE_INTEGER_def)
  then have "list_all (\<lambda>a. cursor_fits a \<and> reads_back feed_codec (activity_json a))
      (own_activities 1 ''0xA'' (ms_projections feed_store))"
    by (auto simp: list_all_iff feed_codec_reads)
  moreover have "length (own_activities 1 ''0xA'' (ms_projections feed_store)) = 2"
    using arg_cong [OF feed_activities, of length] by simp
  ultimately show ?thesis
    using activity_pages_complete [OF l r a feed_order.comparator_axioms same, where cc = feed_codec and c = 1]
    by (simp add: numeral_eq_Suc)
qed

end
