(* ===== verification/Js_Date.thy ===== *)
theory Js_Date
  imports Js_Prelude
begin

text \<open>
  The part of ECMAScript's Date the services use: the UTC year, month, date and weekday of a time value
  (milliseconds since the epoch) and \<open>Date.UTC\<close>, by the day and year numbers of the language standard
  (ECMA-262, "Time Values and Time Range"). A month is counted from 0, a weekday from Sunday = 0.
\<close>

definition MS_PER_DAY :: int where
  "MS_PER_DAY = 86400000"

definition MAX_TIME :: int where
  "MAX_TIME = 8640000000000000"

definition valid_time :: "int \<Rightarrow> bool" where
  "valid_time t = (\<bar>t\<bar> \<le> MAX_TIME)"

definition day_number :: "int \<Rightarrow> int" where
  "day_number t = t div MS_PER_DAY"

definition leap_year :: "int \<Rightarrow> bool" where
  "leap_year y = (y mod 4 = 0 \<and> y mod 100 \<noteq> 0 \<or> y mod 400 = 0)"

definition day_from_year :: "int \<Rightarrow> int" where
  "day_from_year y = 365 * (y - 1970) + (y - 1969) div 4 - (y - 1901) div 100 + (y - 1601) div 400"

text \<open>The year of a day: the average year length gives it up to one year.\<close>

definition year_of_day :: "int \<Rightarrow> int" where
  "year_of_day d =
     (let e = 1970 + 400 * d div 146097 in
      if day_from_year (e + 1) \<le> d then e + 1 else if d < day_from_year e then e - 1 else e)"

definition month_start :: "bool \<Rightarrow> int \<Rightarrow> int" where
  "month_start leap m =
     [0, 31, 59, 90, 120, 151, 181, 212, 243, 273, 304, 334] ! nat m + (if leap \<and> 2 \<le> m then 1 else 0)"

definition month_of_day :: "int \<Rightarrow> int" where
  "month_of_day d =
     (let y = year_of_day d; n = d - day_from_year y
      in int (length (filter (\<lambda>m. month_start (leap_year y) m \<le> n) [1, 2, 3, 4, 5, 6, 7, 8, 9, 10, 11])))"

definition getUTCFullYear :: "int \<Rightarrow> int" where
  "getUTCFullYear t = year_of_day (day_number t)"

definition getUTCMonth :: "int \<Rightarrow> int" where
  "getUTCMonth t = month_of_day (day_number t)"

definition getUTCDate :: "int \<Rightarrow> int" where
  "getUTCDate t =
     (let d = day_number t; y = year_of_day d
      in d - day_from_year y - month_start (leap_year y) (month_of_day d) + 1)"

definition getUTCDay :: "int \<Rightarrow> int" where
  "getUTCDay t = (day_number t + 4) mod 7"

text \<open>\<open>Date.UTC(year, month, date)\<close>; a year of two digits is one of the 1900s.\<close>

definition date_UTC :: "int \<Rightarrow> int \<Rightarrow> int \<Rightarrow> int" where
  "date_UTC year month date =
     (let y0 = (if 0 \<le> year \<and> year \<le> 99 then 1900 + year else year);
          y = y0 + month div 12; m = month mod 12
      in MS_PER_DAY * (day_from_year y + month_start (leap_year y) m + date - 1))"

text \<open>The first ten characters of the ISO form, YYYY-MM-DD, as the three numbers they show.\<close>

definition iso_date :: "int \<Rightarrow> int \<times> int \<times> int" where
  "iso_date t = (getUTCFullYear t, getUTCMonth t + 1, getUTCDate t)"

section \<open>The calendar is a calendar\<close>

lemma div_before:
  assumes "0 < (k :: int)"
  shows "x div k = (x - 1) div k + (if x mod k = 0 then 1 else 0)"
proof (cases "x mod k = 0")
  case True
  then obtain q where q: "x = q * k" by (metis mult.commute mod_0_imp_dvd dvdE)
  have "(x - 1) div k = q - 1"
    using assms by (intro int_div_pos_eq [where r = "k - 1"]) (simp_all add: q algebra_simps)
  then show ?thesis using assms q by simp
next
  case False
  then have "0 < x mod k" "x mod k < k"
    using pos_mod_bound [OF assms, of x] pos_mod_sign [OF assms, of x] by linarith+
  then have "(x - 1) div k = x div k"
    by (intro int_div_pos_eq [where r = "x mod k - 1"]) (simp_all add: algebra_simps)
  then show ?thesis using False by simp
qed

lemma day_from_year_step:
  "day_from_year (y + 1) = day_from_year y + (if leap_year y then 366 else 365)"
proof -
  have 4: "(y - 1968) mod 4 = y mod 4" using mod_mult_self1 [of "y - 1968" 492 4] by simp
  have 100: "(y - 1900) mod 100 = y mod 100" using mod_mult_self1 [of "y - 1900" 19 100] by simp
  have 400: "(y - 1600) mod 400 = y mod 400" using mod_mult_self1 [of "y - 1600" 4 400] by simp
  define p q r where "p = (y mod 4 = 0)" and "q = (y mod 100 = 0)" and "r = (y mod 400 = 0)"
  have rq: "r \<longrightarrow> q" using mod_mod_cancel [of 100 400 y] by (auto simp: q_def r_def)
  have qp: "q \<longrightarrow> p" using mod_mod_cancel [of 4 100 y] by (auto simp: p_def q_def)
  define a b c where "a = (y - 1969) div 4" and "b = (y - 1901) div 100" and "c = (y - 1601) div 400"
  have "(y - 1968) div 4 = (y - 1969) div 4 + (if p then 1 else 0)"
    "(y - 1900) div 100 = (y - 1901) div 100 + (if q then 1 else 0)"
    "(y - 1600) div 400 = (y - 1601) div 400 + (if r then 1 else 0)"
  proof -
    have "y - 1968 - 1 = y - 1969" "y - 1900 - 1 = y - 1901" "y - 1600 - 1 = y - 1601" by simp_all
    then show "(y - 1968) div 4 = (y - 1969) div 4 + (if p then 1 else 0)"
      "(y - 1900) div 100 = (y - 1901) div 100 + (if q then 1 else 0)"
      "(y - 1600) div 400 = (y - 1601) div 400 + (if r then 1 else 0)"
      using div_before [of 4 "y - 1968"] div_before [of 100 "y - 1900"] div_before [of 400 "y - 1600"]
      by (simp_all only: 4 100 400 p_def q_def r_def zero_less_numeral simp_thms)
  qed
  note parts = this [folded a_def b_def c_def]
  have "leap_year y = (p \<and> \<not> q \<or> r)" by (simp add: leap_year_def p_def q_def r_def)
  moreover have "day_from_year (y + 1) =
      365 * (y - 1970) + 365 + (y - 1968) div 4 - (y - 1900) div 100 + (y - 1600) div 400"
  proof -
    have "y + 1 - 1969 = y - 1968" "y + 1 - 1901 = y - 1900" "y + 1 - 1601 = y - 1600"
      "365 * (y + 1 - 1970) = 365 * (y - 1970) + 365" by simp_all
    then show ?thesis by (simp only: day_from_year_def)
  qed
  moreover have "day_from_year y = 365 * (y - 1970) + a - b + c"
    by (simp only: day_from_year_def a_def b_def c_def)
  ultimately show ?thesis
    using rq qp unfolding parts by (cases p; cases q; cases r) simp_all
qed

lemma div_near:
  assumes "0 < (k :: int)"
  shows "k * (x div k) \<le> x" "x < k * (x div k) + k"
  using pos_mod_bound [OF assms, of x] pos_mod_sign [OF assms, of x] mult_div_mod_eq [of k x] by linarith+

lemma day_from_year_bounds:
  "400 * day_from_year y \<le> 146097 * (y - 1970) + 589"
  "146097 * (y - 1970) - 506 \<le> 400 * day_from_year y"
proof -
  note div_near [of 4 "y - 1969"] div_near [of 100 "y - 1901"] div_near [of 400 "y - 1601"]
  then show "400 * day_from_year y \<le> 146097 * (y - 1970) + 589"
    "146097 * (y - 1970) - 506 \<le> 400 * day_from_year y"
    by (simp_all add: day_from_year_def)
qed

lemma year_of_day_bounds:
  "day_from_year (year_of_day d) \<le> d \<and> d < day_from_year (year_of_day d + 1)"
proof -
  define e where "e = 1970 + 400 * d div 146097"
  have q: "146097 * (e - 1970) \<le> 400 * d" "400 * d < 146097 * (e - 1970) + 146097"
    using div_near [of 146097 "400 * d"] by (simp_all add: e_def)
  have b: "400 * day_from_year e \<le> 146097 * (e - 1970) + 589"
    "146097 * (e + 1 - 1970) - 506 \<le> 400 * day_from_year (e + 1)"
    by (rule day_from_year_bounds)+
  have "day_from_year e \<le> d + 1" using b(1) q(1) by linarith
  moreover have "d \<le> day_from_year (e + 1) + 1" using b(2) q(2) by (simp add: algebra_simps)
  moreover have "day_from_year (e + 1 + 1) \<ge> day_from_year (e + 1) + 365"
    using day_from_year_step [of "e + 1"] by simp
  moreover have "day_from_year e \<ge> day_from_year (e - 1) + 365"
    using day_from_year_step [of "e - 1"] by (simp split: if_splits)
  ultimately show ?thesis unfolding year_of_day_def Let_def e_def [symmetric] by auto
qed

lemma month_of_day_range: "0 \<le> month_of_day d \<and> month_of_day d < 12"
  using length_filter_le [of _ "[1, 2, 3, 4, 5, 6, 7, 8, 9, 10, 11 :: int]"]
  by (simp add: month_of_day_def Let_def le_imp_less_Suc nat_less_iff [symmetric])

lemma utc_midnight:
  assumes "\<not> (0 \<le> getUTCFullYear t \<and> getUTCFullYear t \<le> 99)"
  shows "date_UTC (getUTCFullYear t) (getUTCMonth t) (getUTCDate t) = MS_PER_DAY * day_number t"
proof -
  have "month_of_day (day_number t) div 12 = 0" "month_of_day (day_number t) mod 12 = month_of_day (day_number t)"
    using month_of_day_range [of "day_number t"] by simp_all
  then show ?thesis
    unfolding date_UTC_def if_not_P [OF assms]
    by (simp add: getUTCFullYear_def getUTCMonth_def getUTCDate_def Let_def)
qed

lemma iso_date_day: "iso_date t = iso_date u \<longleftrightarrow> day_number t = day_number u"
  by (auto simp: iso_date_def getUTCFullYear_def getUTCMonth_def getUTCDate_def Let_def)

lemma day_from_year_mono: "y \<le> z \<Longrightarrow> day_from_year y \<le> day_from_year z"
proof (induction rule: int_ge_induct)
  case (step z)
  then show ?case using day_from_year_step [of z] by (simp split: if_splits)
qed simp

lemma year_since_epoch:
  assumes "0 \<le> t"
  shows "1970 \<le> getUTCFullYear t"
proof (rule ccontr)
  assume "\<not> 1970 \<le> getUTCFullYear t"
  then have "day_from_year (year_of_day (day_number t) + 1) \<le> day_from_year 1970"
    by (intro day_from_year_mono) (simp add: getUTCFullYear_def)
  moreover have "0 \<le> day_number t" using assms by (simp add: day_number_def MS_PER_DAY_def)
  ultimately show False using year_of_day_bounds [of "day_number t"] by (simp add: day_from_year_def)
qed

end
