(* ===== verification/Budget.thy ===== *)
theory Budget
  imports Js_Date Contracts
begin

text \<open>
  offchain/app-service/src/budget.ts: the weekly window of sponsorship, what an operation is charged, and
  the totals that reports show and admission checks. The sponsor's limits are from config.ts.

  An operation's datetime strings are milliseconds here (see Contracts); the first ten characters of such
  a string are its \<open>iso_date\<close>.
\<close>

section \<open>Limits\<close>

record lane_limit =
  ll_projectWei :: nat
  ll_accountWei :: nat
  ll_subjectWei :: nat
  ll_projectOperations :: nat
  ll_accountOperations :: nat
  ll_subjectOperations :: nat

record sponsor_config =
  sc_maxCostPerOperation :: nat
  sc_exposure :: lane_limit
  sc_exit :: lane_limit
  sc_methodDailyOperations :: nat
  sc_weeklyProjectWei :: nat
  sc_weeklyExitReserveWei :: nat

definition lane_ok :: "lane_limit \<Rightarrow> bool" where
  "lane_ok l = (0 < ll_projectWei l \<and> 0 < ll_accountWei l \<and> 0 < ll_subjectWei l \<and>
     0 < ll_projectOperations l \<and> 0 < ll_accountOperations l \<and> 0 < ll_subjectOperations l)"

text \<open>The refinements of \<open>weeklyBudgetSchema\<close> and \<open>sponsorConfigSchema\<close> on the fields above.\<close>

definition sponsor_config_ok :: "sponsor_config \<Rightarrow> bool" where
  "sponsor_config_ok c =
     (lane_ok (sc_exposure c) \<and> lane_ok (sc_exit c) \<and>
      1 \<le> sc_methodDailyOperations c \<and> sc_methodDailyOperations c \<le> 1000 \<and>
      0 < sc_maxCostPerOperation c \<and> 0 < sc_weeklyExitReserveWei c \<and>
      sc_weeklyExitReserveWei c < sc_weeklyProjectWei c \<and>
      sc_maxCostPerOperation c \<le> sc_weeklyExitReserveWei c \<and>
      int (sc_maxCostPerOperation c) \<le> int (sc_weeklyProjectWei c) - int (sc_weeklyExitReserveWei c))"

fun lane_limits :: "sponsor_config \<Rightarrow> budget_lane \<Rightarrow> lane_limit" where
  "lane_limits c Exposure = sc_exposure c"
| "lane_limits c Exit = sc_exit c"

definition weeklyLaneLimit :: "sponsor_config \<Rightarrow> budget_lane \<Rightarrow> int" where
  "weeklyLaneLimit limits lane =
     (if lane = Exit then int (sc_weeklyExitReserveWei limits)
      else int (sc_weeklyProjectWei limits) - int (sc_weeklyExitReserveWei limits))"

section \<open>Windows\<close>

definition FAUCET_COOLDOWN_MS :: int where
  "FAUCET_COOLDOWN_MS = 3600000"

definition SHANGHAI_OFFSET :: int where
  "SHANGHAI_OFFSET = 28800000"

text \<open>
  \<open>weeklyBudgetWindow\<close>: the start and the end. Instants within nine days of the ends of Date's range,
  where the sums are invalid dates, are not distinguished.
\<close>

definition weeklyBudgetWindow :: "int \<Rightarrow> (int \<times> int) outcome" where
  "weeklyBudgetWindow tm =
     (if \<not> valid_time tm then Inl (JsError ''invalid budget time'')
      else
        let local = tm + SHANGHAI_OFFSET;
            localMidnight = date_UTC (getUTCFullYear local) (getUTCMonth local) (getUTCDate local);
            daysSinceMonday = (getUTCDay local + 6) mod 7;
            start = localMidnight - daysSinceMonday * MS_PER_DAY - SHANGHAI_OFFSET
        in Inr (start, start + 7 * MS_PER_DAY))"

definition countsTowardWeek :: "operation \<Rightarrow> int \<times> int \<Rightarrow> bool" where
  "countsTowardWeek o' week =
     (let created = op_createdAt o' in
      fst week \<le> created \<and> created < snd week \<or>
      created < fst week \<and>
        (isRecoverable (op_state o') \<or> op_state o' = Preparing \<or> op_state o' = AwaitingSignature \<or>
         fst week \<le> (case op_gasSettledAt o' of Some t \<Rightarrow> t | None \<Rightarrow> op_updatedAt o')))"

section \<open>Charges\<close>

definition nonceKey :: "operation \<Rightarrow> string" where
  "nonceKey o' = op_deploymentId o' @ '':'' @ toLowerCase (op_account o') @ '':'' @ dec_nat (op_nonce o')"

definition hasFinalGas :: "operation \<Rightarrow> bool" where
  "hasFinalGas o' =
     ((op_state o' = Confirmed \<or> op_state o' = Reverted) \<and> op_finality o' = Finalized \<and>
      op_actualGasCost o' \<noteq> None \<and> op_userOperationHash o' \<noteq> None \<and> op_transactionHash o' \<noteq> None \<and>
      op_blockHash o' \<noteq> None \<and> op_blockNumber o' \<noteq> None)"

text \<open>A cancellation from which no sponsorship escaped.\<close>

definition released :: "operation \<Rightarrow> bool" where
  "released o' = (op_sponsorshipAttempted o' = Some False \<and> op_gasReleasedAt o' \<noteq> None)"

definition operation_charge :: "string list \<Rightarrow> operation \<Rightarrow> int" where
  "operation_charge finalNonces o' =
     (if op_gasPayment o' = Some SelfFunded then 0
      else if hasFinalGas o' then int (the (op_actualGasCost o'))
      else if op_state o' = Cancelled \<and> op_userOperationHash o' = None \<and> op_transactionHash o' = None \<and>
              op_providerOperationId o' = None \<and> (released o' \<or> nonceKey o' \<in> set finalNonces)
      then 0
      else int (op_maxGasCost o'))"

definition final_nonces :: "operation list \<Rightarrow> string list" where
  "final_nonces ops = map nonceKey (filter hasFinalGas ops)"

text \<open>\<open>new Map(entries)\<close>: a repeated id keeps its last charge.\<close>

definition budgetCharges :: "operation list \<Rightarrow> (string, int) jsmap" where
  "budgetCharges ops =
     fold (\<lambda>o' m. map_set (op_id o') (operation_charge (final_nonces ops) o') m) ops []"

text \<open>
  \<open>charges.get(id)!\<close> summed. Every summed operation is one the charges were made from, so the lookup
  finds an entry (\<open>budgetCharges_get\<close>).
\<close>

definition sum_charges :: "(string, int) jsmap \<Rightarrow> operation list \<Rightarrow> int" where
  "sum_charges charges items = fold (\<lambda>o' n. n + the (map_get charges (op_id o'))) items 0"

record lane_totals =
  lt_lane :: budget_lane
  lt_dailyWei :: int
  lt_dailyOperations :: nat
  lt_weeklyWei :: int

definition sponsored :: "operation \<Rightarrow> bool" where
  "sponsored o' = (op_gasPayment o' \<noteq> Some SelfFunded)"

definition lane_total :: "(string, int) jsmap \<Rightarrow> operation list \<Rightarrow> int \<Rightarrow> int \<times> int \<Rightarrow> budget_lane \<Rightarrow> lane_totals" where
  "lane_total charges ops tm week lane =
     (let rows = filter (\<lambda>o'. op_lane o' = lane) (filter sponsored ops);
          daily = filter (\<lambda>o'. iso_date (op_createdAt o') = iso_date tm) rows
      in \<lparr>lt_lane = lane, lt_dailyWei = sum_charges charges daily, lt_dailyOperations = length daily,
          lt_weeklyWei = sum_charges charges (filter (\<lambda>o'. countsTowardWeek o' week) rows)\<rparr>)"

definition budgetTotals :: "operation list \<Rightarrow> int \<Rightarrow> lane_totals list outcome" where
  "budgetTotals ops tm =
     outcome_map (\<lambda>week. map (lane_total (budgetCharges ops) ops tm week) [Exposure, Exit])
       (weeklyBudgetWindow tm)"

definition quotaHistoryStart :: "int \<Rightarrow> int outcome" where
  "quotaHistoryStart createdAt =
     outcome_map (\<lambda>week.
         min (min (fst week) (MS_PER_DAY * day_number createdAt)) (createdAt - FAUCET_COOLDOWN_MS))
       (weeklyBudgetWindow createdAt)"

section \<open>The window\<close>

lemma weeklyBudgetWindow_eq:
  assumes "0 \<le> tm" "valid_time tm"
  shows "weeklyBudgetWindow tm =
    (let n = day_number (tm + SHANGHAI_OFFSET); start = MS_PER_DAY * (n - (n + 3) mod 7) - SHANGHAI_OFFSET
     in Inr (start, start + 7 * MS_PER_DAY))"
proof -
  let ?l = "tm + SHANGHAI_OFFSET"
  have "0 \<le> ?l" using assms(1) by (simp add: SHANGHAI_OFFSET_def)
  then have "date_UTC (getUTCFullYear ?l) (getUTCMonth ?l) (getUTCDate ?l) = MS_PER_DAY * day_number ?l"
    using year_since_epoch [of ?l] by (intro utc_midnight) simp
  moreover have "(getUTCDay ?l + 6) mod 7 = (day_number ?l + 3) mod 7"
    using mod_add_self2 [of "day_number ?l + 3" 7] by (simp add: getUTCDay_def mod_add_left_eq add.assoc)
  ultimately show ?thesis
    using assms(2) by (simp add: weeklyBudgetWindow_def Let_def algebra_simps)
qed

definition week_index :: "int \<Rightarrow> int" where
  "week_index t = (day_number (t + SHANGHAI_OFFSET) + 3) div 7"

lemma weeklyBudgetWindow_index:
  assumes "0 \<le> t" "valid_time t"
  shows "weeklyBudgetWindow t =
    Inr (MS_PER_DAY * (7 * week_index t - 3) - SHANGHAI_OFFSET, MS_PER_DAY * (7 * week_index t + 4) - SHANGHAI_OFFSET)"
proof -
  let ?n = "day_number (t + SHANGHAI_OFFSET)"
  have n: "?n - (?n + 3) mod 7 = 7 * week_index t - 3" unfolding week_index_def by presburger
  show ?thesis unfolding weeklyBudgetWindow_eq [OF assms] Let_def n by (simp add: algebra_simps)
qed

lemma week_index_inside:
  "MS_PER_DAY * (7 * k - 3) - SHANGHAI_OFFSET \<le> t \<and> t < MS_PER_DAY * (7 * k + 4) - SHANGHAI_OFFSET \<longleftrightarrow>
   week_index t = k"
proof -
  define n where "n = day_number (t + SHANGHAI_OFFSET)"
  have n: "86400000 * n \<le> t + SHANGHAI_OFFSET" "t + SHANGHAI_OFFSET < 86400000 * n + 86400000"
    using div_near [of 86400000 "t + SHANGHAI_OFFSET"] by (simp_all add: n_def day_number_def MS_PER_DAY_def)
  have w: "7 * week_index t \<le> n + 3" "n + 3 < 7 * week_index t + 7"
    using div_near [of 7 "n + 3"] by (simp_all add: week_index_def n_def)
  show ?thesis
  proof
    assume "MS_PER_DAY * (7 * k - 3) - SHANGHAI_OFFSET \<le> t \<and> t < MS_PER_DAY * (7 * k + 4) - SHANGHAI_OFFSET"
    then have "86400000 * (7 * k - 3) < 86400000 * (n + 1)" "86400000 * n < 86400000 * (7 * k + 4)"
      using n by (simp_all add: MS_PER_DAY_def)
    then show "week_index t = k" using w by simp
  next
    assume "week_index t = k"
    then have "86400000 * (7 * k - 3) \<le> 86400000 * n" "86400000 * (n + 1) \<le> 86400000 * (7 * k + 4)"
      using w by simp_all
    then show "MS_PER_DAY * (7 * k - 3) - SHANGHAI_OFFSET \<le> t \<and> t < MS_PER_DAY * (7 * k + 4) - SHANGHAI_OFFSET"
      using n by (simp add: MS_PER_DAY_def)
  qed
qed

text \<open>
  The weekly window of an instant contains it, starts on a Monday at midnight of Shanghai and lasts
  seven days, and it is the window of exactly the instants it contains: windows partition time.
\<close>

theorem weekly_window_partitions:
  assumes "0 \<le> tm" "valid_time tm" "weeklyBudgetWindow tm = Inr (start, finish)"
  shows "start \<le> tm \<and> tm < finish \<and> finish = start + 7 * MS_PER_DAY \<and>
    (start + SHANGHAI_OFFSET) mod MS_PER_DAY = 0 \<and> getUTCDay (start + SHANGHAI_OFFSET) = 1 \<and>
    (if 0 \<le> u \<and> valid_time u then weeklyBudgetWindow u = Inr (start, finish) \<longleftrightarrow> start \<le> u \<and> u < finish else True)"
proof -
  have se: "start = MS_PER_DAY * (7 * week_index tm - 3) - SHANGHAI_OFFSET"
    "finish = MS_PER_DAY * (7 * week_index tm + 4) - SHANGHAI_OFFSET"
    using assms(3) weeklyBudgetWindow_index [OF assms(1,2)] by simp_all
  have "day_number (start + SHANGHAI_OFFSET) = 7 * week_index tm - 3"
    by (simp add: se day_number_def MS_PER_DAY_def)
  then have "getUTCDay (start + SHANGHAI_OFFSET) = 1" unfolding getUTCDay_def by presburger
  moreover have "weeklyBudgetWindow u = Inr (start, finish) \<longleftrightarrow> start \<le> u \<and> u < finish" if "0 \<le> u" "valid_time u"
    unfolding se week_index_inside weeklyBudgetWindow_index [OF that] by (auto simp: MS_PER_DAY_def)
  ultimately show ?thesis
    using week_index_inside [of "week_index tm" tm] by (auto simp: se algebra_simps)
qed

section \<open>Charges of distinct operations\<close>

lemma fold_map_set_get:
  "map_get (fold (\<lambda>o' m. map_set (op_id o') (f o') m) ops m0) k =
     (case filter (\<lambda>o'. op_id o' = k) ops of [] \<Rightarrow> map_get m0 k | xs \<Rightarrow> Some (f (last xs)))"
  by (induction ops arbitrary: m0) (auto simp: update_conv' split: list.splits)

lemma budgetCharges_get:
  assumes "distinct (map op_id ops)" "o' \<in> set ops"
  shows "map_get (budgetCharges ops) (op_id o') = Some (operation_charge (final_nonces ops) o')"
proof -
  have "filter (\<lambda>x. op_id x = op_id o') ops = [o']"
    using assms
  proof (induction ops)
    case (Cons x xs)
    then show ?case by (auto simp: filter_empty_conv) (metis image_eqI)
  qed simp
  then show ?thesis by (simp add: budgetCharges_def fold_map_set_get)
qed

lemma fold_sum: "fold (\<lambda>x n. n + g x) xs (a :: int) = a + sum_list (map g xs)"
  by (induction xs arbitrary: a) simp_all

lemma sum_charges_eq:
  assumes "distinct (map op_id ops)" "set items \<subseteq> set ops"
  shows "sum_charges (budgetCharges ops) items = sum_list (map (operation_charge (final_nonces ops)) items)"
proof -
  have "the (map_get (budgetCharges ops) (op_id x)) = operation_charge (final_nonces ops) x" if "x \<in> set items" for x
    using assms that by (simp add: budgetCharges_get subset_iff)
  then show ?thesis by (simp add: sum_charges_def fold_sum cong: map_cong)
qed

lemma operation_charge_nonneg: "0 \<le> operation_charge ns o'"
  by (simp add: operation_charge_def)

text \<open>Knowing fewer finished nonces only raises a charge.\<close>

lemma operation_charge_antimono:
  "set ns \<subseteq> set ns' \<Longrightarrow> operation_charge ns' o' \<le> operation_charge ns o'"
  by (auto simp: operation_charge_def)

end
