(* ===== verification/App_Store.thy ===== *)
theory App_Store
  imports Budget Sdk_Rules
begin

text \<open>
  The application store: the limits of admission (offchain/app-service/src/store.ts and the session rules
  of app-core/src/trading-session-contracts.ts) and the transactions of \<open>PostgresApplicationStore\<close>
  (postgres-store.ts).

  A table is the list of its rows in the order of insertion, WHERE is \<open>filter\<close>. A transaction that throws
  is rolled back, so it yields an error alone; one that commits yields its result with the new store. The
  constraints of the tables (migrations 001, 003 and 006) are checked where rows are inserted. An
  AppError's message and operation id are not kept. Parsing a row that was written from a typed record
  gives that record back, so it is not repeated here.
\<close>

section \<open>Trading sessions\<close>

text \<open>\<open>quickTradingConfigSchema\<close>, less its version and the code hashes.\<close>

record quick_trading =
  qt_enabled :: bool
  qt_policy :: string
  qt_signer :: string
  qt_paymaster :: string
  qt_defaultPerOperation :: nat
  qt_maxPerOperation :: nat
  qt_defaultTotal :: nat
  qt_maxTotal :: nat
  qt_maxDurationSeconds :: nat

definition quick_trading_ok :: "quick_trading \<Rightarrow> bool" where
  "quick_trading_ok q =
     (60 \<le> qt_maxDurationSeconds q \<and> qt_maxDurationSeconds q \<le> 86400 \<and> qt_maxTotal q < 2 ^ 128 \<and>
      qt_defaultPerOperation q \<le> qt_maxPerOperation q \<and> qt_defaultTotal q \<le> qt_maxTotal q \<and>
      qt_defaultPerOperation q \<le> qt_defaultTotal q \<and> qt_maxPerOperation q \<le> qt_maxTotal q)"

datatype session_state = SessionPrepared | SessionActive | SessionDisabled

text \<open>\<open>tradingSessionSchema\<close>.\<close>

record trading_session =
  ts_id :: string
  ts_accountId :: string
  ts_account :: string
  ts_controller :: string
  ts_environment :: string
  ts_deploymentId :: string
  ts_publicKey :: string
  ts_permissionId :: string
  ts_config :: quick_trading
  ts_perOperation :: nat
  ts_total :: nat
  ts_validAfter :: nat
  ts_validUntil :: nat
  ts_createdAt :: int
  ts_state :: session_state
  ts_authorizationHash :: string

definition supportsQuickTrading :: "business_intent \<Rightarrow> bool" where
  "supportsQuickTrading i =
     (intent_kind i \<in> {OK_create_order, OK_fill_order, OK_cancel_order, OK_release_order, OK_buy, OK_fill_listing,
        OK_create_listing, OK_cancel_listing, OK_return_listing, OK_claim_winner, OK_claim_early_bird, OK_refund,
        OK_claim_timeout_bonus, OK_settle_bond, OK_settle_bond_and_claim, OK_claim_bond, OK_claim_fees})"

fun sessionSpend :: "business_intent \<Rightarrow> int" where
  "sessionSpend (CreateOrder _ side _ units price _ _) =
     (if side = Bid then bidReserve (int units) (int price) else 0)"
| "sessionSpend (FillOrder _ side _ _ limit _) = (if side = Ask then int limit else 0)"
| "sessionSpend (Buy _ _ _ _ pay _) = int pay"
| "sessionSpend (FillListing _ _ _ pay _) = int pay"
| "sessionSpend _ = 0"

text \<open>A session pays for every operation but the ones cancelled before anything was submitted.\<close>

definition charged_to :: "string \<Rightarrow> operation \<Rightarrow> bool" where
  "charged_to sessionId o' =
     (op_sessionId o' = Some sessionId \<and>
      \<not> (op_state o' = Cancelled \<and> op_userOperationHash o' = None \<and> op_transactionHash o' = None))"

definition session_spent :: "string \<Rightarrow> operation list \<Rightarrow> int" where
  "session_spent sessionId ops =
     fold (\<lambda>o' n. n + sessionSpend (op_intent o')) (filter (charged_to sessionId) ops) 0"

definition assertTradingSessionQuota :: "operation list \<Rightarrow> trading_session option \<Rightarrow> operation \<Rightarrow> unit outcome" where
  "assertTradingSessionQuota existing session o' =
     (case session of
        None \<Rightarrow> Inl (AppError ''trading_session_unavailable'' 409)
      | Some s \<Rightarrow>
          if ts_state s \<noteq> SessionActive \<or> ts_accountId s \<noteq> op_accountId o' \<or>
             int (ts_validUntil s) * 1000 \<le> op_createdAt o'
          then Inl (AppError ''trading_session_unavailable'' 409)
          else
            let amount = sessionSpend (op_intent o') in
            require (amount \<le> int (ts_perOperation s) \<and>
                     session_spent (ts_id s) existing + amount \<le> int (ts_total s))
              (AppError ''trading_session_budget_exceeded'' 409))"

section \<open>Quotas\<close>

record stored_operation =
  so_operation :: operation
  so_subject :: string
  so_idempotencyKey :: string
  so_requestHash :: string

definition unfinished :: "operation_state \<Rightarrow> bool" where
  "unfinished s = (isRecoverable s \<or> s = Preparing \<or> s = AwaitingSignature)"

definition same_nonce_pending :: "operation \<Rightarrow> operation \<Rightarrow> bool" where
  "same_nonce_pending o' v =
     (sameAddress (op_account v) (op_account o') \<and> op_nonce v = op_nonce o' \<and> unfinished (op_state v))"

definition recent_faucet :: "operation \<Rightarrow> operation \<Rightarrow> bool" where
  "recent_faucet o' v =
     (sameAddress (op_account v) (op_account o') \<and> op_kind v = OK_faucet \<and> op_state v \<noteq> Cancelled \<and>
      op_createdAt o' - FAUCET_COOLDOWN_MS < op_createdAt v)"

definition within_cap :: "(string, int) jsmap \<Rightarrow> int \<Rightarrow> stored_operation list \<Rightarrow> nat \<Rightarrow> nat \<Rightarrow> bool" where
  "within_cap charges reserved records cost most =
     (length records < most \<and> sum_charges charges (map so_operation records) + reserved \<le> int cost)"

fun deposit_source :: "business_intent \<Rightarrow> string option" where
  "deposit_source (DepositUsdc _ a _) = Some (toLowerCase (ra_from a))"
| "deposit_source _ = None"

text \<open>The part of \<open>assertQuota\<close> for sponsored operations, from the weekly reservation on.\<close>

definition assert_sponsored_quota ::
  "stored_operation list \<Rightarrow> stored_operation \<Rightarrow> sponsor_config \<Rightarrow> int \<times> int \<Rightarrow> unit outcome" where
  "assert_sponsored_quota existing new limits week =
     (let o' = so_operation new;
          rows = filter (\<lambda>v. sponsored (so_operation v)) existing;
          charges = budgetCharges (map so_operation existing);
          same_day = filter (\<lambda>v. iso_date (op_createdAt (so_operation v)) = iso_date (op_createdAt o') \<and>
                                 op_lane (so_operation v) = op_lane o') rows;
          cap = lane_limits limits (op_lane o'); reserved = int (op_maxGasCost o');
          weekly = sum_charges charges (map so_operation
            (filter (\<lambda>v. op_lane (so_operation v) = op_lane o' \<and> countsTowardWeek (so_operation v) week) rows));
          own = filter (\<lambda>v. sameAddress (op_account (so_operation v)) (op_account o')) same_day;
          mine = filter (\<lambda>v. so_subject v = so_subject new) same_day;
          kind = (\<lambda>v. op_kind (so_operation v) = op_kind o')
      in if weeklyLaneLimit limits (op_lane o') < weekly + reserved
         then Inl (AppError ''sponsorship_weekly_budget_exhausted'' 429)
         else if \<not> within_cap charges reserved same_day (ll_projectWei cap) (ll_projectOperations cap) \<or>
                 \<not> within_cap charges reserved own (ll_accountWei cap) (ll_accountOperations cap) \<or>
                 \<not> within_cap charges reserved mine (ll_subjectWei cap) (ll_subjectOperations cap)
         then Inl (AppError ''sponsorship_budget_exhausted'' 429)
         else if sc_methodDailyOperations limits \<le> length (filter kind own) \<or>
                 sc_methodDailyOperations limits \<le> length (filter kind mine)
         then Inl (AppError ''method_quota_exhausted'' 429)
         else
           case deposit_source (op_intent o') of
             None \<Rightarrow> Inr ()
           | Some src \<Rightarrow>
               require (length (filter (\<lambda>v. deposit_source (op_intent (so_operation v)) = Some src) same_day)
                          < sc_methodDailyOperations limits)
                 (AppError ''deposit_source_quota_exhausted'' 429))"

definition assertQuota :: "stored_operation list \<Rightarrow> stored_operation \<Rightarrow> sponsor_config \<Rightarrow> unit outcome" where
  "assertQuota existing new limits =
     (let o' = so_operation new in
      if list_ex (\<lambda>v. same_nonce_pending o' (so_operation v)) existing
      then Inl (AppError ''operation_in_progress'' 409)
      else if op_kind o' = OK_faucet \<and> list_ex (\<lambda>v. recent_faucet o' (so_operation v)) existing
      then Inl (AppError ''faucet_cooldown'' 429)
      else if op_gasPayment o' = Some SelfFunded then Inr ()
      else outcome_bind (weeklyBudgetWindow (op_createdAt o')) (assert_sponsored_quota existing new limits))"

section \<open>Patches\<close>

text \<open>An \<open>OperationPatch\<close>: None is an absent key, \<open>Some None\<close> a null.\<close>

record operation_patch =
  pt_state :: "operation_state option"
  pt_providerOperationId :: "string option option"
  pt_userOperationHash :: "string option option"
  pt_transactionHash :: "string option option"
  pt_blockNumber :: "nat option option"
  pt_blockHash :: "string option option"
  pt_actualGasCost :: "nat option option"
  pt_updatedAt :: "int option"
  pt_reason :: "string option option"
  pt_finality :: "finality option"
  pt_sponsorshipAttempted :: "bool option"
  pt_gasSettledAt :: "int option"

definition patched :: "'a option \<Rightarrow> 'a \<Rightarrow> 'a" where
  "patched new old = (case new of None \<Rightarrow> old | Some v \<Rightarrow> v)"

definition merge_patch :: "operation \<Rightarrow> operation_patch \<Rightarrow> operation" where
  "merge_patch old p =
     old\<lparr>op_state := patched (pt_state p) (op_state old),
         op_providerOperationId := patched (pt_providerOperationId p) (op_providerOperationId old),
         op_userOperationHash := patched (pt_userOperationHash p) (op_userOperationHash old),
         op_transactionHash := patched (pt_transactionHash p) (op_transactionHash old),
         op_blockNumber := patched (pt_blockNumber p) (op_blockNumber old),
         op_blockHash := patched (pt_blockHash p) (op_blockHash old),
         op_actualGasCost := patched (pt_actualGasCost p) (op_actualGasCost old),
         op_updatedAt := patched (pt_updatedAt p) (op_updatedAt old),
         op_reason := patched (pt_reason p) (op_reason old),
         op_finality := patched (pt_finality p) (op_finality old),
         op_sponsorshipAttempted :=
           (case pt_sponsorshipAttempted p of None \<Rightarrow> op_sponsorshipAttempted old | Some b \<Rightarrow> Some b),
         op_gasSettledAt := (case pt_gasSettledAt p of None \<Rightarrow> op_gasSettledAt old | Some t \<Rightarrow> Some t)\<rparr>"

definition applyOperationPatch :: "operation \<Rightarrow> operation_patch \<Rightarrow> operation" where
  "applyOperationPatch old p =
     (let o' = merge_patch old p in
      if op_state o' = Cancelled \<and> op_sponsorshipAttempted old = Some False \<and> op_userOperationHash o' = None \<and>
         op_providerOperationId o' = None \<and> op_transactionHash o' = None
      then o'\<lparr>op_gasReleasedAt := Some (case op_gasReleasedAt o' of Some t \<Rightarrow> t | None \<Rightarrow> op_updatedAt o')\<rparr>
      else o')"

section \<open>Deposits\<close>

datatype deposit_state = OfOperation operation_state | AwaitingAuthorization | Expired

record deposit =
  dp_id :: string
  dp_environment :: string
  dp_deploymentId :: string
  dp_accountId :: string
  dp_account :: string
  dp_domainName :: string
  dp_token :: string
  dp_authorization :: receive_authorization
  dp_state :: deposit_state
  dp_operationId :: "string option"
  dp_userOperationHash :: "string option"
  dp_transactionHash :: "string option"
  dp_blockNumber :: "nat option"
  dp_blockHash :: "string option"
  dp_actualGasCost :: "nat option"
  dp_finality :: finality
  dp_createdAt :: int
  dp_updatedAt :: int
  dp_expiresAt :: int
  dp_reason :: "string option"

record stored_deposit =
  sd_deposit :: deposit
  sd_subject :: string
  sd_idempotencyKey :: string
  sd_requestHash :: string

definition depositView :: "deposit \<Rightarrow> operation option \<Rightarrow> int \<Rightarrow> deposit" where
  "depositView d operation now =
     (case operation of
        Some o' \<Rightarrow>
          d\<lparr>dp_state := OfOperation (op_state o'), dp_operationId := Some (op_id o'),
            dp_userOperationHash := op_userOperationHash o', dp_transactionHash := op_transactionHash o',
            dp_blockNumber := op_blockNumber o', dp_blockHash := op_blockHash o',
            dp_actualGasCost := op_actualGasCost o', dp_finality := op_finality o', dp_reason := op_reason o',
            dp_updatedAt := op_updatedAt o'\<rparr>
      | None \<Rightarrow>
          if dp_state d = AwaitingAuthorization \<and> dp_expiresAt d \<le> now
          then d\<lparr>dp_state := Expired, dp_reason := Some ''deposit_authorization_expired''\<rparr>
          else d)"

definition depositActive :: "deposit \<Rightarrow> bool" where
  "depositActive d =
     (dp_state d = AwaitingAuthorization \<or>
      (case dp_state d of OfOperation s \<Rightarrow> unfinished s | _ \<Rightarrow> False) \<or>
      dp_state d = OfOperation Reverted \<and> dp_finality d \<noteq> Finalized)"

definition assertDepositRegistration :: "stored_deposit option \<Rightarrow> stored_operation \<Rightarrow> unit outcome" where
  "assertDepositRegistration d v =
     (let o' = so_operation v in
      case op_intent o' of
        DepositUsdc _ authorization _ \<Rightarrow>
          (case d of
             None \<Rightarrow> Inl (AppError ''deposit_not_found'' 404)
           | Some e \<Rightarrow>
               let x = sd_deposit e in
               if sd_subject e \<noteq> so_subject v \<or> dp_accountId x \<noteq> op_accountId o' \<or>
                  dp_environment x \<noteq> op_environment o' \<or> dp_deploymentId x \<noteq> op_deploymentId o'
               then Inl (AppError ''deposit_not_found'' 404)
               else if dp_operationId x \<noteq> None then Inl (AppError ''deposit_already_registered'' 409)
               else if dp_state x \<noteq> AwaitingAuthorization \<or> dp_expiresAt x \<le> op_createdAt o'
               then Inl (AppError ''deposit_authorization_expired'' 409)
               else require (dp_authorization x = authorization)
                      (AppError ''deposit_authorization_mismatch'' 403))
      | _ \<Rightarrow> Inr ())"

section \<open>The tables\<close>

record control_challenge =
  cc_id :: string
  cc_subject :: string
  cc_controller :: string
  cc_environment :: string
  cc_deploymentId :: string
  cc_message :: string
  cc_expiresAt :: int
  cc_consumed :: bool

text \<open>
  The rows of one application database. \<open>db_carryover\<close> holds the operations of earlier deployments that
  still count for quotas (the second half of the view app_quota_operations); \<open>db_changes\<close> are the rows of
  app_operation_changes by operation id, previous and current state.
\<close>

record app_db =
  db_operations :: "stored_operation list"
  db_carryover :: "stored_operation list"
  db_deposits :: "stored_deposit list"
  db_sessions :: "(string \<times> trading_session) list"
  db_challenges :: "control_challenge list"
  db_accounts :: "app_account list"
  db_subjects :: "(string \<times> string) list"
  db_tracked :: "string list"
  db_changes :: "(string \<times> operation_state \<times> operation_state) list"

type_synonym 'a transaction = "app_db \<Rightarrow> ('a \<times> app_db) outcome"

definition constraint_violated :: js_error where
  "constraint_violated = JsError ''constraint violated''"

definition op_of :: "app_db \<Rightarrow> string \<Rightarrow> stored_operation option" where
  "op_of db k = List.find (\<lambda>v. op_id (so_operation v) = k) (db_operations db)"

definition byKey :: "string \<Rightarrow> string \<Rightarrow> app_db \<Rightarrow> stored_operation option" where
  "byKey subject key db =
     List.find (\<lambda>v. so_subject v = subject \<and> so_idempotencyKey v = key) (db_operations db)"

section \<open>Admission\<close>

definition quota_rows :: "int \<Rightarrow> app_db \<Rightarrow> stored_operation list" where
  "quota_rows start db =
     filter (\<lambda>v. start \<le> op_createdAt (so_operation v) \<or> start \<le> op_updatedAt (so_operation v) \<or>
                 unfinished (op_state (so_operation v)))
       (db_operations db @ db_carryover db)"

definition check_deposit :: "stored_operation \<Rightarrow> app_db \<Rightarrow> unit outcome" where
  "check_deposit v db =
     (case op_intent (so_operation v) of
        DepositUsdc depositId _ _ \<Rightarrow>
          assertDepositRegistration
            (map_option (\<lambda>e. e\<lparr>sd_deposit := depositView (sd_deposit e) None (op_createdAt (so_operation v))\<rparr>)
              (List.find (\<lambda>e. dp_id (sd_deposit e) = depositId) (db_deposits db))) v
      | _ \<Rightarrow> Inr ())"

definition session_of :: "string \<Rightarrow> string \<Rightarrow> app_db \<Rightarrow> trading_session option" where
  "session_of subject k db =
     map_option snd (List.find (\<lambda>p. ts_id (snd p) = k \<and> fst p = subject) (db_sessions db))"

definition sessionOperations :: "string \<Rightarrow> app_db \<Rightarrow> operation list" where
  "sessionOperations k db = filter (\<lambda>x. op_sessionId x = Some k) (map so_operation (db_operations db))"

definition check_session :: "stored_operation \<Rightarrow> app_db \<Rightarrow> unit outcome" where
  "check_session v db =
     (let o' = so_operation v in
      if op_signingMode o' = Some SessionSigned
      then case op_sessionId o' of
             None \<Rightarrow> Inl (JsError ''UNDEFINED_VALUE'')
           | Some k \<Rightarrow> assertTradingSessionQuota (sessionOperations k db) (session_of (so_subject v) k db) o'
      else Inr ())"

definition insert_operation :: "stored_operation \<Rightarrow> app_db \<Rightarrow> app_db outcome" where
  "insert_operation v db =
     (if op_of db (op_id (so_operation v)) \<noteq> None \<or> byKey (so_subject v) (so_idempotencyKey v) db \<noteq> None \<or>
         \<not> list_ex (\<lambda>a. aa_id a = op_accountId (so_operation v)) (db_accounts db) \<or>
         op_maxGasCost (so_operation v) = 0
      then Inl constraint_violated
      else Inr (db\<lparr>db_operations := db_operations db @ [v]\<rparr>))"

definition update_deposit :: "string \<Rightarrow> (deposit \<Rightarrow> deposit) \<Rightarrow> app_db \<Rightarrow> app_db" where
  "update_deposit k f db =
     db\<lparr>db_deposits := map (\<lambda>e. if dp_id (sd_deposit e) = k then e\<lparr>sd_deposit := f (sd_deposit e)\<rparr> else e)
       (db_deposits db)\<rparr>"

definition register_deposit :: "operation \<Rightarrow> app_db \<Rightarrow> app_db" where
  "register_deposit o' db =
     (case op_intent o' of
        DepositUsdc depositId _ _ \<Rightarrow>
          update_deposit depositId (\<lambda>d. d\<lparr>dp_operationId := Some (op_id o'),
            dp_state := OfOperation AwaitingSignature, dp_updatedAt := op_updatedAt o'\<rparr>) db
      | _ \<Rightarrow> db)"

definition admit :: "stored_operation \<Rightarrow> sponsor_config \<Rightarrow> stored_operation transaction" where
  "admit v limits db =
     (case byKey (so_subject v) (so_idempotencyKey v) db of
        Some prior \<Rightarrow>
          if so_requestHash prior \<noteq> so_requestHash v then Inl (AppError ''idempotency_conflict'' 409)
          else Inr (prior, db)
      | None \<Rightarrow>
          outcome_bind (check_deposit v db) (\<lambda>_.
          outcome_bind (quotaHistoryStart (op_createdAt (so_operation v))) (\<lambda>start.
          outcome_bind (assertQuota (quota_rows start db) v limits) (\<lambda>_.
          outcome_bind (check_session v db) (\<lambda>_.
          outcome_map (\<lambda>db1. (v, register_deposit (so_operation v) db1)) (insert_operation v db))))))"

section \<open>Transitions\<close>

text \<open>Whether the patch changes a field other than \<open>updatedAt\<close>.\<close>

definition patch_changes :: "operation_patch \<Rightarrow> operation \<Rightarrow> bool" where
  "patch_changes p old =
     (let differs = (\<lambda>new cur. case new of None \<Rightarrow> False | Some v \<Rightarrow> v \<noteq> cur) in
      (case pt_state p of None \<Rightarrow> False | Some v \<Rightarrow> v \<noteq> op_state old) \<or>
      differs (pt_providerOperationId p) (op_providerOperationId old) \<or>
      differs (pt_userOperationHash p) (op_userOperationHash old) \<or>
      differs (pt_transactionHash p) (op_transactionHash old) \<or>
      (case pt_blockNumber p of None \<Rightarrow> False | Some v \<Rightarrow> v \<noteq> op_blockNumber old) \<or>
      differs (pt_blockHash p) (op_blockHash old) \<or>
      (case pt_actualGasCost p of None \<Rightarrow> False | Some v \<Rightarrow> v \<noteq> op_actualGasCost old) \<or>
      differs (pt_reason p) (op_reason old) \<or>
      (case pt_finality p of None \<Rightarrow> False | Some v \<Rightarrow> v \<noteq> op_finality old) \<or>
      (case pt_sponsorshipAttempted p of None \<Rightarrow> False | Some v \<Rightarrow> op_sponsorshipAttempted old \<noteq> Some v) \<or>
      (case pt_gasSettledAt p of None \<Rightarrow> False | Some v \<Rightarrow> op_gasSettledAt old \<noteq> Some v))"

definition transition ::
  "string \<Rightarrow> operation_state list \<Rightarrow> operation_patch \<Rightarrow> (bool \<times> stored_operation) transaction" where
  "transition k origin p db =
     (case op_of db k of
        None \<Rightarrow> Inl (AppError ''operation_not_found'' 404)
      | Some old \<Rightarrow>
          if op_state (so_operation old) \<notin> set origin then Inr ((False, old), db)
          else
            let o' = applyOperationPatch (so_operation old) p; new = old\<lparr>so_operation := o'\<rparr>;
                db1 = db\<lparr>db_operations :=
                  map (\<lambda>v. if op_id (so_operation v) = k then v\<lparr>so_operation := o'\<rparr> else v) (db_operations db)\<rparr>;
                log = (if patch_changes p (so_operation old)
                       then [(k, op_state (so_operation old), op_state o')] else [])
            in Inr ((True, new), db1\<lparr>db_changes := db_changes db1 @ log\<rparr>))"

section \<open>Deposits, sessions and accounts\<close>

definition deposit_row :: "app_db \<Rightarrow> int \<Rightarrow> stored_deposit \<Rightarrow> stored_deposit" where
  "deposit_row db now e =
     e\<lparr>sd_deposit := depositView (sd_deposit e)
        (case dp_operationId (sd_deposit e) of None \<Rightarrow> None | Some k \<Rightarrow> map_option so_operation (op_of db k)) now\<rparr>"

definition deposit_by_id :: "string \<Rightarrow> int \<Rightarrow> app_db \<Rightarrow> stored_deposit option" where
  "deposit_by_id k now db =
     map_option (deposit_row db now) (List.find (\<lambda>e. dp_id (sd_deposit e) = k) (db_deposits db))"

definition depositByKey :: "string \<Rightarrow> string \<Rightarrow> int \<Rightarrow> app_db \<Rightarrow> stored_deposit option" where
  "depositByKey subject key now db =
     map_option (deposit_row db now)
       (List.find (\<lambda>e. sd_subject e = subject \<and> sd_idempotencyKey e = key) (db_deposits db))"

text \<open>The pending deposits of \<open>createDeposit\<close>, by the stored row and the row of its operation.\<close>

definition deposit_pending :: "app_db \<Rightarrow> int \<Rightarrow> stored_deposit \<Rightarrow> bool" where
  "deposit_pending db now e =
     (let d = sd_deposit e in
      dp_operationId d = None \<and> dp_state d = AwaitingAuthorization \<and> now < dp_expiresAt d \<or>
      (case dp_operationId d of
         None \<Rightarrow> False
       | Some k \<Rightarrow>
           (case op_of db k of
              None \<Rightarrow> False
            | Some v \<Rightarrow>
                unfinished (op_state (so_operation v)) \<or>
                op_state (so_operation v) = Reverted \<and> op_finality (so_operation v) \<noteq> Finalized)))"

definition authorization_key :: "deposit \<Rightarrow> string \<times> string \<times> string" where
  "authorization_key d =
     (toLowerCase (dp_token d), toLowerCase (ra_from (dp_authorization d)), toLowerCase (ra_nonce (dp_authorization d)))"

definition insert_deposit :: "stored_deposit \<Rightarrow> app_db \<Rightarrow> app_db outcome" where
  "insert_deposit v db =
     (let d = sd_deposit v in
      if list_ex (\<lambda>e. dp_id (sd_deposit e) = dp_id d \<or> authorization_key (sd_deposit e) = authorization_key d) (db_deposits db) \<or>
         \<not> list_ex (\<lambda>a. aa_id a = dp_accountId d) (db_accounts db) \<or>
         dp_state d \<notin> {AwaitingAuthorization, OfOperation AwaitingSignature, OfOperation Cancelled}
      then Inl constraint_violated
      else Inr (db\<lparr>db_deposits := db_deposits db @ [v]\<rparr>))"

definition createDeposit :: "stored_deposit \<Rightarrow> stored_deposit transaction" where
  "createDeposit v db =
     (let d = sd_deposit v in
      case List.find (\<lambda>e. sd_subject e = sd_subject v \<and> sd_idempotencyKey e = sd_idempotencyKey v) (db_deposits db) of
        Some prior \<Rightarrow>
          if sd_requestHash prior \<noteq> sd_requestHash v then Inl (AppError ''idempotency_conflict'' 409)
          else Inr (deposit_row db (dp_createdAt d) prior, db)
      | None \<Rightarrow>
          if list_ex (\<lambda>e. dp_accountId (sd_deposit e) = dp_accountId d \<and> deposit_pending db (dp_createdAt d) e)
               (db_deposits db)
          then Inl (AppError ''deposit_in_progress'' 409)
          else outcome_map (Pair v) (insert_deposit v db))"

definition cancelDeposit :: "string \<Rightarrow> string \<Rightarrow> int \<Rightarrow> stored_deposit transaction" where
  "cancelDeposit k subject now db =
     (case List.find (\<lambda>e. dp_id (sd_deposit e) = k \<and> sd_subject e = subject) (db_deposits db) of
        None \<Rightarrow> Inl (AppError ''deposit_not_found'' 404)
      | Some row \<Rightarrow>
          let stored = row\<lparr>sd_deposit := depositView (sd_deposit row) None now\<rparr>; d = sd_deposit stored in
          if dp_operationId d \<noteq> None then Inl (AppError ''deposit_already_registered'' 409)
          else if dp_state d \<noteq> AwaitingAuthorization then Inr (stored, db)
          else
            let cancelled = d\<lparr>dp_state := OfOperation Cancelled, dp_updatedAt := now,
                              dp_reason := Some ''user_cancelled_before_submission''\<rparr>
            in Inr (stored\<lparr>sd_deposit := cancelled\<rparr>, update_deposit k (\<lambda>_. cancelled) db))"

definition createTradingSession :: "string \<Rightarrow> trading_session \<Rightarrow> unit transaction" where
  "createTradingSession subject s db =
     (if list_ex (\<lambda>p. ts_id (snd p) = ts_id s \<or>
           ts_accountId (snd p) = ts_accountId s \<and> ts_permissionId (snd p) = ts_permissionId s) (db_sessions db) \<or>
         \<not> list_ex (\<lambda>a. aa_id a = ts_accountId s) (db_accounts db)
      then Inl constraint_violated
      else Inr ((), db\<lparr>db_sessions := db_sessions db @ [(subject, s)]\<rparr>))"

definition update_sessions :: "(string \<times> trading_session \<Rightarrow> bool) \<Rightarrow> session_state \<Rightarrow> app_db \<Rightarrow> app_db" where
  "update_sessions sel st db =
     db\<lparr>db_sessions := map (\<lambda>p. if sel p then (fst p, (snd p)\<lparr>ts_state := st\<rparr>) else p) (db_sessions db)\<rparr>"

definition disableUserTradingSessions :: "string \<Rightarrow> unit transaction" where
  "disableUserTradingSessions subject db =
     Inr ((), update_sessions (\<lambda>p. fst p = subject) SessionDisabled db)"

definition setTradingSessionState :: "string \<Rightarrow> string \<Rightarrow> session_state \<Rightarrow> trading_session transaction" where
  "setTradingSessionState subject k st db =
     (let sel = (\<lambda>p. ts_id (snd p) = k \<and> fst p = subject \<and>
                    (ts_state (snd p) = SessionPrepared \<or> st = SessionDisabled)) in
      case List.find sel (db_sessions db) of
        Some p \<Rightarrow> Inr ((snd p)\<lparr>ts_state := st\<rparr>, update_sessions sel st db)
      | None \<Rightarrow>
          (case session_of subject k db of
             None \<Rightarrow> Inl (AppError ''trading_session_unavailable'' 409)
           | Some old \<Rightarrow>
               if ts_state old \<noteq> st then Inl (AppError ''trading_session_unavailable'' 409) else Inr (old, db)))"

definition assertAccountUnchanged :: "app_account \<Rightarrow> app_account \<Rightarrow> unit outcome" where
  "assertAccountUnchanged a b =
     require (aa_address a = aa_address b \<and> aa_controller a = aa_controller b \<and> aa_index a = aa_index b \<and>
              aa_deploymentId a = aa_deploymentId b \<and> aa_environment a = aa_environment b)
       (AppError ''account_configuration_changed'' 409)"

definition createChallenge :: "control_challenge \<Rightarrow> unit transaction" where
  "createChallenge c db =
     (if list_ex (\<lambda>d. cc_id d = cc_id c) (db_challenges db) then Inl constraint_violated
      else Inr ((), db\<lparr>db_challenges := db_challenges db @ [c\<lparr>cc_consumed := False\<rparr>]\<rparr>))"

definition challenge_matches :: "string \<Rightarrow> string \<Rightarrow> app_account \<Rightarrow> int \<Rightarrow> control_challenge \<Rightarrow> bool" where
  "challenge_matches k subject a now c =
     (cc_id c = k \<and> cc_subject c = subject \<and> cc_controller c = aa_controller a \<and>
      cc_environment c = aa_environment a \<and> cc_deploymentId c = aa_deploymentId a \<and>
      \<not> cc_consumed c \<and> now < cc_expiresAt c)"

definition same_controller :: "app_account \<Rightarrow> app_account \<Rightarrow> bool" where
  "same_controller a b =
     (aa_environment a = aa_environment b \<and> aa_deploymentId a = aa_deploymentId b \<and> aa_controller a = aa_controller b)"

text \<open>An account with another id or address of the same deployment violates its constraints.\<close>

definition insert_account :: "app_account \<Rightarrow> app_db \<Rightarrow> app_db outcome" where
  "insert_account a db =
     (if list_ex (same_controller a) (db_accounts db) then Inr db
      else if list_ex (\<lambda>b. aa_id b = aa_id a \<or> aa_environment b = aa_environment a \<and>
                  aa_deploymentId b = aa_deploymentId a \<and> aa_address b = aa_address a) (db_accounts db)
      then Inl constraint_violated
      else Inr (db\<lparr>db_accounts := db_accounts db @ [a]\<rparr>))"

definition bindAccount :: "bool \<Rightarrow> string \<Rightarrow> string \<Rightarrow> app_account \<Rightarrow> int \<Rightarrow> app_account transaction" where
  "bindAccount tracking challengeId subject a now db =
     (if length (filter (challenge_matches challengeId subject a now) (db_challenges db)) \<noteq> 1
      then Inl (AppError ''challenge_unavailable'' 409)
      else
        let db1 = db\<lparr>db_challenges := map (\<lambda>c. if challenge_matches challengeId subject a now c
                                            then c\<lparr>cc_consumed := True\<rparr> else c) (db_challenges db)\<rparr> in
        outcome_bind (insert_account a db1) (\<lambda>db2.
          case List.find (same_controller a) (db_accounts db2) of
            None \<Rightarrow> Inl (ZodError ''account'')
          | Some stored \<Rightarrow>
              outcome_map (\<lambda>_.
                  let db3 = db2\<lparr>db_subjects := set_add (aa_id stored, subject) (db_subjects db2)\<rparr> in
                  (stored, if tracking then db3\<lparr>db_tracked := set_add (toLowerCase (aa_address stored)) (db_tracked db3)\<rparr>
                           else db3))
                (assertAccountUnchanged stored a)))"

definition accounts_of :: "string \<Rightarrow> app_db \<Rightarrow> app_account list" where
  "accounts_of subject db =
     sort_key aa_id (filter (\<lambda>a. (aa_id a, subject) \<in> set (db_subjects db)) (db_accounts db))"

definition account_of :: "string \<Rightarrow> string \<Rightarrow> app_db \<Rightarrow> app_account option" where
  "account_of k subject db =
     List.find (\<lambda>a. aa_id a = k \<and> (k, subject) \<in> set (db_subjects db)) (db_accounts db)"

section \<open>Work lists\<close>

definition needs_recovery :: "int \<Rightarrow> operation \<Rightarrow> bool" where
  "needs_recovery now o' =
     (isRecoverable (op_state o') \<or>
      (op_state o' = Preparing \<or> op_state o' = AwaitingSignature) \<and> op_expiresAt o' \<le> now \<or>
      (op_state o' = Confirmed \<or> op_state o' = Reverted) \<and> op_finality o' \<noteq> Finalized)"

definition pending :: "int \<Rightarrow> nat \<Rightarrow> app_db \<Rightarrow> stored_operation list" where
  "pending now limit db =
     take limit (sort_key (\<lambda>v. op_updatedAt (so_operation v)) (sort_key (\<lambda>v. op_id (so_operation v))
       (filter (\<lambda>v. needs_recovery now (so_operation v)) (db_operations db))))"

definition policyCandidate :: "(string \<Rightarrow> string) \<Rightarrow> string \<Rightarrow> nat \<Rightarrow> string \<Rightarrow> app_db \<Rightarrow> stored_operation option" where
  "policyCandidate keccak sender nonce callData db =
     (case sort_key (\<lambda>v. - op_createdAt (so_operation v))
        (filter (\<lambda>v. toLowerCase (op_account (so_operation v)) = toLowerCase sender \<and> op_nonce (so_operation v) = nonce \<and>
             keccak (op_callData (so_operation v)) = keccak callData \<and>
             (op_state (so_operation v) = AwaitingSignature \<or> isRecoverable (op_state (so_operation v))))
          (db_operations db)) of
        [] \<Rightarrow> None | v # _ \<Rightarrow> Some v)"

definition report_rows :: "int \<Rightarrow> int \<Rightarrow> app_db \<Rightarrow> stored_operation list" where
  "report_rows start finish db =
     sort_key (\<lambda>v. op_createdAt (so_operation v)) (sort_key (\<lambda>v. op_id (so_operation v))
       (filter (\<lambda>v. start \<le> op_createdAt (so_operation v) \<and> op_createdAt (so_operation v) < finish) (db_operations db)))"

end
