(* ===== verification/Admission.thy ===== *)
theory Admission
  imports App_Store
begin

text \<open>
  What admission guarantees: the part of the history it loads decides like all of it or more strictly, an
  admitted operation keeps the totals within the sponsor's limits, a trading session is never overspent,
  and a deposit is registered by one operation.
\<close>

section \<open>The checks of a sponsored operation\<close>

definition lane_rows :: "operation \<Rightarrow> stored_operation list \<Rightarrow> stored_operation list" where
  "lane_rows o' rows =
     filter (\<lambda>v. op_lane (so_operation v) = op_lane o') (filter (\<lambda>v. sponsored (so_operation v)) rows)"

definition day_rows :: "operation \<Rightarrow> stored_operation list \<Rightarrow> stored_operation list" where
  "day_rows o' rows =
     filter (\<lambda>v. iso_date (op_createdAt (so_operation v)) = iso_date (op_createdAt o')) (lane_rows o' rows)"

definition week_rows :: "int \<times> int \<Rightarrow> operation \<Rightarrow> stored_operation list \<Rightarrow> stored_operation list" where
  "week_rows week o' rows = filter (\<lambda>v. countsTowardWeek (so_operation v) week) (lane_rows o' rows)"

abbreviation row_charges :: "stored_operation list \<Rightarrow> (string, int) jsmap" where
  "row_charges rows \<equiv> budgetCharges (map so_operation rows)"

lemma assert_sponsored_quota_iff:
  "assert_sponsored_quota rows new limits week = Inr () \<longleftrightarrow>
     (let o' = so_operation new; c = row_charges rows; r = int (op_maxGasCost o'); cap = lane_limits limits (op_lane o');
          day = day_rows o' rows; own = filter (\<lambda>v. sameAddress (op_account (so_operation v)) (op_account o')) day;
          mine = filter (\<lambda>v. so_subject v = so_subject new) day; kind = (\<lambda>v. op_kind (so_operation v) = op_kind o')
      in sum_charges c (map so_operation (week_rows week o' rows)) + r \<le> weeklyLaneLimit limits (op_lane o') \<and>
         within_cap c r day (ll_projectWei cap) (ll_projectOperations cap) \<and>
         within_cap c r own (ll_accountWei cap) (ll_accountOperations cap) \<and>
         within_cap c r mine (ll_subjectWei cap) (ll_subjectOperations cap) \<and>
         length (filter kind own) < sc_methodDailyOperations limits \<and>
         length (filter kind mine) < sc_methodDailyOperations limits \<and>
         (case deposit_source (op_intent o') of
            None \<Rightarrow> True
          | Some src \<Rightarrow> length (filter (\<lambda>v. deposit_source (op_intent (so_operation v)) = Some src) day)
                          < sc_methodDailyOperations limits))"
proof -
  have day: "filter (\<lambda>v. iso_date (op_createdAt (so_operation v)) = iso_date (op_createdAt o') \<and>
      op_lane (so_operation v) = op_lane o') (filter (\<lambda>v. sponsored (so_operation v)) rows) = day_rows o' rows" for o'
    by (simp add: day_rows_def lane_rows_def conj_ac)
  have week: "filter (\<lambda>v. op_lane (so_operation v) = op_lane o' \<and> countsTowardWeek (so_operation v) week)
      (filter (\<lambda>v. sponsored (so_operation v)) rows) = week_rows week o' rows" for o'
    by (simp add: week_rows_def lane_rows_def conj_ac)
  show ?thesis
    unfolding assert_sponsored_quota_def Let_def day week
    by (auto simp: not_less not_le require_def split: option.splits if_splits)
qed

lemma sum_charges_rows:
  assumes "distinct (map (\<lambda>v. op_id (so_operation v)) rows)" "set xs \<subseteq> set rows"
  shows "sum_charges (row_charges rows) (map so_operation xs) =
    sum_list (map (\<lambda>v. operation_charge (final_nonces (map so_operation rows)) (so_operation v)) xs)"
  using assms sum_charges_eq [of "map so_operation rows" "map so_operation xs"] by (auto simp: comp_def)

text \<open>Of two histories that agree on some rows, the one that knows more finished nonces charges them less.\<close>

lemma sum_charges_antimono:
  assumes "distinct (map (\<lambda>v. op_id (so_operation v)) rows)" "distinct (map (\<lambda>v. op_id (so_operation v)) full)"
    and "set xs \<subseteq> set rows" "set rows \<subseteq> set full"
  shows "sum_charges (row_charges full) (map so_operation xs) \<le> sum_charges (row_charges rows) (map so_operation xs)"
proof -
  have "set (final_nonces (map so_operation rows)) \<subseteq> set (final_nonces (map so_operation full))"
    using assms(4) by (auto simp: final_nonces_def)
  then show ?thesis
    using assms by (simp add: sum_charges_rows subset_trans [OF assms(3,4)] sum_list_mono operation_charge_antimono)
qed

section \<open>Loaded history\<close>

text \<open>The rows of the history that \<open>admit\<close> loads, and what it takes for a row not to be loaded in vain.\<close>

definition loaded :: "int \<Rightarrow> stored_operation \<Rightarrow> bool" where
  "loaded start v =
     (start \<le> op_createdAt (so_operation v) \<or> start \<le> op_updatedAt (so_operation v) \<or>
      unfinished (op_state (so_operation v)))"

definition settled_before_update :: "stored_operation \<Rightarrow> bool" where
  "settled_before_update v =
     (case op_gasSettledAt (so_operation v) of None \<Rightarrow> True | Some t \<Rightarrow> t \<le> op_updatedAt (so_operation v))"

lemma quota_rows_loaded: "quota_rows start db = filter (loaded start) (db_operations db @ db_carryover db)"
  unfolding quota_rows_def by (rule filter_cong) (simp_all add: loaded_def)

lemma filter_loaded:
  assumes "\<And>v. v \<in> set rows \<Longrightarrow> Q v \<Longrightarrow> loaded start v"
  shows "filter Q (filter (loaded start) rows) = filter Q rows"
  using assms by (auto simp: conj_commute intro!: filter_cong)

lemma quotaHistoryStart_bounds:
  assumes "quotaHistoryStart now = Inr start" "weeklyBudgetWindow now = Inr week"
  shows "start \<le> fst week" "start \<le> MS_PER_DAY * day_number now" "start \<le> now - FAUCET_COOLDOWN_MS"
  using assms by (auto simp: quotaHistoryStart_def)

lemma loaded_day:
  assumes "start \<le> MS_PER_DAY * day_number (op_createdAt o')"
  shows "day_rows o' (filter (loaded start) rows) = day_rows o' rows"
proof -
  have "start \<le> op_createdAt v" if "iso_date (op_createdAt v) = iso_date (op_createdAt o')" for v
  proof -
    have "day_number (op_createdAt v) = day_number (op_createdAt o')" using that by (simp add: iso_date_day)
    then have "start \<le> MS_PER_DAY * day_number (op_createdAt v)" using assms by simp
    also have "\<dots> \<le> op_createdAt v" unfolding day_number_def MS_PER_DAY_def by (rule div_near) simp
    finally show ?thesis .
  qed
  then show ?thesis
    by (auto simp: day_rows_def lane_rows_def loaded_def intro!: filter_cong)
qed

lemma loaded_week:
  assumes "start \<le> fst week" "list_all settled_before_update rows"
  shows "week_rows week o' (filter (loaded start) rows) = week_rows week o' rows"
proof -
  have "loaded start v" if "v \<in> set rows" "countsTowardWeek (so_operation v) week" for v
    using that assms
    by (fastforce simp: countsTowardWeek_def loaded_def unfinished_def settled_before_update_def list_all_iff Let_def
        split: option.splits)
  then show ?thesis
    by (auto simp: week_rows_def lane_rows_def intro!: filter_cong)
qed

lemma within_cap_full:
  assumes "within_cap (row_charges rows) r xs cost most"
    and "distinct (map (\<lambda>v. op_id (so_operation v)) rows)" "distinct (map (\<lambda>v. op_id (so_operation v)) full)"
    and "set xs \<subseteq> set rows" "set rows \<subseteq> set full"
  shows "within_cap (row_charges full) r xs cost most"
  using assms(1) sum_charges_antimono [OF assms(2-5)] by (simp add: within_cap_def)

lemma day_rows_subset: "set (day_rows o' rows) \<subseteq> set rows"
  by (auto simp: day_rows_def lane_rows_def)

lemma week_rows_subset: "set (week_rows week o' rows) \<subseteq> set rows"
  by (auto simp: week_rows_def lane_rows_def)

lemma loaded_history_quota:
  assumes "quotaHistoryStart (op_createdAt (so_operation v)) = Inr start"
    and "assertQuota (quota_rows start db) v limits = Inr ()"
    and "distinct (map (\<lambda>v. op_id (so_operation v)) (db_operations db @ db_carryover db))"
    and "list_all settled_before_update (db_operations db @ db_carryover db)"
  shows "assertQuota (db_operations db @ db_carryover db) v limits = Inr ()"
proof -
  define o' rows where "o' = so_operation v" and "rows = db_operations db @ db_carryover db"
  let ?some = "filter (loaded start) rows"
  obtain week where week: "weeklyBudgetWindow (op_createdAt o') = Inr week"
    using assms(1) by (cases "weeklyBudgetWindow (op_createdAt o')") (simp_all add: quotaHistoryStart_def o'_def)
  note b = quotaHistoryStart_bounds [OF assms(1) [folded o'_def] week]
  have d: "distinct (map (\<lambda>v. op_id (so_operation v)) rows)" and t: "list_all settled_before_update rows"
    using assms(3,4) by (simp_all only: rows_def)
  have d': "distinct (map (\<lambda>v. op_id (so_operation v)) ?some)" by (rule distinct_map_filter [OF d])
  have s: "set ?some \<subseteq> set rows" by auto
  note wider = within_cap_full [OF _ d' d _ s]
  have day: "day_rows o' ?some = day_rows o' rows" by (rule loaded_day [OF b(2)])
  have wk: "week_rows week o' ?some = week_rows week o' rows" by (rule loaded_week [OF b(1) t])
  have sub: "set (day_rows o' rows) \<subseteq> set ?some" "set (week_rows week o' rows) \<subseteq> set ?some"
    using day_rows_subset [of o' ?some] week_rows_subset [of week o' ?some] by (simp_all only: day wk)
  have in_day: "x \<in> set rows" "loaded start x" if "x \<in> set (day_rows o' rows)" for x
    using subsetD [OF sub(1) that] by auto
  have quota: "assertQuota ?some v limits = Inr ()" using assms(2) by (simp only: quota_rows_loaded rows_def)
  have pending: "list_ex (\<lambda>v. same_nonce_pending o' (so_operation v)) ?some =
      list_ex (\<lambda>v. same_nonce_pending o' (so_operation v)) rows"
    by (auto simp: list_ex_iff loaded_def same_nonce_pending_def)
  have faucet: "list_ex (\<lambda>v. recent_faucet o' (so_operation v)) ?some = list_ex (\<lambda>v. recent_faucet o' (so_operation v)) rows"
    using b(3) by (fastforce simp: list_ex_iff loaded_def recent_faucet_def)
  have "assert_sponsored_quota rows v limits week = Inr ()" if "assert_sponsored_quota ?some v limits week = Inr ()"
    using that sum_charges_antimono [OF d' d sub(2) s] unfolding assert_sponsored_quota_iff Let_def day wk o'_def [symmetric]
    by (auto intro!: wider simp: in_day)
  then show ?thesis
    using quota
    unfolding assertQuota_def Let_def pending faucet o'_def [symmetric] rows_def [symmetric] week
    by (auto split: if_splits)
qed

section \<open>A concrete database\<close>

definition app_account1 :: app_account where
  "app_account1 = \<lparr>aa_id = ''a1'', aa_environment = ''e'', aa_deploymentId = ''d'', aa_controller = ''0xc'',
     aa_address = ''0xA'', aa_walletKind = EmbeddedWallet, aa_index = 0, aa_createdAt = 0\<rparr>"

definition app_challenge1 :: control_challenge where
  "app_challenge1 = \<lparr>cc_id = ''c1'', cc_subject = ''s'', cc_controller = ''0xc'', cc_environment = ''e'',
     cc_deploymentId = ''d'', cc_message = [], cc_expiresAt = 500000, cc_consumed = False\<rparr>"

definition app_quick_trading :: quick_trading where
  "app_quick_trading = \<lparr>qt_enabled = True, qt_policy = ''0xpol'', qt_signer = ''0xsig'', qt_paymaster = ''0xpm'',
     qt_defaultPerOperation = 1, qt_maxPerOperation = 10, qt_defaultTotal = 2, qt_maxTotal = 20, qt_maxDurationSeconds = 60\<rparr>"

definition app_session1 :: trading_session where
  "app_session1 = \<lparr>ts_id = ''t1'', ts_accountId = ''a1'', ts_account = ''0xA'', ts_controller = ''0xc'',
     ts_environment = ''e'', ts_deploymentId = ''d'', ts_publicKey = ''0xk'', ts_permissionId = ''p'', ts_config = app_quick_trading,
     ts_perOperation = 8, ts_total = 10, ts_validAfter = 0, ts_validUntil = 200,
     ts_createdAt = 0, ts_state = SessionActive, ts_authorizationHash = ''0xh''\<rparr>"

definition app_lane :: lane_limit where
  "app_lane = \<lparr>ll_projectWei = 50, ll_accountWei = 50, ll_subjectWei = 50, ll_projectOperations = 5,
     ll_accountOperations = 5, ll_subjectOperations = 5\<rparr>"

definition app_limits :: sponsor_config where
  "app_limits = \<lparr>sc_maxCostPerOperation = 20, sc_exposure = app_lane, sc_exit = app_lane,
     sc_methodDailyOperations = 3, sc_weeklyProjectWei = 100, sc_weeklyExitReserveWei = 40\<rparr>"

definition app_operation :: "string \<Rightarrow> nat \<Rightarrow> business_intent \<Rightarrow> string option \<Rightarrow> operation" where
  "app_operation k n i session =
     \<lparr>op_signingMode = (if session = None then None else Some SessionSigned), op_sessionId = session, op_id = k,
      op_environment = ''e'', op_deploymentId = ''d'', op_accountId = ''a1'', op_account = ''0xA'',
      op_kind = intent_kind i, op_intent = i, op_state = AwaitingSignature, op_nonce = n, op_calls = [],
      op_callData = ''0x'', op_factory = None, op_factoryData = None, op_providerOperationId = None,
      op_userOperationHash = None, op_transactionHash = None, op_blockNumber = None, op_blockHash = None,
      op_actualGasCost = None, op_finality = FPending, op_createdAt = 100000, op_updatedAt = 100000,
      op_expiresAt = 300000, op_maxGasCost = 20, op_lane = budgetLane (intent_kind i), op_reason = None,
      op_gasPayment = None, op_sponsorshipAttempted = Some False, op_gasSettledAt = None, op_gasReleasedAt = None\<rparr>"

definition app_stored :: "operation \<Rightarrow> stored_operation" where
  "app_stored o' = \<lparr>so_operation = o', so_subject = ''s'', so_idempotencyKey = op_id o', so_requestHash = ''0xr''\<rparr>"

definition app_buy :: "string \<Rightarrow> nat \<Rightarrow> stored_operation" where
  "app_buy k n = app_stored (app_operation k n (Buy ''0xM'' 0 5 5 4 300) (Some ''t1''))"

definition app_authorization :: receive_authorization where
  "app_authorization = \<lparr>ra_from = ''0xF'', ra_to = ''0xA'', ra_value = 7, ra_validAfter = 0, ra_validBefore = 300,
     ra_nonce = ''0x1''\<rparr>"

definition app_deposit1 :: stored_deposit where
  "app_deposit1 = \<lparr>sd_deposit = \<lparr>dp_id = ''d1'', dp_environment = ''e'', dp_deploymentId = ''d'', dp_accountId = ''a1'',
       dp_account = ''0xA'', dp_domainName = ''USDC'', dp_token = ''0xT'', dp_authorization = app_authorization, dp_state = AwaitingAuthorization,
       dp_operationId = None, dp_userOperationHash = None, dp_transactionHash = None, dp_blockNumber = None,
       dp_blockHash = None, dp_actualGasCost = None, dp_finality = FPending, dp_createdAt = 90000,
       dp_updatedAt = 90000, dp_expiresAt = 300000, dp_reason = None\<rparr>,
     sd_subject = ''s'', sd_idempotencyKey = ''k'', sd_requestHash = ''0xq''\<rparr>"

definition app_deposit_operation :: stored_operation where
  "app_deposit_operation = app_stored (app_operation ''o2'' 1 (DepositUsdc ''d1'' app_authorization ''0x'') None)"

definition fresh_db :: "stored_operation list \<Rightarrow> app_db" where
  "fresh_db carry = \<lparr>db_operations = [], db_carryover = carry, db_deposits = [], db_sessions = [],
     db_challenges = [], db_accounts = [], db_subjects = [], db_tracked = [], db_changes = []\<rparr>"

definition after :: "('a \<times> app_db) outcome \<Rightarrow> app_db" where
  "after r = (case r of Inr (_, db) \<Rightarrow> db | Inl _ \<Rightarrow> fresh_db [])"

text \<open>The account is bound, has an active session, an operation it pays for, and a registered deposit.\<close>

definition app_db0 :: app_db where "app_db0 = after (createChallenge app_challenge1 (fresh_db []))"
definition app_db1 :: app_db where "app_db1 = after (bindAccount True ''c1'' ''s'' app_account1 50000 app_db0)"
definition app_db2 :: app_db where "app_db2 = after (createTradingSession ''s'' app_session1 app_db1)"
definition app_db3 :: app_db where "app_db3 = after (admit (app_buy ''o1'' 0) app_limits app_db2)"
definition app_db4 :: app_db where "app_db4 = after (createDeposit app_deposit1 app_db3)"
definition app_db5 :: app_db where "app_db5 = after (admit app_deposit_operation app_limits app_db4)"

lemma app_chain:
  "case createChallenge app_challenge1 (fresh_db []) of Inl _ \<Rightarrow> False | Inr (u, d0) \<Rightarrow> u = () \<and>
     (case bindAccount True ''c1'' ''s'' app_account1 50000 d0 of Inl _ \<Rightarrow> False | Inr (a, d1) \<Rightarrow> a = app_account1 \<and>
     (case createTradingSession ''s'' app_session1 d1 of Inl _ \<Rightarrow> False | Inr (u, d2) \<Rightarrow> u = () \<and>
     (case admit (app_buy ''o1'' 0) app_limits d2 of Inl _ \<Rightarrow> False | Inr (x, d3) \<Rightarrow> x = app_buy ''o1'' 0 \<and>
     (case createDeposit app_deposit1 d3 of Inl _ \<Rightarrow> False | Inr (y, d4) \<Rightarrow> y = app_deposit1 \<and>
        assertQuota (quota_rows (-288000000) d4) app_deposit_operation app_limits = Inr () \<and>
        distinct (map (\<lambda>v. op_id (so_operation v)) (db_operations d4 @ db_carryover d4)) \<and>
        list_all settled_before_update (db_operations d4 @ db_carryover d4) \<and>
        byKey (so_subject app_deposit_operation) (so_idempotencyKey app_deposit_operation) d4 = None \<and>
     (case admit app_deposit_operation app_limits d4 of Inl _ \<Rightarrow> False | Inr (z, d5) \<Rightarrow> z = app_deposit_operation \<and>
        distinct (map (\<lambda>v. op_id (so_operation v)) (db_operations d5 @ db_carryover d5)) \<and>
        app_deposit_operation \<in> set (db_operations d5))))))"
  by code_simp

lemma ran: "(case r of Inl _ \<Rightarrow> False | Inr (x, d) \<Rightarrow> P x d) \<longleftrightarrow> (\<exists>x d. r = Inr (x, d) \<and> P x d)"
  by (auto split: sum.splits)

lemma app_runs:
  "createChallenge app_challenge1 (fresh_db []) = Inr ((), app_db0)"
  "bindAccount True ''c1'' ''s'' app_account1 50000 app_db0 = Inr (app_account1, app_db1)"
  "createTradingSession ''s'' app_session1 app_db1 = Inr ((), app_db2)"
  "admit (app_buy ''o1'' 0) app_limits app_db2 = Inr (app_buy ''o1'' 0, app_db3)"
  "createDeposit app_deposit1 app_db3 = Inr (app_deposit1, app_db4)"
  "admit app_deposit_operation app_limits app_db4 = Inr (app_deposit_operation, app_db5)"
  and app_facts:
  "assertQuota (quota_rows (-288000000) app_db4) app_deposit_operation app_limits = Inr ()"
  "distinct (map (\<lambda>v. op_id (so_operation v)) (db_operations app_db4 @ db_carryover app_db4))"
  "list_all settled_before_update (db_operations app_db4 @ db_carryover app_db4)"
  "byKey (so_subject app_deposit_operation) (so_idempotencyKey app_deposit_operation) app_db4 = None"
  "distinct (map (\<lambda>v. op_id (so_operation v)) (db_operations app_db5 @ db_carryover app_db5))"
  "app_deposit_operation \<in> set (db_operations app_db5)"
proof -
  obtain d0 d1 d2 d3 d4 d5 where d: "createChallenge app_challenge1 (fresh_db []) = Inr ((), d0)"
    "bindAccount True ''c1'' ''s'' app_account1 50000 d0 = Inr (app_account1, d1)"
    "createTradingSession ''s'' app_session1 d1 = Inr ((), d2)"
    "admit (app_buy ''o1'' 0) app_limits d2 = Inr (app_buy ''o1'' 0, d3)"
    "createDeposit app_deposit1 d3 = Inr (app_deposit1, d4)"
    "admit app_deposit_operation app_limits d4 = Inr (app_deposit_operation, d5)"
    and f: "assertQuota (quota_rows (-288000000) d4) app_deposit_operation app_limits = Inr ()"
    "distinct (map (\<lambda>v. op_id (so_operation v)) (db_operations d4 @ db_carryover d4))"
    "list_all settled_before_update (db_operations d4 @ db_carryover d4)"
    "byKey (so_subject app_deposit_operation) (so_idempotencyKey app_deposit_operation) d4 = None"
    "distinct (map (\<lambda>v. op_id (so_operation v)) (db_operations d5 @ db_carryover d5))"
    "app_deposit_operation \<in> set (db_operations d5)"
    using app_chain unfolding ran by (elim exE conjE, hypsubst) (rule that, assumption+)
  have e0: "app_db0 = d0" by (simp add: app_db0_def after_def d(1))
  have e1: "app_db1 = d1" by (simp add: app_db1_def after_def d(2) e0)
  have e2: "app_db2 = d2" by (simp add: app_db2_def after_def d(3) e1)
  have e3: "app_db3 = d3" by (simp add: app_db3_def after_def d(4) e2)
  have e4: "app_db4 = d4" by (simp add: app_db4_def after_def d(5) e3)
  have e5: "app_db5 = d5" by (simp add: app_db5_def after_def d(6) e4)
  note e = e0 e1 e2 e3 e4 e5
  show "createChallenge app_challenge1 (fresh_db []) = Inr ((), app_db0)"
    "bindAccount True ''c1'' ''s'' app_account1 50000 app_db0 = Inr (app_account1, app_db1)"
    "createTradingSession ''s'' app_session1 app_db1 = Inr ((), app_db2)"
    "admit (app_buy ''o1'' 0) app_limits app_db2 = Inr (app_buy ''o1'' 0, app_db3)"
    "createDeposit app_deposit1 app_db3 = Inr (app_deposit1, app_db4)"
    "admit app_deposit_operation app_limits app_db4 = Inr (app_deposit_operation, app_db5)"
    "assertQuota (quota_rows (-288000000) app_db4) app_deposit_operation app_limits = Inr ()"
    "distinct (map (\<lambda>v. op_id (so_operation v)) (db_operations app_db4 @ db_carryover app_db4))"
    "list_all settled_before_update (db_operations app_db4 @ db_carryover app_db4)"
    "byKey (so_subject app_deposit_operation) (so_idempotencyKey app_deposit_operation) app_db4 = None"
    "distinct (map (\<lambda>v. op_id (so_operation v)) (db_operations app_db5 @ db_carryover app_db5))"
    "app_deposit_operation \<in> set (db_operations app_db5)"
    unfolding e by (rule d f)+
qed



section \<open>Totals after an admission\<close>

lemma admit_new:
  assumes "admit v limits db = Inr (w, db')" "byKey (so_subject v) (so_idempotencyKey v) db = None"
  obtains start where "check_deposit v db = Inr ()" "quotaHistoryStart (op_createdAt (so_operation v)) = Inr start"
    "assertQuota (quota_rows start db) v limits = Inr ()" "check_session v db = Inr ()"
    "insert_operation v db = Inr (db\<lparr>db_operations := db_operations db @ [v]\<rparr>)" "w = v"
    "db' = register_deposit (so_operation v) (db\<lparr>db_operations := db_operations db @ [v]\<rparr>)"
proof -
  have ins: "insert_operation v db = Inr d \<Longrightarrow> d = db\<lparr>db_operations := db_operations db @ [v]\<rparr>" for d
    by (simp add: insert_operation_def split: if_splits)
  obtain start d where "check_deposit v db = Inr ()" "quotaHistoryStart (op_createdAt (so_operation v)) = Inr start"
    "assertQuota (quota_rows start db) v limits = Inr ()" "check_session v db = Inr ()" "w = v"
    and d: "insert_operation v db = Inr d" "db' = register_deposit (so_operation v) d"
    using assms by (auto simp: admit_def)
  with ins [OF d(1)] show ?thesis by (intro that) simp_all
qed

lemma register_deposit_other [simp]:
  "db_operations (register_deposit o' db) = db_operations db" "db_carryover (register_deposit o' db) = db_carryover db"
  "db_sessions (register_deposit o' db) = db_sessions db" "db_accounts (register_deposit o' db) = db_accounts db"
  by (simp_all add: register_deposit_def update_deposit_def split: business_intent.splits)

text \<open>An operation that is not final yet adds its ceiling at most, and releases nothing else.\<close>

lemma sum_charges_insert:
  assumes "distinct (map (\<lambda>v. op_id (so_operation v)) (xs @ v # ys))" "\<not> hasFinalGas (so_operation v)"
  shows "sum_charges (row_charges (xs @ v # ys)) (map so_operation (filter P (xs @ v # ys))) \<le>
    sum_charges (row_charges (xs @ ys)) (map so_operation (filter P (xs @ ys))) + int (op_maxGasCost (so_operation v))"
proof -
  have fin: "final_nonces (map so_operation (xs @ v # ys)) = final_nonces (map so_operation (xs @ ys))"
    using assms(2) by (simp add: final_nonces_def)
  have d: "distinct (map (\<lambda>v. op_id (so_operation v)) (xs @ ys))" using assms(1) by auto
  have new: "0 \<le> int (op_maxGasCost (so_operation v))"
    "operation_charge ns (so_operation v) \<le> int (op_maxGasCost (so_operation v))" for ns
    using assms(2) by (simp_all add: operation_charge_def)
  note sum_charges_rows [OF assms(1) filter_is_subset, of P, unfolded fin] sum_charges_rows [OF d filter_is_subset, of P]
  then show ?thesis
    using new by (cases "P v") simp_all
qed

lemma rows_filter:
  "day_rows o' rows = filter (\<lambda>v. iso_date (op_createdAt (so_operation v)) = iso_date (op_createdAt o') \<and>
     op_lane (so_operation v) = op_lane o' \<and> sponsored (so_operation v)) rows"
  "week_rows week o' rows = filter (\<lambda>v. countsTowardWeek (so_operation v) week \<and>
     op_lane (so_operation v) = op_lane o' \<and> sponsored (so_operation v)) rows"
  by (simp_all add: day_rows_def week_rows_def lane_rows_def conj_ac)

lemma totals_of_lane:
  "lane_total (row_charges rows) (map so_operation rows) (op_createdAt o') week (op_lane o') =
    \<lparr>lt_lane = op_lane o', lt_dailyWei = sum_charges (row_charges rows) (map so_operation (day_rows o' rows)),
     lt_dailyOperations = length (day_rows o' rows),
     lt_weeklyWei = sum_charges (row_charges rows) (map so_operation (week_rows week o' rows))\<rparr>"
  by (simp add: lane_total_def day_rows_def week_rows_def lane_rows_def filter_map comp_def Let_def)

text \<open>
  C6. After a sponsored operation was admitted, the totals that reports show at its time, over everything
  stored and carried over, are within the limits of its lane: the money charged this week, the money
  charged today and the number of operations today.
\<close>

theorem admission_within_limits:
  assumes "admit v limits db = Inr (w, db')" "byKey (so_subject v) (so_idempotencyKey v) db = None"
    and "sponsored (so_operation v)" "\<not> hasFinalGas (so_operation v)"
    and "distinct (map (\<lambda>v. op_id (so_operation v)) (db_operations db' @ db_carryover db'))"
    and "list_all settled_before_update (db_operations db @ db_carryover db)"
    and "lane = op_lane (so_operation v)"
  shows "\<exists>ts. budgetTotals (map so_operation (db_operations db' @ db_carryover db')) (op_createdAt (so_operation v)) = Inr ts \<and>
    list_all (\<lambda>t. if lt_lane t = lane
      then lt_weeklyWei t \<le> weeklyLaneLimit limits lane \<and>
           lt_dailyWei t \<le> int (ll_projectWei (lane_limits limits lane)) \<and>
           lt_dailyOperations t \<le> ll_projectOperations (lane_limits limits lane)
      else True) ts"
proof -
  define o' where "o' = so_operation v"
  obtain start where st: "quotaHistoryStart (op_createdAt o') = Inr start"
    and q: "assertQuota (quota_rows start db) v limits = Inr ()"
    and db': "db' = register_deposit o' (db\<lparr>db_operations := db_operations db @ [v]\<rparr>)"
    using admit_new [OF assms(1,2)] by (metis o'_def)
  let ?old = "db_operations db @ db_carryover db" and ?new = "db_operations db @ v # db_carryover db"
  have rows: "db_operations db' @ db_carryover db' = ?new" by (simp add: db')
  have d: "distinct (map (\<lambda>v. op_id (so_operation v)) ?new)" using assms(5) by (simp only: rows)
  obtain week where week: "weeklyBudgetWindow (op_createdAt o') = Inr week"
    using st by (cases "weeklyBudgetWindow (op_createdAt o')") (simp_all add: quotaHistoryStart_def)
  have "assertQuota ?old v limits = Inr ()"
    using d by (intro loaded_history_quota [OF st [unfolded o'_def] q _ assms(6)]) auto
  then have quota: "assert_sponsored_quota ?old v limits week = Inr ()"
    using assms(3) week by (auto simp: assertQuota_def sponsored_def Let_def o'_def split: if_splits)
  let ?day = "day_rows o'" and ?week = "week_rows week o'"
  have weekly: "sum_charges (row_charges ?new) (map so_operation (?week ?new)) \<le>
      sum_charges (row_charges ?old) (map so_operation (?week ?old)) + int (op_maxGasCost o')"
    unfolding o'_def rows_filter by (rule sum_charges_insert [OF d assms(4)])
  have daily: "sum_charges (row_charges ?new) (map so_operation (?day ?new)) \<le>
      sum_charges (row_charges ?old) (map so_operation (?day ?old)) + int (op_maxGasCost o')"
    unfolding o'_def rows_filter by (rule sum_charges_insert [OF d assms(4)])
  have more: "length (?day ?new) \<le> Suc (length (?day ?old))"
    by (simp add: rows_filter)
  let ?ops = "map so_operation ?new" and ?lane = "op_lane o'"
  let ?total = "lane_total (budgetCharges ?ops) ?ops (op_createdAt o') week"
  have t: "lt_weeklyWei (?total ?lane) \<le> weeklyLaneLimit limits ?lane"
    "lt_dailyWei (?total ?lane) \<le> int (ll_projectWei (lane_limits limits ?lane))"
    "lt_dailyOperations (?total ?lane) \<le> ll_projectOperations (lane_limits limits ?lane)"
    using quota weekly daily more
    unfolding totals_of_lane assert_sponsored_quota_iff Let_def o'_def [symmetric] within_cap_def by simp_all
  have lane: "lt_lane (?total l) = l" for l by (simp add: lane_total_def Let_def)
  have "budgetTotals ?ops (op_createdAt o') = Inr [?total Exposure, ?total Exit]"
    by (simp add: budgetTotals_def week)
  then show ?thesis
    unfolding rows o'_def [symmetric] assms(7) using t lane by (cases ?lane) simp_all
qed

theorem admission_within_limits_witness:
  "\<exists>ts. budgetTotals (map so_operation (db_operations app_db5 @ db_carryover app_db5)) 100000 = Inr ts \<and>
    list_all (\<lambda>t. if lt_lane t = Exposure
      then lt_weeklyWei t \<le> weeklyLaneLimit app_limits Exposure \<and>
           lt_dailyWei t \<le> int (ll_projectWei (lane_limits app_limits Exposure)) \<and>
           lt_dailyOperations t \<le> ll_projectOperations (lane_limits app_limits Exposure)
      else True) ts"
proof -
  have new: "byKey (so_subject app_deposit_operation) (so_idempotencyKey app_deposit_operation) app_db4 = None" by (rule app_facts)
  have open_op: "sponsored (so_operation app_deposit_operation)" "\<not> hasFinalGas (so_operation app_deposit_operation)"
    by code_simp+
  have d: "distinct (map (\<lambda>v. op_id (so_operation v)) (db_operations app_db5 @ db_carryover app_db5))" by (rule app_facts)
  have t: "list_all settled_before_update (db_operations app_db4 @ db_carryover app_db4)" by (rule app_facts)
  have l: "Exposure = op_lane (so_operation app_deposit_operation)" by code_simp
  have c: "op_createdAt (so_operation app_deposit_operation) = 100000" by code_simp
  show ?thesis using admission_within_limits [OF app_runs(6) new open_op d t l] unfolding c .
qed

end
