(* ===== verification/App_Invariant.thy ===== *)
theory App_Invariant
  imports Admission
begin

text \<open>
  The invariant of the application store over every sequence of its transactions: a trading session is
  never overspent, and one operation at most is registered for a deposit.
\<close>

section \<open>Steps\<close>

text \<open>
  One committed transaction. The premises are what the callers see to: an operation names a session
  exactly when the session signs it (operations.ts), the callers of \<open>transition\<close> never start from a
  cancelled operation (gateway.ts, operations.ts, recovery.ts), and a new deposit has no operation
  (deposits.ts).
\<close>

inductive db_step :: "app_db \<Rightarrow> app_db \<Rightarrow> bool" where
  step_admit: "admit v limits db = Inr (w, db') \<Longrightarrow>
     (op_signingMode (so_operation v) = Some SessionSigned) = (op_sessionId (so_operation v) \<noteq> None) \<Longrightarrow> db_step db db'"
| step_transition: "transition k origin p db = Inr (r, db') \<Longrightarrow> Cancelled \<notin> set origin \<Longrightarrow> db_step db db'"
| step_deposit: "createDeposit e db = Inr (r, db') \<Longrightarrow> dp_operationId (sd_deposit e) = None \<Longrightarrow> db_step db db'"
| step_cancel: "cancelDeposit k subject now db = Inr (r, db') \<Longrightarrow> db_step db db'"
| step_session: "createTradingSession subject s db = Inr (r, db') \<Longrightarrow> db_step db db'"
| step_disable: "disableUserTradingSessions subject db = Inr (r, db') \<Longrightarrow> db_step db db'"
| step_session_state: "setTradingSessionState subject k st db = Inr (r, db') \<Longrightarrow> db_step db db'"
| step_challenge: "createChallenge c db = Inr (r, db') \<Longrightarrow> db_step db db'"
| step_bind: "bindAccount tracking k subject a now db = Inr (r, db') \<Longrightarrow> db_step db db'"

inductive db_reachable :: "stored_operation list \<Rightarrow> app_db \<Rightarrow> bool" for carry where
  db_start: "db_reachable carry (fresh_db carry)"
| db_next: "db_reachable carry db \<Longrightarrow> db_step db db' \<Longrightarrow> db_reachable carry db'"

section \<open>The invariant\<close>

fun deposit_of :: "business_intent \<Rightarrow> string option" where
  "deposit_of (DepositUsdc k _ _) = Some k"
| "deposit_of _ = None"

definition db_ops :: "app_db \<Rightarrow> operation list" where
  "db_ops db = map so_operation (db_operations db)"

definition ids_distinct :: "app_db \<Rightarrow> bool" where
  "ids_distinct db =
     (distinct (map op_id (db_ops db)) \<and> distinct (map (\<lambda>p. ts_id (snd p)) (db_sessions db)) \<and>
      distinct (map (\<lambda>e. dp_id (sd_deposit e)) (db_deposits db)))"

definition sessions_cover :: "operation list \<Rightarrow> (string \<times> trading_session) list \<Rightarrow> bool" where
  "sessions_cover ops ss =
     ((\<forall>x \<in> set ops. \<forall>k. op_sessionId x = Some k \<longrightarrow> k \<in> set (map (\<lambda>p. ts_id (snd p)) ss)) \<and>
      (\<forall>p \<in> set ss. session_spent (ts_id (snd p)) ops \<le> int (ts_total (snd p))))"

definition deposits_cover :: "operation list \<Rightarrow> stored_deposit list \<Rightarrow> bool" where
  "deposits_cover ops es =
     (\<forall>x \<in> set ops. \<forall>k. deposit_of (op_intent x) = Some k \<longrightarrow>
        (\<exists>e \<in> set es. dp_id (sd_deposit e) = k \<and> dp_operationId (sd_deposit e) = Some (op_id x)))"

definition db_ok :: "app_db \<Rightarrow> bool" where
  "db_ok db = (ids_distinct db \<and> sessions_cover (db_ops db) (db_sessions db) \<and> deposits_cover (db_ops db) (db_deposits db))"

lemma find_id:
  assumes "distinct (map f xs)" "x \<in> set xs"
  shows "List.find (\<lambda>y. f y = f x) xs = Some x"
  using assms by (induction xs) auto

lemma find_SomeD: "List.find P xs = Some x \<Longrightarrow> x \<in> set xs \<and> P x"
  by (induction xs) (auto split: if_splits)

lemma find_NoneD: "List.find P xs = None \<Longrightarrow> x \<in> set xs \<Longrightarrow> \<not> P x"
  by (induction xs) (auto split: if_splits)

section \<open>What a session has spent\<close>

lemma bidReserve_nonneg: "0 \<le> units \<Longrightarrow> 0 \<le> price \<Longrightarrow> 0 \<le> bidReserve units price"
  by (simp add: bidReserve_def bigint_div_nonneg pos_imp_zdiv_nonneg_iff)

lemma sessionSpend_nonneg: "0 \<le> sessionSpend i"
  by (cases i) (simp_all add: bidReserve_nonneg)

lemma session_spent_eq:
  "session_spent k ops = (\<Sum>x \<leftarrow> filter (charged_to k) ops. sessionSpend (op_intent x))"
  by (simp add: session_spent_def fold_sum)

lemma session_spent_append [simp]: "session_spent k (xs @ ys) = session_spent k xs + session_spent k ys"
  by (simp add: session_spent_eq)

lemma session_spent_one: "session_spent k [x] = (if charged_to k x then sessionSpend (op_intent x) else 0)"
  by (simp add: session_spent_eq)

lemma session_spent_none: "(\<And>x. x \<in> set ops \<Longrightarrow> op_sessionId x \<noteq> Some k) \<Longrightarrow> session_spent k ops = 0"
  by (induction ops) (auto simp: session_spent_eq charged_to_def)

lemma session_spent_own: "session_spent k (filter (\<lambda>x. op_sessionId x = Some k) ops) = session_spent k ops"
proof -
  have "filter (charged_to k) (filter (\<lambda>x. op_sessionId x = Some k) ops) = filter (charged_to k) ops"
    by (auto simp: charged_to_def intro!: filter_cong)
  then show ?thesis by (simp add: session_spent_eq)
qed

text \<open>Rows that are replaced by rows that charge no more.\<close>

lemma session_spent_map:
  assumes "\<And>x. x \<in> set ops \<Longrightarrow> charged_to k (f x) \<Longrightarrow> charged_to k x \<and> op_intent (f x) = op_intent x"
  shows "session_spent k (map f ops) \<le> session_spent k ops"
  using assms
proof (induction ops)
  case (Cons x xs)
  have "session_spent k (f x # map f xs) = session_spent k [f x] + session_spent k (map f xs)"
    "session_spent k (x # xs) = session_spent k [x] + session_spent k xs"
    by (simp_all flip: session_spent_append)
  then show ?case
    using Cons.IH Cons.prems [of x] Cons.prems sessionSpend_nonneg [of "op_intent x"] by (force simp: session_spent_one)
qed (simp add: session_spent_eq)

section \<open>Each transaction keeps it\<close>

lemma update_deposit_ops [simp]:
  "db_ops (update_deposit k f db) = db_ops db" "db_sessions (update_deposit k f db) = db_sessions db"
  by (simp_all add: update_deposit_def db_ops_def)

lemma update_deposit_ids:
  assumes "\<And>d. dp_id (f d) = dp_id d"
  shows "map (\<lambda>e. dp_id (sd_deposit e)) (db_deposits (update_deposit k f db)) = map (\<lambda>e. dp_id (sd_deposit e)) (db_deposits db)"
  using assms by (simp add: update_deposit_def)

lemma check_session_spend:
  assumes "check_session v db = Inr ()" "ids_distinct db" "sessions_cover (db_ops db) (db_sessions db)"
    and "(op_signingMode (so_operation v) = Some SessionSigned) = (op_sessionId (so_operation v) \<noteq> None)"
  shows "sessions_cover (db_ops db @ [so_operation v]) (db_sessions db)"
proof (cases "op_sessionId (so_operation v)")
  case None
  then have "session_spent k [so_operation v] = 0" for k by (simp add: session_spent_one charged_to_def)
  then show ?thesis using assms(3) None by (auto simp: sessions_cover_def)
next
  case (Some k)
  then have "assertTradingSessionQuota (sessionOperations k db) (session_of (so_subject v) k db) (so_operation v) = Inr ()"
    using assms(1,4) by (simp add: check_session_def Let_def)
  then obtain s where s: "session_of (so_subject v) k db = Some s"
    and spend: "session_spent (ts_id s) (sessionOperations k db) + sessionSpend (op_intent (so_operation v)) \<le> int (ts_total s)"
    by (auto simp: assertTradingSessionQuota_def require_def Let_def split: option.splits if_splits)
  from s obtain subj where p: "(subj, s) \<in> set (db_sessions db)" "ts_id s = k"
    by (auto simp: session_of_def dest!: find_SomeD)
  have own: "session_spent k (db_ops db) + sessionSpend (op_intent (so_operation v)) \<le> int (ts_total s)"
    using spend session_spent_own [of k "db_ops db"] by (simp add: p(2) sessionOperations_def db_ops_def)
  have "q = (subj, s)" if "q \<in> set (db_sessions db)" "ts_id (snd q) = k" for q
    using that p assms(2) by (simp add: ids_distinct_def distinct_map inj_on_def)
  then have "session_spent (ts_id (snd q)) (db_ops db @ [so_operation v]) \<le> int (ts_total (snd q))"
    if "q \<in> set (db_sessions db)" for q
  proof (cases "ts_id (snd q) = k")
    case True
    with \<open>\<And>q. q \<in> set (db_sessions db) \<Longrightarrow> ts_id (snd q) = k \<Longrightarrow> q = (subj, s)\<close> that have "q = (subj, s)" by blast
    then show ?thesis using own sessionSpend_nonneg [of "op_intent (so_operation v)"] p(2)
      by (simp add: session_spent_one)
  next
    case False
    then show ?thesis using that assms(3) Some by (auto simp: session_spent_one charged_to_def sessions_cover_def)
  qed
  then show ?thesis using assms(3) Some p by (force simp: sessions_cover_def)
qed

lemma check_deposit_open:
  assumes "check_deposit v db = Inr ()" "deposit_of (op_intent (so_operation v)) = Some k"
  shows "\<exists>e \<in> set (db_deposits db). dp_id (sd_deposit e) = k \<and> dp_operationId (sd_deposit e) = None"
proof (cases "op_intent (so_operation v)")
  case (DepositUsdc k' a g)
  then have k: "k' = k" using assms(2) by simp
  show ?thesis
  proof (cases "List.find (\<lambda>e. dp_id (sd_deposit e) = k) (db_deposits db)")
    case None
    then show ?thesis using assms(1) DepositUsdc k by (simp add: check_deposit_def assertDepositRegistration_def)
  next
    case (Some e)
    then have "dp_operationId (sd_deposit e) = None"
      using assms(1) DepositUsdc k
      by (auto simp: check_deposit_def assertDepositRegistration_def depositView_def Let_def split: if_splits)
    then show ?thesis using find_SomeD [OF Some] by blast
  qed
qed (use assms(2) in simp_all)

lemma deposits_coverD:
  "deposits_cover ops es \<Longrightarrow> x \<in> set ops \<Longrightarrow> deposit_of (op_intent x) = Some k \<Longrightarrow>
   \<exists>e \<in> set es. dp_id (sd_deposit e) = k \<and> dp_operationId (sd_deposit e) = Some (op_id x)"
  by (simp add: deposits_cover_def)

lemma sessions_cover_map:
  assumes "sessions_cover ops ss" "\<And>y. y \<in> set ops \<Longrightarrow> op_sessionId (f y) = op_sessionId y"
    and "\<And>j. session_spent j (map f ops) \<le> session_spent j ops"
  shows "sessions_cover (map f ops) ss"
proof -
  have "session_spent (ts_id (snd p)) (map f ops) \<le> int (ts_total (snd p))" if "p \<in> set ss" for p
    using that assms(1) order_trans [OF assms(3)] by (simp only: sessions_cover_def)
  then show ?thesis using assms(1,2) by (simp add: sessions_cover_def)
qed

lemma admit_ok:
  assumes ok: "db_ok db" and step: "admit v limits db = Inr (w, db')"
    and signed: "(op_signingMode (so_operation v) = Some SessionSigned) = (op_sessionId (so_operation v) \<noteq> None)"
  shows "db_ok db'"
proof (cases "byKey (so_subject v) (so_idempotencyKey v) db")
  case (Some prior)
  then show ?thesis using ok step by (auto simp: admit_def split: if_splits)
next
  case None
  define x where "x = so_operation v"
  let ?mid = "db\<lparr>db_operations := db_operations db @ [v]\<rparr>"
  have dep: "check_deposit v db = Inr ()" and ses: "check_session v db = Inr ()"
    and ins: "insert_operation v db = Inr ?mid" and db': "db' = register_deposit x ?mid"
    using admit_new [OF step None] by (metis x_def)+
  have ops: "db_ops db' = db_ops db @ [x]" and ss: "db_sessions db' = db_sessions db"
    by (simp_all add: db' db_ops_def x_def)
  have "op_of db (op_id x) = None" using ins by (simp add: insert_operation_def x_def split: if_splits)
  then have new: "op_id x \<notin> set (map op_id (db_ops db))"
    by (auto simp: op_of_def db_ops_def dest: find_NoneD)
  have ids: "map (\<lambda>e. dp_id (sd_deposit e)) (db_deposits db') = map (\<lambda>e. dp_id (sd_deposit e)) (db_deposits db)"
    by (simp add: db' register_deposit_def update_deposit_def split: business_intent.splits)
  have "sessions_cover (db_ops db') (db_sessions db')"
    unfolding ops ss x_def using ok by (intro check_session_spend ses signed) (simp_all add: db_ok_def)
  moreover have "ids_distinct db'"
    using ok new ids by (simp add: db_ok_def ids_distinct_def ops ss)
  moreover have "deposits_cover (db_ops db') (db_deposits db')"
  proof (cases "deposit_of (op_intent x)")
    case None
    then have "db_deposits db' = db_deposits db"
      by (cases "op_intent x") (simp_all add: db' register_deposit_def)
    then show ?thesis using ok None by (simp add: db_ok_def deposits_cover_def ops)
  next
    case (Some k)
    then obtain a g where i: "op_intent x = DepositUsdc k a g" by (cases "op_intent x") simp_all
    obtain e where e: "e \<in> set (db_deposits db)" "dp_id (sd_deposit e) = k" "dp_operationId (sd_deposit e) = None"
      using check_deposit_open [OF dep] Some by (auto simp: x_def)
    let ?f = "\<lambda>e. if dp_id (sd_deposit e) = k
      then e\<lparr>sd_deposit := (sd_deposit e)\<lparr>dp_operationId := Some (op_id x), dp_state := OfOperation AwaitingSignature,
        dp_updatedAt := op_updatedAt x\<rparr>\<rparr> else e"
    have es: "db_deposits db' = map ?f (db_deposits db)"
      by (simp add: db' register_deposit_def i update_deposit_def)
    have one: "e' = e" if "e' \<in> set (db_deposits db)" "dp_id (sd_deposit e') = k" for e'
      using that e ok by (simp add: db_ok_def ids_distinct_def distinct_map inj_on_def)
    have "\<exists>e' \<in> set (db_deposits db'). dp_id (sd_deposit e') = j \<and> dp_operationId (sd_deposit e') = Some (op_id y)"
      if y: "y \<in> set (db_ops db)" "deposit_of (op_intent y) = Some j" for y j
    proof -
      obtain e' where e': "e' \<in> set (db_deposits db)" "dp_id (sd_deposit e') = j" "dp_operationId (sd_deposit e') = Some (op_id y)"
        using deposits_coverD [OF _ y] ok by (auto simp: db_ok_def)
      then have "j \<noteq> k" using one e(3) by force
      then show ?thesis using e' by (auto simp: es intro!: bexI [of _ e'] image_eqI [of _ _ e'])
    qed
    moreover have "\<exists>e' \<in> set (db_deposits db'). dp_id (sd_deposit e') = k \<and> dp_operationId (sd_deposit e') = Some (op_id x)"
      using e by (auto simp: es intro!: bexI [of _ "?f e"])
    ultimately show ?thesis using Some by (auto simp: deposits_cover_def ops)
  qed
  ultimately show ?thesis by (simp add: db_ok_def)
qed

lemma patch_keeps [simp]:
  "op_id (applyOperationPatch old p) = op_id old" "op_intent (applyOperationPatch old p) = op_intent old"
  "op_sessionId (applyOperationPatch old p) = op_sessionId old"
  by (simp_all add: applyOperationPatch_def merge_patch_def Let_def)

lemma transition_ok:
  assumes ok: "db_ok db" and step: "transition k origin p db = Inr (r, db')" and origin: "Cancelled \<notin> set origin"
  shows "db_ok db'"
proof (cases "op_of db k")
  case None
  then show ?thesis using step by (simp add: transition_def)
next
  case (Some old)
  define x where "x = so_operation old"
  have x: "x \<in> set (db_ops db)" "op_id x = k"
    using Some by (auto simp: op_of_def db_ops_def x_def dest!: find_SomeD)
  show ?thesis
  proof (cases "op_state x \<in> set origin")
    case False
    then show ?thesis using ok step Some by (auto simp: transition_def x_def)
  next
    case True
    define f where "f = (\<lambda>y. if op_id y = k then applyOperationPatch x p else y)"
    have ops: "db_ops db' = map f (db_ops db)" and rest: "db_sessions db' = db_sessions db" "db_deposits db' = db_deposits db"
      using step Some True by (auto simp: transition_def db_ops_def x_def f_def Let_def)
    have only: "y = x" if "y \<in> set (db_ops db)" "op_id y = k" for y
      using that x ok by (simp add: db_ok_def ids_distinct_def distinct_map inj_on_def)
    have f: "op_id (f y) = op_id y" "op_intent (f y) = op_intent y" "op_sessionId (f y) = op_sessionId y"
      if "y \<in> set (db_ops db)" for y
      using only [OF that] by (simp_all add: f_def x(2))
    have "charged_to j y" if "y \<in> set (db_ops db)" "charged_to j (f y)" for y j
      using that only True origin by (auto simp: f_def charged_to_def split: if_splits)
    then have "session_spent j (map f (db_ops db)) \<le> session_spent j (db_ops db)" for j
      using f(2) by (intro session_spent_map) blast
    then have "sessions_cover (db_ops db') (db_sessions db')"
      using ok f(3) unfolding ops rest by (intro sessions_cover_map) (simp_all add: db_ok_def)
    moreover have "map op_id (map f (db_ops db)) = map op_id (db_ops db)" using f(1) by simp
    then have "ids_distinct db'" using ok by (simp only: db_ok_def ids_distinct_def ops rest)
    moreover have "deposits_cover (db_ops db') (db_deposits db')"
      using ok f by (simp add: ops rest db_ok_def deposits_cover_def)
    ultimately show ?thesis by (simp add: db_ok_def)
  qed
qed

lemma deposits_cover_more: "deposits_cover ops es \<Longrightarrow> set es \<subseteq> set es' \<Longrightarrow> deposits_cover ops es'"
  by (fastforce simp: deposits_cover_def)

lemma createDeposit_ok:
  assumes "db_ok db" "createDeposit v db = Inr (r, db')" "dp_operationId (sd_deposit v) = None"
  shows "db_ok db'"
proof (cases "db' = db")
  case False
  then have new: "db' = db\<lparr>db_deposits := db_deposits db @ [v]\<rparr>"
    "dp_id (sd_deposit v) \<notin> set (map (\<lambda>e. dp_id (sd_deposit e)) (db_deposits db))"
    using assms(2) by (auto simp: createDeposit_def insert_deposit_def Let_def list_ex_iff split: option.splits if_splits)
  then show ?thesis
    using assms(1) deposits_cover_more [of "db_ops db" "db_deposits db" "db_deposits db @ [v]"]
    by (auto simp: db_ok_def ids_distinct_def db_ops_def)
qed (use assms(1) in simp)

lemma cancelDeposit_ok:
  assumes "db_ok db" "cancelDeposit k subject now db = Inr (r, db')"
  shows "db_ok db'"
proof (cases "db' = db")
  case False
  then obtain row d where row: "row \<in> set (db_deposits db)" "dp_id (sd_deposit row) = k" "dp_operationId (sd_deposit row) = None"
    and db': "db' = update_deposit k (\<lambda>_. d) db" "dp_id d = k"
    using assms(2) by (auto simp: cancelDeposit_def depositView_def Let_def dest!: find_SomeD split: option.splits if_splits)
  have one: "e = row" if "e \<in> set (db_deposits db)" "dp_id (sd_deposit e) = k" for e
    using that row assms(1) by (simp add: db_ok_def ids_distinct_def distinct_map inj_on_def)
  have "map (\<lambda>e. dp_id (sd_deposit e)) (db_deposits db') = map (\<lambda>e. dp_id (sd_deposit e)) (db_deposits db)"
    using db'(2) by (simp add: db' update_deposit_def)
  moreover have "deposits_cover (db_ops db') (db_deposits db')"
    unfolding deposits_cover_def
  proof (intro ballI allI impI)
    fix x j
    assume "x \<in> set (db_ops db')" "deposit_of (op_intent x) = Some j"
    then obtain e where e: "e \<in> set (db_deposits db)" "dp_id (sd_deposit e) = j" "dp_operationId (sd_deposit e) = Some (op_id x)"
      using assms(1) by (auto simp: db' db_ok_def deposits_cover_def)
    then have "j \<noteq> k" using one row(3) by force
    then show "\<exists>e \<in> set (db_deposits db'). dp_id (sd_deposit e) = j \<and> dp_operationId (sd_deposit e) = Some (op_id x)"
      using e by (auto simp: db' update_deposit_def intro!: bexI [of _ e] image_eqI [of _ _ e])
  qed
  ultimately show ?thesis using assms(1) by (simp add: db_ok_def ids_distinct_def db'(1))
qed (use assms(1) in simp)

lemma createTradingSession_ok:
  assumes "db_ok db" "createTradingSession subject s db = Inr (r, db')"
  shows "db_ok db'"
proof -
  have db': "db' = db\<lparr>db_sessions := db_sessions db @ [(subject, s)]\<rparr>"
    and new: "ts_id s \<notin> set (map (\<lambda>p. ts_id (snd p)) (db_sessions db))"
    using assms(2) by (auto simp: createTradingSession_def list_ex_iff split: if_splits)
  have "op_sessionId x \<noteq> Some (ts_id s)" if "x \<in> set (db_ops db)" for x
    using that new assms(1) by (fastforce simp: db_ok_def sessions_cover_def)
  then have "session_spent (ts_id s) (db_ops db) = 0" by (rule session_spent_none)
  then show ?thesis
    using assms(1) new by (auto simp: db' db_ok_def ids_distinct_def sessions_cover_def db_ops_def)
qed

definition session_keys :: "(string \<times> trading_session) list \<Rightarrow> (string \<times> nat) list" where
  "session_keys ss = map (\<lambda>p. (ts_id (snd p), ts_total (snd p))) ss"

lemma sessions_cover_keys:
  "sessions_cover ops ss \<longleftrightarrow>
     (\<forall>x \<in> set ops. \<forall>k. op_sessionId x = Some k \<longrightarrow> k \<in> set (map fst (session_keys ss))) \<and>
     (\<forall>q \<in> set (session_keys ss). session_spent (fst q) ops \<le> int (snd q))"
  by (simp add: sessions_cover_def session_keys_def comp_def)

lemma update_sessions_ok:
  assumes "db_ok db"
  shows "db_ok (update_sessions sel st db)"
proof -
  let ?db = "update_sessions sel st db"
  have keys: "session_keys (db_sessions ?db) = session_keys (db_sessions db)"
    by (simp add: session_keys_def update_sessions_def)
  have "map (\<lambda>p. ts_id (snd p)) ss = map fst (session_keys ss)" for ss by (simp add: session_keys_def)
  moreover have "db_ops ?db = db_ops db" "db_deposits ?db = db_deposits db"
    by (simp_all add: update_sessions_def db_ops_def)
  ultimately show ?thesis
    using assms by (simp only: db_ok_def ids_distinct_def sessions_cover_keys keys) blast
qed

definition same_books :: "app_db \<Rightarrow> app_db \<Rightarrow> bool" where
  "same_books a b = (db_ops a = db_ops b \<and> db_sessions a = db_sessions b \<and> db_deposits a = db_deposits b)"

lemma same_books_ok: "same_books db' db \<Longrightarrow> db_ok db \<Longrightarrow> db_ok db'"
  by (simp add: same_books_def db_ok_def ids_distinct_def)

lemma insert_account_books: "insert_account a db = Inr db' \<Longrightarrow> same_books db' db"
  by (auto simp: insert_account_def same_books_def db_ops_def split: if_splits)

lemma bindAccount_books: "bindAccount tracking k subject a now db = Inr (r, db') \<Longrightarrow> same_books db' db"
proof -
  assume "bindAccount tracking k subject a now db = Inr (r, db')"
  then obtain db2 where "insert_account a (db\<lparr>db_challenges :=
      map (\<lambda>c. if challenge_matches k subject a now c then c\<lparr>cc_consumed := True\<rparr> else c) (db_challenges db)\<rparr>) = Inr db2"
    and "same_books db' db2"
    by (cases tracking)
       (auto simp: bindAccount_def Let_def same_books_def db_ops_def split: if_split_asm option.split_asm)
  then show ?thesis using insert_account_books [of a _ db2] by (auto simp: same_books_def db_ops_def)
qed

lemma db_step_ok: "db_step db db' \<Longrightarrow> db_ok db \<Longrightarrow> db_ok db'"
proof (induction rule: db_step.induct)
  case (step_disable subject db r db')
  then show ?case by (simp add: disableUserTradingSessions_def) (metis update_sessions_ok)
next
  case (step_session_state subject k st db r db')
  then show ?case
    by (auto simp: setTradingSessionState_def Let_def update_sessions_ok split: option.splits if_splits)
next
  case (step_challenge c db r db')
  then show ?case by (auto simp: createChallenge_def db_ok_def ids_distinct_def db_ops_def split: if_splits)
qed (rule admit_ok transition_ok createDeposit_ok cancelDeposit_ok createTradingSession_ok
    same_books_ok [OF bindAccount_books]; assumption)+

lemma db_reachable_ok: "db_reachable carry db \<Longrightarrow> db_ok db"
proof (induction rule: db_reachable.induct)
  case db_start
  then show ?case
    by (simp add: db_ok_def ids_distinct_def sessions_cover_def deposits_cover_def db_ops_def fresh_db_def)
qed (rule db_step_ok)

section \<open>Challenges\<close>

definition challenge_used :: "string \<Rightarrow> app_db \<Rightarrow> bool" where
  "challenge_used k db =
     (distinct (map cc_id (db_challenges db)) \<and> list_ex (\<lambda>c. cc_id c = k \<and> cc_consumed c) (db_challenges db))"

definition challenges_distinct :: "app_db \<Rightarrow> bool" where
  "challenges_distinct db = distinct (map cc_id (db_challenges db))"

lemma insert_account_challenges: "insert_account a db = Inr db' \<Longrightarrow> db_challenges db' = db_challenges db"
  by (auto simp: insert_account_def split: if_splits)

lemma bindAccount_challenges:
  assumes "bindAccount tracking k subject a now db = Inr (r, db')"
  shows "db_challenges db' = map (\<lambda>c. if challenge_matches k subject a now c then c\<lparr>cc_consumed := True\<rparr> else c) (db_challenges db)"
    and "length (filter (challenge_matches k subject a now) (db_challenges db)) = 1"
proof -
  obtain db2 where "insert_account a (db\<lparr>db_challenges :=
      map (\<lambda>c. if challenge_matches k subject a now c then c\<lparr>cc_consumed := True\<rparr> else c) (db_challenges db)\<rparr>) = Inr db2"
    and "db_challenges db' = db_challenges db2"
    and "length (filter (challenge_matches k subject a now) (db_challenges db)) = 1"
    using assms by (cases tracking) (auto simp: bindAccount_def Let_def split: if_split_asm option.split_asm)
  then show "db_challenges db' = map (\<lambda>c. if challenge_matches k subject a now c then c\<lparr>cc_consumed := True\<rparr> else c) (db_challenges db)"
    and "length (filter (challenge_matches k subject a now) (db_challenges db)) = 1"
    using insert_account_challenges by fastforce+
qed

lemma db_step_challenges:
  assumes "db_step db db'"
  shows "db_challenges db' = db_challenges db \<or>
    (\<exists>c. cc_id c \<notin> set (map cc_id (db_challenges db)) \<and> db_challenges db' = db_challenges db @ [c]) \<or>
    (\<exists>M. db_challenges db' = map (\<lambda>c. if M c then c\<lparr>cc_consumed := True\<rparr> else c) (db_challenges db))"
  using assms
proof (induction rule: db_step.induct)
  case (step_admit v limits db w db')
  show ?case
  proof (cases "byKey (so_subject v) (so_idempotencyKey v) db")
    case None
    have "db' = register_deposit (so_operation v) (db\<lparr>db_operations := db_operations db @ [v]\<rparr>)"
      using admit_new [OF step_admit(1) None] by metis
    then show ?thesis by (simp add: register_deposit_def update_deposit_def split: business_intent.splits)
  qed (use step_admit in \<open>auto simp: admit_def split: if_splits\<close>)
next
  case (step_bind tracking k subject a now db r db')
  then show ?case using bindAccount_challenges(1) by blast
next
  case (step_challenge c db r db')
  then have "cc_id c \<notin> set (map cc_id (db_challenges db))"
    and "db_challenges db' = db_challenges db @ [c\<lparr>cc_consumed := False\<rparr>]"
    by (auto simp: createChallenge_def list_ex_iff split: if_splits)
  then show ?case by (intro disjI2 disjI1 exI [of _ "c\<lparr>cc_consumed := False\<rparr>"]) simp
qed (auto simp: transition_def createDeposit_def insert_deposit_def cancelDeposit_def createTradingSession_def
      disableUserTradingSessions_def setTradingSessionState_def update_deposit_def update_sessions_def Let_def
      split: option.splits if_splits)

lemma consumed_map:
  "list_ex (\<lambda>c. cc_id c = k \<and> (cc_consumed c \<or> M c)) cs \<Longrightarrow>
   list_ex (\<lambda>c. cc_id c = k \<and> cc_consumed c) (map (\<lambda>c. if M c then c\<lparr>cc_consumed := True\<rparr> else c) cs)"
  by (induction cs) auto

lemma consumed_ids: "map cc_id (map (\<lambda>c. if M c then c\<lparr>cc_consumed := True\<rparr> else c) cs) = map cc_id cs"
  by simp

lemma db_step_used:
  assumes "db_step db db'"
  shows "challenges_distinct db \<Longrightarrow> challenges_distinct db'" "challenge_used k db \<Longrightarrow> challenge_used k db'"
proof -
  from db_step_challenges [OF assms] consider
      (same) "db_challenges db' = db_challenges db"
    | (new) c where "cc_id c \<notin> set (map cc_id (db_challenges db))" "db_challenges db' = db_challenges db @ [c]"
    | (used) M where "db_challenges db' = map (\<lambda>c. if M c then c\<lparr>cc_consumed := True\<rparr> else c) (db_challenges db)"
    by blast
  then have "(challenges_distinct db \<longrightarrow> challenges_distinct db') \<and> (challenge_used k db \<longrightarrow> challenge_used k db')"
  proof cases
    case (used M)
    have "list_ex (\<lambda>c. cc_id c = k \<and> cc_consumed c) (db_challenges db) \<Longrightarrow>
        list_ex (\<lambda>c. cc_id c = k \<and> (cc_consumed c \<or> M c)) (db_challenges db)"
      by (auto simp: list_ex_iff)
    then show ?thesis
      using consumed_map [of k M "db_challenges db"]
      unfolding challenges_distinct_def challenge_used_def used consumed_ids by blast
  qed (auto simp: challenges_distinct_def challenge_used_def)
  then show "challenges_distinct db \<Longrightarrow> challenges_distinct db'" "challenge_used k db \<Longrightarrow> challenge_used k db'"
    by blast+
qed

lemma db_reachable_challenges: "db_reachable carry db \<Longrightarrow> challenges_distinct db"
  by (induction rule: db_reachable.induct) (simp add: challenges_distinct_def fresh_db_def, rule db_step_used(1))

lemma bindAccount_uses:
  assumes "bindAccount tracking k subject a now db = Inr (r, db')" "challenges_distinct db"
  shows "challenge_used k db'"
proof -
  note b = bindAccount_challenges [OF assms(1)]
  obtain c where c: "c \<in> set (db_challenges db)" "challenge_matches k subject a now c"
  proof -
    have "filter (challenge_matches k subject a now) (db_challenges db) \<noteq> []" using b(2) by (metis list.size(3) zero_neq_one)
    then show ?thesis using that by (auto simp: filter_empty_conv)
  qed
  then have "list_ex (\<lambda>c. cc_id c = k \<and> (cc_consumed c \<or> challenge_matches k subject a now c)) (db_challenges db)"
    by (auto simp: list_ex_iff challenge_matches_def)
  then show ?thesis
    using consumed_map assms(2) unfolding challenge_used_def challenges_distinct_def b(1) consumed_ids by blast
qed

lemma used_challenge_refused:
  assumes "challenge_used k db"
  shows "bindAccount tracking k subject a now db = Inl (AppError ''challenge_unavailable'' 409)"
proof -
  obtain c where c: "c \<in> set (db_challenges db)" "cc_id c = k" "cc_consumed c" and d: "distinct (map cc_id (db_challenges db))"
    using assms by (auto simp: challenge_used_def list_ex_iff)
  have "\<not> challenge_matches k subject a now e" if "e \<in> set (db_challenges db)" for e
    using that c d by (auto simp: challenge_matches_def distinct_map inj_on_def)
  then have "filter (challenge_matches k subject a now) (db_challenges db) = []" by (simp add: filter_empty_conv)
  then show ?thesis by (simp add: bindAccount_def)
qed

lemma app_reachable: "db_reachable [] app_db1" "db_reachable [] app_db3" "db_reachable [] app_db5"
proof -
  have 1: "db_reachable [] app_db1"
    by (rule db_next [OF db_next [OF db_start step_challenge [OF app_runs(1)]] step_bind [OF app_runs(2)]])
  have 2: "db_reachable [] app_db2" by (rule db_next [OF 1 step_session [OF app_runs(3)]])
  have 3: "db_reachable [] app_db3"
    by (rule db_next [OF 2 step_admit [OF app_runs(4)]]) code_simp
  have 4: "db_reachable [] app_db4"
    by (rule db_next [OF 3 step_deposit [OF app_runs(5)]]) code_simp
  have 5: "db_reachable [] app_db5"
    by (rule db_next [OF 4 step_admit [OF app_runs(6)]]) code_simp
  from 1 3 5 show "db_reachable [] app_db1" "db_reachable [] app_db3" "db_reachable [] app_db5" .
qed

section \<open>Properties\<close>

text \<open>
  C7. Whatever transactions run, and in which order, the operations charged to a trading session together
  never spend more than its total.
\<close>

theorem session_never_overspent:
  assumes "db_reachable carry db"
  shows "list_all (\<lambda>(subject, s). session_spent (ts_id s) (map so_operation (db_operations db)) \<le> int (ts_total s))
    (db_sessions db)"
  using db_reachable_ok [OF assms] by (auto simp: db_ok_def sessions_cover_def list_all_iff db_ops_def)

theorem session_never_overspent_witness:
  "list_all (\<lambda>(subject, s). session_spent (ts_id s) (map so_operation (db_operations app_db3)) \<le> int (ts_total s))
     (db_sessions app_db3)"
  by (rule session_never_overspent [OF app_reachable(2)])

text \<open>
  C19. A deposit is registered once: of two stored operations for the same deposit both are the same, and the
  deposit's row names it.
\<close>

theorem deposit_registered_once:
  assumes "db_reachable carry db" "x \<in> set (db_ops db)" "y \<in> set (db_ops db)"
    and "deposit_of (op_intent x) = Some k" "deposit_of (op_intent y) = Some k"
  shows "x = y \<and> list_ex (\<lambda>e. dp_id (sd_deposit e) = k \<and> dp_operationId (sd_deposit e) = Some (op_id x)) (db_deposits db)"
proof -
  have ok: "ids_distinct db" "deposits_cover (db_ops db) (db_deposits db)"
    using db_reachable_ok [OF assms(1)] by (simp_all add: db_ok_def)
  obtain e where e: "e \<in> set (db_deposits db)" "dp_id (sd_deposit e) = k" "dp_operationId (sd_deposit e) = Some (op_id x)"
    using deposits_coverD [OF ok(2) assms(2,4)] by blast
  obtain f where f: "f \<in> set (db_deposits db)" "dp_id (sd_deposit f) = k" "dp_operationId (sd_deposit f) = Some (op_id y)"
    using deposits_coverD [OF ok(2) assms(3,5)] by blast
  have "e = f" using e f ok(1) by (simp add: ids_distinct_def distinct_map inj_on_def)
  then have "op_id x = op_id y" using e f by simp
  then have "x = y" using assms(2,3) ok(1) by (simp add: ids_distinct_def distinct_map inj_on_def)
  then show ?thesis using e by (auto simp: list_ex_iff)
qed

theorem deposit_registered_once_witness:
  "list_ex (\<lambda>e. dp_id (sd_deposit e) = ''d1'' \<and>
     dp_operationId (sd_deposit e) = Some (op_id (so_operation app_deposit_operation))) (db_deposits app_db5)"
proof -
  have x: "so_operation app_deposit_operation \<in> set (db_ops app_db5)"
    using app_facts(6) by (simp add: db_ops_def)
  have k: "deposit_of (op_intent (so_operation app_deposit_operation)) = Some ''d1''"
    by (simp add: app_deposit_operation_def app_stored_def app_operation_def)
  show ?thesis using deposit_registered_once [OF app_reachable(3) x x k k] by simp
qed

text \<open>
  C25. A proof of control binds one account: after a challenge was used, every later attempt to use it, by
  whomever and after any further transactions, is refused.
\<close>

theorem challenge_used_once:
  assumes "db_reachable carry db" "bindAccount tracking k subject a now db = Inr (r, db')"
    and "db_step\<^sup>*\<^sup>* db' db''"
  shows "bindAccount tracking2 k subject2 b later db'' = Inl (AppError ''challenge_unavailable'' 409)"
proof -
  have "challenge_used k db'" by (rule bindAccount_uses [OF assms(2) db_reachable_challenges [OF assms(1)]])
  with assms(3) have "challenge_used k db''"
    by (induction rule: rtranclp_induct) (auto intro: db_step_used(2))
  then show ?thesis by (rule used_challenge_refused)
qed

theorem challenge_used_once_witness:
  "bindAccount True ''c1'' ''s'' app_account1 60000 app_db2 = Inl (AppError ''challenge_unavailable'' 409)"
proof (rule challenge_used_once)
  show "db_reachable [] app_db0" by (rule db_next [OF db_start step_challenge [OF app_runs(1)]])
  show "bindAccount True ''c1'' ''s'' app_account1 50000 app_db0 = Inr (app_account1, app_db1)" by (rule app_runs)
  show "db_step\<^sup>*\<^sup>* app_db1 app_db2" by (rule r_into_rtranclp) (rule step_session [OF app_runs(3)])
qed

end
