(* ===== verification/Reconciliation.thy ===== *)
theory Reconciliation
  imports Ledger
begin

text \<open>
  offchain/indexer/src/reconciliation.ts: the balances, supplies and liabilities that the ledger's facts
  imply, to be compared with the contracts at the snapshot's block.

  A key of the table of values is the list of its parts; the source joins them with colons, which no part
  contains. Reading the chain is the parameter of \<open>check_result\<close>. An outcome id of a fact is a natural
  number (the schema admits canonical decimals only).
\<close>

section \<open>Values\<close>

datatype recon_arg = ArgAddress string | ArgBig int

fun arg_text :: "recon_arg \<Rightarrow> string" where
  "arg_text (ArgAddress a) = a"
| "arg_text (ArgBig n) = dec n"

record recon_entry =
  rv_contract :: string
  rv_signature :: string
  rv_args :: "recon_arg list"
  rv_value :: int

definition entry_key :: "string \<Rightarrow> string \<Rightarrow> recon_arg list \<Rightarrow> string list" where
  "entry_key contract signature args = toLowerCase contract # signature # map arg_text args"

type_synonym recon_values = "(string list, recon_entry) jsmap"

definition recon_add :: "string \<Rightarrow> string \<Rightarrow> recon_arg list \<Rightarrow> int \<Rightarrow> bool \<Rightarrow> recon_values \<Rightarrow> recon_values" where
  "recon_add contract signature args delta replace vs =
     (let k = entry_key contract signature args;
          old = (case map_get vs k of None \<Rightarrow> 0 | Some e \<Rightarrow> rv_value e)
      in map_set k \<lparr>rv_contract = contract, rv_signature = signature, rv_args = args,
                    rv_value = (if replace then 0 else old) + delta\<rparr> vs)"

definition recon_get :: "string \<Rightarrow> string \<Rightarrow> recon_values \<Rightarrow> int" where
  "recon_get contract signature vs =
     (case map_get vs (entry_key contract signature []) of None \<Rightarrow> 0 | Some e \<Rightarrow> rv_value e)"

definition scalar_sig :: "string \<Rightarrow> string" where
  "scalar_sig name = ''function '' @ name @ ''() view returns(uint256)''"

definition SHARE_SIG :: string where
  "SHARE_SIG = ''function balanceOf(address,uint256) view returns(uint256)''"

definition SUPPLY_SIG :: string where
  "SUPPLY_SIG = ''function totalSupply(uint256) view returns(uint256)''"

definition CREDIT_SIG :: string where
  "CREDIT_SIG = ''function creditOf(address) view returns(uint256)''"

definition PAYMENT_SIG :: string where
  "PAYMENT_SIG = ''function balanceOf(address) view returns(uint256)''"

definition EARLY_SIG :: string where
  "EARLY_SIG = ''function earlyBirdScore(address) view returns(uint256)''"

definition TIMEOUT_SIG :: string where
  "TIMEOUT_SIG = ''function timeoutBonusUnits(address) view returns(uint256)''"

definition PRINCIPAL_SIG :: string where
  "PRINCIPAL_SIG = ''function principalByOutcome(uint256) view returns(uint256)''"

definition recon_scalar :: "string \<Rightarrow> string \<Rightarrow> int \<Rightarrow> bool \<Rightarrow> recon_values \<Rightarrow> recon_values" where
  "recon_scalar m name delta replace = recon_add m (scalar_sig name) [] delta replace"

definition recon_shares :: "string \<Rightarrow> string option \<Rightarrow> int \<Rightarrow> int \<Rightarrow> recon_values \<Rightarrow> recon_values" where
  "recon_shares m who out delta vs =
     (case who of None \<Rightarrow> vs | Some a \<Rightarrow> recon_add m SHARE_SIG [ArgAddress a, ArgBig out] delta False vs)"

definition recon_supply :: "string \<Rightarrow> int \<Rightarrow> int \<Rightarrow> recon_values \<Rightarrow> recon_values" where
  "recon_supply m out delta = recon_add m SUPPLY_SIG [ArgBig out] delta False"

definition recon_early :: "string \<Rightarrow> string \<Rightarrow> int \<Rightarrow> bool \<Rightarrow> recon_values \<Rightarrow> recon_values" where
  "recon_early m a delta replace = recon_add m EARLY_SIG [ArgAddress a] delta replace"

definition recon_credit :: "string \<Rightarrow> string \<Rightarrow> int \<Rightarrow> recon_values \<Rightarrow> recon_values" where
  "recon_credit c a delta vs =
     recon_scalar c ''totalCredits'' delta False (recon_add c CREDIT_SIG [ArgAddress a] delta False vs)"

section \<open>One fact\<close>

record recon_env =
  rn_paymentToken :: string
  rn_marketplace :: string
  rn_feeVault :: string
  rn_bondEscrow :: string

record recon_bond =
  rb_creator :: string
  rb_amount :: int
  rb_settled :: bool

record recon_state =
  rs_values :: recon_values
  rs_bonds :: "(string, recon_bond) jsmap"
  rs_markets :: "string list"

definition fact_number :: "ledger_fact \<Rightarrow> string \<Rightarrow> int outcome" where
  "fact_number f name =
     (case extra_get f name of
        Some (JStr s) \<Rightarrow>
          (case parse_dec s of Some n \<Rightarrow> Inr (int n) | None \<Rightarrow> Inl (AppError ''reconciliation_fact_incomplete'' 409))
      | _ \<Rightarrow> Inl (AppError ''reconciliation_fact_incomplete'' 409))"

text \<open>
  \<open>Number(extra.outcomeCount)\<close> where it is an integer: a number, or text BigInt reads (integer text in
  decimal with a fraction or an exponent is read as not a number here).
\<close>

definition integer_of_extra :: "json option \<Rightarrow> int option" where
  "integer_of_extra v =
     (case v of
        Some (JNum r) \<Rightarrow> if snd (quotient_of r) = 1 then Some \<lfloor>r\<rfloor> else None
      | Some (JStr s) \<Rightarrow> bigint_of_string s
      | Some JNull \<Rightarrow> Some 0
      | Some (JBool b) \<Rightarrow> Some (if b then 1 else 0)
      | _ \<Rightarrow> None)"

definition initial_scalars :: "string list" where
  "initial_scalars = [''totalPrincipal'', ''remainingWinnerPool'', ''remainingEarlyBirdPool'',
     ''remainingEarlyBirdScore'', ''remainingRefundPrincipal'', ''remainingTimeoutBonusPool'',
     ''remainingTimeoutBonusUnits'']"

definition recon_initialized :: "ledger_fact \<Rightarrow> string \<Rightarrow> recon_values \<Rightarrow> recon_values outcome" where
  "recon_initialized f m vs =
     (let vs1 = recon_scalar m ''marketState'' 0 False (fold (\<lambda>n. recon_scalar m n 0 False) initial_scalars vs) in
      case integer_of_extra (extra_get f ''outcomeCount'') of
        Some n \<Rightarrow>
          if n < 2 \<or> 32 < n then Inl (AppError ''reconciliation_fact_incomplete'' 400)
          else Inr (fold (\<lambda>i. recon_supply m (int i) 0) [0..<nat n] vs1)
      | None \<Rightarrow> Inl (AppError ''reconciliation_fact_incomplete'' 400))"

definition recon_buy :: "ledger_fact \<Rightarrow> string \<Rightarrow> string \<Rightarrow> int \<Rightarrow> int \<Rightarrow> int \<Rightarrow> recon_values \<Rightarrow> recon_values outcome" where
  "recon_buy f m a out u amount vs =
     (let vs1 = recon_add m PRINCIPAL_SIG [ArgBig out] amount False
          (recon_scalar m ''totalPrincipal'' amount False (recon_supply m out u (recon_shares m (Some a) out u vs)))
      in outcome_map (\<lambda>score. recon_scalar m ''totalEarlyBirdScore'' score False (recon_early m a score False vs1))
           (fact_number f ''score''))"

definition recon_transfer :: "string \<Rightarrow> string option \<Rightarrow> string option \<Rightarrow> int \<Rightarrow> int \<Rightarrow> recon_values \<Rightarrow> recon_values" where
  "recon_transfer m src dst out u vs =
     (let vs1 = recon_shares m dst out u (recon_shares m src out (- u) vs);
          vs2 = (if src = None then recon_supply m out u vs1 else vs1)
      in if dst = None then recon_supply m out (- u) vs2 else vs2)"

definition digits_field :: "string \<Rightarrow> json \<Rightarrow> int outcome" where
  "digits_field k j =
     (case j of
        JObj fs \<Rightarrow>
          (case map_of fs k of
             Some (JStr s) \<Rightarrow> (case parse_dec s of Some n \<Rightarrow> Inr (int n) | None \<Rightarrow> Inl (ZodError ''consumed''))
           | _ \<Rightarrow> Inl (ZodError ''consumed''))
      | _ \<Rightarrow> Inl (ZodError ''consumed''))"

definition consumed_of :: "json option \<Rightarrow> (int \<times> int) list outcome" where
  "consumed_of v =
     (case v of
        Some (JArr ps) \<Rightarrow>
          traverse (\<lambda>p. outcome_bind (digits_field ''outcomeId'' p) (\<lambda>i. outcome_map (Pair i) (digits_field ''units'' p))) ps
      | _ \<Rightarrow> Inl (ZodError ''consumed''))"

abbreviation consumed_units :: "ledger_fact \<Rightarrow> (int \<times> int) list outcome" where
  "consumed_units f \<equiv> consumed_of (extra_get f ''consumed'')"

definition recon_consumed :: "ledger_fact \<Rightarrow> string \<Rightarrow> string \<Rightarrow> int \<Rightarrow> int \<Rightarrow> recon_values \<Rightarrow> recon_values outcome" where
  "recon_consumed f m a u amount vs =
     outcome_map (\<lambda>parts.
         let vs1 = fold (\<lambda>(i, n) vs. recon_supply m i (- n) (recon_shares m (Some a) i (- n) vs)) parts vs in
         if lf_kind f = FK_winner_claimed then recon_scalar m ''remainingWinnerPool'' (- amount) False vs1
         else if lf_kind f = FK_refunded
         then let vs2 = recon_scalar m ''remainingRefundPrincipal'' (- amount) False vs1 in
              if extra_get f ''timeoutEligibilityRecorded'' = Some (JBool True)
              then recon_add m TIMEOUT_SIG [ArgAddress a] u False vs2 else vs2
         else vs1)
       (consumed_units f)"

definition recon_resolved :: "ledger_fact \<Rightarrow> string \<Rightarrow> recon_values \<Rightarrow> recon_values outcome" where
  "recon_resolved f m vs =
     outcome_bind (fact_number f ''winnerPool'') (\<lambda>w.
     outcome_map (\<lambda>e.
         let vs1 = recon_scalar m ''remainingEarlyBirdPool'' e True
               (recon_scalar m ''remainingWinnerPool'' w True (recon_scalar m ''marketState'' 1 True vs))
         in recon_scalar m ''remainingEarlyBirdScore'' (recon_get m (scalar_sig ''totalEarlyBirdScore'') vs1) True vs1)
       (fact_number f ''earlyBirdPool''))"

definition with_values :: "recon_state \<Rightarrow> recon_values outcome \<Rightarrow> recon_state outcome" where
  "with_values s = outcome_map (\<lambda>vs. s\<lparr>rs_values := vs\<rparr>)"

text \<open>The bond's record is settled before its credit, as in the source.\<close>

definition settle_recon_bond :: "recon_env \<Rightarrow> ledger_fact \<Rightarrow> string \<Rightarrow> int \<Rightarrow> recon_state \<Rightarrow> recon_state outcome" where
  "settle_recon_bond env f m amount s =
     (case map_get (rs_bonds s) (toLowerCase m) of
        None \<Rightarrow> Inl (AppError ''reconciliation_bond_history_missing'' 409)
      | Some b \<Rightarrow>
          if rb_settled b then Inl (AppError ''reconciliation_bond_history_missing'' 409)
          else
            let vs = recon_scalar (rn_bondEscrow env) ''totalLocked'' (- rb_amount b) False (rs_values s) in
            Inr (s\<lparr>rs_bonds := map_set (toLowerCase m) (b\<lparr>rb_settled := True\<rparr>) (rs_bonds s),
                   rs_values := (if lf_kind f = FK_bond_credited
                                 then recon_credit (rn_bondEscrow env) (rb_creator b) amount vs else vs)\<rparr>))"

definition recon_payment :: "recon_env \<Rightarrow> string list \<Rightarrow> string option \<Rightarrow> int \<Rightarrow> recon_values \<Rightarrow> recon_values" where
  "recon_payment env tracked who delta vs =
     (case who of
        None \<Rightarrow> vs
      | Some a \<Rightarrow>
          if toLowerCase a \<in> set tracked
          then recon_add (rn_paymentToken env) PAYMENT_SIG [ArgAddress a] delta False vs else vs)"

text \<open>Facts of a market; \<open>m\<close>, \<open>who\<close> and \<open>out\<close> are its market, owner and outcome.\<close>

definition market_values ::
  "recon_env \<Rightarrow> ledger_fact \<Rightarrow> string \<Rightarrow> string option \<Rightarrow> int option \<Rightarrow> int \<Rightarrow> int \<Rightarrow> recon_values \<Rightarrow> recon_values outcome" where
  "market_values env f m who out u amount vs =
     (case (lf_kind f, who, out) of
        (FK_market_initialized, _, _) \<Rightarrow> recon_initialized f m vs
      | (FK_primary_buy, Some a, Some i) \<Rightarrow> recon_buy f m a i u amount vs
      | (FK_share_transfer, _, Some i) \<Rightarrow> Inr (recon_transfer m who (lf_counterparty f) i u vs)
      | (FK_listing_created, Some a, Some i) \<Rightarrow>
          Inr (recon_shares m (Some (rn_marketplace env)) i u (recon_shares m (Some a) i (- u) vs))
      | (FK_listing_filled, Some a, Some i) \<Rightarrow>
          Inr (recon_shares m (Some a) i u
            (recon_shares m (if extra_get f ''escrowed'' = Some (JBool False) then lf_counterparty f
                             else Some (rn_marketplace env)) i (- u) vs))
      | (FK_listing_cancelled, Some a, Some i) \<Rightarrow>
          Inr (recon_shares m (Some a) i u (recon_shares m (Some (rn_marketplace env)) i (- u) vs))
      | (FK_listing_returned, Some a, Some i) \<Rightarrow>
          Inr (recon_shares m (Some a) i u (recon_shares m (Some (rn_marketplace env)) i (- u) vs))
      | (FK_winner_claimed, Some a, _) \<Rightarrow> recon_consumed f m a u amount vs
      | (FK_refunded, Some a, _) \<Rightarrow> recon_consumed f m a u amount vs
      | (FK_losing_burned, Some a, _) \<Rightarrow> recon_consumed f m a u amount vs
      | (FK_market_resolved, _, _) \<Rightarrow> recon_resolved f m vs
      | (FK_market_voided, _, _) \<Rightarrow>
          outcome_map (\<lambda>p. recon_scalar m ''remainingRefundPrincipal'' p True (recon_scalar m ''marketState'' 2 True vs))
            (fact_number f ''refundPrincipal'')
      | (FK_early_bird_claimed, Some a, _) \<Rightarrow>
          outcome_map (\<lambda>score. recon_scalar m ''remainingEarlyBirdScore'' (- score) False
              (recon_scalar m ''remainingEarlyBirdPool'' (- amount) False (recon_early m a 0 True vs)))
            (fact_number f ''score'')
      | (FK_timeout_funded, _, _) \<Rightarrow>
          outcome_map (\<lambda>n. recon_scalar m ''remainingTimeoutBonusUnits'' n True
              (recon_scalar m ''remainingTimeoutBonusPool'' amount True vs))
            (fact_number f ''eligibleUnits'')
      | (FK_timeout_claimed, Some a, _) \<Rightarrow>
          Inr (recon_add m TIMEOUT_SIG [ArgAddress a] 0 True
            (recon_scalar m ''remainingTimeoutBonusUnits'' (- u) False
              (recon_scalar m ''remainingTimeoutBonusPool'' (- amount) False vs)))
      | _ \<Rightarrow> Inr vs)"

definition recon_step :: "recon_env \<Rightarrow> string list \<Rightarrow> ledger_fact \<Rightarrow> recon_state \<Rightarrow> recon_state outcome" where
  "recon_step env tracked f s =
     (if lf_kind f = FK_coverage_gap then Inl (AppError ''reconciliation_coverage_gap'' 409)
      else
        let u = (case lf_units f of None \<Rightarrow> 0 | Some n \<Rightarrow> int n);
            amount = (case lf_amount f of None \<Rightarrow> 0 | Some n \<Rightarrow> int n);
            s1 = (case lf_market f of None \<Rightarrow> s | Some m \<Rightarrow> s\<lparr>rs_markets := set_add m (rs_markets s)\<rparr>)
        in outcome_bind
             (case lf_market f of
                None \<Rightarrow> Inr s1
              | Some m \<Rightarrow> with_values s1 (market_values env f m (lf_owner f) (map_option int (lf_outcomeId f)) u amount (rs_values s1)))
             (\<lambda>s2.
               case (lf_kind f, lf_market f, lf_owner f) of
                 (FK_fee_accrued, _, Some a) \<Rightarrow> with_values s2 (Inr (recon_credit (rn_feeVault env) a amount (rs_values s2)))
               | (FK_fee_claimed, _, Some a) \<Rightarrow> with_values s2 (Inr (recon_credit (rn_feeVault env) a (- amount) (rs_values s2)))
               | (FK_bond_locked, Some m, Some a) \<Rightarrow>
                   Inr (s2\<lparr>rs_bonds := map_set (toLowerCase m) \<lparr>rb_creator = a, rb_amount = amount, rb_settled = False\<rparr> (rs_bonds s2),
                           rs_values := recon_scalar (rn_bondEscrow env) ''totalLocked'' amount False (rs_values s2)\<rparr>)
               | (FK_bond_credited, Some m, _) \<Rightarrow> settle_recon_bond env f m amount s2
               | (FK_bond_timeout_funded, Some m, _) \<Rightarrow> settle_recon_bond env f m amount s2
               | (FK_bond_claimed, _, Some a) \<Rightarrow> with_values s2 (Inr (recon_credit (rn_bondEscrow env) a (- amount) (rs_values s2)))
               | (FK_payment_transfer, _, _) \<Rightarrow>
                   with_values s2 (Inr (recon_payment env tracked (lf_counterparty f) amount
                     (recon_payment env tracked (lf_owner f) (- amount) (rs_values s2))))
               | _ \<Rightarrow> Inr s2))"

section \<open>The checks\<close>

datatype comparison = ExactlyEqual | AtLeast

record recon_check =
  rk_contract :: string
  rk_signature :: string
  rk_args :: "recon_arg list"
  rk_expected :: int
  rk_comparison :: comparison

definition opening_values :: "recon_env \<Rightarrow> string list \<Rightarrow> (string, int) jsmap \<Rightarrow> recon_values" where
  "opening_values env accounts opening =
     (let vs1 = fold (\<lambda>a. recon_add (rn_paymentToken env) PAYMENT_SIG [ArgAddress a]
            (case map_get opening (toLowerCase a) of None \<Rightarrow> 0 | Some n \<Rightarrow> n) False) accounts [];
          vs2 = fold (\<lambda>c. recon_scalar c ''totalCredits'' 0 False) [rn_feeVault env, rn_bondEscrow env] vs1
      in recon_scalar (rn_bondEscrow env) ''totalLocked'' 0 False vs2)"

fun recon_loop :: "recon_env \<Rightarrow> string list \<Rightarrow> ledger_fact list \<Rightarrow> recon_state \<Rightarrow> recon_state outcome" where
  "recon_loop env tracked [] s = Inr s"
| "recon_loop env tracked (f # fs) s = outcome_bind (recon_step env tracked f s) (recon_loop env tracked fs)"

definition market_liability :: "recon_values \<Rightarrow> string \<Rightarrow> int" where
  "market_liability vs m =
     (let get = (\<lambda>name. recon_get m (scalar_sig name) vs); state = get ''marketState'' in
      if state = 0 then get ''totalPrincipal''
      else if state = 1 then get ''remainingWinnerPool'' + get ''remainingEarlyBirdPool''
      else get ''remainingRefundPrincipal'' + get ''remainingTimeoutBonusPool'')"

definition at_least :: "recon_env \<Rightarrow> string \<Rightarrow> int \<Rightarrow> recon_check" where
  "at_least env holder n = \<lparr>rk_contract = rn_paymentToken env, rk_signature = PAYMENT_SIG,
     rk_args = [ArgAddress holder], rk_expected = n, rk_comparison = AtLeast\<rparr>"

definition entry_check :: "recon_entry \<Rightarrow> recon_check" where
  "entry_check e = \<lparr>rk_contract = rv_contract e, rk_signature = rv_signature e, rk_args = rv_args e,
     rk_expected = rv_value e, rk_comparison = ExactlyEqual\<rparr>"

definition recon_checks :: "recon_env \<Rightarrow> recon_state \<Rightarrow> recon_check list" where
  "recon_checks env s =
     (let vs = rs_values s in
      map entry_check (map_values vs) @ map (\<lambda>m. at_least env m (market_liability vs m)) (rs_markets s) @
      map (\<lambda>c. at_least env c (recon_get c (scalar_sig ''totalCredits'') vs + recon_get c (scalar_sig ''totalLocked'') vs))
        [rn_feeVault env, rn_bondEscrow env])"

definition reconciliationChecks ::
  "recon_env \<Rightarrow> ledger_fact list \<Rightarrow> string list \<Rightarrow> (string, int) jsmap \<Rightarrow> recon_check list outcome" where
  "reconciliationChecks env facts accounts opening =
     outcome_bind (recon_loop env (map toLowerCase accounts) (js_sort financialOrder facts)
         \<lparr>rs_values = opening_values env accounts opening, rs_bonds = [], rs_markets = []\<rparr>) (\<lambda>s.
       let checks = recon_checks env s in
       if 20000 < int (length checks) then Inl (AppError ''reconciliation_capacity_exceeded'' 503) else Inr checks)"

text \<open>
  One comparison of \<open>reconcileLedger\<close>; \<open>read\<close> yields the chain's number, or None where reading fails.
\<close>

definition check_passed :: "(string \<Rightarrow> string \<Rightarrow> recon_arg list \<Rightarrow> int option) \<Rightarrow> recon_check \<Rightarrow> bool" where
  "check_passed read c =
     (case read (rk_contract c) (rk_signature c) (rk_args c) of
        None \<Rightarrow> False
      | Some actual \<Rightarrow> 0 \<le> rk_expected c \<and>
          (if rk_comparison c = ExactlyEqual then actual = rk_expected c else rk_expected c \<le> actual))"

definition report_passed :: "(string \<Rightarrow> string \<Rightarrow> recon_arg list \<Rightarrow> int option) \<Rightarrow> recon_check list \<Rightarrow> bool" where
  "report_passed read checks = list_all (check_passed read) checks"

section \<open>Sums over the values\<close>

definition key_sum :: "(string list \<Rightarrow> bool) \<Rightarrow> recon_values \<Rightarrow> int" where
  "key_sum P vs = sum_list (map (\<lambda>(k, e). if P k then rv_value e else 0) vs)"

lemma key_sum_update:
  "key_sum P (AList.update k e vs) =
     key_sum P vs + (if P k then rv_value e - (case map_of vs k of None \<Rightarrow> 0 | Some w \<Rightarrow> rv_value w) else 0)"
  by (induction vs) (auto simp: key_sum_def split: if_splits)

lemma key_sum_add:
  "key_sum P (recon_add c sg args d False vs) = key_sum P vs + (if P (entry_key c sg args) then d else 0)"
  by (simp add: recon_add_def Let_def key_sum_update)

lemma key_sum_replace:
  "\<not> P (entry_key c sg args) \<Longrightarrow> key_sum P (recon_add c sg args d r vs) = key_sum P vs"
  by (simp add: recon_add_def Let_def key_sum_update)

text \<open>
  The shares of an outcome over all holders less its supply, and the credits of a contract over all
  creditors less their total: what the facts must keep at zero.
\<close>

definition is_share :: "string \<Rightarrow> string \<Rightarrow> string list \<Rightarrow> bool" where
  "is_share m i k = (case k of [c, sg, a, j] \<Rightarrow> c = m \<and> sg = SHARE_SIG \<and> j = i | _ \<Rightarrow> False)"

definition is_credit :: "string \<Rightarrow> string list \<Rightarrow> bool" where
  "is_credit c k = (case k of [d, sg, a] \<Rightarrow> d = c \<and> sg = CREDIT_SIG | _ \<Rightarrow> False)"

lemma is_share_iff: "is_share m i k \<longleftrightarrow> (\<exists>a. k = [m, SHARE_SIG, a, i])"
  by (auto simp: is_share_def split: list.splits)

lemma is_credit_iff: "is_credit c k \<longleftrightarrow> (\<exists>a. k = [c, CREDIT_SIG, a])"
  by (auto simp: is_credit_def split: list.splits)

definition share_gap :: "string \<Rightarrow> string \<Rightarrow> recon_values \<Rightarrow> int" where
  "share_gap m i vs = key_sum (is_share m i) vs - key_sum (\<lambda>k. k = [m, SUPPLY_SIG, i]) vs"

definition credit_gap :: "string \<Rightarrow> recon_values \<Rightarrow> int" where
  "credit_gap c vs = key_sum (is_credit c) vs - key_sum (\<lambda>k. k = [c, scalar_sig ''totalCredits'']) vs"

lemmas sig_defs = SHARE_SIG_def SUPPLY_SIG_def CREDIT_SIG_def PAYMENT_SIG_def EARLY_SIG_def TIMEOUT_SIG_def
  PRINCIPAL_SIG_def scalar_sig_def

lemma sigs_distinct [simp]:
  "SHARE_SIG \<noteq> SUPPLY_SIG" "SHARE_SIG \<noteq> CREDIT_SIG" "SUPPLY_SIG \<noteq> CREDIT_SIG" "SUPPLY_SIG \<noteq> SHARE_SIG"
  "CREDIT_SIG \<noteq> SHARE_SIG" "CREDIT_SIG \<noteq> SUPPLY_SIG"
  "PAYMENT_SIG \<noteq> SHARE_SIG" "PAYMENT_SIG \<noteq> SUPPLY_SIG" "PAYMENT_SIG \<noteq> CREDIT_SIG"
  "EARLY_SIG \<noteq> SHARE_SIG" "EARLY_SIG \<noteq> SUPPLY_SIG" "EARLY_SIG \<noteq> CREDIT_SIG"
  "TIMEOUT_SIG \<noteq> SHARE_SIG" "TIMEOUT_SIG \<noteq> SUPPLY_SIG" "TIMEOUT_SIG \<noteq> CREDIT_SIG"
  "PRINCIPAL_SIG \<noteq> SHARE_SIG" "PRINCIPAL_SIG \<noteq> SUPPLY_SIG" "PRINCIPAL_SIG \<noteq> CREDIT_SIG"
  by (simp_all add: sig_defs)

lemma scalar_sig_inj [simp]: "scalar_sig a = scalar_sig b \<longleftrightarrow> a = b"
  by (simp add: scalar_sig_def)

lemma gaps_add:
  "share_gap m i (recon_add c sg args d False vs) = share_gap m i vs
     + (if is_share m i (entry_key c sg args) then d else 0) - (if entry_key c sg args = [m, SUPPLY_SIG, i] then d else 0)"
  "credit_gap x (recon_add c sg args d False vs) = credit_gap x vs
     + (if is_credit x (entry_key c sg args) then d else 0)
     - (if entry_key c sg args = [x, scalar_sig ''totalCredits''] then d else 0)"
  by (simp_all add: share_gap_def credit_gap_def key_sum_add)

text \<open>Entries of other kinds do not count.\<close>

lemma gaps_other:
  "sg \<noteq> SHARE_SIG \<Longrightarrow> sg \<noteq> SUPPLY_SIG \<Longrightarrow> share_gap m i (recon_add c sg args d r vs) = share_gap m i vs"
  "sg \<noteq> CREDIT_SIG \<Longrightarrow> sg \<noteq> scalar_sig ''totalCredits'' \<Longrightarrow>
     credit_gap x (recon_add c sg args d r vs) = credit_gap x vs"
  by (simp_all add: share_gap_def credit_gap_def key_sum_replace entry_key_def is_share_iff is_credit_iff)

lemma scalar_sig_other [simp]:
  "scalar_sig n \<noteq> SHARE_SIG" "scalar_sig n \<noteq> SUPPLY_SIG" "scalar_sig n \<noteq> CREDIT_SIG"
  "PAYMENT_SIG \<noteq> scalar_sig n" "EARLY_SIG \<noteq> scalar_sig n" "TIMEOUT_SIG \<noteq> scalar_sig n" "PRINCIPAL_SIG \<noteq> scalar_sig n"
  "SHARE_SIG \<noteq> scalar_sig n" "SUPPLY_SIG \<noteq> scalar_sig n" "CREDIT_SIG \<noteq> scalar_sig n"
proof -
  have s: "take 24 (rev (scalar_sig n)) = rev ''() view returns(uint256)''" by (simp add: scalar_sig_def)
  have no: "scalar_sig n \<noteq> t" if "take 24 (rev t) \<noteq> rev ''() view returns(uint256)''" for t
    using s that by auto
  show "scalar_sig n \<noteq> SHARE_SIG" "scalar_sig n \<noteq> SUPPLY_SIG" "scalar_sig n \<noteq> CREDIT_SIG"
    "PAYMENT_SIG \<noteq> scalar_sig n" "EARLY_SIG \<noteq> scalar_sig n" "TIMEOUT_SIG \<noteq> scalar_sig n" "PRINCIPAL_SIG \<noteq> scalar_sig n"
    "SHARE_SIG \<noteq> scalar_sig n" "SUPPLY_SIG \<noteq> scalar_sig n" "CREDIT_SIG \<noteq> scalar_sig n"
    by (intro no no [symmetric]; simp add: sig_defs)+
qed

lemma recon_shares_None [simp]: "recon_shares m None out d vs = vs"
  by (simp add: recon_shares_def)

lemma share_gap_step [simp]:
  "share_gap m i (recon_scalar c n d r vs) = share_gap m i vs"
  "share_gap m i (recon_early c a d r vs) = share_gap m i vs"
  "share_gap m i (recon_credit c a d vs) = share_gap m i vs"
  "share_gap m i (recon_add c PAYMENT_SIG args d r vs) = share_gap m i vs"
  "share_gap m i (recon_add c TIMEOUT_SIG args d r vs) = share_gap m i vs"
  "share_gap m i (recon_add c PRINCIPAL_SIG args d r vs) = share_gap m i vs"
  "share_gap m i (recon_shares c (Some a) j d vs) = share_gap m i vs + (if toLowerCase c = m \<and> dec j = i then d else 0)"
  "share_gap m i (recon_supply c j d vs) = share_gap m i vs - (if toLowerCase c = m \<and> dec j = i then d else 0)"
  by (simp_all add: recon_scalar_def recon_early_def recon_credit_def gaps_other recon_shares_def recon_supply_def
      gaps_add is_share_iff entry_key_def)

lemma credit_gap_step [simp]:
  "n \<noteq> ''totalCredits'' \<Longrightarrow> credit_gap x (recon_scalar c n d r vs) = credit_gap x vs"
  "credit_gap x (recon_early c a d r vs) = credit_gap x vs"
  "credit_gap x (recon_credit c a d vs) = credit_gap x vs"
  "credit_gap x (recon_add c PAYMENT_SIG args d r vs) = credit_gap x vs"
  "credit_gap x (recon_add c TIMEOUT_SIG args d r vs) = credit_gap x vs"
  "credit_gap x (recon_add c PRINCIPAL_SIG args d r vs) = credit_gap x vs"
  "credit_gap x (recon_shares c who j d vs) = credit_gap x vs"
  "credit_gap x (recon_supply c j d vs) = credit_gap x vs"
  by (simp_all add: recon_scalar_def recon_early_def recon_credit_def gaps_other recon_shares_def recon_supply_def
      gaps_add is_credit_iff entry_key_def split: option.split)

lemma credit_gap_zero [simp]: "credit_gap x (recon_scalar c ''totalCredits'' 0 False vs) = credit_gap x vs"
  by (simp add: recon_scalar_def gaps_add)

lemma fold_keeps: "(\<And>x s. g (f x s) = g s) \<Longrightarrow> g (fold f xs s) = g s"
  by (induction xs arbitrary: s) simp_all

text \<open>A fill from the seller's own balance names the seller.\<close>

definition fill_has_seller :: "ledger_fact \<Rightarrow> bool" where
  "fill_has_seller f =
     (if lf_kind f = FK_listing_filled \<and> extra_get f ''escrowed'' = Some (JBool False)
      then lf_counterparty f \<noteq> None else True)"

lemma initial_scalars_credit: "credit_gap x (fold (\<lambda>n. recon_scalar m n 0 False) initial_scalars vs) = credit_gap x vs"
  by (simp add: initial_scalars_def)

lemma recon_transfer_gap:
  "share_gap m i (recon_transfer c src dst out u vs) = share_gap m i vs"
  "credit_gap x (recon_transfer c src dst out u vs) = credit_gap x vs"
  by (cases src; cases dst; simp add: recon_transfer_def Let_def)+

lemma recon_consumed_gap:
  assumes "recon_consumed f m a u amount vs = Inr vs'"
  shows "share_gap x i vs' = share_gap x i vs" "credit_gap c vs' = credit_gap c vs"
proof -
  have "share_gap x i (fold (\<lambda>(i, n) vs. recon_supply m i (- n) (recon_shares m (Some a) i (- n) vs)) ps vs) = share_gap x i vs"
    "credit_gap c (fold (\<lambda>(i, n) vs. recon_supply m i (- n) (recon_shares m (Some a) i (- n) vs)) ps vs) = credit_gap c vs" for ps
    by (rule fold_keeps, simp add: split_def)+
  then show "share_gap x i vs' = share_gap x i vs" "credit_gap c vs' = credit_gap c vs"
    using assms by (auto simp: recon_consumed_def Let_def)
qed

lemma recon_initialized_gap:
  assumes "recon_initialized f m vs = Inr vs'"
  shows "share_gap x i vs' = share_gap x i vs" "credit_gap c vs' = credit_gap c vs"
proof -
  have "share_gap x i (fold (\<lambda>i. recon_supply m (int i) 0) ns vs) = share_gap x i vs"
    "credit_gap c (fold (\<lambda>i. recon_supply m (int i) 0) ns vs) = credit_gap c vs" for ns vs
    by (rule fold_keeps, simp)+
  moreover have "share_gap x i (fold (\<lambda>n. recon_scalar m n 0 False) ns vs) = share_gap x i vs" for ns
    by (rule fold_keeps) simp
  ultimately show "share_gap x i vs' = share_gap x i vs" "credit_gap c vs' = credit_gap c vs"
    using assms by (auto simp: recon_initialized_def Let_def initial_scalars_credit split: option.splits if_splits)
qed

lemma market_values_gap:
  assumes "market_values env f m who out u amount vs = Inr vs'" "fill_has_seller f"
  shows "share_gap x i vs' = share_gap x i vs \<and> credit_gap c vs' = credit_gap c vs"
  using assms
  by (cases "lf_kind f"; cases who; cases out)
     (auto simp: market_values_def recon_buy_def recon_resolved_def recon_consumed_gap recon_initialized_gap
       recon_transfer_gap fill_has_seller_def Let_def)

lemma recon_payment_gap [simp]:
  "share_gap m i (recon_payment env tracked who d vs) = share_gap m i vs"
  "credit_gap x (recon_payment env tracked who d vs) = credit_gap x vs"
  by (cases who; simp add: recon_payment_def)+

lemma recon_step_gap:
  assumes "recon_step env tracked f s = Inr s'" "fill_has_seller f"
  shows "share_gap x i (rs_values s') = share_gap x i (rs_values s) \<and> credit_gap c (rs_values s') = credit_gap c (rs_values s)"
proof -
  have bond: "settle_recon_bond env f m amount s = Inr s' \<Longrightarrow>
      share_gap x i (rs_values s') = share_gap x i (rs_values s) \<and> credit_gap c (rs_values s') = credit_gap c (rs_values s)"
    for m amount s s'
    by (auto simp: settle_recon_bond_def Let_def split: option.splits if_splits)
  obtain m where m: "m = lf_market f" by simp
  show ?thesis
    using assms
    by (cases "lf_market f"; cases "lf_owner f"; cases "lf_kind f")
       (auto simp: recon_step_def with_values_def Let_def dest!: market_values_gap bond)
qed

section \<open>Whatever additions keep, the facts keep\<close>

locale added =
  fixes holds :: "recon_values \<Rightarrow> bool"
  assumes add: "holds vs \<Longrightarrow> holds (recon_add c sg args d r vs)"
begin

lemma scalar: "holds vs \<Longrightarrow> holds (recon_scalar m n d r vs)"
  by (simp add: recon_scalar_def add)

lemma early: "holds vs \<Longrightarrow> holds (recon_early m a d r vs)"
  by (simp add: recon_early_def add)

lemma supplied: "holds vs \<Longrightarrow> holds (recon_supply m out d vs)"
  by (simp add: recon_supply_def add)

lemma shares: "holds vs \<Longrightarrow> holds (recon_shares m who out d vs)"
  by (simp add: recon_shares_def add split: option.split)

lemma credit: "holds vs \<Longrightarrow> holds (recon_credit c a d vs)"
  by (simp add: recon_credit_def add scalar)

lemma folded: "(\<And>x vs. holds vs \<Longrightarrow> holds (f x vs)) \<Longrightarrow> holds vs \<Longrightarrow> holds (fold f xs vs)"
  by (induction xs arbitrary: vs) simp_all

lemmas parts = add scalar early supplied shares credit

lemma transfer: "holds vs \<Longrightarrow> holds (recon_transfer m src dst out u vs)"
  by (simp add: recon_transfer_def Let_def parts)

lemma payment: "holds vs \<Longrightarrow> holds (recon_payment env tracked who d vs)"
  by (simp add: recon_payment_def add split: option.split)

lemma initialized: "recon_initialized f m vs = Inr vs' \<Longrightarrow> holds vs \<Longrightarrow> holds vs'"
  by (auto simp: recon_initialized_def Let_def intro!: parts folded split: option.splits if_splits)

lemma consumed: "recon_consumed f m a u amount vs = Inr vs' \<Longrightarrow> holds vs \<Longrightarrow> holds vs'"
  by (auto simp: recon_consumed_def Let_def parts intro!: parts folded)

lemma market: "market_values env f m who out u amount vs = Inr vs' \<Longrightarrow> holds vs \<Longrightarrow> holds vs'"
  by (cases "lf_kind f"; cases who; cases out)
     (auto simp: market_values_def recon_buy_def recon_resolved_def Let_def parts transfer
       intro: consumed initialized)

lemma bond: "settle_recon_bond env f m amount s = Inr s' \<Longrightarrow> holds (rs_values s) \<Longrightarrow> holds (rs_values s')"
  by (auto simp: settle_recon_bond_def Let_def parts split: option.splits if_splits)

lemma bond_of:
  "settle_recon_bond env f m amount (s\<lparr>rs_markets := ms, rs_values := vs\<rparr>) = Inr s' \<Longrightarrow> holds vs \<Longrightarrow> holds (rs_values s')"
  using bond by force

lemma step: "recon_step env tracked f s = Inr s' \<Longrightarrow> holds (rs_values s) \<Longrightarrow> holds (rs_values s')"
  by (cases "lf_market f"; cases "lf_owner f"; cases "lf_kind f")
     (auto simp: recon_step_def with_values_def Let_def intro!: parts payment intro: market elim!: bond_of)

lemma loop: "recon_loop env tracked fs s = Inr s' \<Longrightarrow> holds (rs_values s) \<Longrightarrow> holds (rs_values s')"
  by (induction fs arbitrary: s) (auto dest: step)

end

definition keyed_values :: "recon_values \<Rightarrow> bool" where
  "keyed_values vs = (\<forall>p \<in> set vs. fst p = entry_key (rv_contract (snd p)) (rv_signature (snd p)) (rv_args (snd p)))"

interpretation keyed: added keyed_values
  by unfold_locales (auto simp: keyed_values_def recon_add_def Let_def dest!: in_set_update)

section \<open>Conservation\<close>

lemma recon_loop_gap:
  "recon_loop env tracked fs s = Inr s' \<Longrightarrow> list_all fill_has_seller fs \<Longrightarrow>
   share_gap x i (rs_values s') = share_gap x i (rs_values s) \<and> credit_gap c (rs_values s') = credit_gap c (rs_values s)"
  by (induction fs arbitrary: s) (auto dest: recon_step_gap)

lemma opening_ok:
  "share_gap x i (opening_values env accounts opening) = 0" "credit_gap c (opening_values env accounts opening) = 0"
  "keyed_values (opening_values env accounts opening)"
proof -
  define g where "g = fold (\<lambda>a. recon_add (rn_paymentToken env) PAYMENT_SIG [ArgAddress a]
    (case map_get opening (toLowerCase a) of None \<Rightarrow> 0 | Some n \<Rightarrow> n) False) accounts []"
  have "share_gap x i g = share_gap x i []" "credit_gap c g = credit_gap c []"
    unfolding g_def by (rule fold_keeps; simp)+
  then have g: "share_gap x i g = 0" "credit_gap c g = 0"
    by (simp_all add: share_gap_def credit_gap_def key_sum_def)
  have "keyed_values g"
    unfolding g_def by (intro keyed.folded keyed.add) (simp_all add: keyed_values_def)
  then show "keyed_values (opening_values env accounts opening)"
    by (simp add: opening_values_def Let_def keyed.scalar g_def [symmetric])
  show "share_gap x i (opening_values env accounts opening) = 0" "credit_gap c (opening_values env accounts opening) = 0"
    using g by (simp_all add: opening_values_def Let_def g_def [symmetric])
qed

text \<open>The sum of the expected numbers of the checks of one kind.\<close>

definition expected_sum :: "(string list \<Rightarrow> bool) \<Rightarrow> recon_check list \<Rightarrow> int" where
  "expected_sum P checks =
     sum_list (map rk_expected (filter (\<lambda>c. P (entry_key (rk_contract c) (rk_signature c) (rk_args c))) checks))"

lemma expected_sum_entries:
  "keyed_values vs \<Longrightarrow> expected_sum P (map entry_check (map_values vs)) = key_sum P vs"
  by (induction vs) (auto simp: expected_sum_def key_sum_def keyed_values_def entry_check_def)

lemma expected_sum_checks:
  assumes "keyed_values (rs_values s)" "\<And>c a. \<not> P [c, PAYMENT_SIG, a]"
  shows "expected_sum P (recon_checks env s) = key_sum P (rs_values s)"
proof -
  have other: "expected_sum P (at_least env m n # cs) = expected_sum P cs" for m n cs
    using assms(2) by (simp add: expected_sum_def at_least_def entry_key_def)
  have "expected_sum P (map (\<lambda>m. at_least env m (g m)) ms @ cs) = expected_sum P cs" for g ms cs
    by (induction ms) (simp_all add: other)
  moreover have "expected_sum P (cs @ ds) = expected_sum P cs + expected_sum P ds" for cs ds
    by (simp add: expected_sum_def)
  moreover have "expected_sum P [] = 0" by (simp add: expected_sum_def)
  ultimately show ?thesis
    using expected_sum_entries [OF assms(1), of P] by (simp add: recon_checks_def Let_def other)
qed


definition recon_env0 :: recon_env where
  "recon_env0 = \<lparr>rn_paymentToken = ''0xP'', rn_marketplace = ''0xM'', rn_feeVault = ''0xF'', rn_bondEscrow = ''0xB''\<rparr>"

definition recon_fact0 :: "string \<Rightarrow> fact_kind \<Rightarrow> nat \<Rightarrow> string option \<Rightarrow> string option \<Rightarrow> nat \<Rightarrow> (string \<times> json) list \<Rightarrow> ledger_fact" where
  "recon_fact0 i k b who other u extra =
     \<lparr>lf_id = i, lf_kind = k, lf_blockNumber = b, lf_blockHash = ''0x1'', lf_transactionHash = ''0x2'',
      lf_transactionIndex = 0, lf_logIndex = 0, lf_factIndex = 0, lf_timestamp = 1, lf_market = Some ''0xA'',
      lf_owner = who, lf_counterparty = other, lf_outcomeId = Some 1, lf_listingId = None, lf_units = Some u,
      lf_amount = Some u, lf_extra = extra\<rparr>"

text \<open>A purchase, a transfer of shares between holders, a listing, its filling and a creator's fee.\<close>

definition recon_facts0 :: "ledger_fact list" where
  "recon_facts0 =
    [recon_fact0 ''e'' FK_fee_accrued 5 (Some ''0xc'') None 3 [],
     recon_fact0 ''a'' FK_primary_buy 1 (Some ''0xu'') None 7 [(''score'', JStr ''2'')],
     recon_fact0 ''b'' FK_share_transfer 2 (Some ''0xu'') (Some ''0xv'') 4 [],
     recon_fact0 ''c'' FK_listing_created 3 (Some ''0xv'') None 2 [],
     recon_fact0 ''d'' FK_listing_filled 4 (Some ''0xw'') (Some ''0xv'') 1 [(''escrowed'', JBool True)]]"


end
