(* ===== verification/Financial_Facts.thy ===== *)
theory Financial_Facts
  imports Derived Reconciliation
begin

text \<open>
  offchain/indexer/src/financial-facts.ts: the ledger facts that the events of a scan stand for.

  A purchase or a listing comes with ERC-1155 transfers in the same transaction. The transfers are
  first collected as movements; every event that explains a movement consumes it, and what no event
  explains becomes a share-transfer fact of its own.

  \<open>fin_lib\<close> holds what viem and the account library contribute: the tables \<open>byTopic\<close> and
  \<open>legacyByTopic\<close> (\<open>ab_event\<close>), decodeEventLog, getAddress, isAddress, toHex of 32 bytes and the
  address of the entry point. Decimal strings of amounts are integers here; the schema of facts
  admits the unsigned 256-bit ones.
\<close>

record fin_lib = abi +
  fl_isAddress :: "string \<Rightarrow> bool"
  fl_toHex32 :: "int \<Rightarrow> string option"
  fl_entryPoint :: string

record deployment = recon_env +
  dp_factory :: string
  dp_protocol :: "protocol_version option"
  dp_orderbook :: bool
  dp_chainId :: int
  dp_deploymentBlock :: int

record ledger_listing =
  ll_market :: string
  ll_seller :: string
  ll_outcomeId :: int

record fin_context =
  fc_deployment :: deployment
  fc_markets :: "string list"
  fc_listings :: "(string, ledger_listing) jsmap"
  fc_orders :: "(int, abi_args) jsmap"
  fc_tracked :: "string list"

record decoded =
  de_event :: indexed_event
  de_name :: string
  de_args :: abi_args

section \<open>Argument checks\<close>

definition fin_addr :: "fin_lib \<Rightarrow> abi_value option \<Rightarrow> string outcome" where
  "fin_addr lib v =
     (case v of
        Some (AbiText s) \<Rightarrow>
          (case ab_address lib s of None \<Rightarrow> Inl (JsError ''InvalidAddressError'') | Some a \<Rightarrow> Inr a)
      | _ \<Rightarrow> Inl (JsError ''missing event address''))"

definition nullableAddr :: "fin_lib \<Rightarrow> abi_value option \<Rightarrow> string option outcome" where
  "nullableAddr lib v = outcome_map (\<lambda>a. if sameAddress a zeroAddress then None else Some a) (fin_addr lib v)"

definition canonical_decimal :: "string \<Rightarrow> bool" where
  "canonical_decimal s = (s = ''0'' \<or> (s \<noteq> [] \<and> hd s \<noteq> CHR ''0'' \<and> list_all is_digit s))"

definition fin_amount :: "abi_value option \<Rightarrow> int outcome" where
  "fin_amount v =
     (case v of
        Some (AbiText s) \<Rightarrow>
          if canonical_decimal s then Inr (int (digits_val s)) else Inl (JsError ''missing event integer'')
      | Some (AbiBig n) \<Rightarrow> Inr n
      | Some (AbiNum n) \<Rightarrow> if safe_nonnegative n then Inr n else Inl (JsError ''missing event integer'')
      | _ \<Rightarrow> Inl (JsError ''missing event integer''))"

definition fin_hex :: "abi_value option \<Rightarrow> string outcome" where
  "fin_hex v =
     (case v of
        Some (AbiText s) \<Rightarrow> if bytes32 s then Inr s else Inl (JsError ''missing event bytes32'')
      | _ \<Rightarrow> Inl (JsError ''missing event bytes32''))"

text \<open>\<open>Number(v)\<close> where it is an integer; text that BigInt does not read is not a number here.\<close>

definition js_number :: "abi_value option \<Rightarrow> int option" where
  "js_number v =
     (case v of
        Some (AbiNum n) \<Rightarrow> Some n
      | Some (AbiBig n) \<Rightarrow> Some n
      | Some (AbiBool b) \<Rightarrow> Some (if b then 1 else 0)
      | Some (AbiText s) \<Rightarrow> bigint_of_string s
      | _ \<Rightarrow> None)"

definition truthy :: "abi_value option \<Rightarrow> bool" where
  "truthy v =
     (case v of
        None \<Rightarrow> False
      | Some (AbiText s) \<Rightarrow> s \<noteq> []
      | Some (AbiBig n) \<Rightarrow> n \<noteq> 0
      | Some (AbiNum n) \<Rightarrow> n \<noteq> 0
      | Some (AbiBool b) \<Rightarrow> b
      | Some (AbiArray _) \<Rightarrow> True)"

definition orderListingId :: "fin_lib \<Rightarrow> int \<Rightarrow> string outcome" where
  "orderListingId lib n =
     (case fl_toHex32 lib n of None \<Rightarrow> Inl (JsError ''IntegerOutOfRangeError'') | Some h \<Rightarrow> Inr h)"

text \<open>\<open>jsonSafe\<close>: big integers become text.\<close>

fun json_of :: "abi_value \<Rightarrow> json" where
  "json_of (AbiText s) = JStr s"
| "json_of (AbiBig n) = JStr (dec n)"
| "json_of (AbiNum n) = JNum (of_int n)"
| "json_of (AbiBool b) = JBool b"
| "json_of (AbiArray vs) = JArr (map json_of vs)"

definition jsonSafe :: "abi_args \<Rightarrow> (string \<times> json) list" where
  "jsonSafe = map (\<lambda>(k, v). (k, json_of v))"

text \<open>\<open>{...a, ...b}\<close>\<close>

definition spread :: "(string \<times> json) list \<Rightarrow> (string \<times> json) list \<Rightarrow> (string \<times> json) list" where
  "spread a b = fold (\<lambda>(k, v). AList.update k v) b a"

section \<open>Decoding\<close>

definition compareRaw :: "indexed_event \<Rightarrow> indexed_event \<Rightarrow> int" where
  "compareRaw a b =
     (if ev_blockNumber a < ev_blockNumber b then -1
      else if ev_blockNumber b < ev_blockNumber a then 1
      else let t = ev_transactionIndex a - ev_transactionIndex b in
           if t \<noteq> 0 then t else ev_logIndex a - ev_logIndex b)"

interpretation raw: comparator compareRaw
  by unfold_locales (auto simp: compareRaw_def Let_def sgn_if split: if_splits)

definition topic_item :: "fin_lib \<Rightarrow> protocol_version option \<Rightarrow> indexed_event \<Rightarrow> string option" where
  "topic_item lib p e =
     ab_event lib (if p = Some LegacyV1 then LegacyV1 else TimeV2)
       (case ev_topics e of [] \<Rightarrow> '''' | t # _ \<Rightarrow> toLowerCase t)"

fun fin_decode :: "fin_lib \<Rightarrow> protocol_version option \<Rightarrow> indexed_event list \<Rightarrow> decoded list outcome" where
  "fin_decode lib p [] = Inr []"
| "fin_decode lib p (e # es) =
     (case topic_item lib p e of
        None \<Rightarrow> fin_decode lib p es
      | Some item \<Rightarrow>
          outcome_bind (ab_decode lib item (ev_topics e) (ev_data e)) (\<lambda>(name, args).
            outcome_map (\<lambda>ds. \<lparr>de_event = e, de_name = name, de_args = args\<rparr> # ds) (fin_decode lib p es)))"

definition referenced_order :: "fin_lib \<Rightarrow> deployment \<Rightarrow> indexed_event \<Rightarrow> int list \<Rightarrow> int list outcome" where
  "referenced_order lib d e ids =
     (let isOrder = sameAddress (ev_address e) (rn_marketplace d);
          isFee = sameAddress (ev_address e) (rn_feeVault d) in
      if \<not> isOrder \<and> \<not> isFee then Inr ids
      else case topic_item lib None e of
        None \<Rightarrow> Inr ids
      | Some item \<Rightarrow>
          outcome_bind (ab_decode lib item (ev_topics e) (ev_data e)) (\<lambda>(name, args).
          outcome_bind (if isOrder \<and> map_of args ''orderId'' \<noteq> None
                        then outcome_map (\<lambda>n. set_add n ids) (fin_amount (map_of args ''orderId'')) else Inr ids) (\<lambda>ids1.
          if isFee \<and> name = ''FeeAccrued''
          then outcome_bind (fin_addr lib (map_of args ''source'')) (\<lambda>src.
            if sameAddress src (rn_marketplace d)
            then outcome_bind (fin_hex (map_of args ''feeReference'')) (\<lambda>h.
              case bigint_of_string h of
                None \<Rightarrow> Inl (JsError ''SyntaxError'')
              | Some n \<Rightarrow> Inr (set_add n ids1))
            else Inr ids1)
          else Inr ids1)))"

fun referenced_from :: "fin_lib \<Rightarrow> deployment \<Rightarrow> indexed_event list \<Rightarrow> int list \<Rightarrow> int list outcome" where
  "referenced_from lib d [] ids = Inr ids"
| "referenced_from lib d (e # es) ids = outcome_bind (referenced_order lib d e ids) (referenced_from lib d es)"

definition referencedOrderIds :: "fin_lib \<Rightarrow> indexed_event list \<Rightarrow> deployment \<Rightarrow> int list outcome" where
  "referencedOrderIds lib events d =
     (if \<not> dp_orderbook d then Inr [] else referenced_from lib d events [])"

text \<open>The markets, listings and orders the events themselves create.\<close>

definition note_creation :: "fin_lib \<Rightarrow> decoded \<Rightarrow> fin_context \<Rightarrow> fin_context outcome" where
  "note_creation lib de cx =
     (let d = fc_deployment cx; a = de_args de; at_market = sameAddress (ev_address (de_event de)) (rn_marketplace d) in
      outcome_bind
        (if de_name de = ''MarketCreated'' \<and> sameAddress (ev_address (de_event de)) (dp_factory d)
         then outcome_map (\<lambda>m. cx\<lparr>fc_markets := set_add (toLowerCase m) (fc_markets cx)\<rparr>) (fin_addr lib (map_of a ''market''))
         else Inr cx) (\<lambda>cx1.
      outcome_bind
        (if de_name de = ''ListingCreated'' \<and> at_market
         then outcome_bind (fin_hex (map_of a ''listingId'')) (\<lambda>i.
              outcome_bind (fin_addr lib (map_of a ''vault'')) (\<lambda>m.
              outcome_bind (fin_addr lib (map_of a ''seller'')) (\<lambda>s.
              outcome_map (\<lambda>n. cx1\<lparr>fc_listings :=
                    map_set (toLowerCase i) \<lparr>ll_market = m, ll_seller = s, ll_outcomeId = n\<rparr> (fc_listings cx1)\<rparr>)
                (fin_amount (map_of a ''outcomeId'')))))
         else Inr cx1) (\<lambda>cx2.
      if de_name de = ''OrderCreated'' \<and> at_market
      then outcome_map (\<lambda>n. cx2\<lparr>fc_orders := map_set n a (fc_orders cx2)\<rparr>) (fin_amount (map_of a ''orderId''))
      else Inr cx2)))"

fun note_creations :: "fin_lib \<Rightarrow> decoded list \<Rightarrow> fin_context \<Rightarrow> fin_context outcome" where
  "note_creations lib [] cx = Inr cx"
| "note_creations lib (de # ds) cx = outcome_bind (note_creation lib de cx) (note_creations lib ds)"

section \<open>Movements\<close>

record movement =
  mv_event :: indexed_event
  mv_index :: nat
  mv_market :: string
  mv_from :: "string option"
  mv_to :: "string option"
  mv_outcome :: int
  mv_remaining :: int

definition single_movement :: "fin_lib \<Rightarrow> decoded \<Rightarrow> movement list outcome" where
  "single_movement lib de =
     (let a = de_args de in
      outcome_bind (nullableAddr lib (map_of a ''from'')) (\<lambda>src.
      outcome_bind (nullableAddr lib (map_of a ''to'')) (\<lambda>dst.
      outcome_bind (fin_amount (map_of a ''id'')) (\<lambda>i.
      outcome_map (\<lambda>n. [\<lparr>mv_event = de_event de, mv_index = 0, mv_market = ev_address (de_event de),
           mv_from = src, mv_to = dst, mv_outcome = i, mv_remaining = n\<rparr>])
        (fin_amount (map_of a ''value''))))))"

fun batch_movements :: "fin_lib \<Rightarrow> decoded \<Rightarrow> nat \<Rightarrow> (abi_value \<times> abi_value) list \<Rightarrow> movement list outcome" where
  "batch_movements lib de k [] = Inr []"
| "batch_movements lib de k ((i, v) # ivs) =
     (let a = de_args de in
      outcome_bind (nullableAddr lib (map_of a ''from'')) (\<lambda>src.
      outcome_bind (nullableAddr lib (map_of a ''to'')) (\<lambda>dst.
      outcome_bind (fin_amount (Some i)) (\<lambda>out.
      outcome_bind (fin_amount (Some v)) (\<lambda>n.
      outcome_map (\<lambda>ms. \<lparr>mv_event = de_event de, mv_index = k, mv_market = ev_address (de_event de),
           mv_from = src, mv_to = dst, mv_outcome = out, mv_remaining = n\<rparr> # ms)
        (batch_movements lib de (Suc k) ivs))))))"

definition event_movements :: "fin_lib \<Rightarrow> string list \<Rightarrow> decoded \<Rightarrow> movement list outcome" where
  "event_movements lib markets de =
     (if toLowerCase (ev_address (de_event de)) \<notin> set markets then Inr []
      else if de_name de = ''TransferSingle'' then single_movement lib de
      else if de_name de = ''TransferBatch''
      then case (map_of (de_args de) ''ids'', map_of (de_args de) ''values'') of
             (Some (AbiArray is), Some (AbiArray vs)) \<Rightarrow>
               if length is \<noteq> length vs then Inl (JsError ''invalid ERC-1155 batch event'')
               else batch_movements lib de 0 (zip is vs)
           | _ \<Rightarrow> Inl (JsError ''invalid ERC-1155 batch event'')
      else Inr [])"

definition all_movements :: "fin_lib \<Rightarrow> string list \<Rightarrow> decoded list \<Rightarrow> movement list outcome" where
  "all_movements lib markets ds = outcome_map concat (traverse (event_movements lib markets) ds)"

definition matchesAddress :: "string option \<Rightarrow> string option \<Rightarrow> bool" where
  "matchesAddress a b =
     (case (a, b) of (Some x, Some y) \<Rightarrow> sameAddress x y | (None, None) \<Rightarrow> True | _ \<Rightarrow> False)"

definition movement_matches ::
  "indexed_event \<Rightarrow> string \<Rightarrow> string option \<Rightarrow> string option \<Rightarrow> int option \<Rightarrow> movement \<Rightarrow> bool" where
  "movement_matches e market src dst out mv =
     (ev_transactionHash (mv_event mv) = ev_transactionHash e \<and> ev_logIndex (mv_event mv) \<le> ev_logIndex e \<and>
      sameAddress (mv_market mv) market \<and> matchesAddress (mv_from mv) src \<and> matchesAddress (mv_to mv) dst \<and>
      (case out of None \<Rightarrow> True | Some i \<Rightarrow> mv_outcome mv = i))"

text \<open>What is used of the movements, as pairs of an outcome and units, and the movements left.\<close>

fun consume :: "(movement \<Rightarrow> bool) \<Rightarrow> int \<Rightarrow> movement list \<Rightarrow> (int \<times> int) list \<times> movement list" where
  "consume P needed [] = ([], [])"
| "consume P needed (mv # ms) =
     (if \<not> P mv \<or> mv_remaining mv = 0
      then let (used, ms') = consume P needed ms in (used, mv # ms')
      else let take = (if needed < mv_remaining mv then needed else mv_remaining mv);
               moved = 0 < take;
               mv' = (if moved then mv\<lparr>mv_remaining := mv_remaining mv - take\<rparr> else mv);
               needed' = (if moved then needed - take else needed);
               part = (if moved then [(mv_outcome mv, take)] else [])
           in if needed' = 0 then (part, mv' # ms)
              else let (used, ms') = consume P needed' ms in (part @ used, mv' # ms'))"

section \<open>Facts\<close>

text \<open>The fields of a fact that \<open>add\<close> is given; the others come from the event.\<close>

record fact_draft =
  fr_kind :: fact_kind
  fr_market :: "string option"
  fr_owner :: "string option"
  fr_counterparty :: "string option"
  fr_outcomeId :: "int option"
  fr_listingId :: "string option"
  fr_units :: "int option"
  fr_amount :: "int option"
  fr_factIndex :: nat
  fr_extra :: "(string \<times> json) list"

definition draft :: "fact_kind \<Rightarrow> (string \<times> json) list \<Rightarrow> fact_draft" where
  "draft k extra =
     \<lparr>fr_kind = k, fr_market = None, fr_owner = None, fr_counterparty = None, fr_outcomeId = None,
      fr_listingId = None, fr_units = None, fr_amount = None, fr_factIndex = 0, fr_extra = extra\<rparr>"

fun optional_of :: "('a \<Rightarrow> 'b outcome) \<Rightarrow> 'a option \<Rightarrow> 'b option outcome" where
  "optional_of g None = Inr None"
| "optional_of g (Some a) = outcome_map Some (g a)"

definition schema_address :: "fin_lib \<Rightarrow> string \<Rightarrow> string outcome" where
  "schema_address lib s =
     (if \<not> fl_isAddress lib s then Inl (ZodError ''address'')
      else case ab_address lib s of
             None \<Rightarrow> Inl (JsError ''InvalidAddressError'')
           | Some a \<Rightarrow> if a = zeroAddress then Inl (ZodError ''address'') else Inr a)"

definition schema_uint :: "int \<Rightarrow> nat outcome" where
  "schema_uint n = (if uint_ok n then Inr (nat n) else Inl (ZodError ''uint''))"

definition schema_hash :: "string \<Rightarrow> string outcome" where
  "schema_hash s = (if bytes32 s then Inr s else Inl (ZodError ''hash''))"

definition schema_index :: "int \<Rightarrow> nat outcome" where
  "schema_index n = (if 0 \<le> n then Inr (nat n) else Inl (ZodError ''nonnegative''))"

definition fact_id :: "indexed_event \<Rightarrow> nat \<Rightarrow> string" where
  "fact_id e k = ev_transactionHash e @ '':'' @ dec (ev_logIndex e) @ '':'' @ dec_nat k"

definition fact_of :: "fin_lib \<Rightarrow> (int, int) jsmap \<Rightarrow> indexed_event \<Rightarrow> fact_draft \<Rightarrow> ledger_fact outcome" where
  "fact_of lib timestamps e d =
     (case map_get timestamps (ev_blockNumber e) of
        None \<Rightarrow> Inl (JsError ''financial event has no canonical timestamp'')
      | Some t \<Rightarrow>
          outcome_bind (require (length (fact_id e (fr_factIndex d)) \<le> 180) (ZodError ''id'')) (\<lambda>_.
          outcome_bind (schema_uint (ev_blockNumber e)) (\<lambda>bn.
          outcome_bind (schema_hash (ev_blockHash e)) (\<lambda>bh.
          outcome_bind (schema_hash (ev_transactionHash e)) (\<lambda>th.
          outcome_bind (schema_index (ev_transactionIndex e)) (\<lambda>ti.
          outcome_bind (schema_index (ev_logIndex e)) (\<lambda>li.
          outcome_bind (schema_uint t) (\<lambda>ts.
          outcome_bind (optional_of (schema_address lib) (fr_market d)) (\<lambda>m.
          outcome_bind (optional_of (schema_address lib) (fr_owner d)) (\<lambda>w.
          outcome_bind (optional_of (schema_address lib) (fr_counterparty d)) (\<lambda>c.
          outcome_bind (optional_of schema_uint (fr_outcomeId d)) (\<lambda>out.
          outcome_bind (optional_of schema_hash (fr_listingId d)) (\<lambda>li_id.
          outcome_bind (optional_of schema_uint (fr_units d)) (\<lambda>u.
          outcome_map (\<lambda>amt.
              \<lparr>lf_id = fact_id e (fr_factIndex d), lf_kind = fr_kind d, lf_blockNumber = bn, lf_blockHash = bh,
               lf_transactionHash = th, lf_transactionIndex = ti, lf_logIndex = li, lf_factIndex = fr_factIndex d,
               lf_timestamp = ts, lf_market = m, lf_owner = w, lf_counterparty = c, lf_outcomeId = out,
               lf_listingId = li_id, lf_units = u, lf_amount = amt, lf_extra = fr_extra d\<rparr>)
            (optional_of schema_uint (fr_amount d))))))))))))))))"

record fin_state =
  fs_movements :: "movement list"
  fs_facts :: "ledger_fact list"

definition fin_add ::
  "fin_lib \<Rightarrow> (int, int) jsmap \<Rightarrow> indexed_event \<Rightarrow> fact_draft \<Rightarrow> fin_state \<Rightarrow> fin_state outcome" where
  "fin_add lib ts e d s = outcome_map (\<lambda>f. s\<lparr>fs_facts := fs_facts s @ [f]\<rparr>) (fact_of lib ts e d)"

fun fin_adds ::
  "fin_lib \<Rightarrow> (int, int) jsmap \<Rightarrow> indexed_event \<Rightarrow> fact_draft list \<Rightarrow> fin_state \<Rightarrow> fin_state outcome" where
  "fin_adds lib ts e [] s = Inr s"
| "fin_adds lib ts e (d # ds) s = outcome_bind (fin_add lib ts e d s) (fin_adds lib ts e ds)"

definition used_units :: "(int \<times> int) list \<Rightarrow> int" where
  "used_units used = sum_list (map snd used)"

definition fin_coverage ::
  "fin_lib \<Rightarrow> (int, int) jsmap \<Rightarrow> indexed_event \<Rightarrow> string \<Rightarrow> string \<Rightarrow> int \<Rightarrow> (int \<times> int) list \<Rightarrow> fin_state \<Rightarrow> fin_state outcome" where
  "fin_coverage lib ts e market holder units used s =
     (if used_units used \<noteq> units
      then fin_add lib ts e ((draft FK_coverage_gap [(''reason'', JStr ''share_movement_missing'')])
             \<lparr>fr_market := Some market, fr_owner := Some holder, fr_factIndex := 999\<rparr>) s
      else Inr s)"

text \<open>
  What every event that moves shares does: consume the movements from \<open>src\<close> to \<open>dst\<close>, add its facts,
  and report a gap when the movements do not account for its units.
\<close>

definition explain ::
  "fin_lib \<Rightarrow> (int, int) jsmap \<Rightarrow> indexed_event \<Rightarrow> string \<Rightarrow> string option \<Rightarrow> string option \<Rightarrow> int \<Rightarrow> int option \<Rightarrow>
   string \<Rightarrow> ((int \<times> int) list \<Rightarrow> fact_draft list) \<Rightarrow> fin_state \<Rightarrow> fin_state outcome" where
  "explain lib ts e market src dst units out holder drafts s =
     (let (used, ms) = consume (movement_matches e market src dst out) units (fs_movements s) in
      outcome_bind (fin_adds lib ts e (drafts used) (s\<lparr>fs_movements := ms\<rparr>))
        (fin_coverage lib ts e market holder units used))"

section \<open>Handlers\<close>

definition handle_market_created :: "fin_lib \<Rightarrow> (int, int) jsmap \<Rightarrow> decoded \<Rightarrow> fin_state \<Rightarrow> fin_state outcome" where
  "handle_market_created lib ts de s =
     (let a = de_args de in
      outcome_bind (fin_addr lib (map_of a ''market'')) (\<lambda>m.
      outcome_bind (fin_addr lib (map_of a ''creator'')) (\<lambda>w.
      outcome_bind (fin_amount (map_of a ''creationFee'')) (\<lambda>n.
        fin_add lib ts (de_event de) ((draft FK_market_created (jsonSafe a))
          \<lparr>fr_market := Some m, fr_owner := Some w, fr_amount := Some n\<rparr>) s))))"

definition handle_order_created :: "fin_lib \<Rightarrow> (int, int) jsmap \<Rightarrow> decoded \<Rightarrow> fin_state \<Rightarrow> fin_state outcome" where
  "handle_order_created lib ts de s =
     (let a = de_args de in
      outcome_bind (fin_addr lib (map_of a ''vault'')) (\<lambda>m.
      outcome_bind (fin_addr lib (map_of a ''owner'')) (\<lambda>w.
      outcome_bind (fin_amount (map_of a ''outcomeId'')) (\<lambda>i.
      outcome_bind (fin_amount (map_of a ''units'')) (\<lambda>u.
      outcome_bind (fin_amount (map_of a ''lockedPayment'')) (\<lambda>p.
      outcome_bind (outcome_bind (fin_amount (map_of a ''orderId'')) (orderListingId lib)) (\<lambda>h.
        fin_add lib ts (de_event de) ((draft FK_order_created (jsonSafe a))
          \<lparr>fr_market := Some m, fr_owner := Some w, fr_outcomeId := Some i, fr_units := Some u,
           fr_amount := Some p, fr_listingId := Some h\<rparr>) s)))))))"

definition handle_ask_created :: "fin_lib \<Rightarrow> (int, int) jsmap \<Rightarrow> deployment \<Rightarrow> decoded \<Rightarrow> fin_state \<Rightarrow> fin_state outcome" where
  "handle_ask_created lib ts d de s =
     (let a = de_args de in
      outcome_bind (fin_addr lib (map_of a ''vault'')) (\<lambda>m.
      outcome_bind (fin_addr lib (map_of a ''owner'')) (\<lambda>w.
      outcome_bind (fin_amount (map_of a ''units'')) (\<lambda>u.
      outcome_bind (fin_amount (map_of a ''outcomeId'')) (\<lambda>i.
      outcome_bind (fin_amount (map_of a ''orderId'')) (\<lambda>oid.
      outcome_bind (orderListingId lib oid) (\<lambda>h.
        explain lib ts (de_event de) m (Some w) (Some (rn_marketplace d)) u (Some i) w (\<lambda>_.
          [(draft FK_listing_created (spread (jsonSafe a) [(''orderId'', JStr (dec oid)), (''orderbook'', JBool True)]))
             \<lparr>fr_market := Some m, fr_owner := Some w, fr_units := Some u, fr_outcomeId := Some i,
              fr_listingId := Some h\<rparr>]) s)))))))"

definition the_order :: "string \<Rightarrow> fin_context \<Rightarrow> abi_args \<Rightarrow> (int \<times> abi_args) outcome" where
  "the_order message cx a =
     outcome_bind (fin_amount (map_of a ''orderId'')) (\<lambda>oid.
       case map_get (fc_orders cx) oid of
         None \<Rightarrow> Inl (JsError message)
       | Some order \<Rightarrow> Inr (oid, order))"

definition handle_bid_excess :: "fin_lib \<Rightarrow> (int, int) jsmap \<Rightarrow> fin_context \<Rightarrow> decoded \<Rightarrow> fin_state \<Rightarrow> fin_state outcome" where
  "handle_bid_excess lib ts cx de s =
     (let a = de_args de in
      outcome_bind (the_order ''order_funds_without_creation'' cx a) (\<lambda>(oid, order).
      outcome_bind (fin_addr lib (map_of order ''vault'')) (\<lambda>m.
      outcome_bind (fin_addr lib (map_of a ''owner'')) (\<lambda>w.
      outcome_bind (fin_amount (map_of order ''outcomeId'')) (\<lambda>i.
      outcome_bind (fin_amount (map_of a ''amount'')) (\<lambda>n.
      outcome_bind (orderListingId lib oid) (\<lambda>h.
        fin_add lib ts (de_event de) ((draft FK_order_funds_returned (jsonSafe a))
          \<lparr>fr_market := Some m, fr_owner := Some w, fr_outcomeId := Some i, fr_amount := Some n,
           fr_listingId := Some h\<rparr>) s)))))))"

definition handle_order_released :: "fin_lib \<Rightarrow> (int, int) jsmap \<Rightarrow> fin_context \<Rightarrow> decoded \<Rightarrow> fin_state \<Rightarrow> fin_state outcome" where
  "handle_order_released lib ts cx de s =
     (let a = de_args de; e = de_event de in
      outcome_bind (the_order ''order_release_without_creation'' cx a) (\<lambda>(oid, order).
      outcome_bind (fin_addr lib (map_of order ''vault'')) (\<lambda>m.
      outcome_bind (fin_addr lib (map_of a ''owner'')) (\<lambda>w.
      outcome_bind (fin_amount (map_of order ''outcomeId'')) (\<lambda>i.
      outcome_bind (fin_amount (map_of a ''returnedUnits'')) (\<lambda>u.
      outcome_bind (fin_amount (map_of a ''returnedPayment'')) (\<lambda>p.
      outcome_bind (orderListingId lib oid) (\<lambda>h.
      outcome_bind (fin_amount (map_of order ''unitPrice'')) (\<lambda>price.
      outcome_bind (fin_add lib ts e
          ((draft FK_order_released (spread (jsonSafe a) ((''unitPrice'', JStr (dec price)) #
              (case map_of order ''side'' of None \<Rightarrow> [] | Some v \<Rightarrow> [(''side'', json_of v)]))))
            \<lparr>fr_market := Some m, fr_owner := Some w, fr_outcomeId := Some i, fr_units := Some u,
             fr_amount := Some p, fr_listingId := Some h\<rparr>) s) (\<lambda>s1.
        if js_number (map_of order ''side'') = Some 1 \<and> 0 < u
        then explain lib ts e m (Some (rn_marketplace (fc_deployment cx))) (Some w) u (Some i) w (\<lambda>_.
               [(draft FK_listing_returned (spread (jsonSafe a) [(''orderbook'', JBool True)]))
                  \<lparr>fr_market := Some m, fr_owner := Some w, fr_units := Some u, fr_outcomeId := Some i,
                   fr_listingId := Some h\<rparr>]) s1
        else Inr s1))))))))))"

definition handle_shares_deferred :: "fin_lib \<Rightarrow> (int, int) jsmap \<Rightarrow> fin_context \<Rightarrow> decoded \<Rightarrow> fin_state \<Rightarrow> fin_state outcome" where
  "handle_shares_deferred lib ts cx de s =
     (let a = de_args de in
      outcome_bind (the_order ''order_deferred_without_creation'' cx a) (\<lambda>(oid, order).
      outcome_bind (fin_addr lib (map_of order ''vault'')) (\<lambda>m.
      outcome_bind (fin_addr lib (map_of a ''owner'')) (\<lambda>w.
      outcome_bind (fin_amount (map_of order ''outcomeId'')) (\<lambda>i.
      outcome_bind (fin_amount (map_of a ''units'')) (\<lambda>u.
      outcome_bind (orderListingId lib oid) (\<lambda>h.
        fin_add lib ts (de_event de) ((draft FK_order_shares_deferred (jsonSafe a))
          \<lparr>fr_market := Some m, fr_owner := Some w, fr_outcomeId := Some i, fr_units := Some u,
           fr_listingId := Some h\<rparr>) s)))))))"

definition handle_shares_withdrawn :: "fin_lib \<Rightarrow> (int, int) jsmap \<Rightarrow> fin_context \<Rightarrow> decoded \<Rightarrow> fin_state \<Rightarrow> fin_state outcome" where
  "handle_shares_withdrawn lib ts cx de s =
     (let a = de_args de; e = de_event de in
      outcome_bind (the_order ''order_withdrawal_without_ask'' cx a) (\<lambda>(oid, order).
      outcome_bind (require (js_number (map_of order ''side'') = Some 1) (JsError ''order_withdrawal_without_ask'')) (\<lambda>_.
      outcome_bind (fin_addr lib (map_of order ''vault'')) (\<lambda>m.
      outcome_bind (fin_addr lib (map_of a ''owner'')) (\<lambda>w.
      outcome_bind (fin_addr lib (map_of a ''recipient'')) (\<lambda>r.
      outcome_bind (fin_amount (map_of a ''units'')) (\<lambda>u.
      outcome_bind (fin_amount (map_of order ''outcomeId'')) (\<lambda>i.
      outcome_bind (orderListingId lib oid) (\<lambda>h.
        explain lib ts e m (Some (rn_marketplace (fc_deployment cx))) (Some r) u (Some i) r (\<lambda>_.
          (draft FK_listing_returned (spread (jsonSafe a) [(''orderbook'', JBool True), (''deferred'', JBool True)]))
            \<lparr>fr_market := Some m, fr_owner := Some w, fr_outcomeId := Some i, fr_units := Some u, fr_listingId := Some h\<rparr> #
          (if sameAddress w r then []
           else [(draft FK_share_transfer [(''source'', JStr ''deferred-order-withdrawal''), (''orderId'', JStr (dec oid))])
             \<lparr>fr_market := Some m, fr_owner := Some w, fr_counterparty := Some r, fr_outcomeId := Some i,
              fr_units := Some u, fr_factIndex := 1\<rparr>])) s)))))))))"

definition handle_trade :: "fin_lib \<Rightarrow> (int, int) jsmap \<Rightarrow> deployment \<Rightarrow> decoded \<Rightarrow> fin_state \<Rightarrow> fin_state outcome" where
  "handle_trade lib ts d de s =
     (let a = de_args de in
      outcome_bind (fin_addr lib (map_of a ''vault'')) (\<lambda>m.
      outcome_bind (fin_addr lib (map_of a ''buyer'')) (\<lambda>b.
      outcome_bind (fin_addr lib (map_of a ''seller'')) (\<lambda>r.
      outcome_bind (fin_amount (map_of a ''units'')) (\<lambda>u.
      outcome_bind (fin_amount (map_of a ''outcomeId'')) (\<lambda>i.
      outcome_bind (fin_amount (map_of a ''gross'')) (\<lambda>gross.
      outcome_bind (outcome_bind (fin_amount (map_of a ''orderId'')) (orderListingId lib)) (\<lambda>h.
      outcome_bind (fin_amount (map_of a ''remainingAskUnits'')) (\<lambda>remaining.
      outcome_bind (fin_amount (map_of a ''platformFee'')) (\<lambda>platform.
      outcome_bind (fin_amount (map_of a ''creatorFee'')) (\<lambda>creator.
        explain lib ts (de_event de) m
          (Some (if map_of a ''escrowed'' = Some (AbiBool True) then rn_marketplace d else r)) (Some b) u (Some i) b (\<lambda>_.
          [(draft FK_listing_filled (spread (jsonSafe a) [(''orderbook'', JBool True), (''remainingUnits'', JStr (dec remaining)),
              (''sellerProceeds'', JStr (dec (gross - platform - creator)))]))
            \<lparr>fr_market := Some m, fr_owner := Some b, fr_counterparty := Some r, fr_units := Some u,
             fr_outcomeId := Some i, fr_amount := Some gross, fr_listingId := Some h\<rparr>]) s)))))))))))"

definition handle_orderbook :: "fin_lib \<Rightarrow> (int, int) jsmap \<Rightarrow> fin_context \<Rightarrow> decoded \<Rightarrow> fin_state \<Rightarrow> fin_state outcome" where
  "handle_orderbook lib ts cx de s =
     (if de_name de = ''OrderCreated''
      then outcome_bind (handle_order_created lib ts de s) (\<lambda>s1.
        if js_number (map_of (de_args de) ''side'') = Some 1 then handle_ask_created lib ts (fc_deployment cx) de s1 else Inr s1)
      else if de_name de = ''BidExcessReturned'' then handle_bid_excess lib ts cx de s
      else if de_name de = ''OrderReleased'' then handle_order_released lib ts cx de s
      else if de_name de = ''OrderSharesDeferred'' then handle_shares_deferred lib ts cx de s
      else if de_name de = ''OrderSharesWithdrawn'' then handle_shares_withdrawn lib ts cx de s
      else if de_name de = ''TradeExecuted'' then handle_trade lib ts (fc_deployment cx) de s
      else Inr s)"

definition handle_listing :: "fin_lib \<Rightarrow> (int, int) jsmap \<Rightarrow> fin_context \<Rightarrow> decoded \<Rightarrow> fin_state \<Rightarrow> fin_state outcome" where
  "handle_listing lib ts cx de s =
     (let a = de_args de; e = de_event de; mp = Some (rn_marketplace (fc_deployment cx)) in
      outcome_bind (fin_hex (map_of a ''listingId'')) (\<lambda>h.
      case map_get (fc_listings cx) (toLowerCase h) of
        None \<Rightarrow> Inl (JsError ''financial event references unknown listing'')
      | Some l \<Rightarrow>
          let m = ll_market l; i = ll_outcomeId l; w = ll_seller l in
          if de_name de = ''ListingCreated''
          then outcome_bind (fin_amount (map_of a ''amount'')) (\<lambda>u.
            explain lib ts e m (Some w) mp u (Some i) w (\<lambda>_.
              [(draft FK_listing_created (jsonSafe a))
                \<lparr>fr_market := Some m, fr_outcomeId := Some i, fr_listingId := Some h, fr_owner := Some w, fr_units := Some u\<rparr>]) s)
          else if de_name de = ''ListingFilled''
          then outcome_bind (fin_addr lib (map_of a ''buyer'')) (\<lambda>b.
            outcome_bind (fin_amount (map_of a ''filledUnits'')) (\<lambda>u.
            outcome_bind (fin_amount (map_of a ''gross'')) (\<lambda>gross.
            explain lib ts e m mp (Some b) u (Some i) b (\<lambda>_.
              [(draft FK_listing_filled (jsonSafe a))
                \<lparr>fr_market := Some m, fr_outcomeId := Some i, fr_listingId := Some h, fr_owner := Some b,
                 fr_counterparty := Some w, fr_units := Some u, fr_amount := Some gross\<rparr>]) s)))
          else outcome_bind (fin_amount (map_of a ''returnedUnits'')) (\<lambda>u.
            explain lib ts e m mp (Some w) u (Some i) w (\<lambda>_.
              [(draft (if de_name de = ''ListingCancelled'' then FK_listing_cancelled else FK_listing_returned) (jsonSafe a))
                \<lparr>fr_market := Some m, fr_outcomeId := Some i, fr_listingId := Some h, fr_owner := Some w, fr_units := Some u\<rparr>]) s)))"

definition fee_market :: "fin_lib \<Rightarrow> fin_context \<Rightarrow> abi_args \<Rightarrow> string option outcome" where
  "fee_market lib cx a =
     (let d = fc_deployment cx in
      outcome_bind (fin_addr lib (map_of a ''source'')) (\<lambda>src.
      outcome_bind (fin_hex (map_of a ''feeReference'')) (\<lambda>ref.
      if toLowerCase src \<in> set (fc_markets cx) then Inr (Some src)
      else if sameAddress src (rn_marketplace d)
      then if dp_orderbook d
           then case bigint_of_string ref of
                  None \<Rightarrow> Inl (JsError ''SyntaxError'')
                | Some n \<Rightarrow>
                    (case map_get (fc_orders cx) n of
                       None \<Rightarrow> Inr None
                     | Some order \<Rightarrow>
                         if truthy (map_of order ''vault'') then outcome_map Some (fin_addr lib (map_of order ''vault''))
                         else Inr None)
           else Inr (map_option ll_market (map_get (fc_listings cx) (toLowerCase ref)))
      else if sameAddress src (dp_factory d)
      then case ab_address lib (''0x'' @ drop 26 ref) of
             None \<Rightarrow> Inl (JsError ''InvalidAddressError'')
           | Some c \<Rightarrow> Inr (if toLowerCase c \<in> set (fc_markets cx) then Some c else None)
      else Inr None)))"

definition handle_fee :: "fin_lib \<Rightarrow> (int, int) jsmap \<Rightarrow> fin_context \<Rightarrow> decoded \<Rightarrow> fin_state \<Rightarrow> fin_state outcome" where
  "handle_fee lib ts cx de s =
     (let a = de_args de in
      outcome_bind (if de_name de = ''FeeAccrued'' then fee_market lib cx a else Inr None) (\<lambda>m.
      outcome_bind (fin_addr lib (map_of a ''beneficiary'')) (\<lambda>w.
      outcome_bind (fin_amount (map_of a ''amount'')) (\<lambda>n.
        fin_add lib ts (de_event de)
          ((draft (if de_name de = ''FeeAccrued'' then FK_fee_accrued else FK_fee_claimed) (jsonSafe a))
            \<lparr>fr_market := m, fr_owner := Some w, fr_amount := Some n\<rparr>) s))))"

definition bond_kind :: "string \<Rightarrow> fact_kind option" where
  "bond_kind name =
     map_of [(''BondLocked'', FK_bond_locked), (''BondCredited'', FK_bond_credited),
             (''BondFundedToTimeoutMarket'', FK_bond_timeout_funded), (''BondClaimed'', FK_bond_claimed)] name"

definition truthy_addr :: "fin_lib \<Rightarrow> abi_value option \<Rightarrow> string option outcome" where
  "truthy_addr lib v = (if truthy v then outcome_map Some (fin_addr lib v) else Inr None)"

definition handle_bond :: "fin_lib \<Rightarrow> (int, int) jsmap \<Rightarrow> decoded \<Rightarrow> fin_state \<Rightarrow> fin_state outcome" where
  "handle_bond lib ts de s =
     (let a = de_args de in
      case bond_kind (de_name de) of
        None \<Rightarrow> Inr s
      | Some k \<Rightarrow>
          outcome_bind (truthy_addr lib (map_of a ''market'')) (\<lambda>m.
          outcome_bind (truthy_addr lib (map_of a ''creator'')) (\<lambda>w.
          outcome_bind (fin_amount (map_of a ''amount'')) (\<lambda>n.
            fin_add lib ts (de_event de) ((draft k (jsonSafe a))
              \<lparr>fr_market := m, fr_owner := w, fr_amount := Some n\<rparr>) s))))"

definition handle_payment :: "fin_lib \<Rightarrow> (int, int) jsmap \<Rightarrow> fin_context \<Rightarrow> decoded \<Rightarrow> fin_state \<Rightarrow> fin_state outcome" where
  "handle_payment lib ts cx de s =
     (let a = de_args de;
          known = (\<lambda>w. case w of None \<Rightarrow> False | Some x \<Rightarrow> toLowerCase x \<in> set (fc_tracked cx)) in
      outcome_bind (nullableAddr lib (map_of a ''from'')) (\<lambda>src.
      outcome_bind (nullableAddr lib (map_of a ''to'')) (\<lambda>dst.
      if known src \<or> known dst
      then outcome_bind (fin_amount (map_of a ''value'')) (\<lambda>n.
        fin_add lib ts (de_event de) ((draft FK_payment_transfer [(''mint'', JBool (src = None))])
          \<lparr>fr_owner := src, fr_counterparty := dst, fr_amount := Some n\<rparr>) s)
      else Inr s)))"

definition handle_purchase :: "fin_lib \<Rightarrow> (int, int) jsmap \<Rightarrow> decoded \<Rightarrow> fin_state \<Rightarrow> fin_state outcome" where
  "handle_purchase lib ts de s =
     (let a = de_args de; e = de_event de; m = ev_address (de_event de) in
      outcome_bind (fin_addr lib (map_of a ''buyer'')) (\<lambda>w.
      outcome_bind (fin_amount (map_of a ''filledUnits'')) (\<lambda>u.
      outcome_bind (fin_amount (map_of a ''outcomeId'')) (\<lambda>i.
      outcome_bind (fin_amount (map_of a ''payment'')) (\<lambda>n.
      outcome_bind (fin_amount (map_of a ''earlyBirdWeight'')) (\<lambda>weight.
        explain lib ts e m None (Some w) u (Some i) w (\<lambda>_.
          [(draft FK_primary_buy (spread (jsonSafe a) [(''score'', JStr (dec (u * weight)))]))
            \<lparr>fr_market := Some m, fr_owner := Some w, fr_units := Some u, fr_outcomeId := Some i,
             fr_amount := Some n\<rparr>]) s))))))"

definition handle_voided :: "fin_lib \<Rightarrow> (int, int) jsmap \<Rightarrow> fin_context \<Rightarrow> decoded \<Rightarrow> fin_state \<Rightarrow> fin_state outcome" where
  "handle_voided lib ts cx de s =
     (let a = de_args de in
      outcome_bind
        (if dp_protocol (fc_deployment cx) = Some LegacyV1
         then case js_number (map_of a ''terminalState'') of
                None \<Rightarrow> Inl (RangeError ''invalid legacy market state'')
              | Some n \<Rightarrow> outcome_map (\<lambda>(_, reason). spread (jsonSafe a) [(''reason'', JNum (of_int reason))])
                           (publicMarketState (Some LegacyV1) n 0)
         else Inr (jsonSafe a)) (\<lambda>extra.
        fin_add lib ts (de_event de) ((draft FK_market_voided extra)\<lparr>fr_market := Some (ev_address (de_event de))\<rparr>) s))"

text \<open>\<open>a.x ?? a.y\<close>; decoded arguments hold no null.\<close>

definition either_arg :: "abi_args \<Rightarrow> string \<Rightarrow> string \<Rightarrow> abi_value option" where
  "either_arg a x y = (case map_of a x of None \<Rightarrow> map_of a y | Some v \<Rightarrow> Some v)"

definition json_consumed :: "(int \<times> int) list \<Rightarrow> json" where
  "json_consumed used =
     JArr (map (\<lambda>(i, n). JObj [(''outcomeId'', JStr (dec i)), (''units'', JStr (dec n))]) used)"

definition handle_burn :: "fin_lib \<Rightarrow> (int, int) jsmap \<Rightarrow> decoded \<Rightarrow> fin_state \<Rightarrow> fin_state outcome" where
  "handle_burn lib ts de s =
     (let a = de_args de; e = de_event de; m = ev_address (de_event de); losing = (de_name de = ''LosingPositionBurned'') in
      outcome_bind (fin_addr lib (map_of a ''owner'')) (\<lambda>w.
      outcome_bind (fin_amount (either_arg a ''burnedUnits'' ''units'')) (\<lambda>u.
      outcome_bind (if losing then outcome_map Some (fin_amount (map_of a ''outcomeId'')) else Inr None) (\<lambda>out.
      outcome_bind (if losing then Inr None else outcome_map Some (fin_amount (either_arg a ''payout'' ''refund''))) (\<lambda>amt.
        explain lib ts e m (Some w) None u out w (\<lambda>used.
          [(draft (if de_name de = ''WinnerClaimed'' then FK_winner_claimed
                   else if de_name de = ''PrincipalRefunded'' then FK_refunded else FK_losing_burned)
              (spread (jsonSafe a) [(''consumed'', json_consumed used)]))
            \<lparr>fr_market := Some m, fr_owner := Some w, fr_units := Some u,
             fr_outcomeId := (case used of [(i, _)] \<Rightarrow> Some i | _ \<Rightarrow> None), fr_amount := amt\<rparr>]) s)))))"

definition market_event_fact ::
  "fin_lib \<Rightarrow> (int, int) jsmap \<Rightarrow> decoded \<Rightarrow> fact_kind \<Rightarrow> string option \<Rightarrow> string option \<Rightarrow> string option \<Rightarrow> string option \<Rightarrow>
   fin_state \<Rightarrow> fin_state outcome" where
  "market_event_fact lib ts de k own outc units amt s =
     (let a = de_args de; field = (\<lambda>g x. case x of None \<Rightarrow> Inr None | Some f \<Rightarrow> outcome_map Some (g (map_of a f))) in
      outcome_bind (case own of None \<Rightarrow> Inr None | Some f \<Rightarrow> outcome_map Some (fin_addr lib (map_of a f))) (\<lambda>w.
      outcome_bind (field fin_amount outc) (\<lambda>i.
      outcome_bind (field fin_amount units) (\<lambda>u.
      outcome_bind (field fin_amount amt) (\<lambda>n.
        fin_add lib ts (de_event de) ((draft k (jsonSafe a))
          \<lparr>fr_market := Some (ev_address (de_event de)), fr_owner := w, fr_outcomeId := i, fr_units := u, fr_amount := n\<rparr>) s)))))"

definition handle_market :: "fin_lib \<Rightarrow> (int, int) jsmap \<Rightarrow> fin_context \<Rightarrow> decoded \<Rightarrow> fin_state \<Rightarrow> fin_state outcome" where
  "handle_market lib ts cx de s =
     (let name = de_name de in
      if name = ''MarketInitialized'' then market_event_fact lib ts de FK_market_initialized (Some ''creator'') None None None s
      else if name = ''MarketMetadataUpdated'' then market_event_fact lib ts de FK_market_metadata (Some ''creatorTreasury'') None None None s
      else if name = ''EconomicSnapshotCreated'' then market_event_fact lib ts de FK_economic_snapshot None None None None s
      else if name = ''PrimaryPurchased'' then handle_purchase lib ts de s
      else if name = ''MarketResolved'' then market_event_fact lib ts de FK_market_resolved None (Some ''winningOutcome'') None None s
      else if name = ''MarketVoided'' then handle_voided lib ts cx de s
      else if name = ''WinnerClaimed'' \<or> name = ''PrincipalRefunded'' \<or> name = ''LosingPositionBurned'' then handle_burn lib ts de s
      else if name = ''EarlyBirdClaimed'' then market_event_fact lib ts de FK_early_bird_claimed (Some ''owner'') None None (Some ''reward'') s
      else if name = ''TimeoutBonusClaimed''
      then market_event_fact lib ts de FK_timeout_claimed (Some ''owner'') None (Some ''units'') (Some ''reward'') s
      else if name = ''TimeoutBonusFunded'' then market_event_fact lib ts de FK_timeout_funded None None None (Some ''amount'') s
      else if name = ''FinalRemainderAssigned''
      then market_event_fact lib ts de FK_remainder_assigned (Some ''owner'') None None (Some ''amount'') s
      else Inr s)"

section \<open>Normalization\<close>

definition handle_rest :: "fin_lib \<Rightarrow> (int, int) jsmap \<Rightarrow> fin_context \<Rightarrow> decoded \<Rightarrow> fin_state \<Rightarrow> fin_state outcome" where
  "handle_rest lib ts cx de s =
     (let name = de_name de; at_addr = ev_address (de_event de); d = fc_deployment cx in
      if starts_with ''Listing'' name \<or> name = ''TerminalListingReturned''
      then if sameAddress at_addr (rn_marketplace d) then handle_listing lib ts cx de s else Inr s
      else if sameAddress at_addr (rn_feeVault d) \<and> (name = ''FeeAccrued'' \<or> name = ''FeeClaimed'') then handle_fee lib ts cx de s
      else if sameAddress at_addr (rn_bondEscrow d) then handle_bond lib ts de s
      else if name = ''Transfer'' \<and> sameAddress at_addr (rn_paymentToken d) then handle_payment lib ts cx de s
      else
        outcome_bind
          (if name = ''UserOperationEvent'' \<and> sameAddress at_addr (fl_entryPoint lib)
           then outcome_map (\<lambda>w. if toLowerCase w \<in> set (fc_tracked cx) then Some w else None)
                  (fin_addr lib (map_of (de_args de) ''sender''))
           else Inr None) (\<lambda>tracked_sender.
        case tracked_sender of
          Some w \<Rightarrow>
            outcome_bind (fin_amount (map_of (de_args de) ''actualGasCost'')) (\<lambda>n.
              fin_add lib ts (de_event de) ((draft FK_user_operation (jsonSafe (de_args de)))
                \<lparr>fr_owner := Some w, fr_amount := Some n\<rparr>) s)
        | None \<Rightarrow>
            if toLowerCase at_addr \<in> set (fc_markets cx) then handle_market lib ts cx de s else Inr s))"

definition handle_event :: "fin_lib \<Rightarrow> (int, int) jsmap \<Rightarrow> fin_context \<Rightarrow> decoded \<Rightarrow> fin_state \<Rightarrow> fin_state outcome" where
  "handle_event lib ts cx de s =
     (if de_name de = ''MarketCreated'' \<and> sameAddress (ev_address (de_event de)) (dp_factory (fc_deployment cx))
      then handle_market_created lib ts de s
      else outcome_bind
        (if sameAddress (ev_address (de_event de)) (rn_marketplace (fc_deployment cx)) \<and> dp_orderbook (fc_deployment cx)
         then handle_orderbook lib ts cx de s else Inr s)
        (handle_rest lib ts cx de))"

fun handle_events :: "fin_lib \<Rightarrow> (int, int) jsmap \<Rightarrow> fin_context \<Rightarrow> decoded list \<Rightarrow> fin_state \<Rightarrow> fin_state outcome" where
  "handle_events lib ts cx [] s = Inr s"
| "handle_events lib ts cx (de # ds) s = outcome_bind (handle_event lib ts cx de s) (handle_events lib ts cx ds)"

text \<open>What no event explained.\<close>

definition left_over :: "movement \<Rightarrow> fact_draft" where
  "left_over mv = (draft FK_share_transfer [(''source'', JStr ''ERC1155'')])
     \<lparr>fr_market := Some (mv_market mv), fr_owner := mv_from mv, fr_counterparty := mv_to mv,
      fr_outcomeId := Some (mv_outcome mv), fr_units := Some (mv_remaining mv), fr_factIndex := mv_index mv\<rparr>"

fun left_overs :: "fin_lib \<Rightarrow> (int, int) jsmap \<Rightarrow> movement list \<Rightarrow> fin_state \<Rightarrow> fin_state outcome" where
  "left_overs lib ts [] s = Inr s"
| "left_overs lib ts (mv # ms) s =
     (if 0 < mv_remaining mv
      then outcome_bind (fin_add lib ts (mv_event mv) (left_over mv) s) (left_overs lib ts ms)
      else left_overs lib ts ms s)"

definition block_timestamps :: "canonical_block list \<Rightarrow> (int, int) jsmap" where
  "block_timestamps blocks = fold (\<lambda>b. map_set (cb_blockNumber b) (cb_timestamp b)) blocks []"

definition normalizeFinancialFacts ::
  "fin_lib \<Rightarrow> indexed_event list \<Rightarrow> canonical_block list \<Rightarrow> fin_context \<Rightarrow> ledger_fact list outcome" where
  "normalizeFinancialFacts lib events blocks cx =
     (let ts = block_timestamps blocks in
      outcome_bind (fin_decode lib (dp_protocol (fc_deployment cx)) (js_sort compareRaw events)) (\<lambda>ds.
      outcome_bind (note_creations lib ds cx) (\<lambda>cx1.
      outcome_bind (all_movements lib (fc_markets cx1) ds) (\<lambda>ms.
      outcome_bind (handle_events lib ts cx1 ds \<lparr>fs_movements = ms, fs_facts = []\<rparr>) (\<lambda>s.
      outcome_map (\<lambda>s1. js_sort financialOrder (fs_facts s1)) (left_overs lib ts (fs_movements s) s))))))"
end
