(* ===== verification/Ledger_Conservation.thy ===== *)
theory Ledger_Conservation
  imports Financial_Facts
begin

text \<open>
  From transfers to the ledger: the facts of a scan account for every ERC-1155 transfer exactly once
  (financial-facts.ts), and the balances that reconciliation.ts expects from these facts are those the
  transfers leave.
\<close>

section \<open>Flows\<close>

text \<open>Holders and markets are compared in lower case, as \<open>sameAddress\<close> does.\<close>

definition held :: "string \<Rightarrow> string option \<Rightarrow> int \<Rightarrow> int" where
  "held h w n = (case w of None \<Rightarrow> 0 | Some a \<Rightarrow> if toLowerCase a = h then n else 0)"

definition flow :: "string \<Rightarrow> string option \<Rightarrow> string option \<Rightarrow> int \<Rightarrow> int" where
  "flow h src dst n = held h dst n - held h src n"

definition units_of :: "int \<Rightarrow> (int \<times> int) list \<Rightarrow> int" where
  "units_of i used = sum_list (map snd (filter (\<lambda>p. fst p = i) used))"

definition movement_flow :: "string \<Rightarrow> string \<Rightarrow> int \<Rightarrow> movement \<Rightarrow> int" where
  "movement_flow m h i mv =
     (if toLowerCase (mv_market mv) = m \<and> mv_outcome mv = i then flow h (mv_from mv) (mv_to mv) (mv_remaining mv) else 0)"

definition movements_flow :: "string \<Rightarrow> string \<Rightarrow> int \<Rightarrow> movement list \<Rightarrow> int" where
  "movements_flow m h i ms = sum_list (map (movement_flow m h i) ms)"

text \<open>What a fact says has moved to a holder; \<open>mk\<close> is the marketplace.\<close>

definition share_flow ::
  "string \<Rightarrow> string \<Rightarrow> string \<Rightarrow> int \<Rightarrow> fact_kind \<Rightarrow> string option \<Rightarrow> string option \<Rightarrow> string option \<Rightarrow> int option \<Rightarrow>
   int option \<Rightarrow> (string \<times> json) list \<Rightarrow> int" where
  "share_flow mk m h i k market w c out units extra =
     (if map_option toLowerCase market \<noteq> Some m then 0
      else let u = (case units of None \<Rightarrow> 0 | Some n \<Rightarrow> n); of_outcome = (\<lambda>n. if out = Some i then n else 0) in
      case k of
        FK_primary_buy \<Rightarrow> of_outcome (held h w u)
      | FK_share_transfer \<Rightarrow> of_outcome (flow h w c u)
      | FK_listing_created \<Rightarrow> if w = None then 0 else of_outcome (flow h w (Some mk) u)
      | FK_listing_filled \<Rightarrow>
          if w = None then 0
          else of_outcome (flow h (if map_of extra ''escrowed'' = Some (JBool False) then c else Some mk) w u)
      | FK_listing_cancelled \<Rightarrow> if w = None then 0 else of_outcome (flow h (Some mk) w u)
      | FK_listing_returned \<Rightarrow> if w = None then 0 else of_outcome (flow h (Some mk) w u)
      | FK_winner_claimed \<Rightarrow> - held h w (units_of i (case consumed_of (map_of extra ''consumed'') of Inr ps \<Rightarrow> ps | Inl _ \<Rightarrow> []))
      | FK_refunded \<Rightarrow> - held h w (units_of i (case consumed_of (map_of extra ''consumed'') of Inr ps \<Rightarrow> ps | Inl _ \<Rightarrow> []))
      | FK_losing_burned \<Rightarrow> - held h w (units_of i (case consumed_of (map_of extra ''consumed'') of Inr ps \<Rightarrow> ps | Inl _ \<Rightarrow> []))
      | _ \<Rightarrow> 0)"

definition fact_flow :: "string \<Rightarrow> string \<Rightarrow> string \<Rightarrow> int \<Rightarrow> ledger_fact \<Rightarrow> int" where
  "fact_flow mk m h i f =
     share_flow mk m h i (lf_kind f) (lf_market f) (lf_owner f) (lf_counterparty f)
       (map_option int (lf_outcomeId f)) (map_option int (lf_units f)) (lf_extra f)"

definition facts_flow :: "string \<Rightarrow> string \<Rightarrow> string \<Rightarrow> int \<Rightarrow> ledger_fact list \<Rightarrow> int" where
  "facts_flow mk m h i fs = sum_list (map (fact_flow mk m h i) fs)"

definition draft_flow :: "string \<Rightarrow> string \<Rightarrow> string \<Rightarrow> int \<Rightarrow> fact_draft \<Rightarrow> int" where
  "draft_flow mk m h i d =
     share_flow mk m h i (fr_kind d) (fr_market d) (fr_owner d) (fr_counterparty d) (fr_outcomeId d) (fr_units d) (fr_extra d)"

definition no_gap :: "ledger_fact list \<Rightarrow> bool" where
  "no_gap fs = list_all (\<lambda>f. lf_kind f \<noteq> FK_coverage_gap) fs"

lemma held_add: "held h w (a + b) = held h w a + held h w b"
  by (simp add: held_def split: option.split)

lemma held_zero [simp]: "held h w 0 = 0"
  by (simp add: held_def split: option.split)

lemma held_None [simp]: "held h None n = 0"
  by (simp add: held_def)

lemma flow_add: "flow h s d (a + b) = flow h s d a + flow h s d b"
  by (simp add: flow_def held_add)

lemma flow_zero [simp]: "flow h s d 0 = 0"
  by (simp add: flow_def)

lemma held_cong: "map_option toLowerCase w = map_option toLowerCase w' \<Longrightarrow> held h w n = held h w' n"
  by (auto simp: held_def split: option.splits)

lemma flow_cong:
  "map_option toLowerCase s = map_option toLowerCase s' \<Longrightarrow> map_option toLowerCase d = map_option toLowerCase d' \<Longrightarrow>
   flow h s d n = flow h s' d' n"
  by (simp add: flow_def held_cong [of s s'] held_cong [of d d'])

lemma units_of_simps [simp]:
  "units_of i [] = 0"
  "units_of i ((j, n) # used) = (if j = i then n else 0) + units_of i used"
  "units_of i (used @ used') = units_of i used + units_of i used'"
  by (simp_all add: units_of_def)

lemma movements_flow_simps [simp]:
  "movements_flow m h i [] = 0"
  "movements_flow m h i (mv # ms) = movement_flow m h i mv + movements_flow m h i ms"
  by (simp_all add: movements_flow_def)

lemma facts_flow_simps [simp]:
  "facts_flow mk m h i [] = 0"
  "facts_flow mk m h i (fs @ gs) = facts_flow mk m h i fs + facts_flow mk m h i gs"
  "facts_flow mk m h i [f] = fact_flow mk m h i f"
  by (simp_all add: facts_flow_def)

lemma no_gap_simps [simp]:
  "no_gap []" "no_gap (fs @ gs) = (no_gap fs \<and> no_gap gs)" "no_gap [f] = (lf_kind f \<noteq> FK_coverage_gap)"
  by (simp_all add: no_gap_def)

lemma matchesAddress_iff: "matchesAddress a b \<longleftrightarrow> map_option toLowerCase a = map_option toLowerCase b"
  by (auto simp: matchesAddress_def sameAddress_def split: option.splits)

section \<open>Consuming movements\<close>

definition sound_movement :: "movement \<Rightarrow> bool" where
  "sound_movement mv = (0 \<le> mv_outcome mv \<and> 0 \<le> mv_remaining mv)"

lemma consume_sound:
  "consume P n ms = (used, ms') \<Longrightarrow> list_all sound_movement ms \<Longrightarrow>
     list_all sound_movement ms' \<and> list_all (\<lambda>p. 0 \<le> fst p \<and> 0 \<le> snd p) used"
  by (induction P n ms arbitrary: used ms' rule: consume.induct)
     (auto simp: Let_def sound_movement_def split: if_splits prod.splits)

text \<open>What is used of an outcome is what the movements lose of it.\<close>

lemma consume_flow:
  assumes "consume P n ms = (used, ms')"
    and "\<And>mv. P mv \<Longrightarrow> toLowerCase (mv_market mv) = mk \<and> (\<forall>x. flow h (mv_from mv) (mv_to mv) x = flow h src dst x)"
  shows "movements_flow m h i ms = movements_flow m h i ms' + (if mk = m then flow h src dst (units_of i used) else 0)"
  using assms
proof (induction P n ms arbitrary: used ms' rule: consume.induct)
  case (2 P n mv ms)
  show ?case
  proof (cases "\<not> P mv \<or> mv_remaining mv = 0")
    case True
    then show ?thesis using 2 by (auto split: prod.splits)
  next
    case False
    define take where "take = (if n < mv_remaining mv then n else mv_remaining mv)"
    define mv' where "mv' = (if 0 < take then mv\<lparr>mv_remaining := mv_remaining mv - take\<rparr> else mv)"
    define part where "part = (if 0 < take then [(mv_outcome mv, take)] else [])"
    have P: "toLowerCase (mv_market mv) = mk" "\<And>x. flow h (mv_from mv) (mv_to mv) x = flow h src dst x"
      using 2(4) False by auto
    have "flow h src dst (mv_remaining mv) = flow h src dst (mv_remaining mv - take) + flow h src dst take"
      by (simp flip: flow_add)
    then have head: "movement_flow m h i mv = movement_flow m h i mv' + (if mk = m then flow h src dst (units_of i part) else 0)"
      by (simp add: movement_flow_def mv'_def part_def P)
    show ?thesis
    proof (cases "(if 0 < take then n - take else n) = 0")
      case stop: True
      then have "used = part" "ms' = mv' # ms"
        using 2(3) False by (auto simp: Let_def take_def mv'_def part_def split: if_splits)
      then show ?thesis using head by simp
    next
      case go: False
      then obtain used1 ms1 where rest: "consume P (if 0 < take then n - take else n) ms = (used1, ms1)"
        and eqs: "used = part @ used1" "ms' = mv' # ms1"
        using 2(3) False by (auto simp: Let_def take_def mv'_def part_def split: if_splits prod.splits)
      have "movements_flow m h i ms = movements_flow m h i ms1 + (if mk = m then flow h src dst (units_of i used1) else 0)"
        using 2(2) [OF False take_def refl refl refl refl _ _ 2(4)] rest go by blast
      then show ?thesis using head by (simp add: eqs flow_add)
    qed
  qed
qed simp

lemma consume_outcome:
  "consume P n ms = (used, ms') \<Longrightarrow> (\<And>mv. P mv \<Longrightarrow> mv_outcome mv = j) \<Longrightarrow>
     units_of i used = (if j = i then used_units used else 0)"
proof (induction P n ms arbitrary: used ms' rule: consume.induct)
  case (2 P n mv ms)
  then show ?case
    by (auto simp: Let_def used_units_def split: if_splits prod.splits)
qed (simp add: used_units_def)


section \<open>From drafts to facts\<close>

text \<open>getAddress restores the checksum of an address: its letters change in case only.\<close>

definition keeps_letters :: "fin_lib \<Rightarrow> bool" where
  "keeps_letters lib = (\<forall>s a. ab_address lib s = Some a \<longrightarrow> toLowerCase a = toLowerCase s)"

lemma schema_address_letters:
  "schema_address lib s = Inr a \<Longrightarrow> keeps_letters lib \<Longrightarrow> toLowerCase a = toLowerCase s"
  by (auto simp: schema_address_def keeps_letters_def split: if_splits option.splits)

lemma optional_address_letters:
  "optional_of (schema_address lib) w = Inr w' \<Longrightarrow> keeps_letters lib \<Longrightarrow>
     map_option toLowerCase w' = map_option toLowerCase w"
  by (cases w) (auto simp: schema_address_letters)

lemma optional_uint_int: "optional_of schema_uint n = Inr n' \<Longrightarrow> map_option int n' = n"
  by (cases n) (auto simp: schema_uint_def uint_ok_def split: if_splits)

lemma fact_of_fields:
  assumes "fact_of lib ts e d = Inr f" "keeps_letters lib"
  shows "lf_kind f = fr_kind d" "lf_extra f = fr_extra d"
    "map_option toLowerCase (lf_market f) = map_option toLowerCase (fr_market d)"
    "map_option toLowerCase (lf_owner f) = map_option toLowerCase (fr_owner d)"
    "map_option toLowerCase (lf_counterparty f) = map_option toLowerCase (fr_counterparty d)"
    "map_option int (lf_outcomeId f) = fr_outcomeId d" "map_option int (lf_units f) = fr_units d"
  using assms
  by (auto simp: fact_of_def optional_address_letters optional_uint_int split: option.splits)

lemma share_flow_cong:
  assumes "map_option toLowerCase market = map_option toLowerCase market'" "map_option toLowerCase w = map_option toLowerCase w'"
    "map_option toLowerCase c = map_option toLowerCase c'"
  shows "share_flow mk m h i k market w c out u extra = share_flow mk m h i k market' w' c' out u extra"
proof -
  have w: "w = None \<longleftrightarrow> w' = None" using assms(2) by (cases w; cases w') auto
  have h: "held h w n = held h w' n" "held h c n = held h c' n" for n
    by (rule held_cong; fact)+
  show ?thesis by (simp only: share_flow_def flow_def Let_def assms(1) w h if_distrib [of "\<lambda>x. held h x n" for n] split: if_split)
qed

lemma fact_flow_of:
  assumes "fact_of lib ts e d = Inr f" "keeps_letters lib"
  shows "fact_flow mk m h i f = draft_flow mk m h i d"
  unfolding fact_flow_def draft_flow_def fact_of_fields(1,2,6,7) [OF assms]
  by (rule share_flow_cong; rule fact_of_fields [OF assms])

definition drafts_flow :: "string \<Rightarrow> string \<Rightarrow> string \<Rightarrow> int \<Rightarrow> fact_draft list \<Rightarrow> int" where
  "drafts_flow mk m h i ds = sum_list (map (draft_flow mk m h i) ds)"

lemma drafts_flow_simps [simp]:
  "drafts_flow mk m h i [] = 0" "drafts_flow mk m h i (d # ds) = draft_flow mk m h i d + drafts_flow mk m h i ds"
  by (simp_all add: drafts_flow_def)

definition total_flow :: "string \<Rightarrow> string \<Rightarrow> string \<Rightarrow> int \<Rightarrow> fin_state \<Rightarrow> int" where
  "total_flow mk m h i s = movements_flow m h i (fs_movements s) + facts_flow mk m h i (fs_facts s)"

text \<open>
  The step relation of the proofs: \<open>s'\<close> keeps what \<open>s\<close> has, and when it reports no gap its total is
  that of \<open>s\<close> plus \<open>x\<close>.
\<close>

definition grows :: "string \<Rightarrow> string \<Rightarrow> string \<Rightarrow> int \<Rightarrow> int \<Rightarrow> fin_state \<Rightarrow> fin_state \<Rightarrow> bool" where
  "grows mk m h i x s s' =
     ((\<exists>fs. fs_facts s' = fs_facts s @ fs) \<and>
      (list_all sound_movement (fs_movements s) \<longrightarrow> list_all sound_movement (fs_movements s')) \<and>
      (no_gap (fs_facts s') \<longrightarrow> list_all sound_movement (fs_movements s) \<longrightarrow>
         total_flow mk m h i s' = total_flow mk m h i s + x))"

lemma grows_refl [simp]: "grows mk m h i 0 s s"
  by (simp add: grows_def)

lemma grows_trans: "grows mk m h i x s s' \<Longrightarrow> grows mk m h i y s' s'' \<Longrightarrow> grows mk m h i (x + y) s s''"
  unfolding grows_def by (elim conjE exE) (simp)

lemma grows_add:
  "fin_add lib ts e d s = Inr s' \<Longrightarrow> keeps_letters lib \<Longrightarrow> grows mk m h i (draft_flow mk m h i d) s s'"
  by (auto simp: fin_add_def grows_def total_flow_def fact_flow_of)

lemma grows_adds:
  "fin_adds lib ts e ds s = Inr s' \<Longrightarrow> keeps_letters lib \<Longrightarrow> grows mk m h i (drafts_flow mk m h i ds) s s'"
  by (induction ds arbitrary: s) (auto dest: grows_add intro: grows_trans)

lemma fin_adds_movements: "fin_adds lib ts e ds s = Inr s' \<Longrightarrow> fs_movements s' = fs_movements s"
  by (induction ds arbitrary: s) (auto simp: fin_add_def)

lemma coverage_cases:
  assumes "fin_coverage lib ts e market holder u used s = Inr s'"
  shows "(used_units used = u \<and> s' = s) \<or> (\<not> no_gap (fs_facts s') \<and> (\<exists>f. fs_facts s' = fs_facts s @ [f]) \<and> fs_movements s' = fs_movements s)"
  using assms
  by (auto simp: fin_coverage_def fin_add_def fact_of_def draft_def split: if_splits option.splits)

lemma explain_grows:
  assumes run: "explain lib ts e market src dst u out holder drafts s = Inr s'" and letters: "keeps_letters lib"
    and flows: "\<And>used. used_units used = u \<Longrightarrow> list_all (\<lambda>p. 0 \<le> fst p \<and> 0 \<le> snd p) used \<Longrightarrow>
      (\<And>j. out = Some j \<Longrightarrow> units_of i used = (if j = i then u else 0)) \<Longrightarrow>
      drafts_flow mk m h i (drafts used) = (if toLowerCase market = m then flow h src dst (units_of i used) else 0)"
  shows "grows mk m h i 0 s s'"
proof -
  obtain used ms where c: "consume (movement_matches e market src dst out) u (fs_movements s) = (used, ms)"
    by fastforce
  obtain s1 where adds: "fin_adds lib ts e (drafts used) (s\<lparr>fs_movements := ms\<rparr>) = Inr s1"
    and cov: "fin_coverage lib ts e market holder u used s1 = Inr s'"
    using run by (auto simp: explain_def c)
  have moved: "movements_flow m h i (fs_movements s) =
      movements_flow m h i ms + (if toLowerCase market = m then flow h src dst (units_of i used) else 0)"
    by (rule consume_flow [OF c])
       (auto simp: movement_matches_def matchesAddress_iff sameAddress_def intro!: flow_cong)
  have out: "units_of i used = (if j = i then used_units used else 0)" if "out = Some j" for j
    using consume_outcome [OF c, of j i] that by (auto simp: movement_matches_def)
  have ext: "\<exists>fs. fs_facts s1 = fs_facts s @ fs" and keep: "fs_movements s1 = ms"
    using grows_adds [OF adds letters, of mk m h i] fin_adds_movements [OF adds] by (auto simp: grows_def)
  have sound: "list_all sound_movement (fs_movements s) \<Longrightarrow> list_all sound_movement ms"
    "list_all sound_movement (fs_movements s) \<Longrightarrow> list_all (\<lambda>p. 0 \<le> fst p \<and> 0 \<le> snd p) used"
    using consume_sound [OF c] by auto
  from coverage_cases [OF cov] show ?thesis
  proof
    assume ok: "used_units used = u \<and> s' = s1"
    have "total_flow mk m h i s1 = total_flow mk m h i s"
      if "no_gap (fs_facts s1)" "list_all sound_movement (fs_movements s)"
    proof -
      have "total_flow mk m h i s1 = total_flow mk m h i (s\<lparr>fs_movements := ms\<rparr>) + drafts_flow mk m h i (drafts used)"
        using grows_adds [OF adds letters, of mk m h i] that sound(1) by (simp add: grows_def)
      moreover have "drafts_flow mk m h i (drafts used) = (if toLowerCase market = m then flow h src dst (units_of i used) else 0)"
        using flows [of used] ok out sound(2) that by auto
      ultimately show ?thesis using moved by (simp add: total_flow_def)
    qed
    then show ?thesis using ok ext keep sound(1) by (simp add: grows_def)
  next
    assume "\<not> no_gap (fs_facts s') \<and> (\<exists>f. fs_facts s' = fs_facts s1 @ [f]) \<and> fs_movements s' = fs_movements s1"
    then show ?thesis using ext keep sound(1) by (auto simp: grows_def)
  qed
qed


section \<open>Handlers\<close>

text \<open>What viem guarantees of the events: unsigned integers, and a Boolean \<open>escrowed\<close> on trades only.\<close>

fun unsigned_value :: "abi_value \<Rightarrow> bool" where
  "unsigned_value (AbiBig n) = (0 \<le> n)"
| "unsigned_value (AbiArray vs) = list_all unsigned_value vs"
| "unsigned_value _ = True"

definition decoded_shape :: "decoded \<Rightarrow> bool" where
  "decoded_shape de =
     (list_all (\<lambda>p. unsigned_value (snd p)) (de_args de) \<and>
      (if de_name de = ''TradeExecuted''
       then map_of (de_args de) ''escrowed'' \<in> {Some (AbiBool True), Some (AbiBool False)} else True) \<and>
      (if de_name de = ''ListingFilled'' then map_of (de_args de) ''escrowed'' = None else True))"

lemma map_of_jsonSafe [simp]: "map_of (jsonSafe a) k = map_option json_of (map_of a k)"
  by (induction a) (auto simp: jsonSafe_def)

lemma spread_simps [simp]: "spread a [] = a" "spread a ((k, v) # b) = spread (AList.update k v a) b"
  by (simp_all add: spread_def)

lemma draft_flow_draft [simp]: "draft_flow mk m h i d = share_flow mk m h i (fr_kind d) (fr_market d) (fr_owner d)
    (fr_counterparty d) (fr_outcomeId d) (fr_units d) (fr_extra d)"
  by (simp add: draft_flow_def)

lemma draft_simps [simp]:
  "fr_kind (draft k x) = k" "fr_extra (draft k x) = x" "fr_market (draft k x) = None" "fr_owner (draft k x) = None"
  "fr_counterparty (draft k x) = None" "fr_outcomeId (draft k x) = None" "fr_units (draft k x) = None"
  by (simp_all add: draft_def)

lemmas flow_simps = share_flow_def Let_def flow_def held_def

text \<open>Handlers are followed bind by bind: a step either computes a value or passes the state on.\<close>

definition keeps :: "string \<Rightarrow> string \<Rightarrow> string \<Rightarrow> int \<Rightarrow> fin_state \<Rightarrow> fin_state outcome \<Rightarrow> bool" where
  "keeps mk m h i s r = (\<forall>s'. r = Inr s' \<longrightarrow> grows mk m h i 0 s s')"

lemma keeps_Inr: "keeps mk m h i s (Inr s)"
  by (simp add: keeps_def)

lemma keeps_Inl: "keeps mk m h i s (Inl err)"
  by (simp add: keeps_def)

lemma keeps_step: "keeps mk m h i s r \<Longrightarrow> (\<And>s'. keeps mk m h i s' (g s')) \<Longrightarrow> keeps mk m h i s (outcome_bind r g)"
  unfolding keeps_def using grows_trans [of mk m h i 0 s _ 0] by fastforce

lemma keeps_value: "(\<And>a. r = Inr a \<Longrightarrow> keeps mk m h i s (g a)) \<Longrightarrow> keeps mk m h i s (outcome_bind r g)"
  by (auto simp: keeps_def)

lemma keeps_if: "(b \<Longrightarrow> keeps mk m h i s r) \<Longrightarrow> (\<not> b \<Longrightarrow> keeps mk m h i s r') \<Longrightarrow> keeps mk m h i s (if b then r else r')"
  by simp

lemma keeps_prod: "(\<And>a b. p = (a, b) \<Longrightarrow> keeps mk m h i s (g a b)) \<Longrightarrow> keeps mk m h i s (case p of (a, b) \<Rightarrow> g a b)"
  by (cases p) simp

lemma keeps_option:
  "(v = None \<Longrightarrow> keeps mk m h i s r) \<Longrightarrow> (\<And>a. v = Some a \<Longrightarrow> keeps mk m h i s (g a)) \<Longrightarrow>
   keeps mk m h i s (case v of None \<Rightarrow> r | Some a \<Rightarrow> g a)"
  by (cases v) simp_all

lemma keeps_add:
  "keeps_letters lib \<Longrightarrow> draft_flow mk m h i d = 0 \<Longrightarrow> keeps mk m h i s (fin_add lib ts e d s)"
  unfolding keeps_def using grows_add [of lib ts e d s _ mk m h i] by auto

lemma keeps_explain:
  assumes "keeps_letters lib"
    "\<And>used. used_units used = u \<Longrightarrow> list_all (\<lambda>p. 0 \<le> fst p \<and> 0 \<le> snd p) used \<Longrightarrow>
      (\<And>j. out = Some j \<Longrightarrow> units_of i used = (if j = i then u else 0)) \<Longrightarrow>
      drafts_flow mk m h i (drafts used) = (if toLowerCase market = m then flow h src dst (units_of i used) else 0)"
  shows "keeps mk m h i s (explain lib ts e market src dst u out holder drafts s)"
  unfolding keeps_def using explain_grows [OF _ assms] by blast

lemmas keeps_rules = keeps_Inr keeps_Inl keeps_add keeps_explain keeps_step keeps_value keeps_if keeps_prod keeps_option

lemma keeps_market_created: "keeps_letters lib \<Longrightarrow> keeps mk m h i s (handle_market_created lib ts de s)"
  unfolding handle_market_created_def Let_def by (rule keeps_rules | simp add: flow_simps)+

lemma keeps_order_created: "keeps_letters lib \<Longrightarrow> keeps mk m h i s (handle_order_created lib ts de s)"
  unfolding handle_order_created_def Let_def by (rule keeps_rules | simp add: flow_simps)+

lemma keeps_ask_created:
  "keeps_letters lib \<Longrightarrow> keeps (rn_marketplace d) m h i s (handle_ask_created lib ts d de s)"
  unfolding handle_ask_created_def Let_def by (rule keeps_rules | simp add: flow_simps)+

lemma keeps_bid_excess: "keeps_letters lib \<Longrightarrow> keeps mk m h i s (handle_bid_excess lib ts cx de s)"
  unfolding handle_bid_excess_def Let_def by (rule keeps_rules | simp add: flow_simps)+

lemma keeps_order_released:
  "keeps_letters lib \<Longrightarrow> keeps (rn_marketplace (fc_deployment cx)) m h i s (handle_order_released lib ts cx de s)"
  unfolding handle_order_released_def Let_def by (rule keeps_rules | simp add: flow_simps)+

lemma keeps_shares_deferred: "keeps_letters lib \<Longrightarrow> keeps mk m h i s (handle_shares_deferred lib ts cx de s)"
  unfolding handle_shares_deferred_def Let_def by (rule keeps_rules | simp add: flow_simps)+

lemma keeps_shares_withdrawn:
  "keeps_letters lib \<Longrightarrow> keeps (rn_marketplace (fc_deployment cx)) m h i s (handle_shares_withdrawn lib ts cx de s)"
  unfolding handle_shares_withdrawn_def Let_def by (rule keeps_rules | simp add: flow_simps sameAddress_def)+

lemma keeps_trade:
  assumes "keeps_letters lib" "map_of (de_args de) ''escrowed'' \<in> {Some (AbiBool True), Some (AbiBool False)}"
  shows "keeps (rn_marketplace d) m h i s (handle_trade lib ts d de s)"
proof -
  have drafts: "draft_flow (rn_marketplace d) m h i ((draft FK_listing_filled (spread (jsonSafe (de_args de)) [(''orderbook'', JBool True),
        (''remainingUnits'', x), (''sellerProceeds'', y)]))
      \<lparr>fr_market := Some v, fr_owner := Some b, fr_counterparty := Some r, fr_units := Some u, fr_outcomeId := Some j,
       fr_amount := z, fr_listingId := l\<rparr>) =
     (if toLowerCase v = m \<and> j = i
      then flow h (Some (if map_of (de_args de) ''escrowed'' = Some (AbiBool True) then rn_marketplace d else r)) (Some b) u else 0)"
    for x y z v b r u j l
    using assms(2) by (auto simp: share_flow_def Let_def update_conv')
  show ?thesis
    unfolding handle_trade_def Let_def
    by (rule keeps_rules | simp add: drafts assms(1) del: draft_flow_draft spread_simps)+
qed

lemma keeps_listing:
  assumes "keeps_letters lib" "decoded_shape de"
  shows "keeps (rn_marketplace (fc_deployment cx)) m h i s (handle_listing lib ts cx de s)"
  using assms
  unfolding handle_listing_def Let_def
  by - (rule keeps_rules | simp add: flow_simps decoded_shape_def)+

lemma keeps_fee: "keeps_letters lib \<Longrightarrow> keeps mk m h i s (handle_fee lib ts cx de s)"
  unfolding handle_fee_def Let_def by (rule keeps_rules | simp add: share_flow_def)+

lemma bond_kind_cases:
  "bond_kind name = Some k \<Longrightarrow> k \<in> {FK_bond_locked, FK_bond_credited, FK_bond_timeout_funded, FK_bond_claimed}"
  by (auto simp: bond_kind_def split: if_splits)

lemma keeps_bond: "keeps_letters lib \<Longrightarrow> keeps mk m h i s (handle_bond lib ts de s)"
  unfolding handle_bond_def Let_def
  by (rule keeps_rules | (drule bond_kind_cases, force simp: share_flow_def))+

lemma keeps_payment: "keeps_letters lib \<Longrightarrow> keeps mk m h i s (handle_payment lib ts cx de s)"
  unfolding handle_payment_def Let_def by (rule keeps_rules | simp add: share_flow_def)+

lemma keeps_purchase: "keeps_letters lib \<Longrightarrow> keeps mk m h i s (handle_purchase lib ts de s)"
  unfolding handle_purchase_def Let_def by (rule keeps_rules | simp add: flow_simps)+

lemma keeps_voided: "keeps_letters lib \<Longrightarrow> keeps mk m h i s (handle_voided lib ts cx de s)"
  unfolding handle_voided_def Let_def by (rule keeps_rules | simp add: share_flow_def)+

lemma digits_field_dec: "map_of fs k = Some (JStr (dec n)) \<Longrightarrow> 0 \<le> n \<Longrightarrow> digits_field k (JObj fs) = Inr n"
  by (simp add: digits_field_def dec_def)

lemma consumed_of_json:
  "list_all (\<lambda>p. 0 \<le> fst p \<and> 0 \<le> snd p) used \<Longrightarrow> consumed_of (Some (json_consumed used)) = Inr used"
  by (induction used) (auto simp: consumed_of_def json_consumed_def digits_field_dec)

lemma keeps_burn:
  assumes "keeps_letters lib"
    "de_name de = ''WinnerClaimed'' \<or> de_name de = ''PrincipalRefunded'' \<or> de_name de = ''LosingPositionBurned''"
  shows "keeps mk m h i s (handle_burn lib ts de s)"
proof -
  have "map_of (spread a [(k, v)]) k = Some v" for a :: "(string \<times> json) list" and k v
    by (simp add: update_conv')
  then show ?thesis
    using assms unfolding handle_burn_def Let_def
    by - (rule keeps_rules | simp add: flow_simps consumed_of_json del: spread_simps)+
qed

lemma keeps_market_event_fact:
  assumes "keeps_letters lib"
    "k \<in> {FK_market_initialized, FK_market_metadata, FK_economic_snapshot, FK_market_resolved, FK_early_bird_claimed,
      FK_timeout_claimed, FK_timeout_funded, FK_remainder_assigned}"
  shows "keeps mk m h i s (market_event_fact lib ts de k own outc units amt s)"
  using assms(1) unfolding market_event_fact_def Let_def
  by - (rule keeps_rules | use assms(2) in \<open>force simp: share_flow_def\<close>)+

lemma keeps_market: "keeps_letters lib \<Longrightarrow> keeps mk m h i s (handle_market lib ts cx de s)"
  unfolding handle_market_def Let_def
  by (rule keeps_if keeps_market_event_fact keeps_purchase keeps_voided keeps_burn keeps_Inr | assumption | simp)+

lemma keeps_rest:
  assumes "keeps_letters lib" "decoded_shape de"
  shows "keeps (rn_marketplace (fc_deployment cx)) m h i s (handle_rest lib ts cx de s)"
  using assms unfolding handle_rest_def Let_def
  by - (rule keeps_listing keeps_fee keeps_bond keeps_payment keeps_market keeps_rules | assumption | simp add: share_flow_def)+

lemma keeps_event:
  assumes "keeps_letters lib" "decoded_shape de"
  shows "keeps (rn_marketplace (fc_deployment cx)) m h i s (handle_event lib ts cx de s)"
  using assms unfolding handle_event_def handle_orderbook_def
  by - (rule keeps_market_created keeps_order_created keeps_ask_created keeps_bid_excess keeps_order_released keeps_shares_deferred
      keeps_shares_withdrawn keeps_trade keeps_rest keeps_if keeps_Inr keeps_step | assumption | simp add: decoded_shape_def)+

lemma keeps_events:
  assumes "keeps_letters lib" "list_all decoded_shape ds"
  shows "keeps (rn_marketplace (fc_deployment cx)) m h i s (handle_events lib ts cx ds s)"
  using assms(2) by (induction ds arbitrary: s) (simp_all add: keeps_Inr keeps_step keeps_event assms(1))


section \<open>The facts account for the transfers\<close>

lemma unsigned_arg: "list_all (\<lambda>p. unsigned_value (snd p)) a \<Longrightarrow> map_of a k = Some v \<Longrightarrow> unsigned_value v"
  by (auto simp: list_all_iff dest!: map_of_SomeD)

lemma fin_amount_value: "fin_amount (Some v) = Inr n \<Longrightarrow> unsigned_value v \<Longrightarrow> 0 \<le> n"
  by (auto simp: fin_amount_def safe_nonnegative_def split: abi_value.splits if_splits)

lemma fin_amount_arg: "fin_amount (map_of a k) = Inr n \<Longrightarrow> list_all (\<lambda>p. unsigned_value (snd p)) a \<Longrightarrow> 0 \<le> n"
  using unsigned_arg [of a k] fin_amount_value by (cases "map_of a k") (auto simp: fin_amount_def)

lemma single_movement_sound:
  "single_movement lib de = Inr ms \<Longrightarrow> decoded_shape de \<Longrightarrow> list_all sound_movement ms"
  by (auto simp: single_movement_def decoded_shape_def sound_movement_def Let_def dest: fin_amount_arg)

lemma batch_movements_sound:
  "batch_movements lib de k ivs = Inr ms \<Longrightarrow> list_all (\<lambda>(i, v). unsigned_value i \<and> unsigned_value v) ivs \<Longrightarrow>
     list_all sound_movement ms"
  by (induction ivs arbitrary: k ms) (auto simp: sound_movement_def Let_def elim!: fin_amount_value)

lemma event_movements_sound:
  assumes "event_movements lib markets de = Inr ms" "decoded_shape de"
  shows "list_all sound_movement ms"
proof -
  have "list_all (\<lambda>(i, v). unsigned_value i \<and> unsigned_value v) (zip vs ws)"
    if "map_of (de_args de) k = Some (AbiArray vs)" "map_of (de_args de) l = Some (AbiArray ws)" for k l vs ws
    using unsigned_arg [of "de_args de"] that assms(2)
    by (fastforce simp: decoded_shape_def list_all_iff dest: set_zip_leftD set_zip_rightD)
  then show ?thesis
    using assms
    by (auto simp: event_movements_def split: if_splits option.splits abi_value.splits
        intro: single_movement_sound batch_movements_sound)
qed

lemma all_movements_sound:
  assumes "all_movements lib markets ds = Inr ms" "list_all decoded_shape ds"
  shows "list_all sound_movement ms"
proof -
  have "traverse (event_movements lib markets) ds = Inr mss \<Longrightarrow> list_all sound_movement (concat mss)" for mss
    using assms(2) by (induction ds arbitrary: mss) (auto dest: event_movements_sound)
  then show ?thesis using assms(1) by (auto simp: all_movements_def)
qed

lemma left_overs_flow:
  "left_overs lib ts ms s = Inr s' \<Longrightarrow> keeps_letters lib \<Longrightarrow> list_all sound_movement ms \<Longrightarrow>
     (\<exists>fs. fs_facts s' = fs_facts s @ fs) \<and>
     facts_flow mk m h i (fs_facts s') = facts_flow mk m h i (fs_facts s) + movements_flow m h i ms"
proof (induction ms arbitrary: s)
  case (Cons mv ms)
  show ?case
  proof (cases "0 < mv_remaining mv")
    case True
    then obtain s1 where add: "fin_add lib ts (mv_event mv) (left_over mv) s = Inr s1"
      and rest: "left_overs lib ts ms s1 = Inr s'"
      using Cons.prems(1) by auto
    have "draft_flow mk m h i (left_over mv) = movement_flow m h i mv"
      by (auto simp: left_over_def movement_flow_def share_flow_def Let_def)
    then have "\<exists>f. fs_facts s1 = fs_facts s @ [f] \<and> fact_flow mk m h i f = movement_flow m h i mv"
      using add Cons.prems(2) fact_flow_of [OF _ Cons.prems(2)] by (auto simp: fin_add_def simp del: draft_flow_draft)
    then show ?thesis using Cons.IH [OF rest] Cons.prems by auto
  next
    case False
    then have "movement_flow m h i mv = 0"
      using Cons.prems(3) by (simp add: sound_movement_def movement_flow_def)
    then show ?thesis using Cons False by simp
  qed
qed simp

lemma facts_flow_sort: "facts_flow mk m h i (js_sort cmp fs) = facts_flow mk m h i fs"
  by (simp add: facts_flow_def flip: sum_mset_sum_list)

lemma no_gap_sort: "no_gap (js_sort cmp fs) = no_gap fs"
  by (simp add: no_gap_def list_all_iff)

text \<open>What the transfers of a scan bring to a holder.\<close>

definition scan_events :: "fin_lib \<Rightarrow> indexed_event list \<Rightarrow> fin_context \<Rightarrow> decoded list outcome" where
  "scan_events lib events cx = fin_decode lib (dp_protocol (fc_deployment cx)) (js_sort compareRaw events)"

definition scan_movements :: "fin_lib \<Rightarrow> indexed_event list \<Rightarrow> fin_context \<Rightarrow> movement list" where
  "scan_movements lib events cx =
     (case outcome_bind (scan_events lib events cx) (\<lambda>ds.
        outcome_bind (note_creations lib ds cx) (\<lambda>cx1. all_movements lib (fc_markets cx1) ds)) of
        Inr ms \<Rightarrow> ms
      | Inl _ \<Rightarrow> [])"

definition scan_shape :: "fin_lib \<Rightarrow> indexed_event list \<Rightarrow> fin_context \<Rightarrow> bool" where
  "scan_shape lib events cx = (case scan_events lib events cx of Inr ds \<Rightarrow> list_all decoded_shape ds | Inl _ \<Rightarrow> False)"

lemma note_creations_deployment: "note_creations lib ds cx = Inr cx' \<Longrightarrow> fc_deployment cx' = fc_deployment cx"
proof (induction ds arbitrary: cx)
  case (Cons de ds)
  have "note_creation lib de cx = Inr cx1 \<Longrightarrow> fc_deployment cx1 = fc_deployment cx" for cx1
    by (auto simp: note_creation_def Let_def split: if_splits)
  then show ?case using Cons by fastforce
qed simp

lemma facts_account_for_movements:
  assumes run: "normalizeFinancialFacts lib events blocks cx = Inr facts" and gap: "no_gap facts"
    and letters: "keeps_letters lib" and shape: "scan_shape lib events cx"
  shows "facts_flow (rn_marketplace (fc_deployment cx)) m h i facts = movements_flow m h i (scan_movements lib events cx)"
proof -
  let ?mk = "rn_marketplace (fc_deployment cx)" and ?ts = "block_timestamps blocks"
  obtain ds cx1 ms s s1 where dec: "scan_events lib events cx = Inr ds"
    and noted: "note_creations lib ds cx = Inr cx1" and mov: "all_movements lib (fc_markets cx1) ds = Inr ms"
    and hs: "handle_events lib ?ts cx1 ds \<lparr>fs_movements = ms, fs_facts = []\<rparr> = Inr s"
    and lefts: "left_overs lib ?ts (fs_movements s) s = Inr s1" and facts: "facts = js_sort financialOrder (fs_facts s1)"
    using run by (auto simp: normalizeFinancialFacts_def scan_events_def Let_def)
  have ok: "list_all decoded_shape ds" using shape dec by (simp add: scan_shape_def)
  have "grows ?mk m h i 0 \<lparr>fs_movements = ms, fs_facts = []\<rparr> s"
    using keeps_events [OF letters ok, of cx1 m h i _ ?ts] hs note_creations_deployment [OF noted] by (simp add: keeps_def)
  moreover have "list_all sound_movement ms" by (rule all_movements_sound [OF mov ok])
  ultimately have sound: "list_all sound_movement (fs_movements s)"
    and total: "no_gap (fs_facts s) \<Longrightarrow> total_flow ?mk m h i s = movements_flow m h i ms"
    by (auto simp: grows_def total_flow_def)
  have "no_gap (fs_facts s1)" using gap by (simp add: facts no_gap_sort)
  then have "no_gap (fs_facts s)" using left_overs_flow [OF lefts letters sound, of ?mk m h i] by auto
  then show ?thesis
    using total left_overs_flow [OF lefts letters sound, of ?mk m h i]
    by (simp add: facts facts_flow_sort total_flow_def scan_movements_def dec noted mov)
qed


section \<open>The balances the reconciliation expects\<close>

definition holder_key :: "string \<Rightarrow> string \<Rightarrow> int \<Rightarrow> string list \<Rightarrow> bool" where
  "holder_key m h i k =
     (case k of [c, sg, a, j] \<Rightarrow> c = m \<and> sg = SHARE_SIG \<and> toLowerCase a = h \<and> j = dec i | _ \<Rightarrow> False)"

abbreviation holder_sum :: "string \<Rightarrow> string \<Rightarrow> int \<Rightarrow> recon_values \<Rightarrow> int" where
  "holder_sum m h i vs \<equiv> key_sum (holder_key m h i) vs"

lemma holder_other: "sg \<noteq> SHARE_SIG \<Longrightarrow> holder_sum m h i (recon_add c sg args d r vs) = holder_sum m h i vs"
  by (rule key_sum_replace) (simp add: holder_key_def entry_key_def split: list.split)

lemma holder_shares:
  "holder_sum m h i (recon_shares c w j d vs) =
     holder_sum m h i vs + (if toLowerCase c = m \<and> j = i then held h w d else 0)"
  by (auto simp: recon_shares_def key_sum_add holder_key_def entry_key_def held_def split: option.split)

lemma holder_keep [simp]:
  "holder_sum m h i (recon_scalar c n d r vs) = holder_sum m h i vs"
  "holder_sum m h i (recon_early c a d r vs) = holder_sum m h i vs"
  "holder_sum m h i (recon_credit c a d vs) = holder_sum m h i vs"
  "holder_sum m h i (recon_supply c j d vs) = holder_sum m h i vs"
  "holder_sum m h i (recon_payment env tracked w d vs) = holder_sum m h i vs"
  "holder_sum m h i (recon_add c PAYMENT_SIG args d r vs) = holder_sum m h i vs"
  "holder_sum m h i (recon_add c TIMEOUT_SIG args d r vs) = holder_sum m h i vs"
  "holder_sum m h i (recon_add c PRINCIPAL_SIG args d r vs) = holder_sum m h i vs"
  by (simp_all add: recon_scalar_def recon_early_def recon_credit_def recon_supply_def recon_payment_def holder_other
      split: option.split)

lemma held_minus: "held h w (- n) = - held h w n"
  by (simp add: held_def split: option.split)

lemma holder_transfer:
  "holder_sum m h i (recon_transfer c src dst j u vs) =
     holder_sum m h i vs + (if toLowerCase c = m \<and> j = i then flow h src dst u else 0)"
  by (simp add: recon_transfer_def Let_def holder_shares held_minus flow_def)

lemma holder_consumed:
  assumes "recon_consumed f c a u amount vs = Inr vs'"
  shows "holder_sum m h i vs' = holder_sum m h i vs -
    (if toLowerCase c = m then held h (Some a) (units_of i (case consumed_units f of Inr ps \<Rightarrow> ps | Inl _ \<Rightarrow> [])) else 0)"
proof -
  have "holder_sum m h i (fold (\<lambda>(j, n) vs. recon_supply c j (- n) (recon_shares c (Some a) j (- n) vs)) ps vs) =
      holder_sum m h i vs - (if toLowerCase c = m then held h (Some a) (units_of i ps) else 0)" for ps vs
    by (induction ps arbitrary: vs) (auto simp: holder_shares held_minus held_add)
  then show ?thesis using assms by (auto simp: recon_consumed_def Let_def)
qed

lemma holder_initialized:
  assumes "recon_initialized f c vs = Inr vs'"
  shows "holder_sum m h i vs' = holder_sum m h i vs"
proof -
  have "holder_sum m h i (fold (\<lambda>i. recon_supply c (int i) 0) ns vs) = holder_sum m h i vs" for ns vs
    by (rule fold_keeps) simp
  moreover have "holder_sum m h i (fold (\<lambda>n. recon_scalar c n 0 False) ns vs) = holder_sum m h i vs" for ns
    by (rule fold_keeps) simp
  ultimately show ?thesis
    using assms by (auto simp: recon_initialized_def Let_def split: option.splits if_splits)
qed

lemma holder_market:
  assumes "market_values env f c (lf_owner f) (map_option int (lf_outcomeId f)) u amount vs = Inr vs'"
    "lf_market f = Some c" "u = (case lf_units f of None \<Rightarrow> 0 | Some n \<Rightarrow> int n)"
  shows "holder_sum m h i vs' = holder_sum m h i vs + fact_flow (rn_marketplace env) m h i f"
  using assms
  by (cases "lf_kind f")
     (auto split: option.splits simp: market_values_def recon_buy_def recon_resolved_def fact_flow_def share_flow_def Let_def
       holder_consumed holder_initialized holder_transfer holder_shares held_minus flow_def extra_get_def)


lemma holder_bond:
  "settle_recon_bond env f c amount s = Inr s' \<Longrightarrow> holder_sum m h i (rs_values s') = holder_sum m h i (rs_values s)"
  by (auto simp: settle_recon_bond_def Let_def split: option.splits if_splits)

lemma holder_step:
  assumes "recon_step env tracked f s = Inr s'"
  shows "holder_sum m h i (rs_values s') = holder_sum m h i (rs_values s) + fact_flow (rn_marketplace env) m h i f"
    "lf_kind f \<noteq> FK_coverage_gap"
proof -
  show "lf_kind f \<noteq> FK_coverage_gap" using assms by (simp add: recon_step_def split: if_splits)
  let ?u = "case lf_units f of None \<Rightarrow> 0 | Some n \<Rightarrow> int n" and ?a = "case lf_amount f of None \<Rightarrow> 0 | Some n \<Rightarrow> int n"
  let ?s1 = "case lf_market f of None \<Rightarrow> s | Some c \<Rightarrow> s\<lparr>rs_markets := set_add c (rs_markets s)\<rparr>"
  obtain s2 where first: "(case lf_market f of None \<Rightarrow> Inr ?s1
        | Some c \<Rightarrow> with_values ?s1 (market_values env f c (lf_owner f) (map_option int (lf_outcomeId f)) ?u ?a (rs_values ?s1))) = Inr s2"
    and rest: "holder_sum m h i (rs_values s') = holder_sum m h i (rs_values s2)"
    using assms
    by (cases "lf_kind f"; cases "lf_market f"; cases "lf_owner f")
       (auto simp: recon_step_def with_values_def Let_def dest!: holder_bond [where m = m and h = h and i = i])
  have "holder_sum m h i (rs_values s2) = holder_sum m h i (rs_values s) + fact_flow (rn_marketplace env) m h i f"
    using first holder_market [of env f _ ?u ?a "rs_values s" _ m h i]
    by (cases "lf_market f") (auto simp: with_values_def fact_flow_def share_flow_def)
  then show "holder_sum m h i (rs_values s') = holder_sum m h i (rs_values s) + fact_flow (rn_marketplace env) m h i f"
    using rest by simp
qed

lemma holder_loop:
  "recon_loop env tracked fs s = Inr s' \<Longrightarrow>
     holder_sum m h i (rs_values s') = holder_sum m h i (rs_values s) + facts_flow (rn_marketplace env) m h i fs \<and> no_gap fs"
proof (induction fs arbitrary: s)
  case (Cons f fs)
  then obtain s1 where step: "recon_step env tracked f s = Inr s1" and loop: "recon_loop env tracked fs s1 = Inr s'"
    by auto
  show ?case
    using holder_step(1) [OF step, of m h i] holder_step(2) [OF step] Cons.IH [OF loop] by (simp add: facts_flow_def no_gap_def)
qed simp

lemma holder_opening: "holder_sum m h i (opening_values env accounts opening) = 0"
proof -
  have "holder_sum m h i (fold (\<lambda>a. recon_add c PAYMENT_SIG [ArgAddress a] (g a) False) as' vs) = holder_sum m h i vs"
    for c g as' vs by (rule fold_keeps) simp
  moreover have "holder_sum m h i [] = 0" by (simp add: key_sum_def)
  ultimately show ?thesis by (simp add: opening_values_def Let_def)
qed

text \<open>
  C1. End to end: when the facts normalised from a scan pass the reconciliation's projection, the balance it
  expects of a holder, in every market and outcome, is exactly what the ERC-1155 transfers of the scan bring
  to that holder. No transfer is counted twice (as a purchase and as its mint, as a listing and as its
  escrow) and none is lost.
\<close>

theorem expected_shares_are_transfers:
  assumes facts: "normalizeFinancialFacts lib events blocks cx = Inr facts"
    and checks: "reconciliationChecks env facts accounts opening = Inr checks"
    and same: "rn_marketplace env = rn_marketplace (fc_deployment cx)"
    and letters: "keeps_letters lib" and shape: "scan_shape lib events cx"
  shows "expected_sum (holder_key m h i) checks = movements_flow m h i (scan_movements lib events cx)"
proof -
  let ?s0 = "\<lparr>rs_values = opening_values env accounts opening, rs_bonds = [], rs_markets = []\<rparr>"
  obtain s where run: "recon_loop env (map toLowerCase accounts) (js_sort financialOrder facts) ?s0 = Inr s"
    and c: "checks = recon_checks env s"
    using checks by (auto simp: reconciliationChecks_def Let_def split: if_splits)
  have keyed: "keyed_values (rs_values s)" using keyed.loop [OF run] opening_ok(3) by simp
  have "expected_sum (holder_key m h i) checks = holder_sum m h i (rs_values s)"
    unfolding c by (rule expected_sum_checks [OF keyed]) (simp add: holder_key_def)
  also have "\<dots> = facts_flow (rn_marketplace env) m h i facts" and "no_gap facts"
    using holder_loop [OF run, of m h i] by (simp_all add: holder_opening facts_flow_sort no_gap_sort)
  ultimately show ?thesis
    using facts_account_for_movements [OF facts _ letters shape, of m h i] same by simp
qed


text \<open>A sample: a purchase of seven shares with its mint, and a later transfer of three.\<close>

definition sample_decode :: "string \<Rightarrow> string list \<Rightarrow> string \<Rightarrow> (string \<times> abi_args) outcome" where
  "sample_decode item topics data =
     (if data = ''buy''
      then Inr (''PrimaryPurchased'', [(''buyer'', AbiText ''0xu''), (''outcomeId'', AbiNum 1), (''filledUnits'', AbiBig 7),
             (''payment'', AbiBig 5), (''earlyBirdWeight'', AbiBig 2)])
      else Inr (''TransferSingle'',
             if data = ''mint''
             then [(''from'', AbiText zeroAddress), (''to'', AbiText ''0xU''), (''id'', AbiBig 1), (''value'', AbiBig 7)]
             else [(''from'', AbiText ''0xu''), (''to'', AbiText ''0xv''), (''id'', AbiBig 1), (''value'', AbiBig 3)]))"

definition sample_hash0 :: string where "sample_hash0 = ''0x'' @ replicate 64 (CHR ''0'')"

definition fin_lib0 :: fin_lib where
  "fin_lib0 = \<lparr>ab_event = (\<lambda>p t. Some t), ab_decode = sample_decode, ab_address = Some, ab_bytes = (\<lambda>_. []),
     fl_isAddress = (\<lambda>_. True), fl_toHex32 = (\<lambda>_. Some sample_hash0), fl_entryPoint = ''0xE''\<rparr>"

definition fin_event0 :: "int \<Rightarrow> string \<Rightarrow> indexed_event" where
  "fin_event0 k data = \<lparr>ev_chainId = 1, ev_blockNumber = 5, ev_blockHash = sample_hash0, ev_transactionHash = sample_hash0,
     ev_transactionIndex = 0, ev_logIndex = k, ev_address = ''0xA'', ev_topics = [''0x1''], ev_data = data, ev_status = ConfirmedBlock\<rparr>"

definition fin_context0 :: fin_context where
  "fin_context0 = \<lparr>fc_deployment = \<lparr>rn_paymentToken = ''0xP'', rn_marketplace = ''0xM'', rn_feeVault = ''0xF'',
       rn_bondEscrow = ''0xB'', dp_factory = ''0xC'', dp_protocol = None, dp_orderbook = False, dp_chainId = 1,
       dp_deploymentBlock = 1\<rparr>,
     fc_markets = [''0xa''], fc_listings = [], fc_orders = [], fc_tracked = []\<rparr>"

definition fin_events0 :: "indexed_event list" where
  "fin_events0 = [fin_event0 2 ''move'', fin_event0 1 ''buy'', fin_event0 0 ''mint'']"

definition fin_blocks0 :: "canonical_block list" where
  "fin_blocks0 = [\<lparr>cb_chainId = 1, cb_blockNumber = 5, cb_blockHash = sample_hash0, cb_parentHash = sample_hash0,
     cb_timestamp = 9, cb_status = ConfirmedBlock\<rparr>]"

lemma fin_lib0_letters: "keeps_letters fin_lib0"
  by (simp add: keeps_letters_def fin_lib0_def)

lemma expected_shares_are_transfers_witness:
  "\<exists>facts checks. normalizeFinancialFacts fin_lib0 fin_events0 fin_blocks0 fin_context0 = Inr facts \<and>
     reconciliationChecks recon_env0 facts [''0xu''] [] = Inr checks \<and>
     expected_sum (holder_key ''0xa'' ''0xu'' 1) checks = 4 \<and> expected_sum (holder_key ''0xa'' ''0xv'' 1) checks = 3"
proof -
  let ?facts = "normalizeFinancialFacts fin_lib0 fin_events0 fin_blocks0 fin_context0"
  have all: "(case ?facts of Inl _ \<Rightarrow> False | Inr fs \<Rightarrow>
      (case reconciliationChecks recon_env0 fs [''0xu''] [] of Inl _ \<Rightarrow> False | Inr _ \<Rightarrow> True)) \<and>
      scan_shape fin_lib0 fin_events0 fin_context0 \<and>
      map (\<lambda>w. movements_flow ''0xa'' w 1 (scan_movements fin_lib0 fin_events0 fin_context0)) [''0xu'', ''0xv''] = [4, 3]"
    by code_simp
  then obtain facts checks where run: "?facts = Inr facts" "reconciliationChecks recon_env0 facts [''0xu''] [] = Inr checks"
    by (auto split: sum.splits)
  have shape: "scan_shape fin_lib0 fin_events0 fin_context0" using all by blast
  have same: "rn_marketplace recon_env0 = rn_marketplace (fc_deployment fin_context0)"
    by (simp add: recon_env0_def fin_context0_def)
  have "movements_flow ''0xa'' ''0xu'' 1 (scan_movements fin_lib0 fin_events0 fin_context0) = 4"
    "movements_flow ''0xa'' ''0xv'' 1 (scan_movements fin_lib0 fin_events0 fin_context0) = 3" using all by simp_all
  then show ?thesis
    using run expected_shares_are_transfers [OF run same fin_lib0_letters shape] by auto
qed

end
