(* ===== verification/Pg_Tables.thy ===== *)
theory Pg_Tables
  imports Memory_Store Financial_Facts
begin

text \<open>
  The tables behind \<open>PostgresEventStore\<close> and \<open>PostgresFinancialLedger\<close> (offchain/indexer/migrations and
  src/postgres-store.ts, financial-store.ts) and the rows its queries map to views.

  A table is the list of its rows in the order of insertion. NUMERIC columns are integers, text columns
  strings, and NULL is \<open>None\<close>. A statement that violates a key, a foreign key or a CHECK is an error, and
  an error rolls its transaction back, so an operation yields an error alone or the new database. The
  order of text in ORDER BY and \<open><\<close> is the database's collation, \<open>pc_collate\<close>. The widths of columns are not
  kept.
\<close>

section \<open>Statements\<close>

definition violated :: js_error where
  "violated = JsError ''PostgresError: constraint violated''"

definition insert_or_ignore :: "('r \<Rightarrow> 'k) \<Rightarrow> 'r \<Rightarrow> 'r list \<Rightarrow> 'r list" where
  "insert_or_ignore key r t = (if key r \<in> key ` set t then t else t @ [r])"

definition insert_or_update :: "('r \<Rightarrow> 'k) \<Rightarrow> ('r \<Rightarrow> 'r) \<Rightarrow> 'r \<Rightarrow> 'r list \<Rightarrow> 'r list" where
  "insert_or_update key merge r t =
     (if key r \<in> key ` set t then map (\<lambda>x. if key x = key r then merge x else x) t else t @ [r])"

definition update_where :: "('r \<Rightarrow> bool) \<Rightarrow> ('r \<Rightarrow> 'r) \<Rightarrow> 'r list \<Rightarrow> 'r list" where
  "update_where P g t = map (\<lambda>x. if P x then g x else x) t"

fun each_row :: "('a \<Rightarrow> 's \<Rightarrow> 's outcome) \<Rightarrow> 'a list \<Rightarrow> 's \<Rightarrow> 's outcome" where
  "each_row g [] s = Inr s"
| "each_row g (x # xs) s = outcome_bind (g x s) (each_row g xs)"

text \<open>\<open>sql.begin\<close>: what the caller sees of a transaction.\<close>

definition committed :: "('s \<Rightarrow> 's outcome) \<Rightarrow> 's \<Rightarrow> 's written" where
  "committed g s = (case g s of Inl e \<Rightarrow> (Some e, s) | Inr t \<Rightarrow> (None, t))"

definition compare_int :: "int \<Rightarrow> int \<Rightarrow> int" where
  "compare_int a b = (if a < b then -1 else if b < a then 1 else 0)"

definition then_by :: "int \<Rightarrow> int \<Rightarrow> int" where
  "then_by c d = (if c \<noteq> 0 then c else d)"

lemma committed_ok [simp]: "committed g s = (None, t) \<longleftrightarrow> g s = Inr t"
  by (simp add: committed_def split: sum.splits)

lemma each_row_keeps:
  assumes "each_row g xs s = Inr t" "I s"
    and "\<And>x s t. x \<in> set xs \<Longrightarrow> I s \<Longrightarrow> g x s = Inr t \<Longrightarrow> I t"
  shows "I t"
  using assms
proof (induction xs arbitrary: s)
  case (Cons x xs)
  then obtain u where u: "g x s = Inr u" "each_row g xs u = Inr t" by auto
  then have "I u" using Cons.prems(2,3) by (meson list.set_intros(1))
  then show ?case using Cons.IH [OF u(2)] Cons.prems(3) by (meson list.set_intros(2))
qed simp

lemma each_row_append: "each_row g (xs @ ys) s = outcome_bind (each_row g xs s) (each_row g ys)"
proof (induction xs arbitrary: s)
  case (Cons x xs)
  then show ?case by (cases "g x s") auto
qed simp

section \<open>Rows\<close>

record event_row =
  er_chainId :: int
  er_blockNumber :: int
  er_blockHash :: string
  er_transactionHash :: string
  er_transactionIndex :: int
  er_logIndex :: int
  er_address :: string
  er_topics :: json
  er_data :: string
  er_status :: confirmation

record registered_row =
  rg_chainId :: int
  rg_market :: string
  rg_block :: int
  rg_transactionHash :: string
  rg_logIndex :: int

record market_row =
  mr_protocolVersion :: protocol_version
  mr_earlyBirdStart :: "int option"
  mr_chainId :: int
  mr_market :: string
  mr_creator :: string
  mr_deploymentMode :: int
  mr_outcomeCount :: "int option"
  mr_closeAt :: "int option"
  mr_createdAt :: "int option"
  mr_eventStartsAt :: "int option"
  mr_outcomeDeadlineAt :: "int option"
  mr_resolutionWindow :: "int option"
  mr_rulesHash :: "string option"
  mr_metadataUri :: "string option"
  mr_resolutionSourceHash :: "string option"
  mr_resolutionSourceUri :: "string option"
  mr_creatorTreasury :: "string option"
  mr_featureFlags :: "int option"
  mr_marketPrimaryCap :: "int option"
  mr_primaryFilledUnits :: int
  mr_primaryPayment :: int
  mr_creatorBond :: int
  mr_state :: int
  mr_voidReason :: int
  mr_winningOutcome :: "int option"
  mr_evidenceHash :: "string option"
  mr_createdBlock :: int
  mr_updatedBlock :: int
  mr_status :: confirmation

record position_row =
  pr_chainId :: int
  pr_vault :: string
  pr_owner :: string
  pr_outcomeId :: int
  pr_balance :: int
  pr_updatedBlock :: int
  pr_status :: confirmation

record participant_row =
  ap_chainId :: int
  ap_transactionHash :: string
  ap_logIndex :: int
  ap_participant :: string

text \<open>The tables of the financial ledger; the column \<open>projection_version\<close> of a fact is always 1.\<close>

record fact_row =
  ft_chainId :: int
  ft_blockNumber :: int
  ft_transactionHash :: string
  ft_transactionIndex :: int
  ft_logIndex :: int
  ft_factIndex :: int
  ft_timestamp :: int
  ft_kind :: fact_kind
  ft_market :: "string option"
  ft_owner :: "string option"
  ft_counterparty :: "string option"
  ft_fact :: ledger_fact

datatype ledger_status = ShadowLedger | ActiveLedger

record ledger_row =
  le_identity :: string
  le_projectionVersion :: int
  le_epoch :: int
  le_deploymentBlock :: int
  le_indexedBlock :: "int option"
  le_indexedHash :: "string option"
  le_coverageStart :: "int option"
  le_coverageComplete :: bool
  le_status :: ledger_status
  le_factRevision :: int

record tracked_row =
  tk_address :: string
  tk_fromBlock :: int
  tk_throughBlock :: "int option"
  tk_throughHash :: "string option"

record correction_row =
  co_epoch :: int
  co_fromBlock :: "int option"
  co_reason :: string

record orderbook_row =
  ob_chainId :: int
  ob_blockNumber :: int
  ob_transactionHash :: string
  ob_transactionIndex :: int
  ob_logIndex :: int
  ob_marketplace :: string
  ob_eventName :: string
  ob_orderId :: "int option"
  ob_args :: abi_args

text \<open>The singleton rows of \<open>cpredict_environment_identity\<close> and \<open>ledger_environment\<close> are optional values.\<close>

record pg_db =
  pg_checkpoints :: "chain_checkpoint list"
  pg_ranges :: "scan_range list"
  pg_blocks :: "canonical_block list"
  pg_events :: "event_row list"
  pg_registered :: "registered_row list"
  pg_markets :: "market_row list"
  pg_listings :: "listing_view list"
  pg_fills :: "fill_view list"
  pg_positions :: "position_row list"
  pg_claims :: "claim_view list"
  pg_activities :: "activity_view list"
  pg_participants :: "participant_row list"
  pg_identity :: "string option"
  pg_ledger :: "ledger_row option"
  pg_facts :: "fact_row list"
  pg_tracked :: "tracked_row list"
  pg_corrections :: "correction_row list"
  pg_orderbook :: "orderbook_row list"

definition empty_db :: pg_db where
  "empty_db = \<lparr>pg_checkpoints = [], pg_ranges = [], pg_blocks = [], pg_events = [], pg_registered = [],
     pg_markets = [], pg_listings = [], pg_fills = [], pg_positions = [], pg_claims = [], pg_activities = [],
     pg_participants = [], pg_identity = None, pg_ledger = None, pg_facts = [], pg_tracked = [],
     pg_corrections = [], pg_orderbook = []\<rparr>"

text \<open>The primary keys.\<close>

definition block_pk :: "canonical_block \<Rightarrow> int \<times> int" where
  "block_pk b = (cb_chainId b, cb_blockNumber b)"

definition event_pk :: "event_row \<Rightarrow> int \<times> string \<times> int" where
  "event_pk r = (er_chainId r, er_transactionHash r, er_logIndex r)"

definition market_pk :: "market_row \<Rightarrow> int \<times> string" where
  "market_pk r = (mr_chainId r, mr_market r)"

definition registered_pk :: "registered_row \<Rightarrow> int \<times> string" where
  "registered_pk r = (rg_chainId r, rg_market r)"

definition listing_pk :: "listing_view \<Rightarrow> int \<times> string" where
  "listing_pk r = (lw_chainId r, lw_listingId r)"

definition fill_pk :: "fill_view \<Rightarrow> int \<times> string \<times> int" where
  "fill_pk r = (fw_chainId r, fw_transactionHash r, fw_logIndex r)"

definition position_pk :: "position_row \<Rightarrow> int \<times> string \<times> string \<times> int" where
  "position_pk r = (pr_chainId r, pr_vault r, pr_owner r, pr_outcomeId r)"

definition claim_pk :: "claim_view \<Rightarrow> int \<times> string \<times> int" where
  "claim_pk r = (cw_chainId r, cw_transactionHash r, cw_logIndex r)"

definition activity_pk :: "activity_view \<Rightarrow> int \<times> string \<times> int" where
  "activity_pk r = (aw_chainId r, aw_transactionHash r, aw_logIndex r)"

definition fact_pk :: "fact_row \<Rightarrow> int \<times> string \<times> int \<times> int" where
  "fact_pk r = (ft_chainId r, ft_transactionHash r, ft_logIndex r, ft_factIndex r)"

definition orderbook_pk :: "orderbook_row \<Rightarrow> int \<times> string \<times> int" where
  "orderbook_pk r = (ob_chainId r, ob_transactionHash r, ob_logIndex r)"

section \<open>The store's environment\<close>

text \<open>
  \<open>pc_orderbook\<close> is viem's decodeEventLog with the order book's ABI (\<open>None\<close> where it throws), \<open>pc_parse\<close>
  is JSON.parse.
\<close>

record environment =
  en_id :: string
  en_deploymentId :: string
  en_manifestHash :: string
  en_deployment :: deployment

record pg_config =
  pc_lib :: fin_lib
  pc_environment :: "environment option"
  pc_collate :: "string \<Rightarrow> string \<Rightarrow> int"
  pc_parse :: "string \<Rightarrow> json option"
  pc_orderbook :: "string list \<Rightarrow> string \<Rightarrow> (string \<times> abi_args) option"

definition environmentKey :: "environment \<Rightarrow> string" where
  "environmentKey e = en_id e @ '':'' @ en_deploymentId e @ '':'' @ toLowerCase (en_manifestHash e)"

definition pg_protocol :: "pg_config \<Rightarrow> protocol_version" where
  "pg_protocol cf =
     (case pc_environment cf of
        None \<Rightarrow> TimeV2
      | Some e \<Rightarrow> (case dp_protocol (en_deployment e) of None \<Rightarrow> TimeV2 | Some p \<Rightarrow> p))"

definition pg_abi :: "pg_config \<Rightarrow> abi" where
  "pg_abi cf = abi.truncate (pc_lib cf)"

section \<open>From rows to views\<close>

text \<open>
  \<open>persistedTopics\<close>: the legacy deployment stored the array as a JSON string.
\<close>

fun topic_of :: "json \<Rightarrow> string option" where
  "topic_of (JStr s) = (if bytes32 s then Some s else None)"
| "topic_of _ = None"

definition persistedTopics :: "(string \<Rightarrow> json option) \<Rightarrow> json \<Rightarrow> protocol_version \<Rightarrow> string list outcome" where
  "persistedTopics parse v protocol =
     outcome_bind
       (case v of
          JStr s \<Rightarrow> if protocol = LegacyV1
                    then (case parse s of None \<Rightarrow> Inl (JsError ''SyntaxError'') | Some j \<Rightarrow> Inr j) else Inr v
        | _ \<Rightarrow> Inr v) (\<lambda>topics.
       case topics of
         JArr ts \<Rightarrow>
           if length ts \<le> 4 \<and> list_all (\<lambda>t. topic_of t \<noteq> None) ts then Inr (map (\<lambda>t. the (topic_of t)) ts)
           else Inl (JsError ''persisted event topics must be an array of bytes32 values'')
       | _ \<Rightarrow> Inl (JsError ''persisted event topics must be an array of bytes32 values''))"

definition mapRawEvent :: "pg_config \<Rightarrow> event_row \<Rightarrow> indexed_event outcome" where
  "mapRawEvent cf r =
     outcome_bind (persistedTopics (pc_parse cf) (er_topics r) (pg_protocol cf)) (\<lambda>topics.
     outcome_map (\<lambda>a. \<lparr>ev_chainId = er_chainId r, ev_blockNumber = er_blockNumber r, ev_blockHash = er_blockHash r,
         ev_transactionHash = er_transactionHash r, ev_transactionIndex = er_transactionIndex r,
         ev_logIndex = er_logIndex r, ev_address = a, ev_topics = topics, ev_data = er_data r,
         ev_status = er_status r\<rparr>)
       (checked_address (pg_abi cf) (er_address r)))"

definition mapMarket :: "abi \<Rightarrow> market_row \<Rightarrow> market_view outcome" where
  "mapMarket ab r =
     outcome_bind (optional_of normalizeEvidenceHash (mr_evidenceHash r)) (\<lambda>evidence.
     outcome_bind (checked_address ab (mr_market r)) (\<lambda>market.
     outcome_bind (checked_address ab (mr_creator r)) (\<lambda>creator.
     outcome_bind (optional_of (checked_address ab) (mr_creatorTreasury r)) (\<lambda>treasury.
     outcome_map (\<lambda>uri.
       \<lparr>mw_protocolVersion = Some (mr_protocolVersion r), mw_earlyBirdStart = Some (mr_earlyBirdStart r),
        mw_chainId = mr_chainId r, mw_market = market, mw_creator = creator,
        mw_deploymentMode = mr_deploymentMode r, mw_outcomeCount = mr_outcomeCount r,
        mw_closeAt = mr_closeAt r, mw_createdAt = mr_createdAt r, mw_eventStartsAt = mr_eventStartsAt r,
        mw_outcomeDeadlineAt = mr_outcomeDeadlineAt r, mw_resolutionWindow = mr_resolutionWindow r,
        mw_rulesHash = mr_rulesHash r, mw_metadataUri = mr_metadataUri r,
        mw_resolutionSourceHash = mr_resolutionSourceHash r,
        mw_resolutionSourceUri = mr_resolutionSourceUri r, mw_creatorTreasury = treasury,
        mw_featureFlags = mr_featureFlags r, mw_marketPrimaryCap = mr_marketPrimaryCap r,
        mw_primaryFilledUnits = mr_primaryFilledUnits r, mw_primaryPayment = mr_primaryPayment r,
        mw_creatorBond = mr_creatorBond r, mw_state = mr_state r, mw_voidReason = mr_voidReason r,
        mw_winningOutcome = mr_winningOutcome r, mw_evidenceHash = evidence, mw_evidenceUri = uri,
        mw_createdBlock = mr_createdBlock r, mw_updatedBlock = mr_updatedBlock r, mw_status = mr_status r\<rparr>)
       (case evidence of None \<Rightarrow> Inr None | Some h \<Rightarrow> evidenceUriFromHash (ab_bytes ab) h)))))"

definition mapListing :: "abi \<Rightarrow> listing_view \<Rightarrow> listing_view outcome" where
  "mapListing ab r =
     outcome_bind (checked_address ab (lw_vault r)) (\<lambda>vault.
     outcome_map (\<lambda>seller. r\<lparr>lw_vault := vault, lw_seller := seller\<rparr>) (checked_address ab (lw_seller r)))"

definition mapFill :: "abi \<Rightarrow> fill_view \<Rightarrow> fill_view outcome" where
  "mapFill ab r =
     outcome_bind (checked_address ab (fw_vault r)) (\<lambda>vault.
     outcome_bind (checked_address ab (fw_buyer r)) (\<lambda>buyer.
     outcome_map (\<lambda>seller. r\<lparr>fw_vault := vault, fw_buyer := buyer, fw_seller := seller\<rparr>)
       (checked_address ab (fw_seller r))))"

text \<open>A position with the state and winning outcome of its market, when the market is known.\<close>

definition mapPosition :: "abi \<Rightarrow> position_row \<Rightarrow> market_row option \<Rightarrow> position_view outcome" where
  "mapPosition ab r m =
     outcome_bind (checked_address ab (pr_vault r)) (\<lambda>vault.
     outcome_map (\<lambda>own.
       \<lparr>pw_chainId = pr_chainId r, pw_vault = vault, pw_owner = own, pw_outcomeId = pr_outcomeId r,
        pw_balance = pr_balance r, pw_updatedBlock = pr_updatedBlock r, pw_status = pr_status r,
        pw_marketState = map_option mr_state m,
        pw_winningOutcome = (case m of None \<Rightarrow> None | Some x \<Rightarrow> mr_winningOutcome x)\<rparr>)
       (checked_address ab (pr_owner r)))"

definition mapClaim :: "abi \<Rightarrow> claim_view \<Rightarrow> claim_view outcome" where
  "mapClaim ab r =
     outcome_bind (checked_address ab (cw_vault r)) (\<lambda>vault.
     outcome_bind (checked_address ab (cw_owner r)) (\<lambda>own.
     outcome_map (\<lambda>caller. r\<lparr>cw_vault := vault, cw_owner := own, cw_caller := caller\<rparr>)
       (checked_address ab (cw_caller r))))"

definition mapActivity :: "abi \<Rightarrow> activity_view \<Rightarrow> activity_view outcome" where
  "mapActivity ab r =
     outcome_bind (checked_address ab (aw_vault r)) (\<lambda>vault.
     outcome_bind (optional_of (checked_address ab) (aw_actor r)) (\<lambda>actor.
     outcome_map (\<lambda>other. r\<lparr>aw_vault := vault, aw_actor := actor, aw_counterparty := other\<rparr>)
       (optional_of (checked_address ab) (aw_counterparty r))))"

end
