(* ===== verification/Pg_Projection.thy ===== *)
theory Pg_Projection
  imports Pg_Tables
begin

text \<open>
  The canonical inserts and the read model of \<open>PostgresEventStore\<close> (offchain/indexer/src/postgres-store.ts):
  \<open>insertCanonicalBlock\<close>, \<open>insertRawEvent\<close>, \<open>insertCanonicalScanRange\<close>, and the statements of
  \<open>applyMutation\<close>, \<open>recordActivity\<close> and \<open>clearProjections\<close>. Where they differ from the memory store, an
  update of an unknown market changes no row and a repeated insert is ignored.
\<close>

section \<open>Canonical rows\<close>

definition block_at :: "int \<Rightarrow> int \<Rightarrow> pg_db \<Rightarrow> canonical_block option" where
  "block_at c n s = List.find (\<lambda>b. cb_chainId b = c \<and> cb_blockNumber b = n) (pg_blocks s)"

definition insertCanonicalBlock :: "canonical_block \<Rightarrow> pg_db \<Rightarrow> pg_db outcome" where
  "insertCanonicalBlock b s =
     (if block_at (cb_chainId b) (cb_blockNumber b) s = None \<and>
         list_ex (\<lambda>x. cb_chainId x = cb_chainId b \<and> cb_blockHash x = cb_blockHash b) (pg_blocks s)
      then Inl violated
      else let t = s\<lparr>pg_blocks := insert_or_ignore block_pk b (pg_blocks s)\<rparr> in
        if map_option cb_blockHash (block_at (cb_chainId b) (cb_blockNumber b) t) \<noteq> Some (cb_blockHash b)
        then Inl (JsError (''canonical hash conflict at block '' @ dec (cb_blockNumber b)))
        else Inr t)"

text \<open>The keys, the CHECKs and the foreign key of \<open>canonical_scan_ranges\<close>.\<close>

definition range_allowed :: "scan_range \<Rightarrow> pg_db \<Rightarrow> bool" where
  "range_allowed r s =
     (\<not> list_ex (\<lambda>x. sr_chainId x = sr_chainId r \<and>
                      (sr_toBlock x = sr_toBlock r \<or> sr_fromBlock x = sr_fromBlock r)) (pg_ranges s) \<and>
      sr_fromBlock r \<le> sr_toBlock r \<and>
      (case sr_predecessor r of None \<Rightarrow> True | Some p \<Rightarrow> ck_blockNumber p + 1 = sr_fromBlock r) \<and>
      block_at (sr_chainId r) (sr_toBlock r) s \<noteq> None)"

definition insertCanonicalScanRange :: "scan_range \<Rightarrow> pg_db \<Rightarrow> pg_db outcome" where
  "insertCanonicalScanRange r s =
     (if range_allowed r s then Inr (s\<lparr>pg_ranges := pg_ranges s @ [r]\<rparr>) else Inl violated)"

definition row_of_event :: "indexed_event \<Rightarrow> event_row" where
  "row_of_event e =
     \<lparr>er_chainId = ev_chainId e, er_blockNumber = ev_blockNumber e, er_blockHash = ev_blockHash e,
      er_transactionHash = ev_transactionHash e, er_transactionIndex = ev_transactionIndex e,
      er_logIndex = ev_logIndex e, er_address = ev_address e, er_topics = JArr (map JStr (ev_topics e)),
      er_data = ev_data e, er_status = ev_status e\<rparr>"

text \<open>The event is inserted when its key is new; the result says whether it was.\<close>

definition insertRawEvent :: "indexed_event \<Rightarrow> pg_db \<Rightarrow> (bool \<times> pg_db) outcome" where
  "insertRawEvent e s =
     (if map_option cb_blockHash (block_at (ev_chainId e) (ev_blockNumber e) s) \<noteq> Some (ev_blockHash e)
      then Inl (JsError (''event hash does not match canonical block '' @ dec (ev_blockNumber e)))
      else if event_pk (row_of_event e) \<in> event_pk ` set (pg_events s) then Inr (False, s)
      else Inr (True, s\<lparr>pg_events := pg_events s @ [row_of_event e]\<rparr>))"

section \<open>Activities\<close>

definition participants_of :: "indexed_event \<Rightarrow> string list \<Rightarrow> participant_row list \<Rightarrow> participant_row list" where
  "participants_of e ps t =
     fold (\<lambda>p. set_add
       \<lparr>ap_chainId = ev_chainId e, ap_transactionHash = ev_transactionHash e, ap_logIndex = ev_logIndex e,
        ap_participant = p\<rparr>) ps t"

definition pg_recordActivity :: "abi \<Rightarrow> indexed_event \<Rightarrow> activity_view \<Rightarrow> string list \<Rightarrow> pg_db \<Rightarrow> pg_db outcome" where
  "pg_recordActivity ab e a extra s =
     (let named = (case aw_actor a of None \<Rightarrow> [] | Some x \<Rightarrow> [x]) @
                  (case aw_counterparty a of None \<Rightarrow> [] | Some x \<Rightarrow> [x]) @ extra
      in outcome_map (\<lambda>ps. s\<lparr>pg_activities := insert_or_ignore activity_pk a (pg_activities s),
            pg_participants := participants_of e (fold set_add ps []) (pg_participants s)\<rparr>)
          (traverse (checked_address ab) named))"

section \<open>Markets\<close>

text \<open>The CHECK \<open>markets_terminal_reason\<close> of migration 007.\<close>

definition reason_allowed :: "market_row \<Rightarrow> bool" where
  "reason_allowed m =
     (if mr_protocolVersion m = TimeV2
      then (mr_state m \<in> {0, 1} \<and> mr_voidReason m = 0) \<or> (mr_state m = 2 \<and> 1 \<le> mr_voidReason m \<and> mr_voidReason m \<le> 3)
      else (mr_state m \<in> {0, 1} \<and> mr_voidReason m = 0) \<or> (mr_state m = 2 \<and> mr_voidReason m = 1) \<or>
           (mr_state m = 3 \<and> mr_voidReason m = 3))"

definition blank_market :: "pg_config \<Rightarrow> indexed_event \<Rightarrow> string \<Rightarrow> string \<Rightarrow> int \<Rightarrow> int \<Rightarrow> market_row" where
  "blank_market cf e market creator mode bond =
     \<lparr>mr_protocolVersion = pg_protocol cf, mr_earlyBirdStart = None, mr_chainId = ev_chainId e, mr_market = market,
      mr_creator = creator, mr_deploymentMode = mode, mr_outcomeCount = None, mr_closeAt = None,
      mr_createdAt = None, mr_eventStartsAt = None, mr_outcomeDeadlineAt = None, mr_resolutionWindow = None,
      mr_rulesHash = None, mr_metadataUri = None, mr_resolutionSourceHash = None,
      mr_resolutionSourceUri = None, mr_creatorTreasury = None, mr_featureFlags = None,
      mr_marketPrimaryCap = None, mr_primaryFilledUnits = 0, mr_primaryPayment = 0, mr_creatorBond = bond,
      mr_state = 0, mr_voidReason = 0, mr_winningOutcome = None, mr_evidenceHash = None,
      mr_createdBlock = ev_blockNumber e, mr_updatedBlock = ev_blockNumber e, mr_status = ev_status e\<rparr>"

definition is_market :: "int \<Rightarrow> string \<Rightarrow> market_row \<Rightarrow> bool" where
  "is_market c m r = (mr_chainId r = c \<and> mr_market r = m)"

definition update_market :: "indexed_event \<Rightarrow> string \<Rightarrow> (market_row \<Rightarrow> market_row) \<Rightarrow> pg_db \<Rightarrow> pg_db" where
  "update_market e market g s =
     s\<lparr>pg_markets := update_where (is_market (ev_chainId e) market)
       (\<lambda>r. (g r)\<lparr>mr_updatedBlock := ev_blockNumber e, mr_status := ev_status e\<rparr>) (pg_markets s)\<rparr>"

definition pg_created ::
  "pg_config \<Rightarrow> indexed_event \<Rightarrow> string \<Rightarrow> string \<Rightarrow> int \<Rightarrow> int \<Rightarrow> pg_db \<Rightarrow> pg_db outcome" where
  "pg_created cf e market creator mode bond s =
     pg_recordActivity (pg_abi cf) e
       ((activity e AK_market_created market (Some creator))\<lparr>aw_amount := Some bond\<rparr>) []
       (s\<lparr>pg_registered := insert_or_ignore registered_pk
            \<lparr>rg_chainId = ev_chainId e, rg_market = market, rg_block = ev_blockNumber e,
             rg_transactionHash = ev_transactionHash e, rg_logIndex = ev_logIndex e\<rparr> (pg_registered s),
          pg_markets := insert_or_ignore market_pk (blank_market cf e market creator mode bond) (pg_markets s)\<rparr>)"

definition pg_initialized ::
  "pg_config \<Rightarrow> indexed_event \<Rightarrow> string \<Rightarrow> string \<Rightarrow> int \<Rightarrow> int \<Rightarrow> int option \<Rightarrow> int \<Rightarrow> int option \<Rightarrow> int option \<Rightarrow>
     int \<Rightarrow> int \<Rightarrow> int \<Rightarrow> pg_db \<Rightarrow> pg_db outcome" where
  "pg_initialized cf e market creator mode outcomes createdAt closeAt startsAt deadline window cap bond s =
     (let set_fields = (\<lambda>r. r\<lparr>mr_outcomeCount := Some outcomes, mr_createdAt := createdAt, mr_closeAt := Some closeAt,
            mr_eventStartsAt := startsAt, mr_outcomeDeadlineAt := deadline, mr_resolutionWindow := Some window,
            mr_marketPrimaryCap := Some cap, mr_creatorBond := bond, mr_updatedBlock := ev_blockNumber e,
            mr_status := ev_status e\<rparr>)
      in Inr (s\<lparr>pg_markets := insert_or_update market_pk set_fields
           (set_fields (blank_market cf e market creator mode bond)) (pg_markets s)\<rparr>))"

definition pg_metadata ::
  "indexed_event \<Rightarrow> string \<Rightarrow> string \<Rightarrow> string \<Rightarrow> string \<Rightarrow> string \<Rightarrow> int \<Rightarrow> int option \<Rightarrow> int option \<Rightarrow> int option \<Rightarrow>
     string \<Rightarrow> int \<Rightarrow> pg_db \<Rightarrow> pg_db outcome" where
  "pg_metadata e market rulesHash uri sourceHash sourceUri closeAt startsAt deadline early treasury flags s =
     Inr (update_market e market (\<lambda>r. r\<lparr>mr_rulesHash := Some rulesHash, mr_metadataUri := Some uri,
       mr_resolutionSourceHash := Some sourceHash, mr_resolutionSourceUri := Some sourceUri,
       mr_closeAt := Some closeAt, mr_eventStartsAt := startsAt, mr_outcomeDeadlineAt := deadline,
       mr_earlyBirdStart := early, mr_creatorTreasury := Some treasury, mr_featureFlags := Some flags\<rparr>) s)"

definition pg_purchased ::
  "abi \<Rightarrow> indexed_event \<Rightarrow> string \<Rightarrow> string \<Rightarrow> int \<Rightarrow> int \<Rightarrow> int \<Rightarrow> int \<Rightarrow> pg_db \<Rightarrow> pg_db outcome" where
  "pg_purchased ab e market buyer outcomeId units payment paidPrincipal s =
     pg_recordActivity ab e
       ((activity e AK_primary_purchased market (Some buyer))
          \<lparr>aw_outcomeId := Some outcomeId, aw_units := Some units, aw_amount := Some payment\<rparr>) []
       (update_market e market (\<lambda>r. r\<lparr>mr_primaryFilledUnits := mr_primaryFilledUnits r + units,
          mr_primaryPayment := paidPrincipal\<rparr>) s)"

text \<open>The creator and the holders of a market, each once: UNION.\<close>

definition terminal_participants :: "int \<Rightarrow> string \<Rightarrow> pg_db \<Rightarrow> string list" where
  "terminal_participants c market s =
     remdups (map mr_creator (filter (is_market c market) (pg_markets s)) @
       map pr_owner (filter (\<lambda>p. pr_chainId p = c \<and> pr_vault p = market \<and> 0 < pr_balance p) (pg_positions s)))"

definition pg_terminal ::
  "abi \<Rightarrow> indexed_event \<Rightarrow> string \<Rightarrow> terminal_kind \<Rightarrow> string option \<Rightarrow> int \<Rightarrow> int \<Rightarrow> int option \<Rightarrow> string option \<Rightarrow>
     pg_db \<Rightarrow> pg_db outcome" where
  "pg_terminal ab e market kind caller state reason win evidence s =
     (let t = update_market e market (\<lambda>r. r\<lparr>mr_state := state, mr_voidReason := reason, mr_winningOutcome := win,
                mr_evidenceHash := evidence\<rparr>) s
      in if list_all reason_allowed (filter (is_market (ev_chainId e) market) (pg_markets t))
         then pg_recordActivity ab e (activity e (terminalActivityKind kind) market caller)
                (terminal_participants (ev_chainId e) market s) t
         else Inl violated)"

section \<open>Listings, positions and claims\<close>

definition pg_listing ::
  "abi \<Rightarrow> indexed_event \<Rightarrow> string \<Rightarrow> string \<Rightarrow> string \<Rightarrow> int \<Rightarrow> int \<Rightarrow> int \<Rightarrow> int \<Rightarrow> pg_db \<Rightarrow> pg_db outcome" where
  "pg_listing ab e listing vault seller outcomeId amount price expires s =
     pg_recordActivity ab e
       ((activity e AK_listing_created vault (Some seller))
          \<lparr>aw_outcomeId := Some outcomeId, aw_listingId := Some listing, aw_units := Some amount,
           aw_amount := Some price\<rparr>) []
       (s\<lparr>pg_listings := insert_or_ignore listing_pk
         \<lparr>lw_chainId = ev_chainId e, lw_listingId = listing, lw_vault = vault, lw_seller = seller,
          lw_outcomeId = outcomeId, lw_remainingUnits = amount, lw_unitPrice = price,
          lw_expiresAt = expires, lw_active = True, lw_createdBlock = ev_blockNumber e,
          lw_updatedBlock = ev_blockNumber e, lw_status = ev_status e\<rparr> (pg_listings s)\<rparr>)"

text \<open>UPDATE listings \<dots> RETURNING: the updated row, if there is one.\<close>

definition update_listing ::
  "indexed_event \<Rightarrow> string \<Rightarrow> int \<Rightarrow> bool \<Rightarrow> pg_db \<Rightarrow> listing_view option \<times> pg_db" where
  "update_listing e listing remaining active s =
     (let hit = (\<lambda>l. lw_chainId l = ev_chainId e \<and> lw_listingId l = listing);
          g = (\<lambda>l. l\<lparr>lw_remainingUnits := remaining, lw_active := active, lw_updatedBlock := ev_blockNumber e,
                     lw_status := ev_status e\<rparr>)
      in (map_option g (List.find hit (pg_listings s)),
          s\<lparr>pg_listings := update_where hit g (pg_listings s)\<rparr>))"

definition pg_filled ::
  "abi \<Rightarrow> indexed_event \<Rightarrow> string \<Rightarrow> string \<Rightarrow> string \<Rightarrow> int \<Rightarrow> int \<Rightarrow> int \<Rightarrow> int \<Rightarrow> int \<Rightarrow> int \<Rightarrow> pg_db \<Rightarrow>
     pg_db outcome" where
  "pg_filled ab e listing buyer seller units gross proceeds platformFee creatorFee remaining s =
     (case update_listing e listing remaining (remaining \<noteq> 0) s of
        (None, _) \<Rightarrow> Inl (JsError (''fill references unknown listing '' @ listing))
      | (Some l, t) \<Rightarrow>
          pg_recordActivity ab e
            ((activity e AK_listing_filled (lw_vault l) (Some buyer))
               \<lparr>aw_counterparty := Some seller, aw_outcomeId := Some (lw_outcomeId l),
                aw_listingId := Some listing, aw_units := Some units, aw_amount := Some gross\<rparr>) []
            (t\<lparr>pg_fills := insert_or_ignore fill_pk
                 \<lparr>fw_chainId = ev_chainId e, fw_transactionHash = ev_transactionHash e,
                  fw_logIndex = ev_logIndex e, fw_listingId = listing, fw_vault = lw_vault l,
                  fw_buyer = buyer, fw_seller = seller, fw_filledUnits = units, fw_gross = gross,
                  fw_sellerProceeds = Some proceeds, fw_platformFee = Some platformFee,
                  fw_creatorFee = Some creatorFee, fw_blockNumber = ev_blockNumber e,
                  fw_status = ev_status e\<rparr> (pg_fills t)\<rparr>))"

definition pg_closed ::
  "abi \<Rightarrow> indexed_event \<Rightarrow> string \<Rightarrow> close_kind \<Rightarrow> string \<Rightarrow> string \<Rightarrow> pg_db \<Rightarrow> pg_db outcome" where
  "pg_closed ab e listing kind seller caller s =
     (case update_listing e listing 0 False s of
        (None, _) \<Rightarrow> Inl (JsError (''close references unknown listing '' @ listing))
      | (Some l, t) \<Rightarrow>
          pg_recordActivity ab e
            ((activity e (close_activity kind) (lw_vault l) (Some caller))
               \<lparr>aw_counterparty := (if caller = seller then None else Some seller),
                aw_outcomeId := Some (lw_outcomeId l), aw_listingId := Some listing\<rparr>) [] t)"

definition is_position :: "int \<Rightarrow> string \<Rightarrow> string \<Rightarrow> int \<Rightarrow> position_row \<Rightarrow> bool" where
  "is_position c vault own outcomeId p = (position_pk p = (c, vault, own, outcomeId))"

text \<open>A debit applies only where the indexed balance covers it.\<close>

definition pg_delta ::
  "indexed_event \<Rightarrow> string \<Rightarrow> string \<Rightarrow> int \<Rightarrow> int \<Rightarrow> pg_db \<Rightarrow> pg_db outcome" where
  "pg_delta e vault own outcomeId delta s =
     (let g = (\<lambda>p. p\<lparr>pr_balance := pr_balance p + delta, pr_updatedBlock := ev_blockNumber e,
                     pr_status := ev_status e\<rparr>);
          covered = (\<lambda>p. is_position (ev_chainId e) vault own outcomeId p \<and> - delta \<le> pr_balance p)
      in if 0 \<le> delta
         then Inr (s\<lparr>pg_positions := insert_or_update position_pk g
                \<lparr>pr_chainId = ev_chainId e, pr_vault = vault, pr_owner = own, pr_outcomeId = outcomeId,
                 pr_balance = delta, pr_updatedBlock = ev_blockNumber e, pr_status = ev_status e\<rparr>
                (pg_positions s)\<rparr>)
         else if length (filter covered (pg_positions s)) \<noteq> 1
         then Inl (JsError ''position debit exceeds indexed balance'')
         else Inr (s\<lparr>pg_positions := update_where covered g (pg_positions s)\<rparr>))"

definition pg_claim ::
  "abi \<Rightarrow> indexed_event \<Rightarrow> string \<Rightarrow> string \<Rightarrow> string \<Rightarrow> string \<Rightarrow> int \<Rightarrow> int \<Rightarrow> pg_db \<Rightarrow> pg_db outcome" where
  "pg_claim ab e vault own caller claimKind units amount s =
     outcome_bind (claimActivityKind claimKind) (\<lambda>kind.
       pg_recordActivity ab e
         ((activity e kind vault (Some caller))
            \<lparr>aw_counterparty := (if caller = own then None else Some own),
             aw_units := Some units, aw_amount := Some amount\<rparr>) []
         (s\<lparr>pg_claims := insert_or_ignore claim_pk
            \<lparr>cw_chainId = ev_chainId e, cw_transactionHash = ev_transactionHash e,
             cw_logIndex = ev_logIndex e, cw_vault = vault, cw_owner = own, cw_caller = caller,
             cw_claimKind = claimKind, cw_units = units, cw_amount = amount,
             cw_blockNumber = ev_blockNumber e, cw_status = ev_status e\<rparr> (pg_claims s)\<rparr>))"

section \<open>Projection of events\<close>

fun pg_applyMutation :: "pg_config \<Rightarrow> indexed_event \<Rightarrow> mutation \<Rightarrow> pg_db \<Rightarrow> pg_db outcome" where
  "pg_applyMutation cf e (MarketCreated m c d b) s = pg_created cf e m c d b s"
| "pg_applyMutation cf e (MarketInitialized m c d n ca cl st dl w cap b) s =
     pg_initialized cf e m c d n ca cl st dl w cap b s"
| "pg_applyMutation cf e (MarketMetadata m rh u sh su cl st dl eb t fl) s =
     pg_metadata e m rh u sh su cl st dl eb t fl s"
| "pg_applyMutation cf e (PrimaryPurchased m b oid u p w tp) s = pg_purchased (pg_abi cf) e m b oid u p tp s"
| "pg_applyMutation cf e (MarketTerminal m k c st r w h) s = pg_terminal (pg_abi cf) e m k c st r w h s"
| "pg_applyMutation cf e (ListingCreated l v sl oid a p x) s = pg_listing (pg_abi cf) e l v sl oid a p x s"
| "pg_applyMutation cf e (ListingFilled l b sl u g sp pf cf' r) s =
     pg_filled (pg_abi cf) e l b sl u g sp pf cf' r s"
| "pg_applyMutation cf e (ListingClosed l k sl c) s = pg_closed (pg_abi cf) e l k sl c s"
| "pg_applyMutation cf e (PositionDelta v w oid d) s = pg_delta e v w oid d s"
| "pg_applyMutation cf e (ClaimMade v w c k u a) s = pg_claim (pg_abi cf) e v w c k u a s"

definition applyProjection :: "pg_config \<Rightarrow> indexed_event \<Rightarrow> pg_db \<Rightarrow> pg_db outcome" where
  "applyProjection cf e s =
     outcome_bind (deriveMutations (pg_abi cf) e (pg_protocol cf)) (\<lambda>ms. each_row (pg_applyMutation cf e) ms s)"

definition ingest :: "pg_config \<Rightarrow> indexed_event \<Rightarrow> pg_db \<Rightarrow> pg_db outcome" where
  "ingest cf e s =
     outcome_bind (insertRawEvent e s) (\<lambda>(inserted, t). if inserted then applyProjection cf e t else Inr t)"

text \<open>Deleting an activity deletes its participants too; the source deletes them first.\<close>

definition pg_clearProjections :: "int \<Rightarrow> pg_db \<Rightarrow> pg_db" where
  "pg_clearProjections c s =
     s\<lparr>pg_participants := filter (\<lambda>r. ap_chainId r \<noteq> c) (pg_participants s),
       pg_activities := filter (\<lambda>r. aw_chainId r \<noteq> c) (pg_activities s),
       pg_claims := filter (\<lambda>r. cw_chainId r \<noteq> c) (pg_claims s),
       pg_fills := filter (\<lambda>r. fw_chainId r \<noteq> c) (pg_fills s),
       pg_positions := filter (\<lambda>r. pr_chainId r \<noteq> c) (pg_positions s),
       pg_listings := filter (\<lambda>r. lw_chainId r \<noteq> c) (pg_listings s),
       pg_markets := filter (\<lambda>r. mr_chainId r \<noteq> c) (pg_markets s),
       pg_registered := filter (\<lambda>r. rg_chainId r \<noteq> c) (pg_registered s)\<rparr>"

definition event_row_order :: "event_row \<Rightarrow> event_row \<Rightarrow> int" where
  "event_row_order a b =
     then_by (compare_int (er_blockNumber a) (er_blockNumber b))
       (then_by (compare_int (er_transactionIndex a) (er_transactionIndex b))
          (compare_int (er_logIndex a) (er_logIndex b)))"

interpretation event_rows: comparator event_row_order
  by unfold_locales (auto simp: event_row_order_def then_by_def compare_int_def split: if_splits)

definition replay_row :: "pg_config \<Rightarrow> event_row \<Rightarrow> pg_db \<Rightarrow> pg_db outcome" where
  "replay_row cf r s = outcome_bind (mapRawEvent cf r) (\<lambda>e. applyProjection cf e s)"

end
