(* ===== verification/Financial_Store.thy ===== *)
theory Financial_Store
  imports Pg_Projection Pnl
begin

text \<open>
  \<open>PostgresFinancialLedger\<close> of offchain/indexer/src/financial-store.ts with the writing half of orderbook.ts:
  the projection of stored events into ledger facts, the coverage the ledger claims, corrections after a
  rollback, snapshots and the queries over facts.

  A fact that was written passed its schema, and reading it back gives it again, so the parse is not
  repeated here. The cursor of \<open>activity\<close> (JSON in base64url behind its schema) and the SHA-256 of the
  filter are parameters.
\<close>

section \<open>Readiness\<close>

definition fin_ready :: "environment \<Rightarrow> pg_db \<Rightarrow> pg_db outcome" where
  "fin_ready e s =
     (let t = s\<lparr>pg_identity := (case pg_identity s of None \<Rightarrow> Some (environmentKey e) | Some i \<Rightarrow> Some i)\<rparr> in
      if pg_identity t \<noteq> Some (environmentKey e)
      then Inl (JsError ''financial database belongs to another deployment'')
      else
        let fresh = \<lparr>le_identity = environmentKey e, le_projectionVersion = 1, le_epoch = 1,
              le_deploymentBlock = dp_deploymentBlock (en_deployment e), le_indexedBlock = None,
              le_indexedHash = None, le_coverageStart = None, le_coverageComplete = False,
              le_status = ShadowLedger, le_factRevision = 0\<rparr>;
            row = (case pg_ledger t of None \<Rightarrow> fresh | Some r \<Rightarrow> r)
        in if le_identity row \<noteq> environmentKey e \<or> le_projectionVersion row \<noteq> 1
           then Inl (JsError ''financial ledger environment or version mismatch'')
           else Inr (t\<lparr>pg_ledger := Some row\<rparr>))"

section \<open>Tracked accounts\<close>

definition scanned_through :: "tracked_row \<Rightarrow> int" where
  "scanned_through r = (case tk_throughBlock r of None \<Rightarrow> tk_fromBlock r - 1 | Some n \<Rightarrow> n)"

definition trackedAccounts :: "pg_config \<Rightarrow> pg_db \<Rightarrow> string list outcome" where
  "trackedAccounts cf s =
     traverse (checked_address (pg_abi cf)) (js_sort (pc_collate cf) (map tk_address (pg_tracked s)))"

definition accountScanned :: "string list \<Rightarrow> int \<Rightarrow> int \<Rightarrow> string \<Rightarrow> pg_db \<Rightarrow> pg_db" where
  "accountScanned accounts a b h s =
     s\<lparr>pg_tracked := update_where
         (\<lambda>r. tk_address r \<in> set (map toLowerCase accounts) \<and> scanned_through r + 1 = a)
         (\<lambda>r. r\<lparr>tk_throughBlock := Some b, tk_throughHash := Some h\<rparr>) (pg_tracked s)\<rparr>"

definition next_block :: "tracked_row \<Rightarrow> int" where
  "next_block r = (case tk_throughBlock r of None \<Rightarrow> tk_fromBlock r | Some n \<Rightarrow> n + 1)"

definition backfill_order :: "pg_config \<Rightarrow> tracked_row \<Rightarrow> tracked_row \<Rightarrow> int" where
  "backfill_order cf a b =
     then_by (compare_int (next_block a) (next_block b)) (pc_collate cf (tk_address a) (tk_address b))"

text \<open>The next blocks to scan, for up to ten accounts that start at the same block.\<close>

definition accountBackfillRange :: "pg_config \<Rightarrow> int \<Rightarrow> pg_db \<Rightarrow> (string list \<times> int \<times> int) option outcome" where
  "accountBackfillRange cf head s =
     (case take 10 (js_sort (backfill_order cf) (filter (\<lambda>r. scanned_through r < head) (pg_tracked s))) of
        [] \<Rightarrow> Inr None
      | r # rs \<Rightarrow>
          outcome_map (\<lambda>accounts. Some (accounts, next_block r,
              if next_block r + 499 < head then next_block r + 499 else head))
            (traverse (checked_address (pg_abi cf))
              (map tk_address (filter (\<lambda>x. next_block x = next_block r) (r # rs)))))"

section \<open>Projection\<close>

text \<open>Big integers of the arguments are stored as text.\<close>

fun safe_value :: "abi_value \<Rightarrow> abi_value" where
  "safe_value (AbiBig n) = AbiText (dec n)"
| "safe_value (AbiArray vs) = AbiArray (map safe_value vs)"
| "safe_value v = v"

definition order_id_of :: "abi_args \<Rightarrow> int option" where
  "order_id_of args = (case map_of args ''orderId'' of Some (AbiBig n) \<Rightarrow> Some n | _ \<Rightarrow> None)"

text \<open>One event of \<open>projectOrderbook\<close>; an event that does not decode is passed over.\<close>

definition project_order :: "pg_config \<Rightarrow> string \<Rightarrow> indexed_event \<Rightarrow> pg_db \<Rightarrow> pg_db outcome" where
  "project_order cf marketplace e s =
     (if toLowerCase (ev_address e) \<noteq> toLowerCase marketplace then Inr s
      else case pc_orderbook cf (ev_topics e) (ev_data e) of
             None \<Rightarrow> Inr s
           | Some (name, args) \<Rightarrow>
               if block_at (ev_chainId e) (ev_blockNumber e) s = None then Inl violated
               else Inr (s\<lparr>pg_orderbook := insert_or_ignore orderbook_pk
                      \<lparr>ob_chainId = ev_chainId e, ob_blockNumber = ev_blockNumber e,
                       ob_transactionHash = ev_transactionHash e, ob_transactionIndex = ev_transactionIndex e,
                       ob_logIndex = ev_logIndex e, ob_marketplace = toLowerCase marketplace, ob_eventName = name,
                       ob_orderId = order_id_of args, ob_args = map (\<lambda>(k, v). (k, safe_value v)) args\<rparr>
                      (pg_orderbook s)\<rparr>))"

definition projectOrderbook :: "pg_config \<Rightarrow> indexed_event list \<Rightarrow> string \<Rightarrow> pg_db \<Rightarrow> pg_db outcome" where
  "projectOrderbook cf es marketplace s = each_row (project_order cf marketplace) es s"

definition stored_orders :: "deployment \<Rightarrow> int list \<Rightarrow> pg_db \<Rightarrow> (int, abi_args) jsmap" where
  "stored_orders d ids s =
     fold (\<lambda>r. map_set (the (ob_orderId r)) (ob_args r))
       (filter (\<lambda>r. ob_chainId r = dp_chainId d \<and> ob_marketplace r = toLowerCase (rn_marketplace d) \<and>
                    ob_eventName r = ''OrderCreated'' \<and>
                    (case ob_orderId r of None \<Rightarrow> False | Some n \<Rightarrow> n \<in> set ids)) (pg_orderbook s)) []"

definition ledger_context :: "deployment \<Rightarrow> (int, abi_args) jsmap \<Rightarrow> pg_db \<Rightarrow> fin_context" where
  "ledger_context d orders s =
     (let c = dp_chainId d in
      \<lparr>fc_deployment = d,
       fc_markets = fold (\<lambda>r. set_add (toLowerCase (rg_market r))) (filter (\<lambda>r. rg_chainId r = c) (pg_registered s)) [],
       fc_listings = fold (\<lambda>l. map_set (toLowerCase (lw_listingId l))
           \<lparr>ll_market = lw_vault l, ll_seller = lw_seller l, ll_outcomeId = lw_outcomeId l\<rparr>)
         (filter (\<lambda>l. lw_chainId l = c) (pg_listings s)) [],
       fc_orders = orders,
       fc_tracked = fold (\<lambda>r. set_add (toLowerCase (tk_address r))) (pg_tracked s) []\<rparr>)"

definition row_of_fact :: "int \<Rightarrow> ledger_fact \<Rightarrow> fact_row" where
  "row_of_fact c f =
     \<lparr>ft_chainId = c, ft_blockNumber = int (lf_blockNumber f), ft_transactionHash = lf_transactionHash f,
      ft_transactionIndex = int (lf_transactionIndex f), ft_logIndex = int (lf_logIndex f),
      ft_factIndex = int (lf_factIndex f), ft_timestamp = int (lf_timestamp f), ft_kind = lf_kind f,
      ft_market = map_option toLowerCase (lf_market f), ft_owner = map_option toLowerCase (lf_owner f),
      ft_counterparty = map_option toLowerCase (lf_counterparty f), ft_fact = f\<rparr>"

text \<open>A conflict replaces the fact, its owner, counterparty and market; the other columns stay.\<close>

definition insert_fact :: "int \<Rightarrow> ledger_fact \<Rightarrow> pg_db \<Rightarrow> pg_db outcome" where
  "insert_fact c f s =
     (let row = row_of_fact c f in
      if block_at c (ft_blockNumber row) s = None then Inl violated
      else Inr (s\<lparr>pg_facts := insert_or_update fact_pk
             (\<lambda>x. x\<lparr>ft_fact := f, ft_owner := ft_owner row, ft_counterparty := ft_counterparty row,
                    ft_market := ft_market row\<rparr>) row (pg_facts s)\<rparr>))"

definition revised :: "pg_db \<Rightarrow> pg_db" where
  "revised s = s\<lparr>pg_ledger := map_option (\<lambda>r. r\<lparr>le_factRevision := le_factRevision r + 1\<rparr>) (pg_ledger s)\<rparr>"

text \<open>The coverage the ledger claims after the blocks from \<open>first\<close> to the checkpoint.\<close>

definition extend_coverage :: "int option \<Rightarrow> chain_checkpoint \<Rightarrow> ledger_row \<Rightarrow> ledger_row" where
  "extend_coverage first k r =
     r\<lparr>le_coverageStart := (case le_coverageStart r of None \<Rightarrow> first | Some n \<Rightarrow> Some n),
       le_coverageComplete :=
         (if le_indexedBlock r = Some (ck_blockNumber k) then le_coverageComplete r
          else case first of
                 None \<Rightarrow> False
               | Some n \<Rightarrow> (case le_indexedBlock r of
                             None \<Rightarrow> n = le_deploymentBlock r
                           | Some i \<Rightarrow> le_coverageComplete r \<and> i + 1 = n)),
       le_indexedBlock := Some (ck_blockNumber k), le_indexedHash := Some (ck_blockHash k)\<rparr>"

text \<open>
  The facts of the events, from the markets, listings and tracked accounts stored before the order book's
  events (\<open>s\<close>) and the orders stored after them (\<open>s1\<close>).
\<close>

definition stored_facts ::
  "pg_config \<Rightarrow> environment \<Rightarrow> indexed_event list \<Rightarrow> canonical_block list \<Rightarrow> pg_db \<Rightarrow> pg_db \<Rightarrow> ledger_fact list outcome" where
  "stored_facts cf env es blocks s s1 =
     (let d = en_deployment env in
      outcome_bind (referencedOrderIds (pc_lib cf) es d) (\<lambda>ids.
        normalizeFinancialFacts (pc_lib cf) es blocks
          (ledger_context d (if ids = [] then [] else stored_orders d ids s1) s)))"

definition mark_projected ::
  "ledger_fact list \<Rightarrow> canonical_block list \<Rightarrow> chain_checkpoint option \<Rightarrow> int option \<Rightarrow> pg_db \<Rightarrow> pg_db" where
  "mark_projected facts blocks checkpoint coverageFrom s =
     (let t = (if facts \<noteq> [] then revised s else s) in
      case checkpoint of
        None \<Rightarrow> t
      | Some k \<Rightarrow>
          let first = (case coverageFrom of
                None \<Rightarrow> (case blocks of [] \<Rightarrow> None | b # _ \<Rightarrow> Some (cb_blockNumber b)) | Some n \<Rightarrow> Some n)
          in t\<lparr>pg_ledger := map_option (extend_coverage first k) (pg_ledger t)\<rparr>)"

definition fin_project ::
  "pg_config \<Rightarrow> environment \<Rightarrow> indexed_event list \<Rightarrow> canonical_block list \<Rightarrow> chain_checkpoint option \<Rightarrow>
     int option \<Rightarrow> pg_db \<Rightarrow> pg_db outcome" where
  "fin_project cf env es blocks checkpoint coverageFrom s =
     (let d = en_deployment env in
      outcome_bind (if dp_orderbook d then projectOrderbook cf es (rn_marketplace d) s else Inr s) (\<lambda>s1.
      outcome_bind (stored_facts cf env es blocks s s1) (\<lambda>facts.
        outcome_map (mark_projected facts blocks checkpoint coverageFrom)
          (each_row (insert_fact (dp_chainId d)) facts s1))))"

definition capped :: "int option \<Rightarrow> tracked_row \<Rightarrow> int option" where
  "capped limit r =
     (case (tk_throughBlock r, limit) of (Some t, Some n) \<Rightarrow> Some (min t n) | _ \<Rightarrow> None)"

text \<open>After the canonical rows above the limit are gone.\<close>

definition fin_rollback :: "environment \<Rightarrow> int option \<Rightarrow> pg_db \<Rightarrow> pg_db outcome" where
  "fin_rollback env limit s =
     (case pg_ledger s of
        None \<Rightarrow> Inl (TypeError ''Cannot read properties of undefined'')
      | Some r \<Rightarrow>
          let d = en_deployment env; epoch = le_epoch r + 1;
              hash = (case limit of None \<Rightarrow> None
                      | Some n \<Rightarrow> map_option cb_blockHash (block_at (dp_chainId d) n s))
          in Inr (s\<lparr>pg_ledger := Some (r\<lparr>le_epoch := epoch, le_indexedBlock := limit, le_indexedHash := hash,
                       le_coverageComplete := (limit \<noteq> None \<and> le_coverageComplete r)\<rparr>),
               pg_corrections := pg_corrections s @
                 [\<lparr>co_epoch = epoch,
                   co_fromBlock = Some (case limit of None \<Rightarrow> dp_deploymentBlock d | Some n \<Rightarrow> n + 1),
                   co_reason = ''chain_reorganization''\<rparr>],
               pg_tracked := map (\<lambda>t. t\<lparr>tk_throughBlock := capped limit t, tk_throughHash := None\<rparr>)
                 (pg_tracked s)\<rparr>))"

section \<open>Snapshots\<close>

record ledger_snapshot =
  sn_environment :: string
  sn_deploymentId :: string
  sn_epoch :: int
  sn_blockNumber :: int
  sn_blockHash :: string
  sn_timestamp :: int
  sn_coverageStart :: "int option"
  sn_complete :: bool
  sn_status :: ledger_status

definition not_ready :: js_error where
  "not_ready = AppError ''index_not_ready'' 503"

definition fin_snapshot :: "environment \<Rightarrow> pg_db \<Rightarrow> ledger_snapshot outcome" where
  "fin_snapshot env s =
     (case pg_ledger s of
        None \<Rightarrow> Inl not_ready
      | Some r \<Rightarrow>
          (case (le_indexedBlock r, le_indexedHash r) of
             (Some n, Some h) \<Rightarrow>
               (case block_at (dp_chainId (en_deployment env)) n s of
                  None \<Rightarrow> Inl (ZodError ''timestamp'')
                | Some b \<Rightarrow>
                    outcome_bind (schema_uint (le_epoch r)) (\<lambda>_.
                    outcome_bind (schema_uint n) (\<lambda>_.
                    outcome_bind (schema_hash h) (\<lambda>_.
                    outcome_bind (schema_uint (cb_timestamp b)) (\<lambda>_.
                    outcome_map (\<lambda>_. \<lparr>sn_environment = en_id env, sn_deploymentId = en_deploymentId env,
                        sn_epoch = le_epoch r, sn_blockNumber = n, sn_blockHash = h,
                        sn_timestamp = cb_timestamp b, sn_coverageStart = le_coverageStart r,
                        sn_complete = le_coverageComplete r, sn_status = le_status r\<rparr>)
                      (optional_of schema_uint (le_coverageStart r)))))))
           | _ \<Rightarrow> Inl not_ready))"

definition invalidated :: js_error where
  "invalidated = AppError ''snapshot_invalidated'' 409"

definition assertSnapshot :: "environment \<Rightarrow> ledger_snapshot \<Rightarrow> pg_db \<Rightarrow> unit outcome" where
  "assertSnapshot env sn s =
     outcome_bind (fin_snapshot env s) (\<lambda>cur.
       if sn_environment sn \<noteq> sn_environment cur \<or> sn_deploymentId sn \<noteq> sn_deploymentId cur \<or>
          sn_epoch sn \<noteq> sn_epoch cur \<or> sn_blockNumber cur < sn_blockNumber sn
       then Inl invalidated
       else require (map_option cb_blockHash
             (block_at (dp_chainId (en_deployment env)) (sn_blockNumber sn) s) = Some (sn_blockHash sn))
           invalidated)"

definition accountSnapshot :: "string \<Rightarrow> ledger_snapshot \<Rightarrow> pg_db \<Rightarrow> ledger_snapshot" where
  "accountSnapshot own sn s =
     (let paid = (case List.find (\<lambda>r. tk_address r = toLowerCase own) (pg_tracked s) of
            None \<Rightarrow> False
          | Some r \<Rightarrow> (case tk_throughBlock r of None \<Rightarrow> False | Some n \<Rightarrow> sn_blockNumber sn \<le> n))
      in sn\<lparr>sn_complete := sn_complete sn \<and> paid\<rparr>)"

section \<open>Queries\<close>

definition concerns :: "string \<Rightarrow> fact_row \<Rightarrow> bool" where
  "concerns own r = (ft_owner r = Some (toLowerCase own) \<or> ft_counterparty r = Some (toLowerCase own))"

definition visible :: "environment \<Rightarrow> ledger_snapshot \<Rightarrow> fact_row \<Rightarrow> bool" where
  "visible env sn r = (ft_chainId r = dp_chainId (en_deployment env) \<and> ft_blockNumber r \<le> sn_blockNumber sn)"

definition public_kinds :: "fact_kind list" where
  "public_kinds = [FK_market_resolved, FK_market_voided, FK_timeout_funded, FK_bond_timeout_funded]"

text \<open>The markets an account dealt with; a fact without a market adds NULL, which \<open>IN\<close> never matches.\<close>

definition owned_markets :: "string \<Rightarrow> ledger_snapshot \<Rightarrow> pg_db \<Rightarrow> string list" where
  "owned_markets own sn s =
     List.map_filter ft_market (filter (\<lambda>r. ft_blockNumber r \<le> sn_blockNumber sn \<and> concerns own r) (pg_facts s))"

definition in_markets :: "string list \<Rightarrow> fact_row \<Rightarrow> bool" where
  "in_markets ms r = (case ft_market r of None \<Rightarrow> False | Some m \<Rightarrow> m \<in> set ms)"

definition fact_row_order :: "fact_row \<Rightarrow> fact_row \<Rightarrow> int" where
  "fact_row_order a b =
     then_by (compare_int (ft_blockNumber a) (ft_blockNumber b))
       (then_by (compare_int (ft_transactionIndex a) (ft_transactionIndex b))
         (then_by (compare_int (ft_logIndex a) (ft_logIndex b)) (compare_int (ft_factIndex a) (ft_factIndex b))))"

interpretation fact_rows: comparator fact_row_order
  by unfold_locales (auto simp: fact_row_order_def then_by_def compare_int_def split: if_splits)

definition bounded_history :: "int \<Rightarrow> fact_row list \<Rightarrow> ledger_fact list outcome" where
  "bounded_history bound rows =
     (let found = take (nat bound + 1) (js_sort fact_row_order rows) in
      if bound < int (length found) then Inl (AppError ''history_capacity_exceeded'' 503)
      else Inr (map ft_fact found))"

definition accountFacts :: "environment \<Rightarrow> string \<Rightarrow> ledger_snapshot \<Rightarrow> pg_db \<Rightarrow> ledger_fact list outcome" where
  "accountFacts env own sn s =
     outcome_bind (assertSnapshot env sn s) (\<lambda>_.
       bounded_history 100000 (filter (\<lambda>r. visible env sn r \<and>
           (concerns own r \<or>
            (in_markets (owned_markets own sn s) r \<and> ft_kind r \<in> set (FK_economic_snapshot # public_kinds))))
         (pg_facts s)))"

definition accountScopeFacts ::
  "environment \<Rightarrow> string \<Rightarrow> ledger_snapshot \<Rightarrow> string \<Rightarrow> pg_db \<Rightarrow> ledger_fact list outcome" where
  "accountScopeFacts env own sn scope s =
     (if scope = ''*'' then accountFacts env own sn s
      else outcome_bind (assertSnapshot env sn s) (\<lambda>_.
        bounded_history 100000 (filter (\<lambda>r. visible env sn r \<and>
            ((ft_market r = Some scope \<and>
                (concerns own r \<or> ft_kind r \<in> set (FK_economic_snapshot # public_kinds))) \<or>
             (ft_owner r = Some (toLowerCase own) \<and>
                ft_kind r \<in> {FK_fee_accrued, FK_fee_claimed, FK_bond_credited, FK_bond_claimed})))
          (pg_facts s))))"

definition account_pnl ::
  "pg_config \<Rightarrow> (string \<Rightarrow> string) \<Rightarrow> environment \<Rightarrow> string \<Rightarrow> pnl_options \<Rightarrow> pg_db \<Rightarrow>
     (pnl \<times> ledger_snapshot) outcome" where
  "account_pnl cf kk env own options s =
     outcome_bind (fin_snapshot env s) (\<lambda>cur.
       let sn = accountSnapshot own cur s in
       outcome_bind (accountFacts env own sn s) (\<lambda>facts.
         outcome_map (\<lambda>p. (p, sn)) (computePnl (ab_address (pc_lib cf)) kk own facts
           (options\<lparr>po_coverageComplete := sn_complete sn\<rparr>))))"

end
