(* ===== verification/Pg_Store.thy ===== *)
theory Pg_Store
  imports Financial_Store Indexer
begin

text \<open>
  The writes of \<open>PostgresEventStore\<close> (offchain/indexer/src/postgres-store.ts): canonical batches, rollback,
  verified backfills, the three repairs and the replay of the ledger. Each is one transaction. Locks and
  timeouts are left out: a transaction runs alone here, which is what the advisory lock and the table
  locks give.
\<close>

section \<open>Financial projection of stored transactions\<close>

definition events_of_transactions :: "int \<Rightarrow> string list \<Rightarrow> pg_db \<Rightarrow> event_row list" where
  "events_of_transactions c hashes s =
     js_sort event_row_order (filter (\<lambda>r. er_chainId r = c \<and> er_transactionHash r \<in> set hashes) (pg_events s))"

definition block_order :: "canonical_block \<Rightarrow> canonical_block \<Rightarrow> int" where
  "block_order a b = compare_int (cb_blockNumber a) (cb_blockNumber b)"

definition blocks_of_rows :: "int \<Rightarrow> event_row list \<Rightarrow> pg_db \<Rightarrow> canonical_block list" where
  "blocks_of_rows c rows s =
     js_sort block_order (filter (\<lambda>b. cb_chainId b = c \<and> cb_blockNumber b \<in> set (map er_blockNumber rows)) (pg_blocks s))"

definition drop_facts :: "int \<Rightarrow> string list \<Rightarrow> pg_db \<Rightarrow> pg_db" where
  "drop_facts c hashes s =
     (let hit = (\<lambda>r. ft_chainId r = c \<and> ft_transactionHash r \<in> set hashes);
          t = s\<lparr>pg_facts := filter (\<lambda>r. \<not> hit r) (pg_facts s)\<rparr>
      in if list_ex hit (pg_facts s) then revised t else t)"

definition projectFinancialTransactions :: "pg_config \<Rightarrow> string list \<Rightarrow> pg_db \<Rightarrow> pg_db outcome" where
  "projectFinancialTransactions cf hashes s =
     (case pc_environment cf of
        None \<Rightarrow> Inr s
      | Some env \<Rightarrow>
          let c = dp_chainId (en_deployment env); unique = fold set_add hashes [];
              rows = events_of_transactions c unique s
          in if hashes = [] \<or> rows = [] then Inr s
             else outcome_bind (traverse (mapRawEvent cf) rows) (\<lambda>es.
                    fin_project cf env es (blocks_of_rows c rows s) None None (drop_facts c unique s)))"

section \<open>Canonical batches\<close>

definition checkpoint_row :: "int \<Rightarrow> pg_db \<Rightarrow> chain_checkpoint option" where
  "checkpoint_row c s = List.find (\<lambda>k. ck_chainId k = c) (pg_checkpoints s)"

definition range_order_desc :: "scan_range \<Rightarrow> scan_range \<Rightarrow> int" where
  "range_order_desc a b = compare_int (sr_toBlock b) (sr_toBlock a)"

definition pg_scanRanges :: "int \<Rightarrow> pg_db \<Rightarrow> scan_range list" where
  "pg_scanRanges c s = js_sort range_order_desc (filter (\<lambda>r. sr_chainId r = c) (pg_ranges s))"

definition pg_registeredMarkets :: "pg_config \<Rightarrow> int \<Rightarrow> pg_db \<Rightarrow> string list outcome" where
  "pg_registeredMarkets cf c s =
     traverse (checked_address (pg_abi cf))
       (js_sort (pc_collate cf) (map rg_market (filter (\<lambda>r. rg_chainId r = c) (pg_registered s))))"

definition pg_already_applied :: "canonical_batch \<Rightarrow> pg_db \<Rightarrow> bool" where
  "pg_already_applied b s =
     (let r = bt_range b in
      case (List.find (\<lambda>x. sr_chainId x = sr_chainId r \<and> sr_toBlock x = sr_toBlock r) (pg_ranges s),
            checkpoint_row (sr_chainId r) s) of
        (Some x, Some k) \<Rightarrow>
          ck_blockNumber k = ck_blockNumber (bt_checkpoint b) \<and>
          ck_blockHash k = ck_blockHash (bt_checkpoint b) \<and> sameRange x r
      | _ \<Rightarrow> False)"

definition pg_overlaps :: "scan_range \<Rightarrow> pg_db \<Rightarrow> bool" where
  "pg_overlaps r s =
     list_ex (\<lambda>x. sr_chainId x = sr_chainId r \<and> sr_fromBlock x \<le> sr_toBlock r \<and> sr_fromBlock r \<le> sr_toBlock x)
       (pg_ranges s)"

definition put_checkpoint :: "chain_checkpoint \<Rightarrow> pg_db \<Rightarrow> pg_db outcome" where
  "put_checkpoint k s =
     (if block_at (ck_chainId k) (ck_blockNumber k) s = None then Inl violated
      else Inr (s\<lparr>pg_checkpoints := insert_or_update ck_chainId (\<lambda>_. k) k (pg_checkpoints s)\<rparr>))"

definition project_batch :: "pg_config \<Rightarrow> canonical_batch \<Rightarrow> pg_db \<Rightarrow> pg_db outcome" where
  "project_batch cf b s =
     (case pc_environment cf of
        None \<Rightarrow> Inr s
      | Some env \<Rightarrow>
          outcome_bind (projectFinancialTransactions cf (map ev_transactionHash (bt_events b)) s)
            (fin_project cf env [] (bt_anchors b) (Some (bt_checkpoint b)) (Some (sr_fromBlock (bt_range b)))))"

definition finish_batch :: "canonical_batch \<Rightarrow> pg_db \<Rightarrow> pg_db outcome" where
  "finish_batch b s =
     (let k = bt_checkpoint b in
      if map_option cb_blockHash (block_at (ck_chainId k) (ck_blockNumber k) s) \<noteq> Some (ck_blockHash k)
      then Inl (JsError ''checkpoint does not match the persisted canonical block'')
      else outcome_bind (insertCanonicalScanRange (bt_range b) s) (put_checkpoint k))"

definition pg_applyBatch :: "pg_config \<Rightarrow> canonical_batch \<Rightarrow> pg_db \<Rightarrow> pg_db outcome" where
  "pg_applyBatch cf b s =
     outcome_bind (validateCanonicalBatch b) (\<lambda>_.
       if pg_already_applied b s then Inr s
       else outcome_bind (continues (checkpoint_row (sr_chainId (bt_range b)) s) (bt_range b)) (\<lambda>_.
         if pg_overlaps (bt_range b) s
         then Inl (JsError ''canonical scan range overlaps committed history'')
         else
           outcome_bind (each_row insertCanonicalBlock (bt_anchors b) s) (\<lambda>s1.
           outcome_bind (each_row (ingest cf) (bt_events b) s1) (\<lambda>s2.
           outcome_bind (project_batch cf b s2) (finish_batch b)))))"

definition applyLegacyHistoricalBatch ::
  "pg_config \<Rightarrow> indexed_event list \<Rightarrow> canonical_block list \<Rightarrow> pg_db \<Rightarrow> pg_db outcome" where
  "applyLegacyHistoricalBatch cf es blocks s =
     outcome_bind (each_row insertCanonicalBlock blocks s) (\<lambda>s1.
     outcome_bind (each_row (ingest cf) es s1) (\<lambda>s2.
       if pc_environment cf = None then Inr s2
       else projectFinancialTransactions cf (map ev_transactionHash es) s2))"

text \<open>The deprecated overload of \<open>applyBatch\<close>.\<close>

definition pg_applyLegacy ::
  "pg_config \<Rightarrow> indexed_event list \<Rightarrow> canonical_block list \<Rightarrow> chain_checkpoint option \<Rightarrow> pg_db \<Rightarrow> pg_db outcome" where
  "pg_applyLegacy cf es blocks checkpoint s =
     (case checkpoint of
        None \<Rightarrow> Inl (JsError ''legacy checkpoint is required'')
      | Some k \<Rightarrow>
          let current = checkpoint_row (ck_chainId k) s in
          if (case current of None \<Rightarrow> False | Some c \<Rightarrow> ck_blockNumber k \<le> ck_blockNumber c)
          then applyLegacyHistoricalBatch cf es blocks s
          else outcome_bind (legacyDenseBatch es blocks k current) (\<lambda>b. pg_applyBatch cf b s))"

section \<open>Rollback\<close>

text \<open>
  Deleting a canonical block deletes what refers to it: its events, scan range, checkpoint, facts and order
  book events.
\<close>

definition keep_blocks :: "(int \<Rightarrow> int \<Rightarrow> bool) \<Rightarrow> pg_db \<Rightarrow> pg_db" where
  "keep_blocks keep s =
     s\<lparr>pg_blocks := filter (\<lambda>b. keep (cb_chainId b) (cb_blockNumber b)) (pg_blocks s),
       pg_events := filter (\<lambda>r. keep (er_chainId r) (er_blockNumber r)) (pg_events s),
       pg_checkpoints := filter (\<lambda>k. keep (ck_chainId k) (ck_blockNumber k)) (pg_checkpoints s),
       pg_ranges := filter (\<lambda>r. keep (sr_chainId r) (sr_toBlock r)) (pg_ranges s),
       pg_facts := filter (\<lambda>f. keep (ft_chainId f) (ft_blockNumber f)) (pg_facts s),
       pg_orderbook := filter (\<lambda>r. keep (ob_chainId r) (ob_blockNumber r)) (pg_orderbook s)\<rparr>"

definition forget_after :: "int \<Rightarrow> int option \<Rightarrow> pg_db \<Rightarrow> pg_db" where
  "forget_after c limit s =
     (let s1 = s\<lparr>pg_checkpoints := filter (\<lambda>k. ck_chainId k \<noteq> c) (pg_checkpoints s)\<rparr>;
          s2 = s1\<lparr>pg_ranges := filter (\<lambda>r. survives c limit (sr_chainId r) (sr_toBlock r)) (pg_ranges s1)\<rparr>;
          s3 = keep_blocks (survives c limit) s2
      in s3\<lparr>pg_events := filter (\<lambda>r. survives c limit (er_chainId r) (er_blockNumber r)) (pg_events s3)\<rparr>)"

definition stored_events :: "int \<Rightarrow> pg_db \<Rightarrow> event_row list" where
  "stored_events c s = js_sort event_row_order (filter (\<lambda>r. er_chainId r = c) (pg_events s))"

definition rebuild :: "pg_config \<Rightarrow> int \<Rightarrow> pg_db \<Rightarrow> pg_db outcome" where
  "rebuild cf c s = each_row (replay_row cf) (stored_events c s) (pg_clearProjections c s)"

definition pg_rollbackAfter :: "pg_config \<Rightarrow> int \<Rightarrow> int option \<Rightarrow> pg_db \<Rightarrow> pg_db outcome" where
  "pg_rollbackAfter cf c limit s =
     outcome_bind (rebuild cf c (forget_after c limit s)) (\<lambda>s1.
     outcome_bind (case pc_environment cf of None \<Rightarrow> Inr s1 | Some env \<Rightarrow> fin_rollback env limit s1) (\<lambda>s2.
       case limit of
         None \<Rightarrow> Inr s2
       | Some n \<Rightarrow>
           (case block_at c n s2 of
              None \<Rightarrow> Inl (JsError ''rollback ancestor canonical block is missing'')
            | Some b \<Rightarrow>
                Inr (s2\<lparr>pg_checkpoints := pg_checkpoints s2 @
                  [\<lparr>ck_chainId = c, ck_blockNumber = n, ck_blockHash = cb_blockHash b\<rparr>]\<rparr>))))"

section \<open>Verified backfills\<close>

text \<open>
  A block of the indexed past may be added when its range was scanned and its stored neighbours agree.
\<close>

definition covered :: "canonical_block \<Rightarrow> pg_db \<Rightarrow> bool" where
  "covered b s =
     (list_ex (\<lambda>r. sr_chainId r = cb_chainId b \<and> sr_fromBlock r \<le> cb_blockNumber b \<and>
                   cb_blockNumber b \<le> sr_toBlock r) (pg_ranges s) \<and>
      (case checkpoint_row (cb_chainId b) s of None \<Rightarrow> False | Some k \<Rightarrow> cb_blockNumber b \<le> ck_blockNumber k))"

definition neighbours_agree :: "canonical_block \<Rightarrow> pg_db \<Rightarrow> bool" where
  "neighbours_agree b s =
     ((case block_at (cb_chainId b) (cb_blockNumber b - 1) s of
         None \<Rightarrow> True | Some p \<Rightarrow> cb_blockHash p = cb_parentHash b) \<and>
      (case block_at (cb_chainId b) (cb_blockNumber b + 1) s of
         None \<Rightarrow> True | Some n \<Rightarrow> cb_parentHash n = cb_blockHash b))"

definition ensureHistoricalAnchor :: "string \<Rightarrow> canonical_block \<Rightarrow> pg_db \<Rightarrow> pg_db outcome" where
  "ensureHistoricalAnchor message b s =
     (case block_at (cb_chainId b) (cb_blockNumber b) s of
        Some old \<Rightarrow> if cb_blockHash old \<noteq> cb_blockHash b then Inl (JsError message) else Inr s
      | None \<Rightarrow>
          if \<not> covered b s \<or> \<not> neighbours_agree b s then Inl (JsError message)
          else insertCanonicalBlock b s)"

definition backfill_event :: "pg_config \<Rightarrow> canonical_block list \<Rightarrow> indexed_event \<Rightarrow> pg_db \<Rightarrow> pg_db outcome" where
  "backfill_event cf expected e s =
     (if \<not> list_ex (\<lambda>b. cb_chainId b = ev_chainId e \<and> cb_blockNumber b = ev_blockNumber e \<and>
                        cb_blockHash b = ev_blockHash e) expected
      then Inl (JsError ''backfill log block is not verified'')
      else ingest cf e s)"

definition applyVerifiedBackfill ::
  "pg_config \<Rightarrow> indexed_event list \<Rightarrow> canonical_block list \<Rightarrow> (pg_db \<Rightarrow> unit outcome) \<Rightarrow> pg_db \<Rightarrow> pg_db outcome" where
  "applyVerifiedBackfill cf es expected guard s =
     (if pc_environment cf = None then Inl (JsError ''financial ledger is not configured'')
      else outcome_bind (guard s) (\<lambda>_.
        outcome_bind (each_row (ensureHistoricalAnchor ''backfill canonical block mismatch'') expected s) (\<lambda>s1.
        outcome_bind (each_row (backfill_event cf expected) es s1)
          (projectFinancialTransactions cf (map ev_transactionHash es)))))"

definition applyFinancialBackfill ::
  "pg_config \<Rightarrow> indexed_event list \<Rightarrow> canonical_block list \<Rightarrow> pg_db \<Rightarrow> pg_db outcome" where
  "applyFinancialBackfill cf es expected s = applyVerifiedBackfill cf es expected (\<lambda>_. Inr ()) s"

definition event_mutations :: "pg_config \<Rightarrow> indexed_event list \<Rightarrow> mutation list outcome" where
  "event_mutations cf es =
     outcome_map concat (traverse (\<lambda>e. deriveMutations (pg_abi cf) e (pg_protocol cf)) es)"

section \<open>Repairs\<close>

definition is_initialization :: "string \<Rightarrow> mutation \<Rightarrow> bool" where
  "is_initialization a m = (case m of MarketInitialized k _ _ _ _ _ _ _ _ _ _ \<Rightarrow> k = a | _ \<Rightarrow> False)"

definition is_metadata_of :: "string \<Rightarrow> mutation \<Rightarrow> bool" where
  "is_metadata_of a m = (case m of MarketMetadata k _ _ _ _ _ _ _ _ _ _ \<Rightarrow> k = a | _ \<Rightarrow> False)"

definition is_creation :: "mutation \<Rightarrow> bool" where
  "is_creation m =
     (case m of MarketInitialized _ _ _ _ _ _ _ _ _ _ _ \<Rightarrow> True | MarketMetadata _ _ _ _ _ _ _ _ _ _ _ \<Rightarrow> True
      | _ \<Rightarrow> False)"

text \<open>Only a Factory placeholder that nothing has touched may be repaired.\<close>

definition untouched_creation :: "string \<Rightarrow> indexed_event list \<Rightarrow> canonical_block \<Rightarrow> pg_db \<Rightarrow> unit outcome" where
  "untouched_creation a es b s =
     (let c = cb_chainId b;
          registration = List.find (\<lambda>r. rg_chainId r = c \<and> rg_market r = a \<and> rg_block r = cb_blockNumber b) (pg_registered s);
          existing = filter (\<lambda>r. er_chainId r = c \<and> er_address r = a) (pg_events s)
      in require
           ((case List.find (is_market c a) (pg_markets s) of
               None \<Rightarrow> False
             | Some m \<Rightarrow> mr_createdBlock m = cb_blockNumber b \<and> mr_updatedBlock m = mr_createdBlock m \<and>
                 mr_rulesHash m = None \<and> mr_outcomeCount m = None \<and> mr_state m = 0) \<and>
            existing = [] \<and>
            (case registration of
               None \<Rightarrow> False
             | Some r \<Rightarrow> list_all (\<lambda>e. ev_transactionHash e = rg_transactionHash r) es))
           (JsError ''market is not an untouched incomplete creation''))"

definition repairMarketCreation ::
  "pg_config \<Rightarrow> string \<Rightarrow> indexed_event list \<Rightarrow> canonical_block \<Rightarrow> pg_db \<Rightarrow> pg_db outcome" where
  "repairMarketCreation cf market es b s =
     outcome_bind (checked_address (pg_abi cf) market) (\<lambda>a.
       if es = [] \<or> list_ex (\<lambda>e. ev_address e \<noteq> a) es
       then Inl (JsError ''creation repair must contain only the target vault logs'')
       else outcome_bind (event_mutations cf es) (\<lambda>ms.
         if \<not> list_ex (is_initialization a) ms \<or> \<not> list_ex (is_metadata_of a) ms \<or> list_ex (\<lambda>m. \<not> is_creation m) ms
         then Inl (JsError ''creation repair requires initialization and metadata only'')
         else applyVerifiedBackfill cf es [b] (untouched_creation a es b) s))"

definition of_block :: "canonical_block \<Rightarrow> indexed_event list \<Rightarrow> indexed_event \<Rightarrow> bool" where
  "of_block b es e =
     (ev_chainId e = cb_chainId b \<and> ev_blockNumber e = cb_blockNumber b \<and> ev_blockHash e = cb_blockHash b \<and>
      ev_transactionHash e = ev_transactionHash (hd es))"

definition is_purchase :: "mutation \<Rightarrow> bool" where
  "is_purchase m = (case m of PrimaryPurchased _ _ _ _ _ _ _ \<Rightarrow> True | _ \<Rightarrow> False)"

definition is_delta :: "mutation \<Rightarrow> bool" where
  "is_delta m = (case m of PositionDelta _ _ _ _ \<Rightarrow> True | _ \<Rightarrow> False)"

text \<open>One purchase with the one credit it causes, and nothing else.\<close>

definition purchase_scope ::
  "indexed_event list \<Rightarrow> canonical_block \<Rightarrow> mutation list \<Rightarrow> (string \<times> string \<times> int) outcome" where
  "purchase_scope es b ms =
     (case filter is_purchase ms of
        [PrimaryPurchased market buyer outcomeId units _ _ _] \<Rightarrow>
          if list_all (\<lambda>m. is_purchase m \<or> m = PositionDelta market buyer outcomeId units) ms \<and>
             length (filter is_delta ms) = 1 \<and> list_all (of_block b es) es
          then Inr (market, buyer, outcomeId)
          else Inl (JsError ''purchase repair scope is invalid'')
      | _ \<Rightarrow> Inl (JsError ''purchase repair scope is invalid''))"

definition stored_log :: "indexed_event \<Rightarrow> pg_db \<Rightarrow> event_row option" where
  "stored_log e s = List.find (\<lambda>r. event_pk r = event_pk (row_of_event e)) (pg_events s)"

definition same_log :: "indexed_event \<Rightarrow> event_row \<Rightarrow> bool" where
  "same_log e r =
     (er_blockHash r = ev_blockHash e \<and> toLowerCase (er_address r) = toLowerCase (ev_address e) \<and>
      er_data r = ev_data e \<and> er_topics r = JArr (map JStr (ev_topics e)))"

fun repair_purchase_events :: "pg_config \<Rightarrow> indexed_event list \<Rightarrow> nat \<Rightarrow> pg_db \<Rightarrow> (nat \<times> pg_db) outcome" where
  "repair_purchase_events cf [] n s = Inr (n, s)"
| "repair_purchase_events cf (e # es) n s =
     (if (case stored_log e s of None \<Rightarrow> False | Some r \<Rightarrow> \<not> same_log e r)
      then Inl (JsError ''purchase repair conflicts with stored log'')
      else outcome_bind (insertRawEvent e s) (\<lambda>(inserted, t).
             if inserted then outcome_bind (applyProjection cf e t) (repair_purchase_events cf es (n + 1))
             else repair_purchase_events cf es n t))"

text \<open>A repair of old logs does not take newer totals back.\<close>

definition keep_newer :: "int \<Rightarrow> market_row \<Rightarrow> string \<times> string \<times> int \<Rightarrow> int option \<Rightarrow> pg_db \<Rightarrow> pg_db" where
  "keep_newer c current key updated s =
     (case key of (market, buyer, outcomeId) \<Rightarrow>
       s\<lparr>pg_markets := update_where (is_market c market)
           (\<lambda>m. m\<lparr>mr_primaryPayment := max (mr_primaryPayment m) (mr_primaryPayment current),
                  mr_updatedBlock := max (mr_updatedBlock m) (mr_updatedBlock current)\<rparr>) (pg_markets s),
         pg_positions := (case updated of
             None \<Rightarrow> pg_positions s
           | Some n \<Rightarrow> update_where (is_position c market buyer outcomeId)
               (\<lambda>p. p\<lparr>pr_updatedBlock := max (pr_updatedBlock p) n\<rparr>) (pg_positions s))\<rparr>)"

text \<open>\<open>UPDATE ledger_environment SET epoch=epoch+1 \<dots> RETURNING epoch\<close> with its correction.\<close>

definition correct_ledger :: "int \<Rightarrow> string \<Rightarrow> (ledger_row \<Rightarrow> ledger_row) \<Rightarrow> pg_db \<Rightarrow> pg_db outcome" where
  "correct_ledger fromBlock reason g s =
     (case pg_ledger s of
        None \<Rightarrow> Inl (TypeError ''Cannot read properties of undefined'')
      | Some r \<Rightarrow>
          Inr (s\<lparr>pg_ledger := Some (g (r\<lparr>le_epoch := le_epoch r + 1\<rparr>)),
                 pg_corrections := pg_corrections s @
                   [\<lparr>co_epoch = le_epoch r + 1, co_fromBlock = Some fromBlock, co_reason = reason\<rparr>]\<rparr>))"

definition repairPurchaseLogs ::
  "pg_config \<Rightarrow> indexed_event list \<Rightarrow> canonical_block \<Rightarrow> pg_db \<Rightarrow> pg_db outcome" where
  "repairPurchaseLogs cf es b s =
     (if pc_environment cf = None \<or> es = [] then Inl (JsError ''purchase repair requires financial events'')
      else outcome_bind (event_mutations cf es) (\<lambda>ms.
        outcome_bind (purchase_scope es b ms) (\<lambda>key.
        outcome_bind (ensureHistoricalAnchor ''purchase repair canonical history mismatch'' b s) (\<lambda>s1.
          case List.find (is_market (cb_chainId b) (fst key)) (pg_markets s1) of
            None \<Rightarrow> Inl (JsError ''purchase market is not registered'')
          | Some current \<Rightarrow>
              let updated = map_option pr_updatedBlock
                    (List.find (is_position (cb_chainId b) (fst key) (fst (snd key)) (snd (snd key))) (pg_positions s1))
              in outcome_bind (repair_purchase_events cf es 0 s1) (\<lambda>(inserted, s2).
                 outcome_bind (projectFinancialTransactions cf [ev_transactionHash (hd es)]
                     (keep_newer (cb_chainId b) current key updated s2)) (\<lambda>s3.
                   if 0 < inserted then correct_ledger (cb_blockNumber b) ''confirmed_purchase_receipt'' id s3
                   else Inr s3))))))"

fun repair_operation_events :: "indexed_event list \<Rightarrow> nat \<Rightarrow> pg_db \<Rightarrow> (nat \<times> pg_db) outcome" where
  "repair_operation_events [] n s = Inr (n, s)"
| "repair_operation_events (e # es) n s =
     (if (case stored_log e s of
            None \<Rightarrow> False
          | Some r \<Rightarrow> er_transactionIndex r \<noteq> ev_transactionIndex e \<or> \<not> same_log e r)
      then Inl (JsError ''operation_repair_log_conflict'')
      else outcome_bind (insertRawEvent e s) (\<lambda>(inserted, t).
             repair_operation_events es (if inserted then n + 1 else n) t))"

definition REPLAY_LIMIT :: int where "REPLAY_LIMIT = 20000"

text \<open>Verified logs are inserted and the whole read model of the chain is replayed.\<close>

definition repairOperationLogs ::
  "pg_config \<Rightarrow> indexed_event list \<Rightarrow> canonical_block \<Rightarrow> pg_db \<Rightarrow> (nat \<times> pg_db) outcome" where
  "repairOperationLogs cf es b s =
     (if pc_environment cf = None \<or> es = [] \<or> \<not> list_all (of_block b es) es
      then Inl (JsError ''operation_repair_scope'')
      else
        outcome_bind (ensureHistoricalAnchor ''operation_repair_canonical_mismatch'' b s) (\<lambda>s1.
        outcome_bind (repair_operation_events es 0 s1) (\<lambda>(inserted, s2).
          if inserted = 0 then Inr (0, s2)
          else if REPLAY_LIMIT < int (length (stored_events (cb_chainId b) s2))
          then Inl (JsError ''operation_repair_capacity'')
          else
            outcome_bind (rebuild cf (cb_chainId b) s2) (\<lambda>s3.
            outcome_bind (projectFinancialTransactions cf
                (map er_transactionHash (stored_events (cb_chainId b) s2)) s3) (\<lambda>s4.
            outcome_map (\<lambda>t. (inserted, t))
              (correct_ledger (cb_blockNumber b) ''confirmed_operation_receipt'' id s4))))))"

section \<open>Replay of the ledger\<close>

text \<open>The bounded block ranges of a replay.\<close>

function replay_ranges :: "int \<Rightarrow> int \<Rightarrow> (int \<times> int) list" where
  "replay_ranges block last_block =
     (if last_block < block then []
      else (block, if block + 499 < last_block then block + 499 else last_block) #
           replay_ranges (block + 500) last_block)"
  by pat_completeness auto
termination by (relation "measure (\<lambda>(block, last_block). nat (last_block + 1 - block))") auto

declare replay_ranges.simps [simp del]

definition replay_range :: "pg_config \<Rightarrow> int \<Rightarrow> int \<times> int \<Rightarrow> pg_db \<Rightarrow> pg_db outcome" where
  "replay_range cf c r s =
     projectFinancialTransactions cf
       (fold set_add (map er_transactionHash (filter (\<lambda>x. er_chainId x = c \<and> fst r \<le> er_blockNumber x \<and>
          er_blockNumber x \<le> snd r) (pg_events s))) []) s"

definition replayFinancial :: "pg_config \<Rightarrow> int \<Rightarrow> int \<Rightarrow> pg_db \<Rightarrow> pg_db outcome" where
  "replayFinancial cf fromBlock toBlock s =
     (case pc_environment cf of
        None \<Rightarrow> Inl (RangeError ''invalid financial replay scope'')
      | Some env \<Rightarrow>
          if toBlock < fromBlock \<or> fromBlock < dp_deploymentBlock (en_deployment env)
          then Inl (RangeError ''invalid financial replay scope'')
          else outcome_bind (correct_ledger fromBlock ''projection_replay'' (\<lambda>r. r\<lparr>le_status := ShadowLedger\<rparr>) s)
                 (each_row (replay_range cf (dp_chainId (en_deployment env))) (replay_ranges fromBlock toBlock)))"

section \<open>Backfill of tracked accounts\<close>

text \<open>A transaction as a call of the composed state: the database and the world of the RPC client.\<close>

definition db_write :: "(pg_db \<Rightarrow> pg_db outcome) \<Rightarrow> (pg_db \<times> 'w, unit) call" where
  "db_write g = store_write (committed g)"

definition backfill_block :: "'w rpc_client \<Rightarrow> int \<Rightarrow> int \<Rightarrow> ('w, canonical_block) call" where
  "backfill_block cl c n =
     call_bind (rc_getBlock cl n) (\<lambda>b. call_of
       (case rb_hash b of
          None \<Rightarrow> Inl (JsError ''account backfill block is incomplete'')
        | Some h \<Rightarrow> Inr \<lparr>cb_chainId = c, cb_blockNumber = n, cb_blockHash = h, cb_parentHash = rb_parentHash b,
                         cb_timestamp = rb_timestamp b, cb_status = ConfirmedBlock\<rparr>))"

definition log_block :: "rpc_log \<Rightarrow> int outcome" where
  "log_block l =
     (case (lg_blockNumber l, lg_blockHash l) of
        (Some n, Some _) \<Rightarrow> Inr n
      | _ \<Rightarrow> Inl (JsError ''account backfill returned an incomplete log''))"

definition backfill_scope ::
  "pg_config \<Rightarrow> environment \<Rightarrow> 'w rpc_client \<Rightarrow> string list \<times> int \<times> int \<Rightarrow>
     ('w, rpc_log list \<times> canonical_block list) call" where
  "backfill_scope cf env cl scope =
     (case scope of (accounts, a, b) \<Rightarrow>
       let c = dp_chainId (en_deployment env) in
       call_bind (rc_getBlock cl b) (\<lambda>opening.
       call_bind (call_require (rb_hash opening \<noteq> None) (JsError ''account backfill endpoint is incomplete'')) (\<lambda>_.
       call_bind (scopedAccountLogs cl (ab_address (pg_abi cf)) (rn_paymentToken (en_deployment env)) accounts a b) (\<lambda>logs.
       call_bind (call_of (traverse log_block logs)) (\<lambda>numbers.
       call_bind (call_each (backfill_block cl c) (sort (fold set_add (numbers @ [b]) []))) (\<lambda>blocks.
       call_bind (call_require
           (list_all (\<lambda>l. lg_blockNumber l \<noteq> None \<and>
              map_option cb_blockHash (List.find (\<lambda>x. Some (cb_blockNumber x) = lg_blockNumber l) blocks) = lg_blockHash l) logs)
           (JsError ''account backfill log block changed'')) (\<lambda>_.
       call_bind (rc_getBlock cl b) (\<lambda>closing.
       call_bind (call_require (rb_hash closing = rb_hash opening)
           (JsError ''account backfill canonical range changed'')) (\<lambda>_.
         call_return (logs, blocks))))))))))"

definition backfillFinancialAccounts ::
  "pg_config \<Rightarrow> 'w rpc_client \<Rightarrow> (pg_db \<times> 'w, unit) call" where
  "backfillFinancialAccounts cf cl =
     (case pc_environment cf of
        None \<Rightarrow> call_return ()
      | Some env \<Rightarrow>
          let c = dp_chainId (en_deployment env) in
          call_bind (store_read (\<lambda>s. Inr (checkpoint_row c s))) (\<lambda>checkpoint.
            case checkpoint of
              None \<Rightarrow> call_return ()
            | Some k \<Rightarrow>
                call_bind (store_read (accountBackfillRange cf (ck_blockNumber k))) (\<lambda>scope.
                  case scope of
                    None \<Rightarrow> call_return ()
                  | Some (accounts, a, b) \<Rightarrow>
                      call_bind (on_right (backfill_scope cf env cl (accounts, a, b))) (\<lambda>(logs, blocks).
                      call_bind (call_of (traverse (\<lambda>l. normalizeLog (ab_address (pg_abi cf)) c l ConfirmedBlock) logs)) (\<lambda>es.
                      call_bind (db_write (applyFinancialBackfill cf es blocks)) (\<lambda>_.
                        db_write (\<lambda>s. Inr (accountScanned accounts a b
                          (cb_blockHash (the (List.find (\<lambda>x. cb_blockNumber x = b) blocks))) s))))))))"

end
