(* ===== verification/Pg_Invariant.thy ===== *)
theory Pg_Invariant
  imports Pg_Store Memory_Invariant
begin

text \<open>
  What every transaction of the PostgreSQL store keeps: the keys of the tables, the canonical rows that
  name a stored block under its hash, disjoint scan ranges and balances that are not negative.
\<close>

section \<open>The parts of the database\<close>

definition canonical_part :: "pg_db \<Rightarrow> chain_checkpoint list \<times> scan_range list \<times> canonical_block list \<times> event_row list" where
  "canonical_part s = (pg_checkpoints s, pg_ranges s, pg_blocks s, pg_events s)"

definition ledger_part where
  "ledger_part s = (pg_identity s, pg_ledger s, pg_facts s, pg_tracked s, pg_corrections s, pg_orderbook s)"

definition read_part where
  "read_part s = (pg_registered s, pg_markets s, pg_listings s, pg_fills s, pg_positions s, pg_claims s,
     pg_activities s, pg_participants s)"

named_theorems pg_parts \<open>the part of the database an operation changes\<close>

lemmas part_defs = canonical_part_def ledger_part_def read_part_def

lemma recordActivity_parts:
  "pg_recordActivity ab e a extra s = Inr t \<Longrightarrow>
   canonical_part t = canonical_part s \<and> ledger_part t = ledger_part s \<and> pg_positions t = pg_positions s"
  by (auto simp: pg_recordActivity_def Let_def part_defs)

lemmas mutation_defs = pg_created_def pg_initialized_def pg_metadata_def pg_purchased_def pg_terminal_def
  pg_listing_def pg_filled_def pg_closed_def pg_claim_def update_market_def update_listing_def

lemma applyMutation_parts:
  "pg_applyMutation cf e m s = Inr t \<Longrightarrow> canonical_part t = canonical_part s \<and> ledger_part t = ledger_part s"
  by (cases m)
    (auto simp: mutation_defs pg_delta_def Let_def part_defs dest!: recordActivity_parts
      split: if_splits option.splits prod.splits)

lemma each_row_const:
  "each_row g xs s = Inr t \<Longrightarrow> (\<And>x s t. x \<in> set xs \<Longrightarrow> g x s = Inr t \<Longrightarrow> h t = h s) \<Longrightarrow> h t = h s"
  using each_row_keeps [of g xs s t "\<lambda>u. h u = h s"] by simp

lemma applyProjection_parts:
  assumes "applyProjection cf e s = Inr t"
  shows "canonical_part t = canonical_part s \<and> ledger_part t = ledger_part s"
proof -
  obtain ms where "each_row (pg_applyMutation cf e) ms s = Inr t" using assms by (auto simp: applyProjection_def)
  then show ?thesis
    using each_row_const [of "pg_applyMutation cf e" ms s t canonical_part]
      each_row_const [of "pg_applyMutation cf e" ms s t ledger_part] applyMutation_parts by metis
qed

lemma replay_row_parts:
  "replay_row cf r s = Inr t \<Longrightarrow> canonical_part t = canonical_part s \<and> ledger_part t = ledger_part s"
  by (auto simp: replay_row_def dest: applyProjection_parts)

lemma rebuild_parts:
  assumes "rebuild cf c s = Inr t"
  shows "canonical_part t = canonical_part s \<and> ledger_part t = ledger_part s"
proof -
  have e: "each_row (replay_row cf) (stored_events c s) (pg_clearProjections c s) = Inr t"
    using assms by (simp add: rebuild_def)
  have "canonical_part t = canonical_part (pg_clearProjections c s)"
    by (rule each_row_const [OF e]) (simp add: replay_row_parts)
  moreover have "ledger_part t = ledger_part (pg_clearProjections c s)"
    by (rule each_row_const [OF e]) (simp add: replay_row_parts)
  ultimately show ?thesis by (simp add: part_defs pg_clearProjections_def)
qed

lemma each_row_parts:
  assumes "each_row g xs s = Inr t"
    and "\<And>x s t. g x s = Inr t \<Longrightarrow> canonical_part t = canonical_part s \<and> read_part t = read_part s"
  shows "canonical_part t = canonical_part s \<and> read_part t = read_part s"
  using each_row_const [OF assms(1), of canonical_part] each_row_const [OF assms(1), of read_part] assms(2) by blast

lemma project_order_parts:
  "project_order cf mk e s = Inr t \<Longrightarrow> canonical_part t = canonical_part s \<and> read_part t = read_part s"
  by (auto simp: project_order_def part_defs split: if_splits option.splits)

lemma projectOrderbook_parts:
  assumes "projectOrderbook cf es mk s = Inr t"
  shows "canonical_part t = canonical_part s \<and> read_part t = read_part s"
  using assms unfolding projectOrderbook_def by (rule each_row_parts) (rule project_order_parts)

lemma insert_fact_parts:
  "insert_fact c f s = Inr t \<Longrightarrow> canonical_part t = canonical_part s \<and> read_part t = read_part s"
  by (auto simp: insert_fact_def part_defs Let_def split: if_splits)

lemma revised_parts: "canonical_part (revised s) = canonical_part s \<and> read_part (revised s) = read_part s"
  by (simp add: revised_def part_defs)

lemma drop_facts_parts: "canonical_part (drop_facts c hs s) = canonical_part s \<and> read_part (drop_facts c hs s) = read_part s"
  by (simp add: drop_facts_def Let_def revised_def part_defs)

lemma mark_projected_parts:
  "canonical_part (mark_projected facts blocks k n s) = canonical_part s \<and>
   read_part (mark_projected facts blocks k n s) = read_part s"
  by (simp add: mark_projected_def Let_def revised_def part_defs split: option.splits)

lemma fin_project_parts:
  assumes "fin_project cf env es blocks k from_block s = Inr t"
  shows "canonical_part t = canonical_part s \<and> read_part t = read_part s"
proof -
  let ?d = "en_deployment env"
  obtain s1 facts s2 where s1: "(if dp_orderbook ?d then projectOrderbook cf es (rn_marketplace ?d) s else Inr s) = Inr s1"
    and s2: "each_row (insert_fact (dp_chainId ?d)) facts s1 = Inr s2"
    and t: "t = mark_projected facts blocks k from_block s2"
    using assms unfolding fin_project_def Let_def outcome_bind_Inr outcome_map_Inr by blast
  have "canonical_part s1 = canonical_part s \<and> read_part s1 = read_part s"
    using s1 projectOrderbook_parts by (auto split: if_splits)
  moreover have "canonical_part s2 = canonical_part s1 \<and> read_part s2 = read_part s1"
    by (rule each_row_parts [OF s2 insert_fact_parts])
  ultimately show ?thesis using t mark_projected_parts by simp
qed

lemma projectFinancial_parts:
  assumes "projectFinancialTransactions cf hs s = Inr t"
  shows "canonical_part t = canonical_part s \<and> read_part t = read_part s"
  using assms drop_facts_parts
  by (auto simp: projectFinancialTransactions_def Let_def dest!: fin_project_parts split: option.splits if_splits)

lemma project_batch_parts:
  "project_batch cf b s = Inr t \<Longrightarrow> canonical_part t = canonical_part s \<and> read_part t = read_part s"
  by (auto simp: project_batch_def dest!: fin_project_parts projectFinancial_parts split: option.splits)

lemma fin_rollback_parts:
  "fin_rollback env limit s = Inr t \<Longrightarrow> canonical_part t = canonical_part s \<and> read_part t = read_part s"
  by (auto simp: fin_rollback_def Let_def part_defs split: option.splits)

lemma correct_ledger_parts:
  "correct_ledger n reason g s = Inr t \<Longrightarrow> canonical_part t = canonical_part s \<and> read_part t = read_part s"
  by (auto simp: correct_ledger_def part_defs split: option.splits)

lemma keep_newer_parts:
  "canonical_part (keep_newer c m k u s) = canonical_part s \<and> ledger_part (keep_newer c m k u s) = ledger_part s"
  by (auto simp: keep_newer_def part_defs split: prod.splits)

section \<open>The read model\<close>

text \<open>The keys and CHECKs of the read tables, and the foreign key of the participants.\<close>

definition read_ok :: "pg_db \<Rightarrow> bool" where
  "read_ok s =
     (distinct (map registered_pk (pg_registered s)) \<and> distinct (map market_pk (pg_markets s)) \<and>
      distinct (map listing_pk (pg_listings s)) \<and> distinct (map fill_pk (pg_fills s)) \<and>
      distinct (map position_pk (pg_positions s)) \<and> distinct (map claim_pk (pg_claims s)) \<and>
      distinct (map activity_pk (pg_activities s)) \<and> distinct (pg_participants s) \<and>
      list_all (\<lambda>p. 0 \<le> pr_balance p) (pg_positions s) \<and> list_all reason_allowed (pg_markets s) \<and>
      list_all (\<lambda>p. (ap_chainId p, ap_transactionHash p, ap_logIndex p) \<in> activity_pk ` set (pg_activities s))
        (pg_participants s))"

named_theorems tables \<open>how a statement changes keys and rows\<close>

lemma keys_insert_or_ignore [tables]:
  "distinct (map key (insert_or_ignore key r t)) \<longleftrightarrow> distinct (map key t)"
  by (auto simp: insert_or_ignore_def)

lemma rows_insert_or_ignore [tables]:
  "x \<in> set (insert_or_ignore key r t) \<Longrightarrow> x = r \<or> x \<in> set t"
  by (auto simp: insert_or_ignore_def split: if_splits)

lemma key_of_inserted [tables]: "key r \<in> key ` set (insert_or_ignore key r t)"
  by (auto simp: insert_or_ignore_def)

lemma old_keys_inserted: "k \<in> key ` set t \<Longrightarrow> k \<in> key ` set (insert_or_ignore key r t)"
  by (auto simp: insert_or_ignore_def)

lemma keys_update_where [tables]:
  "(\<And>x. key (g x) = key x) \<Longrightarrow> map key (update_where P g t) = map key t"
  by (simp add: update_where_def)

lemma keys_insert_or_update [tables]:
  assumes "\<And>x. key (merge x) = key x"
  shows "distinct (map key (insert_or_update key merge r t)) \<longleftrightarrow> distinct (map key t)"
proof -
  have "map key (map (\<lambda>x. if key x = key r then merge x else x) t) = map key t" using assms by simp
  then show ?thesis by (auto simp: insert_or_update_def simp del: map_map)
qed

lemma all_insert_or_update:
  "\<lbrakk>list_all P t; P r; \<And>x. P x \<Longrightarrow> P (merge x)\<rbrakk> \<Longrightarrow> list_all P (insert_or_update key merge r t)"
  by (auto simp: insert_or_update_def list_all_iff)

lemma all_insert_or_ignore: "\<lbrakk>list_all P t; P r\<rbrakk> \<Longrightarrow> list_all P (insert_or_ignore key r t)"
  by (auto simp: insert_or_ignore_def)

lemma all_update_where:
  "\<lbrakk>list_all P t; \<And>x. x \<in> set t \<Longrightarrow> P x \<Longrightarrow> Q x \<Longrightarrow> P (g x)\<rbrakk> \<Longrightarrow> list_all P (update_where Q g t)"
  by (auto simp: update_where_def list_all_iff)

lemma fold_set_add: "set (fold (\<lambda>p. set_add (g p)) ps t) = set t \<union> g ` set ps"
  by (induction ps arbitrary: t) auto

lemma participants_rows:
  "distinct t \<Longrightarrow> distinct (participants_of e ps t)"
  "x \<in> set (participants_of e ps t) \<Longrightarrow> x \<in> set t \<or>
     (ap_chainId x = ev_chainId e \<and> ap_transactionHash x = ev_transactionHash e \<and> ap_logIndex x = ev_logIndex e)"
proof -
  show "distinct t \<Longrightarrow> distinct (participants_of e ps t)"
    unfolding participants_of_def by (induction ps arbitrary: t) auto
qed (auto simp: participants_of_def fold_set_add)

lemma recordActivity_ok:
  assumes "read_ok s" "pg_recordActivity ab e a extra s = Inr t"
    and "activity_pk a = (ev_chainId e, ev_transactionHash e, ev_logIndex e)"
  shows "read_ok t"
proof -
  obtain ps where t: "t = s\<lparr>pg_activities := insert_or_ignore activity_pk a (pg_activities s),
      pg_participants := participants_of e ps (pg_participants s)\<rparr>"
    using assms(2) by (auto simp: pg_recordActivity_def Let_def)
  have "(ap_chainId p, ap_transactionHash p, ap_logIndex p) \<in> activity_pk ` set (insert_or_ignore activity_pk a (pg_activities s))"
    if p: "p \<in> set (participants_of e ps (pg_participants s))" for p
    using participants_rows(2) [OF p]
  proof
    assume "p \<in> set (pg_participants s)"
    then have "(ap_chainId p, ap_transactionHash p, ap_logIndex p) \<in> activity_pk ` set (pg_activities s)"
      using assms(1) by (auto simp: read_ok_def list_all_iff)
    then show ?thesis by (rule old_keys_inserted)
  next
    assume "ap_chainId p = ev_chainId e \<and> ap_transactionHash p = ev_transactionHash e \<and> ap_logIndex p = ev_logIndex e"
    then show ?thesis using key_of_inserted [of activity_pk a "pg_activities s"] assms(3) by simp
  qed
  then show ?thesis
    using assms(1) unfolding t by (simp add: read_ok_def keys_insert_or_ignore participants_rows(1) list_all_iff)
qed

lemma activity_key [simp]:
  "activity_pk (activity e k v w) = (ev_chainId e, ev_transactionHash e, ev_logIndex e)"
  "activity_pk (a\<lparr>aw_amount := x1\<rparr>) = activity_pk a" "activity_pk (a\<lparr>aw_units := x2\<rparr>) = activity_pk a"
  "activity_pk (a\<lparr>aw_outcomeId := x3\<rparr>) = activity_pk a" "activity_pk (a\<lparr>aw_listingId := x4\<rparr>) = activity_pk a"
  "activity_pk (a\<lparr>aw_counterparty := x5\<rparr>) = activity_pk a"
  by (simp_all add: activity_pk_def activity_def)

lemma update_market_ok:
  assumes "read_ok s" "\<And>r. market_pk (g r) = market_pk r"
    and "list_all reason_allowed (pg_markets (update_market e market g s))"
  shows "read_ok (update_market e market g s)"
proof -
  have "map market_pk (pg_markets (update_market e market g s)) = map market_pk (pg_markets s)"
    unfolding update_market_def by (simp add: market_pk_def keys_update_where assms(2) [unfolded market_pk_def])
  moreover have "distinct (map market_pk (pg_markets s))" using assms(1) by (simp add: read_ok_def)
  ultimately have "distinct (map market_pk (pg_markets (update_market e market g s)))" by metis
  then show ?thesis using assms(1,3) by (simp add: read_ok_def update_market_def)
qed

lemma update_market_reasons:
  assumes "list_all reason_allowed (pg_markets s)"
    and "\<And>r. mr_protocolVersion (g r) = mr_protocolVersion r \<and> mr_state (g r) = mr_state r \<and> mr_voidReason (g r) = mr_voidReason r"
  shows "list_all reason_allowed (pg_markets (update_market e market g s))"
  using assms by (auto simp: update_market_def list_all_iff update_where_def reason_allowed_def)

lemma delta_ok:
  assumes "read_ok s" "pg_delta e vault own oid d s = Inr t"
  shows "read_ok t"
proof -
  let ?g = "\<lambda>p. p\<lparr>pr_balance := pr_balance p + d, pr_updatedBlock := ev_blockNumber e, pr_status := ev_status e\<rparr>"
  have key: "position_pk (?g p) = position_pk p" for p by (simp add: position_pk_def)
  have ok: "distinct (map position_pk (pg_positions s))" "list_all (\<lambda>p. 0 \<le> pr_balance p) (pg_positions s)"
    using assms(1) by (simp_all add: read_ok_def)
  let ?covered = "\<lambda>p. is_position (ev_chainId e) vault own oid p \<and> - d \<le> pr_balance p"
  have upd: "map position_pk (update_where ?covered ?g (pg_positions s)) = map position_pk (pg_positions s)"
    by (rule keys_update_where) (rule key)
  have pos: "list_all (\<lambda>p. 0 \<le> pr_balance p) (update_where ?covered ?g (pg_positions s))"
    by (rule all_update_where [OF ok(2)]) simp
  have ins: "distinct (map position_pk (insert_or_update position_pk ?g r (pg_positions s)))" for r
    using ok(1) keys_insert_or_update [of position_pk ?g] key by blast
  have inspos: "list_all (\<lambda>p. 0 \<le> pr_balance p) (insert_or_update position_pk ?g r (pg_positions s))"
    if "0 \<le> d" "0 \<le> pr_balance r" for r
    by (rule all_insert_or_update [OF ok(2)]) (use that in auto)
  show ?thesis
    using assms ins inspos upd pos ok
    by (auto simp: pg_delta_def Let_def read_ok_def split: if_splits)
qed

lemma initialized_ok:
  assumes "read_ok s" "pg_initialized cf e m c d n ca cl st dl w cap b s = Inr t"
  shows "read_ok t"
proof -
  define g where "g = (\<lambda>r :: market_row. r\<lparr>mr_outcomeCount := Some n, mr_createdAt := ca, mr_closeAt := Some cl,
      mr_eventStartsAt := st, mr_outcomeDeadlineAt := dl, mr_resolutionWindow := Some w,
      mr_marketPrimaryCap := Some cap, mr_creatorBond := b, mr_updatedBlock := ev_blockNumber e, mr_status := ev_status e\<rparr>)"
  have t: "t = s\<lparr>pg_markets := insert_or_update market_pk g (g (blank_market cf e m c d b)) (pg_markets s)\<rparr>"
    using assms(2) by (simp add: pg_initialized_def g_def)
  have key: "market_pk (g r) = market_pk r" for r by (simp add: g_def market_pk_def)
  have reason: "reason_allowed (g r) = reason_allowed r" for r by (simp add: g_def reason_allowed_def)
  have blank: "reason_allowed (blank_market cf e m c d b)" by (simp add: reason_allowed_def blank_market_def)
  have "list_all reason_allowed (insert_or_update market_pk g (g (blank_market cf e m c d b)) (pg_markets s))"
    by (rule all_insert_or_update) (use assms(1) reason blank in \<open>auto simp: read_ok_def\<close>)
  then show ?thesis
    using assms(1) keys_insert_or_update [of market_pk g, OF key] unfolding t by (simp add: read_ok_def)
qed

lemma update_listing_ok:
  assumes "read_ok s" "update_listing e l r a s = (found, t)"
  shows "read_ok t"
proof -
  let ?hit = "\<lambda>l'. lw_chainId l' = ev_chainId e \<and> lw_listingId l' = l"
  let ?g = "\<lambda>l. l\<lparr>lw_remainingUnits := r, lw_active := a, lw_updatedBlock := ev_blockNumber e, lw_status := ev_status e\<rparr>"
  have t: "t = s\<lparr>pg_listings := update_where ?hit ?g (pg_listings s)\<rparr>"
    using assms(2) by (simp add: update_listing_def Let_def)
  have "map listing_pk (update_where ?hit ?g (pg_listings s)) = map listing_pk (pg_listings s)"
    by (rule keys_update_where) (simp add: listing_pk_def)
  moreover have "distinct (map listing_pk (pg_listings s))" using assms(1) by (simp add: read_ok_def)
  ultimately have "distinct (map listing_pk (update_where ?hit ?g (pg_listings s)))" by metis
  then show ?thesis using assms(1) unfolding t by (simp add: read_ok_def)
qed

lemma read_ok_inserts:
  "read_ok s \<Longrightarrow> read_ok (s\<lparr>pg_fills := insert_or_ignore fill_pk x (pg_fills s)\<rparr>)"
  "read_ok s \<Longrightarrow> read_ok (s\<lparr>pg_claims := insert_or_ignore claim_pk y (pg_claims s)\<rparr>)"
  "read_ok s \<Longrightarrow> read_ok (s\<lparr>pg_listings := insert_or_ignore listing_pk z (pg_listings s)\<rparr>)"
  "read_ok s \<Longrightarrow> read_ok (s\<lparr>pg_registered := insert_or_ignore registered_pk v (pg_registered s),
     pg_markets := insert_or_ignore market_pk (blank_market cf e m c d b) (pg_markets s)\<rparr>)"
proof -
  have blank: "reason_allowed (blank_market cf e m c d b)" by (simp add: reason_allowed_def blank_market_def)
  show "read_ok s \<Longrightarrow> read_ok (s\<lparr>pg_registered := insert_or_ignore registered_pk v (pg_registered s),
     pg_markets := insert_or_ignore market_pk (blank_market cf e m c d b) (pg_markets s)\<rparr>)"
    using blank by (auto simp: read_ok_def keys_insert_or_ignore intro: all_insert_or_ignore)
qed (simp_all add: read_ok_def keys_insert_or_ignore)

lemma terminal_ok:
  assumes "read_ok s" "pg_terminal ab e m k c st r w h s = Inr t"
  shows "read_ok t"
proof -
  let ?g = "\<lambda>x. x\<lparr>mr_state := st, mr_voidReason := r, mr_winningOutcome := w, mr_evidenceHash := h\<rparr>"
  let ?t = "update_market e m ?g s"
  have checked: "list_all reason_allowed (filter (is_market (ev_chainId e) m) (pg_markets ?t))"
    and act: "pg_recordActivity ab e (activity e (terminalActivityKind k) m c)
      (terminal_participants (ev_chainId e) m s) ?t = Inr t"
    using assms(2) by (auto simp: pg_terminal_def Let_def split: if_splits)
  have "reason_allowed x" if x: "x \<in> set (pg_markets ?t)" for x
  proof (cases "is_market (ev_chainId e) m x")
    case True
    then show ?thesis using checked x by (auto simp: list_all_iff)
  next
    case False
    then have "x \<in> set (pg_markets s)"
      using x by (auto simp: update_market_def update_where_def is_market_def split: if_splits)
    then show ?thesis using assms(1) by (auto simp: read_ok_def list_all_iff)
  qed
  then have "read_ok ?t"
    by (intro update_market_ok [OF assms(1)]) (simp_all add: market_pk_def list_all_iff)
  then show ?thesis by (rule recordActivity_ok [OF _ act]) simp
qed

lemma applyMutation_ok:
  assumes "read_ok s" "pg_applyMutation cf e m s = Inr t"
  shows "read_ok t"
proof (cases m)
  case (MarketCreated a b c d)
  then show ?thesis
    using assms recordActivity_ok [OF read_ok_inserts(4)] by (simp add: pg_created_def)
next
  case (MarketInitialized a b c d e f g h i j k)
  then show ?thesis using assms initialized_ok by simp
next
  case (MarketMetadata a b c d e' f g h i j k)
  have "read_ok (update_market e' m' g' s)" if "\<And>r. market_pk (g' r) = market_pk r"
    "\<And>r. mr_protocolVersion (g' r) = mr_protocolVersion r \<and> mr_state (g' r) = mr_state r \<and> mr_voidReason (g' r) = mr_voidReason r"
    for e' m' g'
    by (intro update_market_ok [OF assms(1)] update_market_reasons that)
      (use assms(1) in \<open>simp add: read_ok_def\<close>)
  then show ?thesis using assms MarketMetadata by (auto simp: pg_metadata_def market_pk_def)
next
  case (PrimaryPurchased a b c d f g h)
  have "read_ok (update_market e a (\<lambda>r. r\<lparr>mr_primaryFilledUnits := mr_primaryFilledUnits r + d, mr_primaryPayment := h\<rparr>) s)"
    by (intro update_market_ok [OF assms(1)] update_market_reasons)
      (use assms(1) in \<open>auto simp: read_ok_def market_pk_def\<close>)
  then show ?thesis using assms(2) PrimaryPurchased recordActivity_ok by (simp add: pg_purchased_def)
next
  case (MarketTerminal a b c d f g h)
  then show ?thesis using assms terminal_ok by simp
next
  case (ListingCreated a b c d f g h)
  then show ?thesis using assms recordActivity_ok [OF read_ok_inserts(3)] by (simp add: pg_listing_def)
next
  case (ListingFilled a b c d f g h i j)
  then show ?thesis
    using assms recordActivity_ok [OF read_ok_inserts(1) [OF update_listing_ok]]
    by (auto simp: pg_filled_def split: prod.splits option.splits)
next
  case (ListingClosed a b c d)
  then show ?thesis
    using assms recordActivity_ok [OF update_listing_ok] by (auto simp: pg_closed_def split: prod.splits option.splits)
next
  case (PositionDelta a b c d)
  then show ?thesis using assms delta_ok by simp
next
  case (ClaimMade a b c d f g)
  then show ?thesis using assms recordActivity_ok [OF read_ok_inserts(2)] by (auto simp: pg_claim_def)
qed

lemma applyProjection_ok: "read_ok s \<Longrightarrow> applyProjection cf e s = Inr t \<Longrightarrow> read_ok t"
  by (auto simp: applyProjection_def elim!: each_row_keeps intro: applyMutation_ok)

lemma read_ok_cleared: "read_ok s \<Longrightarrow> read_ok (pg_clearProjections c s)"
  by (auto simp: read_ok_def pg_clearProjections_def list_all_iff distinct_map_filter activity_pk_def image_iff Bex_def)

section \<open>The canonical rows\<close>

definition block_known :: "int \<Rightarrow> int \<Rightarrow> string \<Rightarrow> canonical_block list \<Rightarrow> bool" where
  "block_known c n h bs = list_ex (\<lambda>b. cb_chainId b = c \<and> cb_blockNumber b = n \<and> cb_blockHash b = h) bs"

definition canon_ok :: "pg_db \<Rightarrow> bool" where
  "canon_ok s =
     (distinct (map block_pk (pg_blocks s)) \<and> distinct (map event_pk (pg_events s)) \<and>
      distinct (map ck_chainId (pg_checkpoints s)) \<and>
      list_all (\<lambda>r. block_known (er_chainId r) (er_blockNumber r) (er_blockHash r) (pg_blocks s)) (pg_events s) \<and>
      list_all (\<lambda>k. block_known (ck_chainId k) (ck_blockNumber k) (ck_blockHash k) (pg_blocks s)) (pg_checkpoints s) \<and>
      list_all (\<lambda>r. sr_fromBlock r \<le> sr_toBlock r \<and>
        block_known (sr_chainId r) (sr_toBlock r) (sr_endBlockHash r) (pg_blocks s)) (pg_ranges s) \<and>
      sorted_wrt ranges_apart (pg_ranges s))"

lemma canon_ok_parts: "canonical_part t = canonical_part s \<Longrightarrow> canon_ok t = canon_ok s"
  by (simp add: canon_ok_def canonical_part_def)

lemma read_ok_parts: "read_part t = read_part s \<Longrightarrow> read_ok t = read_ok s"
  by (simp add: read_ok_def read_part_def)

lemma block_at_parts: "canonical_part t = canonical_part s \<Longrightarrow> block_at c n t = block_at c n s"
  by (simp add: block_at_def canonical_part_def)

lemma checkpoint_row_parts: "canonical_part t = canonical_part s \<Longrightarrow> checkpoint_row c t = checkpoint_row c s"
  by (simp add: checkpoint_row_def canonical_part_def)

lemma find_keyed:
  "\<lbrakk>distinct (map key t); x \<in> set t; \<And>y. P y \<longleftrightarrow> key y = key x\<rbrakk> \<Longrightarrow> List.find P t = Some x"
  by (induction t) auto

lemma block_at_Some: "block_at c n s = Some b \<Longrightarrow> b \<in> set (pg_blocks s) \<and> cb_chainId b = c \<and> cb_blockNumber b = n"
  by (auto simp: block_at_def find_Some_iff)

lemma block_at_in:
  "canon_ok s \<Longrightarrow> b \<in> set (pg_blocks s) \<Longrightarrow> block_at (cb_chainId b) (cb_blockNumber b) s = Some b"
  unfolding block_at_def by (rule find_keyed [where key = block_pk]) (auto simp: canon_ok_def block_pk_def)

lemma block_known_at:
  "canon_ok s \<Longrightarrow> block_known c n h (pg_blocks s) \<longleftrightarrow> map_option cb_blockHash (block_at c n s) = Some h"
  using block_at_in block_at_Some by (fastforce simp: block_known_def list_ex_iff)

lemma block_at_known: "map_option cb_blockHash (block_at c n s) = Some h \<Longrightarrow> block_known c n h (pg_blocks s)"
  using block_at_Some by (fastforce simp: block_known_def list_ex_iff)

lemma block_known_more: "block_known c n h bs \<Longrightarrow> set bs \<subseteq> set bs' \<Longrightarrow> block_known c n h bs'"
  by (auto simp: block_known_def list_ex_iff)

lemma checkpoint_row_Some: "checkpoint_row c s = Some k \<Longrightarrow> k \<in> set (pg_checkpoints s) \<and> ck_chainId k = c"
  by (auto simp: checkpoint_row_def find_Some_iff)

lemma checkpoint_row_in:
  "canon_ok s \<Longrightarrow> k \<in> set (pg_checkpoints s) \<Longrightarrow> checkpoint_row (ck_chainId k) s = Some k"
  unfolding checkpoint_row_def by (rule find_keyed [where key = ck_chainId]) (auto simp: canon_ok_def)

lemma canon_ok_more_blocks:
  "canon_ok s \<Longrightarrow> set (pg_blocks s) \<subseteq> set bs \<Longrightarrow> distinct (map block_pk bs) \<Longrightarrow> canon_ok (s\<lparr>pg_blocks := bs\<rparr>)"
  using block_known_more by (auto simp: canon_ok_def list_all_iff)

lemma insertCanonicalBlock_ok:
  assumes "canon_ok s" "insertCanonicalBlock b s = Inr t"
  shows "canon_ok t \<and> read_part t = read_part s \<and> ledger_part t = ledger_part s"
proof -
  have t: "t = s\<lparr>pg_blocks := insert_or_ignore block_pk b (pg_blocks s)\<rparr>"
    using assms(2) by (auto simp: insertCanonicalBlock_def Let_def split: if_splits)
  have "set (pg_blocks s) \<subseteq> set (insert_or_ignore block_pk b (pg_blocks s))" by (auto simp: insert_or_ignore_def)
  then have "canon_ok t"
    using canon_ok_more_blocks [OF assms(1)] assms(1) unfolding t by (simp add: canon_ok_def keys_insert_or_ignore)
  then show ?thesis unfolding t by (simp add: part_defs)
qed

lemma insertRawEvent_ok:
  assumes "canon_ok s" "insertRawEvent e s = Inr (inserted, t)"
  shows "canon_ok t \<and> read_part t = read_part s \<and> ledger_part t = ledger_part s"
proof -
  have "block_known (er_chainId (row_of_event e)) (er_blockNumber (row_of_event e)) (er_blockHash (row_of_event e)) (pg_blocks s)"
    if "map_option cb_blockHash (block_at (ev_chainId e) (ev_blockNumber e) s) = Some (ev_blockHash e)"
    using block_at_known [OF that] by (simp add: row_of_event_def)
  then show ?thesis
    using assms by (auto simp: insertRawEvent_def canon_ok_def part_defs split: if_splits)
qed

lemma ingest_ok:
  assumes "canon_ok s \<and> read_ok s" "ingest cf e s = Inr t"
  shows "canon_ok t \<and> read_ok t"
proof -
  obtain inserted u where u: "insertRawEvent e s = Inr (inserted, u)" "(if inserted then applyProjection cf e u else Inr u) = Inr t"
    using assms(2) by (auto simp: ingest_def)
  then have "canon_ok u \<and> read_ok u" using insertRawEvent_ok [OF _ u(1)] assms(1) read_ok_parts by blast
  then show ?thesis
    using u(2) applyProjection_ok [of u cf e t] applyProjection_parts [of cf e u t] canon_ok_parts [of t u]
    by (auto split: if_splits)
qed

lemma insertRawEvent_parts:
  "insertRawEvent e s = Inr (i, t) \<Longrightarrow> ledger_part t = ledger_part s \<and> read_part t = read_part s \<and> pg_blocks t = pg_blocks s"
  by (auto simp: insertRawEvent_def part_defs split: if_splits)

lemma ingest_ledger: "ingest cf e s = Inr t \<Longrightarrow> ledger_part t = ledger_part s"
  by (auto simp: ingest_def dest!: insertRawEvent_parts applyProjection_parts split: if_splits)

lemma range_insert_ok:
  assumes "canon_ok s" "\<not> pg_overlaps r s" "insertCanonicalScanRange r s = Inr t"
    and "block_known (sr_chainId r) (sr_toBlock r) (sr_endBlockHash r) (pg_blocks s)"
  shows "canon_ok t \<and> read_part t = read_part s \<and> ledger_part t = ledger_part s"
proof -
  have t: "t = s\<lparr>pg_ranges := pg_ranges s @ [r]\<rparr>" and "sr_fromBlock r \<le> sr_toBlock r"
    using assms(3) by (auto simp: insertCanonicalScanRange_def range_allowed_def split: if_splits)
  moreover have "\<forall>x \<in> set (pg_ranges s). ranges_apart x r"
    using assms(2) by (auto simp: pg_overlaps_def list_ex_iff ranges_apart_def not_le)
  ultimately show ?thesis using assms(1,4) by (simp add: canon_ok_def part_defs sorted_wrt_append)
qed

lemma put_checkpoint_ok:
  assumes "canon_ok s" "put_checkpoint k s = Inr t"
    and "block_known (ck_chainId k) (ck_blockNumber k) (ck_blockHash k) (pg_blocks s)"
  shows "canon_ok t \<and> read_part t = read_part s \<and> ledger_part t = ledger_part s \<and> checkpoint_row (ck_chainId k) t = Some k"
proof -
  have t: "t = s\<lparr>pg_checkpoints := insert_or_update ck_chainId (\<lambda>_. k) k (pg_checkpoints s)\<rparr>"
    using assms(2) by (auto simp: put_checkpoint_def split: if_splits)
  have d: "distinct (map ck_chainId (insert_or_update ck_chainId (\<lambda>_. k) k (pg_checkpoints s)))"
  proof (cases "ck_chainId k \<in> ck_chainId ` set (pg_checkpoints s)")
    case True
    have "map ck_chainId (map (\<lambda>x. if ck_chainId x = ck_chainId k then k else x) (pg_checkpoints s)) =
        map ck_chainId (pg_checkpoints s)" by simp
    then show ?thesis using True assms(1) by (simp add: insert_or_update_def canon_ok_def del: map_map)
  qed (use assms(1) in \<open>simp add: insert_or_update_def canon_ok_def\<close>)
  have "list_all (\<lambda>k. block_known (ck_chainId k) (ck_blockNumber k) (ck_blockHash k) (pg_blocks s))
      (insert_or_update ck_chainId (\<lambda>_. k) k (pg_checkpoints s))"
    by (rule all_insert_or_update) (use assms(1,3) in \<open>simp_all add: canon_ok_def\<close>)
  then have ok: "canon_ok t" using assms(1) d unfolding t by (simp add: canon_ok_def)
  moreover have "k \<in> set (pg_checkpoints t)" unfolding t by (auto simp: insert_or_update_def image_iff)
  ultimately show ?thesis using checkpoint_row_in [OF ok] unfolding t by (simp add: part_defs)
qed

section \<open>Transactions\<close>

definition sound_db :: "pg_db \<Rightarrow> bool" where
  "sound_db s = (canon_ok s \<and> read_ok s)"

lemma sound_db_parts: "canonical_part t = canonical_part s \<Longrightarrow> read_part t = read_part s \<Longrightarrow> sound_db t = sound_db s"
  unfolding sound_db_def using canon_ok_parts [of t s] read_ok_parts [of t s] by simp

lemma insertCanonicalBlock_sound: "sound_db s \<Longrightarrow> insertCanonicalBlock b s = Inr t \<Longrightarrow> sound_db t"
  using insertCanonicalBlock_ok [of s b t] read_ok_parts [of t s] by (simp add: sound_db_def)

lemma anchors_sound:
  assumes "each_row insertCanonicalBlock bs s = Inr t" "sound_db s"
  shows "sound_db t \<and> pg_ranges t = pg_ranges s \<and> pg_checkpoints t = pg_checkpoints s \<and> ledger_part t = ledger_part s"
proof -
  have "sound_db t"
    using assms by (rule each_row_keeps) (rule insertCanonicalBlock_sound)
  moreover have "(pg_ranges t, pg_checkpoints t, ledger_part t) = (pg_ranges s, pg_checkpoints s, ledger_part s)"
    by (rule each_row_const [OF assms(1)])
      (auto simp: insertCanonicalBlock_def Let_def ledger_part_def split: if_splits)
  ultimately show ?thesis by simp
qed

lemma ingest_canonical:
  assumes "ingest cf e s = Inr t"
  shows "pg_ranges t = pg_ranges s \<and> pg_checkpoints t = pg_checkpoints s \<and> pg_blocks t = pg_blocks s"
proof -
  obtain i u where u: "insertRawEvent e s = Inr (i, u)" "(if i then applyProjection cf e u else Inr u) = Inr t"
    using assms by (auto simp: ingest_def)
  have "pg_ranges u = pg_ranges s \<and> pg_checkpoints u = pg_checkpoints s \<and> pg_blocks u = pg_blocks s"
    using u(1) by (auto simp: insertRawEvent_def split: if_splits)
  moreover have "canonical_part t = canonical_part u" using u(2) applyProjection_parts by (auto split: if_splits)
  ultimately show ?thesis by (simp add: canonical_part_def)
qed

lemma events_sound:
  assumes "each_row (ingest cf) es s = Inr t" "sound_db s"
  shows "sound_db t \<and> pg_ranges t = pg_ranges s \<and> pg_checkpoints t = pg_checkpoints s \<and> pg_blocks t = pg_blocks s \<and>
    ledger_part t = ledger_part s"
proof -
  have "sound_db t"
    using assms by (rule each_row_keeps) (metis ingest_ok sound_db_def)
  moreover have "(pg_ranges t, pg_checkpoints t, pg_blocks t, ledger_part t) =
      (pg_ranges s, pg_checkpoints s, pg_blocks s, ledger_part s)"
    by (rule each_row_const [OF assms(1)]) (auto dest: ingest_canonical ingest_ledger)
  ultimately show ?thesis by simp
qed

lemma finish_batch_sound:
  assumes "finish_batch b s = Inr t" "sound_db s" "\<not> pg_overlaps (bt_range b) s" "validateCanonicalBatch b = Inr ()"
  shows "sound_db t \<and> checkpoint_row (ck_chainId (bt_checkpoint b)) t = Some (bt_checkpoint b) \<and>
    ledger_part t = ledger_part s \<and> pg_ranges t = pg_ranges s @ [bt_range b]"
proof -
  let ?k = "bt_checkpoint b" and ?r = "bt_range b"
  obtain u where u: "map_option cb_blockHash (block_at (ck_chainId ?k) (ck_blockNumber ?k) s) = Some (ck_blockHash ?k)"
    "insertCanonicalScanRange ?r s = Inr u" "put_checkpoint ?k u = Inr t"
    using assms(1) by (auto simp: finish_batch_def Let_def split: if_splits)
  have known: "block_known (ck_chainId ?k) (ck_blockNumber ?k) (ck_blockHash ?k) (pg_blocks s)"
    by (rule block_at_known [OF u(1)])
  have k: "ck_chainId ?k = sr_chainId ?r" "ck_blockNumber ?k = sr_toBlock ?r" "ck_blockHash ?k = sr_endBlockHash ?r"
    using validated_parts(2) [OF assms(4)] by simp_all
  have i: "canon_ok u \<and> read_part u = read_part s \<and> ledger_part u = ledger_part s"
    using range_insert_ok [OF _ assms(3) u(2)] assms(2) known k by (simp add: sound_db_def)
  moreover have "pg_blocks u = pg_blocks s" "pg_ranges u = pg_ranges s @ [?r]"
    using u(2) by (auto simp: insertCanonicalScanRange_def split: if_splits)
  ultimately have "canon_ok t \<and> read_part t = read_part u \<and> ledger_part t = ledger_part u \<and> checkpoint_row (ck_chainId ?k) t = Some ?k"
    using put_checkpoint_ok [OF _ u(3)] known by simp
  moreover have "pg_ranges t = pg_ranges u" using u(3) by (auto simp: put_checkpoint_def split: if_splits)
  ultimately show ?thesis
    using i assms(2) \<open>pg_ranges u = _\<close> read_ok_parts [of t s] by (simp add: sound_db_def)
qed

text \<open>The states a batch that is not a repetition goes through.\<close>

lemma applyBatch_steps:
  assumes "pg_applyBatch cf b s = Inr t"
  obtains (repeated) "pg_already_applied b s" "t = s" "validateCanonicalBatch b = Inr ()"
  | (fresh) s1 s2 s3 where "validateCanonicalBatch b = Inr ()" "\<not> pg_already_applied b s"
      "continues (checkpoint_row (sr_chainId (bt_range b)) s) (bt_range b) = Inr ()" "\<not> pg_overlaps (bt_range b) s"
      "each_row insertCanonicalBlock (bt_anchors b) s = Inr s1" "each_row (ingest cf) (bt_events b) s1 = Inr s2"
      "project_batch cf b s2 = Inr s3" "finish_batch b s3 = Inr t"
  using assms by (fastforce simp: pg_applyBatch_def split: if_splits)

lemma applyBatch_sound:
  assumes "pg_applyBatch cf b s = Inr t" "sound_db s"
  shows "sound_db t \<and> checkpoint_row (ck_chainId (bt_checkpoint b)) t = Some (bt_checkpoint b)"
  using assms(1)
proof (cases rule: applyBatch_steps)
  case repeated
  then obtain k where k: "checkpoint_row (sr_chainId (bt_range b)) s = Some k"
    "ck_blockNumber k = ck_blockNumber (bt_checkpoint b)" "ck_blockHash k = ck_blockHash (bt_checkpoint b)"
    by (auto simp: pg_already_applied_def Let_def split: option.splits)
  moreover have "ck_chainId k = sr_chainId (bt_range b)" using checkpoint_row_Some [OF k(1)] by simp
  ultimately show ?thesis using repeated assms(2) validated_parts(2) [OF repeated(3)] by simp
next
  case (fresh s1 s2 s3)
  have s1: "sound_db s1" "pg_ranges s1 = pg_ranges s" using anchors_sound [OF fresh(5) assms(2)] by auto
  have s2: "sound_db s2" "pg_ranges s2 = pg_ranges s1" using events_sound [OF fresh(6) s1(1)] by auto
  have "sound_db s3" "pg_ranges s3 = pg_ranges s2"
    using project_batch_parts [OF fresh(7)] sound_db_parts [of s3 s2] s2(1) by (auto simp: canonical_part_def)
  moreover have "\<not> pg_overlaps (bt_range b) s3"
    using fresh(4) calculation(2) s1 s2 by (simp add: pg_overlaps_def)
  ultimately show ?thesis using finish_batch_sound [OF fresh(8)] fresh(1) by blast
qed

lemma projectFinancial_sound: "projectFinancialTransactions cf hs s = Inr t \<Longrightarrow> sound_db s \<Longrightarrow> sound_db t"
  using projectFinancial_parts [of cf hs s t] sound_db_parts [of t s] by simp

lemma applyLegacyHistorical_sound:
  "applyLegacyHistoricalBatch cf es blocks s = Inr t \<Longrightarrow> sound_db s \<Longrightarrow> sound_db t"
  by (auto simp: applyLegacyHistoricalBatch_def dest!: anchors_sound events_sound intro: projectFinancial_sound split: if_splits)

lemma applyLegacy_sound: "pg_applyLegacy cf es blocks k s = Inr t \<Longrightarrow> sound_db s \<Longrightarrow> sound_db t"
  by (auto simp: pg_applyLegacy_def Let_def dest: applyLegacyHistorical_sound applyBatch_sound split: option.splits if_splits)

section \<open>Rollback\<close>

lemma forget_after_rows:
  "pg_blocks (forget_after c limit s) = filter (\<lambda>b. survives c limit (cb_chainId b) (cb_blockNumber b)) (pg_blocks s)"
  "pg_events (forget_after c limit s) = filter (\<lambda>r. survives c limit (er_chainId r) (er_blockNumber r)) (pg_events s)"
  "pg_ranges (forget_after c limit s) = filter (\<lambda>r. survives c limit (sr_chainId r) (sr_toBlock r)) (pg_ranges s)"
  "pg_checkpoints (forget_after c limit s) = filter (\<lambda>k. ck_chainId k \<noteq> c) (pg_checkpoints s)"
  "pg_facts (forget_after c limit s) = filter (\<lambda>f. survives c limit (ft_chainId f) (ft_blockNumber f)) (pg_facts s)"
  "read_part (forget_after c limit s) = read_part s" "pg_ledger (forget_after c limit s) = pg_ledger s"
  "pg_tracked (forget_after c limit s) = pg_tracked s"
  by (auto simp: forget_after_def keep_blocks_def Let_def survives_def read_part_def intro: filter_cong)

lemma block_known_filter:
  "block_known c n h bs \<Longrightarrow> P c n \<Longrightarrow> block_known c n h (filter (\<lambda>b. P (cb_chainId b) (cb_blockNumber b)) bs)"
  by (auto simp: block_known_def list_ex_iff)

lemma forget_after_ok:
  assumes "canon_ok s"
  shows "canon_ok (forget_after c limit s)"
  using assms block_known_filter [where P = "survives c limit"]
  by (auto simp: canon_ok_def forget_after_rows list_all_iff distinct_map_filter sorted_wrt_filter survives_def)

lemma rebuild_sound:
  assumes "rebuild cf c s = Inr t" "sound_db s"
  shows "sound_db t"
proof -
  have "each_row (replay_row cf) (stored_events c s) (pg_clearProjections c s) = Inr t"
    using assms(1) by (simp add: rebuild_def)
  then have "read_ok t"
    by (rule each_row_keeps) (use assms(2) in \<open>auto simp: replay_row_def sound_db_def read_ok_cleared dest: applyProjection_ok\<close>)
  then show ?thesis
    using rebuild_parts [OF assms(1)] canon_ok_parts [of t s] assms(2) by (simp add: sound_db_def)
qed

lemma rollback_steps:
  assumes "pg_rollbackAfter cf c limit s = Inr t"
  obtains s1 s2 where "rebuild cf c (forget_after c limit s) = Inr s1"
    "(case pc_environment cf of None \<Rightarrow> Inr s1 | Some env \<Rightarrow> fin_rollback env limit s1) = Inr s2"
    "canonical_part s2 = canonical_part (forget_after c limit s)" "read_part s2 = read_part s1"
    "case limit of None \<Rightarrow> t = s2
     | Some n \<Rightarrow> \<exists>b. block_at c n s2 = Some b \<and> t = s2\<lparr>pg_checkpoints := pg_checkpoints s2 @
          [\<lparr>ck_chainId = c, ck_blockNumber = n, ck_blockHash = cb_blockHash b\<rparr>]\<rparr>"
proof -
  obtain s1 s2 where s: "rebuild cf c (forget_after c limit s) = Inr s1"
    "(case pc_environment cf of None \<Rightarrow> Inr s1 | Some env \<Rightarrow> fin_rollback env limit s1) = Inr s2"
    and last_step: "(case limit of None \<Rightarrow> Inr s2
       | Some n \<Rightarrow> (case block_at c n s2 of
              None \<Rightarrow> Inl (JsError ''rollback ancestor canonical block is missing'')
            | Some b \<Rightarrow> Inr (s2\<lparr>pg_checkpoints := pg_checkpoints s2 @
                [\<lparr>ck_chainId = c, ck_blockNumber = n, ck_blockHash = cb_blockHash b\<rparr>]\<rparr>))) = Inr t"
    using assms unfolding pg_rollbackAfter_def outcome_bind_Inr by blast
  have end_state: "case limit of None \<Rightarrow> t = s2
     | Some n \<Rightarrow> \<exists>b. block_at c n s2 = Some b \<and> t = s2\<lparr>pg_checkpoints := pg_checkpoints s2 @
          [\<lparr>ck_chainId = c, ck_blockNumber = n, ck_blockHash = cb_blockHash b\<rparr>]\<rparr>"
    using last_step by (cases limit; cases "block_at c (the limit) s2") simp_all
  have "canonical_part s2 = canonical_part s1 \<and> read_part s2 = read_part s1"
    using s(2) fin_rollback_parts by (auto split: option.splits)
  then show ?thesis using rebuild_parts [OF s(1)] by (intro that [OF s _ _ end_state]) simp_all
qed

lemma rollback_sound:
  assumes "pg_rollbackAfter cf c limit s = Inr t" "sound_db s"
  shows "sound_db t \<and> (case limit of None \<Rightarrow> checkpoint_row c t = None
    | Some n \<Rightarrow> \<exists>b. block_at c n s = Some b \<and>
        checkpoint_row c t = Some \<lparr>ck_chainId = c, ck_blockNumber = n, ck_blockHash = cb_blockHash b\<rparr>)"
  using assms(1)
proof (cases rule: rollback_steps)
  case (1 s1 s2)
  let ?f = "forget_after c limit s"
  have "sound_db s1"
    by (rule rebuild_sound [OF 1(1)])
      (use assms(2) forget_after_ok read_ok_parts [of ?f s] in \<open>simp add: sound_db_def forget_after_rows\<close>)
  then have s2: "sound_db s2"
    using 1(3,4) rebuild_parts [OF 1(1)] sound_db_parts [of s2 s1] by simp
  have cks: "pg_checkpoints s2 = filter (\<lambda>k. ck_chainId k \<noteq> c) (pg_checkpoints s)"
    and blocks: "pg_blocks s2 = filter (\<lambda>b. survives c limit (cb_chainId b) (cb_blockNumber b)) (pg_blocks s)"
    using 1(3) by (simp_all add: canonical_part_def forget_after_rows)
  have none: "checkpoint_row c s2 = None" by (simp add: checkpoint_row_def cks find_None_iff)
  show ?thesis
  proof (cases limit)
    case None
    then show ?thesis using 1(5) s2 none by simp
  next
    case (Some n)
    let ?k = "\<lambda>b. \<lparr>ck_chainId = c, ck_blockNumber = n, ck_blockHash = cb_blockHash b\<rparr>"
    obtain b where b: "block_at c n s2 = Some b" "t = s2\<lparr>pg_checkpoints := pg_checkpoints s2 @ [?k b]\<rparr>"
      using 1(5) Some by auto
    have known: "block_known c n (cb_blockHash b) (pg_blocks s2)" using b(1) block_at_known by simp
    have "c \<notin> ck_chainId ` set (pg_checkpoints s2)" by (auto simp: cks)
    then have t: "sound_db t"
      using s2 known unfolding b(2) by (simp add: sound_db_def canon_ok_def read_ok_def)
    have "checkpoint_row c t = Some (?k b)"
      using checkpoint_row_in [of t "?k b"] t unfolding b(2) by (simp add: sound_db_def)
    moreover have "block_at c n s = Some b"
      using block_at_Some [OF b(1)] block_at_in [of s b] assms(2) blocks by (auto simp: sound_db_def)
    ultimately show ?thesis using t Some by simp
  qed
qed

section \<open>Backfills and repairs\<close>

lemma ensureHistoricalAnchor_sound: "sound_db s \<Longrightarrow> ensureHistoricalAnchor m b s = Inr t \<Longrightarrow> sound_db t"
  by (auto simp: ensureHistoricalAnchor_def intro: insertCanonicalBlock_sound split: option.splits if_splits)

lemma ingest_sound: "sound_db s \<Longrightarrow> ingest cf e s = Inr t \<Longrightarrow> sound_db t"
  using ingest_ok [of s cf e t] by (simp add: sound_db_def)

lemma backfill_event_sound: "sound_db s \<Longrightarrow> backfill_event cf bs e s = Inr t \<Longrightarrow> sound_db t"
  by (auto simp: backfill_event_def intro: ingest_sound split: if_splits)

lemma verifiedBackfill_sound:
  assumes "applyVerifiedBackfill cf es bs guard s = Inr t" "sound_db s"
  shows "sound_db t"
proof -
  obtain s1 s2 where s1: "each_row (ensureHistoricalAnchor ''backfill canonical block mismatch'') bs s = Inr s1"
    and s2: "each_row (backfill_event cf bs) es s1 = Inr s2"
    and t: "projectFinancialTransactions cf (map ev_transactionHash es) s2 = Inr t"
    using assms(1) by (auto simp: applyVerifiedBackfill_def split: if_splits)
  have "sound_db s1" using s1 assms(2) by (rule each_row_keeps) (rule ensureHistoricalAnchor_sound)
  with s2 have "sound_db s2" by (rule each_row_keeps) (rule backfill_event_sound)
  then show ?thesis by (rule projectFinancial_sound [OF t])
qed

lemma repairMarketCreation_sound: "repairMarketCreation cf m es b s = Inr t \<Longrightarrow> sound_db s \<Longrightarrow> sound_db t"
  by (auto simp: repairMarketCreation_def dest: verifiedBackfill_sound split: if_splits)

lemma insertRawEvent_sound:
  assumes "sound_db s" "insertRawEvent e s = Inr (i, t)"
  shows "sound_db t"
  using insertRawEvent_ok [OF _ assms(2)] read_ok_parts [of t s] assms(1) by (simp add: sound_db_def)

lemma applyProjection_sound:
  assumes "sound_db s" "applyProjection cf e s = Inr t"
  shows "sound_db t"
  using applyProjection_ok [OF _ assms(2)] applyProjection_parts [OF assms(2)] canon_ok_parts [of t s] assms(1)
  by (simp add: sound_db_def)

lemma repair_purchase_events_sound:
  "repair_purchase_events cf es n s = Inr (k, t) \<Longrightarrow> sound_db s \<Longrightarrow> sound_db t"
proof (induction cf es n s rule: repair_purchase_events.induct)
  case (2 cf e es n s)
  then obtain i u where u: "insertRawEvent e s = Inr (i, u)"
    "(if i then outcome_bind (applyProjection cf e u) (repair_purchase_events cf es (n + 1))
      else repair_purchase_events cf es n u) = Inr (k, t)"
    by (auto split: if_splits)
  have ok: "sound_db u" using insertRawEvent_sound [OF "2.prems"(2) u(1)] .
  have c: "\<not> (case stored_log e s of None \<Rightarrow> False | Some r \<Rightarrow> \<not> same_log e r)"
    using "2.prems"(1) by (auto split: if_splits)
  show ?case
  proof (cases i)
    case True
    then obtain v where "applyProjection cf e u = Inr v" "repair_purchase_events cf es (n + 1) v = Inr (k, t)"
      using u(2) by auto
    then show ?thesis using "2.IH"(1) [OF c] applyProjection_sound [OF ok] True by blast
  next
    case False
    then show ?thesis using "2.IH"(2) [OF c] u(2) ok by simp
  qed
qed simp

lemma keep_newer_sound:
  assumes "sound_db s"
  shows "sound_db (keep_newer c m k u s)"
proof -
  obtain market buyer outcomeId where k: "k = (market, buyer, outcomeId)" by (cases k) auto
  let ?m = "\<lambda>x. x\<lparr>mr_primaryPayment := max (mr_primaryPayment x) (mr_primaryPayment m),
      mr_updatedBlock := max (mr_updatedBlock x) (mr_updatedBlock m)\<rparr>"
  let ?p = "\<lambda>n x. x\<lparr>pr_updatedBlock := max (pr_updatedBlock x) n\<rparr>"
  have "map market_pk (update_where P ?m (pg_markets s)) = map market_pk (pg_markets s)" for P
    by (rule keys_update_where) (simp add: market_pk_def)
  moreover have "map position_pk (update_where P (?p n) (pg_positions s)) = map position_pk (pg_positions s)" for P n
    by (rule keys_update_where) (simp add: position_pk_def)
  moreover have "list_all reason_allowed (update_where P ?m (pg_markets s))" for P
    by (rule all_update_where) (use assms in \<open>auto simp: sound_db_def read_ok_def reason_allowed_def\<close>)
  moreover have "list_all (\<lambda>x. 0 \<le> pr_balance x) (update_where P (?p n) (pg_positions s))" for P n
    by (rule all_update_where) (use assms in \<open>auto simp: sound_db_def read_ok_def\<close>)
  ultimately have "read_ok (keep_newer c m k u s)"
    using assms unfolding k by (simp add: keep_newer_def sound_db_def read_ok_def split: option.splits)
  then show ?thesis
    using assms keep_newer_parts canon_ok_parts [of "keep_newer c m k u s" s] by (simp add: sound_db_def)
qed

lemma correct_ledger_sound: "correct_ledger n r g s = Inr t \<Longrightarrow> sound_db s \<Longrightarrow> sound_db t"
  using correct_ledger_parts [of n r g s t] sound_db_parts [of t s] by simp

lemma repairPurchaseLogs_sound:
  assumes "repairPurchaseLogs cf es b s = Inr t" "sound_db s"
  shows "sound_db t"
proof -
  obtain s1 current key updated inserted s2 s3 where
    s1: "ensureHistoricalAnchor ''purchase repair canonical history mismatch'' b s = Inr s1"
    and s2: "repair_purchase_events cf es 0 s1 = Inr (inserted, s2)"
    and s3: "projectFinancialTransactions cf [ev_transactionHash (hd es)]
        (keep_newer (cb_chainId b) current key updated s2) = Inr s3"
    and t: "(if 0 < inserted then correct_ledger (cb_blockNumber b) ''confirmed_purchase_receipt'' id s3 else Inr s3) = Inr t"
    using assms(1) by (auto simp: repairPurchaseLogs_def Let_def split: option.splits if_splits prod.splits)
  have "sound_db s2"
    by (rule repair_purchase_events_sound [OF s2]) (rule ensureHistoricalAnchor_sound [OF assms(2) s1])
  then have "sound_db s3" using projectFinancial_sound [OF s3] keep_newer_sound by blast
  then show ?thesis using t correct_ledger_sound by (auto split: if_splits)
qed

lemma repair_operation_events_sound:
  "repair_operation_events es n s = Inr (k, t) \<Longrightarrow> sound_db s \<Longrightarrow> sound_db t"
proof (induction es arbitrary: n s)
  case (Cons e es)
  then obtain i u where "insertRawEvent e s = Inr (i, u)" "repair_operation_events es (if i then n + 1 else n) u = Inr (k, t)"
    by (auto split: if_splits)
  then show ?case using Cons.IH insertRawEvent_sound [OF Cons.prems(2)] by blast
qed simp

lemma repairOperationLogs_sound:
  assumes "repairOperationLogs cf es b s = Inr (n, t)" "sound_db s"
  shows "sound_db t"
proof -
  obtain s1 s2 k where s1: "ensureHistoricalAnchor ''operation_repair_canonical_mismatch'' b s = Inr s1"
    and s2: "repair_operation_events es 0 s1 = Inr (k, s2)"
    and rest: "t = s2 \<or> (\<exists>s3 s4. rebuild cf (cb_chainId b) s2 = Inr s3 \<and>
        projectFinancialTransactions cf (map er_transactionHash (stored_events (cb_chainId b) s2)) s3 = Inr s4 \<and>
        correct_ledger (cb_blockNumber b) ''confirmed_operation_receipt'' id s4 = Inr t)"
    using assms(1) by (auto simp: repairOperationLogs_def split: if_splits)
  have "sound_db s2"
    by (rule repair_operation_events_sound [OF s2]) (rule ensureHistoricalAnchor_sound [OF assms(2) s1])
  then show ?thesis using rest rebuild_sound projectFinancial_sound correct_ledger_sound by blast
qed

lemma replayFinancial_sound:
  assumes "replayFinancial cf a b s = Inr t" "sound_db s"
  shows "sound_db t"
proof -
  obtain c u where u: "correct_ledger a ''projection_replay'' (\<lambda>r. r\<lparr>le_status := ShadowLedger\<rparr>) s = Inr u"
    "each_row (replay_range cf c) (replay_ranges a b) u = Inr t"
    using assms(1) by (auto simp: replayFinancial_def split: option.splits if_splits)
  show ?thesis
    by (rule each_row_keeps [OF u(2)])
      (use correct_ledger_sound [OF u(1) assms(2)] in \<open>auto simp: replay_range_def intro: projectFinancial_sound\<close>)
qed

section \<open>Reachable databases\<close>

text \<open>The application registers an account when it is bound (app-service/src/postgres-store.ts).\<close>

definition trackAccount :: "string \<Rightarrow> int \<Rightarrow> pg_db \<Rightarrow> pg_db" where
  "trackAccount a fromBlock s =
     s\<lparr>pg_tracked := insert_or_ignore tk_address
       \<lparr>tk_address = toLowerCase a, tk_fromBlock = fromBlock, tk_throughBlock = None, tk_throughHash = None\<rparr>
       (pg_tracked s)\<rparr>"

text \<open>One committed transaction of the store, its ledger or the account registration.\<close>

inductive pg_step :: "pg_config \<Rightarrow> pg_db \<Rightarrow> pg_db \<Rightarrow> bool" for cf where
  step_ready: "pc_environment cf = Some env \<Longrightarrow> fin_ready env s = Inr t \<Longrightarrow> pg_step cf s t"
| step_batch: "pg_applyBatch cf b s = Inr t \<Longrightarrow> pg_step cf s t"
| step_legacy: "pg_applyLegacy cf es bs k s = Inr t \<Longrightarrow> pg_step cf s t"
| step_rollback: "pg_rollbackAfter cf c limit s = Inr t \<Longrightarrow> pg_step cf s t"
| step_backfill: "applyFinancialBackfill cf es bs s = Inr t \<Longrightarrow> pg_step cf s t"
| step_creation: "repairMarketCreation cf m es b s = Inr t \<Longrightarrow> pg_step cf s t"
| step_purchase: "repairPurchaseLogs cf es b s = Inr t \<Longrightarrow> pg_step cf s t"
| step_operation: "repairOperationLogs cf es b s = Inr (n, t) \<Longrightarrow> pg_step cf s t"
| step_replay: "replayFinancial cf first last_block s = Inr t \<Longrightarrow> pg_step cf s t"
| step_scanned: "pg_step cf s (accountScanned accounts first last_block h s)"
| step_track: "pg_step cf s (trackAccount a first s)"

inductive pg_reachable :: "pg_config \<Rightarrow> pg_db \<Rightarrow> bool" for cf where
  reach_empty: "pg_reachable cf empty_db"
| reach_step: "pg_reachable cf s \<Longrightarrow> pg_step cf s t \<Longrightarrow> pg_reachable cf t"

inductive_cases pg_step_cases: "pg_step cf s t"

lemma sound_empty: "sound_db empty_db"
  by (simp add: sound_db_def canon_ok_def read_ok_def empty_db_def)

lemma ready_parts:
  "fin_ready env s = Inr t \<Longrightarrow> canonical_part t = canonical_part s \<and> read_part t = read_part s"
  by (auto simp: fin_ready_def Let_def part_defs split: if_splits)

lemma account_steps_parts:
  "canonical_part (accountScanned as a b h s) = canonical_part s \<and> read_part (accountScanned as a b h s) = read_part s"
  "canonical_part (trackAccount w n s) = canonical_part s \<and> read_part (trackAccount w n s) = read_part s"
  by (simp_all add: accountScanned_def trackAccount_def part_defs)

lemma step_sound: "pg_step cf s t \<Longrightarrow> sound_db s \<Longrightarrow> sound_db t"
proof (induction rule: pg_step.induct)
  case (step_ready env s t)
  then show ?case using ready_parts sound_db_parts [of t s] by blast
next
  case (step_batch b s t)
  then show ?case using applyBatch_sound by blast
next
  case (step_rollback c limit s t)
  then show ?case using rollback_sound by blast
next
  case (step_backfill es bs s t)
  then show ?case using verifiedBackfill_sound by (simp add: applyFinancialBackfill_def)
next
  case (step_scanned s accounts first last_block h)
  then show ?case using account_steps_parts(1) sound_db_parts by metis
next
  case (step_track s a first)
  then show ?case using account_steps_parts(2) sound_db_parts by metis
qed (auto intro: applyLegacy_sound repairMarketCreation_sound repairPurchaseLogs_sound repairOperationLogs_sound
    replayFinancial_sound)

lemma reachable_sound: "pg_reachable cf s \<Longrightarrow> sound_db s"
  by (induction rule: pg_reachable.induct) (auto intro: sound_empty step_sound)

end
