(* ===== verification/Pg_Samples.thy ===== *)
theory Pg_Samples
  imports Pg_Invariant
begin

text \<open>
  A concrete database for the witnesses about the PostgreSQL store: one market whose creator mints five
  shares and offers them in an ask of the order book.
\<close>

definition pg_hash :: "string \<Rightarrow> int \<Rightarrow> string" where
  "pg_hash d n = ''0x'' @ replicate (62 - length (dec n)) (CHR ''0'') @ d @ d @ dec n"

text \<open>Blocks, events and batches whose block \<open>n\<close> has the hash \<open>h n\<close>.\<close>

definition pg_block :: "(int \<Rightarrow> string) \<Rightarrow> int \<Rightarrow> canonical_block" where
  "pg_block h n = \<lparr>cb_chainId = 1, cb_blockNumber = n, cb_blockHash = h n, cb_parentHash = h (n - 1),
     cb_timestamp = n, cb_status = ConfirmedBlock\<rparr>"

definition pg_decode :: "string \<Rightarrow> string list \<Rightarrow> string \<Rightarrow> (string \<times> abi_args) outcome" where
  "pg_decode item topics data =
     (if data = ''created''
      then Inr (''MarketCreated'', [(''market'', AbiText ''0xv''), (''creator'', AbiText ''0xu''), (''deploymentMode'', AbiNum 0),
             (''creationFee'', AbiBig 2), (''creatorBond'', AbiBig 3)])
      else if data = ''ask''
      then Inr (''OrderCreated'', [(''orderId'', AbiBig 4), (''vault'', AbiText ''0xv''), (''owner'', AbiText ''0xu''),
             (''outcomeId'', AbiNum 1), (''side'', AbiNum 1), (''units'', AbiBig 5), (''unitPrice'', AbiBig 6),
             (''lockedPayment'', AbiBig 0)])
      else Inr (''TransferSingle'',
             [(''from'', AbiText (if data = ''mint'' then zeroAddress else ''0xu'')),
              (''to'', AbiText (if data = ''mint'' then ''0xu'' else ''0xm'')), (''id'', AbiBig 1), (''value'', AbiBig 5)]))"

definition pg_lib :: fin_lib where
  "pg_lib = \<lparr>ab_event = (\<lambda>p t. Some t), ab_decode = pg_decode, ab_address = Some, ab_bytes = (\<lambda>_. []),
     fl_isAddress = (\<lambda>_. True), fl_toHex32 = (\<lambda>n. Some (pg_hash ''e'' n)), fl_entryPoint = ''0xE''\<rparr>"

definition pg_env :: environment where
  "pg_env = \<lparr>en_id = ''test'', en_deploymentId = ''d'', en_manifestHash = pg_hash ''a'' 0,
     en_deployment = \<lparr>rn_paymentToken = ''0xp'', rn_marketplace = ''0xm'', rn_feeVault = ''0xf'',
       rn_bondEscrow = ''0xb'', dp_factory = ''0xc'', dp_protocol = None, dp_orderbook = True, dp_chainId = 1,
       dp_deploymentBlock = 1\<rparr>\<rparr>"

definition pg_sample :: pg_config where
  "pg_sample = \<lparr>pc_lib = pg_lib, pc_environment = Some pg_env, pc_collate = (\<lambda>a b. 0), pc_parse = (\<lambda>_. None),
     pc_orderbook = (\<lambda>ts d. if d = ''ask'' then (case pg_decode '''' ts d of Inl _ \<Rightarrow> None | Inr r \<Rightarrow> Some r) else None)\<rparr>"

definition pg_event :: "(int \<Rightarrow> string) \<Rightarrow> int \<Rightarrow> int \<Rightarrow> string \<Rightarrow> string \<Rightarrow> indexed_event" where
  "pg_event h n k a d = \<lparr>ev_chainId = 1, ev_blockNumber = n, ev_blockHash = h n,
     ev_transactionHash = pg_hash ''c'' n, ev_transactionIndex = 0, ev_logIndex = k, ev_address = a,
     ev_topics = [pg_hash ''0'' 7], ev_data = d, ev_status = ConfirmedBlock\<rparr>"

text \<open>The ten blocks from \<open>n\<close>, with the events in block \<open>n + 4\<close>.\<close>

definition pg_checkpoint :: "(int \<Rightarrow> string) \<Rightarrow> int \<Rightarrow> chain_checkpoint" where
  "pg_checkpoint h n = \<lparr>ck_chainId = 1, ck_blockNumber = n, ck_blockHash = h n\<rparr>"

definition pg_batch :: "(int \<Rightarrow> string) \<Rightarrow> int \<Rightarrow> chain_checkpoint option \<Rightarrow> (string \<times> string) list \<Rightarrow> canonical_batch" where
  "pg_batch h n pred events = \<lparr>bt_range = \<lparr>sr_chainId = 1, sr_fromBlock = n, sr_toBlock = n + 9, sr_predecessor = pred,
       sr_endBlockHash = h (n + 9), sr_status = ConfirmedBlock, sr_mode = Sparse\<rparr>,
     bt_anchors = [pg_block h (n + 4), pg_block h (n + 9)],
     bt_events = map (\<lambda>(k, a, d). pg_event h (n + 4) (int k) a d) (enumerate 0 events),
     bt_checkpoint = pg_checkpoint h (n + 9)\<rparr>"

text \<open>The batches of a fresh service.\<close>

definition pg_service :: "canonical_batch list \<Rightarrow> pg_db outcome" where
  "pg_service bs = outcome_bind (fin_ready pg_env empty_db) (each_row (pg_applyBatch pg_sample) bs)"

lemma pg_service_reachable: "pg_service bs = Inr s \<Longrightarrow> pg_reachable pg_sample s"
proof -
  assume "pg_service bs = Inr s"
  then obtain t where t: "fin_ready pg_env empty_db = Inr t" "each_row (pg_applyBatch pg_sample) bs t = Inr s"
    by (auto simp: pg_service_def)
  have "pg_reachable pg_sample t"
    by (rule reach_step [OF reach_empty step_ready [OF _ t(1)]]) (simp add: pg_sample_def)
  with t(2) show ?thesis by (rule each_row_keeps) (blast intro: reach_step step_batch)
qed

text \<open>The market's creation and the mint, in block 5.\<close>

definition pg_market_batch :: canonical_batch where
  "pg_market_batch = pg_batch (pg_hash ''a'') 1 None [(''0xc'', ''created''), (''0xv'', ''mint'')]"

lemma pg_market_run:
  "case pg_service [pg_market_batch] of Inl _ \<Rightarrow> False | Inr s \<Rightarrow>
     (case fin_snapshot pg_env s of Inl _ \<Rightarrow> False | Inr sn \<Rightarrow> sn_complete sn \<and> sn_blockNumber sn = 10) \<and>
     map (\<lambda>r. lf_kind (ft_fact r)) (pg_facts s) = [FK_market_created, FK_share_transfer] \<and>
     map (\<lambda>p. (pr_owner p, pr_balance p)) (pg_positions s) = [(''0xu'', 5)]"
  by code_simp

lemma pg_market_db:
  obtains s0 s sn where "fin_ready pg_env empty_db = Inr s0" "pg_applyBatch pg_sample pg_market_batch s0 = Inr s"
    "pg_service [pg_market_batch] = Inr s"
    "fin_snapshot pg_env s = Inr sn" "sn_complete sn" "sn_blockNumber sn = 10"
    "map (\<lambda>r. lf_kind (ft_fact r)) (pg_facts s) = [FK_market_created, FK_share_transfer]"
    "map (\<lambda>p. (pr_owner p, pr_balance p)) (pg_positions s) = [(''0xu'', 5)]"
  using pg_market_run by (auto simp: pg_service_def split: sum.splits)

text \<open>A service without a ledger, after two batches without events on a chain with short hashes.\<close>

definition pg_plain :: pg_config where "pg_plain = pg_sample\<lparr>pc_environment := None\<rparr>"

definition short_hash :: "int \<Rightarrow> string" where "short_hash n = ''0x'' @ dec n"

definition pg_quiet_batches :: "canonical_batch list" where
  "pg_quiet_batches = [pg_batch short_hash 1 None [], pg_batch short_hash 11 (Some (pg_checkpoint short_hash 10)) []]"

lemma pg_plain_reachable: "each_row (pg_applyBatch pg_plain) bs empty_db = Inr s \<Longrightarrow> pg_reachable pg_plain s"
  by (erule each_row_keeps) (blast intro: reach_empty reach_step step_batch)+

end
