(* ===== verification/Pg_Coverage.thy ===== *)
theory Pg_Coverage
  imports Pg_Samples
begin

text \<open>
  The coverage that the financial ledger claims (\<open>coverage_complete\<close> in offchain/indexer/src/financial-store.ts)
  is true: when it is set, every block from the deployment to the indexed block was scanned by a committed
  batch and not rolled back since.
\<close>

section \<open>What leaves the coverage alone\<close>

definition coverage_of :: "pg_db \<Rightarrow> (int \<times> int option \<times> bool) option" where
  "coverage_of s = map_option (\<lambda>r. (le_deploymentBlock r, le_indexedBlock r, le_coverageComplete r)) (pg_ledger s)"

lemma coverage_ledger: "ledger_part t = ledger_part s \<Longrightarrow> coverage_of t = coverage_of s"
  by (simp add: coverage_of_def ledger_part_def)

lemma revised_coverage [simp]: "coverage_of (revised s) = coverage_of s"
  by (simp add: coverage_of_def revised_def option.map_comp o_def)

lemma drop_facts_coverage [simp]: "coverage_of (drop_facts c hs s) = coverage_of s"
proof -
  have "coverage_of (s\<lparr>pg_facts := fs\<rparr>) = coverage_of s" for fs by (simp add: coverage_of_def)
  then show ?thesis by (simp add: drop_facts_def Let_def)
qed

lemma project_order_coverage: "project_order cf mk e s = Inr t \<Longrightarrow> coverage_of t = coverage_of s"
  by (auto simp: project_order_def coverage_of_def split: if_splits option.splits)

lemma insert_fact_coverage: "insert_fact c f s = Inr t \<Longrightarrow> coverage_of t = coverage_of s"
  by (auto simp: insert_fact_def coverage_of_def Let_def split: if_splits)

text \<open>The states of a projection: the order book's events, then the facts, then the marks.\<close>

lemma fin_project_steps:
  assumes "fin_project cf env es blocks k from_block s = Inr t"
  obtains s1 s2 facts where "stored_facts cf env es blocks s s1 = Inr facts"
    "(if dp_orderbook (en_deployment env) then projectOrderbook cf es (rn_marketplace (en_deployment env)) s else Inr s) = Inr s1"
    "each_row (insert_fact (dp_chainId (en_deployment env))) facts s1 = Inr s2"
    "t = mark_projected facts blocks k from_block s2" "coverage_of s2 = coverage_of s"
proof -
  let ?d = "en_deployment env"
  obtain s1 facts s2 where s1: "(if dp_orderbook ?d then projectOrderbook cf es (rn_marketplace ?d) s else Inr s) = Inr s1"
    and f: "stored_facts cf env es blocks s s1 = Inr facts"
    and s2: "each_row (insert_fact (dp_chainId ?d)) facts s1 = Inr s2"
    and t: "t = mark_projected facts blocks k from_block s2"
    using assms unfolding fin_project_def Let_def outcome_bind_Inr outcome_map_Inr by blast
  have "coverage_of s1 = coverage_of s"
    using s1 each_row_const [OF _ project_order_coverage] by (auto simp: projectOrderbook_def split: if_splits)
  moreover have "coverage_of s2 = coverage_of s1" by (rule each_row_const [OF s2 insert_fact_coverage])
  ultimately show ?thesis using that f s1 s2 t by simp
qed

lemma fin_project_coverage: "fin_project cf env es blocks None n s = Inr t \<Longrightarrow> coverage_of t = coverage_of s"
  by (elim fin_project_steps) (simp add: mark_projected_def Let_def)

lemma fin_project_ledger:
  assumes "fin_project cf env es blocks (Some k) (Some n) s = Inr t"
  shows "coverage_of t = map_option (\<lambda>(d, i, c). (d, Some (ck_blockNumber k),
    if i = Some (ck_blockNumber k) then c else case i of None \<Rightarrow> n = d | Some j \<Rightarrow> c \<and> j + 1 = n)) (coverage_of s)"
  using assms
proof (cases rule: fin_project_steps)
  case (1 s1 s2 facts)
  let ?u = "if facts \<noteq> [] then revised s2 else s2"
  have "coverage_of t = map_option (\<lambda>(d, i, c). (d, Some (ck_blockNumber k),
      if i = Some (ck_blockNumber k) then c else case i of None \<Rightarrow> n = d | Some j \<Rightarrow> c \<and> j + 1 = n)) (coverage_of ?u)"
    unfolding 1(4) mark_projected_def Let_def
    by (cases "pg_ledger ?u") (auto simp: coverage_of_def extend_coverage_def split: option.splits)
  then show ?thesis using 1(5) by simp
qed

lemma projectFinancial_coverage: "projectFinancialTransactions cf hs s = Inr t \<Longrightarrow> coverage_of t = coverage_of s"
  by (auto simp: projectFinancialTransactions_def Let_def dest!: fin_project_coverage split: option.splits if_splits)

lemma correct_ledger_coverage:
  assumes "correct_ledger n reason g s = Inr t"
    and "\<And>r. le_deploymentBlock (g r) = le_deploymentBlock r \<and> le_indexedBlock (g r) = le_indexedBlock r \<and>
      le_coverageComplete (g r) = le_coverageComplete r"
  shows "coverage_of t = coverage_of s"
  using assms by (auto simp: correct_ledger_def coverage_of_def split: option.splits)

lemma keep_newer_coverage: "coverage_of (keep_newer c m k u s) = coverage_of s"
  using keep_newer_parts coverage_ledger by metis

section \<open>Blocks stay below the checkpoint\<close>

text \<open>The canonical rows of a chain are at or below its checkpoint, and the ledger is indexed to it.\<close>

definition below_checkpoint :: "int \<Rightarrow> pg_db \<Rightarrow> bool" where
  "below_checkpoint c s =
     (\<forall>b \<in> set (pg_blocks s). cb_chainId b = c \<longrightarrow> (\<exists>k. checkpoint_row c s = Some k \<and> cb_blockNumber b \<le> ck_blockNumber k))"

definition follows :: "int \<Rightarrow> int option \<Rightarrow> int set \<Rightarrow> (int \<times> int option \<times> bool) option \<Rightarrow> bool" where
  "follows d0 checkpoint scanned x = (case x of None \<Rightarrow> True
   | Some (d, i, whole) \<Rightarrow> d = d0 \<and> (case i of None \<Rightarrow> \<not> whole
      | Some n \<Rightarrow> checkpoint = Some n \<and> (whole \<longrightarrow> {d..n} \<subseteq> scanned)))"

abbreviation checkpoint_number :: "int \<Rightarrow> pg_db \<Rightarrow> int option" where
  "checkpoint_number c s \<equiv> map_option ck_blockNumber (checkpoint_row c s)"

definition ledger_follows :: "environment \<Rightarrow> int set \<Rightarrow> pg_db \<Rightarrow> bool" where
  "ledger_follows env scanned s =
     follows (dp_deploymentBlock (en_deployment env)) (checkpoint_number (dp_chainId (en_deployment env)) s) scanned (coverage_of s)"

lemma follows_more: "follows d k S x \<Longrightarrow> S \<subseteq> S' \<Longrightarrow> follows d k S' x"
  by (auto simp: follows_def split: option.splits)

definition keeps_rest :: "pg_db \<Rightarrow> pg_db \<Rightarrow> bool" where
  "keeps_rest s t =
     (coverage_of t = coverage_of s \<and> pg_checkpoints t = pg_checkpoints s \<and>
      (\<forall>b \<in> set (pg_blocks t). b \<in> set (pg_blocks s) \<or>
         (\<exists>k. checkpoint_row (cb_chainId b) s = Some k \<and> cb_blockNumber b \<le> ck_blockNumber k)))"

lemma keeps_rest_trans: "keeps_rest s t \<Longrightarrow> keeps_rest t u \<Longrightarrow> keeps_rest s u"
  unfolding keeps_rest_def checkpoint_row_def by auto

lemma keeps_rest_refl: "keeps_rest s s"
  by (simp add: keeps_rest_def)

lemma keeps_rest_parts: "canonical_part t = canonical_part s \<Longrightarrow> coverage_of t = coverage_of s \<Longrightarrow> keeps_rest s t"
  by (simp add: keeps_rest_def canonical_part_def)

lemma keeps_rest_invariant:
  assumes "keeps_rest s t" "below_checkpoint c s" "ledger_follows env scanned s"
    and "c = dp_chainId (en_deployment env)"
  shows "below_checkpoint c t \<and> ledger_follows env scanned t"
proof -
  have "checkpoint_row c t = checkpoint_row c s" using assms(1) by (simp add: keeps_rest_def checkpoint_row_def)
  moreover have "coverage_of t = coverage_of s" using assms(1) by (simp add: keeps_rest_def)
  moreover have "below_checkpoint c t"
    using assms(1,2) calculation(1) unfolding keeps_rest_def below_checkpoint_def by metis
  ultimately show ?thesis using assms(3,4) by (simp add: ledger_follows_def)
qed

lemma each_row_rest:
  assumes "each_row g xs s = Inr t" "\<And>x s t. g x s = Inr t \<Longrightarrow> keeps_rest s t"
  shows "keeps_rest s t"
  by (rule each_row_keeps [OF assms(1) keeps_rest_refl]) (use assms(2) keeps_rest_trans in blast)

lemma ingest_rest: "ingest cf e s = Inr t \<Longrightarrow> keeps_rest s t"
  using ingest_canonical [of cf e s t] coverage_ledger [OF ingest_ledger] by (simp add: keeps_rest_def)

lemma anchor_rest: "ensureHistoricalAnchor m b s = Inr t \<Longrightarrow> keeps_rest s t"
  by (auto simp: ensureHistoricalAnchor_def insertCanonicalBlock_def covered_def keeps_rest_def coverage_of_def Let_def
      insert_or_ignore_def split: option.splits if_splits)

lemma projectFinancial_rest: "projectFinancialTransactions cf hs s = Inr t \<Longrightarrow> keeps_rest s t"
  using projectFinancial_parts projectFinancial_coverage keeps_rest_parts by metis

lemma verifiedBackfill_rest:
  assumes "applyVerifiedBackfill cf es bs guard s = Inr t"
  shows "keeps_rest s t"
proof -
  obtain s1 s2 where s1: "each_row (ensureHistoricalAnchor ''backfill canonical block mismatch'') bs s = Inr s1"
    and s2: "each_row (backfill_event cf bs) es s1 = Inr s2"
    and t: "projectFinancialTransactions cf (map ev_transactionHash es) s2 = Inr t"
    using assms by (auto simp: applyVerifiedBackfill_def split: if_splits)
  have "keeps_rest s s1" by (rule each_row_rest [OF s1 anchor_rest])
  moreover have "keeps_rest s1 s2"
    by (rule each_row_rest [OF s2]) (auto simp: backfill_event_def intro: ingest_rest split: if_splits)
  ultimately show ?thesis using projectFinancial_rest [OF t] keeps_rest_trans by blast
qed

lemma insertRawEvent_rest: "insertRawEvent e s = Inr (i, t) \<Longrightarrow> keeps_rest s t"
  by (auto simp: insertRawEvent_def keeps_rest_def coverage_of_def split: if_splits)

lemma applyProjection_rest:
  assumes "applyProjection cf e s = Inr t"
  shows "keeps_rest s t"
  using applyProjection_parts [OF assms] keeps_rest_parts coverage_ledger by blast

lemma repair_purchase_events_rest: "repair_purchase_events cf es n s = Inr (k, t) \<Longrightarrow> keeps_rest s t"
proof (induction es arbitrary: n s)
  case (Cons e es)
  then obtain i u where u: "insertRawEvent e s = Inr (i, u)"
    "(if i then outcome_bind (applyProjection cf e u) (repair_purchase_events cf es (n + 1))
      else repair_purchase_events cf es n u) = Inr (k, t)"
    by (auto split: if_splits)
  have "keeps_rest u t"
  proof (cases i)
    case True
    then obtain v where "applyProjection cf e u = Inr v" "repair_purchase_events cf es (n + 1) v = Inr (k, t)"
      using u(2) by auto
    then show ?thesis using Cons.IH applyProjection_rest keeps_rest_trans by blast
  next
    case False
    then show ?thesis using Cons.IH u(2) by simp
  qed
  then show ?case using insertRawEvent_rest [OF u(1)] keeps_rest_trans by blast
qed (simp add: keeps_rest_refl)

lemma correct_ledger_rest:
  assumes "correct_ledger n reason g s = Inr t"
    and "\<And>r. le_deploymentBlock (g r) = le_deploymentBlock r \<and> le_indexedBlock (g r) = le_indexedBlock r \<and>
      le_coverageComplete (g r) = le_coverageComplete r"
  shows "keeps_rest s t"
  using correct_ledger_parts [OF assms(1)] correct_ledger_coverage [OF assms] keeps_rest_parts by blast

lemma keep_newer_rest: "keeps_rest s (keep_newer c' m k u s)"
  using keep_newer_parts keep_newer_coverage keeps_rest_parts by blast

lemma repairPurchaseLogs_rest:
  assumes "repairPurchaseLogs cf es b s = Inr t"
  shows "keeps_rest s t"
proof -
  obtain s1 current key updated inserted s2 s3 where
    s1: "ensureHistoricalAnchor ''purchase repair canonical history mismatch'' b s = Inr s1"
    and s2: "repair_purchase_events cf es 0 s1 = Inr (inserted, s2)"
    and s3: "projectFinancialTransactions cf [ev_transactionHash (hd es)]
        (keep_newer (cb_chainId b) current key updated s2) = Inr s3"
    and t: "(if 0 < inserted then correct_ledger (cb_blockNumber b) ''confirmed_purchase_receipt'' id s3 else Inr s3) = Inr t"
    using assms by (auto simp: repairPurchaseLogs_def Let_def split: option.splits if_splits prod.splits)
  have "keeps_rest s3 t" using t correct_ledger_rest [of _ _ id s3 t] keeps_rest_refl by (auto split: if_splits)
  then have "keeps_rest s2 t"
    using keeps_rest_trans [OF keep_newer_rest keeps_rest_trans [OF projectFinancial_rest [OF s3]]] by blast
  then show ?thesis
    using keeps_rest_trans [OF keeps_rest_trans [OF anchor_rest [OF s1] repair_purchase_events_rest [OF s2]]] by blast
qed

lemma repair_operation_events_rest: "repair_operation_events es n s = Inr (k, t) \<Longrightarrow> keeps_rest s t"
proof (induction es arbitrary: n s)
  case (Cons e es)
  then obtain i u where "insertRawEvent e s = Inr (i, u)" "repair_operation_events es (if i then n + 1 else n) u = Inr (k, t)"
    by (auto split: if_splits)
  then show ?case using Cons.IH insertRawEvent_rest keeps_rest_trans by blast
qed (simp add: keeps_rest_refl)

lemma rebuild_rest: "rebuild cf c s = Inr t \<Longrightarrow> keeps_rest s t"
  using rebuild_parts keeps_rest_parts coverage_ledger by metis

lemma repairOperationLogs_rest:
  assumes "repairOperationLogs cf es b s = Inr (n, t)"
  shows "keeps_rest s t"
proof -
  obtain s1 s2 k where s1: "ensureHistoricalAnchor ''operation_repair_canonical_mismatch'' b s = Inr s1"
    and s2: "repair_operation_events es 0 s1 = Inr (k, s2)"
    and rest: "t = s2 \<or> (\<exists>s3 s4. rebuild cf (cb_chainId b) s2 = Inr s3 \<and>
        projectFinancialTransactions cf (map er_transactionHash (stored_events (cb_chainId b) s2)) s3 = Inr s4 \<and>
        correct_ledger (cb_blockNumber b) ''confirmed_operation_receipt'' id s4 = Inr t)"
    using assms by (auto simp: repairOperationLogs_def split: if_splits)
  have "keeps_rest s2 t"
    using rest
  proof
    assume "\<exists>s3 s4. rebuild cf (cb_chainId b) s2 = Inr s3 \<and>
        projectFinancialTransactions cf (map er_transactionHash (stored_events (cb_chainId b) s2)) s3 = Inr s4 \<and>
        correct_ledger (cb_blockNumber b) ''confirmed_operation_receipt'' id s4 = Inr t"
    then obtain s3 s4 where "rebuild cf (cb_chainId b) s2 = Inr s3"
      "projectFinancialTransactions cf (map er_transactionHash (stored_events (cb_chainId b) s2)) s3 = Inr s4"
      "correct_ledger (cb_blockNumber b) ''confirmed_operation_receipt'' id s4 = Inr t"
      by blast
    then show ?thesis
      using keeps_rest_trans [OF keeps_rest_trans [OF rebuild_rest projectFinancial_rest] correct_ledger_rest] by simp
  qed (simp add: keeps_rest_refl)
  then show ?thesis
    using keeps_rest_trans [OF keeps_rest_trans [OF anchor_rest [OF s1] repair_operation_events_rest [OF s2]]] by blast
qed

lemma replayFinancial_rest:
  assumes "replayFinancial cf a b s = Inr t"
  shows "keeps_rest s t"
proof -
  obtain c u where u: "correct_ledger a ''projection_replay'' (\<lambda>r. r\<lparr>le_status := ShadowLedger\<rparr>) s = Inr u"
    "each_row (replay_range cf c) (replay_ranges a b) u = Inr t"
    using assms by (auto simp: replayFinancial_def split: option.splits if_splits)
  have "keeps_rest u t" by (rule each_row_rest [OF u(2)]) (simp add: replay_range_def projectFinancial_rest)
  then show ?thesis using keeps_rest_trans [OF correct_ledger_rest [OF u(1)]] by simp
qed

section \<open>Histories of the service\<close>

text \<open>
  The transactions of a service of one chain with the blocks that are scanned: a new batch adds its range, a
  rollback removes what is above it. The deprecated overload of \<open>applyBatch\<close> is not among them.
\<close>

inductive pg_history :: "pg_config \<Rightarrow> environment \<Rightarrow> int set \<Rightarrow> pg_db \<Rightarrow> bool" for cf env where
  history_empty: "pg_history cf env {} empty_db"
| history_ready: "\<lbrakk>pg_history cf env S s; fin_ready env s = Inr t\<rbrakk> \<Longrightarrow> pg_history cf env S t"
| history_batch: "\<lbrakk>pg_history cf env S s; pg_applyBatch cf b s = Inr t; sr_chainId (bt_range b) = dp_chainId (en_deployment env)\<rbrakk> \<Longrightarrow>
    pg_history cf env (S \<union> (if pg_already_applied b s then {} else {sr_fromBlock (bt_range b)..sr_toBlock (bt_range b)})) t"
| history_rollback: "\<lbrakk>pg_history cf env S s; pg_rollbackAfter cf (dp_chainId (en_deployment env)) limit s = Inr t\<rbrakk> \<Longrightarrow>
    pg_history cf env (case limit of None \<Rightarrow> {} | Some n \<Rightarrow> S \<inter> {..n}) t"
| history_backfill: "\<lbrakk>pg_history cf env S s; applyFinancialBackfill cf es bs s = Inr t\<rbrakk> \<Longrightarrow> pg_history cf env S t"
| history_creation: "\<lbrakk>pg_history cf env S s; repairMarketCreation cf m es b s = Inr t\<rbrakk> \<Longrightarrow> pg_history cf env S t"
| history_purchase: "\<lbrakk>pg_history cf env S s; repairPurchaseLogs cf es b s = Inr t\<rbrakk> \<Longrightarrow> pg_history cf env S t"
| history_operation: "\<lbrakk>pg_history cf env S s; repairOperationLogs cf es b s = Inr (n, t)\<rbrakk> \<Longrightarrow> pg_history cf env S t"
| history_replay: "\<lbrakk>pg_history cf env S s; replayFinancial cf first last_block s = Inr t\<rbrakk> \<Longrightarrow> pg_history cf env S t"
| history_scanned: "pg_history cf env S s \<Longrightarrow> pg_history cf env S (accountScanned accounts first last_block h s)"
| history_track: "pg_history cf env S s \<Longrightarrow> pg_history cf env S (trackAccount a first s)"

lemma ready_coverage:
  assumes "fin_ready env s = Inr t"
  shows "coverage_of t = coverage_of s \<or> coverage_of t = Some (dp_deploymentBlock (en_deployment env), None, False)"
  using assms by (auto simp: fin_ready_def Let_def coverage_of_def split: if_splits option.splits)

definition history_ok :: "environment \<Rightarrow> int set \<Rightarrow> pg_db \<Rightarrow> bool" where
  "history_ok env S s =
     (sound_db s \<and> below_checkpoint (dp_chainId (en_deployment env)) s \<and> ledger_follows env S s)"

lemma rest_history: "keeps_rest s t \<Longrightarrow> sound_db t \<Longrightarrow> history_ok env S s \<Longrightarrow> history_ok env S t"
  unfolding history_ok_def using keeps_rest_invariant by blast

lemma history_ready_ok:
  assumes "fin_ready env s = Inr t" "history_ok env S s"
  shows "history_ok env S t"
proof -
  have parts: "canonical_part t = canonical_part s" "read_part t = read_part s" using ready_parts [OF assms(1)] by auto
  then have "sound_db t" using sound_db_parts [OF parts] assms(2) by (simp add: history_ok_def)
  moreover have "checkpoint_row c t = checkpoint_row c s" "pg_blocks t = pg_blocks s" for c
    using parts(1) by (simp_all add: checkpoint_row_def canonical_part_def)
  moreover have "follows (dp_deploymentBlock (en_deployment env)) k S (coverage_of t)"
    if "follows (dp_deploymentBlock (en_deployment env)) k S (coverage_of s)" for k
    using ready_coverage [OF assms(1)] that by (auto simp: follows_def)
  ultimately show ?thesis
    using assms(2) by (simp add: history_ok_def below_checkpoint_def ledger_follows_def)
qed

lemma insertCanonicalBlock_rows: "insertCanonicalBlock b s = Inr t \<Longrightarrow> set (pg_blocks t) \<subseteq> insert b (set (pg_blocks s))"
  by (auto simp: insertCanonicalBlock_def Let_def insert_or_ignore_def split: if_splits)

lemma anchors_rows: "each_row insertCanonicalBlock bs s = Inr t \<Longrightarrow> set (pg_blocks t) \<subseteq> set (pg_blocks s) \<union> set bs"
  by (erule each_row_keeps) (use insertCanonicalBlock_rows in fastforce)+

definition coverage_after :: "scan_range \<Rightarrow> int \<times> int option \<times> bool \<Rightarrow> int \<times> int option \<times> bool" where
  "coverage_after r x =
     (case x of (d, i, whole) \<Rightarrow>
       (d, Some (sr_toBlock r),
        if i = Some (sr_toBlock r) then whole
        else case i of None \<Rightarrow> sr_fromBlock r = d | Some j \<Rightarrow> whole \<and> j + 1 = sr_fromBlock r))"

lemma coverage_after_fun:
  "coverage_after r = (\<lambda>(d, i, whole). (d, Some (sr_toBlock r),
     if i = Some (sr_toBlock r) then whole
     else case i of None \<Rightarrow> sr_fromBlock r = d | Some j \<Rightarrow> whole \<and> j + 1 = sr_fromBlock r))"
  by (rule ext) (simp add: coverage_after_def split: prod.split)

lemma finish_batch_coverage: "finish_batch b s = Inr t \<Longrightarrow> coverage_of t = coverage_of s \<and> pg_blocks t = pg_blocks s"
  by (auto simp: finish_batch_def Let_def insertCanonicalScanRange_def put_checkpoint_def coverage_of_def split: if_splits)

text \<open>What a new batch does to the coverage and to the blocks.\<close>

lemma batch_effect:
  assumes "pg_applyBatch cf b s = Inr t" "\<not> pg_already_applied b s" "pc_environment cf = Some env" "sound_db s"
  shows "coverage_of t = map_option (coverage_after (bt_range b)) (coverage_of s) \<and>
      set (pg_blocks t) \<subseteq> set (pg_blocks s) \<union> set (bt_anchors b) \<and>
      continues (checkpoint_row (sr_chainId (bt_range b)) s) (bt_range b) = Inr () \<and> validateCanonicalBatch b = Inr ()"
  using assms(1)
proof (cases rule: applyBatch_steps)
  case (fresh s1 s2 s3)
  have k: "ck_blockNumber (bt_checkpoint b) = sr_toBlock (bt_range b)"
    using validated_parts(2) [OF fresh(1)] by simp
  have s1: "sound_db s1 \<and> ledger_part s1 = ledger_part s" using anchors_sound [OF fresh(5) assms(4)] by auto
  have s2: "sound_db s2 \<and> ledger_part s2 = ledger_part s1 \<and> pg_blocks s2 = pg_blocks s1"
    using events_sound [OF fresh(6)] s1 by auto
  obtain u where u: "projectFinancialTransactions cf (map ev_transactionHash (bt_events b)) s2 = Inr u"
    "fin_project cf env [] (bt_anchors b) (Some (bt_checkpoint b)) (Some (sr_fromBlock (bt_range b))) u = Inr s3"
    using fresh(7) assms(3) by (auto simp: project_batch_def)
  have "coverage_of u = coverage_of s"
    using projectFinancial_coverage [OF u(1)] s1 s2 coverage_ledger by metis
  then have "coverage_of s3 = map_option (coverage_after (bt_range b)) (coverage_of s)"
    using fin_project_ledger [OF u(2)] k by (simp add: coverage_after_fun)
  moreover have "pg_blocks s3 = pg_blocks s2" using project_batch_parts [OF fresh(7)] by (simp add: canonical_part_def)
  ultimately show ?thesis
    using finish_batch_coverage [OF fresh(8)] anchors_rows [OF fresh(5)] s2 fresh(1,3) by simp
qed (use assms(2) in simp)

lemma batch_below:
  assumes "below_checkpoint c s" "set (pg_blocks t) \<subseteq> set (pg_blocks s) \<union> set (bt_anchors b)"
    and "continues (checkpoint_row c s) (bt_range b) = Inr ()" "validateCanonicalBatch b = Inr ()"
    and "checkpoint_row c t = Some (bt_checkpoint b)"
  shows "below_checkpoint c t"
proof -
  have k: "ck_blockNumber (bt_checkpoint b) = sr_toBlock (bt_range b)" "sr_fromBlock (bt_range b) \<le> sr_toBlock (bt_range b)"
    using validated_parts(1,2) [OF assms(4)] by simp_all
  have new: "cb_blockNumber x \<le> sr_toBlock (bt_range b)" if "x \<in> set (bt_anchors b)" for x
    using validated_parts(4) [OF assms(4)] that by (auto simp: list_all_iff anchor_fits_def)
  have old: "cb_blockNumber x \<le> sr_toBlock (bt_range b)" if x: "x \<in> set (pg_blocks s)" "cb_chainId x = c" for x
  proof -
    obtain j where "checkpoint_row c s = Some j" "cb_blockNumber x \<le> ck_blockNumber j"
      using assms(1) x by (auto simp: below_checkpoint_def)
    then show ?thesis using assms(3) k(2) by (auto simp: continues_def)
  qed
  show ?thesis using assms(2,5) k(1) new old by (fastforce simp: below_checkpoint_def)
qed

lemma batch_follows:
  assumes "ledger_follows env S s" "c = dp_chainId (en_deployment env)" "coverage_of t = map_option (coverage_after r) (coverage_of s)"
    and "continues (checkpoint_row c s) r = Inr ()" "sr_fromBlock r \<le> sr_toBlock r"
    and "checkpoint_row c t = Some k" "ck_blockNumber k = sr_toBlock r"
  shows "ledger_follows env (S \<union> {sr_fromBlock r..sr_toBlock r}) t"
proof (cases "coverage_of s")
  case None
  then show ?thesis using assms(3) by (simp add: ledger_follows_def follows_def)
next
  case (Some old)
  obtain d i whole where old: "old = (d, i, whole)" by (cases old)
  let ?d = "dp_deploymentBlock (en_deployment env)"
  have follows: "follows ?d (checkpoint_number c s) S (Some (d, i, whole))"
    using assms(1,2) Some old by (simp add: ledger_follows_def)
  have next_from: "sr_fromBlock r = j + 1" if "i = Some j" for j
    using follows assms(4) that by (auto simp: follows_def continues_def split: if_splits)
  have "{d..sr_toBlock r} \<subseteq> S \<union> {sr_fromBlock r..sr_toBlock r}"
    if "case i of None \<Rightarrow> sr_fromBlock r = d | Some j \<Rightarrow> whole \<and> j + 1 = sr_fromBlock r"
    using that follows next_from by (cases i) (auto simp: follows_def)
  then have "follows ?d (Some (sr_toBlock r)) (S \<union> {sr_fromBlock r..sr_toBlock r}) (Some (coverage_after r (d, i, whole)))"
    using next_from follows assms(5) by (auto simp: follows_def coverage_after_def)
  then show ?thesis using assms(2,3,6,7) Some old by (simp add: ledger_follows_def)
qed

lemma history_batch_ok:
  assumes app: "pg_applyBatch cf b s = Inr t" and c: "sr_chainId (bt_range b) = dp_chainId (en_deployment env)"
    and env: "pc_environment cf = Some env" and ok: "history_ok env S s"
  shows "history_ok env (S \<union> (if pg_already_applied b s then {} else {sr_fromBlock (bt_range b)..sr_toBlock (bt_range b)})) t"
proof (cases "pg_already_applied b s")
  case True
  then have "t = s" using app by (auto simp: pg_applyBatch_def)
  then show ?thesis using ok True by simp
next
  case False
  have s: "sound_db s" using ok by (simp add: history_ok_def)
  have e: "coverage_of t = map_option (coverage_after (bt_range b)) (coverage_of s)"
    "set (pg_blocks t) \<subseteq> set (pg_blocks s) \<union> set (bt_anchors b)"
    "continues (checkpoint_row (sr_chainId (bt_range b)) s) (bt_range b) = Inr ()" "validateCanonicalBatch b = Inr ()"
    using batch_effect [OF app False env s] by simp_all
  have v: "sr_fromBlock (bt_range b) \<le> sr_toBlock (bt_range b)" "ck_chainId (bt_checkpoint b) = dp_chainId (en_deployment env)"
    "ck_blockNumber (bt_checkpoint b) = sr_toBlock (bt_range b)"
    using validated_parts(1,2) [OF e(4)] c by simp_all
  have t: "sound_db t" "checkpoint_row (dp_chainId (en_deployment env)) t = Some (bt_checkpoint b)"
    using applyBatch_sound [OF app s] v(2) by auto
  show ?thesis
    using batch_below [OF _ e(2) _ e(4) t(2)] batch_follows [OF _ refl e(1) _ v(1) t(2) v(3)] e(3) c t(1) ok False
    by (simp add: history_ok_def)
qed

lemma rollback_coverage:
  assumes "fin_rollback env limit s = Inr t"
  shows "coverage_of t = map_option (\<lambda>(d, i, x). (d, limit, limit \<noteq> None \<and> x)) (coverage_of s)"
  using assms by (auto simp: fin_rollback_def coverage_of_def Let_def split: option.splits)

lemma history_rollback_ok:
  assumes roll: "pg_rollbackAfter cf (dp_chainId (en_deployment env)) limit s = Inr t"
    and env: "pc_environment cf = Some env" and ok: "history_ok env S s"
  shows "history_ok env (case limit of None \<Rightarrow> {} | Some n \<Rightarrow> S \<inter> {..n}) t"
  using roll
proof (cases rule: rollback_steps)
  case (1 s1 s2)
  let ?c = "dp_chainId (en_deployment env)"
  have t: "sound_db t" "case limit of None \<Rightarrow> checkpoint_row ?c t = None
    | Some n \<Rightarrow> \<exists>b. block_at ?c n s = Some b \<and>
        checkpoint_row ?c t = Some \<lparr>ck_chainId = ?c, ck_blockNumber = n, ck_blockHash = cb_blockHash b\<rparr>"
    using rollback_sound [OF roll] ok by (auto simp: history_ok_def)
  have "coverage_of s1 = coverage_of s"
    using rebuild_parts [OF 1(1)] by (simp add: coverage_of_def ledger_part_def forget_after_rows)
  then have cov: "coverage_of t = map_option (\<lambda>(d, i, x). (d, limit, limit \<noteq> None \<and> x)) (coverage_of s)"
    using 1(2,5) env rollback_coverage by (fastforce simp: coverage_of_def split: option.splits)
  have "pg_blocks t = pg_blocks s2" using 1(5) by (auto split: option.splits)
  then have blocks: "pg_blocks t = filter (\<lambda>b. survives ?c limit (cb_chainId b) (cb_blockNumber b)) (pg_blocks s)"
    using 1(3) by (simp add: canonical_part_def forget_after_rows)
  have "below_checkpoint ?c t"
    using t(2) blocks by (auto simp: below_checkpoint_def survives_def split: option.splits)
  moreover have "ledger_follows env (case limit of None \<Rightarrow> {} | Some n \<Rightarrow> S \<inter> {..n}) t"
  proof (cases limit)
    case None
    then show ?thesis using cov ok by (cases "coverage_of s") (auto simp: history_ok_def ledger_follows_def follows_def)
  next
    case (Some n)
    obtain b where b: "block_at ?c n s = Some b" using t(2) Some by auto
    then obtain q where q: "checkpoint_row ?c s = Some q" "n \<le> ck_blockNumber q"
      using block_at_Some [OF b] ok by (auto simp: history_ok_def below_checkpoint_def)
    have "checkpoint_number ?c t = Some n" using t(2) Some by auto
    moreover have "follows (dp_deploymentBlock (en_deployment env)) (Some n) (S \<inter> {..n}) (map_option (\<lambda>(d, i, x). (d, Some n, x)) (coverage_of s))"
      using ok q by (fastforce simp: history_ok_def ledger_follows_def follows_def split: option.splits)
    ultimately show ?thesis using cov Some by (auto simp: ledger_follows_def)
  qed
  ultimately show ?thesis using t(1) by (simp add: history_ok_def)
qed


lemma track_coverage: "coverage_of (trackAccount a n s) = coverage_of s"
  by (simp add: trackAccount_def coverage_of_def)

lemma scanned_coverage: "coverage_of (accountScanned as a b h s) = coverage_of s"
  by (simp add: accountScanned_def coverage_of_def)

lemma repairMarketCreation_rest: "repairMarketCreation cf m es b s = Inr t \<Longrightarrow> keeps_rest s t"
  by (auto simp: repairMarketCreation_def dest: verifiedBackfill_rest split: if_splits)

lemma history_sound:
  assumes env: "pc_environment cf = Some env"
  shows "pg_history cf env S s \<Longrightarrow> history_ok env S s"
proof (induction rule: pg_history.induct)
  case history_empty
  show ?case
    using sound_empty by (simp add: history_ok_def below_checkpoint_def ledger_follows_def follows_def coverage_of_def
        empty_db_def)
next
  case (history_backfill S s es bs t)
  then show ?case
    using rest_history verifiedBackfill_rest verifiedBackfill_sound by (metis applyFinancialBackfill_def history_ok_def)
next
  case (history_batch S s b t)
  then show ?case using history_batch_ok env by blast
next
  case (history_scanned S s accounts first last_block h)
  then show ?case
    using rest_history keeps_rest_parts account_steps_parts(1) scanned_coverage sound_db_parts
    by (metis history_ok_def)
next
  case (history_track S s a first)
  then show ?case
    using rest_history keeps_rest_parts account_steps_parts(2) track_coverage sound_db_parts
    by (metis history_ok_def)
qed (use env in \<open>auto intro: history_ready_ok history_batch_ok history_rollback_ok
    rest_history [OF repairMarketCreation_rest repairMarketCreation_sound]
    rest_history [OF repairPurchaseLogs_rest repairPurchaseLogs_sound]
    rest_history [OF repairOperationLogs_rest repairOperationLogs_sound]
    rest_history [OF replayFinancial_rest replayFinancial_sound] simp: history_ok_def [THEN iffD1]\<close>)


section \<open>The promise of a snapshot\<close>

text \<open>
  C2. A snapshot that says its coverage is complete speaks the truth: committed batches that were not
  rolled back have scanned every block from the deployment to the snapshot's block, and the indexer's
  checkpoint is at that block.
\<close>

theorem coverage_truthful:
  assumes "pc_environment cf = Some env" "pg_history cf env S s"
    and "fin_snapshot env s = Inr sn" "sn_complete sn"
  shows "{dp_deploymentBlock (en_deployment env)..sn_blockNumber sn} \<subseteq> S \<and>
    map_option ck_blockNumber (checkpoint_row (dp_chainId (en_deployment env)) s) = Some (sn_blockNumber sn)"
proof -
  obtain r n where r: "pg_ledger s = Some r" "le_indexedBlock r = Some n" "sn_blockNumber sn = n" "le_coverageComplete r"
    using assms(3,4) by (auto simp: fin_snapshot_def split: option.splits)
  then have "coverage_of s = Some (le_deploymentBlock r, Some n, True)" by (simp add: coverage_of_def)
  then show ?thesis
    using history_sound [OF assms(1,2)] r(3) by (auto simp: history_ok_def ledger_follows_def follows_def)
qed

theorem coverage_truthful_witness:
  "\<exists>s sn. pg_service [pg_market_batch] = Inr s \<and> fin_snapshot pg_env s = Inr sn \<and> sn_complete sn \<and>
     {dp_deploymentBlock (en_deployment pg_env)..sn_blockNumber sn} \<subseteq> {1..10}"
proof -
  obtain s0 s sn where run: "fin_ready pg_env empty_db = Inr s0" "pg_applyBatch pg_sample pg_market_batch s0 = Inr s"
    "pg_service [pg_market_batch] = Inr s" "fin_snapshot pg_env s = Inr sn" "sn_complete sn"
    by (rule pg_market_db)
  have "pg_history pg_sample pg_env ({} \<union> (if pg_already_applied pg_market_batch s0 then {}
      else {sr_fromBlock (bt_range pg_market_batch)..sr_toBlock (bt_range pg_market_batch)})) s"
    by (rule history_batch [OF history_ready [OF history_empty run(1)] run(2)])
      (simp add: pg_market_batch_def pg_batch_def pg_env_def)
  from coverage_truthful [OF _ this run(4,5)]
  have "{dp_deploymentBlock (en_deployment pg_env)..sn_blockNumber sn} \<subseteq> {1..10}"
    by (auto simp: pg_sample_def pg_market_batch_def pg_batch_def split: if_splits)
  then show ?thesis using run by blast
qed

end
