(* ===== verification/Pg_Indexing.thy ===== *)
theory Pg_Indexing
  imports Pg_Samples Memory_Indexing
begin

text \<open>
  The PostgreSQL store as the indexer's event store: it keeps the contract of \<open>Store_Contract\<close>, so
  reconciliation, ingestion steps and scheduler ticks have on it what they have on any such store.
\<close>

definition pg_ops :: "pg_config \<Rightarrow> pg_db event_store_ops" where
  "pg_ops cf = \<lparr>es_checkpoint = (\<lambda>c s. Inr (checkpoint_row c s)),
     es_canonicalBlock = (\<lambda>c n s. Inr (block_at c n s)),
     es_scanRanges = (\<lambda>c s. Inr (pg_scanRanges c s)),
     es_registeredMarkets = pg_registeredMarkets cf,
     es_applyBatch = (\<lambda>b. committed (pg_applyBatch cf b)),
     es_rollbackAfter = (\<lambda>c n. committed (pg_rollbackAfter cf c n))\<rparr>"

lemma pg_ops_simps [simp]:
  "es_checkpoint (pg_ops cf) c s = Inr (checkpoint_row c s)"
  "es_canonicalBlock (pg_ops cf) c n s = Inr (block_at c n s)"
  "es_scanRanges (pg_ops cf) c s = Inr (pg_scanRanges c s)"
  "es_applyBatch (pg_ops cf) b = committed (pg_applyBatch cf b)"
  "es_rollbackAfter (pg_ops cf) c l = committed (pg_rollbackAfter cf c l)"
  by (simp_all add: pg_ops_def)

interpretation range_rows: comparator range_order_desc
  by unfold_locales (auto simp: range_order_desc_def compare_int_def split: if_splits)

lemma scanRanges_apart:
  assumes "sound_db s"
  shows "sorted_wrt (\<lambda>r r'. sr_toBlock r' < sr_fromBlock r) (pg_scanRanges c s) \<and>
    list_all (\<lambda>r. sr_fromBlock r \<le> sr_toBlock r) (pg_scanRanges c s)"
proof -
  let ?rs = "filter (\<lambda>r. sr_chainId r = c) (pg_ranges s)"
  have ordered: "list_all (\<lambda>r. sr_fromBlock r \<le> sr_toBlock r) (pg_ranges s)" and apart: "sorted_wrt ranges_apart (pg_ranges s)"
    using assms by (auto simp: sound_db_def canon_ok_def list_all_iff)
  have "sorted_wrt (\<lambda>r r'. ranges_apart r r' \<or> ranges_apart r' r) ?rs"
    using apart by (auto intro: sorted_wrt_filter sorted_wrt_mono_rel [of _ ranges_apart])
  then have "sorted_wrt (\<lambda>r r'. ranges_apart r r' \<or> ranges_apart r' r) (pg_scanRanges c s)"
    unfolding pg_scanRanges_def by (rule js_sort_symmetric) auto
  then have both: "sorted_wrt (\<lambda>r r'. (ranges_apart r r' \<or> ranges_apart r' r) \<and> range_order_desc r r' \<le> 0) (pg_scanRanges c s)"
    using range_rows.sorted_js_sort [of ?rs] by (simp add: pg_scanRanges_def sorted_wrt_conj)
  have "sr_toBlock r' < sr_fromBlock r"
    if "(ranges_apart r r' \<or> ranges_apart r' r) \<and> range_order_desc r r' \<le> 0" "r \<in> set ?rs" "r' \<in> set ?rs" for r r'
    using that ordered by (auto simp: ranges_apart_def range_order_desc_def compare_int_def list_all_iff split: if_splits)
  then show ?thesis
    using sorted_wrt_mono_rel [OF _ both] ordered by (auto simp: pg_scanRanges_def list_all_iff)
qed

lemma checkpoint_row_anchored:
  assumes "sound_db s" "checkpoint_row c s = Some k"
  shows "ck_chainId k = c \<and> (\<exists>b. block_at c (ck_blockNumber k) s = Some b \<and> cb_blockHash b = ck_blockHash k)"
proof -
  have k: "k \<in> set (pg_checkpoints s)" "ck_chainId k = c" using checkpoint_row_Some [OF assms(2)] by auto
  then have "block_known c (ck_blockNumber k) (ck_blockHash k) (pg_blocks s)"
    using assms(1) by (auto simp: sound_db_def canon_ok_def list_all_iff)
  then show ?thesis using k(2) block_known_at [of s] assms(1) by (auto simp: sound_db_def)
qed

interpretation pg: event_store "pg_ops cf" sound_db for cf
proof
  fix s s' c n k rs b
  show "ck_chainId k = c \<and> (\<exists>b. es_canonicalBlock (pg_ops cf) c (ck_blockNumber k) s = Inr (Some b) \<and>
      cb_blockHash b = ck_blockHash k)"
    if "sound_db s" "es_checkpoint (pg_ops cf) c s = Inr (Some k)"
    using checkpoint_row_anchored [of s c k] that by simp
  show "sorted_wrt (\<lambda>r r'. sr_toBlock r' < sr_fromBlock r) rs \<and> list_all (\<lambda>r. sr_fromBlock r \<le> sr_toBlock r) rs"
    if "sound_db s" "es_scanRanges (pg_ops cf) c s = Inr rs"
    using scanRanges_apart [OF that(1), of c] that(2) by simp
  show "validateCanonicalBatch b = Inr ()" if "es_applyBatch (pg_ops cf) b s = (None, s')"
    using that by (auto simp: pg_applyBatch_def)
  show "sound_db s' \<and> es_checkpoint (pg_ops cf) (ck_chainId (bt_checkpoint b)) s' = Inr (Some (bt_checkpoint b))"
    if "sound_db s" "in_event_order (bt_events b)" "es_applyBatch (pg_ops cf) b s = (None, s')"
    using applyBatch_sound [of cf b s s'] that by simp
  show "sound_db s' \<and>
     (case n of
        None \<Rightarrow> es_checkpoint (pg_ops cf) c s' = Inr None
      | Some m \<Rightarrow> \<exists>b. es_canonicalBlock (pg_ops cf) c m s = Inr (Some b) \<and>
          es_checkpoint (pg_ops cf) c s' =
            Inr (Some \<lparr>ck_chainId = c, ck_blockNumber = m, ck_blockHash = cb_blockHash b\<rparr>))"
    if "sound_db s" "es_rollbackAfter (pg_ops cf) c n s = (None, s')"
    using rollback_sound [of cf c n s s'] that by (auto split: option.splits)
qed

interpretation pg: sound_store "pg_ops cf" sound_db sound_db for cf
  by unfold_locales
    (auto simp: committed_def dest: applyBatch_sound rollback_sound split: sum.splits)

section \<open>The database\<close>

text \<open>
  C3. Every transaction of the service, its repairs and backfills included, leaves the database consistent:
  the primary keys of the read model hold, no balance is negative and every participant belongs to an
  activity; the checkpoint, the scan ranges and the events name a stored block under its hash, and the scan
  ranges of a chain do not overlap.
\<close>

theorem postgres_store_consistent:
  assumes "pg_reachable cf s"
  shows "read_ok s \<and> canon_ok s"
  using reachable_sound [OF assms] by (simp add: sound_db_def)

theorem postgres_store_consistent_witness:
  "\<exists>s. pg_service [pg_market_batch] = Inr s \<and> read_ok s \<and> canon_ok s \<and>
     map (\<lambda>p. (pr_owner p, pr_balance p)) (pg_positions s) = [(''0xu'', 5)]"
proof -
  obtain s where s: "pg_service [pg_market_batch] = Inr s"
    "map (\<lambda>p. (pr_owner p, pr_balance p)) (pg_positions s) = [(''0xu'', 5)]"
    by (rule pg_market_db) (rule that)
  from postgres_store_consistent [OF pg_service_reachable [OF s(1)]] show ?thesis using s by (intro exI [of _ s]) simp
qed

section \<open>The production indexer\<close>


text \<open>
  C13. A scheduler tick over the PostgreSQL store and a chain whose head does not move: if it commits fewer
  batches than its bound allows, the store has caught up with the confirmed head.
\<close>

theorem postgres_tick_reaches_head:
  assumes "pg_reachable cf s" "stable_head cl head" "1 \<le> io_batchSize opts"
    and "runTick (runBatch (pg_ops cf) cl ab opts) sopts sc (s, w) = (Inr m, sc', (s', w'))"
    and "m < max_batches sopts"
  shows "sc_lastFailure sc' = None \<and> sound_db s' \<and>
    (if head < io_confirmations opts then True
     else case checkpoint_row (io_chainId opts) s' of
       None \<Rightarrow> head - io_confirmations opts < io_deploymentBlock opts
     | Some k \<Rightarrow> head - io_confirmations opts \<le> ck_blockNumber k)"
proof -
  have t: "tick_steps (runBatch (pg_ops cf) cl ab opts) (max_batches sopts) 0 (s, w) = (Inr m, (s', w'))"
    and l: "sc_lastFailure sc' = None"
    using assms(4) by (auto simp: runTick_def split: prod.splits sum.splits)
  have "sound_db (fst (s, w))" "m < 0 + max_batches sopts" using reachable_sound [OF assms(1)] assms(5) by simp_all
  from pg.tick_catches_up [OF assms(2,3) this(1) t this(2)]
  show ?thesis using l by (auto split: option.splits)
qed

text \<open>A chain with the hashes of the sample, except above \<open>fork\<close>.\<close>

definition pg_client :: "int \<Rightarrow> unit rpc_client" where
  "pg_client fork = (sample_client fork)\<lparr>rc_getBlock := (\<lambda>n. call_return
     \<lparr>rb_hash = Some (if n \<le> fork then short_hash n else ''0xi''), rb_parentHash = ''0xp'', rb_timestamp = n\<rparr>)\<rparr>"

lemma pg_client_stable:
  "stable_chain (pg_client f) (\<lambda>n. \<lparr>rb_hash = Some (if n \<le> f then short_hash n else ''0xi''), rb_parentHash = ''0xp'',
     rb_timestamp = n\<rparr>)"
  "stable_head (pg_client f) 25"
  by (simp_all add: stable_chain_def stable_head_def pg_client_def sample_client_def call_return_def)


theorem postgres_tick_reaches_head_witness:
  "\<exists>s. each_row (pg_applyBatch pg_plain) [pg_batch short_hash 1 None []] empty_db = Inr s \<and>
     (case checkpoint_row 1 (fst (snd (snd (runTick (runBatch (pg_ops pg_plain) (pg_client 30) sample_abi sample_options)
        \<lparr>sd_intervalMs = 1000, sd_caughtUpIntervalMs = None, sd_jitterRatio = None, sd_maxBatchesPerTick = 5\<rparr>
        new_scheduler (s, ()))))) of None \<Rightarrow> False | Some k \<Rightarrow> 20 \<le> ck_blockNumber k)"
proof -
  let ?opts = "\<lparr>sd_intervalMs = 1000, sd_caughtUpIntervalMs = None, sd_jitterRatio = None, sd_maxBatchesPerTick = 5\<rparr>"
  let ?run = "\<lambda>s. runTick (runBatch (pg_ops pg_plain) (pg_client 30) sample_abi sample_options) ?opts new_scheduler (s, ())"
  have "case each_row (pg_applyBatch pg_plain) [pg_batch short_hash 1 None []] empty_db of Inl _ \<Rightarrow> False
    | Inr s \<Rightarrow> fst (?run s) = Inr 1"
    by code_simp
  then obtain s where s: "each_row (pg_applyBatch pg_plain) [pg_batch short_hash 1 None []] empty_db = Inr s"
    and run: "fst (?run s) = Inr 1"
    by (auto split: sum.splits)
  have b: "(1 :: nat) < max_batches ?opts" and size: "1 \<le> io_batchSize sample_options"
    by (simp_all add: max_batches_def sample_options_def)
  from postgres_tick_reaches_head [OF pg_plain_reachable [OF s] pg_client_stable(2) size triple_of [OF run] b]
  show ?thesis using s by (auto simp: sample_options_def split: option.splits)
qed

end
