(* ===== verification/Fact_Sources.thy ===== *)
theory Fact_Sources
  imports Financial_Facts
begin

text \<open>
  Where the facts of a scan come from (\<open>normalizeFinancialFacts\<close> in offchain/indexer/src/financial-facts.ts):
  every fact is the schema's reading of a draft at an event of the scan.
\<close>

section \<open>Handlers add facts of their events\<close>

definition from_event :: "fin_lib \<Rightarrow> (int, int) jsmap \<Rightarrow> indexed_event set \<Rightarrow> ledger_fact \<Rightarrow> bool" where
  "from_event lib ts E f = (\<exists>e \<in> E. \<exists>d. fact_of lib ts e d = Inr f)"

definition sourced :: "fin_lib \<Rightarrow> (int, int) jsmap \<Rightarrow> indexed_event set \<Rightarrow> fin_state \<Rightarrow> bool" where
  "sourced lib ts E s = (list_all (from_event lib ts E) (fs_facts s) \<and> list_all (\<lambda>mv. mv_event mv \<in> E) (fs_movements s))"

definition stays :: "fin_lib \<Rightarrow> (int, int) jsmap \<Rightarrow> indexed_event set \<Rightarrow> fin_state \<Rightarrow> fin_state outcome \<Rightarrow> bool" where
  "stays lib ts E s r = (\<forall>s'. sourced lib ts E s \<and> r = Inr s' \<longrightarrow> sourced lib ts E s')"

lemma stays_Inr: "stays lib ts E s (Inr s)"
  and stays_Inl: "stays lib ts E s (Inl err)"
  by (simp_all add: stays_def)

lemma stays_step:
  "stays lib ts E s r \<Longrightarrow> (\<And>s'. stays lib ts E s' (g s')) \<Longrightarrow> stays lib ts E s (outcome_bind r g)"
  unfolding stays_def outcome_bind_Inr by blast

lemma stays_value: "(\<And>a. r = Inr a \<Longrightarrow> stays lib ts E s (g a)) \<Longrightarrow> stays lib ts E s (outcome_bind r g)"
  by (auto simp: stays_def)

lemma stays_if: "(b \<Longrightarrow> stays lib ts E s r) \<Longrightarrow> (\<not> b \<Longrightarrow> stays lib ts E s r') \<Longrightarrow> stays lib ts E s (if b then r else r')"
  by simp

lemma stays_prod: "(\<And>a b. p = (a, b) \<Longrightarrow> stays lib ts E s (g a b)) \<Longrightarrow> stays lib ts E s (case p of (a, b) \<Rightarrow> g a b)"
  by (cases p) simp

lemma stays_option:
  "(v = None \<Longrightarrow> stays lib ts E s r) \<Longrightarrow> (\<And>a. v = Some a \<Longrightarrow> stays lib ts E s (g a)) \<Longrightarrow>
   stays lib ts E s (case v of None \<Rightarrow> r | Some a \<Rightarrow> g a)"
  by (cases v) simp_all

lemma stays_add: "e \<in> E \<Longrightarrow> stays lib ts E s (fin_add lib ts e d s)"
  by (auto simp: stays_def fin_add_def sourced_def from_event_def) blast

lemma stays_adds: "e \<in> E \<Longrightarrow> stays lib ts E s (fin_adds lib ts e ds s)"
  by (induction ds arbitrary: s) (simp_all add: stays_Inr stays_step stays_add)

lemma consume_events:
  "consume P n ms = (used, ms') \<Longrightarrow> list_all (\<lambda>mv. mv_event mv \<in> E) ms \<Longrightarrow> list_all (\<lambda>mv. mv_event mv \<in> E) ms'"
  by (induction P n ms arbitrary: used ms' rule: consume.induct) (auto simp: Let_def split: if_splits prod.splits)

lemma stays_explain:
  assumes "e \<in> E"
  shows "stays lib ts E s (explain lib ts e market src dst u out holder drafts s)"
proof -
  obtain used ms where c: "consume (movement_matches e market src dst out) u (fs_movements s) = (used, ms)"
    by (metis surj_pair)
  let ?s = "s\<lparr>fs_movements := ms\<rparr>"
  have "stays lib ts E ?s (outcome_bind (fin_adds lib ts e (drafts used) ?s) (fin_coverage lib ts e market holder u used))"
    by (rule stays_step [OF stays_adds]) (simp_all add: assms fin_coverage_def stays_add stays_Inr)
  moreover have "sourced lib ts E ?s" if "sourced lib ts E s"
    using that consume_events [OF c] by (simp add: sourced_def)
  ultimately show ?thesis unfolding explain_def c stays_def Let_def prod.case by blast
qed

lemmas stays_rules = stays_Inr stays_Inl stays_add stays_explain stays_step stays_value stays_if stays_prod stays_option

lemma stays_market_event_fact: "de_event de \<in> E \<Longrightarrow> stays lib ts E s (market_event_fact lib ts de k own outc units amt s)"
  unfolding market_event_fact_def Let_def by (rule stays_rules | assumption)+

lemmas creation_defs = handle_market_created_def handle_order_created_def handle_ask_created_def
lemmas order_defs = handle_bid_excess_def handle_order_released_def handle_shares_deferred_def
  handle_shares_withdrawn_def handle_trade_def
lemmas other_defs = handle_listing_def handle_fee_def handle_bond_def handle_payment_def
lemmas vault_defs = handle_purchase_def handle_voided_def handle_burn_def

lemma stays_orderbook: "de_event de \<in> E \<Longrightarrow> stays lib ts E s (handle_orderbook lib ts cx de s)"
  unfolding handle_orderbook_def creation_defs order_defs Let_def by (rule stays_rules | assumption)+

lemma stays_market: "de_event de \<in> E \<Longrightarrow> stays lib ts E s (handle_market lib ts cx de s)"
  unfolding handle_market_def vault_defs Let_def by (rule stays_market_event_fact stays_rules | assumption)+

lemma stays_rest: "de_event de \<in> E \<Longrightarrow> stays lib ts E s (handle_rest lib ts cx de s)"
  unfolding handle_rest_def other_defs Let_def by (rule stays_market stays_rules | assumption)+

lemma stays_event: "de_event de \<in> E \<Longrightarrow> stays lib ts E s (handle_event lib ts cx de s)"
  unfolding handle_event_def handle_market_created_def Let_def by (rule stays_orderbook stays_rest stays_rules | assumption)+

lemma stays_events: "list_all (\<lambda>de. de_event de \<in> E) ds \<Longrightarrow> stays lib ts E s (handle_events lib ts cx ds s)"
  by (induction ds arbitrary: s) (simp_all add: stays_Inr stays_step stays_event)

lemma stays_left_overs: "list_all (\<lambda>mv. mv_event mv \<in> E) ms \<Longrightarrow> stays lib ts E s (left_overs lib ts ms s)"
  by (induction ms arbitrary: s) (simp_all add: stays_Inr stays_step stays_add)

section \<open>The facts of a scan\<close>

lemma fin_decode_events: "fin_decode lib p es = Inr ds \<Longrightarrow> list_all (\<lambda>de. de_event de \<in> set es) ds"
proof (induction es arbitrary: ds)
  case (Cons e es)
  have more: "list_all (\<lambda>de. de_event de \<in> set (e # es)) xs" if "fin_decode lib p es = Inr xs" for xs
    using Cons.IH [OF that] by (auto simp: list_all_iff)
  show ?case using Cons.prems more by (auto split: option.splits)
qed simp

lemma batch_movements_event: "batch_movements lib de k ivs = Inr ms \<Longrightarrow> list_all (\<lambda>mv. mv_event mv = de_event de) ms"
  by (induction ivs arbitrary: k ms) (auto simp: Let_def)

lemma event_movements_event: "event_movements lib markets de = Inr ms \<Longrightarrow> list_all (\<lambda>mv. mv_event mv = de_event de) ms"
  by (auto simp: event_movements_def single_movement_def Let_def
      dest: batch_movements_event split: if_splits option.splits abi_value.splits)

lemma all_movements_events:
  assumes "all_movements lib markets ds = Inr ms" "list_all (\<lambda>de. de_event de \<in> E) ds"
  shows "list_all (\<lambda>mv. mv_event mv \<in> E) ms"
proof -
  obtain mss where "traverse (event_movements lib markets) ds = Inr mss" "ms = concat mss"
    using assms(1) by (auto simp: all_movements_def)
  then show ?thesis
    using assms(2)
  proof (induction ds arbitrary: mss ms)
    case (Cons de ds)
    then obtain ms1 mss1 where "event_movements lib markets de = Inr ms1" "traverse (event_movements lib markets) ds = Inr mss1"
      "mss = ms1 # mss1"
      by auto
    then show ?case using Cons event_movements_event by (fastforce simp: list_all_iff)
  qed simp
qed

theorem facts_from_events:
  assumes "normalizeFinancialFacts lib events blocks cx = Inr facts"
  shows "list_all (from_event lib (block_timestamps blocks) (set events)) facts"
proof -
  let ?ts = "block_timestamps blocks" and ?E = "set events"
  obtain ds cx1 ms s s1 where dec: "fin_decode lib (dp_protocol (fc_deployment cx)) (js_sort compareRaw events) = Inr ds"
    and mov: "all_movements lib (fc_markets cx1) ds = Inr ms"
    and hs: "handle_events lib ?ts cx1 ds \<lparr>fs_movements = ms, fs_facts = []\<rparr> = Inr s"
    and lefts: "left_overs lib ?ts (fs_movements s) s = Inr s1" and facts: "facts = js_sort financialOrder (fs_facts s1)"
    using assms by (auto simp: normalizeFinancialFacts_def Let_def)
  have ds: "list_all (\<lambda>de. de_event de \<in> ?E) ds" using fin_decode_events [OF dec] by simp
  have "sourced lib ?ts ?E \<lparr>fs_movements = ms, fs_facts = []\<rparr>"
    using all_movements_events [OF mov ds] by (simp add: sourced_def)
  then have s: "sourced lib ?ts ?E s"
    using stays_events [OF ds, of lib ?ts "\<lparr>fs_movements = ms, fs_facts = []\<rparr>" cx1] hs unfolding stays_def by blast
  then have "list_all (\<lambda>mv. mv_event mv \<in> ?E) (fs_movements s)" by (simp add: sourced_def)
  from stays_left_overs [OF this, of lib ?ts s] have "sourced lib ?ts ?E s1" using s lefts unfolding stays_def by blast
  then show ?thesis by (simp add: facts sourced_def list_all_iff)
qed

end
