(* ===== verification/Ledger_Sources.thy ===== *)
theory Ledger_Sources
  imports Pg_Samples Fact_Sources
begin

text \<open>
  The rows of \<open>ledger_facts\<close> (offchain/indexer/src/financial-store.ts) and the events they come from: every
  row names a stored event, whatever batches, rollbacks, backfills and repairs the database went through;
  and the ask orders, whose two facts share a row.
\<close>

section \<open>The fields of a fact\<close>

lemma schema_parts:
  "schema_uint n = Inr m \<longleftrightarrow> uint_ok n \<and> m = nat n" "schema_index n = Inr m \<longleftrightarrow> 0 \<le> n \<and> m = nat n"
  "schema_hash h = Inr g \<longleftrightarrow> bytes32 h \<and> g = h"
  by (auto simp: schema_uint_def schema_index_def schema_hash_def)

lemma fact_of_position:
  assumes "fact_of lib ts e d = Inr f"
  shows "int (lf_blockNumber f) = ev_blockNumber e \<and> lf_blockHash f = ev_blockHash e \<and>
    lf_transactionHash f = ev_transactionHash e \<and> int (lf_transactionIndex f) = ev_transactionIndex e \<and>
    int (lf_logIndex f) = ev_logIndex e \<and> bytes32 (lf_blockHash f) \<and> bytes32 (lf_transactionHash f) \<and>
    map_get ts (ev_blockNumber e) = Some (int (lf_timestamp f)) \<and>
    lf_id f = lf_transactionHash f @ '':'' @ dec (int (lf_logIndex f)) @ '':'' @ dec_nat (lf_factIndex f)"
  using assms by (auto simp: fact_of_def schema_parts uint_ok_def fact_id_def split: option.splits)

lemma optional_uint: "optional_of schema_uint x = Inr y \<Longrightarrow> case y of None \<Rightarrow> True | Some n \<Rightarrow> uint_ok (int n)"
  by (cases x) (auto simp: schema_parts uint_ok_def)

lemma fact_of_amounts:
  assumes "fact_of lib ts e d = Inr f"
  shows "list_all (\<lambda>y. case y of None \<Rightarrow> True | Some n \<Rightarrow> uint_ok (int n)) [lf_outcomeId f, lf_units f, lf_amount f]"
  using assms by (auto simp: fact_of_def dest!: optional_uint split: option.splits)

lemma schema_address_ok: "schema_address lib s = Inr a \<Longrightarrow> a \<noteq> zeroAddress"
  by (auto simp: schema_address_def split: if_splits option.splits)

lemma optional_address: "optional_of (schema_address lib) x = Inr y \<Longrightarrow> y \<noteq> Some zeroAddress"
  by (cases x) (auto dest: schema_address_ok)

lemma fact_of_addresses:
  assumes "fact_of lib ts e d = Inr f"
  shows "Some zeroAddress \<notin> {lf_market f, lf_owner f, lf_counterparty f}"
  using assms by (auto simp: fact_of_def dest!: optional_address split: option.splits)

section \<open>Rows name stored events\<close>

definition names_event :: "event_row \<Rightarrow> fact_row \<Rightarrow> bool" where
  "names_event e r =
     (er_chainId e = ft_chainId r \<and> er_blockNumber e = ft_blockNumber r \<and> er_transactionHash e = ft_transactionHash r \<and>
      er_transactionIndex e = ft_transactionIndex r \<and> er_logIndex e = ft_logIndex r \<and>
      ft_blockNumber r = int (lf_blockNumber (ft_fact r)) \<and> er_blockHash e = lf_blockHash (ft_fact r) \<and>
      ft_transactionHash r = lf_transactionHash (ft_fact r) \<and> ft_logIndex r = int (lf_logIndex (ft_fact r)) \<and>
      ft_factIndex r = int (lf_factIndex (ft_fact r)))"

definition ledger_ok :: "pg_db \<Rightarrow> bool" where
  "ledger_ok s =
     (distinct (map event_pk (pg_events s)) \<and>
      list_all (\<lambda>r. list_ex (\<lambda>e. names_event e r) (pg_events s)) (pg_facts s))"

lemma ledger_ok_cong: "pg_events t = pg_events s \<Longrightarrow> pg_facts t = pg_facts s \<Longrightarrow> ledger_ok s \<Longrightarrow> ledger_ok t"
  by (simp add: ledger_ok_def)

lemma ledger_ok_parts:
  "canonical_part t = canonical_part s \<Longrightarrow> ledger_part t = ledger_part s \<Longrightarrow> ledger_ok s \<Longrightarrow> ledger_ok t"
  by (rule ledger_ok_cong) (simp_all add: part_defs)

text \<open>A fact of a stored event can be inserted: a conflicting row belongs to the same event.\<close>

definition of_row :: "int \<Rightarrow> event_row \<Rightarrow> ledger_fact \<Rightarrow> bool" where
  "of_row c e f =
     (er_chainId e = c \<and> int (lf_blockNumber f) = er_blockNumber e \<and> lf_blockHash f = er_blockHash e \<and>
      lf_transactionHash f = er_transactionHash e \<and> int (lf_transactionIndex f) = er_transactionIndex e \<and>
      int (lf_logIndex f) = er_logIndex e)"

lemma of_row_names: "of_row c e f \<Longrightarrow> names_event e (row_of_fact c f)"
  by (simp add: of_row_def names_event_def row_of_fact_def)

lemma distinct_key: "distinct (map key t) \<Longrightarrow> x \<in> set t \<Longrightarrow> y \<in> set t \<Longrightarrow> key x = key y \<Longrightarrow> x = y"
  by (simp add: distinct_map inj_on_def)

lemma updated_names:
  assumes "names_event e' x" "of_row c e f" "fact_pk x = fact_pk (row_of_fact c f)"
    and "distinct (map event_pk es)" "e \<in> set es" "e' \<in> set es"
  shows "names_event e (x\<lparr>ft_fact := f, ft_owner := ow, ft_counterparty := cp, ft_market := m\<rparr>)"
proof -
  have "event_pk e' = event_pk e"
    using assms(1-3) by (auto simp: names_event_def of_row_def fact_pk_def row_of_fact_def event_pk_def)
  then have "e' = e" using distinct_key [OF assms(4,6,5)] by simp
  then show ?thesis using assms(1-3) by (auto simp: names_event_def of_row_def fact_pk_def row_of_fact_def)
qed

lemma insert_fact_ok:
  assumes "insert_fact c f s = Inr t" "ledger_ok s" "e \<in> set (pg_events s)" "of_row c e f"
  shows "ledger_ok t \<and> pg_events t = pg_events s"
proof -
  let ?row = "row_of_fact c f" and ?named = "\<lambda>r. list_ex (\<lambda>e. names_event e r) (pg_events s)"
  let ?g = "\<lambda>x. x\<lparr>ft_fact := f, ft_owner := ft_owner ?row, ft_counterparty := ft_counterparty ?row, ft_market := ft_market ?row\<rparr>"
  have t: "t = s\<lparr>pg_facts := insert_or_update fact_pk ?g ?row (pg_facts s)\<rparr>"
    using assms(1) by (auto simp: insert_fact_def Let_def split: if_splits)
  have d: "distinct (map event_pk (pg_events s))" and old: "list_all ?named (pg_facts s)"
    using assms(2) by (simp_all add: ledger_ok_def)
  have "?named (?g x)" if x: "x \<in> set (pg_facts s)" "fact_pk x = fact_pk ?row" for x
  proof -
    obtain e' where "names_event e' x" "e' \<in> set (pg_events s)" using old x(1) by (auto simp: list_all_iff list_ex_iff)
    from updated_names [OF this(1) assms(4) x(2) d assms(3) this(2)] show ?thesis
      using assms(3) by (auto simp: list_ex_iff)
  qed
  moreover have "?named ?row" using of_row_names [OF assms(4)] assms(3) by (auto simp: list_ex_iff)
  ultimately have "list_all ?named (insert_or_update fact_pk ?g ?row (pg_facts s))"
    using old by (auto simp: insert_or_update_def list_all_iff)
  then show ?thesis using d by (simp add: t ledger_ok_def)
qed

lemma insert_facts_ok:
  assumes "each_row (insert_fact c) fs s = Inr t" "ledger_ok s"
    and "\<And>f. f \<in> set fs \<Longrightarrow> \<exists>e \<in> set (pg_events s). of_row c e f"
  shows "ledger_ok t"
proof -
  have "ledger_ok t \<and> pg_events t = pg_events s"
    by (rule each_row_keeps [OF assms(1)]) (use assms(2,3) insert_fact_ok in fastforce)+
  then show ?thesis by simp
qed

section \<open>Projection\<close>

lemma mapRawEvent_fields:
  "mapRawEvent cf r = Inr e \<Longrightarrow> ev_chainId e = er_chainId r \<and> ev_blockNumber e = er_blockNumber r \<and>
     ev_blockHash e = er_blockHash r \<and> ev_transactionHash e = er_transactionHash r \<and>
     ev_transactionIndex e = er_transactionIndex r \<and> ev_logIndex e = er_logIndex r"
  by (auto simp: mapRawEvent_def)

lemma traverse_sources: "traverse g xs = Inr ys \<Longrightarrow> y \<in> set ys \<Longrightarrow> \<exists>x \<in> set xs. g x = Inr y"
  by (induction xs arbitrary: ys) auto

lemma projectOrderbook_keeps:
  assumes "projectOrderbook cf es mk s = Inr t"
  shows "pg_facts t = pg_facts s \<and> pg_events t = pg_events s"
proof -
  have "(pg_facts t, pg_events t) = (pg_facts s, pg_events s)"
    using assms unfolding projectOrderbook_def
    by (rule each_row_const) (auto simp: project_order_def split: if_splits option.splits)
  then show ?thesis by simp
qed

lemma mark_projected_keeps:
  "pg_facts (mark_projected fs bs k n s) = pg_facts s" "pg_events (mark_projected fs bs k n s) = pg_events s"
  by (simp_all add: mark_projected_def Let_def revised_def split: option.splits)

lemma fin_project_ok:
  assumes run: "fin_project cf env es blocks k n s = Inr t" and ok: "ledger_ok s"
    and src: "\<And>e. e \<in> set es \<Longrightarrow> \<exists>r \<in> set (pg_events s). mapRawEvent cf r = Inr e \<and> er_chainId r = dp_chainId (en_deployment env)"
  shows "ledger_ok t"
proof -
  let ?d = "en_deployment env"
  obtain s1 facts s2 where s1: "(if dp_orderbook ?d then projectOrderbook cf es (rn_marketplace ?d) s else Inr s) = Inr s1"
    and f: "stored_facts cf env es blocks s s1 = Inr facts"
    and s2: "each_row (insert_fact (dp_chainId ?d)) facts s1 = Inr s2"
    and t: "t = mark_projected facts blocks k n s2"
    using run unfolding fin_project_def Let_def outcome_bind_Inr outcome_map_Inr by blast
  have e1: "pg_facts s1 = pg_facts s" "pg_events s1 = pg_events s"
    using s1 projectOrderbook_keeps by (auto split: if_splits)
  obtain cx where norm: "normalizeFinancialFacts (pc_lib cf) es blocks cx = Inr facts"
    using f by (auto simp: stored_facts_def Let_def)
  have "\<exists>e \<in> set (pg_events s1). of_row (dp_chainId ?d) e x" if "x \<in> set facts" for x
  proof -
    have "from_event (pc_lib cf) (block_timestamps blocks) (set es) x"
      using facts_from_events [OF norm] that by (simp add: list_all_iff)
    then obtain e d where e: "e \<in> set es" "fact_of (pc_lib cf) (block_timestamps blocks) e d = Inr x"
      unfolding from_event_def by (elim bexE exE)
    obtain r where r: "r \<in> set (pg_events s)" "mapRawEvent cf r = Inr e" "er_chainId r = dp_chainId ?d"
      using src [OF e(1)] by blast
    then have "of_row (dp_chainId ?d) r x"
      using fact_of_position [OF e(2)] mapRawEvent_fields [OF r(2)] by (simp add: of_row_def)
    then show ?thesis using r(1) e1(2) by auto
  qed
  from insert_facts_ok [OF s2 ledger_ok_cong [OF e1(2,1) ok] this] have "ledger_ok s2" by simp
  then show ?thesis unfolding t by (rule ledger_ok_cong [OF mark_projected_keeps(2,1)])
qed

lemma drop_facts_rows:
  "pg_events (drop_facts c hs s) = pg_events s" "set (pg_facts (drop_facts c hs s)) \<subseteq> set (pg_facts s)"
  by (auto simp: drop_facts_def Let_def revised_def)

lemma projectFinancial_ok:
  assumes run: "projectFinancialTransactions cf hs s = Inr t" and ok: "ledger_ok s"
  shows "ledger_ok t"
proof (cases "pc_environment cf")
  case None
  then show ?thesis using run ok by (simp add: projectFinancialTransactions_def)
next
  case (Some env)
  let ?c = "dp_chainId (en_deployment env)" and ?u = "fold set_add hs []"
  let ?rows = "events_of_transactions ?c ?u s"
  show ?thesis
  proof (cases "hs = [] \<or> ?rows = []")
    case True
    then show ?thesis using run ok Some by (simp add: projectFinancialTransactions_def Let_def)
  next
    case False
    then obtain es where es: "traverse (mapRawEvent cf) ?rows = Inr es"
      "fin_project cf env es (blocks_of_rows ?c ?rows s) None None (drop_facts ?c ?u s) = Inr t"
      using run Some by (auto simp: projectFinancialTransactions_def Let_def)
    have "ledger_ok (drop_facts ?c ?u s)"
      using ok drop_facts_rows [of ?c ?u s] by (auto simp: ledger_ok_def list_all_iff)
    then show ?thesis
    proof (rule fin_project_ok [OF es(2)])
      fix e
      assume "e \<in> set es"
      then obtain r where "r \<in> set ?rows" "mapRawEvent cf r = Inr e" using traverse_sources [OF es(1)] by blast
      then show "\<exists>r \<in> set (pg_events (drop_facts ?c ?u s)). mapRawEvent cf r = Inr e \<and> er_chainId r = ?c"
        by (auto simp: events_of_transactions_def drop_facts_rows(1))
    qed
  qed
qed


section \<open>Transactions\<close>

lemma insertRawEvent_ledger:
  assumes "insertRawEvent e s = Inr (i, t)" "ledger_ok s"
  shows "ledger_ok t"
  using assms by (auto simp: insertRawEvent_def ledger_ok_def list_all_iff list_ex_iff split: if_splits)

lemma applyProjection_ledger: "applyProjection cf e s = Inr t \<Longrightarrow> ledger_ok s \<Longrightarrow> ledger_ok t"
  using applyProjection_parts ledger_ok_parts by blast

lemma ingest_ledger_ok:
  assumes "ingest cf e s = Inr t" "ledger_ok s"
  shows "ledger_ok t"
proof -
  obtain i u where u: "insertRawEvent e s = Inr (i, u)" "(if i then applyProjection cf e u else Inr u) = Inr t"
    using assms(1) by (auto simp: ingest_def)
  then show ?thesis using insertRawEvent_ledger [OF u(1) assms(2)] applyProjection_ledger by (auto split: if_splits)
qed

lemma insertCanonicalBlock_ledger: "insertCanonicalBlock b s = Inr t \<Longrightarrow> ledger_ok s \<Longrightarrow> ledger_ok t"
  by (erule ledger_ok_cong [rotated 2]) (auto simp: insertCanonicalBlock_def Let_def split: if_splits)

lemma anchors_ledger: "each_row insertCanonicalBlock bs s = Inr t \<Longrightarrow> ledger_ok s \<Longrightarrow> ledger_ok t"
  by (erule (1) each_row_keeps) (rule insertCanonicalBlock_ledger)

lemma events_ledger: "each_row (ingest cf) es s = Inr t \<Longrightarrow> ledger_ok s \<Longrightarrow> ledger_ok t"
  by (erule (1) each_row_keeps) (rule ingest_ledger_ok)

lemma project_batch_ledger:
  assumes "project_batch cf b s = Inr t" "ledger_ok s"
  shows "ledger_ok t"
proof (cases "pc_environment cf")
  case (Some env)
  then obtain u where u: "projectFinancialTransactions cf (map ev_transactionHash (bt_events b)) s = Inr u"
    "fin_project cf env [] (bt_anchors b) (Some (bt_checkpoint b)) (Some (sr_fromBlock (bt_range b))) u = Inr t"
    using assms(1) by (auto simp: project_batch_def)
  show ?thesis by (rule fin_project_ok [OF u(2) projectFinancial_ok [OF u(1) assms(2)]]) simp
qed (use assms in \<open>simp add: project_batch_def\<close>)

lemma finish_batch_ledger: "finish_batch b s = Inr t \<Longrightarrow> ledger_ok s \<Longrightarrow> ledger_ok t"
  by (erule ledger_ok_cong [rotated 2])
    (auto simp: finish_batch_def Let_def insertCanonicalScanRange_def put_checkpoint_def split: if_splits)

lemma applyBatch_ledger:
  assumes "pg_applyBatch cf b s = Inr t" "ledger_ok s"
  shows "ledger_ok t"
  using assms(1)
proof (cases rule: applyBatch_steps)
  case (fresh s1 s2 s3)
  show ?thesis
    by (rule finish_batch_ledger [OF fresh(8) project_batch_ledger [OF fresh(7) events_ledger [OF fresh(6)
        anchors_ledger [OF fresh(5) assms(2)]]]])
qed (use assms(2) in simp)

lemma applyLegacy_ledger: "pg_applyLegacy cf es bs k s = Inr t \<Longrightarrow> ledger_ok s \<Longrightarrow> ledger_ok t"
  by (auto simp: pg_applyLegacy_def applyLegacyHistoricalBatch_def Let_def dest!: anchors_ledger events_ledger
      intro: projectFinancial_ok applyBatch_ledger split: option.splits if_splits)

lemma forget_after_ledger:
  assumes "ledger_ok s"
  shows "ledger_ok (forget_after c limit s)"
proof -
  have "names_event e r \<Longrightarrow> survives c limit (ft_chainId r) (ft_blockNumber r) \<Longrightarrow>
      survives c limit (er_chainId e) (er_blockNumber e)" for e r
    by (simp add: names_event_def)
  then show ?thesis
    using assms by (fastforce simp: ledger_ok_def forget_after_rows list_all_iff list_ex_iff distinct_map_filter)
qed

lemma rebuild_ledger: "rebuild cf c s = Inr t \<Longrightarrow> ledger_ok s \<Longrightarrow> ledger_ok t"
  using rebuild_parts ledger_ok_parts by blast

lemma rollback_ledger:
  assumes "pg_rollbackAfter cf c limit s = Inr t" "ledger_ok s"
  shows "ledger_ok t"
  using assms(1)
proof (cases rule: rollback_steps)
  case (1 s1 s2)
  have "ledger_ok s1" by (rule rebuild_ledger [OF 1(1) forget_after_ledger [OF assms(2)]])
  moreover have "pg_events s2 = pg_events s1 \<and> pg_facts s2 = pg_facts s1"
    using 1(2) by (auto simp: fin_rollback_def Let_def split: option.splits)
  moreover have "pg_events t = pg_events s2 \<and> pg_facts t = pg_facts s2" using 1(5) by (auto split: option.splits)
  ultimately show ?thesis using ledger_ok_cong [of t s1] by simp
qed

lemma anchor_ledger: "ensureHistoricalAnchor m b s = Inr t \<Longrightarrow> ledger_ok s \<Longrightarrow> ledger_ok t"
  by (auto simp: ensureHistoricalAnchor_def intro: insertCanonicalBlock_ledger split: option.splits if_splits)

lemma verifiedBackfill_ledger:
  assumes "applyVerifiedBackfill cf es bs guard s = Inr t" "ledger_ok s"
  shows "ledger_ok t"
proof -
  obtain s1 s2 where s1: "each_row (ensureHistoricalAnchor ''backfill canonical block mismatch'') bs s = Inr s1"
    and s2: "each_row (backfill_event cf bs) es s1 = Inr s2"
    and t: "projectFinancialTransactions cf (map ev_transactionHash es) s2 = Inr t"
    using assms(1) by (auto simp: applyVerifiedBackfill_def split: if_splits)
  have "ledger_ok s1" using s1 assms(2) by (rule each_row_keeps) (rule anchor_ledger)
  with s2 have "ledger_ok s2"
    by (rule each_row_keeps) (auto simp: backfill_event_def intro: ingest_ledger_ok split: if_splits)
  then show ?thesis by (rule projectFinancial_ok [OF t])
qed

lemma correct_ledger_ledger: "correct_ledger n m g s = Inr t \<Longrightarrow> ledger_ok s \<Longrightarrow> ledger_ok t"
  by (erule ledger_ok_cong [rotated 2]) (auto simp: correct_ledger_def split: option.splits)

lemma keep_newer_ledger: "ledger_ok s \<Longrightarrow> ledger_ok (keep_newer c m k u s)"
  using keep_newer_parts ledger_ok_parts by blast

lemma purchase_events_ledger: "repair_purchase_events cf es n s = Inr (k, t) \<Longrightarrow> ledger_ok s \<Longrightarrow> ledger_ok t"
proof (induction es arbitrary: n s)
  case (Cons e es)
  then obtain i u where u: "insertRawEvent e s = Inr (i, u)"
    "(if i then outcome_bind (applyProjection cf e u) (repair_purchase_events cf es (n + 1))
      else repair_purchase_events cf es n u) = Inr (k, t)"
    by (auto split: if_splits)
  have ok: "ledger_ok u" by (rule insertRawEvent_ledger [OF u(1) Cons.prems(2)])
  show ?case
  proof (cases i)
    case True
    then obtain v where "applyProjection cf e u = Inr v" "repair_purchase_events cf es (n + 1) v = Inr (k, t)"
      using u(2) by auto
    then show ?thesis using Cons.IH applyProjection_ledger [OF _ ok] by blast
  next
    case False
    then show ?thesis using Cons.IH u(2) ok by simp
  qed
qed simp

lemma repairPurchaseLogs_ledger:
  assumes "repairPurchaseLogs cf es b s = Inr t" "ledger_ok s"
  shows "ledger_ok t"
proof -
  obtain s1 current key updated inserted s2 s3 where
    s1: "ensureHistoricalAnchor ''purchase repair canonical history mismatch'' b s = Inr s1"
    and s2: "repair_purchase_events cf es 0 s1 = Inr (inserted, s2)"
    and s3: "projectFinancialTransactions cf [ev_transactionHash (hd es)]
        (keep_newer (cb_chainId b) current key updated s2) = Inr s3"
    and t: "(if 0 < inserted then correct_ledger (cb_blockNumber b) ''confirmed_purchase_receipt'' id s3 else Inr s3) = Inr t"
    using assms(1) by (auto simp: repairPurchaseLogs_def Let_def split: option.splits if_splits prod.splits)
  have "ledger_ok s3"
    by (rule projectFinancial_ok [OF s3 keep_newer_ledger [OF purchase_events_ledger [OF s2 anchor_ledger [OF s1 assms(2)]]]])
  then show ?thesis using t correct_ledger_ledger by (auto split: if_splits)
qed

lemma operation_events_ledger: "repair_operation_events es n s = Inr (k, t) \<Longrightarrow> ledger_ok s \<Longrightarrow> ledger_ok t"
proof (induction es arbitrary: n s)
  case (Cons e es)
  then obtain i u where "insertRawEvent e s = Inr (i, u)" "repair_operation_events es (if i then n + 1 else n) u = Inr (k, t)"
    by (auto split: if_splits)
  then show ?case using Cons.IH insertRawEvent_ledger [OF _ Cons.prems(2)] by blast
qed simp

lemma repairOperationLogs_ledger:
  assumes "repairOperationLogs cf es b s = Inr (n, t)" "ledger_ok s"
  shows "ledger_ok t"
proof -
  obtain s1 s2 k where s1: "ensureHistoricalAnchor ''operation_repair_canonical_mismatch'' b s = Inr s1"
    and s2: "repair_operation_events es 0 s1 = Inr (k, s2)"
    and rest: "t = s2 \<or> (\<exists>s3 s4. rebuild cf (cb_chainId b) s2 = Inr s3 \<and>
        projectFinancialTransactions cf (map er_transactionHash (stored_events (cb_chainId b) s2)) s3 = Inr s4 \<and>
        correct_ledger (cb_blockNumber b) ''confirmed_operation_receipt'' id s4 = Inr t)"
    using assms(1) by (auto simp: repairOperationLogs_def split: if_splits)
  have "ledger_ok s2" by (rule operation_events_ledger [OF s2 anchor_ledger [OF s1 assms(2)]])
  then show ?thesis using rest rebuild_ledger projectFinancial_ok correct_ledger_ledger by blast
qed

lemma replayFinancial_ledger:
  assumes "replayFinancial cf a b s = Inr t" "ledger_ok s"
  shows "ledger_ok t"
proof -
  obtain c u where u: "correct_ledger a ''projection_replay'' (\<lambda>r. r\<lparr>le_status := ShadowLedger\<rparr>) s = Inr u"
    "each_row (replay_range cf c) (replay_ranges a b) u = Inr t"
    using assms(1) by (auto simp: replayFinancial_def split: option.splits if_splits)
  show ?thesis
    by (rule each_row_keeps [where I = ledger_ok, OF u(2) correct_ledger_ledger [OF u(1) assms(2)]])
      (auto simp: replay_range_def intro: projectFinancial_ok)
qed

lemma step_ledger: "pg_step cf s t \<Longrightarrow> ledger_ok s \<Longrightarrow> ledger_ok t"
proof (induction rule: pg_step.induct)
  case (step_ready env s t)
  have "pg_events t = pg_events s" "pg_facts t = pg_facts s"
    using step_ready(2) by (auto simp: fin_ready_def Let_def split: if_splits)
  then show ?case using ledger_ok_cong step_ready(3) by blast
next
  case (step_creation m es b s t)
  then show ?case using verifiedBackfill_ledger by (auto simp: repairMarketCreation_def split: if_splits)
next
  case (step_backfill es bs s t)
  then show ?case using verifiedBackfill_ledger by (simp add: applyFinancialBackfill_def)
next
  case (step_scanned s accounts first last_block h)
  then show ?case using ledger_ok_cong [of "accountScanned accounts first last_block h s" s] by (simp add: accountScanned_def)
next
  case (step_track s a first)
  then show ?case using ledger_ok_cong [of "trackAccount a first s" s] by (simp add: trackAccount_def)
qed (auto intro: applyBatch_ledger applyLegacy_ledger rollback_ledger repairPurchaseLogs_ledger repairOperationLogs_ledger
    replayFinancial_ledger)

lemma reachable_ledger: "pg_reachable cf s \<Longrightarrow> ledger_ok s"
proof (induction rule: pg_reachable.induct)
  case reach_empty
  show ?case by (simp add: ledger_ok_def empty_db_def)
next
  case (reach_step s t)
  then show ?case using step_ledger by blast
qed


section \<open>What the ledger's rows are\<close>

text \<open>
  C4. Whatever batches, rollbacks, backfills and repairs a database went through, every row of the financial
  ledger names a stored event by chain, transaction and log, and its fact carries the number and the hash of
  the stored block of that event: no fact outlives its event or its block.
\<close>

theorem ledger_facts_stored:
  assumes "pg_reachable cf s"
  shows "list_all (\<lambda>r. list_ex (\<lambda>e. names_event e r) (pg_events s) \<and>
    map_option cb_blockHash (block_at (ft_chainId r) (ft_blockNumber r) s) = Some (lf_blockHash (ft_fact r))) (pg_facts s)"
proof -
  have canon: "canon_ok s" using reachable_sound [OF assms] by (simp add: sound_db_def)
  have "map_option cb_blockHash (block_at (ft_chainId r) (ft_blockNumber r) s) = Some (lf_blockHash (ft_fact r))"
    if "e \<in> set (pg_events s)" "names_event e r" for e r
  proof -
    have "block_known (er_chainId e) (er_blockNumber e) (er_blockHash e) (pg_blocks s)"
      using canon that(1) by (auto simp: canon_ok_def list_all_iff)
    then show ?thesis using block_known_at [OF canon] that(2) by (simp add: names_event_def)
  qed
  then show ?thesis using reachable_ledger [OF assms] by (fastforce simp: ledger_ok_def list_all_iff list_ex_iff)
qed

theorem ledger_facts_stored_witness:
  "\<exists>s. pg_service [pg_market_batch] = Inr s \<and> length (pg_facts s) = 2 \<and>
     list_all (\<lambda>r. map_option cb_blockHash (block_at (ft_chainId r) (ft_blockNumber r) s) = Some (lf_blockHash (ft_fact r))) (pg_facts s)"
proof -
  obtain s where s: "pg_service [pg_market_batch] = Inr s"
    "map (\<lambda>r. lf_kind (ft_fact r)) (pg_facts s) = [FK_market_created, FK_share_transfer]"
    by (rule pg_market_db) (rule that)
  have "length (pg_facts s) = 2" using arg_cong [OF s(2), of length] by simp
  then show ?thesis
    using s ledger_facts_stored [OF pg_service_reachable [OF s(1)]] by (intro exI [of _ s]) (simp add: list_all_iff)
qed

lemma from_event_formed:
  assumes "from_event lib ts (set es) f"
  shows "list_ex (\<lambda>e. int (lf_blockNumber f) = ev_blockNumber e \<and> lf_blockHash f = ev_blockHash e \<and>
         lf_transactionHash f = ev_transactionHash e \<and> int (lf_transactionIndex f) = ev_transactionIndex e \<and>
         int (lf_logIndex f) = ev_logIndex e) es \<and>
      map_get ts (int (lf_blockNumber f)) = Some (int (lf_timestamp f)) \<and>
      bytes32 (lf_blockHash f) \<and> bytes32 (lf_transactionHash f) \<and>
      lf_id f = lf_transactionHash f @ '':'' @ dec (int (lf_logIndex f)) @ '':'' @ dec_nat (lf_factIndex f) \<and>
      list_all (\<lambda>y. case y of None \<Rightarrow> True | Some n \<Rightarrow> uint_ok (int n)) [lf_outcomeId f, lf_units f, lf_amount f] \<and>
      Some zeroAddress \<notin> {lf_market f, lf_owner f, lf_counterparty f}"
proof -
  obtain e d where e: "e \<in> set es" "fact_of lib ts e d = Inr f"
    using assms unfolding from_event_def by (elim bexE exE)
  show ?thesis
    using fact_of_position [OF e(2)] fact_of_amounts [OF e(2)] fact_of_addresses [OF e(2)] e(1)
    by (auto simp: list_ex_iff intro!: bexI [OF _ e(1)])
qed


section \<open>Ask orders\<close>

lemma fact_of_kind: "fact_of lib ts e d = Inr f \<Longrightarrow> lf_kind f = fr_kind d \<and> lf_factIndex f = fr_factIndex d"
  by (auto simp: fact_of_def split: option.splits)

lemma draft_fact:
  "fact_of lib ts e d = Inr f \<Longrightarrow>
     lf_kind f = fr_kind d \<and> lf_factIndex f = fr_factIndex d \<and> lf_transactionHash f = ev_transactionHash e"
  using fact_of_kind fact_of_position by blast

lemma coverage_facts:
  assumes "fin_coverage lib ts e m w u used s = Inr t"
  shows "\<exists>gs. fs_facts t = fs_facts s @ gs \<and> length gs \<le> 1 \<and>
    list_all (\<lambda>g. lf_kind g = FK_coverage_gap \<and> lf_factIndex g = 999 \<and> lf_transactionHash g = ev_transactionHash e) gs"
  using assms
  by (auto simp: fin_coverage_def fin_add_def draft_def dest!: draft_fact split: if_splits)

lemma explain_one:
  assumes "explain lib ts e m src dst u out w (\<lambda>_. [d]) s = Inr t"
  shows "\<exists>g gs. fs_facts t = fs_facts s @ g # gs \<and> fact_of lib ts e d = Inr g \<and>
    length gs \<le> 1 \<and>
    list_all (\<lambda>g. lf_kind g = FK_coverage_gap \<and> lf_factIndex g = 999 \<and> lf_transactionHash g = ev_transactionHash e) gs"
proof -
  obtain used ms where c: "consume (movement_matches e m src dst out) u (fs_movements s) = (used, ms)"
    by (cases "consume (movement_matches e m src dst out) u (fs_movements s)")
  obtain g where g: "fact_of lib ts e d = Inr g"
    "fin_coverage lib ts e m w u used (s\<lparr>fs_movements := ms, fs_facts := fs_facts s @ [g]\<rparr>) = Inr t"
    using assms by (auto simp: explain_def c fin_add_def)
  show ?thesis using coverage_facts [OF g(2)] g(1) by auto
qed

text \<open>The two facts of an ask, and the gap its escrow may leave.\<close>

lemma ask_facts:
  assumes "handle_orderbook lib ts cx de s = Inr t" "de_name de = ''OrderCreated''"
    and "js_number (map_of (de_args de) ''side'') = Some 1"
  obtains f g gs d d' where "fs_facts t = fs_facts s @ f # g # gs" "lf_kind f = FK_order_created" "lf_kind g = FK_listing_created"
    "lf_factIndex f = 0" "lf_factIndex g = 0" "fact_of lib ts (de_event de) d = Inr f"
    "fact_of lib ts (de_event de) d' = Inr g" "length gs \<le> 1"
    "list_all (\<lambda>g. lf_kind g = FK_coverage_gap \<and> lf_factIndex g = 999 \<and>
       lf_transactionHash g = ev_transactionHash (de_event de)) gs"
proof -
  obtain s1 where s1: "handle_order_created lib ts de s = Inr s1" "handle_ask_created lib ts (fc_deployment cx) de s1 = Inr t"
    using assms by (auto simp: handle_orderbook_def)
  obtain d f where f: "fact_of lib ts (de_event de) d = Inr f" "fr_kind d = FK_order_created" "fr_factIndex d = 0"
    "fs_facts s1 = fs_facts s @ [f]"
    using s1(1) by (auto simp: handle_order_created_def fin_add_def draft_def Let_def)
  obtain d' g gs where g: "fs_facts t = fs_facts s1 @ g # gs" "fact_of lib ts (de_event de) d' = Inr g" "length gs \<le> 1"
    "list_all (\<lambda>g. lf_kind g = FK_coverage_gap \<and> lf_factIndex g = 999 \<and>
       lf_transactionHash g = ev_transactionHash (de_event de)) gs"
    "fr_kind d' = FK_listing_created" "fr_factIndex d' = 0"
    using s1(2) by (auto simp: handle_ask_created_def draft_def Let_def dest!: explain_one)
  show thesis
    by (rule that [of f g gs d d']) (use f g fact_of_kind [OF f(1)] fact_of_kind [OF g(2)] in simp_all)
qed

lemma insert_fact_new:
  assumes "insert_fact c f s = Inr t" "list_all (\<lambda>r. fact_pk r \<noteq> fact_pk (row_of_fact c f)) (pg_facts s)"
  shows "pg_facts t = pg_facts s @ [row_of_fact c f]"
  using assms by (auto simp: insert_fact_def Let_def insert_or_update_def list_all_iff split: if_splits)

lemma insert_fact_again:
  assumes "insert_fact c g s = Inr t" "pg_facts s = old @ [row_of_fact c f]"
    and "fact_pk (row_of_fact c f) = fact_pk (row_of_fact c g)"
    and "list_all (\<lambda>r. fact_pk r \<noteq> fact_pk (row_of_fact c g)) old"
  shows "\<exists>r. pg_facts t = old @ [r] \<and> ft_kind r = lf_kind f \<and> ft_fact r = g \<and> fact_pk r = fact_pk (row_of_fact c g)"
proof -
  have old: "map (\<lambda>x. if fact_pk x = fact_pk (row_of_fact c g) then h x else x) old = old" for h
    using assms(4) by (auto simp: list_all_iff intro: map_idI)
  show ?thesis
    using assms(1-3) by (auto simp: insert_fact_def Let_def insert_or_update_def old split: if_splits)
      (simp_all add: row_of_fact_def fact_pk_def)
qed

text \<open>
  C32. The two facts of an ask order have the same id. Written to a ledger without rows of its transaction,
  the second replaces the first: one row remains whose kind column says \<open>order-created\<close> and whose fact is the
  \<open>listing-created\<close> one. No \<open>order-created\<close> fact of the ask is stored.
\<close>

theorem ask_loses_creation_fact:
  assumes "handle_orderbook lib ts cx de s = Inr s'" "de_name de = ''OrderCreated''"
    and "js_number (map_of (de_args de) ''side'') = Some 1"
    and "each_row (insert_fact c) (drop (length (fs_facts s)) (fs_facts s')) db = Inr db'"
    and "list_all (\<lambda>r. ft_transactionHash r \<noteq> ev_transactionHash (de_event de)) (pg_facts db)"
  shows "\<exists>r rest. pg_facts db' = pg_facts db @ r # rest \<and> ft_kind r = FK_order_created \<and>
    lf_kind (ft_fact r) = FK_listing_created \<and> list_all (\<lambda>x. lf_kind (ft_fact x) = FK_coverage_gap) rest"
proof -
  obtain f g gs d d' where fg: "fs_facts s' = fs_facts s @ f # g # gs" "lf_kind f = FK_order_created"
    "lf_kind g = FK_listing_created" "lf_factIndex f = 0" "lf_factIndex g = 0" "fact_of lib ts (de_event de) d = Inr f"
    "fact_of lib ts (de_event de) d' = Inr g" and gs: "length gs \<le> 1"
    "list_all (\<lambda>g. lf_kind g = FK_coverage_gap \<and> lf_factIndex g = 999 \<and>
       lf_transactionHash g = ev_transactionHash (de_event de)) gs"
    by (rule ask_facts [OF assms(1-3)]) (rule that)
  note p = fact_of_position [OF fg(6)] fact_of_position [OF fg(7)]
  obtain u v where u: "insert_fact c f db = Inr u" and v: "insert_fact c g u = Inr v"
    and t: "each_row (insert_fact c) gs v = Inr db'"
    using assms(4) fg(1) by auto
  have pk: "fact_pk (row_of_fact c f) = fact_pk (row_of_fact c g)"
    using p fg(4,5) by (simp add: row_of_fact_def fact_pk_def)
  have new: "list_all (\<lambda>r. fact_pk r \<noteq> fact_pk (row_of_fact c x)) (pg_facts db)"
    if "lf_transactionHash x = ev_transactionHash (de_event de)" for x
    using assms(5) that by (auto simp: list_all_iff fact_pk_def row_of_fact_def)
  have "pg_facts u = pg_facts db @ [row_of_fact c f]" by (rule insert_fact_new [OF u new]) (use p in simp)
  from insert_fact_again [OF v this pk new] p obtain r where r: "pg_facts v = pg_facts db @ [r]" "ft_kind r = lf_kind f"
    "ft_fact r = g" "fact_pk r = fact_pk (row_of_fact c g)" by auto
  show ?thesis
  proof (cases gs)
    case Nil
    then show ?thesis using t r fg by simp
  next
    case (Cons h hs)
    then have h: "insert_fact c h v = Inr db'" "lf_kind h = FK_coverage_gap" "lf_factIndex h = 999"
      "lf_transactionHash h = ev_transactionHash (de_event de)" using t gs by auto
    have "fact_pk r \<noteq> fact_pk (row_of_fact c h)" using r(4) fg(5) h(3) by (simp add: row_of_fact_def fact_pk_def)
    then have "list_all (\<lambda>x. fact_pk x \<noteq> fact_pk (row_of_fact c h)) (pg_facts v)" using new [OF h(4)] r(1) by simp
    from insert_fact_new [OF h(1) this] r fg(2,3) h(2) show ?thesis by (simp add: row_of_fact_def)
  qed
qed

text \<open>The ask of a market that is known, in block 5, without the transfer into the escrow.\<close>

definition ask_sample :: decoded where
  "ask_sample = \<lparr>de_event = pg_event (pg_hash ''a'') 5 0 ''0xm'' ''ask'', de_name = ''OrderCreated'',
     de_args = (case pg_decode [] [] ''ask'' of Inl _ \<Rightarrow> [] | Inr r \<Rightarrow> snd r)\<rparr>"

definition ask_context :: fin_context where
  "ask_context = \<lparr>fc_deployment = en_deployment pg_env, fc_markets = [], fc_listings = [], fc_orders = [], fc_tracked = []\<rparr>"

definition ask_db :: pg_db where "ask_db = empty_db\<lparr>pg_blocks := [pg_block (pg_hash ''a'') 5]\<rparr>"

lemma ask_run:
  "case handle_orderbook pg_lib [(5, 5)] ask_context ask_sample \<lparr>fs_movements = [], fs_facts = []\<rparr> of Inl _ \<Rightarrow> False
   | Inr s \<Rightarrow> (case each_row (insert_fact 1) (fs_facts s) ask_db of Inl _ \<Rightarrow> False | Inr t \<Rightarrow> length (pg_facts t) = 2) \<and>
       de_name ask_sample = ''OrderCreated'' \<and> js_number (map_of (de_args ask_sample) ''side'') = Some 1 \<and> pg_facts ask_db = []"
  by code_simp

theorem ask_loses_creation_fact_witness:
  "\<exists>s t. handle_orderbook pg_lib [(5, 5)] ask_context ask_sample \<lparr>fs_movements = [], fs_facts = []\<rparr> = Inr s \<and>
     each_row (insert_fact 1) (fs_facts s) ask_db = Inr t \<and> map ft_kind (take 1 (pg_facts t)) = [FK_order_created] \<and>
     map (\<lambda>r. lf_kind (ft_fact r)) (pg_facts t) = [FK_listing_created, FK_coverage_gap]"
proof -
  obtain s t where st: "handle_orderbook pg_lib [(5, 5)] ask_context ask_sample \<lparr>fs_movements = [], fs_facts = []\<rparr> = Inr s"
    "each_row (insert_fact 1) (fs_facts s) ask_db = Inr t" "length (pg_facts t) = 2"
    "de_name ask_sample = ''OrderCreated''" "js_number (map_of (de_args ask_sample) ''side'') = Some 1" "pg_facts ask_db = []"
    using ask_run by (auto split: sum.splits)
  obtain r rest where r: "pg_facts t = r # rest" "ft_kind r = FK_order_created" "lf_kind (ft_fact r) = FK_listing_created"
    "list_all (\<lambda>x. lf_kind (ft_fact x) = FK_coverage_gap) rest"
    using ask_loses_creation_fact [OF st(1,4,5), of 1 ask_db t] st(2,6) by auto
  have "length rest = 1" using st(3) r(1) by simp
  then obtain x where "rest = [x]" by (auto simp: length_Suc_conv)
  then show ?thesis using st(1,2) r by (intro exI [of _ s] exI [of _ t]) simp
qed


section \<open>Replay\<close>

lemma replay_ranges_length: "int (length (replay_ranges x y)) = (if y < x then 0 else (y - x) div 500 + 1)"
proof (induction x y rule: replay_ranges.induct)
  case (1 x y)
  have "y < x + 500 \<Longrightarrow> \<not> y < x \<Longrightarrow> (y - x) div 500 = 0" by simp
  then show ?case using 1 by (subst replay_ranges.simps) (auto simp: div_pos_geq)
qed

lemma replay_ranges_cover: "concat (map (\<lambda>(a, b). [a..b]) (replay_ranges x y)) = [x..y]"
proof (induction x y rule: replay_ranges.induct)
  case (1 x y)
  have "x + 499 < y \<Longrightarrow> [x..y] = [x..x + 499] @ [x + 500..y]" using upto_split2 [of x "x + 499" y] by (simp add: add.assoc)
  then show ?case using 1 by (subst replay_ranges.simps) auto
qed

lemma replay_ranges_small: "list_all (\<lambda>(a, b). a \<le> b \<and> b < a + 500) (replay_ranges x y)"
proof (induction x y rule: replay_ranges.induct)
  case (1 x y)
  then show ?case by (subst replay_ranges.simps) auto
qed

text \<open>
  C30. A replay of the ledger terminates: its ranges cover the blocks from \<open>x\<close> to \<open>y\<close> once each and in order, hold
  at most 500 blocks each, and are as many as the length of the interval over 500, rounded up.
\<close>

theorem replay_ranges_partition:
  "concat (map (\<lambda>(a, b). [a..b]) (replay_ranges x y)) = [x..y] \<and>
   list_all (\<lambda>(a, b). a \<le> b \<and> b < a + 500) (replay_ranges x y) \<and>
   int (length (replay_ranges x y)) = (if y < x then 0 else (y - x) div 500 + 1)"
  using replay_ranges_cover replay_ranges_small replay_ranges_length by simp

end
