(* ===== verification/Rpc_Admission.thy ===== *)
theory Rpc_Admission
  imports Js_Prelude
begin

text \<open>
  offchain/app-service/src/rpc-admission.ts: the token buckets and the concurrency slots in front of the
  public RPC endpoints. JavaScript numbers are rationals, the clock (\<open>Date.now\<close>) is the \<open>now\<close> of each call
  in milliseconds, the parameters of a request are JSON. Metrics are left out.
\<close>

section \<open>Configuration\<close>

datatype admission_mode = Observe | Enforce

record admission_config =
  ac_mode :: admission_mode
  ac_perClientUnitsPerMinute :: int
  ac_globalUnitsPerMinute :: int
  ac_maxConcurrentCalls :: int

text \<open>\<open>rpcAdmissionConfigSchema\<close> and its defaults.\<close>

definition admission_config_ok :: "admission_config \<Rightarrow> bool" where
  "admission_config_ok c =
     (64 \<le> ac_perClientUnitsPerMinute c \<and> ac_perClientUnitsPerMinute c \<le> 1000000 \<and>
      64 \<le> ac_globalUnitsPerMinute c \<and> ac_globalUnitsPerMinute c \<le> 10000000 \<and>
      4 \<le> ac_maxConcurrentCalls c \<and> ac_maxConcurrentCalls c \<le> 1024 \<and>
      ac_perClientUnitsPerMinute c \<le> ac_globalUnitsPerMinute c)"

definition default_admission :: admission_config where
  "default_admission = \<lparr>ac_mode = Observe, ac_perClientUnitsPerMinute = 1200, ac_globalUnitsPerMinute = 12000,
     ac_maxConcurrentCalls = 64\<rparr>"

section \<open>The cost of a request\<close>

definition READ_METHODS :: "string list" where
  "READ_METHODS =
     [''eth_chainId'', ''net_version'', ''eth_blockNumber'', ''eth_gasPrice'', ''eth_maxPriorityFeePerGas'',
      ''eth_feeHistory'', ''eth_getBalance'', ''eth_getCode'', ''eth_getStorageAt'', ''eth_getTransactionCount'',
      ''eth_getProof'', ''eth_getBlockByNumber'', ''eth_getBlockByHash'', ''eth_getTransactionByHash'',
      ''eth_getTransactionReceipt'', ''eth_getBlockTransactionCountByHash'', ''eth_getBlockTransactionCountByNumber'',
      ''eth_getLogs'', ''eth_call'', ''eth_estimateGas'']"

fun json_truthy :: "json \<Rightarrow> bool" where
  "json_truthy JNull = False"
| "json_truthy (JBool b) = b"
| "json_truthy (JNum n) = (n \<noteq> 0)"
| "json_truthy (JStr s) = (s \<noteq> [])"
| "json_truthy (JArr _) = True"
| "json_truthy (JObj _) = True"

text \<open>A string matched by \<open>/^0x[0-9a-f]+$/i\<close>, read by BigInt.\<close>

definition hex_quantity :: "json option \<Rightarrow> int option" where
  "hex_quantity v =
     (case v of
        Some (JStr s) \<Rightarrow>
          if starts_with ''0x'' (toLowerCase s) then parse_radix 16 (drop 2 s) else None
      | _ \<Rightarrow> None)"

definition range_cost :: "int \<Rightarrow> int \<Rightarrow> int" where
  "range_cost first last_block =
     (if last_block < first then 256
      else let chunks = bigint_div (last_block - first) 100 + 1 in if 16 < chunks then 256 else chunks * 16)"

fun logs_cost :: "json list \<Rightarrow> int" where
  "logs_cost (JObj flt # _) =
     (if (case map_get flt ''blockHash'' of None \<Rightarrow> False | Some h \<Rightarrow> json_truthy h) then 16
      else case (hex_quantity (map_get flt ''fromBlock''), hex_quantity (map_get flt ''toBlock'')) of
             (Some first, Some last_block) \<Rightarrow> range_cost first last_block
           | _ \<Rightarrow> 256)"
| "logs_cost _ = 256"

definition cost :: "string \<Rightarrow> json list \<Rightarrow> int" where
  "cost method params =
     (if method \<notin> set READ_METHODS then 8
      else if method = ''eth_getLogs'' then logs_cost params
      else if method = ''eth_estimateGas'' then 8
      else if method = ''eth_call'' \<or> method = ''eth_feeHistory'' then 4
      else if starts_with ''eth_getBlock'' method \<or> starts_with ''eth_getTransaction'' method \<or>
              starts_with ''eth_getProof'' method then 2
      else 1)"

type_synonym rpc_call = "string \<times> json list"

definition calls_units :: "rpc_call list \<Rightarrow> int" where
  "calls_units calls = fold (\<lambda>(m, p) n. n + cost m p) calls 0"

section \<open>Admission\<close>

record bucket =
  bk_tokens :: rat
  bk_updatedAt :: int

text \<open>
  \<open>ra_leases\<close> holds what the \<open>release\<close> functions handed out so far closed over: the slots of each and whether
  it was called.
\<close>

record rpc_admission =
  ra_clients :: "(string, bucket) jsmap"
  ra_global :: bucket
  ra_inFlight :: int
  ra_leases :: "(int \<times> bool) list"

definition new_admission :: "admission_config \<Rightarrow> int \<Rightarrow> rpc_admission" where
  "new_admission c now =
     \<lparr>ra_clients = [], ra_global = \<lparr>bk_tokens = of_int (ac_globalUnitsPerMinute c), bk_updatedAt = now\<rparr>,
      ra_inFlight = 0, ra_leases = []\<rparr>"

text \<open>The bucket of a client becomes the youngest; a new one may push out the oldest.\<close>

definition clientBucket :: "admission_config \<Rightarrow> string \<Rightarrow> int \<Rightarrow> (string, bucket) jsmap \<Rightarrow> bucket \<times> (string, bucket) jsmap" where
  "clientBucket c client now m =
     (case map_get m client of
        Some b \<Rightarrow> (b, map_set client b (AList.delete client m))
      | None \<Rightarrow>
          let kept = (if 4096 \<le> length m then AList.delete (fst (hd m)) m else m);
              b = \<lparr>bk_tokens = of_int (ac_perClientUnitsPerMinute c), bk_updatedAt = now\<rparr>
          in (b, map_set client b kept))"

definition refill :: "int \<Rightarrow> int \<Rightarrow> bucket \<Rightarrow> bucket" where
  "refill capacity now b =
     \<lparr>bk_tokens = min (of_int capacity) (bk_tokens b + of_int (max 0 (now - bk_updatedAt b)) * of_int capacity / 60000),
      bk_updatedAt = now\<rparr>"

definition spend :: "int \<Rightarrow> bucket \<Rightarrow> bucket" where
  "spend units b = b\<lparr>bk_tokens := max 0 (bk_tokens b - of_int units)\<rparr>"

datatype admission_reason = ConcurrencyLimit | ClientBudget | GlobalBudget

datatype decision =
    Allowed "admission_reason option" "nat option"
  | Rejected admission_reason

text \<open>
  \<open>enter\<close>. The decision names the index of its release function among the leases; an empty request has none.
  A rejected request has refilled the buckets and moved the client's.
\<close>

definition enter ::
  "admission_config \<Rightarrow> string \<Rightarrow> rpc_call list \<Rightarrow> int \<Rightarrow> int \<Rightarrow> rpc_admission \<Rightarrow> decision \<times> rpc_admission" where
  "enter c client calls slots now s =
     (if calls = [] then (Allowed None None, s)
      else
        let (found, clients) = clientBucket c client now (ra_clients s);
            mine = refill (ac_perClientUnitsPerMinute c) now found;
            global = refill (ac_globalUnitsPerMinute c) now (ra_global s);
            units = calls_units calls;
            reason = (if ac_maxConcurrentCalls c < ra_inFlight s + slots then Some ConcurrencyLimit
                      else if bk_tokens mine < of_int units then Some ClientBudget
                      else if bk_tokens global < of_int units then Some GlobalBudget
                      else None)
        in case reason of
             Some r \<Rightarrow>
               if ac_mode c = Enforce
               then (Rejected r, s\<lparr>ra_clients := map_set client mine clients, ra_global := global\<rparr>)
               else (Allowed (Some r) (Some (length (ra_leases s))),
                     s\<lparr>ra_clients := map_set client (spend units mine) clients, ra_global := spend units global,
                       ra_inFlight := ra_inFlight s + slots, ra_leases := ra_leases s @ [(slots, False)]\<rparr>)
           | None \<Rightarrow> (Allowed None (Some (length (ra_leases s))),
               s\<lparr>ra_clients := map_set client (spend units mine) clients, ra_global := spend units global,
                 ra_inFlight := ra_inFlight s + slots, ra_leases := ra_leases s @ [(slots, False)]\<rparr>))"

definition default_slots :: "rpc_call list \<Rightarrow> int" where
  "default_slots calls = min 4 (int (length calls))"

definition release :: "nat \<Rightarrow> rpc_admission \<Rightarrow> rpc_admission" where
  "release i s =
     (if length (ra_leases s) \<le> i \<or> snd (ra_leases s ! i) then s
      else s\<lparr>ra_inFlight := ra_inFlight s - fst (ra_leases s ! i),
             ra_leases := (ra_leases s)[i := (fst (ra_leases s ! i), True)]\<rparr>)"

section \<open>Runs\<close>

datatype admission_step = Enter string "rpc_call list" int | Release nat

text \<open>What one step at a time does, and the units it admits.\<close>

fun admission_run :: "admission_config \<Rightarrow> (int \<times> admission_step) list \<Rightarrow> rpc_admission \<Rightarrow> int \<times> rpc_admission" where
  "admission_run c [] s = (0, s)"
| "admission_run c ((now, Enter client calls slots) # steps) s =
     (case enter c client calls slots now s of
        (Allowed _ _, t) \<Rightarrow> (case admission_run c steps t of (n, u) \<Rightarrow> (calls_units calls + n, u))
      | (Rejected _, t) \<Rightarrow> admission_run c steps t)"
| "admission_run c ((now, Release i) # steps) s = admission_run c steps (release i s)"

fun enter_ok :: "admission_step \<Rightarrow> bool" where
  "enter_ok (Enter _ _ slots) = (0 \<le> slots)"
| "enter_ok (Release _) = True"

section \<open>Costs\<close>

lemma parse_radix_nonneg: "parse_radix b s = Some n \<Longrightarrow> 0 \<le> n"
  by (auto simp: parse_radix_def split: if_splits)

lemma range_cost_bounds: "1 \<le> range_cost first last_block \<and> range_cost first last_block \<le> 256"
  by (auto simp: range_cost_def Let_def bigint_div_nonneg pos_imp_zdiv_nonneg_iff)

lemma logs_cost_bounds: "1 \<le> logs_cost params \<and> logs_cost params \<le> 256"
  using range_cost_bounds by (cases params rule: logs_cost.cases) (auto split: option.splits)

lemma cost_bounds: "1 \<le> cost m p \<and> cost m p \<le> 256"
  using logs_cost_bounds by (simp add: cost_def)

lemma fold_cost: "fold (\<lambda>(m, p) n. n + cost m p) calls n = n + sum_list (map (\<lambda>(m, p). cost m p) calls)"
  by (induction calls arbitrary: n) auto

lemma calls_units_Cons: "calls_units ((m, p) # calls) = cost m p + calls_units calls"
  by (simp add: calls_units_def fold_cost)

lemma units_bounds: "int (length calls) \<le> calls_units calls \<and> calls_units calls \<le> 256 * int (length calls)"
proof (induction calls)
  case (Cons x calls)
  then show ?case using cost_bounds [of "fst x" "snd x"] by (cases x) (auto simp: calls_units_Cons)
qed (simp add: calls_units_def)

lemma units_nonneg: "0 \<le> calls_units calls"
  using units_bounds [of calls] by linarith

section \<open>The buckets and the slots\<close>

definition bucket_ok :: "int \<Rightarrow> bucket \<Rightarrow> bool" where
  "bucket_ok capacity b = (0 \<le> bk_tokens b \<and> bk_tokens b \<le> of_int capacity)"

definition held_slots :: "rpc_admission \<Rightarrow> int" where
  "held_slots s = sum_list (map (\<lambda>(n, released). if released then 0 else n) (ra_leases s))"

definition admission_ok :: "admission_config \<Rightarrow> rpc_admission \<Rightarrow> bool" where
  "admission_ok c s =
     (distinct (map fst (ra_clients s)) \<and> length (ra_clients s) \<le> 4096 \<and>
      list_all (\<lambda>p. bucket_ok (ac_perClientUnitsPerMinute c) (snd p)) (ra_clients s) \<and>
      bucket_ok (ac_globalUnitsPerMinute c) (ra_global s) \<and>
      list_all (\<lambda>p. 0 \<le> fst p) (ra_leases s) \<and> ra_inFlight s = held_slots s \<and>
      (if ac_mode c = Enforce then ra_inFlight s \<le> ac_maxConcurrentCalls c else True))"

lemma refill_ok: "bucket_ok n b \<Longrightarrow> 0 \<le> n \<Longrightarrow> bucket_ok n (refill n now b)"
  by (simp add: bucket_ok_def refill_def)

lemma spend_ok: "bucket_ok n b \<Longrightarrow> 0 \<le> u \<Longrightarrow> bucket_ok n (spend u b)"
  by (auto simp: bucket_ok_def spend_def)

definition clients_ok :: "admission_config \<Rightarrow> (string, bucket) jsmap \<Rightarrow> bool" where
  "clients_ok c m = (distinct (map fst m) \<and> length m \<le> 4096 \<and>
     list_all (\<lambda>p. bucket_ok (ac_perClientUnitsPerMinute c) (snd p)) m)"

lemma update_length: "length (AList.update k v m) = (if k \<in> fst ` set m then length m else Suc (length m))"
  by (induction m) auto

lemma clients_update:
  "clients_ok c m \<Longrightarrow> bucket_ok (ac_perClientUnitsPerMinute c) b \<Longrightarrow> k \<in> fst ` set m \<or> length m < 4096 \<Longrightarrow>
     clients_ok c (map_set k b m)"
  by (auto simp: clients_ok_def list_all_iff update_length distinct_update intro!: Suc_leI dest!: in_set_update)

lemma clients_delete: "clients_ok c m \<Longrightarrow> clients_ok c (AList.delete k m)"
  by (auto simp: clients_ok_def AList.delete_eq list_all_iff distinct_map_filter intro: le_trans [OF length_filter_le])

lemma delete_shorter: "k \<in> fst ` set m \<Longrightarrow> length (AList.delete k m) < length m"
proof -
  assume "k \<in> fst ` set m"
  then obtain v where "(k, v) \<in> set m" by auto
  then show ?thesis unfolding AList.delete_eq by (rule length_filter_less) simp
qed

lemma clientBucket_ok:
  assumes "clientBucket c client now m = (b, m')" "clients_ok c m" "0 \<le> ac_perClientUnitsPerMinute c"
  shows "clients_ok c m' \<and> bucket_ok (ac_perClientUnitsPerMinute c) b \<and> client \<in> fst ` set m'"
proof (cases "map_get m client")
  case (Some b')
  have old: "bucket_ok (ac_perClientUnitsPerMinute c) b'"
    using map_of_SomeD [OF Some] assms(2) by (auto simp: clients_ok_def list_all_iff)
  have "client \<in> fst ` set m" using map_of_SomeD [OF Some] by force
  then have "length (AList.delete client m) < 4096" using delete_shorter assms(2) by (fastforce simp: clients_ok_def)
  then have "clients_ok c (map_set client b' (AList.delete client m))"
    by (intro clients_update clients_delete assms(2) old) simp
  then show ?thesis using assms(1) Some old by (auto simp: clientBucket_def dom_update)
next
  case None
  let ?kept = "if 4096 \<le> length m then AList.delete (fst (hd m)) m else m"
  have new: "bucket_ok (ac_perClientUnitsPerMinute c) \<lparr>bk_tokens = of_int (ac_perClientUnitsPerMinute c), bk_updatedAt = now\<rparr>"
    using assms(3) by (simp add: bucket_ok_def)
  have "length ?kept < 4096"
  proof (cases "4096 \<le> length m")
    case True
    then have "fst (hd m) \<in> fst ` set m" by (cases m) auto
    then have "length (AList.delete (fst (hd m)) m) < length m" by (rule delete_shorter)
    then show ?thesis using True assms(2) by (simp add: clients_ok_def)
  qed simp
  moreover have "clients_ok c ?kept" using assms(2) clients_delete by auto
  ultimately have "clients_ok c (map_set client \<lparr>bk_tokens = of_int (ac_perClientUnitsPerMinute c), bk_updatedAt = now\<rparr> ?kept)"
    using new by (intro clients_update) auto
  then show ?thesis using assms(1) None new by (auto simp: clientBucket_def Let_def dom_update)
qed

lemma held_slots_add: "held_slots (s\<lparr>ra_clients := m, ra_global := g, ra_inFlight := n, ra_leases := ra_leases s @ [(k, False)]\<rparr>) = held_slots s + k"
  by (simp add: held_slots_def)

text \<open>What \<open>enter\<close> does, by its three ends.\<close>

lemma enter_cases:
  assumes "enter c client calls slots now s = (d, t)" "calls \<noteq> []"
  obtains (rejected) r found m where "d = Rejected r" "ac_mode c = Enforce" "clientBucket c client now (ra_clients s) = (found, m)"
      "t = s\<lparr>ra_clients := map_set client (refill (ac_perClientUnitsPerMinute c) now found) m,
             ra_global := refill (ac_globalUnitsPerMinute c) now (ra_global s)\<rparr>"
  | (allowed) r i found m where "d = Allowed r i" "clientBucket c client now (ra_clients s) = (found, m)"
      "t = s\<lparr>ra_clients := map_set client (spend (calls_units calls) (refill (ac_perClientUnitsPerMinute c) now found)) m,
             ra_global := spend (calls_units calls) (refill (ac_globalUnitsPerMinute c) now (ra_global s)),
             ra_inFlight := ra_inFlight s + slots, ra_leases := ra_leases s @ [(slots, False)]\<rparr>"
      "ac_mode c = Enforce \<Longrightarrow> ra_inFlight s + slots \<le> ac_maxConcurrentCalls c"
      "ac_mode c = Enforce \<Longrightarrow> of_int (calls_units calls) \<le> bk_tokens (refill (ac_perClientUnitsPerMinute c) now found)"
      "ac_mode c = Enforce \<Longrightarrow> of_int (calls_units calls) \<le> bk_tokens (refill (ac_globalUnitsPerMinute c) now (ra_global s))"
proof -
  obtain found m where cb: "clientBucket c client now (ra_clients s) = (found, m)" by (cases "clientBucket c client now (ra_clients s)")
  show thesis
  proof (cases d)
    case (Rejected r)
    then show ?thesis using assms cb
      by (intro rejected [OF Rejected _ cb]) (auto simp: enter_def Let_def split: if_splits)
  next
    case (Allowed r i)
    then show ?thesis using assms cb
      by (intro allowed [OF Allowed cb]) (auto simp: enter_def Let_def split: if_splits)
  qed
qed

lemma enter_keeps:
  assumes run: "enter c client calls slots now s = (d, t)" and ok: "admission_ok c s" "admission_config_ok c" "0 \<le> slots"
  shows "admission_ok c t"
proof (cases "calls = []")
  case True
  then show ?thesis using run ok(1) by (simp add: enter_def)
next
  case False
  have cap: "0 \<le> ac_perClientUnitsPerMinute c" "0 \<le> ac_globalUnitsPerMinute c"
    using ok(2) by (simp_all add: admission_config_ok_def)
  have parts: "clients_ok c (ra_clients s)" "bucket_ok (ac_globalUnitsPerMinute c) (ra_global s)"
    using ok(1) by (simp_all add: admission_ok_def clients_ok_def)
  note g = refill_ok [OF parts(2) cap(2), of now]
  from run False show ?thesis
  proof (cases rule: enter_cases)
    case (rejected r found m)
    note cb = clientBucket_ok [OF rejected(3) parts(1) cap(1)]
    have "clients_ok c (ra_clients t)" using cb refill_ok [OF _ cap(1)] by (simp add: rejected(4) clients_update)
    then show ?thesis using ok(1) g by (auto simp: admission_ok_def clients_ok_def rejected(4) held_slots_def)
  next
    case (allowed r i found m)
    note cb = clientBucket_ok [OF allowed(2) parts(1) cap(1)]
    have "clients_ok c (ra_clients t)"
      using cb refill_ok [OF _ cap(1)] spend_ok [OF _ units_nonneg] by (simp add: allowed(3) clients_update)
    then show ?thesis
      using ok g allowed(4) spend_ok [OF g units_nonneg]
      by (auto simp: admission_ok_def clients_ok_def allowed(3) held_slots_add)
  qed
qed

lemma sum_list_set: "i < length xs \<Longrightarrow> sum_list (xs[i := x]) = sum_list xs - xs ! i + (x :: int)"
  by (induction xs arbitrary: i) (auto split: nat.splits)

lemma release_keeps:
  assumes "admission_ok c s"
  shows "admission_ok c (release i s)"
proof (cases "length (ra_leases s) \<le> i \<or> snd (ra_leases s ! i)")
  case False
  then obtain n where i: "i < length (ra_leases s)" "ra_leases s ! i = (n, False)" by (cases "ra_leases s ! i") auto
  have "sum_list (map (\<lambda>(n, released). if released then 0 else n) ((ra_leases s)[i := (n, True)])) =
      sum_list (map (\<lambda>(n, released). if released then 0 else n) (ra_leases s)) - n"
    using i by (simp add: map_update sum_list_set)
  moreover have "0 \<le> n" using assms i nth_mem [OF i(1)] by (auto simp: admission_ok_def list_all_iff)
  moreover have "list_all (\<lambda>p. 0 \<le> fst p) ((ra_leases s)[i := (n, True)])"
    using assms \<open>0 \<le> n\<close> set_update_subset_insert [of "ra_leases s" i "(n, True)"] by (auto simp: admission_ok_def list_all_iff)
  ultimately show ?thesis using assms i False by (auto simp: release_def admission_ok_def held_slots_def)
qed (use assms in \<open>simp add: release_def\<close>)

lemma run_keeps:
  "admission_run c steps s = (n, t) \<Longrightarrow> admission_config_ok c \<Longrightarrow> list_all (\<lambda>p. enter_ok (snd p)) steps \<Longrightarrow>
     admission_ok c s \<Longrightarrow> admission_ok c t"
proof (induction c steps s arbitrary: n t rule: admission_run.induct)
  case (2 c now client calls slots steps s)
  obtain d u where e: "enter c client calls slots now s = (d, u)" by (cases "enter c client calls slots now s")
  have "admission_ok c u" using enter_keeps [OF e] 2 by simp
  then show ?case using 2 e by (auto split: decision.splits prod.splits)
qed (auto dest: release_keeps)

lemma new_admission_ok: "admission_config_ok c \<Longrightarrow> admission_ok c (new_admission c now)"
  by (simp add: admission_ok_def new_admission_def admission_config_ok_def bucket_ok_def held_slots_def)

text \<open>
  Whatever requests come and however often their release functions are called, every bucket holds between
  no tokens and its capacity, at most 4096 clients are remembered, the slots in flight are exactly those of the
  leases not released, and in enforce mode they stay within the configured bound.
\<close>

theorem admission_bounded:
  assumes "admission_config_ok c" "list_all (\<lambda>p. enter_ok (snd p)) steps"
    and "admission_run c steps (new_admission c start) = (n, s)"
  shows "admission_ok c s"
  using run_keeps [OF assms(3,1,2)] new_admission_ok [OF assms(1)] by simp

section \<open>The rate\<close>

lemma enter_rate:
  assumes "enter c client calls slots now s = (d, t)" "ac_mode c = Enforce" "bk_updatedAt (ra_global s) \<le> now"
    "bucket_ok (ac_globalUnitsPerMinute c) (ra_global s)" "0 \<le> ac_globalUnitsPerMinute c"
  shows "of_int (case d of Allowed _ _ \<Rightarrow> calls_units calls | Rejected _ \<Rightarrow> 0) + bk_tokens (ra_global t) \<le>
    bk_tokens (ra_global s) + of_int (bk_updatedAt (ra_global t) - bk_updatedAt (ra_global s)) * of_int (ac_globalUnitsPerMinute c) / 60000 \<and>
    bk_updatedAt (ra_global s) \<le> bk_updatedAt (ra_global t) \<and> bk_updatedAt (ra_global t) \<le> now"
proof (cases "calls = []")
  case True
  then show ?thesis using assms by (auto simp: enter_def calls_units_def)
next
  case False
  from assms(1) False show ?thesis
  proof (cases rule: enter_cases)
    case (rejected r found m)
    then show ?thesis using assms(3) by (simp add: refill_def)
  next
    case (allowed r i found m)
    then show ?thesis using assms(2,3) by (simp add: refill_def spend_def)
  qed
qed

lemma run_rate:
  assumes "admission_run c steps s = (n, t)" "ac_mode c = Enforce" "admission_config_ok c"
    "list_all (\<lambda>p. enter_ok (snd p)) steps" "sorted (bk_updatedAt (ra_global s) # map fst steps @ [last_time])" "admission_ok c s"
  shows "of_int n + bk_tokens (ra_global t) \<le>
    bk_tokens (ra_global s) + of_int (last_time - bk_updatedAt (ra_global s)) * of_int (ac_globalUnitsPerMinute c) / 60000"
  using assms
proof (induction c steps s arbitrary: n t rule: admission_run.induct)
  case (1 c s)
  then show ?case by (simp add: admission_config_ok_def)
next
  case (2 c now client calls slots steps s)
  obtain d u where e: "enter c client calls slots now s = (d, u)" by (cases "enter c client calls slots now s")
  let ?spent = "case d of Allowed _ _ \<Rightarrow> calls_units calls | Rejected _ \<Rightarrow> 0"
  obtain k where k: "admission_run c steps u = (k, t)" "n = ?spent + k"
    using "2.prems"(1) e by (cases d) (auto split: prod.splits)
  have ok: "admission_ok c u" using enter_keeps [OF e] "2.prems" by simp
  have rate: "of_int ?spent + bk_tokens (ra_global u) \<le> bk_tokens (ra_global s) +
      of_int (bk_updatedAt (ra_global u) - bk_updatedAt (ra_global s)) * of_int (ac_globalUnitsPerMinute c) / 60000"
    and now: "bk_updatedAt (ra_global u) \<le> now"
    using enter_rate [OF e "2.prems"(2)] "2.prems"(3,5,6) by (auto simp: admission_ok_def admission_config_ok_def)
  have later: "sorted (bk_updatedAt (ra_global u) # map fst steps @ [last_time])"
    using "2.prems"(5) now by (auto intro: order_trans)
  have ih: "of_int k + bk_tokens (ra_global t) \<le> bk_tokens (ra_global u) +
      of_int (last_time - bk_updatedAt (ra_global u)) * of_int (ac_globalUnitsPerMinute c) / 60000"
  proof (cases d)
    case (Allowed r i)
    from "2.IH"(1) [OF e [symmetric] Allowed k(1) "2.prems"(2,3) _ later ok] "2.prems"(4) show ?thesis by simp
  next
    case (Rejected r)
    from "2.IH"(2) [OF e [symmetric] Rejected k(1) "2.prems"(2,3) _ later ok] "2.prems"(4) show ?thesis by simp
  qed
  show ?case using rate ih by (simp add: k(2) field_simps)
next
  case (3 c now i steps s)
  have "ra_global (release i s) = ra_global s" by (simp add: release_def)
  then show ?case using 3 release_keeps [of c s i] by auto
qed


text \<open>A request for the logs of a block is admitted, a request for all logs is not, and a release called twice counts once.\<close>

definition small_admission :: admission_config where
  "small_admission = \<lparr>ac_mode = Enforce, ac_perClientUnitsPerMinute = 64, ac_globalUnitsPerMinute = 64, ac_maxConcurrentCalls = 4\<rparr>"

definition admission_steps :: "(int \<times> admission_step) list" where
  "admission_steps =
     [(0, Enter ''a'' [(''eth_getLogs'', [JObj [(''blockHash'', JStr ''0x1'')]])] 4), (20, Release 0), (30, Release 0),
      (60, Enter ''a'' [(''eth_getLogs'', []), (''eth_chainId'', [])] 2)]"

lemma admission_sample:
  "admission_config_ok small_admission" "ac_mode small_admission = Enforce" "list_all (\<lambda>p. enter_ok (snd p)) admission_steps"
  "sorted (0 # map fst admission_steps @ [60])"
  by (simp_all add: admission_config_ok_def small_admission_def admission_steps_def)

lemma admission_sample_run:
  obtains s where "admission_run small_admission admission_steps (new_admission small_admission 0) = (16, s)" "ra_inFlight s = 0"
    "ra_leases s = [(4, True)]"
  by (simp add: admission_steps_def small_admission_def new_admission_def enter_def clientBucket_def refill_def spend_def
      release_def calls_units_def cost_def READ_METHODS_def Let_def)

theorem admission_bounded_witness:
  "\<exists>s. admission_run small_admission admission_steps (new_admission small_admission 0) = (16, s) \<and> ra_inFlight s = 0 \<and>
     admission_ok small_admission s"
proof -
  obtain s where r: "admission_run small_admission admission_steps (new_admission small_admission 0) = (16, s)" "ra_inFlight s = 0"
    by (rule admission_sample_run) (rule that)
  show ?thesis using r admission_bounded [OF admission_sample(1,3) r(1)] by blast
qed


end
