(* ===== verification/Business_Calls.thy ===== *)
theory Business_Calls
  imports App_Store Evidence
begin

text \<open>
  offchain/app-core/src/calls.ts: the account calls of a business intent. A call is its target and the method it
  encodes (\<open>method_call\<close>); viem's encodeFunctionData, isAddress, getAddress and parseSignature are the
  parameters of \<open>calls_lib\<close>, the chain reader is a record of functions. The deployment and the refinements of
  \<open>environmentSchema\<close> and \<open>siteConfigSchema\<close> are from contracts.ts, the receive call from usdc.ts.
\<close>

section \<open>Deployments and environments\<close>

datatype marketplace_version = FixedV1 | OrderbookV2

record site_deployment =
  sd_id :: string
  sd_protocolVersion :: "protocol_version option"
  sd_marketplaceVersion :: "marketplace_version option"
  sd_orderbookReceiverRecovery :: "bool option"
  sd_orderbookFillPolicyVersion :: "nat option"
  sd_manifestHash :: string
  sd_chainId :: int
  sd_factory :: string
  sd_marketplace :: string
  sd_bondEscrow :: string
  sd_feeVault :: string
  sd_paymentToken :: string

datatype asset = CtUSD | USDC

record site_account =
  sa_index :: string
  sa_kernelVersion :: string

record site_services =
  ss_app :: string
  ss_indexer :: string
  ss_metadata :: string
  ss_rpc :: string

record site_features =
  sf_newExposure :: bool
  sf_faucet :: bool
  sf_sponsorship :: bool
  sf_gaslessDeposit :: "bool option"

record site_environment =
  se_id :: string
  se_historical :: "bool option"
  se_asset :: asset
  se_decimals :: nat
  se_deployment :: site_deployment
  se_account :: site_account
  se_services :: site_services
  se_privyAppId :: string
  se_quickTrading :: "quick_trading option"
  se_walletConnectProjectId :: "string option"
  se_features :: site_features

definition USDC_ADDRESS :: string where
  "USDC_ADDRESS = ''0x75faf114eafb1BDbe2F0316DF893fd58CE46AA4d''"

text \<open>The refinement of \<open>environmentSchema\<close>.\<close>

definition environment_refined :: "site_environment \<Rightarrow> bool" where
  "environment_refined v =
     (let f = se_features v; historical = (se_historical v = Some True); quick = (map_option qt_enabled (se_quickTrading v) = Some True);
          gasless = (sf_gaslessDeposit f = Some True) in
      \<not> (historical \<and> (sf_newExposure f \<or> sf_faucet f \<or> quick)) \<and>
      \<not> (quick \<and> se_asset v \<noteq> CtUSD) \<and>
      \<not> (gasless \<and> (se_asset v \<noteq> USDC \<or> sa_index (se_account v) \<noteq> ''1002'')) \<and>
      \<not> (se_asset v = USDC \<and> \<not> sameAddress (sd_paymentToken (se_deployment v)) USDC_ADDRESS) \<and>
      \<not> (se_asset v = USDC \<and> sf_faucet f))"

text \<open>\<open>siteConfigSchema\<close>: the loop over the current environments, with the names seen so far.\<close>

definition account_key :: "site_environment \<Rightarrow> string" where
  "account_key e = dec (sd_chainId (se_deployment e)) @ '':'' @ sa_index (se_account e) @ '':'' @ sa_kernelVersion (se_account e)"

record seen_names =
  sn_ids :: "string list"
  sn_accounts :: "string list"
  sn_deployments :: "string list"
  sn_apps :: "string list"

definition current_step :: "site_environment \<Rightarrow> bool \<times> seen_names \<Rightarrow> bool \<times> seen_names" where
  "current_step e = (\<lambda>(ok, n).
     (ok \<and> \<not> (se_id e \<in> set (sn_ids n) \<or> account_key e \<in> set (sn_accounts n) \<or>
              sd_id (se_deployment e) \<in> set (sn_deployments n) \<or> se_privyAppId e \<in> set (sn_apps n)) \<and>
      se_historical e \<noteq> Some True,
      \<lparr>sn_ids = set_add (se_id e) (sn_ids n), sn_accounts = set_add (account_key e) (sn_accounts n),
       sn_deployments = set_add (sd_id (se_deployment e)) (sn_deployments n),
       sn_apps = set_add (se_privyAppId e) (sn_apps n)\<rparr>))"

definition service_paths :: "site_environment \<Rightarrow> string list" where
  "service_paths e = (let s = se_services e in [ss_app s, ss_indexer s, ss_metadata s, ss_rpc s])"

definition same_wallet :: "site_environment \<Rightarrow> site_environment \<Rightarrow> bool" where
  "same_wallet e a =
     (se_asset a = se_asset e \<and> sameAddress (sd_paymentToken (se_deployment a)) (sd_paymentToken (se_deployment e)) \<and>
      sd_chainId (se_deployment a) = sd_chainId (se_deployment e) \<and> se_decimals a = se_decimals e \<and>
      se_account a = se_account e \<and> se_privyAppId a = se_privyAppId e \<and>
      se_walletConnectProjectId a = se_walletConnectProjectId e)"

definition historical_step ::
  "site_environment list \<Rightarrow> site_environment \<Rightarrow> bool \<times> string list \<times> string list \<Rightarrow> bool \<times> string list \<times> string list" where
  "historical_step envs e = (\<lambda>(ok, ids, deployments).
     (ok \<and> se_historical e = Some True \<and>
      (case find (same_wallet e) envs of
         None \<Rightarrow> False
       | Some current \<Rightarrow>
           \<not> sameAddress (sd_factory (se_deployment current)) (sd_factory (se_deployment e)) \<and>
           \<not> list_ex (\<lambda>p. p \<in> set (service_paths current)) (service_paths e)) \<and>
      se_id e \<notin> set ids \<and> sd_id (se_deployment e) \<notin> set deployments,
      set_add (se_id e) ids, set_add (sd_id (se_deployment e)) deployments))"

definition site_config_ok :: "string option \<Rightarrow> site_environment list \<Rightarrow> site_environment list \<Rightarrow> bool" where
  "site_config_ok defaultEnvironment envs historical =
     (length envs \<le> 8 \<and> length historical \<le> 4 \<and> list_all environment_refined (envs @ historical) \<and>
      (let (ok, n) = fold current_step envs (True, \<lparr>sn_ids = [], sn_accounts = [], sn_deployments = [], sn_apps = []\<rparr>) in
       ok \<and> fst (fold (historical_step envs) historical (True, sn_ids n, sn_deployments n))) \<and>
      (case defaultEnvironment of None \<Rightarrow> True | Some d \<Rightarrow> list_ex (\<lambda>e. se_id e = d) envs))"

section \<open>Method calls\<close>

datatype method_call =
    Approve string int
  | SetApprovalForAll string bool
  | CreateOrderCall string nat nat nat nat nat bool
  | FillOrderCall nat nat nat nat nat
  | CancelOrderCall nat
  | ReleaseOrderCall nat
  | WithdrawOrderSharesCall nat string
  | ReceiveWithAuthorization receive_authorization int string string
  | MintCall string int
  | BuyCall nat nat nat nat nat
  | FillListingCall string nat nat nat nat
  | CreateListingCall string nat nat nat nat
  | CancelListingCall string
  | ReturnTerminalListing string
  | ResolveCall nat string
  | CreatorVoidCall string
  | VoidAfterDeadline
  | ClaimWinningsFor string
  | ClaimEarlyBirdFor string
  | RefundFor string
  | ClaimTimeoutBonusFor string
  | SettleBondCall string
  | ClaimFor string
  | TransferCall string int
  | CreateMarketCall create_params string
  | CreateMarketWithPlatformFees create_params string nat nat

type_synonym planned_call = "string \<times> method_call"

text \<open>\<open>parseSignature\<close> yields yParity, r and s.\<close>

record calls_lib =
  cl_isAddress :: "string \<Rightarrow> bool"
  cl_getAddress :: "string \<Rightarrow> string"
  cl_encode :: "method_call \<Rightarrow> string option"
  cl_signature :: "string \<Rightarrow> (int \<times> string \<times> string) option"

section \<open>The reader\<close>

record order_view =
  ov_market :: string
  ov_owner :: string
  ov_side :: int
  ov_outcomeId :: int
  ov_active :: bool
  ov_pendingShares :: "int option"
  ov_units :: "int option"
  ov_allowPartialFills :: "bool option"

record admission_listing =
  al_market :: string
  al_seller :: string
  al_active :: bool

record admission_reader =
  rd_registeredMarket :: "string \<Rightarrow> bool outcome"
  rd_order :: "(int \<Rightarrow> order_view outcome) option"
  rd_verifiedRules :: "string \<Rightarrow> bool outcome"
  rd_listing :: "string \<Rightarrow> admission_listing outcome"
  rd_creationPayment :: "create_params \<Rightarrow> int outcome"

section \<open>Fields of an intent\<close>

fun intent_market :: "business_intent \<Rightarrow> string option" where
  "intent_market (Buy m _ _ _ _ _) = Some m"
| "intent_market (CreateOrder m _ _ _ _ _ _) = Some m"
| "intent_market (CreateListing m _ _ _ _) = Some m"
| "intent_market (Resolve m _ _) = Some m"
| "intent_market (CreatorVoid m _) = Some m"
| "intent_market (VoidTimeout m) = Some m"
| "intent_market (ClaimWinner m) = Some m"
| "intent_market (ClaimEarlyBird m) = Some m"
| "intent_market (Refund m) = Some m"
| "intent_market (ClaimTimeoutBonus m) = Some m"
| "intent_market (SettleBond m) = Some m"
| "intent_market (SettleBondAndClaim m) = Some m"
| "intent_market _ = None"

fun intent_orderId :: "business_intent \<Rightarrow> nat option" where
  "intent_orderId (FillOrder i _ _ _ _ _) = Some i"
| "intent_orderId (CancelOrder i) = Some i"
| "intent_orderId (ReleaseOrder i) = Some i"
| "intent_orderId (WithdrawOrderShares i _) = Some i"
| "intent_orderId _ = None"

fun intent_listingId :: "business_intent \<Rightarrow> string option" where
  "intent_listingId (FillListing i _ _ _ _) = Some i"
| "intent_listingId (CancelListing i) = Some i"
| "intent_listingId (ReturnListing i) = Some i"
| "intent_listingId _ = None"

fun intent_deadline :: "business_intent \<Rightarrow> int option" where
  "intent_deadline (Buy _ _ _ _ _ t) = Some (int t)"
| "intent_deadline (FillOrder _ _ _ _ _ t) = Some (int t)"
| "intent_deadline (FillListing _ _ _ _ t) = Some (int t)"
| "intent_deadline _ = None"

text \<open>\<open>units\<close> and \<open>minUnits\<close>.\<close>

fun intent_units :: "business_intent \<Rightarrow> (int \<times> int) option" where
  "intent_units (Buy _ _ u n _ _) = Some (int u, int n)"
| "intent_units (FillOrder _ _ u n _ _) = Some (int u, int n)"
| "intent_units (FillListing _ u n _ _) = Some (int u, int n)"
| "intent_units _ = None"

section \<open>Checks\<close>

definition order_intent :: "business_intent \<Rightarrow> bool" where
  "order_intent i = (intent_kind i \<in> {OK_create_order, OK_fill_order, OK_cancel_order, OK_release_order, OK_withdraw_order_shares})"

definition check_order :: "site_deployment \<Rightarrow> string \<Rightarrow> business_intent \<Rightarrow> order_view \<Rightarrow> unit outcome" where
  "check_order d account i order =
     (let k = intent_kind i in
      outcome_bind
        (if k = OK_withdraw_order_shares
         then require (sd_orderbookReceiverRecovery d = Some True \<and> ov_side order = 1 \<and>
                sameAddress (ov_owner order) account \<and> ov_pendingShares order \<noteq> None \<and> ov_pendingShares order \<noteq> Some 0)
                (AppError ''order_shares_unavailable'' 409)
         else require (ov_active order) (AppError ''order_unavailable'' 409)) (\<lambda>_.
      outcome_bind
        (require (\<not> (k \<in> {OK_cancel_order, OK_release_order} \<and> \<not> sameAddress (ov_owner order) account))
           (AppError ''order_owner_mismatch'' 403)) (\<lambda>_.
      outcome_bind
        (if k = OK_fill_order \<and> sd_orderbookFillPolicyVersion d = Some 1
         then (case (ov_allowPartialFills order, ov_units order) of
                 (Some partial, Some units) \<Rightarrow>
                   require (\<not> (\<not> partial \<and> (case intent_units i of None \<Rightarrow> False | Some (u, n) \<Rightarrow> u \<noteq> units \<or> n \<noteq> units)))
                     (AppError ''whole_order_required'' 409)
               | _ \<Rightarrow> Inl (AppError ''orderbook_reader_unavailable'' 503))
         else Inr ()) (\<lambda>_.
      require (\<not> (k = OK_fill_order \<and> sameAddress (ov_owner order) account)) (AppError ''self_trade_not_sponsored'' 400)))))"

definition find_order ::
  "site_deployment \<Rightarrow> string \<Rightarrow> business_intent \<Rightarrow> admission_reader \<Rightarrow> order_view option outcome" where
  "find_order d account i reader =
     (if \<not> order_intent i then Inr None
      else if sd_marketplaceVersion d \<noteq> Some OrderbookV2 then Inl (AppError ''orderbook_not_supported'' 400)
      else case intent_orderId i of
             None \<Rightarrow> Inr None
           | Some oid \<Rightarrow>
               (case rd_order reader of
                  None \<Rightarrow> Inl (AppError ''orderbook_reader_unavailable'' 503)
                | Some get_order \<Rightarrow>
                    outcome_bind (get_order (int oid)) (\<lambda>order.
                      outcome_map (\<lambda>_. Some order) (check_order d account i order))))"

definition find_listing :: "string \<Rightarrow> business_intent \<Rightarrow> admission_reader \<Rightarrow> admission_listing option outcome" where
  "find_listing account i reader =
     (case intent_listingId i of
        None \<Rightarrow> Inr None
      | Some lid \<Rightarrow>
          outcome_bind (rd_listing reader lid) (\<lambda>listing.
            if \<not> al_active listing then Inl (AppError ''listing_unavailable'' 409)
            else if intent_kind i \<in> {OK_cancel_listing, OK_return_listing} \<and> \<not> sameAddress (al_seller listing) account
            then Inl (AppError ''listing_owner_mismatch'' 403)
            else Inr (Some listing)))"

definition check_market :: "business_intent \<Rightarrow> string option \<Rightarrow> admission_reader \<Rightarrow> unit outcome" where
  "check_market i market reader =
     (case market of
        None \<Rightarrow> Inr ()
      | Some m \<Rightarrow>
          outcome_bind (rd_registeredMarket reader m) (\<lambda>registered.
            if \<not> registered then Inl (AppError ''market_not_registered'' 400)
            else if budgetLane (intent_kind i) = Exposure
            then outcome_bind (rd_verifiedRules reader m) (\<lambda>verified. require verified (AppError ''rules_unverified'' 409))
            else Inr ()))"

definition check_times :: "business_intent \<Rightarrow> int \<Rightarrow> unit outcome" where
  "check_times i now =
     outcome_bind
       (case intent_deadline i of
          None \<Rightarrow> Inr ()
        | Some t \<Rightarrow> require (\<not> (t \<le> now \<or> now + 900 < t)) (AppError ''invalid_deadline'' 400)) (\<lambda>_.
       case intent_units i of
         None \<Rightarrow> Inr ()
       | Some (u, n) \<Rightarrow> require (\<not> u < n) (AppError ''invalid_minimum_units'' 400))"

section \<open>Calls\<close>

definition with_payment :: "site_deployment \<Rightarrow> string \<Rightarrow> int \<Rightarrow> planned_call \<Rightarrow> planned_call list" where
  "with_payment d spender amount action =
     [(sd_paymentToken d, Approve spender 0), (sd_paymentToken d, Approve spender amount), action,
      (sd_paymentToken d, Approve spender 0)]"

definition with_shares :: "site_deployment \<Rightarrow> string \<Rightarrow> planned_call \<Rightarrow> planned_call list" where
  "with_shares d vault action =
     [(vault, SetApprovalForAll (sd_marketplace d) True), action, (vault, SetApprovalForAll (sd_marketplace d) False)]"

definition side_number :: "order_side \<Rightarrow> int" where
  "side_number side = (if side = Bid then 0 else 1)"

definition receiveCall :: "calls_lib \<Rightarrow> receive_authorization \<Rightarrow> string \<Rightarrow> planned_call outcome" where
  "receiveCall lib auth signature =
     (case cl_signature lib signature of
        None \<Rightarrow> Inl (JsError ''parseSignature'')
      | Some (yParity, r, s) \<Rightarrow> Inr (USDC_ADDRESS, ReceiveWithAuthorization auth (yParity + 27) r s))"

definition uint_bits :: "nat \<Rightarrow> nat \<Rightarrow> bool" where
  "uint_bits bits n = (n < 2 ^ bits)"

text \<open>\<open>createMarketInputSchema\<close> on the fields of the intent.\<close>

definition create_params_ok :: "calls_lib \<Rightarrow> create_params \<Rightarrow> bool" where
  "create_params_ok lib p =
     (bytes32 (cp_rulesHash p) \<and> length (cp_metadataURI p) \<le> 512 \<and> bytes32 (cp_resolutionSourceHash p) \<and>
      length (cp_resolutionSourceURI p) \<le> 512 \<and> 2 \<le> cp_outcomeCount p \<and> cp_outcomeCount p \<le> 32 \<and>
      0 < cp_closeAt p \<and> list_all (uint_bits 64) [cp_closeAt p, cp_eventStartsAt p, cp_outcomeDeadlineAt p] \<and>
      0 < cp_outcomeDeadlineAt p \<and> cl_isAddress lib (cp_creatorTreasury p) \<and> cp_deploymentMode p \<le> 1 \<and>
      uint_bits 256 (cp_featureFlags p) \<and> cp_creatorRakeBps p \<le> 10000 \<and> cp_creatorC2CFeeBps p \<le> 10000 \<and>
      list_all (\<lambda>n. 0 < n \<and> uint_bits 128 n)
        [cp_perUserPrimaryCap p, cp_marketPrimaryCap p, cp_minimumPrimaryUnits p, cp_minimumC2CUnits p, cp_creatorBond p] \<and>
      cp_closeAt p \<le> cp_outcomeDeadlineAt p \<and>
      (cp_eventStartsAt p = 0 \<or> (cp_closeAt p < cp_eventStartsAt p \<and> cp_eventStartsAt p \<le> cp_outcomeDeadlineAt p)))"

definition create_market_input ::
  "calls_lib \<Rightarrow> site_deployment \<Rightarrow> platform_fees option \<Rightarrow> create_params \<Rightarrow> string \<Rightarrow> method_call outcome" where
  "create_market_input lib d fees p salt =
     (if cl_isAddress lib (sd_factory d) \<and> bytes32 salt \<and> create_params_ok lib p \<and>
         (case fees of None \<Rightarrow> True | Some f \<Rightarrow> pf_rakeShareBps f \<le> 5000 \<and> pf_c2cFeeBps f \<le> 200)
      then let v = p\<lparr>cp_creatorTreasury := cl_getAddress lib (cp_creatorTreasury p)\<rparr> in
           Inr (case fees of
                  None \<Rightarrow> CreateMarketCall v salt
                | Some f \<Rightarrow> CreateMarketWithPlatformFees v salt (pf_rakeShareBps f) (pf_c2cFeeBps f))
      else Inl (ZodError ''createMarketInputSchema''))"

text \<open>The \<open>switch\<close> over the kind, with the order and the listing found before.\<close>

fun plan_calls ::
  "calls_lib \<Rightarrow> site_environment \<Rightarrow> string \<Rightarrow> admission_reader \<Rightarrow> int \<Rightarrow> order_view option \<Rightarrow> admission_listing option \<Rightarrow>
     business_intent \<Rightarrow> planned_call list outcome" where
  "plan_calls lib env account reader now order listing (CreateOrder m side outcome units price expires auto) =
     (let d = se_deployment env; action = (sd_marketplace d, CreateOrderCall m outcome (nat (side_number side)) units price expires auto) in
      if int expires \<le> now \<or> 31 < outcome \<or> 2 ^ 128 - 1 < (units :: nat) \<or> 1000000000 < price
      then Inl (AppError ''invalid_order'' 400)
      else Inr (if side = Bid then with_payment d (sd_marketplace d) (bidReserve (int units) (int price)) action
                else with_shares d m action))"
| "plan_calls lib env account reader now order listing (FillOrder oid side units minUnits limit deadline) =
     (let d = se_deployment env; action = (sd_marketplace d, FillOrderCall oid units minUnits limit deadline) in
      case order of
        None \<Rightarrow> Inl (AppError ''order_unavailable'' 400)
      | Some o' \<Rightarrow>
          if ov_side o' \<noteq> side_number side then Inl (AppError ''order_side_mismatch'' 409)
          else Inr (if ov_side o' = 1 then with_payment d (sd_marketplace d) (int limit) action
                    else with_shares d (ov_market o') action))"
| "plan_calls lib env account reader now order listing (CancelOrder oid) =
     Inr [(sd_marketplace (se_deployment env), CancelOrderCall oid)]"
| "plan_calls lib env account reader now order listing (ReleaseOrder oid) =
     Inr [(sd_marketplace (se_deployment env), ReleaseOrderCall oid)]"
| "plan_calls lib env account reader now order listing (WithdrawOrderShares oid recipient) =
     Inr [(sd_marketplace (se_deployment env), WithdrawOrderSharesCall oid recipient)]"
| "plan_calls lib env account reader now order listing (RevokeTradingSession sid) =
     Inl (AppError ''session_descriptor_required'' 400)"
| "plan_calls lib env account reader now order listing (DepositUsdc did auth signature) =
     (if se_asset env \<noteq> USDC \<or> sf_gaslessDeposit (se_features env) \<noteq> Some True \<or> sa_index (se_account env) \<noteq> ''1002''
      then Inl (AppError ''gasless_deposit_disabled'' 503)
      else if \<not> sameAddress (ra_to auth) account \<or> sameAddress (ra_from auth) account
      then Inl (AppError ''deposit_recipient_mismatch'' 403)
      else if now \<le> int (ra_validAfter auth) \<or> int (ra_validBefore auth) \<le> now
      then Inl (AppError ''deposit_authorization_expired'' 409)
      else outcome_map (\<lambda>c. [c]) (receiveCall lib auth signature))"
| "plan_calls lib env account reader now order listing Faucet =
     (if se_asset env \<noteq> CtUSD \<or> \<not> sf_faucet (se_features env) then Inl (AppError ''faucet_disabled'' 503)
      else Inr [(sd_paymentToken (se_deployment env), MintCall account 1000000000)])"
| "plan_calls lib env account reader now order listing (Buy m outcome units minUnits maxPayment deadline) =
     Inr (with_payment (se_deployment env) m (int maxPayment) (m, BuyCall outcome units minUnits maxPayment deadline))"
| "plan_calls lib env account reader now order listing (FillListing lid units minUnits maxPayment deadline) =
     (let d = se_deployment env in
      if (case listing of None \<Rightarrow> False | Some l \<Rightarrow> sameAddress (al_seller l) account)
      then Inl (AppError ''self_trade_not_sponsored'' 400)
      else Inr (with_payment d (sd_marketplace d) (int maxPayment)
                  (sd_marketplace d, FillListingCall lid units minUnits maxPayment deadline)))"
| "plan_calls lib env account reader now order listing (CreateListing m outcome units price expires) =
     (let d = se_deployment env in
      if int expires \<le> now then Inl (AppError ''invalid_deadline'' 400)
      else Inr [(m, SetApprovalForAll (sd_marketplace d) True), (sd_marketplace d, CreateListingCall m outcome units price expires),
                (m, SetApprovalForAll (sd_marketplace d) False)])"
| "plan_calls lib env account reader now order listing (CancelListing lid) =
     Inr [(sd_marketplace (se_deployment env), CancelListingCall lid)]"
| "plan_calls lib env account reader now order listing (ReturnListing lid) =
     Inr [(sd_marketplace (se_deployment env), ReturnTerminalListing lid)]"
| "plan_calls lib env account reader now order listing (Resolve m outcome evidence) = Inr [(m, ResolveCall outcome evidence)]"
| "plan_calls lib env account reader now order listing (CreatorVoid m evidence) = Inr [(m, CreatorVoidCall evidence)]"
| "plan_calls lib env account reader now order listing (VoidTimeout m) = Inr [(m, VoidAfterDeadline)]"
| "plan_calls lib env account reader now order listing (ClaimWinner m) = Inr [(m, ClaimWinningsFor account)]"
| "plan_calls lib env account reader now order listing (ClaimEarlyBird m) = Inr [(m, ClaimEarlyBirdFor account)]"
| "plan_calls lib env account reader now order listing (Refund m) = Inr [(m, RefundFor account)]"
| "plan_calls lib env account reader now order listing (ClaimTimeoutBonus m) = Inr [(m, ClaimTimeoutBonusFor account)]"
| "plan_calls lib env account reader now order listing (SettleBond m) = Inr [(sd_bondEscrow (se_deployment env), SettleBondCall m)]"
| "plan_calls lib env account reader now order listing (SettleBondAndClaim m) =
     Inr [(sd_bondEscrow (se_deployment env), SettleBondCall m), (sd_bondEscrow (se_deployment env), ClaimFor account)]"
| "plan_calls lib env account reader now order listing ClaimBond = Inr [(sd_bondEscrow (se_deployment env), ClaimFor account)]"
| "plan_calls lib env account reader now order listing ClaimFees = Inr [(sd_feeVault (se_deployment env), ClaimFor account)]"
| "plan_calls lib env account reader now order listing (Transfer recipient amount) =
     (if sameAddress recipient account then Inl (AppError ''self_transfer_not_sponsored'' 400)
      else Inr [(sd_paymentToken (se_deployment env), TransferCall recipient (int amount))])"
| "plan_calls lib env account reader now order listing (CreateMarket fees p salt maxPayment) =
     (let d = se_deployment env in
      outcome_bind (create_market_input lib d fees p salt) (\<lambda>m.
      outcome_bind (rd_creationPayment reader p) (\<lambda>payment.
        if int maxPayment < payment then Inl (AppError ''creation_payment_changed'' 409)
        else Inr (with_payment d (sd_factory d) payment (sd_factory d, m)))))"

definition encode_call :: "calls_lib \<Rightarrow> planned_call \<Rightarrow> business_call outcome" where
  "encode_call lib = (\<lambda>(target, m).
     case cl_encode lib m of
       None \<Rightarrow> Inl (JsError ''encodeFunctionData'')
     | Some data \<Rightarrow> Inr \<lparr>bc_to = target, bc_data = data\<rparr>)"

definition planned_calls ::
  "calls_lib \<Rightarrow> site_environment \<Rightarrow> string \<Rightarrow> business_intent \<Rightarrow> admission_reader \<Rightarrow> int \<Rightarrow> planned_call list outcome" where
  "planned_calls lib env account i reader now =
     (let d = se_deployment env in
      if intent_kind i \<noteq> OK_faucet \<and> budgetLane (intent_kind i) = Exposure \<and> \<not> sf_newExposure (se_features env)
      then Inl (AppError ''new_exposure_disabled'' 503)
      else
        outcome_bind (find_order d account i reader) (\<lambda>order.
        if sd_marketplaceVersion d = Some OrderbookV2 \<and> (intent_listingId i \<noteq> None \<or> intent_kind i = OK_create_listing)
        then Inl (AppError ''legacy_listing_not_supported'' 400)
        else
          outcome_bind (find_listing account i reader) (\<lambda>listing.
          let market = (case listing of
                          Some l \<Rightarrow> Some (al_market l)
                        | None \<Rightarrow> (case order of Some o' \<Rightarrow> Some (ov_market o') | None \<Rightarrow> intent_market i)) in
          outcome_bind (check_market i market reader) (\<lambda>_.
          outcome_bind (check_times i now) (\<lambda>_.
            plan_calls lib env account reader now order listing i)))))"

definition buildBusinessCalls ::
  "calls_lib \<Rightarrow> site_environment \<Rightarrow> string \<Rightarrow> business_intent \<Rightarrow> admission_reader \<Rightarrow> int \<Rightarrow> business_call list outcome" where
  "buildBusinessCalls lib env account i reader now =
     outcome_bind (planned_calls lib env account i reader now) (traverse (encode_call lib))"

section \<open>What a plan calls\<close>

lemma planned_cases:
  assumes "planned_calls lib env account i reader now = Inr ps"
  obtains order listing where
    "intent_kind i = OK_faucet \<or> budgetLane (intent_kind i) = Exit \<or> sf_newExposure (se_features env)"
    "find_order (se_deployment env) account i reader = Inr order" "find_listing account i reader = Inr listing"
    "check_market i (case listing of Some l \<Rightarrow> Some (al_market l)
       | None \<Rightarrow> (case order of Some o' \<Rightarrow> Some (ov_market o') | None \<Rightarrow> intent_market i)) reader = Inr ()"
    "check_times i now = Inr ()" "plan_calls lib env account reader now order listing i = Inr ps"
proof -
  obtain order listing where r:
    "\<not> (intent_kind i \<noteq> OK_faucet \<and> budgetLane (intent_kind i) = Exposure \<and> \<not> sf_newExposure (se_features env))"
    "find_order (se_deployment env) account i reader = Inr order" "find_listing account i reader = Inr listing"
    "check_market i (case listing of Some l \<Rightarrow> Some (al_market l)
       | None \<Rightarrow> (case order of Some o' \<Rightarrow> Some (ov_market o') | None \<Rightarrow> intent_market i)) reader = Inr ()"
    "check_times i now = Inr ()" "plan_calls lib env account reader now order listing i = Inr ps"
    using assms by (auto simp: planned_calls_def Let_def split: if_splits)
  show thesis by (rule that [OF _ r(2-6)]) (use r(1) in \<open>cases "budgetLane (intent_kind i)"; auto\<close>)
qed

definition own_contracts :: "site_deployment \<Rightarrow> string list" where
  "own_contracts d = [sd_paymentToken d, sd_marketplace d, sd_bondEscrow d, sd_feeVault d, sd_factory d, USDC_ADDRESS]"

lemma check_market_registered: "check_market i (Some m) reader = Inr () \<Longrightarrow> rd_registeredMarket reader m = Inr True"
  by (auto simp: check_market_def split: if_splits)

text \<open>Every target is a contract of the deployment or the market of the intent.\<close>

lemma plan_targets:
  assumes "plan_calls lib env account reader now order listing i = Inr ps"
  shows "set (map fst ps) \<subseteq> set (own_contracts (se_deployment env)) \<union> set_option (intent_market i) \<union>
    (case i of FillOrder _ _ _ _ _ _ \<Rightarrow> set_option (map_option ov_market order) | _ \<Rightarrow> {})"
  using assms
  by (cases i) (auto simp: with_payment_def with_shares_def own_contracts_def receiveCall_def Let_def split: if_splits option.splits)

lemma no_listing: "intent_listingId i = None \<Longrightarrow> find_listing account i reader = Inr listing \<Longrightarrow> listing = None"
  by (simp add: find_listing_def)

lemma no_order: "intent_orderId i = None \<Longrightarrow> find_order d account i reader = Inr order \<Longrightarrow> order = None"
  by (auto simp: find_order_def split: if_splits)

lemma planned_on_allowlist:
  assumes "planned_calls lib env account i reader now = Inr ps"
  shows "list_all (\<lambda>(target, m). target \<in> set (own_contracts (se_deployment env)) \<or> rd_registeredMarket reader target = Inr True) ps"
proof -
  obtain order listing where r: "find_order (se_deployment env) account i reader = Inr order"
    "find_listing account i reader = Inr listing"
    "check_market i (case listing of Some l \<Rightarrow> Some (al_market l)
       | None \<Rightarrow> (case order of Some o' \<Rightarrow> Some (ov_market o') | None \<Rightarrow> intent_market i)) reader = Inr ()"
    "plan_calls lib env account reader now order listing i = Inr ps"
    using assms by (rule planned_cases)
  have "rd_registeredMarket reader m = Inr True"
    if "m \<in> set_option (intent_market i) \<union> (case i of FillOrder _ _ _ _ _ _ \<Rightarrow> set_option (map_option ov_market order) | _ \<Rightarrow> {})" for m
  proof -
    have "intent_listingId i = None" using that by (cases i) auto
    then have l: "listing = None" using no_listing r(2) by blast
    show ?thesis
    proof (cases order)
      case None
      then show ?thesis using that r(3) l check_market_registered [of i m reader] by (cases i) auto
    next
      case (Some o')
      then have "intent_orderId i \<noteq> None" using no_order r(1) by blast
      then show ?thesis using that r(3) l Some check_market_registered [of i m reader] by (cases i) auto
    qed
  qed
  then show ?thesis using plan_targets [OF r(4)] by (fastforce simp: list_all_iff)
qed

text \<open>
  C8. An intent is an allowlist: whatever it asks for, the account only calls contracts of the deployment's
  manifest, the USDC token, or a market the factory knows.
\<close>

theorem calls_on_allowlist:
  assumes "planned_calls lib env account i reader now = Inr ps"
  shows "list_all (\<lambda>(target, m). target \<in> set (own_contracts (se_deployment env)) \<or> rd_registeredMarket reader target = Inr True) ps"
  using assms by (rule planned_on_allowlist)

section \<open>Allowances\<close>

text \<open>What the calls of a plan do to the token allowances and operator approvals of the account.\<close>

record allowances =
  aw_tokens :: "string \<times> string \<Rightarrow> int"
  aw_operators :: "string \<times> string \<Rightarrow> bool"

fun call_effect :: "planned_call \<Rightarrow> allowances \<Rightarrow> allowances" where
  "call_effect (target, Approve spender amount) a = a\<lparr>aw_tokens := (aw_tokens a)((target, spender) := amount)\<rparr>"
| "call_effect (target, SetApprovalForAll operator approved) a =
     a\<lparr>aw_operators := (aw_operators a)((target, operator) := approved)\<rparr>"
| "call_effect _ a = a"

fun approved_amount :: "planned_call \<Rightarrow> int" where
  "approved_amount (_, Approve _ amount) = amount"
| "approved_amount _ = 0"

text \<open>The actions between the approvals change no allowance themselves.\<close>

fun plain_method :: "method_call \<Rightarrow> bool" where
  "plain_method (Approve _ _) = False"
| "plain_method (SetApprovalForAll _ _) = False"
| "plain_method _ = True"

lemma plain_effect: "plain_method m \<Longrightarrow> call_effect (t, m) a = a"
  by (cases m) auto

lemma plain_amount: "plain_method m \<Longrightarrow> approved_amount (t, m) = 0"
  by (cases m) auto

definition limit_of :: "business_intent \<Rightarrow> int" where
  "limit_of i = (case i of CreateMarket _ _ _ m \<Rightarrow> int m | _ \<Rightarrow> sessionSpend i)"

text \<open>A plan is one action between the approvals of what the intent may spend, or none.\<close>

inductive spends :: "site_deployment \<Rightarrow> business_intent \<Rightarrow> planned_call list \<Rightarrow> bool" for d i where
  spends_payment: "plain_method m \<Longrightarrow> amount \<le> limit_of i \<Longrightarrow> supportsQuickTrading i \<longrightarrow> amount = limit_of i \<Longrightarrow>
     spends d i (with_payment d spender amount (t, m))"
| spends_shares: "plain_method m \<Longrightarrow> limit_of i = 0 \<Longrightarrow> spends d i (with_shares d vault (t, m))"
| spends_nothing: "list_all (\<lambda>p. plain_method (snd p)) ps \<Longrightarrow> limit_of i = 0 \<Longrightarrow> spends d i ps"

lemma create_input_plain: "create_market_input lib d fees p salt = Inr m \<Longrightarrow> plain_method m"
  by (auto simp: create_market_input_def Let_def split: if_splits option.splits)

lemma plan_spends:
  assumes "plan_calls lib env account reader now order listing i = Inr ps"
  shows "spends (se_deployment env) i ps"
proof (cases i)
  case (CreateOrder m side outcome units price expires auto)
  then show ?thesis using assms
    by (cases side) (auto simp: Let_def limit_of_def intro!: spends_payment spends_shares split: if_splits)
next
  case (FillOrder oid side units minUnits limit deadline)
  then show ?thesis using assms
    by (cases side) (auto simp: Let_def limit_of_def side_number_def intro!: spends_payment spends_shares split: if_splits option.splits)
next
  case (Buy m outcome units minUnits maxPayment deadline)
  then show ?thesis using assms by (auto simp: limit_of_def intro!: spends_payment)
next
  case (FillListing lid units minUnits maxPayment deadline)
  then show ?thesis using assms by (auto simp: limit_of_def Let_def intro!: spends_payment split: if_splits)
next
  case (CreateListing m outcome units price expires)
  have "spends (se_deployment env) i (with_shares (se_deployment env) m
      (sd_marketplace (se_deployment env), CreateListingCall m outcome units price expires))"
    by (rule spends_shares) (simp_all add: CreateListing limit_of_def)
  then show ?thesis using assms CreateListing by (auto simp: Let_def with_shares_def split: if_splits)
next
  case (CreateMarket fees p salt maxPayment)
  then show ?thesis using assms create_input_plain
    by (auto simp: limit_of_def Let_def supportsQuickTrading_def intro!: spends_payment split: if_splits)
qed (use assms in \<open>auto simp: limit_of_def receiveCall_def Let_def intro!: spends_nothing split: if_splits option.splits\<close>)

lemma plain_plan:
  "list_all (\<lambda>p. plain_method (snd p)) ps \<Longrightarrow> fold call_effect ps a = a \<and> sum_list (map approved_amount ps) = 0"
  by (induction ps) (auto simp: plain_effect plain_amount)

lemma spends_effect:
  assumes "spends d i ps"
  shows "(\<forall>k. aw_tokens (fold call_effect ps a) k \<in> {aw_tokens a k, 0}) \<and>
    (\<forall>k. aw_operators (fold call_effect ps a) k \<longrightarrow> aw_operators a k) \<and>
    sum_list (map approved_amount ps) \<le> limit_of i \<and>
    (supportsQuickTrading i \<longrightarrow> sum_list (map approved_amount ps) = limit_of i)"
  using assms
proof cases
  case (spends_nothing)
  then show ?thesis using plain_plan [of ps a] by simp
qed (auto simp: with_payment_def with_shares_def plain_effect plain_amount)

lemma limit_session: "supportsQuickTrading i \<Longrightarrow> limit_of i = sessionSpend i"
  by (cases i) (auto simp: limit_of_def supportsQuickTrading_def)

text \<open>
  C10. The calls of an intent leave no allowance behind: afterwards every token allowance is what it was or
  zero and no operator is approved that was not before. What they approve on the way is at most the payment
  the intent names, and exactly what a trading session is charged for it.
\<close>

theorem allowances_revoked:
  assumes "planned_calls lib env account i reader now = Inr ps"
  shows "(\<forall>k. aw_tokens (fold call_effect ps a) k \<in> {aw_tokens a k, 0}) \<and>
    (\<forall>k. aw_operators (fold call_effect ps a) k \<longrightarrow> aw_operators a k) \<and>
    sum_list (map approved_amount ps) \<le> (case i of CreateMarket _ _ _ m \<Rightarrow> int m | _ \<Rightarrow> sessionSpend i) \<and>
    (supportsQuickTrading i \<longrightarrow> sum_list (map approved_amount ps) = sessionSpend i)"
proof -
  obtain order listing where "plan_calls lib env account reader now order listing i = Inr ps"
    using assms by (rule planned_cases)
  from spends_effect [OF plan_spends [OF this], of a] limit_session [of i] show ?thesis
    unfolding limit_of_def by auto
qed

section \<open>Historical environments\<close>

text \<open>
  C38. An environment kept for its old markets takes no new exposure: whatever the reader answers, every intent
  of the exposure lane is refused.
\<close>

theorem historical_takes_no_exposure:
  assumes "environment_refined env" "se_historical env = Some True" "budgetLane (intent_kind i) = Exposure"
  shows "buildBusinessCalls lib env account i reader now \<in>
    {Inl (AppError ''new_exposure_disabled'' 503), Inl (AppError ''faucet_disabled'' 503)}"
proof -
  have f: "\<not> sf_newExposure (se_features env)" "\<not> sf_faucet (se_features env)"
    using assms(1,2) by (auto simp: environment_refined_def Let_def)
  show ?thesis
  proof (cases "intent_kind i = OK_faucet")
    case True
    then have "i = Faucet" by (cases i) auto
    then show ?thesis using f
      by (simp add: buildBusinessCalls_def planned_calls_def find_order_def order_intent_def find_listing_def check_market_def
          check_times_def)
  next
    case False
    then show ?thesis using f assms(3) by (simp add: buildBusinessCalls_def planned_calls_def Let_def)
  qed
qed

section \<open>Site configurations\<close>

lemma current_steps:
  "fst (fold current_step es (ok, n)) \<longleftrightarrow>
     ok \<and> distinct (map se_id es) \<and> distinct (map account_key es) \<and> distinct (map (\<lambda>e. sd_id (se_deployment e)) es) \<and>
     distinct (map se_privyAppId es) \<and> set (map se_id es) \<inter> set (sn_ids n) = {} \<and>
     set (map account_key es) \<inter> set (sn_accounts n) = {} \<and>
     set (map (\<lambda>e. sd_id (se_deployment e)) es) \<inter> set (sn_deployments n) = {} \<and>
     set (map se_privyAppId es) \<inter> set (sn_apps n) = {} \<and> list_all (\<lambda>e. se_historical e \<noteq> Some True) es"
  by (induction es arbitrary: ok n) (auto simp: current_step_def)

lemma current_names:
  "set (sn_ids (snd (fold current_step es (ok, n)))) = set (map se_id es) \<union> set (sn_ids n) \<and>
   set (sn_deployments (snd (fold current_step es (ok, n)))) = set (map (\<lambda>e. sd_id (se_deployment e)) es) \<union> set (sn_deployments n)"
  by (induction es arbitrary: ok n) (auto simp: current_step_def)

definition historical_of :: "site_environment list \<Rightarrow> site_environment \<Rightarrow> bool" where
  "historical_of envs e = (se_historical e = Some True \<and>
     (case find (same_wallet e) envs of None \<Rightarrow> False
      | Some current \<Rightarrow> \<not> sameAddress (sd_factory (se_deployment current)) (sd_factory (se_deployment e)) \<and>
          \<not> list_ex (\<lambda>p. p \<in> set (service_paths current)) (service_paths e)))"

lemma historical_steps:
  "fst (fold (historical_step envs) es (ok, ids, ds)) \<longleftrightarrow>
     ok \<and> list_all (historical_of envs) es \<and> distinct (map se_id es) \<and> distinct (map (\<lambda>e. sd_id (se_deployment e)) es) \<and>
     set (map se_id es) \<inter> set ids = {} \<and> set (map (\<lambda>e. sd_id (se_deployment e)) es) \<inter> set ds = {}"
  by (induction es arbitrary: ok ids ds) (auto simp: historical_step_def historical_of_def)

text \<open>
  An accepted site configuration keeps its environments apart: identities and deployments are distinct
  throughout, current environments share neither account nor Privy project, and a historical environment has
  the wallet and asset of a current one under another factory and other routes.
\<close>

theorem site_environments_apart:
  assumes "site_config_ok d envs historical"
  shows "distinct (map se_id (envs @ historical)) \<and> distinct (map (\<lambda>e. sd_id (se_deployment e)) (envs @ historical)) \<and>
    distinct (map account_key envs) \<and> distinct (map se_privyAppId envs) \<and>
    list_all (\<lambda>e. \<not> sf_newExposure (se_features e) \<and>
      list_ex (\<lambda>a. same_wallet e a \<and> \<not> sameAddress (sd_factory (se_deployment a)) (sd_factory (se_deployment e)) \<and>
        set (service_paths a) \<inter> set (service_paths e) = {}) envs) historical"
proof -
  let ?start = "(True, \<lparr>sn_ids = [], sn_accounts = [], sn_deployments = [], sn_apps = []\<rparr>)"
  obtain ok n where n: "fold current_step envs ?start = (ok, n)" by (cases "fold current_step envs ?start")
  have c: "ok" "fst (fold (historical_step envs) historical (True, sn_ids n, sn_deployments n))"
    "list_all environment_refined historical"
    using assms n by (auto simp: site_config_ok_def)
  have apart: "distinct (map se_id envs)" "distinct (map account_key envs)"
    "distinct (map (\<lambda>e. sd_id (se_deployment e)) envs)" "distinct (map se_privyAppId envs)"
    using current_steps [of envs True "snd ?start"] n c(1) by simp_all
  have names: "set (sn_ids n) = set (map se_id envs)" "set (sn_deployments n) = set (map (\<lambda>e. sd_id (se_deployment e)) envs)"
    using current_names [of envs True "snd ?start"] n by simp_all
  have h: "list_all (historical_of envs) historical" "distinct (map se_id historical)"
    "distinct (map (\<lambda>e. sd_id (se_deployment e)) historical)" "set (map se_id historical) \<inter> set (sn_ids n) = {}"
    "set (map (\<lambda>e. sd_id (se_deployment e)) historical) \<inter> set (sn_deployments n) = {}"
    using c(2) by (simp_all add: historical_steps)
  have "\<not> sf_newExposure (se_features e) \<and>
      list_ex (\<lambda>a. same_wallet e a \<and> \<not> sameAddress (sd_factory (se_deployment a)) (sd_factory (se_deployment e)) \<and>
        set (service_paths a) \<inter> set (service_paths e) = {}) envs" if e: "e \<in> set historical" for e
  proof -
    have he: "historical_of envs e" "environment_refined e" using h(1) c(3) e by (auto simp: list_all_iff)
    then obtain a where a: "find (same_wallet e) envs = Some a"
      "\<not> sameAddress (sd_factory (se_deployment a)) (sd_factory (se_deployment e))"
      "\<not> list_ex (\<lambda>p. p \<in> set (service_paths a)) (service_paths e)"
      by (auto simp: historical_of_def split: option.splits)
    have "a \<in> set envs" "same_wallet e a" using a(1) by (auto simp: find_Some_iff)
    moreover have "set (service_paths a) \<inter> set (service_paths e) = {}" using a(3) by (auto simp: list_ex_iff)
    ultimately show ?thesis
      using a(2) he by (auto simp: list_ex_iff historical_of_def environment_refined_def Let_def)
  qed
  then show ?thesis using apart h names by (auto simp: list_all_iff)
qed

section \<open>Samples\<close>

definition calls_sample :: calls_lib where
  "calls_sample = \<lparr>cl_isAddress = (\<lambda>_. True), cl_getAddress = id, cl_encode = (\<lambda>_. Some ''0x''),
     cl_signature = (\<lambda>_. Some (0, ''0xr'', ''0xs''))\<rparr>"

definition site_sample :: "string \<Rightarrow> string \<Rightarrow> bool \<Rightarrow> site_environment" where
  "site_sample name factory historical =
     \<lparr>se_id = name, se_historical = Some historical, se_asset = CtUSD, se_decimals = 6,
      se_deployment = \<lparr>sd_id = name, sd_protocolVersion = None, sd_marketplaceVersion = Some OrderbookV2,
        sd_orderbookReceiverRecovery = None, sd_orderbookFillPolicyVersion = Some 1, sd_manifestHash = ''0x1'', sd_chainId = 421614,
        sd_factory = factory, sd_marketplace = ''0xm'', sd_bondEscrow = ''0xb'', sd_feeVault = ''0xf'', sd_paymentToken = ''0xp''\<rparr>,
      se_account = \<lparr>sa_index = ''7'', sa_kernelVersion = ''0.3.1''\<rparr>,
      se_services = \<lparr>ss_app = name @ ''/app'', ss_indexer = name @ ''/indexer'', ss_metadata = name @ ''/metadata'', ss_rpc = name @ ''/rpc''\<rparr>,
      se_privyAppId = ''privy'', se_quickTrading = None, se_walletConnectProjectId = None,
      se_features = \<lparr>sf_newExposure = \<not> historical, sf_faucet = False, sf_sponsorship = True, sf_gaslessDeposit = None\<rparr>\<rparr>"

definition reader_sample :: admission_reader where
  "reader_sample = \<lparr>rd_registeredMarket = (\<lambda>m. Inr (m = ''0xv'')),
     rd_order = Some (\<lambda>_. Inr \<lparr>ov_market = ''0xv'', ov_owner = ''0xo'', ov_side = 1, ov_outcomeId = 0, ov_active = True,
       ov_pendingShares = None, ov_units = Some 5, ov_allowPartialFills = Some False\<rparr>),
     rd_verifiedRules = (\<lambda>_. Inr True), rd_listing = (\<lambda>_. Inl (JsError ''no listing'')), rd_creationPayment = (\<lambda>_. Inr 5)\<rparr>"

definition fill_sample :: business_intent where
  "fill_sample = FillOrder 4 Ask 5 5 30 150"

lemma fill_run:
  "planned_calls calls_sample (site_sample ''v2'' ''0xc'' False) ''0xu'' fill_sample reader_sample 100 =
     Inr [(''0xp'', Approve ''0xm'' 0), (''0xp'', Approve ''0xm'' 30), (''0xm'', FillOrderCall 4 5 5 30 150), (''0xp'', Approve ''0xm'' 0)]"
  by (simp add: planned_calls_def site_sample_def reader_sample_def fill_sample_def find_order_def order_intent_def
      check_order_def find_listing_def check_market_def check_times_def budgetLane_def sameAddress_def toLowerCase_def
      lower_char_def require_def side_number_def with_payment_def Let_def)

theorem calls_on_allowlist_witness:
  "\<exists>ps. planned_calls calls_sample (site_sample ''v2'' ''0xc'' False) ''0xu'' fill_sample reader_sample 100 = Inr ps \<and> length ps = 4 \<and>
     list_all (\<lambda>(target, m). target \<in> set (own_contracts (se_deployment (site_sample ''v2'' ''0xc'' False))) \<or>
       rd_registeredMarket reader_sample target = Inr True) ps"
  using calls_on_allowlist [OF fill_run] fill_run by auto

theorem allowances_revoked_witness:
  "\<exists>ps. planned_calls calls_sample (site_sample ''v2'' ''0xc'' False) ''0xu'' fill_sample reader_sample 100 = Inr ps \<and>
     aw_tokens (fold call_effect ps \<lparr>aw_tokens = (\<lambda>_. 9), aw_operators = (\<lambda>_. False)\<rparr>) (''0xp'', ''0xm'') \<in> {9, 0} \<and>
     sum_list (map approved_amount ps) = 30"
  using allowances_revoked [OF fill_run, of "\<lparr>aw_tokens = (\<lambda>_. 9), aw_operators = (\<lambda>_. False)\<rparr>"] fill_run
  by (intro exI conjI) (rule fill_run, simp_all add: fill_sample_def)

theorem historical_takes_no_exposure_witness:
  "buildBusinessCalls calls_sample (site_sample ''old'' ''0xd'' True) ''0xu'' fill_sample reader_sample 100 \<in>
    {Inl (AppError ''new_exposure_disabled'' 503), Inl (AppError ''faucet_disabled'' 503)}"
  by (rule historical_takes_no_exposure) (simp_all add: environment_refined_def site_sample_def fill_sample_def budgetLane_def Let_def)

theorem site_environments_apart_witness:
  "distinct (map se_id [site_sample ''v2'' ''0xc'' False, site_sample ''old'' ''0xd'' True])"
proof -
  have "site_config_ok (Some ''v2'') [site_sample ''v2'' ''0xc'' False] [site_sample ''old'' ''0xd'' True]"
    by (simp add: site_config_ok_def environment_refined_def site_sample_def current_step_def historical_step_def same_wallet_def
        service_paths_def sameAddress_def toLowerCase_def lower_char_def Let_def)
  from site_environments_apart [OF this] show ?thesis by simp
qed

end
