(* ===== verification/App_Service.thy ===== *)
theory App_Service
  imports App_Invariant Business_Calls Calls
begin

text \<open>
  The operation service: \<open>OperationService\<close> (offchain/app-service/src/operations.ts) with \<open>TradingSessions\<close>
  (trading-sessions.ts), \<open>DepositService\<close> (deposits.ts), \<open>assertCurrentController\<close> (app-core/src/kernel.ts)
  and \<open>readUsdcDomain\<close> (usdc.ts), over the transactions of App_Store and the call builder of Business_Calls.

  Reads of the store within one call see one state; the stores themselves run between calls. \<open>app_chain\<close> is
  what the RPC client answers during a call, \<open>app_lib\<close> is the pure part of viem and of the kernel SDK. The
  clock is read once per call, in milliseconds; new ids are arguments.
\<close>

section \<open>Runtime, chain and libraries\<close>

record identity =
  id_subject :: string
  id_controllers :: "(string \<times> wallet_kind) list"

record app_runtime =
  ar_environment :: site_environment
  ar_sponsor :: "sponsor_config option"
  ar_validitySeconds :: int

record kernel_account =
  ka_address :: string
  ka_nonce :: "nat outcome"
  ka_encodeCalls :: "business_call list \<Rightarrow> string outcome"
  ka_factoryArgs :: "(string option \<times> string option) outcome"
  ka_enableHash :: "string outcome"

record app_chain =
  xc_code :: "string \<Rightarrow> string option outcome"
  xc_rootValidator :: "string \<Rightarrow> string outcome"
  xc_hook :: "string \<Rightarrow> string \<Rightarrow> string outcome"
  xc_owner :: "string \<Rightarrow> string outcome"
  xc_implementation :: "string \<Rightarrow> string option outcome"
  xc_block :: "(nat \<times> nat) outcome"
  xc_chainId :: "int outcome"
  xc_codeAt :: "nat \<Rightarrow> string \<Rightarrow> string option outcome"
  xc_usdcName :: "nat \<Rightarrow> string outcome"
  xc_usdcDecimals :: "nat \<Rightarrow> int outcome"
  xc_separator :: "nat \<Rightarrow> string outcome"
  xc_typehash :: "nat \<Rightarrow> string outcome"
  xc_balance :: "nat \<Rightarrow> string \<Rightarrow> nat outcome"
  xc_authorizationState :: "nat \<Rightarrow> string \<Rightarrow> string \<Rightarrow> bool outcome"
  xc_paused :: "nat \<Rightarrow> bool outcome"
  xc_blacklisted :: "nat \<Rightarrow> string \<Rightarrow> bool outcome"
  xc_sessionState :: "string \<Rightarrow> string \<Rightarrow> string \<Rightarrow> (nat \<times> bool) outcome"
  xc_kernel :: "app_account \<Rightarrow> kernel_account outcome"
  xc_sessionKernel :: "trading_session \<Rightarrow> kernel_account outcome"
  xc_deriveAddress :: "string \<Rightarrow> string outcome"
  xc_verifyMessage :: "string \<Rightarrow> string \<Rightarrow> string \<Rightarrow> bool outcome"

text \<open>\<open>registerOperationSchema\<close> and \<open>depositPrepareSchema\<close>.\<close>

record register_input =
  rg_signingMode :: "signing_mode option"
  rg_sessionId :: "string option"
  rg_environment :: string
  rg_deploymentId :: string
  rg_accountId :: string
  rg_idempotencyKey :: string
  rg_intent :: business_intent
  rg_nonce :: nat
  rg_callData :: string
  rg_factory :: "string option"
  rg_factoryData :: "string option"
  rg_gasPayment :: "gas_payment option"

record deposit_input =
  dj_accountId :: string
  dj_source :: string
  dj_amount :: nat
  dj_idempotencyKey :: string

record app_lib =
  ap_calls :: calls_lib
  ap_validator :: string
  ap_implementation :: string
  ap_typehash :: string
  ap_domainHash :: "string \<Rightarrow> string"
  ap_keccak :: "string \<Rightarrow> string"
  ap_isoTime :: "int \<Rightarrow> string"
  ap_requestHash :: "register_input \<Rightarrow> string"
  ap_depositHash :: "deposit_input \<Rightarrow> string"
  ap_recoverDeposit :: "string \<Rightarrow> receive_authorization \<Rightarrow> string \<Rightarrow> string option"
  ap_recover :: "string \<Rightarrow> string \<Rightarrow> string outcome"
  ap_encodeRevoke :: "string \<Rightarrow> string"

text \<open>A transaction of the store as a call, and \<open>catch\<close> clauses that let only an AppError through.\<close>

definition store_call :: "'a transaction \<Rightarrow> (app_db, 'a) call" where
  "store_call t db = (case t db of Inl e \<Rightarrow> (Inl e, db) | Inr (a, db') \<Rightarrow> (Inr a, db'))"

definition reading :: "(app_db \<Rightarrow> 'a outcome) \<Rightarrow> (app_db, 'a) call" where
  "reading f db = (f db, db)"

fun app_errors_only :: "'a outcome \<Rightarrow> 'a outcome" where
  "app_errors_only (Inl (AppError c st)) = Inl (AppError c st)"
| "app_errors_only (Inl _) = Inl (AppError ''chain_query_unavailable'' 503)"
| "app_errors_only (Inr a) = Inr a"

definition app_errors_call :: "(app_db, 'a) call \<Rightarrow> (app_db, 'a) call" where
  "app_errors_call m db = (case m db of (r, db') \<Rightarrow> (app_errors_only r, db'))"

section \<open>Accounts\<close>

definition assertCurrentController :: "app_lib \<Rightarrow> app_chain \<Rightarrow> string \<Rightarrow> string \<Rightarrow> unit outcome" where
  "assertCurrentController lib ch a controller =
     outcome_bind (xc_code ch a) (\<lambda>code.
     if code = None \<or> code = Some ''0x'' then Inr ()
     else
       outcome_bind (xc_rootValidator ch a) (\<lambda>root.
       outcome_bind (require (toLowerCase root = ''0x01'' @ toLowerCase (drop 2 (ap_validator lib)))
         (AppError ''account_validator_changed'' 409)) (\<lambda>_.
       outcome_bind (xc_hook ch a root) (\<lambda>hook.
       outcome_bind (xc_owner ch a) (\<lambda>owner.
       outcome_bind (xc_implementation ch a) (\<lambda>implementation.
         if \<not> sameAddress hook ''0x0000000000000000000000000000000000000001'' then Inl (AppError ''account_hook_changed'' 409)
         else if \<not> sameAddress owner controller then Inl (AppError ''controller_changed'' 409)
         else
           case implementation of
             None \<Rightarrow> Inl (AppError ''account_implementation_changed'' 409)
           | Some s \<Rightarrow>
               require (sameAddress (''0x'' @ drop (length s - 40) s) (ap_implementation lib))
                 (AppError ''account_implementation_changed'' 409)))))))"

definition controlledAccount ::
  "app_lib \<Rightarrow> app_runtime \<Rightarrow> app_chain \<Rightarrow> identity \<Rightarrow> string \<Rightarrow> bool \<Rightarrow> app_db \<Rightarrow> app_account outcome" where
  "controlledAccount lib rt ch who k checkChain db =
     (let env = ar_environment rt in
      case account_of k (id_subject who) db of
        None \<Rightarrow> Inl (AppError ''account_not_found'' 404)
      | Some a \<Rightarrow>
          if aa_environment a \<noteq> se_id env \<or> aa_deploymentId a \<noteq> sd_id (se_deployment env)
          then Inl (AppError ''account_not_found'' 404)
          else if \<not> list_ex (\<lambda>c. sameAddress (fst c) (aa_controller a)) (id_controllers who)
          then Inl (AppError ''controller_not_linked'' 403)
          else if checkChain then outcome_map (\<lambda>_. a) (assertCurrentController lib ch (aa_address a) (aa_controller a))
          else Inr a)"

definition environmentKey :: "site_environment \<Rightarrow> string" where
  "environmentKey e =
     se_id e @ '':'' @ sd_id (se_deployment e) @ '':'' @ toLowerCase (sd_manifestHash (se_deployment e))"

fun join_lines :: "string list \<Rightarrow> string" where
  "join_lines [] = []"
| "join_lines [s] = s"
| "join_lines (s # t # ss) = s @ CHR 0x0A # join_lines (t # ss)"

definition challenge_message :: "app_lib \<Rightarrow> site_environment \<Rightarrow> string \<Rightarrow> string \<Rightarrow> string \<Rightarrow> string \<Rightarrow> int \<Rightarrow> string" where
  "challenge_message lib env subject controller addr k expires =
     join_lines
       [''Cpredict account control verification'', ''Environment: '' @ environmentKey env,
        ''Chain: '' @ dec (sd_chainId (se_deployment env)), ''Controller: '' @ controller, ''Asset account: '' @ addr,
        ''Kernel: '' @ sa_kernelVersion (se_account env), ''EntryPoint: 0.7'', ''Index: '' @ sa_index (se_account env),
        ''Subject commitment: '' @ ap_keccak lib subject, ''Challenge: '' @ k, ''Expires: '' @ ap_isoTime lib expires,
        ''This signature proves account control only. It does not authorize a transfer, transaction, account upgrade or session key.'']"

definition challenge :: "app_lib \<Rightarrow> app_runtime \<Rightarrow> app_chain \<Rightarrow> identity \<Rightarrow> string \<Rightarrow> string \<Rightarrow> int \<Rightarrow> (app_db, control_challenge) call" where
  "challenge lib rt ch who controller k now =
     (let env = ar_environment rt; expires = now + 300000 in
      call_bind (call_require (list_ex (\<lambda>c. sameAddress (fst c) controller) (id_controllers who))
        (AppError ''controller_not_linked'' 403)) (\<lambda>_.
      call_bind (call_of (xc_deriveAddress ch controller)) (\<lambda>addr.
      let c = \<lparr>cc_id = k, cc_subject = id_subject who, cc_controller = controller, cc_environment = se_id env,
               cc_deploymentId = sd_id (se_deployment env),
               cc_message = challenge_message lib env (id_subject who) controller addr k expires,
               cc_expiresAt = expires, cc_consumed = False\<rparr> in
      call_bind (store_call (createChallenge c)) (\<lambda>_. call_return c))))"

definition challenge_by_id :: "string \<Rightarrow> app_db \<Rightarrow> control_challenge option" where
  "challenge_by_id k db = List.find (\<lambda>c. cc_id c = k) (db_challenges db)"

definition bound_account :: "app_lib \<Rightarrow> app_runtime \<Rightarrow> app_chain \<Rightarrow> identity \<Rightarrow> string \<Rightarrow> string \<Rightarrow> string \<Rightarrow> int \<Rightarrow> app_db \<Rightarrow> app_account outcome" where
  "bound_account lib rt ch who challengeId signature newId now db =
     (let env = ar_environment rt in
      case challenge_by_id challengeId db of
        None \<Rightarrow> Inl (AppError ''challenge_unavailable'' 409)
      | Some c \<Rightarrow>
          if cc_subject c \<noteq> id_subject who \<or> cc_consumed c \<or> cc_expiresAt c \<le> now \<or> cc_environment c \<noteq> se_id env \<or>
             cc_deploymentId c \<noteq> sd_id (se_deployment env)
          then Inl (AppError ''challenge_unavailable'' 409)
          else
            case List.find (\<lambda>w. sameAddress (fst w) (cc_controller c)) (id_controllers who) of
              None \<Rightarrow> Inl (AppError ''invalid_control_proof'' 401)
            | Some w \<Rightarrow>
                outcome_bind (xc_verifyMessage ch (cc_controller c) (cc_message c) signature) (\<lambda>valid.
                outcome_bind (require valid (AppError ''invalid_control_proof'' 401)) (\<lambda>_.
                outcome_bind (xc_deriveAddress ch (cc_controller c)) (\<lambda>addr.
                outcome_map (\<lambda>_. \<lparr>aa_id = newId, aa_environment = se_id env, aa_deploymentId = sd_id (se_deployment env),
                    aa_controller = cc_controller c, aa_address = addr, aa_walletKind = snd w,
                    aa_index = (case parse_dec (sa_index (se_account env)) of None \<Rightarrow> 0 | Some n \<Rightarrow> n), aa_createdAt = now\<rparr>)
                  (assertCurrentController lib ch addr (cc_controller c))))))"

definition bind_account :: "bool \<Rightarrow> app_lib \<Rightarrow> app_runtime \<Rightarrow> app_chain \<Rightarrow> identity \<Rightarrow> string \<Rightarrow> string \<Rightarrow> string \<Rightarrow> int \<Rightarrow> (app_db, app_account) call" where
  "bind_account tracking lib rt ch who challengeId signature newId now =
     call_bind (reading (bound_account lib rt ch who challengeId signature newId now)) (\<lambda>a.
       store_call (bindAccount tracking challengeId (id_subject who) a now))"

section \<open>Trading sessions\<close>

definition session_config :: "app_runtime \<Rightarrow> quick_trading outcome" where
  "session_config rt =
     (case se_quickTrading (ar_environment rt) of
        None \<Rightarrow> Inl (AppError ''quick_trading_disabled'' 503)
      | Some q \<Rightarrow>
          if se_asset (ar_environment rt) \<noteq> CtUSD \<or> \<not> qt_enabled q then Inl (AppError ''quick_trading_disabled'' 503)
          else Inr q)"

definition owned_session :: "app_lib \<Rightarrow> app_runtime \<Rightarrow> app_chain \<Rightarrow> identity \<Rightarrow> string \<Rightarrow> app_db \<Rightarrow> trading_session outcome" where
  "owned_session lib rt ch who k db =
     (case session_of (id_subject who) k db of
        None \<Rightarrow> Inl (AppError ''trading_session_not_found'' 404)
      | Some s \<Rightarrow>
          outcome_bind (controlledAccount lib rt ch who (ts_accountId s) False db) (\<lambda>a.
            if \<not> sameAddress (aa_address a) (ts_account s) \<or> \<not> sameAddress (aa_controller a) (ts_controller s)
            then Inl (AppError ''trading_session_account_changed'' 409) else Inr s))"

record session_view =
  vw_session :: trading_session
  vw_spent :: nat
  vw_pending :: int
  vw_revoked :: bool

definition policyId :: "trading_session \<Rightarrow> string" where
  "policyId s = ts_permissionId s @ replicate 56 (CHR ''0'')"

definition session_pending :: "string \<Rightarrow> app_db \<Rightarrow> int" where
  "session_pending k db =
     fold (\<lambda>o' n. n + sessionSpend (op_intent o'))
       (filter (\<lambda>o'. unfinished (op_state o') \<and> op_blockNumber o' = None) (sessionOperations k db)) 0"

definition view_session :: "app_lib \<Rightarrow> app_runtime \<Rightarrow> app_chain \<Rightarrow> identity \<Rightarrow> string \<Rightarrow> app_db \<Rightarrow> session_view outcome" where
  "view_session lib rt ch who k db =
     outcome_bind (owned_session lib rt ch who k db) (\<lambda>s.
     outcome_map (\<lambda>(spent, revoked).
         \<lparr>vw_session = s, vw_spent = spent, vw_pending = session_pending k db, vw_revoked = revoked\<rparr>)
       (xc_sessionState ch (qt_policy (ts_config s)) (policyId s) (ts_account s)))"

definition session_unavailable :: "app_runtime \<Rightarrow> string \<Rightarrow> business_intent \<Rightarrow> int \<Rightarrow> session_view \<Rightarrow> bool" where
  "session_unavailable rt accountId i now v =
     (let s = vw_session v; env = ar_environment rt in
      ts_state s \<noteq> SessionActive \<or> ts_accountId s \<noteq> accountId \<or> ts_environment s \<noteq> se_id env \<or>
      ts_deploymentId s \<noteq> sd_id (se_deployment env) \<or> vw_revoked v \<or> int (ts_validUntil s) * 1000 \<le> now \<or>
      \<not> supportsQuickTrading i)"

definition usable_session ::
  "app_lib \<Rightarrow> app_runtime \<Rightarrow> app_chain \<Rightarrow> identity \<Rightarrow> string \<Rightarrow> string \<Rightarrow> business_intent \<Rightarrow> int \<Rightarrow> app_db \<Rightarrow> trading_session outcome" where
  "usable_session lib rt ch who k accountId i now db =
     outcome_bind (session_config rt) (\<lambda>_.
     outcome_bind (view_session lib rt ch who k db) (\<lambda>v.
       let s = vw_session v; amount = sessionSpend i in
       if session_unavailable rt accountId i now v then Inl (AppError ''trading_session_unavailable'' 409)
       else if int (ts_perOperation s) < amount \<or> int (ts_total s) < amount + int (vw_spent v) + vw_pending v
       then Inl (AppError ''trading_session_budget_exceeded'' 409)
       else Inr s))"

definition validateOperation :: "app_lib \<Rightarrow> app_runtime \<Rightarrow> app_chain \<Rightarrow> identity \<Rightarrow> operation \<Rightarrow> int \<Rightarrow> app_db \<Rightarrow> unit outcome" where
  "validateOperation lib rt ch who o' now db =
     (if op_signingMode o' \<noteq> Some SessionSigned then Inr ()
      else
        outcome_bind (session_config rt) (\<lambda>_.
        case op_sessionId o' of
          None \<Rightarrow> Inl (AppError ''trading_session_requires_sponsorship'' 403)
        | Some k \<Rightarrow>
            if op_gasPayment o' \<noteq> Some Sponsored then Inl (AppError ''trading_session_requires_sponsorship'' 403)
            else
              outcome_bind (view_session lib rt ch who k db) (\<lambda>v.
                if session_unavailable rt (op_accountId o') (op_intent o') now v
                then Inl (AppError ''trading_session_unavailable'' 409)
                else require (sessionSpend (op_intent o') + int (vw_spent v) \<le> int (ts_total (vw_session v)))
                       (AppError ''trading_session_budget_exceeded'' 409))))"

definition prepared_session :: "app_lib \<Rightarrow> quick_trading \<Rightarrow> app_account \<Rightarrow> string \<Rightarrow> nat \<Rightarrow> nat \<Rightarrow> string \<Rightarrow> int \<Rightarrow> trading_session" where
  "prepared_session lib config a publicKey perOperation total' k now =
     \<lparr>ts_id = k, ts_accountId = aa_id a, ts_account = aa_address a, ts_controller = aa_controller a,
      ts_environment = aa_environment a, ts_deploymentId = aa_deploymentId a, ts_publicKey = publicKey,
      ts_permissionId = take 10 (ap_keccak lib k), ts_config = config, ts_perOperation = perOperation, ts_total = total',
      ts_validAfter = nat (now div 1000), ts_validUntil = nat (now div 1000) + qt_maxDurationSeconds config,
      ts_createdAt = now, ts_state = SessionPrepared, ts_authorizationHash = ''0x'' @ replicate 64 (CHR ''0'')\<rparr>"

definition prepare_session ::
  "app_lib \<Rightarrow> app_runtime \<Rightarrow> app_chain \<Rightarrow> identity \<Rightarrow> string \<Rightarrow> string \<Rightarrow> nat \<Rightarrow> nat \<Rightarrow> string \<Rightarrow> int \<Rightarrow> (app_db, trading_session) call" where
  "prepare_session lib rt ch who accountId publicKey perOperation total' k now =
     call_bind (call_of (session_config rt)) (\<lambda>config.
     call_bind (call_require (sf_sponsorship (se_features (ar_environment rt))) (AppError ''sponsorship_disabled'' 503)) (\<lambda>_.
     call_bind (call_require (perOperation \<le> qt_maxPerOperation config \<and> total' \<le> qt_maxTotal config \<and> perOperation \<le> total')
       (AppError ''trading_session_limits_invalid'' 400)) (\<lambda>_.
     call_bind (reading (controlledAccount lib rt ch who accountId True)) (\<lambda>a.
     call_bind (call_require (\<not> sameAddress publicKey (aa_controller a) \<and> \<not> sameAddress publicKey (aa_address a))
       (AppError ''trading_session_key_invalid'' 400)) (\<lambda>_.
     let s = prepared_session lib config a publicKey perOperation total' k now in
     call_bind (call_of (xc_sessionKernel ch s)) (\<lambda>kernel.
     call_bind (call_require (sameAddress (ka_address kernel) (aa_address a)) (AppError ''account_derivation_mismatch'' 409)) (\<lambda>_.
     call_bind (call_of (ka_enableHash kernel)) (\<lambda>h.
     let s1 = s\<lparr>ts_authorizationHash := h\<rparr> in
     call_bind (store_call (createTradingSession (id_subject who) s1)) (\<lambda>_. call_return s1)))))))))"

definition activate_session ::
  "app_lib \<Rightarrow> app_runtime \<Rightarrow> app_chain \<Rightarrow> identity \<Rightarrow> string \<Rightarrow> string \<Rightarrow> int \<Rightarrow> (app_db, trading_session) call" where
  "activate_session lib rt ch who k signature now =
     call_bind (call_of (session_config rt)) (\<lambda>_.
     call_bind (reading (owned_session lib rt ch who k)) (\<lambda>s.
     call_bind (reading (controlledAccount lib rt ch who (ts_accountId s) True)) (\<lambda>_.
     call_bind (call_require (ts_state s \<noteq> SessionDisabled \<and> now \<le> ts_createdAt s + 300000)
       (AppError ''trading_session_authorization_expired'' 409)) (\<lambda>_.
     call_bind (call_of (xc_sessionKernel ch s)) (\<lambda>kernel.
     call_bind (call_of (ka_enableHash kernel)) (\<lambda>digest.
     call_bind (call_require (digest = ts_authorizationHash s) (AppError ''invalid_session_authorization'' 403)) (\<lambda>_.
     call_bind (call_of (ap_recover lib digest signature)) (\<lambda>signer.
     call_bind (call_require (sameAddress signer (ts_controller s)) (AppError ''invalid_session_authorization'' 403)) (\<lambda>_.
       store_call (setTradingSessionState (id_subject who) k SessionActive))))))))))"

definition disable_session :: "app_lib \<Rightarrow> app_runtime \<Rightarrow> app_chain \<Rightarrow> identity \<Rightarrow> string \<Rightarrow> (app_db, trading_session) call" where
  "disable_session lib rt ch who k =
     call_bind (reading (owned_session lib rt ch who k)) (\<lambda>_.
       store_call (setTradingSessionState (id_subject who) k SessionDisabled))"

text \<open>Revoking on chain also disables the session in the store, before anything is signed.\<close>

definition revokeCall :: "app_lib \<Rightarrow> app_runtime \<Rightarrow> app_chain \<Rightarrow> identity \<Rightarrow> string \<Rightarrow> string \<Rightarrow> (app_db, business_call) call" where
  "revokeCall lib rt ch who k accountId =
     call_bind (reading (owned_session lib rt ch who k)) (\<lambda>s.
     call_bind (call_require (ts_accountId s = accountId) (AppError ''trading_session_account_changed'' 409)) (\<lambda>_.
     call_bind (disable_session lib rt ch who k) (\<lambda>_.
       call_return \<lparr>bc_to = qt_policy (ts_config s), bc_data = ap_encodeRevoke lib (policyId s)\<rparr>)))"

section \<open>Deposits\<close>

definition deposits_enabled :: "app_runtime \<Rightarrow> unit outcome" where
  "deposits_enabled rt =
     (let env = ar_environment rt; f = se_features env in
      if se_asset env \<noteq> USDC \<or> \<not> sameAddress (sd_paymentToken (se_deployment env)) USDC_ADDRESS \<or>
         sa_index (se_account env) \<noteq> ''1002'' \<or> sf_gaslessDeposit f \<noteq> Some True
      then Inl (AppError ''gasless_deposit_disabled'' 503)
      else if \<not> sf_sponsorship f \<or> ar_sponsor rt = None then Inl (AppError ''sponsorship_disabled'' 503)
      else require (sf_newExposure f) (AppError ''new_exposure_disabled'' 503))"

text \<open>The domain is told by its name; version, chain and contract are fixed.\<close>

definition readUsdcDomain :: "app_lib \<Rightarrow> app_chain \<Rightarrow> nat \<Rightarrow> string outcome" where
  "readUsdcDomain lib ch n =
     outcome_bind (xc_chainId ch) (\<lambda>chain.
     outcome_bind (xc_codeAt ch n USDC_ADDRESS) (\<lambda>code.
     outcome_bind (xc_usdcName ch n) (\<lambda>name.
     outcome_bind (xc_usdcDecimals ch n) (\<lambda>decimals.
     outcome_bind (xc_separator ch n) (\<lambda>separator.
     outcome_bind (xc_typehash ch n) (\<lambda>typehash.
       if chain \<noteq> 421614 \<or> code = None \<or> code = Some [] \<or> code = Some ''0x'' \<or> decimals \<noteq> 6 \<or>
          toLowerCase typehash \<noteq> toLowerCase (ap_typehash lib) \<or>
          toLowerCase (ap_domainHash lib name) \<noteq> toLowerCase separator
       then Inl (AppError ''usdc_authorization_unavailable'' 503)
       else Inr name))))))"

definition funding :: "app_chain \<Rightarrow> receive_authorization \<Rightarrow> nat \<Rightarrow> unit outcome" where
  "funding ch auth n =
     outcome_bind (xc_codeAt ch n (ra_from auth)) (\<lambda>code.
     outcome_bind (xc_balance ch n (ra_from auth)) (\<lambda>balance.
     outcome_bind (xc_authorizationState ch n (ra_from auth) (ra_nonce auth)) (\<lambda>used.
     outcome_bind (xc_paused ch n) (\<lambda>paused.
     outcome_bind (xc_blacklisted ch n (ra_from auth)) (\<lambda>fromBlocked.
     outcome_bind (xc_blacklisted ch n (ra_to auth)) (\<lambda>toBlocked.
       if code \<noteq> None \<and> code \<noteq> Some [] \<and> code \<noteq> Some ''0x'' then Inl (AppError ''deposit_source_not_eoa'' 400)
       else if used then Inl (AppError ''deposit_authorization_used'' 409)
       else if paused \<or> fromBlocked \<or> toBlocked then Inl (AppError ''usdc_transfers_unavailable'' 409)
       else require (ra_value auth \<le> balance) (AppError ''deposit_insufficient_balance'' 409)))))))"

definition chain_checks :: "app_lib \<Rightarrow> app_chain \<Rightarrow> deposit \<Rightarrow> string \<Rightarrow> int \<Rightarrow> unit outcome" where
  "chain_checks lib ch d signature minimumValiditySeconds =
     outcome_bind (xc_block ch) (\<lambda>(n, timestamp).
     outcome_bind (require (ra_validAfter (dp_authorization d) < timestamp \<and>
         int timestamp + minimumValiditySeconds < int (ra_validBefore (dp_authorization d)))
       (AppError ''deposit_authorization_expired'' 409)) (\<lambda>_.
     outcome_bind (readUsdcDomain lib ch n) (\<lambda>name.
     outcome_bind (require (name = dp_domainName d \<and> dp_token d = USDC_ADDRESS) (AppError ''deposit_domain_changed'' 409)) (\<lambda>_.
       case ap_recoverDeposit lib name (dp_authorization d) signature of
         None \<Rightarrow> Inl (AppError ''deposit_signature_invalid'' 403)
       | Some signer \<Rightarrow>
           outcome_bind (require (sameAddress signer (ra_from (dp_authorization d))) (AppError ''deposit_signature_invalid'' 403)) (\<lambda>_.
             funding ch (dp_authorization d) n)))))"

definition validateDeposit ::
  "app_lib \<Rightarrow> app_runtime \<Rightarrow> app_chain \<Rightarrow> string \<Rightarrow> string \<Rightarrow> string \<Rightarrow> string \<Rightarrow> receive_authorization \<Rightarrow> string \<Rightarrow> int \<Rightarrow>
     string option \<Rightarrow> int \<Rightarrow> app_db \<Rightarrow> unit outcome" where
  "validateDeposit lib rt ch subject accountId account depositId auth signature minimumValiditySeconds operationId now db =
     outcome_bind (deposits_enabled rt) (\<lambda>_.
     case deposit_by_id depositId now db of
       None \<Rightarrow> Inl (AppError ''deposit_not_found'' 404)
     | Some r \<Rightarrow>
         let d = sd_deposit r; env = ar_environment rt in
         if sd_subject r \<noteq> subject \<or> dp_accountId d \<noteq> accountId \<or> dp_environment d \<noteq> se_id env \<or>
            dp_deploymentId d \<noteq> sd_id (se_deployment env)
         then Inl (AppError ''deposit_not_found'' 404)
         else if dp_operationId d \<noteq> operationId then Inl (AppError ''deposit_already_registered'' 409)
         else if dp_state d = OfOperation Cancelled \<or> dp_state d = Expired \<or> \<not> sameAddress (dp_account d) account \<or>
                 \<not> sameAddress (ra_to auth) account \<or> sameAddress (ra_from auth) account \<or> dp_authorization d \<noteq> auth
         then Inl (AppError ''deposit_authorization_mismatch'' 403)
         else app_errors_only (chain_checks lib ch d signature minimumValiditySeconds))"

definition check_deposit_intent ::
  "app_lib \<Rightarrow> app_runtime \<Rightarrow> app_chain \<Rightarrow> string \<Rightarrow> string \<Rightarrow> string \<Rightarrow> business_intent \<Rightarrow> int \<Rightarrow> string option \<Rightarrow> int \<Rightarrow> app_db \<Rightarrow> unit outcome" where
  "check_deposit_intent lib rt ch subject accountId account i minimumValiditySeconds operationId now db =
     (case i of
        DepositUsdc k auth signature \<Rightarrow>
          validateDeposit lib rt ch subject accountId account k auth signature minimumValiditySeconds operationId now db
      | _ \<Rightarrow> Inr ())"

definition new_deposit :: "app_account \<Rightarrow> string \<Rightarrow> receive_authorization \<Rightarrow> string \<Rightarrow> nat \<Rightarrow> int \<Rightarrow> deposit" where
  "new_deposit a k auth name timestamp now =
     \<lparr>dp_id = k, dp_environment = aa_environment a, dp_deploymentId = aa_deploymentId a, dp_accountId = aa_id a,
      dp_account = aa_address a, dp_domainName = name, dp_token = USDC_ADDRESS, dp_authorization = auth,
      dp_state = AwaitingAuthorization, dp_operationId = None, dp_userOperationHash = None, dp_transactionHash = None,
      dp_blockNumber = None, dp_blockHash = None, dp_actualGasCost = None, dp_finality = FPending, dp_createdAt = now,
      dp_updatedAt = now, dp_expiresAt = (int timestamp + 600) * 1000, dp_reason = None\<rparr>"

definition funded_deposit ::
  "app_lib \<Rightarrow> app_chain \<Rightarrow> app_account \<Rightarrow> deposit_input \<Rightarrow> string \<Rightarrow> string \<Rightarrow> int \<Rightarrow> deposit outcome" where
  "funded_deposit lib ch a input k nonce now =
     outcome_bind (xc_block ch) (\<lambda>(n, timestamp).
     outcome_bind (readUsdcDomain lib ch n) (\<lambda>name.
     let auth = \<lparr>ra_from = dj_source input, ra_to = aa_address a, ra_value = dj_amount input, ra_validAfter = 0,
                 ra_validBefore = timestamp + 600, ra_nonce = nonce\<rparr>;
         d = new_deposit a k auth name timestamp now in
     outcome_bind (funding ch auth n) (\<lambda>_.
     outcome_map (\<lambda>_. d) (require (now < dp_expiresAt d) (AppError ''chain_query_unavailable'' 503)))))"

definition create_funded_deposit ::
  "app_lib \<Rightarrow> app_chain \<Rightarrow> identity \<Rightarrow> app_account \<Rightarrow> deposit_input \<Rightarrow> string \<Rightarrow> string \<Rightarrow> int \<Rightarrow> (app_db, deposit) call" where
  "create_funded_deposit lib ch who a input k nonce now =
     call_bind (call_of (funded_deposit lib ch a input k nonce now)) (\<lambda>d.
     call_bind (store_call (createDeposit \<lparr>sd_deposit = d, sd_subject = id_subject who,
         sd_idempotencyKey = dj_idempotencyKey input, sd_requestHash = ap_depositHash lib input\<rparr>)) (\<lambda>e.
       call_return (sd_deposit e)))"

definition prepare_deposit ::
  "app_lib \<Rightarrow> app_runtime \<Rightarrow> app_chain \<Rightarrow> identity \<Rightarrow> deposit_input \<Rightarrow> string \<Rightarrow> string \<Rightarrow> int \<Rightarrow> (app_db, deposit) call" where
  "prepare_deposit lib rt ch who input k nonce now =
     call_bind (reading (controlledAccount lib rt ch who (dj_accountId input) False)) (\<lambda>a.
     call_bind (reading (\<lambda>db. Inr (depositByKey (id_subject who) (dj_idempotencyKey input) now db))) (\<lambda>prior.
     case prior of
       Some e \<Rightarrow>
         if sd_requestHash e \<noteq> ap_depositHash lib input then call_throw (AppError ''idempotency_conflict'' 409)
         else call_return (sd_deposit e)
     | None \<Rightarrow>
         call_bind (call_of (deposits_enabled rt)) (\<lambda>_.
         call_bind (reading (controlledAccount lib rt ch who (dj_accountId input) True)) (\<lambda>_.
         call_bind (call_require (\<not> sameAddress (dj_source input) (aa_address a)) (AppError ''deposit_recipient_mismatch'' 403)) (\<lambda>_.
           app_errors_call (create_funded_deposit lib ch who a input k nonce now))))))"

definition owned_deposit :: "app_lib \<Rightarrow> app_runtime \<Rightarrow> app_chain \<Rightarrow> identity \<Rightarrow> string \<Rightarrow> int \<Rightarrow> app_db \<Rightarrow> deposit outcome" where
  "owned_deposit lib rt ch who k now db =
     (case deposit_by_id k now db of
        None \<Rightarrow> Inl (AppError ''deposit_not_found'' 404)
      | Some r \<Rightarrow>
          if sd_subject r \<noteq> id_subject who then Inl (AppError ''deposit_not_found'' 404)
          else outcome_map (\<lambda>_. sd_deposit r) (controlledAccount lib rt ch who (dp_accountId (sd_deposit r)) False db))"

section \<open>Operations\<close>

definition op_by_id :: "string \<Rightarrow> app_db \<Rightarrow> stored_operation outcome" where
  "op_by_id k db = (case op_of db k of None \<Rightarrow> Inl (AppError ''operation_not_found'' 404) | Some v \<Rightarrow> Inr v)"

definition ownedOperation :: "app_lib \<Rightarrow> app_runtime \<Rightarrow> app_chain \<Rightarrow> identity \<Rightarrow> string \<Rightarrow> app_db \<Rightarrow> operation outcome" where
  "ownedOperation lib rt ch who k db =
     outcome_bind (op_by_id k db) (\<lambda>v.
     outcome_map (\<lambda>_. so_operation v)
       (controlledAccount lib rt ch who (op_accountId (so_operation v)) False db))"

definition no_patch :: operation_patch where
  "no_patch = \<lparr>pt_state = None, pt_providerOperationId = None, pt_userOperationHash = None, pt_transactionHash = None,
     pt_blockNumber = None, pt_blockHash = None, pt_actualGasCost = None, pt_updatedAt = None, pt_reason = None,
     pt_finality = None, pt_sponsorshipAttempted = None, pt_gasSettledAt = None\<rparr>"

definition cancel_operation :: "app_lib \<Rightarrow> app_runtime \<Rightarrow> app_chain \<Rightarrow> identity \<Rightarrow> string \<Rightarrow> int \<Rightarrow> (app_db, operation) call" where
  "cancel_operation lib rt ch who k now =
     call_bind (reading (ownedOperation lib rt ch who k)) (\<lambda>_.
     call_bind (store_call (transition k [Preparing, AwaitingSignature]
       (no_patch\<lparr>pt_state := Some Cancelled, pt_reason := Some (Some ''user_cancelled_before_submission''),
          pt_updatedAt := Some now\<rparr>))) (\<lambda>(changed, v).
       if \<not> changed then call_throw (AppError ''operation_already_submitted'' 409) else call_return (so_operation v)))"

definition cancel_deposit :: "app_lib \<Rightarrow> app_runtime \<Rightarrow> app_chain \<Rightarrow> identity \<Rightarrow> string \<Rightarrow> int \<Rightarrow> (app_db, deposit) call" where
  "cancel_deposit lib rt ch who k now =
     call_bind (reading (owned_deposit lib rt ch who k now)) (\<lambda>d.
     case dp_operationId d of
       Some j \<Rightarrow>
         call_bind (cancel_operation lib rt ch who j now) (\<lambda>_. reading (owned_deposit lib rt ch who k now))
     | None \<Rightarrow>
         call_bind (store_call (cancelDeposit k (id_subject who) now)) (\<lambda>e. call_return (sd_deposit e)))"

record prepared_operation =
  pr_account :: app_account
  pr_nonce :: nat
  pr_calls :: "business_call list"
  pr_callData :: string
  pr_factory :: "string option"
  pr_factoryData :: "string option"
  pr_maxGasCost :: nat

definition prepared_calls ::
  "app_lib \<Rightarrow> app_runtime \<Rightarrow> app_chain \<Rightarrow> admission_reader \<Rightarrow> identity \<Rightarrow> app_account \<Rightarrow> string \<Rightarrow> business_intent \<Rightarrow> nat \<Rightarrow>
     (app_db, business_call list) call" where
  "prepared_calls lib rt ch reader who a accountId i timestamp =
     (case i of
        RevokeTradingSession k \<Rightarrow> call_bind (revokeCall lib rt ch who k accountId) (\<lambda>c. call_return [c])
      | _ \<Rightarrow> call_of (buildBusinessCalls (ap_calls lib) (ar_environment rt) (aa_address a) i reader (int timestamp)))"

definition operation_kernel ::
  "app_lib \<Rightarrow> app_runtime \<Rightarrow> app_chain \<Rightarrow> identity \<Rightarrow> app_account \<Rightarrow> string \<Rightarrow> business_intent \<Rightarrow> string option \<Rightarrow> int \<Rightarrow> app_db \<Rightarrow>
     kernel_account outcome" where
  "operation_kernel lib rt ch who a accountId i sessionId now db =
     (case sessionId of
        None \<Rightarrow> xc_kernel ch a
      | Some k \<Rightarrow> outcome_bind (usable_session lib rt ch who k accountId i now db) (xc_sessionKernel ch))"

definition prepare_operation ::
  "app_lib \<Rightarrow> app_runtime \<Rightarrow> app_chain \<Rightarrow> admission_reader \<Rightarrow> identity \<Rightarrow> string \<Rightarrow> business_intent \<Rightarrow> gas_payment \<Rightarrow>
     signing_mode option \<Rightarrow> string option \<Rightarrow> int \<Rightarrow> (app_db, prepared_operation) call" where
  "prepare_operation lib rt ch reader who accountId i gasPayment signingMode sessionId now =
     (case ar_sponsor rt of
        None \<Rightarrow> call_throw (AppError ''sponsorship_disabled'' 503)
      | Some sponsor \<Rightarrow>
     call_bind (call_require (gasPayment \<noteq> Sponsored \<or> sf_sponsorship (se_features (ar_environment rt)))
       (AppError ''sponsorship_disabled'' 503)) (\<lambda>_.
     call_bind (reading (controlledAccount lib rt ch who accountId True)) (\<lambda>a.
     call_bind (reading (check_deposit_intent lib rt ch (id_subject who) accountId (aa_address a) i
       (ar_validitySeconds rt + 10) None now)) (\<lambda>_.
     call_bind (call_require ((signingMode = Some SessionSigned) = (sessionId \<noteq> None)) (AppError ''invalid_signing_mode'' 400)) (\<lambda>_.
     call_bind (call_require (signingMode \<noteq> Some SessionSigned \<or> gasPayment = Sponsored)
       (AppError ''trading_session_requires_sponsorship'' 403)) (\<lambda>_.
     call_bind (reading (operation_kernel lib rt ch who a accountId i sessionId now)) (\<lambda>kernel.
     call_bind (call_of (xc_block ch)) (\<lambda>(n, timestamp).
     call_bind (call_require (sameAddress (ka_address kernel) (aa_address a)) (AppError ''account_derivation_mismatch'' 409)) (\<lambda>_.
     call_bind (prepared_calls lib rt ch reader who a accountId i timestamp) (\<lambda>calls.
     call_bind (call_of (ka_nonce kernel)) (\<lambda>nonce.
     call_bind (call_of (ka_encodeCalls kernel calls)) (\<lambda>data.
     call_bind (call_of (ka_factoryArgs kernel)) (\<lambda>(factory, factoryData).
       call_return \<lparr>pr_account = a, pr_nonce = nonce, pr_calls = calls, pr_callData = data, pr_factory = factory,
         pr_factoryData = factoryData, pr_maxGasCost = sc_maxCostPerOperation sponsor\<rparr>)))))))))))))"

definition registered_operation ::
  "app_runtime \<Rightarrow> register_input \<Rightarrow> prepared_operation \<Rightarrow> string \<Rightarrow> int \<Rightarrow> operation" where
  "registered_operation rt input p k now =
     \<lparr>op_signingMode = rg_signingMode input, op_sessionId = rg_sessionId input, op_id = k,
      op_environment = se_id (ar_environment rt), op_deploymentId = sd_id (se_deployment (ar_environment rt)),
      op_accountId = aa_id (pr_account p), op_account = aa_address (pr_account p), op_kind = intent_kind (rg_intent input),
      op_intent = rg_intent input, op_state = AwaitingSignature, op_nonce = rg_nonce input, op_calls = pr_calls p,
      op_callData = rg_callData input, op_factory = rg_factory input, op_factoryData = rg_factoryData input,
      op_providerOperationId = None, op_userOperationHash = None, op_transactionHash = None, op_blockNumber = None,
      op_blockHash = None, op_actualGasCost = None, op_finality = FPending, op_createdAt = now, op_updatedAt = now,
      op_expiresAt = now + ar_validitySeconds rt * 1000, op_maxGasCost = pr_maxGasCost p,
      op_lane = budgetLane (intent_kind (rg_intent input)), op_reason = None,
      op_gasPayment = Some (case rg_gasPayment input of None \<Rightarrow> Sponsored | Some g \<Rightarrow> g),
      op_sponsorshipAttempted = Some False, op_gasSettledAt = None, op_gasReleasedAt = None\<rparr>"

definition same_text :: "string option \<Rightarrow> string option \<Rightarrow> bool" where
  "same_text a b = (map_option toLowerCase a = map_option toLowerCase b)"

definition register_new ::
  "app_lib \<Rightarrow> app_runtime \<Rightarrow> app_chain \<Rightarrow> admission_reader \<Rightarrow> identity \<Rightarrow> register_input \<Rightarrow> string \<Rightarrow> int \<Rightarrow> (app_db, operation) call" where
  "register_new lib rt ch reader who input k now =
     call_bind (prepare_operation lib rt ch reader who (rg_accountId input) (rg_intent input)
       (case rg_gasPayment input of None \<Rightarrow> Sponsored | Some g \<Rightarrow> g) (rg_signingMode input) (rg_sessionId input) now) (\<lambda>p.
     call_bind (call_require (toLowerCase (rg_callData input) = toLowerCase (pr_callData p) \<and> rg_nonce input = pr_nonce p \<and>
         same_text (rg_factory input) (pr_factory p) \<and> same_text (rg_factoryData input) (pr_factoryData p))
       (AppError ''operation_preparation_changed'' 409)) (\<lambda>_.
     case ar_sponsor rt of
       None \<Rightarrow> call_throw (AppError ''sponsorship_disabled'' 503)
     | Some limits \<Rightarrow>
         call_bind (store_call (admit \<lparr>so_operation = registered_operation rt input p k now, so_subject = id_subject who,
             so_idempotencyKey = rg_idempotencyKey input, so_requestHash = ap_requestHash lib input\<rparr> limits)) (\<lambda>v.
           call_return (so_operation v))))"

definition register ::
  "app_lib \<Rightarrow> app_runtime \<Rightarrow> app_chain \<Rightarrow> admission_reader \<Rightarrow> identity \<Rightarrow> register_input \<Rightarrow> string \<Rightarrow> int \<Rightarrow> (app_db, operation) call" where
  "register lib rt ch reader who input k now =
     (let env = ar_environment rt in
      call_bind (call_require (rg_environment input = se_id env \<and> rg_deploymentId input = sd_id (se_deployment env))
        (AppError ''environment_mismatch'' 409)) (\<lambda>_.
      call_bind (reading (controlledAccount lib rt ch who (rg_accountId input) False)) (\<lambda>_.
      call_bind (reading (\<lambda>db. Inr (byKey (id_subject who) (rg_idempotencyKey input) db))) (\<lambda>old.
      case old of
        None \<Rightarrow> register_new lib rt ch reader who input k now
      | Some v \<Rightarrow>
          if so_requestHash v \<noteq> ap_requestHash lib input then call_throw (AppError ''idempotency_conflict'' 409)
          else call_return (so_operation v)))))"

section \<open>What calls do to the store\<close>

text \<open>
  The calls of the service change the store by its transactions only. \<open>store_step\<close> are the steps they are made
  of: admitted operations satisfy \<open>P\<close>; a transition does not leave \<open>Cancelled\<close>, does not touch the hash of the
  user operation and leads to \<open>Cancelled\<close> or \<open>Unknown\<close> at most; sessions keep the configuration of the environment.
\<close>

definition quiet_patch :: "operation_patch \<Rightarrow> bool" where
  "quiet_patch p =
     (pt_userOperationHash p = None \<and>
      (case pt_state p of
         None \<Rightarrow> pt_transactionHash p = None \<and> pt_blockHash p = None
       | Some st \<Rightarrow> st = Cancelled \<or> st = Unknown))"

definition sessions_configured :: "site_environment \<Rightarrow> app_db \<Rightarrow> bool" where
  "sessions_configured env db = list_all (\<lambda>p. se_quickTrading env = Some (ts_config (snd p))) (db_sessions db)"

inductive store_step :: "site_environment \<Rightarrow> (operation \<Rightarrow> bool) \<Rightarrow> app_db \<Rightarrow> app_db \<Rightarrow> bool" for env P where
  step_admits: "admit v limits db = Inr (w, db') \<Longrightarrow>
     (op_signingMode (so_operation v) = Some SessionSigned) = (op_sessionId (so_operation v) \<noteq> None) \<Longrightarrow>
     P (so_operation v) \<Longrightarrow> store_step env P db db'"
| step_moves: "transition k origin p db = Inr (r, db') \<Longrightarrow> Cancelled \<notin> set origin \<Longrightarrow> quiet_patch p \<Longrightarrow> store_step env P db db'"
| step_others: "db_step db db' \<Longrightarrow> db_operations db' = db_operations db \<Longrightarrow>
     (sessions_configured env db \<Longrightarrow> sessions_configured env db') \<Longrightarrow> store_step env P db db'"

lemma store_step_db: "store_step env P db db' \<Longrightarrow> db_step db db'"
  by (induction rule: store_step.induct) (auto intro: step_admit step_transition)

lemma steps_reachable: "(store_step env P)\<^sup>*\<^sup>* db db' \<Longrightarrow> db_reachable carry db \<Longrightarrow> db_reachable carry db'"
  by (induction rule: rtranclp_induct) (auto intro: db_next store_step_db)

lemma register_deposit_sessions [simp]: "db_sessions (register_deposit o' db) = db_sessions db"
  by (cases "op_intent o'") (simp_all add: register_deposit_def update_deposit_def)

lemma admit_sessions:
  assumes "admit v limits db = Inr (w, db')"
  shows "db_sessions db' = db_sessions db"
proof (cases "byKey (so_subject v) (so_idempotencyKey v) db")
  case None
  then obtain db1 where "insert_operation v db = Inr db1" "db' = register_deposit (so_operation v) db1"
    using assms by (auto simp: admit_def)
  then show ?thesis by (auto simp: insert_operation_def split: if_splits)
next
  case (Some prior)
  then show ?thesis using assms by (auto simp: admit_def split: if_splits)
qed

lemma transition_sessions: "transition k origin p db = Inr (r, db') \<Longrightarrow> db_sessions db' = db_sessions db"
  by (auto simp: transition_def Let_def split: option.splits if_splits)

lemma step_configured: "store_step env P db db' \<Longrightarrow> sessions_configured env db \<Longrightarrow> sessions_configured env db'"
  by (induction rule: store_step.induct) (auto simp: sessions_configured_def admit_sessions transition_sessions)

lemma steps_configured: "(store_step env P)\<^sup>*\<^sup>* db db' \<Longrightarrow> sessions_configured env db \<Longrightarrow> sessions_configured env db'"
  by (induction rule: rtranclp_induct) (auto intro: step_configured)

definition call_steps :: "site_environment \<Rightarrow> (operation \<Rightarrow> bool) \<Rightarrow> (app_db, 'a) call \<Rightarrow> bool" where
  "call_steps env P m = (\<forall>db. sessions_configured env db \<longrightarrow> (store_step env P)\<^sup>*\<^sup>* db (snd (m db)))"

named_theorems steps \<open>calls made of store steps\<close>

lemma steps_return [steps]: "call_steps env P (call_return a)"
  by (simp add: call_steps_def call_return_def)

lemma steps_throw [steps]: "call_steps env P (call_throw e)"
  by (simp add: call_steps_def call_throw_def)

lemma steps_of [steps]: "call_steps env P (call_of v)"
  by (simp add: call_steps_def call_of_def)

lemma steps_require [steps]: "call_steps env P (call_require b e)"
  by (simp add: call_require_def steps_return steps_throw)

lemma steps_reading [steps]: "call_steps env P (reading f)"
  by (simp add: call_steps_def reading_def)

lemma steps_bind_result:
  assumes m: "call_steps env P m"
    and g: "\<And>a db db'. sessions_configured env db \<Longrightarrow> m db = (Inr a, db') \<Longrightarrow> call_steps env P (g a)"
  shows "call_steps env P (call_bind m g)"
  unfolding call_steps_def
proof (intro allI impI)
  fix db
  assume ok: "sessions_configured env db"
  obtain r t where r: "m db = (r, t)" by fastforce
  then have mt: "(store_step env P)\<^sup>*\<^sup>* db t" using m ok by (metis call_steps_def snd_conv)
  show "(store_step env P)\<^sup>*\<^sup>* db (snd (call_bind m g db))"
  proof (cases r)
    case (Inl e)
    then show ?thesis using r mt by (simp add: call_bind_def)
  next
    case (Inr a)
    then have "(store_step env P)\<^sup>*\<^sup>* t (snd (g a t))"
      using g [OF ok] r steps_configured [OF mt ok] by (simp add: call_steps_def)
    then show ?thesis using r mt Inr by (simp add: call_bind_def)
  qed
qed

lemma steps_bind [steps]: "call_steps env P m \<Longrightarrow> (\<And>a. call_steps env P (g a)) \<Longrightarrow> call_steps env P (call_bind m g)"
  by (rule steps_bind_result)

lemma steps_if [steps]: "call_steps env P m \<Longrightarrow> call_steps env P n \<Longrightarrow> call_steps env P (if b then m else n)"
  by simp

lemma steps_option [steps]:
  "call_steps env P n \<Longrightarrow> (\<And>a. call_steps env P (g a)) \<Longrightarrow> call_steps env P (case x of None \<Rightarrow> n | Some a \<Rightarrow> g a)"
  by (cases x) simp_all

lemma steps_prod [steps]: "(\<And>a b. call_steps env P (g a b)) \<Longrightarrow> call_steps env P (case p of (a, b) \<Rightarrow> g a b)"
  by (cases p) simp

lemma steps_errors [steps]: "call_steps env P m \<Longrightarrow> call_steps env P (app_errors_call m)"
  by (simp add: call_steps_def app_errors_call_def split: prod.splits) (metis snd_conv)

lemma steps_store:
  assumes "\<And>db r db'. t db = Inr (r, db') \<Longrightarrow> store_step env P db db'"
  shows "call_steps env P (store_call t)"
  using assms by (auto simp: call_steps_def store_call_def split: sum.splits)

lemma steps_run: "call_steps env P m \<Longrightarrow> m db = (r, db') \<Longrightarrow> sessions_configured env db \<Longrightarrow> (store_step env P)\<^sup>*\<^sup>* db db'"
  by (metis call_steps_def snd_conv)

lemma steps_transition: "Cancelled \<notin> set origin \<Longrightarrow> quiet_patch p \<Longrightarrow> call_steps env P (store_call (transition k origin p))"
  by (rule steps_store) (auto intro: step_moves)

lemma update_sessions_ops [simp]: "db_operations (update_sessions sel st db) = db_operations db"
  by (simp add: update_sessions_def)

lemma update_sessions_configured [simp]: "sessions_configured env (update_sessions sel st db) = sessions_configured env db"
proof -
  have "ts_config (snd (if sel p then (fst p, (snd p)\<lparr>ts_state := st\<rparr>) else p)) = ts_config (snd p)" for p by simp
  then show ?thesis by (simp add: sessions_configured_def update_sessions_def list.pred_map comp_def)
qed

lemma steps_challenge [steps]: "call_steps env P (store_call (createChallenge c))"
  by (rule steps_store, rule step_others, erule step_challenge)
    (auto simp: createChallenge_def sessions_configured_def split: if_splits)

lemma insert_account_operations: "insert_account a db = Inr db' \<Longrightarrow> db_operations db' = db_operations db"
  by (auto simp: insert_account_def split: if_splits)

lemma insert_account_sessions: "insert_account a db = Inr db' \<Longrightarrow> db_sessions db' = db_sessions db"
  by (auto simp: insert_account_def split: if_splits)

lemma bindAccount_operations:
  assumes "bindAccount tracking k subject a now db = Inr (r, db')"
  shows "db_operations db' = db_operations db" and "db_sessions db' = db_sessions db"
proof -
  obtain db2 where "insert_account a (db\<lparr>db_challenges :=
      map (\<lambda>c. if challenge_matches k subject a now c then c\<lparr>cc_consumed := True\<rparr> else c) (db_challenges db)\<rparr>) = Inr db2"
    and "db_operations db' = db_operations db2" "db_sessions db' = db_sessions db2"
    using assms by (cases tracking) (auto simp: bindAccount_def Let_def split: if_split_asm option.split_asm)
  then show "db_operations db' = db_operations db" and "db_sessions db' = db_sessions db"
    using insert_account_operations insert_account_sessions by fastforce+
qed

lemma steps_bindAccount [steps]: "call_steps env P (store_call (bindAccount tracking k subject a now))"
  by (rule steps_store, rule step_others, erule step_bind) (simp_all add: bindAccount_operations sessions_configured_def)

lemma steps_createSession:
  "se_quickTrading env = Some (ts_config s) \<Longrightarrow> call_steps env P (store_call (createTradingSession subject s))"
  by (rule steps_store, rule step_others, erule step_session)
    (auto simp: createTradingSession_def sessions_configured_def split: if_splits)

lemma steps_setSession [steps]: "call_steps env P (store_call (setTradingSessionState subject k st))"
  by (rule steps_store, rule step_others, erule step_session_state)
    (auto simp: setTradingSessionState_def Let_def split: option.splits if_splits)

lemma steps_cancelDeposit [steps]: "call_steps env P (store_call (cancelDeposit k subject now))"
  by (rule steps_store, rule step_others, erule step_cancel)
    (auto simp: cancelDeposit_def update_deposit_def sessions_configured_def Let_def split: option.splits if_splits)

lemma steps_createDeposit:
  assumes "dp_operationId (sd_deposit e) = None"
  shows "call_steps env P (store_call (createDeposit e))"
proof (rule steps_store, rule step_others)
  fix db r db'
  assume c: "createDeposit e db = Inr (r, db')"
  show "db_step db db'" using c assms by (rule step_deposit)
  show "db_operations db' = db_operations db"
    using c by (auto simp: createDeposit_def insert_deposit_def Let_def split: option.splits if_splits)
  show "sessions_configured env db'" if "sessions_configured env db"
    using c that by (auto simp: createDeposit_def insert_deposit_def sessions_configured_def Let_def split: option.splits if_splits)
qed

lemma no_patch_simps [simp]:
  "pt_state no_patch = None" "pt_userOperationHash no_patch = None" "pt_transactionHash no_patch = None"
  "pt_blockHash no_patch = None"
  by (simp_all add: no_patch_def)

lemma steps_cancel_operation [steps]: "call_steps env P (cancel_operation lib rt ch who k now)"
  unfolding cancel_operation_def by (intro steps steps_transition) (auto simp: quiet_patch_def)

lemma steps_cancel_deposit: "call_steps env P (cancel_deposit lib rt ch who k now)"
  unfolding cancel_deposit_def by (intro steps)

lemma steps_challenge_call: "call_steps env P (challenge lib rt ch who controller k now)"
  unfolding challenge_def by (simp add: Let_def) (intro steps)

lemma steps_bind_call: "call_steps env P (bind_account tracking lib rt ch who challengeId signature newId now)"
  unfolding bind_account_def by (intro steps)

lemma session_config_of: "session_config rt = Inr q \<Longrightarrow> se_quickTrading (ar_environment rt) = Some q"
  by (auto simp: session_config_def split: option.splits if_splits)

lemma steps_prepare_session:
  "call_steps (ar_environment rt) P (prepare_session lib rt ch who accountId key perOperation total' k now)"
  unfolding prepare_session_def Let_def
proof (rule steps_bind_result [OF steps_of])
  fix q and db db' :: app_db
  assume "call_of (session_config rt) db = (Inr q, db')"
  then have "se_quickTrading (ar_environment rt) = Some q" by (auto simp: call_done dest: session_config_of)
  then show "call_steps (ar_environment rt) P
      (call_bind (call_require (sf_sponsorship (se_features (ar_environment rt))) (AppError ''sponsorship_disabled'' 503)) (\<lambda>_.
       call_bind (call_require (perOperation \<le> qt_maxPerOperation q \<and> total' \<le> qt_maxTotal q \<and> perOperation \<le> total')
         (AppError ''trading_session_limits_invalid'' 400)) (\<lambda>_.
       call_bind (reading (controlledAccount lib rt ch who accountId True)) (\<lambda>a.
       call_bind (call_require (\<not> sameAddress key (aa_controller a) \<and> \<not> sameAddress key (aa_address a))
         (AppError ''trading_session_key_invalid'' 400)) (\<lambda>_.
       call_bind (call_of (xc_sessionKernel ch (prepared_session lib q a key perOperation total' k now))) (\<lambda>kn.
       call_bind (call_require (sameAddress (ka_address kn) (aa_address a)) (AppError ''account_derivation_mismatch'' 409)) (\<lambda>_.
       call_bind (call_of (ka_enableHash kn)) (\<lambda>h.
       call_bind (store_call (createTradingSession (id_subject who)
           ((prepared_session lib q a key perOperation total' k now)\<lparr>ts_authorizationHash := h\<rparr>)))
         (\<lambda>_. call_return ((prepared_session lib q a key perOperation total' k now)\<lparr>ts_authorizationHash := h\<rparr>))))))))))"
    by (intro steps steps_createSession) (simp add: prepared_session_def)
qed

lemma steps_activate_session: "call_steps env P (activate_session lib rt ch who k signature now)"
  unfolding activate_session_def by (intro steps)

lemma steps_disable_session [steps]: "call_steps env P (disable_session lib rt ch who k)"
  unfolding disable_session_def by (intro steps)

lemma steps_revokeCall [steps]: "call_steps env P (revokeCall lib rt ch who k accountId)"
  unfolding revokeCall_def by (intro steps)

lemma steps_new_deposit [steps]: "call_steps env P (create_funded_deposit lib ch who a input k nonce now)"
  unfolding create_funded_deposit_def
proof (rule steps_bind_result [OF steps_of])
  fix d and db db' :: app_db
  assume "call_of (funded_deposit lib ch a input k nonce now) db = (Inr d, db')"
  then have "dp_operationId d = None" by (auto simp: call_of_def funded_deposit_def new_deposit_def Let_def)
  then show "call_steps env P (call_bind (store_call (createDeposit \<lparr>sd_deposit = d, sd_subject = id_subject who,
      sd_idempotencyKey = dj_idempotencyKey input, sd_requestHash = ap_depositHash lib input\<rparr>)) (\<lambda>e. call_return (sd_deposit e)))"
    by (intro steps steps_createDeposit) simp
qed

lemma steps_prepare_deposit: "call_steps env P (prepare_deposit lib rt ch who input k nonce now)"
  unfolding prepare_deposit_def by (intro steps)

lemma steps_prepared_calls [steps]: "call_steps env P (prepared_calls lib rt ch reader who a accountId i timestamp)"
  by (cases i) (auto simp: prepared_calls_def intro!: steps)

lemma steps_prepare_operation [steps]:
  "call_steps env P (prepare_operation lib rt ch reader who accountId i gas mode sessionId now)"
  unfolding prepare_operation_def by (intro steps)

section \<open>Registered operations do what their intent says\<close>

text \<open>
  \<open>R\<close> and \<open>C\<close> are the readers and chains a run meets. The calls of an operation are those built from its intent,
  or the revocation of a session; the call data is the account's encoding of them.
\<close>

definition intent_calls :: "app_lib \<Rightarrow> site_environment \<Rightarrow> (admission_reader \<Rightarrow> bool) \<Rightarrow> operation \<Rightarrow> bool" where
  "intent_calls lib env R o' =
     (case op_intent o' of
        RevokeTradingSession k \<Rightarrow>
          \<exists>q s. se_quickTrading env = Some q \<and> ts_id s = k \<and>
            op_calls o' = [\<lparr>bc_to = qt_policy q, bc_data = ap_encodeRevoke lib (policyId s)\<rparr>]
      | i \<Rightarrow> \<exists>reader t. R reader \<and> buildBusinessCalls (ap_calls lib) env (op_account o') i reader t = Inr (op_calls o'))"

definition encodes_calls :: "(app_chain \<Rightarrow> bool) \<Rightarrow> operation \<Rightarrow> bool" where
  "encodes_calls C o' =
     (\<exists>ch kn data. C ch \<and> ((\<exists>a. xc_kernel ch a = Inr kn) \<or> (\<exists>s. xc_sessionKernel ch s = Inr kn)) \<and>
        sameAddress (ka_address kn) (op_account o') \<and> ka_encodeCalls kn (op_calls o') = Inr data \<and>
        toLowerCase (op_callData o') = toLowerCase data)"

definition does_intent ::
  "app_lib \<Rightarrow> site_environment \<Rightarrow> (app_chain \<Rightarrow> bool) \<Rightarrow> (admission_reader \<Rightarrow> bool) \<Rightarrow> operation \<Rightarrow> bool" where
  "does_intent lib env C R o' = (intent_calls lib env R o' \<and> encodes_calls C o')"

definition new_intent ::
  "app_lib \<Rightarrow> site_environment \<Rightarrow> (app_chain \<Rightarrow> bool) \<Rightarrow> (admission_reader \<Rightarrow> bool) \<Rightarrow> operation \<Rightarrow> bool" where
  "new_intent lib env C R o' =
     (does_intent lib env C R o' \<and> op_state o' = AwaitingSignature \<and> op_userOperationHash o' = None)"

lemma reading_done [call_done]: "reading f s = (Inr b, t) \<longleftrightarrow> f s = Inr b \<and> t = s"
  by (auto simp: reading_def)

lemma store_call_done [call_done]: "store_call f s = (Inr b, t) \<longleftrightarrow> f s = Inr (b, t)"
  by (auto simp: store_call_def split: sum.splits)

lemma owned_session_stored:
  "owned_session lib rt ch who k db = Inr s \<Longrightarrow> ts_id s = k \<and> (\<exists>subject. (subject, s) \<in> set (db_sessions db))"
  by (auto simp: owned_session_def session_of_def split: option.splits if_splits dest!: find_SomeD)

lemma revokeCall_result:
  assumes "revokeCall lib rt ch who k accountId db = (Inr c, db')" "sessions_configured env db"
  shows "\<exists>q s. se_quickTrading env = Some q \<and> ts_id s = k \<and> c = \<lparr>bc_to = qt_policy q, bc_data = ap_encodeRevoke lib (policyId s)\<rparr>"
proof -
  obtain s where s: "owned_session lib rt ch who k db = Inr s"
      "c = \<lparr>bc_to = qt_policy (ts_config s), bc_data = ap_encodeRevoke lib (policyId s)\<rparr>"
    using assms(1) by (auto simp: revokeCall_def call_done)
  then have "se_quickTrading env = Some (ts_config s)"
    using owned_session_stored [OF s(1)] assms(2) by (auto simp: sessions_configured_def list_all_iff)
  then show ?thesis using s owned_session_stored [OF s(1)] by auto
qed

lemma prepared_calls_result:
  assumes "prepared_calls lib rt ch reader who a accountId i t db = (Inr calls, db')" "sessions_configured env db"
  shows "case i of RevokeTradingSession k \<Rightarrow>
      \<exists>q s. se_quickTrading env = Some q \<and> ts_id s = k \<and> calls = [\<lparr>bc_to = qt_policy q, bc_data = ap_encodeRevoke lib (policyId s)\<rparr>]
    | _ \<Rightarrow> buildBusinessCalls (ap_calls lib) (ar_environment rt) (aa_address a) i reader (int t) = Inr calls"
  using assms by (cases i) (auto simp: prepared_calls_def call_done dest!: revokeCall_result)

lemma prepare_result:
  assumes "prepare_operation lib rt ch reader who accountId i gas mode sid now db = (Inr p, db')"
  obtains kn t db2 where
    "(mode = Some SessionSigned) = (sid \<noteq> None)"
    "operation_kernel lib rt ch who (pr_account p) accountId i sid now db = Inr kn"
    "sameAddress (ka_address kn) (aa_address (pr_account p))"
    "prepared_calls lib rt ch reader who (pr_account p) accountId i t db = (Inr (pr_calls p), db2)"
    "ka_encodeCalls kn (pr_calls p) = Inr (pr_callData p)"
  using assms by (auto simp: prepare_operation_def call_done split: option.splits)

lemma operation_kernel_known:
  "operation_kernel lib rt ch who a accountId i sid now db = Inr kn \<Longrightarrow>
     (\<exists>a. xc_kernel ch a = Inr kn) \<or> (\<exists>s. xc_sessionKernel ch s = Inr kn)"
  by (auto simp: operation_kernel_def split: option.splits)

lemma registered_does_intent:
  assumes "C ch" "R reader" "sessions_configured (ar_environment rt) db"
    and "prepare_operation lib rt ch reader who (rg_accountId input) (rg_intent input) gas (rg_signingMode input) (rg_sessionId input)
           now db = (Inr p, db')"
    and "toLowerCase (rg_callData input) = toLowerCase (pr_callData p)"
  shows "new_intent lib (ar_environment rt) C R (registered_operation rt input p k now) \<and>
    (rg_signingMode input = Some SessionSigned) = (rg_sessionId input \<noteq> None)"
proof -
  obtain kn t db2 where r:
    "(rg_signingMode input = Some SessionSigned) = (rg_sessionId input \<noteq> None)"
    "operation_kernel lib rt ch who (pr_account p) (rg_accountId input) (rg_intent input) (rg_sessionId input) now db = Inr kn"
    "sameAddress (ka_address kn) (aa_address (pr_account p))"
    "prepared_calls lib rt ch reader who (pr_account p) (rg_accountId input) (rg_intent input) t db = (Inr (pr_calls p), db2)"
    "ka_encodeCalls kn (pr_calls p) = Inr (pr_callData p)"
    using assms(4) by (rule prepare_result)
  have "intent_calls lib (ar_environment rt) R (registered_operation rt input p k now)"
    using prepared_calls_result [OF r(4) assms(3)] assms(2)
    by (cases "rg_intent input") (auto simp: intent_calls_def registered_operation_def)
  moreover have "encodes_calls C (registered_operation rt input p k now)"
    using operation_kernel_known [OF r(2)] assms(1,5) r(3,5)
    unfolding encodes_calls_def registered_operation_def by auto
  ultimately show ?thesis using r(1) by (simp add: new_intent_def does_intent_def registered_operation_def)
qed

lemma steps_register_new:
  assumes "C ch" "R reader"
  shows "call_steps (ar_environment rt) (new_intent lib (ar_environment rt) C R) (register_new lib rt ch reader who input k now)"
proof -
  have admits: "call_steps (ar_environment rt) (new_intent lib (ar_environment rt) C R)
      (store_call (admit \<lparr>so_operation = registered_operation rt input p k now, so_subject = subject, so_idempotencyKey = key,
         so_requestHash = h\<rparr> limits))"
    if "new_intent lib (ar_environment rt) C R (registered_operation rt input p k now)"
      "(rg_signingMode input = Some SessionSigned) = (rg_sessionId input \<noteq> None)" for p subject key h limits
    by (rule steps_store, erule step_admits) (use that in \<open>simp_all add: registered_operation_def\<close>)
  show ?thesis
    unfolding register_new_def
  proof (rule steps_bind_result [OF steps_prepare_operation], rule steps_bind_result [OF steps_require], goal_cases)
    case (1 p db db' db1 u db1')
    then have "toLowerCase (rg_callData input) = toLowerCase (pr_callData p)" by (simp add: call_done)
    note r = registered_does_intent [of C ch R reader, OF assms 1(1,2) this]
    show ?case by (intro steps admits) (use r in blast)+
  qed
qed

lemma steps_register:
  assumes "C ch" "R reader"
  shows "call_steps (ar_environment rt) (new_intent lib (ar_environment rt) C R) (register lib rt ch reader who input k now)"
  unfolding register_def Let_def by (intro steps steps_register_new assms)

text \<open>The calls stay on the allowlist of the manifest, the token, the registered markets and the session policy.\<close>

lemma encoded_targets: "traverse (encode_call lib) ps = Inr cs \<Longrightarrow> map bc_to cs = map fst ps"
  by (induction ps arbitrary: cs) (auto simp: encode_call_def split: option.splits prod.splits)

lemma built_targets:
  assumes "buildBusinessCalls lib env account i reader now = Inr cs" "c \<in> set cs"
  shows "bc_to c \<in> set (own_contracts (se_deployment env)) \<or> rd_registeredMarket reader (bc_to c) = Inr True"
proof -
  obtain ps where ps: "planned_calls lib env account i reader now = Inr ps" "traverse (encode_call lib) ps = Inr cs"
    using assms(1) by (auto simp: buildBusinessCalls_def)
  have "bc_to c \<in> set (map fst ps)" using encoded_targets [OF ps(2)] assms(2) by (metis imageI set_map)
  then show ?thesis using planned_on_allowlist [OF ps(1)] by (auto simp: list_all_iff)
qed

definition allowed_call :: "site_environment \<Rightarrow> (admission_reader \<Rightarrow> bool) \<Rightarrow> operation \<Rightarrow> business_call \<Rightarrow> bool" where
  "allowed_call env R o' c =
     (bc_to c \<in> set (own_contracts (se_deployment env)) \<or> (\<exists>reader. R reader \<and> rd_registeredMarket reader (bc_to c) = Inr True) \<or>
      (\<exists>k q. op_intent o' = RevokeTradingSession k \<and> se_quickTrading env = Some q \<and> bc_to c = qt_policy q))"

lemma intent_calls_allowed:
  assumes "intent_calls lib env R o'" "c \<in> set (op_calls o')"
  shows "allowed_call env R o' c"
proof (cases "\<exists>k. op_intent o' = RevokeTradingSession k")
  case True
  then show ?thesis using assms by (auto simp: intent_calls_def allowed_call_def)
next
  case False
  then obtain reader t where "R reader" "buildBusinessCalls (ap_calls lib) env (op_account o') (op_intent o') reader t = Inr (op_calls o')"
    using assms(1) by (cases "op_intent o'") (auto simp: intent_calls_def)
  then show ?thesis using built_targets assms(2) unfolding allowed_call_def by blast
qed

end
