(* ===== verification/Admission_Reader.thy ===== *)
theory Admission_Reader
  imports Business_Calls
begin

text \<open>
  offchain/app-core/src/admission-reader.ts: the reader of the admission checks over a chain client, and the
  commitments to market rules it verifies (offchain/sdk/src/market-rules.ts, legacy-market-rules.ts).

  readContract of each function and the fetched rules documents are parameters. A document is \<open>None\<close> when it
  does not have the fields of its schema; the schema's checks on the fields are modelled. JSON.stringify,
  keccak256 and toLocaleLowerCase are parameters.
\<close>

section \<open>Rules and their commitments\<close>

record hash_lib =
  hl_stringify :: "json \<Rightarrow> string"
  hl_keccak :: "string \<Rightarrow> string"
  hl_lower :: "string \<Rightarrow> string"

definition text_between :: "nat \<Rightarrow> nat \<Rightarrow> string \<Rightarrow> bool" where
  "text_between lo hi s = (lo \<le> length s \<and> length s \<le> hi)"

definition safe_positive :: "int \<Rightarrow> bool" where
  "safe_positive n = (0 < n \<and> n \<le> 9007199254740991)"

definition trimmed_rules :: "market_rules \<Rightarrow> market_rules" where
  "trimmed_rules r = r\<lparr>mr_question := trim (mr_question r), mr_outcomes := map trim (mr_outcomes r),
     mr_resolutionSource := trim (mr_resolutionSource r), mr_resolutionCriteria := trim (mr_resolutionCriteria r),
     mr_cancellationPolicy := trim (mr_cancellationPolicy r)\<rparr>"

text \<open>\<open>marketRulesSchema\<close>: the trimmed rules, \<open>None\<close> when an issue was found.\<close>

definition parse_rules :: "market_rules \<Rightarrow> market_rules option" where
  "parse_rules input =
     (let r = trimmed_rules input in
      if text_between 8 512 (mr_question r) \<and> list_all (text_between 1 128) (mr_outcomes r) \<and>
         2 \<le> length (mr_outcomes r) \<and> length (mr_outcomes r) \<le> 32 \<and> safe_positive (mr_closeAt r) \<and>
         (case mr_eventStartsAt r of None \<Rightarrow> True | Some t \<Rightarrow> safe_positive t) \<and>
         safe_positive (mr_outcomeDeadlineAt r) \<and> safe_positive (mr_resolutionDeadlineAt r) \<and>
         text_between 1 512 (mr_resolutionSource r) \<and> text_between 8 2048 (mr_resolutionCriteria r) \<and>
         text_between 8 2048 (mr_cancellationPolicy r) \<and> market_rules_times_ok r
      then Some r else None)"

definition rules_json :: "market_rules \<Rightarrow> json" where
  "rules_json r = JObj
     [(''version'', JStr ''cpredict-rules-v2''), (''question'', JStr (mr_question r)),
      (''outcomes'', JArr (map JStr (mr_outcomes r))), (''closeAt'', JNum (of_int (mr_closeAt r))),
      (''eventStartsAt'', case mr_eventStartsAt r of None \<Rightarrow> JNull | Some t \<Rightarrow> JNum (of_int t)),
      (''outcomeDeadlineAt'', JNum (of_int (mr_outcomeDeadlineAt r))),
      (''resolutionDeadlineAt'', JNum (of_int (mr_resolutionDeadlineAt r))),
      (''resolutionSource'', JStr (mr_resolutionSource r)), (''resolutionCriteria'', JStr (mr_resolutionCriteria r)),
      (''cancellationPolicy'', JStr (mr_cancellationPolicy r))]"

text \<open>The canonical JSON and its hash.\<close>

definition encodeMarketRules :: "hash_lib \<Rightarrow> market_rules \<Rightarrow> (string \<times> string) outcome" where
  "encodeMarketRules hl input =
     (case parse_rules input of
        None \<Rightarrow> Inl (ZodError ''marketRulesSchema'')
      | Some r \<Rightarrow>
          if \<not> distinct (map (hl_lower hl) (mr_outcomes r)) then Inl (RangeError ''outcome labels must be unique'')
          else let text = hl_stringify hl (rules_json r) in Inr (text, hl_keccak hl text))"

record legacy_rules =
  lr_question :: string
  lr_outcomes :: "string list"
  lr_closesAt :: int
  lr_resolutionSource :: string
  lr_resolutionCriteria :: string
  lr_cancellationPolicy :: string

definition parse_legacy_rules :: "legacy_rules \<Rightarrow> legacy_rules option" where
  "parse_legacy_rules input =
     (let r = input\<lparr>lr_question := trim (lr_question input), lr_outcomes := map trim (lr_outcomes input),
          lr_resolutionSource := trim (lr_resolutionSource input),
          lr_resolutionCriteria := trim (lr_resolutionCriteria input),
          lr_cancellationPolicy := trim (lr_cancellationPolicy input)\<rparr> in
      if text_between 8 512 (lr_question r) \<and> list_all (text_between 1 128) (lr_outcomes r) \<and>
         2 \<le> length (lr_outcomes r) \<and> length (lr_outcomes r) \<le> 32 \<and> safe_positive (lr_closesAt r) \<and>
         text_between 1 512 (lr_resolutionSource r) \<and> text_between 8 2048 (lr_resolutionCriteria r) \<and>
         text_between 8 2048 (lr_cancellationPolicy r)
      then Some r else None)"

definition legacy_json :: "legacy_rules \<Rightarrow> json" where
  "legacy_json r = JObj
     [(''version'', JStr ''cpredict-rules-v1''), (''question'', JStr (lr_question r)),
      (''outcomes'', JArr (map JStr (lr_outcomes r))), (''closesAt'', JNum (of_int (lr_closesAt r))),
      (''resolutionSource'', JStr (lr_resolutionSource r)), (''resolutionCriteria'', JStr (lr_resolutionCriteria r)),
      (''cancellationPolicy'', JStr (lr_cancellationPolicy r))]"

definition encodeLegacyMarketRules :: "hash_lib \<Rightarrow> legacy_rules \<Rightarrow> (string \<times> string) outcome" where
  "encodeLegacyMarketRules hl input =
     (case parse_legacy_rules input of
        None \<Rightarrow> Inl (ZodError ''legacyMarketRulesSchema'')
      | Some r \<Rightarrow>
          if \<not> distinct (map (hl_lower hl) (lr_outcomes r)) then Inl (RangeError ''outcome labels must be unique'')
          else let text = hl_stringify hl (legacy_json r) in Inr (text, hl_keccak hl text))"

section \<open>The chain and the metadata service\<close>

text \<open>The answer of \<open>orders(id)\<close>, by position, and of \<open>listings(id)\<close>.\<close>

record chain_order =
  xo_market :: string
  xo_owner :: string
  xo_units :: int
  xo_outcomeId :: int
  xo_side :: int
  xo_active :: bool

record chain_listing =
  xl_market :: string
  xl_seller :: string
  xl_active :: bool

record protocol_chain =
  ch_orders :: "string \<Rightarrow> int \<Rightarrow> chain_order outcome"
  ch_pendingShares :: "string \<Rightarrow> int \<Rightarrow> int outcome"
  ch_allowsPartialFills :: "string \<Rightarrow> int \<Rightarrow> bool outcome"
  ch_isMarket :: "string \<Rightarrow> string \<Rightarrow> bool outcome"
  ch_rulesHash :: "string \<Rightarrow> string outcome"
  ch_closeAt :: "string \<Rightarrow> int outcome"
  ch_eventStartsAt :: "string \<Rightarrow> int outcome"
  ch_outcomeDeadlineAt :: "string \<Rightarrow> int outcome"
  ch_resolutionDeadline :: "string \<Rightarrow> int outcome"
  ch_listings :: "string \<Rightarrow> string \<Rightarrow> chain_listing outcome"
  ch_resolutionWindow :: "string \<Rightarrow> int outcome"
  ch_config :: "string \<Rightarrow> string outcome"
  ch_creationFee :: "string \<Rightarrow> int outcome"
  ch_rules :: "string \<Rightarrow> market_rules option outcome"
  ch_legacyRules :: "string \<Rightarrow> legacy_rules option outcome"

definition rules_url :: "string \<Rightarrow> string \<Rightarrow> string" where
  "rules_url base h =
     (if base \<noteq> [] \<and> last base = CHR ''/'' then butlast base else base) @ ''/v1/markets/'' @ h @ ''/rules.json''"

definition protocol_order :: "protocol_chain \<Rightarrow> site_deployment \<Rightarrow> int \<Rightarrow> order_view outcome" where
  "protocol_order ch d n =
     outcome_bind (ch_orders ch (sd_marketplace d) n) (\<lambda>o'.
     outcome_bind (if sd_orderbookReceiverRecovery d = Some True then ch_pendingShares ch (sd_marketplace d) n else Inr 0) (\<lambda>pending.
     outcome_map (\<lambda>partial.
         \<lparr>ov_market = xo_market o', ov_owner = xo_owner o', ov_side = xo_side o', ov_outcomeId = xo_outcomeId o',
          ov_active = xo_active o', ov_pendingShares = Some pending, ov_units = Some (xo_units o'),
          ov_allowPartialFills = Some partial\<rparr>)
       (if sd_orderbookFillPolicyVersion d = Some 1 then ch_allowsPartialFills ch (sd_marketplace d) n else Inr True)))"

definition legacy_verified :: "hash_lib \<Rightarrow> protocol_chain \<Rightarrow> string \<Rightarrow> string \<Rightarrow> bool outcome" where
  "legacy_verified hl ch base market =
     outcome_bind (ch_rulesHash ch market) (\<lambda>h.
     outcome_bind (ch_closeAt ch market) (\<lambda>close.
     outcome_bind (ch_legacyRules ch (rules_url base h)) (\<lambda>doc.
       case Option.bind doc parse_legacy_rules of
         None \<Rightarrow> Inr False
       | Some r \<Rightarrow>
           if lr_closesAt r \<noteq> close then Inr False
           else outcome_map (\<lambda>(_, k). toLowerCase k = toLowerCase h) (encodeLegacyMarketRules hl r))))"

definition protocol_verified :: "hash_lib \<Rightarrow> protocol_chain \<Rightarrow> site_deployment \<Rightarrow> string \<Rightarrow> string \<Rightarrow> bool outcome" where
  "protocol_verified hl ch d base market =
     (if sd_protocolVersion d = Some LegacyV1 then legacy_verified hl ch base market
      else
        outcome_bind (ch_rulesHash ch market) (\<lambda>h.
        outcome_bind (ch_closeAt ch market) (\<lambda>close.
        outcome_bind (ch_eventStartsAt ch market) (\<lambda>start.
        outcome_bind (ch_outcomeDeadlineAt ch market) (\<lambda>deadline.
        outcome_bind (ch_resolutionDeadline ch market) (\<lambda>resolution.
        outcome_bind (ch_rules ch (rules_url base h)) (\<lambda>doc.
          case Option.bind doc parse_rules of
            None \<Rightarrow> Inr False
          | Some r \<Rightarrow>
              outcome_map (\<lambda>(_, k). toLowerCase k = toLowerCase h \<and>
                  marketRulesMatchTimes r \<lparr>ct_closeAt = Some close, ct_eventStartsAt = (if start = 0 then None else Some start),
                    ct_outcomeDeadlineAt = Some deadline, ct_resolutionDeadlineAt = Some resolution\<rparr>)
                (encodeMarketRules hl r))))))))"

definition protocol_listing :: "calls_lib \<Rightarrow> protocol_chain \<Rightarrow> site_deployment \<Rightarrow> string \<Rightarrow> admission_listing outcome" where
  "protocol_listing lib ch d n =
     outcome_map (\<lambda>x. \<lparr>al_market = cl_getAddress lib (xl_market x), al_seller = cl_getAddress lib (xl_seller x), al_active = xl_active x\<rparr>)
       (ch_listings ch (sd_marketplace d) n)"

text \<open>Where \<open>parse\<close> throws, an absent document is a ZodError.\<close>

definition params_match :: "hash_lib \<Rightarrow> market_rules \<Rightarrow> string \<Rightarrow> int \<Rightarrow> create_params \<Rightarrow> bool" where
  "params_match hl r h window p =
     (toLowerCase h = toLowerCase (cp_rulesHash p) \<and> length (mr_outcomes r) = cp_outcomeCount p \<and>
      mr_resolutionSource r = cp_resolutionSourceURI p \<and>
      toLowerCase (hl_keccak hl (mr_resolutionSource r)) = toLowerCase (cp_resolutionSourceHash p) \<and>
      marketRulesMatchTimes r \<lparr>ct_closeAt = Some (int (cp_closeAt p)),
        ct_eventStartsAt = (if cp_eventStartsAt p = 0 then None else Some (int (cp_eventStartsAt p))),
        ct_outcomeDeadlineAt = Some (int (cp_outcomeDeadlineAt p)),
        ct_resolutionDeadlineAt = Some (int (cp_outcomeDeadlineAt p) + window)\<rparr>)"

definition protocol_payment :: "hash_lib \<Rightarrow> protocol_chain \<Rightarrow> site_deployment \<Rightarrow> string \<Rightarrow> create_params \<Rightarrow> int outcome" where
  "protocol_payment hl ch d base p =
     (if sd_protocolVersion d = Some LegacyV1 then Inl (AppError ''legacy_creation_requires_demo'' 409)
      else
        outcome_bind (ch_rules ch (rules_url base (cp_rulesHash p))) (\<lambda>doc.
          case Option.bind doc parse_rules of
            None \<Rightarrow> Inl (ZodError ''marketRulesSchema'')
          | Some r \<Rightarrow>
              outcome_bind (ch_resolutionWindow ch (sd_factory d)) (\<lambda>window.
              outcome_bind (encodeMarketRules hl r) (\<lambda>(_, h).
                if \<not> params_match hl r h window p then Inl (AppError ''rules_unverified'' 409)
                else
                  outcome_bind (ch_config ch (sd_factory d)) (\<lambda>config.
                  outcome_map (\<lambda>fee. fee + int (cp_creatorBond p)) (ch_creationFee ch config))))))"

definition protocol_reader :: "calls_lib \<Rightarrow> hash_lib \<Rightarrow> protocol_chain \<Rightarrow> site_deployment \<Rightarrow> string \<Rightarrow> admission_reader" where
  "protocol_reader lib hl ch d base =
     \<lparr>rd_registeredMarket = ch_isMarket ch (sd_factory d), rd_order = Some (protocol_order ch d),
      rd_verifiedRules = protocol_verified hl ch d base, rd_listing = protocol_listing lib ch d,
      rd_creationPayment = protocol_payment hl ch d base\<rparr>"

section \<open>What the reader guarantees\<close>

text \<open>The document at a market's address is its rules: same hash, and the dates the chain has.\<close>

definition published_rules :: "hash_lib \<Rightarrow> protocol_chain \<Rightarrow> string \<Rightarrow> string \<Rightarrow> market_rules \<Rightarrow> bool" where
  "published_rules hl ch base h r =
     (case ch_rules ch (rules_url base h) of
        Inr (Some doc) \<Rightarrow> parse_rules doc = Some r \<and>
          (case encodeMarketRules hl r of Inr (_, k) \<Rightarrow> toLowerCase k = toLowerCase h | Inl _ \<Rightarrow> False)
      | _ \<Rightarrow> False)"

lemma published_rulesI:
  "ch_rules ch (rules_url base h) = Inr (Some doc) \<Longrightarrow> parse_rules doc = Some r \<Longrightarrow> encodeMarketRules hl r = Inr (t, k) \<Longrightarrow>
     toLowerCase k = toLowerCase h \<Longrightarrow> published_rules hl ch base h r"
  by (simp add: published_rules_def)

lemma verified_rules:
  assumes "protocol_verified hl ch d base m = Inr True" "sd_protocolVersion d \<noteq> Some LegacyV1"
  shows "\<exists>h r. ch_rulesHash ch m = Inr h \<and> published_rules hl ch base h r \<and> ch_closeAt ch m = Inr (mr_closeAt r) \<and>
    ch_resolutionDeadline ch m = Inr (mr_resolutionDeadlineAt r)"
proof -
  obtain h doc r t k where "ch_rulesHash ch m = Inr h" "ch_rules ch (rules_url base h) = Inr (Some doc)" "parse_rules doc = Some r"
    "encodeMarketRules hl r = Inr (t, k)" "toLowerCase k = toLowerCase h" "ch_closeAt ch m = Inr (mr_closeAt r)"
    "ch_resolutionDeadline ch m = Inr (mr_resolutionDeadlineAt r)"
    using assms
    by (auto simp: protocol_verified_def marketRulesMatchTimes_def Option.bind_eq_Some_conv split: option.splits)
  then show ?thesis by (blast intro: published_rulesI)
qed



section \<open>A market of the samples\<close>

definition rules_sample :: market_rules where
  "rules_sample = \<lparr>mr_question = ''Will it rain?'', mr_outcomes = [''yes'', ''no''], mr_closeAt = 1000, mr_eventStartsAt = None,
     mr_outcomeDeadlineAt = 2000, mr_resolutionDeadlineAt = 3000, mr_resolutionSource = ''weather'',
     mr_resolutionCriteria = ''as measured'', mr_cancellationPolicy = ''never cancelled''\<rparr>"

definition hash_sample :: string where "hash_sample = ''0x'' @ replicate 64 (CHR ''a'')"

definition hashing :: hash_lib where
  "hashing = \<lparr>hl_stringify = (\<lambda>_. ''rules''), hl_keccak = (\<lambda>_. hash_sample), hl_lower = toLowerCase\<rparr>"

definition chain_sample :: protocol_chain where
  "chain_sample = \<lparr>ch_orders = (\<lambda>_ _. Inl (JsError ''none'')), ch_pendingShares = (\<lambda>_ _. Inr 0), ch_allowsPartialFills = (\<lambda>_ _. Inr True),
     ch_isMarket = (\<lambda>_ m. Inr (m = ''0xv'')), ch_rulesHash = (\<lambda>_. Inr hash_sample), ch_closeAt = (\<lambda>_. Inr 1000),
     ch_eventStartsAt = (\<lambda>_. Inr 0), ch_outcomeDeadlineAt = (\<lambda>_. Inr 2000), ch_resolutionDeadline = (\<lambda>_. Inr 3000),
     ch_listings = (\<lambda>_ _. Inl (JsError ''none'')), ch_resolutionWindow = (\<lambda>_. Inr 1000), ch_config = (\<lambda>_. Inr ''0xg''),
     ch_creationFee = (\<lambda>_. Inr 7), ch_rules = (\<lambda>_. Inr (Some rules_sample)), ch_legacyRules = (\<lambda>_. Inr None)\<rparr>"

definition create_sample :: create_params where
  "create_sample = \<lparr>cp_rulesHash = hash_sample, cp_metadataURI = ''https://m'', cp_resolutionSourceHash = hash_sample,
     cp_resolutionSourceURI = ''weather'', cp_outcomeCount = 2, cp_closeAt = 1000, cp_eventStartsAt = 0,
     cp_outcomeDeadlineAt = 2000, cp_creatorTreasury = ''0xt'', cp_deploymentMode = 1, cp_featureFlags = 0,
     cp_creatorRakeBps = 100, cp_creatorC2CFeeBps = 50, cp_perUserPrimaryCap = 10, cp_marketPrimaryCap = 20,
     cp_minimumPrimaryUnits = 1, cp_minimumC2CUnits = 1, cp_creatorBond = 5\<rparr>"

lemma trim_word: "s \<noteq> [] \<Longrightarrow> \<not> is_space (hd s) \<Longrightarrow> \<not> is_space (last s) \<Longrightarrow> trim s = s"
  by (cases s) (auto simp: trim_def hd_rev [symmetric] dropWhile_eq_self_iff)

lemma rules_sample_parsed: "parse_rules rules_sample = Some rules_sample"
  by (simp add: parse_rules_def trimmed_rules_def rules_sample_def trim_word is_space_def text_between_def safe_positive_def
      market_rules_times_ok_def assertMarketTimes_def)

lemma rules_sample_encoded: "encodeMarketRules hashing rules_sample = Inr (''rules'', hash_sample)"
  by (simp add: encodeMarketRules_def rules_sample_parsed hashing_def) (simp add: rules_sample_def toLowerCase_def lower_char_def)



end
