(* ===== verification/Paymaster.thy ===== *)
theory Paymaster
  imports Contracts
begin

text \<open>
  offchain/paymaster-service: the sponsorship policy (policy.ts), the signed paymaster data (sponsorship.ts), the
  durable budget (postgres-budget-store.ts, migration 001) and the route that composes them (server.ts).

  Hex strings are strings. The account's call decoder, toFunctionSelector, getAddress, hashTypedData and the
  signer are parameters. A table is an association list, a transaction that throws is rolled back. The tables'
  CHECK constraints on the counters are kept, the widths of their columns are not.
\<close>

section \<open>Hex strings\<close>

definition hex_size :: "string \<Rightarrow> nat" where
  "hex_size s = (length s - 2 + 1) div 2"

definition hex_slice :: "nat \<Rightarrow> nat \<Rightarrow> string \<Rightarrow> string" where
  "hex_slice a b s = ''0x'' @ take (2 * (b - a)) (drop (2 + 2 * a) s)"

definition hexToBigInt :: "string \<Rightarrow> int" where
  "hexToBigInt s = (case parse_radix 16 (drop 2 s) of None \<Rightarrow> 0 | Some n \<Rightarrow> n)"

definition hex_digit_char :: "int \<Rightarrow> char" where
  "hex_digit_char d = ''0123456789abcdef'' ! nat d"

fun hex_digits :: "nat \<Rightarrow> int \<Rightarrow> string" where
  "hex_digits 0 n = []"
| "hex_digits (Suc k) n = hex_digits k (n div 16) @ [hex_digit_char (n mod 16)]"

text \<open>\<open>toHex\<close> with a size, without its prefix; it throws when the value does not fit.\<close>

definition hex_fixed :: "nat \<Rightarrow> int \<Rightarrow> string outcome" where
  "hex_fixed bytes n =
     (if 0 \<le> n \<and> n < 256 ^ bytes then Inr (hex_digits (2 * bytes) n) else Inl (RangeError ''IntegerOutOfRangeError''))"

section \<open>Policy\<close>

datatype sponsor_kind = SK_createListing | SK_cancelListing | SK_other

record user_operation =
  uo_sender :: string
  uo_nonce :: int
  uo_initCode :: string
  uo_callData :: string
  uo_accountGasLimits :: string
  uo_preVerificationGas :: int
  uo_gasFees :: string
  uo_signature :: string

record account_call =
  ac_target :: string
  ac_value :: int
  ac_data :: string

record sponsor_lib =
  sl_selector :: "string \<Rightarrow> string"
  sl_getAddress :: "string \<Rightarrow> string option"
  sl_decode :: "user_operation \<Rightarrow> account_call list outcome"

record sponsor_policy =
  sp_allowedTargets :: "(string, (string, sponsor_kind) jsmap) jsmap"
  sp_maxCostPerRequest :: int
  sp_maxInitCodeBytes :: nat
  sp_maxCallDataBytes :: nat
  sp_minSponsoredListingUnits :: int

definition canonicalOperation :: "sponsor_lib \<Rightarrow> string \<Rightarrow> sponsor_kind" where
  "canonicalOperation lib selector =
     (if selector = sl_selector lib ''createListing(address,uint256,uint256,uint256,uint64)'' then SK_createListing
      else if selector = sl_selector lib ''cancelListing(bytes32)'' then SK_cancelListing
      else SK_other)"

text \<open>The checks of the constructor.\<close>

definition newSponsorPolicy :: "sponsor_lib \<Rightarrow> sponsor_policy \<Rightarrow> sponsor_policy outcome" where
  "newSponsorPolicy lib p =
     (if sp_minSponsoredListingUnits p \<le> 0 then Inl (TypeError ''minimum sponsored listing units must be positive'')
      else if \<not> list_all (\<lambda>(target, selectors). list_all (\<lambda>(selector, k). canonicalOperation lib selector = k) selectors)
                (sp_allowedTargets p)
      then Inl (TypeError ''sponsored selector operation classification is inconsistent'')
      else Inr p)"

definition denied :: "string \<Rightarrow> js_error" where
  "denied m = JsError (''SponsorPolicyDeniedError: '' @ m)"

record operation_counts =
  oc_createListing :: int
  oc_cancelListing :: int

definition validate_call ::
  "sponsor_lib \<Rightarrow> sponsor_policy \<Rightarrow> account_call \<Rightarrow> operation_counts \<Rightarrow> operation_counts outcome" where
  "validate_call lib p c n =
     (if ac_value c \<noteq> 0 \<or> hex_size (ac_data c) < 4 then Inl (denied ''unsupported account call'')
      else case sl_getAddress lib (ac_target c) of
        None \<Rightarrow> Inl (JsError ''InvalidAddressError'')
      | Some target \<Rightarrow>
          (case Option.bind (map_get (sp_allowedTargets p) target) (\<lambda>m. map_get m (hex_slice 0 4 (ac_data c))) of
             None \<Rightarrow> Inl (denied ''target or selector is not sponsored'')
           | Some SK_createListing \<Rightarrow>
               if hex_size (ac_data c) \<noteq> 164 then Inl (denied ''malformed createListing calldata'')
               else if hexToBigInt (hex_slice 68 100 (ac_data c)) < sp_minSponsoredListingUnits p
               then Inl (denied ''sponsored listing amount is below policy minimum'')
               else Inr (n\<lparr>oc_createListing := oc_createListing n + 1\<rparr>)
           | Some SK_cancelListing \<Rightarrow> Inr (n\<lparr>oc_cancelListing := oc_cancelListing n + 1\<rparr>)
           | Some SK_other \<Rightarrow> Inr n))"

fun validate_calls ::
  "sponsor_lib \<Rightarrow> sponsor_policy \<Rightarrow> account_call list \<Rightarrow> operation_counts \<Rightarrow> operation_counts outcome" where
  "validate_calls lib p [] n = Inr n"
| "validate_calls lib p (c # cs) n = outcome_bind (validate_call lib p c n) (validate_calls lib p cs)"

definition policy_validate :: "sponsor_lib \<Rightarrow> sponsor_policy \<Rightarrow> user_operation \<Rightarrow> int \<Rightarrow> operation_counts outcome" where
  "policy_validate lib p u requestedMaxCost =
     (if requestedMaxCost \<le> 0 \<or> sp_maxCostPerRequest p < requestedMaxCost
      then Inl (RangeError ''requested sponsorship cost exceeds policy'')
      else if sp_maxInitCodeBytes p < hex_size (uo_initCode u) \<or> sp_maxCallDataBytes p < hex_size (uo_callData u)
      then Inl (RangeError ''user operation byte length exceeds policy'')
      else outcome_bind (sl_decode lib u) (\<lambda>calls.
        if calls = [] \<or> 8 < length calls then Inl (denied ''unsupported call count'')
        else validate_calls lib p calls \<lparr>oc_createListing = 0, oc_cancelListing = 0\<rparr>))"

section \<open>Sponsorships\<close>

record sponsorship_config =
  sg_chainId :: int
  sg_entryPoint :: string
  sg_paymaster :: string
  sg_verificationGasLimit :: int
  sg_postOpGasLimit :: int
  sg_validitySeconds :: int
  sg_policyVersion :: int

definition validateSponsorshipConfig :: "sponsorship_config \<Rightarrow> unit outcome" where
  "validateSponsorshipConfig c =
     (if sg_verificationGasLimit c < 150000 \<or> 500000 < sg_verificationGasLimit c
      then Inl (RangeError ''paymaster verification gas limit is outside contract bounds'')
      else if sg_postOpGasLimit c < 100000 \<or> 300000 < sg_postOpGasLimit c
      then Inl (RangeError ''paymaster postOp gas limit is outside contract bounds'')
      else if sg_validitySeconds c < 60 \<or> 900 < sg_validitySeconds c
      then Inl (RangeError ''sponsorship validity must be between 60 and 900 seconds'')
      else if sg_policyVersion c < 1 \<or> 4294967295 < sg_policyVersion c
      then Inl (RangeError ''invalid sponsorship policy version'')
      else Inr ())"

text \<open>What is signed: the operation, the configuration, the validity window and the cost.\<close>

record sponsorship_message =
  sm_operation :: user_operation
  sm_config :: sponsorship_config
  sm_validAfter :: int
  sm_validUntil :: int
  sm_maxCost :: int

record sponsorship =
  so_paymasterAndData :: string
  so_validAfter :: int
  so_validUntil :: int

text \<open>\<open>sign\<close> hashes the typed data and asks the signer.\<close>

definition paymaster_data :: "sponsorship_config \<Rightarrow> int \<Rightarrow> int \<Rightarrow> int \<Rightarrow> string \<Rightarrow> string outcome" where
  "paymaster_data c validAfter validUntil maxCost signature =
     outcome_bind (hex_fixed 16 (sg_verificationGasLimit c)) (\<lambda>v.
     outcome_bind (hex_fixed 16 (sg_postOpGasLimit c)) (\<lambda>g.
     outcome_bind (hex_fixed 6 validAfter) (\<lambda>a.
     outcome_bind (hex_fixed 6 validUntil) (\<lambda>u.
     outcome_bind (hex_fixed 32 maxCost) (\<lambda>m.
     outcome_map (\<lambda>p. ''0x'' @ drop 2 (sg_paymaster c) @ v @ g @ a @ u @ m @ p @ drop 2 signature)
       (hex_fixed 4 (sg_policyVersion c)))))))"

definition createSponsorship ::
  "(sponsorship_message \<Rightarrow> string outcome) \<Rightarrow> sponsorship_config \<Rightarrow> user_operation \<Rightarrow> int \<Rightarrow> int \<Rightarrow> sponsorship outcome" where
  "createSponsorship sign c u maxCost nowSeconds =
     outcome_bind (validateSponsorshipConfig c) (\<lambda>_.
       if maxCost \<le> 0 \<or> 2 ^ 256 - 1 < maxCost then Inl (RangeError ''invalid maximum cost'')
       else if 9007199254740991 < nowSeconds \<or> nowSeconds < 30 then Inl (RangeError ''invalid current time'')
       else
         let validAfter = max 0 (nowSeconds - 30); validUntil = nowSeconds + sg_validitySeconds c in
         outcome_bind (sign \<lparr>sm_operation = u, sm_config = c, sm_validAfter = validAfter, sm_validUntil = validUntil, sm_maxCost = maxCost\<rparr>)
           (\<lambda>signature.
             if hex_size signature \<noteq> 65 then Inl (JsError ''KMS/HSM signer returned a non-65-byte signature'')
             else outcome_map (\<lambda>d. \<lparr>so_paymasterAndData = d, so_validAfter = validAfter, so_validUntil = validUntil\<rparr>)
                    (paymaster_data c validAfter validUntil maxCost signature)))"

section \<open>Budget\<close>

record cost_usage =
  cu_reserved :: int
  cu_committed :: int

record user_usage = cost_usage +
  uu_reservedCreate :: int
  uu_committedCreate :: int
  uu_reservedCancel :: int
  uu_committedCancel :: int

datatype lease_state = LeaseReserved | LeaseCommitted | LeaseReleased

record lease =
  lz_policyDay :: int
  lz_subject :: string
  lz_sender :: string
  lz_maxCost :: int
  lz_createListing :: int
  lz_cancelListing :: int
  lz_validUntil :: int
  lz_state :: lease_state

record budget_db =
  bd_global :: "(int, cost_usage) jsmap"
  bd_users :: "(int \<times> string, user_usage) jsmap"
  bd_leases :: "(string, lease) jsmap"

record budget_limits =
  bl_createListingPerUserDay :: int
  bl_cancelListingPerUserDay :: int
  bl_maxCostPerUserDay :: int
  bl_maxCostGlobalDay :: int

record budget_request =
  br_subject :: string
  br_sender :: string
  br_maxCost :: int
  br_validUntil :: int
  br_policyDay :: int
  br_counts :: operation_counts
  br_limits :: budget_limits

definition safe_integer :: "int \<Rightarrow> bool" where
  "safe_integer n = (\<bar>n\<bar> \<le> 9007199254740991)"

definition validateRequest :: "budget_request \<Rightarrow> unit outcome" where
  "validateRequest r =
     (let l = br_limits r in
      if \<not> safe_integer (br_policyDay r) \<or> br_policyDay r < 0 then Inl (TypeError ''policyDay must be a non-negative safe integer'')
      else if length (br_subject r) < 1 \<or> 256 < length (br_subject r)
      then Inl (TypeError ''subject must be an opaque identifier of 1-256 characters'')
      else if br_maxCost r \<le> 0 \<or> br_validUntil r \<le> 0
      then Inl (TypeError ''budget reservation cost and validity must be positive'')
      else if \<not> list_all (\<lambda>n. safe_integer n \<and> 0 \<le> n)
                [oc_createListing (br_counts r), oc_cancelListing (br_counts r), bl_createListingPerUserDay l,
                 bl_cancelListingPerUserDay l]
      then Inl (TypeError ''operation counts and limits must be non-negative safe integers'')
      else if bl_maxCostPerUserDay l < br_maxCost r \<or> bl_maxCostGlobalDay l < bl_maxCostPerUserDay l
      then Inl (TypeError ''budget cost limits are inconsistent'')
      else Inr ())"

definition no_cost :: cost_usage where
  "no_cost = \<lparr>cu_reserved = 0, cu_committed = 0\<rparr>"

definition no_usage :: user_usage where
  "no_usage = \<lparr>cu_reserved = 0, cu_committed = 0, uu_reservedCreate = 0, uu_committedCreate = 0, uu_reservedCancel = 0,
     uu_committedCancel = 0\<rparr>"

definition insert_missing :: "'k \<Rightarrow> 'v \<Rightarrow> ('k, 'v) jsmap \<Rightarrow> ('k, 'v) jsmap" where
  "insert_missing k v m = (if map_has m k then m else map_set k v m)"

definition assertWithinLimits :: "budget_request \<Rightarrow> cost_usage \<Rightarrow> user_usage \<Rightarrow> unit outcome" where
  "assertWithinLimits r g u =
     (let l = br_limits r in
      if bl_maxCostGlobalDay l < cu_reserved g + cu_committed g + br_maxCost r \<or>
         bl_maxCostPerUserDay l < cu_reserved u + cu_committed u + br_maxCost r \<or>
         bl_createListingPerUserDay l < uu_reservedCreate u + uu_committedCreate u + oc_createListing (br_counts r) \<or>
         bl_cancelListingPerUserDay l < uu_reservedCancel u + uu_committedCancel u + oc_cancelListing (br_counts r)
      then Inl (JsError ''SponsorBudgetExceededError'') else Inr ())"

text \<open>\<open>lockGlobalUsage\<close> and \<open>lockUserUsage\<close>.\<close>

definition lockGlobalUsage :: "int \<Rightarrow> budget_db \<Rightarrow> cost_usage outcome" where
  "lockGlobalUsage day db =
     (case map_get (bd_global db) day of None \<Rightarrow> Inl (JsError ''global budget row is missing'') | Some g \<Rightarrow> Inr g)"

definition lockUserUsage :: "int \<Rightarrow> string \<Rightarrow> budget_db \<Rightarrow> user_usage outcome" where
  "lockUserUsage day subject db =
     (case map_get (bd_users db) (day, subject) of None \<Rightarrow> Inl (JsError ''user budget row is missing'') | Some u \<Rightarrow> Inr u)"

definition counters_ok :: "cost_usage \<Rightarrow> user_usage \<Rightarrow> bool" where
  "counters_ok g u = list_all (\<lambda>n. 0 \<le> n)
     [cu_reserved g, cu_committed g, cu_reserved u, cu_committed u, uu_reservedCreate u, uu_committedCreate u,
      uu_reservedCancel u, uu_committedCancel u]"

definition put_usage :: "int \<Rightarrow> string \<Rightarrow> cost_usage \<Rightarrow> user_usage \<Rightarrow> budget_db \<Rightarrow> budget_db outcome" where
  "put_usage day subject g u db =
     (if counters_ok g u
      then Inr (db\<lparr>bd_global := map_set day g (bd_global db), bd_users := map_set (day, subject) u (bd_users db)\<rparr>)
      else Inl (JsError ''check constraint''))"

text \<open>\<open>leaseId\<close> is what randomUUID returned.\<close>

definition reserve_budget :: "(string \<Rightarrow> string option) \<Rightarrow> string \<Rightarrow> budget_request \<Rightarrow> budget_db \<Rightarrow> budget_db outcome" where
  "reserve_budget getAddress leaseId r db =
     outcome_bind (validateRequest r) (\<lambda>_.
     case getAddress (br_sender r) of
       None \<Rightarrow> Inl (JsError ''InvalidAddressError'')
     | Some sender \<Rightarrow>
         let day = br_policyDay r; subject = br_subject r; n = br_counts r;
             db1 = db\<lparr>bd_global := insert_missing day no_cost (bd_global db),
                      bd_users := insert_missing (day, subject) no_usage (bd_users db)\<rparr> in
         outcome_bind (lockGlobalUsage day db1) (\<lambda>g.
         outcome_bind (lockUserUsage day subject db1) (\<lambda>u.
         outcome_bind (assertWithinLimits r g u) (\<lambda>_.
         outcome_bind (put_usage day subject (g\<lparr>cu_reserved := cu_reserved g + br_maxCost r\<rparr>)
             (u\<lparr>cu_reserved := cu_reserved u + br_maxCost r, uu_reservedCreate := uu_reservedCreate u + oc_createListing n,
                uu_reservedCancel := uu_reservedCancel u + oc_cancelListing n\<rparr>) db1) (\<lambda>db2.
           if map_has (bd_leases db2) leaseId then Inl (JsError ''duplicate key'')
           else Inr (db2\<lparr>bd_leases := map_set leaseId
                  \<lparr>lz_policyDay = day, lz_subject = subject, lz_sender = toLowerCase sender, lz_maxCost = br_maxCost r,
                   lz_createListing = oc_createListing n, lz_cancelListing = oc_cancelListing n,
                   lz_validUntil = br_validUntil r, lz_state = LeaseReserved\<rparr> (bd_leases db2)\<rparr>))))))"

definition transitionLease :: "string \<Rightarrow> lease_state \<Rightarrow> budget_db \<Rightarrow> budget_db outcome" where
  "transitionLease leaseId target db =
     (case map_get (bd_leases db) leaseId of
        None \<Rightarrow> Inl (JsError ''budget lease does not exist'')
      | Some l \<Rightarrow>
          if lz_state l = target then Inr db
          else if lz_state l \<noteq> LeaseReserved then Inl (JsError ''budget lease is already finalized'')
          else
            let day = lz_policyDay l; keep = (\<lambda>n. if target = LeaseCommitted then n else 0) in
            outcome_bind (lockGlobalUsage day db) (\<lambda>g.
            outcome_bind (lockUserUsage day (lz_subject l) db) (\<lambda>u.
            outcome_map (\<lambda>db1. db1\<lparr>bd_leases := map_set leaseId (l\<lparr>lz_state := target\<rparr>) (bd_leases db1)\<rparr>)
              (put_usage day (lz_subject l)
                (g\<lparr>cu_reserved := cu_reserved g - lz_maxCost l, cu_committed := cu_committed g + keep (lz_maxCost l)\<rparr>)
                (u\<lparr>cu_reserved := cu_reserved u - lz_maxCost l, cu_committed := cu_committed u + keep (lz_maxCost l),
                   uu_reservedCreate := uu_reservedCreate u - lz_createListing l,
                   uu_committedCreate := uu_committedCreate u + keep (lz_createListing l),
                   uu_reservedCancel := uu_reservedCancel u - lz_cancelListing l,
                   uu_committedCancel := uu_committedCancel u + keep (lz_cancelListing l)\<rparr>) db))))"

section \<open>The route\<close>

text \<open>
  \<open>POST /v1/sponsorship\<close> of server.ts. The connection may be lost before or after a transaction took effect; the
  caller then sees an error. \<open>rt_sign\<close> hashes and signs.
\<close>

datatype fault = NoFault | LostBefore | LostAfter

definition faulty :: "fault \<Rightarrow> ('s \<Rightarrow> 's outcome) \<Rightarrow> 's \<Rightarrow> js_error option \<times> 's" where
  "faulty f g s =
     (case f of
        LostBefore \<Rightarrow> (Some (JsError ''connection lost''), s)
      | NoFault \<Rightarrow> (case g s of Inl e \<Rightarrow> (Some e, s) | Inr t \<Rightarrow> (None, t))
      | LostAfter \<Rightarrow> (case g s of Inl e \<Rightarrow> (Some e, s) | Inr t \<Rightarrow> (Some (JsError ''connection lost''), t)))"

record route_options =
  rt_lib :: sponsor_lib
  rt_policy :: sponsor_policy
  rt_config :: sponsorship_config
  rt_limits :: budget_limits
  rt_sign :: "sponsorship_message \<Rightarrow> string outcome"

text \<open>The subject the authorizer named, the parsed body (\<open>None\<close>: a ZodError), and what happens to the transactions.\<close>

record route_request =
  rq_subject :: "string option"
  rq_body :: "(user_operation \<times> int) option"
  rq_nowSeconds :: int
  rq_leaseId :: string
  rq_reserveFault :: fault
  rq_commitFault :: fault
  rq_releaseFault :: fault

datatype response = Issued sponsorship | Refused nat

fun error_status :: "js_error \<Rightarrow> nat" where
  "error_status (ZodError _) = 400"
| "error_status (RangeError _) = 400"
| "error_status (TypeError _) = 400"
| "error_status (JsError m) =
     (if starts_with ''SponsorPolicyDeniedError'' m then 403 else if m = ''SponsorBudgetExceededError'' then 429 else 503)"
| "error_status (AppError _ _) = 503"

definition budget_request_of :: "route_options \<Rightarrow> route_request \<Rightarrow> string \<Rightarrow> user_operation \<Rightarrow> int \<Rightarrow> operation_counts \<Rightarrow> budget_request" where
  "budget_request_of opts rq subject u maxCost counts =
     \<lparr>br_subject = subject, br_sender = uo_sender u, br_maxCost = maxCost,
      br_validUntil = rq_nowSeconds rq + sg_validitySeconds (rt_config opts), br_policyDay = rq_nowSeconds rq div 86400,
      br_counts = counts, br_limits = rt_limits opts\<rparr>"

text \<open>\<open>signed\<close> collects the sponsorships that were created: lease, day, subject and cost.\<close>

type_synonym signed_entry = "string \<times> int \<times> string \<times> int"

definition issue_sponsorship ::
  "route_options \<Rightarrow> route_request \<Rightarrow> budget_request \<Rightarrow> user_operation \<Rightarrow> budget_db \<times> signed_entry list \<Rightarrow>
     response \<times> budget_db \<times> signed_entry list" where
  "issue_sponsorship opts rq r u = (\<lambda>(db, signed).
     case createSponsorship (rt_sign opts) (rt_config opts) u (br_maxCost r) (rq_nowSeconds rq) of
       Inl e \<Rightarrow>
         (case faulty (rq_releaseFault rq) (transitionLease (rq_leaseId rq) LeaseReleased) db of
            (None, db1) \<Rightarrow> (Refused (error_status e), db1, signed)
          | (Some e', db1) \<Rightarrow> (Refused (error_status e'), db1, signed))
     | Inr sp \<Rightarrow>
         let signed1 = signed @ [(rq_leaseId rq, br_policyDay r, br_subject r, br_maxCost r)] in
         (case faulty (rq_commitFault rq) (transitionLease (rq_leaseId rq) LeaseCommitted) db of
            (None, db1) \<Rightarrow> (Issued sp, db1, signed1)
          | (Some e, db1) \<Rightarrow> (Refused (error_status e), db1, signed1)))"

definition sponsorship_route ::
  "route_options \<Rightarrow> route_request \<Rightarrow> budget_db \<times> signed_entry list \<Rightarrow> response \<times> budget_db \<times> signed_entry list" where
  "sponsorship_route opts rq s =
     (case rq_subject rq of
        None \<Rightarrow> (Refused 401, s)
      | Some subject \<Rightarrow>
          (case rq_body rq of
             None \<Rightarrow> (Refused 400, s)
           | Some (u, maxCost) \<Rightarrow>
               (case policy_validate (rt_lib opts) (rt_policy opts) u maxCost of
                  Inl e \<Rightarrow> (Refused (error_status e), s)
                | Inr counts \<Rightarrow>
                    let r = budget_request_of opts rq subject u maxCost counts in
                    (case faulty (rq_reserveFault rq) (reserve_budget (sl_getAddress (rt_lib opts)) (rq_leaseId rq) r) (fst s) of
                       (Some e, db) \<Rightarrow> (Refused (error_status e), db, snd s)
                     | (None, db) \<Rightarrow> issue_sponsorship opts rq r u (db, snd s)))))"

definition empty_budget :: budget_db where
  "empty_budget = \<lparr>bd_global = [], bd_users = [], bd_leases = []\<rparr>"

fun sponsorship_runs ::
  "route_options \<Rightarrow> route_request list \<Rightarrow> budget_db \<times> signed_entry list \<Rightarrow> budget_db \<times> signed_entry list" where
  "sponsorship_runs opts [] s = s"
| "sponsorship_runs opts (rq # rqs) s = sponsorship_runs opts rqs (snd (sponsorship_route opts rq s))"

section \<open>The budget's counters\<close>

text \<open>A measure of the leases in one state of a day, and of one subject.\<close>

definition on_day :: "lease_state \<Rightarrow> int \<Rightarrow> (lease \<Rightarrow> int) \<Rightarrow> lease \<Rightarrow> int" where
  "on_day st day h l = (if lz_state l = st \<and> lz_policyDay l = day then h l else 0)"

definition of_user :: "lease_state \<Rightarrow> int \<Rightarrow> string \<Rightarrow> (lease \<Rightarrow> int) \<Rightarrow> lease \<Rightarrow> int" where
  "of_user st day subject h l = (if lz_subject l = subject then on_day st day h l else 0)"

definition global_ok :: "budget_limits \<Rightarrow> (string, lease) jsmap \<Rightarrow> int \<Rightarrow> cost_usage \<Rightarrow> bool" where
  "global_ok cap m day g =
     (cu_reserved g = map_sum (on_day LeaseReserved day lz_maxCost) m \<and>
      cu_committed g = map_sum (on_day LeaseCommitted day lz_maxCost) m \<and>
      cu_reserved g + cu_committed g \<le> bl_maxCostGlobalDay cap)"

definition user_ok :: "budget_limits \<Rightarrow> (string, lease) jsmap \<Rightarrow> int \<Rightarrow> string \<Rightarrow> user_usage \<Rightarrow> bool" where
  "user_ok cap m day subject u =
     (cu_reserved u = map_sum (of_user LeaseReserved day subject lz_maxCost) m \<and>
      cu_committed u = map_sum (of_user LeaseCommitted day subject lz_maxCost) m \<and>
      uu_reservedCreate u = map_sum (of_user LeaseReserved day subject lz_createListing) m \<and>
      uu_committedCreate u = map_sum (of_user LeaseCommitted day subject lz_createListing) m \<and>
      uu_reservedCancel u = map_sum (of_user LeaseReserved day subject lz_cancelListing) m \<and>
      uu_committedCancel u = map_sum (of_user LeaseCommitted day subject lz_cancelListing) m \<and>
      cu_reserved u + cu_committed u \<le> bl_maxCostPerUserDay cap \<and>
      uu_reservedCreate u + uu_committedCreate u \<le> bl_createListingPerUserDay cap \<and>
      uu_reservedCancel u + uu_committedCancel u \<le> bl_cancelListingPerUserDay cap)"

definition usage_of_day :: "int \<Rightarrow> budget_db \<Rightarrow> cost_usage" where
  "usage_of_day day db = (case map_get (bd_global db) day of None \<Rightarrow> no_cost | Some g \<Rightarrow> g)"

definition usage_of_user :: "int \<Rightarrow> string \<Rightarrow> budget_db \<Rightarrow> user_usage" where
  "usage_of_user day subject db = (case map_get (bd_users db) (day, subject) of None \<Rightarrow> no_usage | Some u \<Rightarrow> u)"

definition budget_ok :: "budget_limits \<Rightarrow> budget_db \<Rightarrow> bool" where
  "budget_ok cap db =
     (distinct (map fst (bd_leases db)) \<and>
      list_all (\<lambda>p. 0 < lz_maxCost (snd p) \<and> 0 \<le> lz_createListing (snd p) \<and> 0 \<le> lz_cancelListing (snd p)) (bd_leases db) \<and>
      (\<forall>day. global_ok cap (bd_leases db) day (usage_of_day day db)) \<and>
      (\<forall>day subject. user_ok cap (bd_leases db) day subject (usage_of_user day subject db)))"

definition limits_ok :: "budget_limits \<Rightarrow> bool" where
  "limits_ok cap = (0 \<le> bl_maxCostGlobalDay cap \<and> 0 \<le> bl_maxCostPerUserDay cap \<and> 0 \<le> bl_createListingPerUserDay cap \<and>
     0 \<le> bl_cancelListingPerUserDay cap)"

lemma empty_budget_ok: "limits_ok cap \<Longrightarrow> budget_ok cap empty_budget"
  by (simp add: limits_ok_def budget_ok_def empty_budget_def global_ok_def user_ok_def usage_of_day_def usage_of_user_def
      no_cost_def no_usage_def)

lemma missing_get: "map_get (insert_missing k v m) k' = (if k' = k \<and> \<not> map_has m k then Some v else map_get m k')"
  by (auto simp: insert_missing_def map_has_def update_conv')

text \<open>The rows a request adds before it checks count nothing.\<close>

definition opened :: "int \<Rightarrow> string \<Rightarrow> budget_db \<Rightarrow> budget_db" where
  "opened day subject db = db\<lparr>bd_global := insert_missing day no_cost (bd_global db),
     bd_users := insert_missing (day, subject) no_usage (bd_users db)\<rparr>"

lemma opened_usage:
  "usage_of_day d (opened day subject db) = usage_of_day d db"
  "usage_of_user d x (opened day subject db) = usage_of_user d x db"
  "bd_leases (opened day subject db) = bd_leases db"
  by (auto simp: opened_def usage_of_day_def usage_of_user_def missing_get map_has_def split: option.splits)

lemma opened_ok: "budget_ok cap db \<Longrightarrow> budget_ok cap (opened day subject db)"
  by (simp add: budget_ok_def opened_usage)

lemma put_usage_usage:
  assumes "put_usage day subject g u db = Inr db'"
  shows "usage_of_day d db' = (if d = day then g else usage_of_day d db)"
    "usage_of_user d x db' = (if d = day \<and> x = subject then u else usage_of_user d x db)"
    "bd_leases db' = bd_leases db"
  using assms by (auto simp: put_usage_def usage_of_day_def usage_of_user_def update_conv' split: if_splits)

lemma leases_usage [simp]:
  "usage_of_day d (db\<lparr>bd_leases := m\<rparr>) = usage_of_day d db" "usage_of_user d x (db\<lparr>bd_leases := m\<rparr>) = usage_of_user d x db"
  by (simp_all add: usage_of_day_def usage_of_user_def)

lemma lock_usage:
  "lockGlobalUsage day db = Inr g \<Longrightarrow> usage_of_day day db = g"
  "lockUserUsage day subject db = Inr u \<Longrightarrow> usage_of_user day subject db = u"
  by (auto simp: lockGlobalUsage_def lockUserUsage_def usage_of_day_def usage_of_user_def split: option.splits)

lemma reserve_steps:
  assumes "reserve_budget ga i r db = Inr db'"
  obtains sender g u db2 where "validateRequest r = Inr ()"
    "assertWithinLimits r (usage_of_day (br_policyDay r) db) (usage_of_user (br_policyDay r) (br_subject r) db) = Inr ()"
    "g = usage_of_day (br_policyDay r) db" "u = usage_of_user (br_policyDay r) (br_subject r) db"
    "put_usage (br_policyDay r) (br_subject r) (g\<lparr>cu_reserved := cu_reserved g + br_maxCost r\<rparr>)
       (u\<lparr>cu_reserved := cu_reserved u + br_maxCost r, uu_reservedCreate := uu_reservedCreate u + oc_createListing (br_counts r),
          uu_reservedCancel := uu_reservedCancel u + oc_cancelListing (br_counts r)\<rparr>)
       (opened (br_policyDay r) (br_subject r) db) = Inr db2"
    "map_get (bd_leases db) i = None"
    "db' = db2\<lparr>bd_leases := map_set i \<lparr>lz_policyDay = br_policyDay r, lz_subject = br_subject r, lz_sender = sender,
       lz_maxCost = br_maxCost r, lz_createListing = oc_createListing (br_counts r),
       lz_cancelListing = oc_cancelListing (br_counts r), lz_validUntil = br_validUntil r, lz_state = LeaseReserved\<rparr> (bd_leases db)\<rparr>"
proof -
  let ?o = "opened (br_policyDay r) (br_subject r) db"
  obtain sender g u db2 where s: "validateRequest r = Inr ()" "lockGlobalUsage (br_policyDay r) ?o = Inr g"
    "lockUserUsage (br_policyDay r) (br_subject r) ?o = Inr u" "assertWithinLimits r g u = Inr ()"
    "put_usage (br_policyDay r) (br_subject r) (g\<lparr>cu_reserved := cu_reserved g + br_maxCost r\<rparr>)
       (u\<lparr>cu_reserved := cu_reserved u + br_maxCost r, uu_reservedCreate := uu_reservedCreate u + oc_createListing (br_counts r),
          uu_reservedCancel := uu_reservedCancel u + oc_cancelListing (br_counts r)\<rparr>) ?o = Inr db2"
    "\<not> map_has (bd_leases db2) i"
    "db' = db2\<lparr>bd_leases := map_set i \<lparr>lz_policyDay = br_policyDay r, lz_subject = br_subject r, lz_sender = toLowerCase sender,
       lz_maxCost = br_maxCost r, lz_createListing = oc_createListing (br_counts r),
       lz_cancelListing = oc_cancelListing (br_counts r), lz_validUntil = br_validUntil r, lz_state = LeaseReserved\<rparr> (bd_leases db2)\<rparr>"
    using assms by (auto simp: reserve_budget_def Let_def opened_def split: option.splits if_splits)
  have "g = usage_of_day (br_policyDay r) db" "u = usage_of_user (br_policyDay r) (br_subject r) db"
    using lock_usage(1) [OF s(2)] lock_usage(2) [OF s(3)] by (simp_all add: opened_usage)
  then show thesis
    using s put_usage_usage(3) [OF s(5)] by (intro that [of g u db2 "toLowerCase sender"]) (simp_all add: opened_usage map_has_def)
qed

lemma reserve_ok:
  assumes "reserve_budget ga i r db = Inr db'" "budget_ok cap db" "br_limits r = cap"
  shows "budget_ok cap db'"
  using assms(1)
proof (cases rule: reserve_steps)
  case (1 sender g u db2)
  note pu = put_usage_usage [OF 1(5)]
  let ?l = "\<lparr>lz_policyDay = br_policyDay r, lz_subject = br_subject r, lz_sender = sender, lz_maxCost = br_maxCost r,
      lz_createListing = oc_createListing (br_counts r), lz_cancelListing = oc_cancelListing (br_counts r),
      lz_validUntil = br_validUntil r, lz_state = LeaseReserved\<rparr>"
  have v: "0 < br_maxCost r" "0 \<le> oc_createListing (br_counts r)" "0 \<le> oc_cancelListing (br_counts r)"
    using 1(1) by (auto simp: validateRequest_def Let_def split: if_splits)
  have sums: "map_sum h (map_set i ?l (bd_leases db)) = map_sum h (bd_leases db) + h ?l" for h
    by (simp add: map_sum_update 1(6))
  have g: "global_ok cap (bd_leases db) d (usage_of_day d db)" and u: "user_ok cap (bd_leases db) d x (usage_of_user d x db)" for d x
    using assms(2) by (simp_all add: budget_ok_def)
  have lims: "cu_reserved (usage_of_day (br_policyDay r) db) + cu_committed (usage_of_day (br_policyDay r) db) + br_maxCost r \<le> bl_maxCostGlobalDay cap"
    "cu_reserved (usage_of_user (br_policyDay r) (br_subject r) db) + cu_committed (usage_of_user (br_policyDay r) (br_subject r) db) + br_maxCost r \<le> bl_maxCostPerUserDay cap"
    "uu_reservedCreate (usage_of_user (br_policyDay r) (br_subject r) db) + uu_committedCreate (usage_of_user (br_policyDay r) (br_subject r) db) + oc_createListing (br_counts r) \<le> bl_createListingPerUserDay cap"
    "uu_reservedCancel (usage_of_user (br_policyDay r) (br_subject r) db) + uu_committedCancel (usage_of_user (br_policyDay r) (br_subject r) db) + oc_cancelListing (br_counts r) \<le> bl_cancelListingPerUserDay cap"
    using 1(2) assms(3) by (auto simp: assertWithinLimits_def Let_def split: if_splits)
  have "global_ok cap (bd_leases db') d (usage_of_day d db')" for d
    using g [of d] lims(1) by (auto simp: 1(3,7) pu opened_usage global_ok_def sums on_day_def)
  moreover have "user_ok cap (bd_leases db') d x (usage_of_user d x db')" for d x
    using u [of d x] lims(2-4) by (auto simp: 1(4,7) pu opened_usage user_ok_def sums on_day_def of_user_def)
  moreover have "list_all (\<lambda>p. 0 < lz_maxCost (snd p) \<and> 0 \<le> lz_createListing (snd p) \<and> 0 \<le> lz_cancelListing (snd p)) (bd_leases db')"
    using assms(2) v by (auto simp: 1(7) budget_ok_def list_all_iff dest!: in_set_update)
  ultimately show ?thesis using assms(2) by (simp add: budget_ok_def 1(7) distinct_update)
qed

lemma transition_steps:
  assumes "transitionLease i target db = Inr db'" "target \<noteq> LeaseReserved"
  obtains (same) l where "map_get (bd_leases db) i = Some l" "lz_state l = target" "db' = db"
  | (moved) l g u db1 keep where "map_get (bd_leases db) i = Some l" "lz_state l = LeaseReserved"
      "g = usage_of_day (lz_policyDay l) db" "u = usage_of_user (lz_policyDay l) (lz_subject l) db"
      "keep = (\<lambda>n. if target = LeaseCommitted then n else 0)"
      "put_usage (lz_policyDay l) (lz_subject l)
          (g\<lparr>cu_reserved := cu_reserved g - lz_maxCost l, cu_committed := cu_committed g + keep (lz_maxCost l)\<rparr>)
          (u\<lparr>cu_reserved := cu_reserved u - lz_maxCost l, cu_committed := cu_committed u + keep (lz_maxCost l),
             uu_reservedCreate := uu_reservedCreate u - lz_createListing l,
             uu_committedCreate := uu_committedCreate u + keep (lz_createListing l),
             uu_reservedCancel := uu_reservedCancel u - lz_cancelListing l,
             uu_committedCancel := uu_committedCancel u + keep (lz_cancelListing l)\<rparr>) db = Inr db1"
      "db' = db1\<lparr>bd_leases := map_set i (l\<lparr>lz_state := target\<rparr>) (bd_leases db)\<rparr>"
proof -
  obtain l where l: "map_get (bd_leases db) i = Some l" using assms(1) by (auto simp: transitionLease_def split: option.splits)
  show thesis
  proof (cases "lz_state l = target")
    case True
    then show ?thesis using assms(1) l by (intro same [OF l]) (auto simp: transitionLease_def)
  next
    case False
    then obtain g u db1 where s: "lz_state l = LeaseReserved" "lockGlobalUsage (lz_policyDay l) db = Inr g"
      "lockUserUsage (lz_policyDay l) (lz_subject l) db = Inr u"
      "put_usage (lz_policyDay l) (lz_subject l)
          (g\<lparr>cu_reserved := cu_reserved g - lz_maxCost l, cu_committed := cu_committed g + (if target = LeaseCommitted then lz_maxCost l else 0)\<rparr>)
          (u\<lparr>cu_reserved := cu_reserved u - lz_maxCost l, cu_committed := cu_committed u + (if target = LeaseCommitted then lz_maxCost l else 0),
             uu_reservedCreate := uu_reservedCreate u - lz_createListing l,
             uu_committedCreate := uu_committedCreate u + (if target = LeaseCommitted then lz_createListing l else 0),
             uu_reservedCancel := uu_reservedCancel u - lz_cancelListing l,
             uu_committedCancel := uu_committedCancel u + (if target = LeaseCommitted then lz_cancelListing l else 0)\<rparr>) db = Inr db1"
      "db' = db1\<lparr>bd_leases := map_set i (l\<lparr>lz_state := target\<rparr>) (bd_leases db1)\<rparr>"
      using assms(1) l by (auto simp: transitionLease_def Let_def split: if_splits)
    show ?thesis
      by (rule moved [OF l s(1), of g u "\<lambda>n. if target = LeaseCommitted then n else 0" db1])
        (use s(4,5) lock_usage(1) [OF s(2)] lock_usage(2) [OF s(3)] put_usage_usage(3) [OF s(4)] in simp_all)
  qed
qed

lemma lease_transition_ok:
  assumes "transitionLease i target db = Inr db'" "target \<noteq> LeaseReserved" "budget_ok cap db"
  shows "budget_ok cap db'"
  using assms(1,2)
proof (cases rule: transition_steps)
  case (same l)
  then show ?thesis using assms(3) by simp
next
  case (moved l g u db1 keep)
  note pu = put_usage_usage [OF moved(6)]
  have pos: "0 < lz_maxCost l" "0 \<le> lz_createListing l" "0 \<le> lz_cancelListing l"
    using map_of_SomeD [OF moved(1)] assms(3) by (auto simp: budget_ok_def list_all_iff)
  have sums: "map_sum h (map_set i (l\<lparr>lz_state := st\<rparr>) (bd_leases db)) = map_sum h (bd_leases db) + h (l\<lparr>lz_state := st\<rparr>) - h l" for h st
    by (simp add: map_sum_update moved(1))
  have g: "global_ok cap (bd_leases db) d (usage_of_day d db)" and u: "user_ok cap (bd_leases db) d x (usage_of_user d x db)" for d x
    using assms(3) by (simp_all add: budget_ok_def)
  have "global_ok cap (bd_leases db') d (usage_of_day d db')" for d
    using g [of d] pos assms(2) by (cases target) (auto simp: moved(2,3,5,7) pu global_ok_def sums on_day_def)
  moreover have "user_ok cap (bd_leases db') d x (usage_of_user d x db')" for d x
    using u [of d x] pos assms(2) by (cases target) (auto simp: moved(2,4,5,7) pu user_ok_def sums on_day_def of_user_def)
  moreover have "list_all (\<lambda>p. 0 < lz_maxCost (snd p) \<and> 0 \<le> lz_createListing (snd p) \<and> 0 \<le> lz_cancelListing (snd p)) (bd_leases db')"
    using assms(3) pos by (auto simp: moved(7) budget_ok_def list_all_iff dest!: in_set_update)
  ultimately show ?thesis using assms(3) by (simp add: budget_ok_def moved(7) distinct_update)
qed

section \<open>Signatures\<close>

text \<open>Every sponsorship that was created has its own lease, and that lease was not released.\<close>

definition signed_ok :: "budget_db \<times> signed_entry list \<Rightarrow> bool" where
  "signed_ok = (\<lambda>(db, signed). distinct (map fst signed) \<and>
     list_all (\<lambda>(i, day, subject, c). case map_get (bd_leases db) i of None \<Rightarrow> False
       | Some l \<Rightarrow> lz_state l \<noteq> LeaseReleased \<and> lz_policyDay l = day \<and> lz_subject l = subject \<and> lz_maxCost l = c) signed)"

lemma map_sum_delete:
  "distinct (map fst m) \<Longrightarrow> map_get m k = Some v \<Longrightarrow> map_sum h m = map_sum h (AList.delete k m) + h v"
  by (induction m) (auto simp: delete_id split: if_splits)

lemma signed_sum:
  assumes "distinct (map fst xs)" "distinct (map fst m)" "\<forall>p \<in> set m. 0 \<le> h (snd p)"
    and "\<And>k c. (k, c) \<in> set xs \<Longrightarrow> \<exists>v. map_get m k = Some v \<and> c \<le> h v"
  shows "sum_list (map snd xs) \<le> map_sum h m"
  using assms
proof (induction xs arbitrary: m)
  case Nil
  then show ?case using map_sum_nonneg [of m h] by simp
next
  case (Cons x xs)
  obtain k c where x: "x = (k, c)" by (cases x)
  obtain v where v: "map_get m k = Some v" "c \<le> h v" using Cons.prems(4) [of k c] by (auto simp: x)
  have dist: "distinct (map fst (AList.delete k m))" using Cons.prems(2) by (rule distinct_delete)
  have rest: "\<exists>v. map_get (AList.delete k m) k' = Some v \<and> c' \<le> h v" if kc: "(k', c') \<in> set xs" for k' c'
  proof -
    have "k' \<noteq> k" using Cons.prems(1) kc by (force simp: x)
    then show ?thesis using Cons.prems(4) [of k' c'] kc by (simp add: delete_conv')
  qed
  have "sum_list (map snd xs) \<le> map_sum h (AList.delete k m)" 
    by (rule Cons.IH [OF _ dist _ rest]) (use Cons.prems(1,3) in \<open>auto simp: AList.delete_eq\<close>)
  moreover have "map_sum h m = map_sum h (AList.delete k m) + h v"
    by (rule map_sum_delete [OF Cons.prems(2) v(1)])
  ultimately show ?case using v(2) by (simp add: x)
qed

definition route_ok :: "budget_limits \<Rightarrow> budget_db \<times> signed_entry list \<Rightarrow> bool" where
  "route_ok cap s = (budget_ok cap (fst s) \<and> signed_ok s)"

lemma faulty_cases: "faulty f g s = (e, t) \<Longrightarrow> t = s \<or> g s = Inr t"
  by (auto simp: faulty_def split: fault.splits sum.splits)

lemma faulty_done: "faulty f g s = (None, t) \<Longrightarrow> g s = Inr t"
  by (auto simp: faulty_def split: fault.splits sum.splits)

lemma reserve_lease:
  assumes "reserve_budget ga i r db = Inr db'"
  shows "map_get (bd_leases db) i = None \<and> (\<forall>k. k \<noteq> i \<longrightarrow> map_get (bd_leases db') k = map_get (bd_leases db) k) \<and>
    (\<exists>l. map_get (bd_leases db') i = Some l \<and> lz_state l = LeaseReserved \<and> lz_policyDay l = br_policyDay r \<and>
       lz_subject l = br_subject r \<and> lz_maxCost l = br_maxCost r)"
  using assms by (cases rule: reserve_steps) (auto simp: update_conv')

lemma transition_lease:
  assumes "transitionLease i target db = Inr db'" "target \<noteq> LeaseReserved"
  shows "(\<forall>k. k \<noteq> i \<longrightarrow> map_get (bd_leases db') k = map_get (bd_leases db) k) \<and>
    (\<exists>l. map_get (bd_leases db) i = Some l \<and> map_get (bd_leases db') i = Some (l\<lparr>lz_state := target\<rparr>))"
  using assms by (cases rule: transition_steps) (auto simp: update_conv')

lemma signed_ok_keep:
  assumes "signed_ok (db, signed)" "i \<notin> fst ` set signed" "\<forall>k. k \<noteq> i \<longrightarrow> map_get (bd_leases db') k = map_get (bd_leases db) k"
  shows "signed_ok (db', signed)"
proof -
  have "k \<noteq> i" if "(k, x) \<in> set signed" for k x using assms(2) that by force
  then show ?thesis using assms(1,3) by (fastforce simp: signed_ok_def list_all_iff)
qed

lemma issue_ok:
  assumes "route_ok cap (db, signed)" "rq_leaseId rq \<notin> fst ` set signed"
    and "map_get (bd_leases db) (rq_leaseId rq) = Some l" "lz_state l = LeaseReserved" "lz_policyDay l = br_policyDay r"
    and "lz_subject l = br_subject r" "lz_maxCost l = br_maxCost r"
  shows "route_ok cap (snd (issue_sponsorship opts rq r u (db, signed)))"
proof (cases "createSponsorship (rt_sign opts) (rt_config opts) u (br_maxCost r) (rq_nowSeconds rq)")
  case (Inl e)
  obtain x db1 where f: "faulty (rq_releaseFault rq) (transitionLease (rq_leaseId rq) LeaseReleased) db = (x, db1)"
    by (cases "faulty (rq_releaseFault rq) (transitionLease (rq_leaseId rq) LeaseReleased) db")
  have "route_ok cap (db1, signed)"
  proof (cases "db1 = db")
    case False
    then have t: "transitionLease (rq_leaseId rq) LeaseReleased db = Inr db1" using faulty_cases [OF f] by simp
    have "signed_ok (db1, signed)"
      by (rule signed_ok_keep [of db, OF _ assms(2)]) (use assms(1) transition_lease [OF t] in \<open>simp_all add: route_ok_def\<close>)
    then show ?thesis using lease_transition_ok [OF t] assms(1) by (simp add: route_ok_def)
  qed (use assms(1) in simp)
  then show ?thesis using Inl f by (auto simp: issue_sponsorship_def split: option.splits)
next
  case (Inr sp)
  let ?signed = "signed @ [(rq_leaseId rq, br_policyDay r, br_subject r, br_maxCost r)]"
  obtain x db1 where f: "faulty (rq_commitFault rq) (transitionLease (rq_leaseId rq) LeaseCommitted) db = (x, db1)"
    by (cases "faulty (rq_commitFault rq) (transitionLease (rq_leaseId rq) LeaseCommitted) db")
  have ok: "signed_ok (db, ?signed)" using assms by (auto simp: signed_ok_def route_ok_def)
  have "route_ok cap (db1, ?signed)"
  proof (cases "db1 = db")
    case False
    then have t: "transitionLease (rq_leaseId rq) LeaseCommitted db = Inr db1" using faulty_cases [OF f] by simp
    have "signed_ok (db1, signed)"
      by (rule signed_ok_keep [of db, OF _ assms(2)]) (use assms(1) transition_lease [OF t] in \<open>simp_all add: route_ok_def\<close>)
    then have "signed_ok (db1, ?signed)"
      using transition_lease [OF t] assms(2-7) by (auto simp: signed_ok_def)
    then show ?thesis using lease_transition_ok [OF t] assms(1) by (simp add: route_ok_def)
  qed (use assms(1) ok in \<open>simp add: route_ok_def\<close>)
  then show ?thesis using Inr f by (auto simp: issue_sponsorship_def Let_def split: option.splits)
qed

lemma route_keeps:
  assumes "route_ok cap s" "rt_limits opts = cap"
  shows "route_ok cap (snd (sponsorship_route opts rq s))"
proof -
  obtain db signed where s: "s = (db, signed)" by (cases s)
  have "route_ok cap (snd (sponsorship_route opts rq s))"
    if v: "rq_subject rq = Some subject" "rq_body rq = Some (u, maxCost)"
      "policy_validate (rt_lib opts) (rt_policy opts) u maxCost = Inr counts" for subject u maxCost counts
  proof -
    let ?r = "budget_request_of opts rq subject u maxCost counts"
    have lim: "br_limits ?r = cap" using assms(2) by (simp add: budget_request_of_def)
    obtain x db1 where f: "faulty (rq_reserveFault rq) (reserve_budget (sl_getAddress (rt_lib opts)) (rq_leaseId rq) ?r) db = (x, db1)"
      by (cases "faulty (rq_reserveFault rq) (reserve_budget (sl_getAddress (rt_lib opts)) (rq_leaseId rq) ?r) db")
    have ok1: "route_ok cap (db1, signed) \<and> (x = None \<longrightarrow> rq_leaseId rq \<notin> fst ` set signed)"
    proof (cases "db1 = db \<and> x \<noteq> None")
      case False
      then have t: "reserve_budget (sl_getAddress (rt_lib opts)) (rq_leaseId rq) ?r db = Inr db1"
        using faulty_cases [OF f] faulty_done f by (cases x) auto
      note l = reserve_lease [OF t]
      have fresh: "rq_leaseId rq \<notin> fst ` set signed"
        using l assms(1) by (force simp: s route_ok_def signed_ok_def list_all_iff)
      have "signed_ok (db1, signed)"
        by (rule signed_ok_keep [of db, OF _ fresh]) (use assms(1) l in \<open>simp_all add: s route_ok_def\<close>)
      then show ?thesis using fresh reserve_ok [OF t _ lim] assms(1) by (simp add: route_ok_def s)
    qed (use assms(1) s in auto)
    show ?thesis
    proof (cases x)
      case None
      then have t: "reserve_budget (sl_getAddress (rt_lib opts)) (rq_leaseId rq) ?r db = Inr db1" using f faulty_done by simp
      obtain l where l: "map_get (bd_leases db1) (rq_leaseId rq) = Some l" "lz_state l = LeaseReserved" "lz_policyDay l = br_policyDay ?r"
        "lz_subject l = br_subject ?r" "lz_maxCost l = br_maxCost ?r" using reserve_lease [OF t] by blast
      have "route_ok cap (snd (issue_sponsorship opts rq ?r u (db1, signed)))"
        by (rule issue_ok [OF _ _ l]) (use ok1 None in simp_all)
      then show ?thesis using v f None by (simp add: sponsorship_route_def s Let_def)
    qed (use v f ok1 in \<open>simp add: sponsorship_route_def s Let_def\<close>)
  qed
  then show ?thesis
    using assms(1) by (cases "rq_subject rq"; cases "rq_body rq") (auto simp: sponsorship_route_def split: sum.splits prod.splits)
qed

lemma runs_keep:
  "route_ok cap s \<Longrightarrow> rt_limits opts = cap \<Longrightarrow> route_ok cap (sponsorship_runs opts rqs s)"
  by (induction rqs arbitrary: s) (simp_all add: route_keeps)

text \<open>
  C5. The budget holds whatever fails: however requests are refused, signing fails, or the connection is lost before
  or after a transaction took effect, the sponsorships created for a day cost at most the daily limit, and those of
  one subject at most the subject's.
\<close>

theorem sponsorships_within_budget:
  assumes "limits_ok (rt_limits opts)" "sponsorship_runs opts rqs (empty_budget, []) = (db, signed)"
  shows "sum_list (map (\<lambda>(i, day, subject, c). if day = d then c else 0) signed) \<le> bl_maxCostGlobalDay (rt_limits opts) \<and>
    sum_list (map (\<lambda>(i, day, subject, c). if day = d \<and> subject = x then c else 0) signed) \<le> bl_maxCostPerUserDay (rt_limits opts)"
proof -
  let ?cap = "rt_limits opts" and ?m = "bd_leases db"
  let ?h = "\<lambda>l. on_day LeaseReserved d lz_maxCost l + on_day LeaseCommitted d lz_maxCost l"
  let ?k = "\<lambda>l. of_user LeaseReserved d x lz_maxCost l + of_user LeaseCommitted d x lz_maxCost l"
  have "route_ok ?cap (empty_budget, [])" using empty_budget_ok [OF assms(1)] by (simp add: route_ok_def signed_ok_def)
  from runs_keep [OF this refl, of rqs] have ok: "budget_ok ?cap db" "signed_ok (db, signed)"
    by (simp_all add: assms(2) route_ok_def)
  have m: "distinct (map fst ?m)" "\<forall>p \<in> set ?m. 0 \<le> ?h (snd p)" "\<forall>p \<in> set ?m. 0 \<le> ?k (snd p)"
    using ok(1) by (auto simp: budget_ok_def list_all_iff on_day_def of_user_def)
  have lease: "\<exists>l. map_get ?m i = Some l \<and> lz_state l \<noteq> LeaseReleased \<and> lz_policyDay l = day \<and> lz_subject l = subject \<and> lz_maxCost l = c"
    if "(i, day, subject, c) \<in> set signed" for i day subject c
    using ok(2) that by (fastforce simp: signed_ok_def list_all_iff split: option.splits)
  have live: "st \<noteq> LeaseReleased \<longleftrightarrow> st = LeaseReserved \<or> st = LeaseCommitted" for st by (cases st) simp_all
  let ?xs = "map (\<lambda>(i, day, subject, c). (i, c)) (filter (\<lambda>(i, day, subject, c). day = d) signed)"
  let ?ys = "map (\<lambda>(i, day, subject, c). (i, c)) (filter (\<lambda>(i, day, subject, c). day = d \<and> subject = x) signed)"
  have keys: "map fst (map (\<lambda>(i, day, subject, c). (i, c)) zs) = map fst zs" for zs :: "signed_entry list" by auto
  have "distinct (map fst signed)" using ok(2) by (simp add: signed_ok_def)
  then have dist: "distinct (map fst ?xs)" "distinct (map fst ?ys)" unfolding keys by (simp_all add: distinct_map_filter)
  have "sum_list (map snd ?xs) \<le> map_sum ?h ?m"
    by (rule signed_sum [OF dist(1) m(1,2)]) (use lease live in \<open>fastforce simp: on_day_def\<close>)
  moreover have "sum_list (map snd ?ys) \<le> map_sum ?k ?m"
    by (rule signed_sum [OF dist(2) m(1,3)]) (use lease live in \<open>fastforce simp: on_day_def of_user_def\<close>)
  moreover have "map_sum (\<lambda>l. f l + g l) t = map_sum f t + map_sum g t" for f g :: "lease \<Rightarrow> int" and t :: "(string, lease) jsmap"
    by (induction t) auto
  moreover have "global_ok ?cap ?m d (usage_of_day d db)" "user_ok ?cap ?m d x (usage_of_user d x db)"
    using ok(1) by (simp_all add: budget_ok_def)
  moreover have "sum_list (map snd ?xs) = sum_list (map (\<lambda>(i, day, subject, c). if day = d then c else 0) signed)"
    "sum_list (map snd ?ys) = sum_list (map (\<lambda>(i, day, subject, c). if day = d \<and> subject = x then c else 0) signed)"
    by (induction signed) (auto split: if_splits)
  ultimately show ?thesis by (simp add: global_ok_def user_ok_def)
qed

section \<open>The policy\<close>

definition selector_kind :: "sponsor_lib \<Rightarrow> account_call \<Rightarrow> sponsor_kind" where
  "selector_kind lib c = canonicalOperation lib (hex_slice 0 4 (ac_data c))"

definition admitted_call :: "sponsor_lib \<Rightarrow> sponsor_policy \<Rightarrow> account_call \<Rightarrow> bool" where
  "admitted_call lib p c =
     (ac_value c = 0 \<and>
      (case sl_getAddress lib (ac_target c) of None \<Rightarrow> False
       | Some target \<Rightarrow> Option.bind (map_get (sp_allowedTargets p) target) (\<lambda>m. map_get m (hex_slice 0 4 (ac_data c))) =
           Some (selector_kind lib c)) \<and>
      (if selector_kind lib c = SK_createListing
       then hex_size (ac_data c) = 164 \<and> sp_minSponsoredListingUnits p \<le> hexToBigInt (hex_slice 68 100 (ac_data c)) else True))"

definition calls_of_kind :: "sponsor_lib \<Rightarrow> sponsor_kind \<Rightarrow> account_call list \<Rightarrow> int" where
  "calls_of_kind lib k calls = int (length (filter (\<lambda>c. selector_kind lib c = k) calls))"

lemma validate_call_admits:
  assumes "newSponsorPolicy lib p = Inr p" "validate_call lib p c n = Inr n'"
  shows "admitted_call lib p c \<and> oc_createListing n' = oc_createListing n + calls_of_kind lib SK_createListing [c] \<and>
    oc_cancelListing n' = oc_cancelListing n + calls_of_kind lib SK_cancelListing [c]"
proof -
  obtain target m k where t: "sl_getAddress lib (ac_target c) = Some target" "map_get (sp_allowedTargets p) target = Some m"
    "map_get m (hex_slice 0 4 (ac_data c)) = Some k"
    using assms(2) by (auto simp: validate_call_def Option.bind_eq_Some_conv split: if_splits option.splits)
  have "canonicalOperation lib (hex_slice 0 4 (ac_data c)) = k"
    using assms(1) map_of_SomeD [OF t(2)] map_of_SomeD [OF t(3)]
    by (fastforce simp: newSponsorPolicy_def list_all_iff split: if_splits)
  then show ?thesis
    using assms(2) t by (auto simp: validate_call_def admitted_call_def selector_kind_def calls_of_kind_def
        split: if_splits sponsor_kind.splits)
qed

lemma validate_calls_admit:
  "validate_calls lib p calls n = Inr n' \<Longrightarrow> newSponsorPolicy lib p = Inr p \<Longrightarrow>
     list_all (admitted_call lib p) calls \<and> oc_createListing n' = oc_createListing n + calls_of_kind lib SK_createListing calls \<and>
     oc_cancelListing n' = oc_cancelListing n + calls_of_kind lib SK_cancelListing calls"
proof (induction calls arbitrary: n)
  case (Cons c calls)
  then obtain n1 where n1: "validate_call lib p c n = Inr n1" "validate_calls lib p calls n1 = Inr n'" by auto
  from validate_call_admits [OF Cons.prems(2) n1(1)] Cons.IH [OF n1(2) Cons.prems(2)] show ?case
    by (simp add: calls_of_kind_def)
qed (simp add: calls_of_kind_def)

text \<open>
  C28. Under an accepted policy a sponsored operation makes one to eight calls, all without value, to allowlisted
  targets and selectors, a listing has at least the minimum units, and the counts charged to the quotas are
  exactly the operation's listing calls.
\<close>

theorem sponsored_calls_counted:
  assumes "newSponsorPolicy lib p = Inr p" "policy_validate lib p u cost = Inr n"
  shows "\<exists>calls. sl_decode lib u = Inr calls \<and> 1 \<le> length calls \<and> length calls \<le> 8 \<and> list_all (admitted_call lib p) calls \<and>
    oc_createListing n = calls_of_kind lib SK_createListing calls \<and>
    oc_cancelListing n = calls_of_kind lib SK_cancelListing calls \<and> cost \<le> sp_maxCostPerRequest p"
proof -
  obtain calls where c: "sl_decode lib u = Inr calls" "calls \<noteq> []" "length calls \<le> 8" "cost \<le> sp_maxCostPerRequest p"
    "validate_calls lib p calls \<lparr>oc_createListing = 0, oc_cancelListing = 0\<rparr> = Inr n"
    using assms(2) by (auto simp: policy_validate_def not_less split: if_splits)
  then show ?thesis using validate_calls_admit [OF c(5) assms(1)] by (cases calls) auto
qed

section \<open>The paymaster data\<close>

lemma radix_hex: "0 \<le> d \<Longrightarrow> d < 16 \<Longrightarrow> radix_digit (hex_digit_char d) = nat d"
proof -
  assume "0 \<le> d" "d < 16"
  then have "d \<in> {0, 1, 2, 3, 4, 5, 6, 7, 8, 9, 10, 11, 12, 13, 14, 15}" by (simp, arith)
  then show ?thesis by (auto simp: hex_digit_char_def radix_digit_def)
qed

lemma hex_digits_length [simp]: "length (hex_digits k n) = k"
  by (induction k n rule: hex_digits.induct) simp_all

lemma hex_digits_value:
  "0 \<le> n \<Longrightarrow> n < 16 ^ k \<Longrightarrow>
     list_all (\<lambda>c. radix_digit c < 16) (hex_digits k n) \<and> int (foldl (\<lambda>m c. 16 * m + radix_digit c) 0 (hex_digits k n)) = n"
proof (induction k n rule: hex_digits.induct)
  case (2 k n)
  have "0 \<le> n div 16" "n div 16 < 16 ^ k" using 2(2,3) by (simp_all add: div_less_iff_less_mult mult.commute)
  note ih = "2.IH" [OF this]
  have d: "radix_digit (hex_digit_char (n mod 16)) = nat (n mod 16)" by (rule radix_hex) simp_all
  show ?case using ih by (simp add: d nat_less_iff)
qed simp

lemma hex_fixed_value:
  "hex_fixed bytes n = Inr s \<Longrightarrow> 0 < bytes \<Longrightarrow> length s = 2 * bytes \<and> hexToBigInt (''0x'' @ s) = n"
proof -
  assume "hex_fixed bytes n = Inr s" "0 < bytes"
  then have s: "s = hex_digits (2 * bytes) n" "0 \<le> n" "n < 16 ^ (2 * bytes)"
    by (auto simp: hex_fixed_def power_mult split: if_splits)
  then have "s \<noteq> []" using \<open>0 < bytes\<close> by (metis hex_digits_length length_greater_0_conv mult_pos_pos zero_less_numeral)
  then show ?thesis using hex_digits_value [OF s(2,3)] by (simp add: s(1) hexToBigInt_def parse_radix_def)
qed

lemma slice_at:
  "length pre = 2 * a \<Longrightarrow> length v = 2 * (b - a) \<Longrightarrow> hex_slice a b (''0x'' @ pre @ v @ post) = ''0x'' @ v"
  by (simp add: hex_slice_def)


section \<open>Samples\<close>

definition sponsor_sample :: route_options where
  "sponsor_sample =
     \<lparr>rt_lib = \<lparr>sl_selector = (\<lambda>s. if hd s = CHR ''c'' \<and> s ! 1 = CHR ''r'' then ''0x01020304'' else ''0x05060708''),
        sl_getAddress = Some, sl_decode = (\<lambda>u. Inr [\<lparr>ac_target = ''0xm'', ac_value = 0, ac_data = ''0x05060708''\<rparr>])\<rparr>,
      rt_policy = \<lparr>sp_allowedTargets = [(''0xm'', [(''0x05060708'', SK_cancelListing)])], sp_maxCostPerRequest = 9,
        sp_maxInitCodeBytes = 10, sp_maxCallDataBytes = 10, sp_minSponsoredListingUnits = 1\<rparr>,
      rt_config = \<lparr>sg_chainId = 421614, sg_entryPoint = ''0xe'', sg_paymaster = ''0x'' @ replicate 40 (CHR ''7''),
        sg_verificationGasLimit = 200000, sg_postOpGasLimit = 150000, sg_validitySeconds = 300, sg_policyVersion = 1\<rparr>,
      rt_limits = \<lparr>bl_createListingPerUserDay = 2, bl_cancelListingPerUserDay = 2, bl_maxCostPerUserDay = 10, bl_maxCostGlobalDay = 15\<rparr>,
      rt_sign = (\<lambda>_. Inr (''0x'' @ replicate 130 (CHR ''1'')))\<rparr>"

definition sponsored_operation :: user_operation where
  "sponsored_operation = \<lparr>uo_sender = ''0xs'', uo_nonce = 0, uo_initCode = ''0x'', uo_callData = ''0x0506'', uo_accountGasLimits = ''0x'',
     uo_preVerificationGas = 1, uo_gasFees = ''0x'', uo_signature = ''0x''\<rparr>"

definition sponsor_request :: "string \<Rightarrow> string \<Rightarrow> fault \<Rightarrow> route_request" where
  "sponsor_request i subject f = \<lparr>rq_subject = Some subject, rq_body = Some (sponsored_operation, 8), rq_nowSeconds = 100000,
     rq_leaseId = i, rq_reserveFault = NoFault, rq_commitFault = f, rq_releaseFault = NoFault\<rparr>"

text \<open>The commit of the first is lost, the second would exceed the day's limit.\<close>

definition sponsor_requests :: "route_request list" where
  "sponsor_requests = [sponsor_request ''i'' ''s'' LostBefore, sponsor_request ''j'' ''t'' NoFault]"

lemma sponsor_run:
  "map (\<lambda>(i, d, x, c). (i, c)) (snd (sponsorship_runs sponsor_sample sponsor_requests (empty_budget, []))) = [(''i'', 8)] \<and>
   policy_validate (rt_lib sponsor_sample) (rt_policy sponsor_sample) sponsored_operation 8 =
     Inr \<lparr>oc_createListing = 0, oc_cancelListing = 1\<rparr> \<and>
   (case createSponsorship (rt_sign sponsor_sample) (rt_config sponsor_sample) sponsored_operation 8 100000 of
      Inl _ \<Rightarrow> False | Inr _ \<Rightarrow> True)"
  by code_simp

theorem sponsorships_within_budget_witness:
  "\<exists>db signed. sponsorship_runs sponsor_sample sponsor_requests (empty_budget, []) = (db, signed) \<and> length signed = 1 \<and>
     sum_list (map (\<lambda>(i, day, subject, c). if day = 1 then c else 0) signed) \<le> 15"
proof -
  obtain db signed where s: "sponsorship_runs sponsor_sample sponsor_requests (empty_budget, []) = (db, signed)"
    by (cases "sponsorship_runs sponsor_sample sponsor_requests (empty_budget, [])")
  have l: "limits_ok (rt_limits sponsor_sample)" by (simp add: limits_ok_def sponsor_sample_def)
  have "length signed = 1" using arg_cong [OF sponsor_run [THEN conjunct1], of length] s by simp
  then show ?thesis using s sponsorships_within_budget [OF l s, of 1] by (auto simp: sponsor_sample_def)
qed

theorem sponsored_calls_counted_witness:
  "\<exists>calls. sl_decode (rt_lib sponsor_sample) sponsored_operation = Inr calls \<and>
     calls_of_kind (rt_lib sponsor_sample) SK_cancelListing calls = 1"
proof -
  have "newSponsorPolicy (rt_lib sponsor_sample) (rt_policy sponsor_sample) = Inr (rt_policy sponsor_sample)"
    by (simp add: newSponsorPolicy_def sponsor_sample_def canonicalOperation_def)
  from sponsored_calls_counted [OF this, of sponsored_operation 8] sponsor_run show ?thesis by auto
qed


end
