(* ===== verification/Spec2Isabelle.thy ===== *)
theory Spec2Isabelle
  imports Pnl_Accounting Leaderboard Entitlements Evidence Sdk_Rules Derived Memory_Indexing Memory_Queries
    App_Invariant Reconciliation Ledger_Conservation Pg_Coverage Pg_Indexing Ledger_Sources
    Rpc_Admission App_Service Admission_Reader Paymaster
begin

text \<open>
  Verification library of the off-chain services of cpredict.
\<close>

end
